(* ===== verification/Prelude.thy ===== *)
theory Prelude
  imports Main "HOL-Library.AList" "HOL-Library.Char_ord" "HOL-Library.List_Lexorder"
    "HOL-Library.Product_Lexorder" "HOL-Library.Multiset" "HOL-Library.Word"
begin

text \<open>
  Shared vocabulary of the development.

  \<^item> Go values: byte slices, strings (byte sequences), durations and instants.
  \<^item> Go errors: a function whose only result is an \<open>error\<close> returns a \<open>verdict\<close>, where
    \<open>None\<close> is the nil error. \<open>and_then\<close> is the idiom \<open>if err := f(); err != nil { return err }\<close>,
    \<open>each\<close> is the same idiom inside a \<open>for range\<close> loop.
  \<^item> Go channels that are only ever closed: \<open>close_chan\<close> panics on a second close.
  \<^item> Runs of a labelled step relation, the invariant rule for them and the one-shot rule
    (a label that can fire at most once), each stated once as a locale.
\<close>

section \<open>Go values\<close>

type_synonym bytes = "8 word list"

text \<open>
  Instants and durations count nanoseconds. Instant \<open>0\<close> is Go's zero \<open>time.Time\<close>.
\<close>

type_synonym instant = int
type_synonym duration = int

abbreviation (input) zero_time :: instant where
  "zero_time \<equiv> 0"

section \<open>Errors as verdicts\<close>

named_theorems verdict_simps \<open>characterisations of validators by what they accept\<close>

type_synonym 'e verdict = "'e option"

definition and_then :: "'e verdict \<Rightarrow> 'e verdict \<Rightarrow> 'e verdict" where
  "and_then a b = (case a of None \<Rightarrow> b | Some e \<Rightarrow> Some e)"

definition fail_if :: "bool \<Rightarrow> 'e \<Rightarrow> 'e verdict" where
  "fail_if c e = (if c then Some e else None)"

fun each :: "('a \<Rightarrow> 'e verdict) \<Rightarrow> 'a list \<Rightarrow> 'e verdict" where
  "each f [] = None"
| "each f (x # xs) = and_then (f x) (each f xs)"

lemma and_then_None [verdict_simps]: "and_then a b = None \<longleftrightarrow> a = None \<and> b = None"
  by (cases a) (auto simp: and_then_def)

lemma and_then_Some: "and_then a b = Some e \<longleftrightarrow> a = Some e \<or> (a = None \<and> b = Some e)"
  by (cases a) (auto simp: and_then_def)

lemma and_then_simps [simp]:
  "and_then None b = b" "and_then (Some e) b = Some e"
  by (simp_all add: and_then_def)

lemma fail_if_None [verdict_simps]: "fail_if c e = None \<longleftrightarrow> \<not> c"
  by (simp add: fail_if_def)

lemma fail_if_simps [simp]: "fail_if True e = Some e" "fail_if False e = None"
  by (simp_all add: fail_if_def)

lemma each_None [verdict_simps]: "each f xs = None \<longleftrightarrow> (\<forall>x \<in> set xs. f x = None)"
  by (induction xs) (auto simp: and_then_None)

lemma each_Some_first:
  "each f xs = Some e \<Longrightarrow> \<exists>us x vs. xs = us @ x # vs \<and> (\<forall>u \<in> set us. f u = None) \<and> f x = Some e"
proof (induction xs)
  case Nil
  then show ?case by simp
next
  case (Cons x xs)
  show ?case
  proof (cases "f x")
    case None
    with Cons obtain us y vs where "xs = us @ y # vs" "\<forall>u \<in> set us. f u = None" "f y = Some e"
      by auto
    with None have "x # xs = (x # us) @ y # vs \<and> (\<forall>u \<in> set (x # us). f u = None) \<and> f y = Some e"
      by simp
    then show ?thesis by blast
  next
    case (Some a)
    with Cons.prems have "x # xs = [] @ x # xs \<and> (\<forall>u \<in> set []. f u = None) \<and> f x = Some e"
      by simp
    then show ?thesis by blast
  qed
qed

section \<open>Results\<close>

text \<open>
  A function that returns a value and an error returns a sum, \<open>Inl\<close> the error. \<open>attempt\<close> is the
  idiom \<open>x, err := f(); if err != nil { return err }\<close>, \<open>require\<close> the same for a verdict.
\<close>

definition attempt :: "'e + 'a \<Rightarrow> ('a \<Rightarrow> 'e + 'b) \<Rightarrow> 'e + 'b" where
  "attempt r f = (case r of Inl e \<Rightarrow> Inl e | Inr x \<Rightarrow> f x)"

definition require :: "'e verdict \<Rightarrow> 'e + 'a \<Rightarrow> 'e + 'a" where
  "require v r = (case v of Some e \<Rightarrow> Inl e | None \<Rightarrow> r)"

lemma attempt_simps [simp]: "attempt (Inl e) f = Inl e" "attempt (Inr x) f = f x"
  by (simp_all add: attempt_def)

lemma require_simps [simp]: "require None r = r" "require (Some e) r = Inl e"
  by (simp_all add: require_def)

lemma attempt_Inr [verdict_simps]: "attempt r f = Inr y \<longleftrightarrow> (\<exists>x. r = Inr x \<and> f x = Inr y)"
  by (cases r) auto

lemma require_Inr [verdict_simps]: "require v r = Inr y \<longleftrightarrow> v = None \<and> r = Inr y"
  by (cases v) auto

section \<open>Channels that signal by closing\<close>

text \<open>\<open>None\<close> is the run-time panic "close of closed channel".\<close>

definition close_chan :: "bool \<Rightarrow> bool option" where
  "close_chan closed = (if closed then None else Some True)"

lemma close_chan_simps [simp]: "close_chan False = Some True" "close_chan True = None"
  by (simp_all add: close_chan_def)

section \<open>Association lists as Go maps\<close>

text \<open>
  A Go map is an association list with distinct keys. Lookups stay in the form
  \<open>map_of al k = Some v\<close> rather than being turned into membership.
\<close>

declare map_of_eq_Some_iff [simp del]

lemma map_of_in_set: "map_of al k = Some v \<Longrightarrow> (k, v) \<in> set al"
  by (rule map_of_SomeD)

lemma distinct_map_of_iff:
  "distinct (map fst al) \<Longrightarrow> map_of al k = Some v \<longleftrightarrow> (k, v) \<in> set al"
  by (rule map_of_eq_Some_iff)

lemma map_of_keys_None: "map_of al k = None \<longleftrightarrow> k \<notin> fst ` set al"
  by (rule map_of_eq_None_iff)

lemma length_update_present: "map_of al k \<noteq> None \<Longrightarrow> length (AList.update k v al) = length al"
  by (induction al) auto

section \<open>Runs of labelled step relations\<close>

inductive run :: "('s \<Rightarrow> 'l \<Rightarrow> 's \<Rightarrow> bool) \<Rightarrow> 's \<Rightarrow> 'l list \<Rightarrow> 's \<Rightarrow> bool"
  for step :: "'s \<Rightarrow> 'l \<Rightarrow> 's \<Rightarrow> bool"
where
  run_nil: "run step s [] s"
| run_cons: "step s l t \<Longrightarrow> run step t ls u \<Longrightarrow> run step s (l # ls) u"

inductive_simps run_Nil_iff [simp]: "run step s [] t"
inductive_simps run_Cons_iff: "run step s (l # ls) t"

lemma run_append: "run step s ls t \<Longrightarrow> run step t ms u \<Longrightarrow> run step s (ls @ ms) u"
  by (induction rule: run.induct) (auto intro: run.intros)

lemma run_split:
  "run step s (ls @ ms) u \<Longrightarrow> \<exists>t. run step s ls t \<and> run step t ms u"
proof (induction ls arbitrary: s)
  case Nil
  then show ?case by (auto intro: run.intros)
next
  case (Cons l ls)
  then obtain t where t: "step s l t" "run step t (ls @ ms) u" by (auto simp: run_Cons_iff)
  from Cons.IH [OF t(2)] obtain v where "run step t ls v" "run step v ms u" by blast
  with t(1) show ?case by (auto intro: run.intros)
qed

text \<open>An invariant of every step is an invariant of every run.\<close>

locale step_invariant =
  fixes step :: "'s \<Rightarrow> 'l \<Rightarrow> 's \<Rightarrow> bool"
    and inv :: "'s \<Rightarrow> bool"
  assumes step_inv: "inv s \<Longrightarrow> step s l t \<Longrightarrow> inv t"
begin

lemma run_inv: "run step s ls t \<Longrightarrow> inv s \<Longrightarrow> inv t"
  by (induction rule: run.induct) (auto intro: step_inv)

text \<open>A relation that every step from an invariant state respects lifts to runs.\<close>

lemma run_rel:
  assumes refl: "\<And>s. rel s s" and trans: "\<And>s t u. rel s t \<Longrightarrow> rel t u \<Longrightarrow> rel s u"
    and step_rel: "\<And>s l t. inv s \<Longrightarrow> step s l t \<Longrightarrow> rel s t"
  shows "run step s ls t \<Longrightarrow> inv s \<Longrightarrow> rel s t"
proof (induction rule: run.induct)
  case (run_nil s)
  show ?case by (rule refl)
next
  case (run_cons s l t ls u)
  then have "rel s t" and "rel t u" by (auto intro: step_rel step_inv)
  then show ?case by (rule trans)
qed

end

text \<open>
  One-shot labels: firing needs the capability unspent and spends it, and nothing
  restores a spent one. Then no run fires twice.
\<close>

locale one_shot = step_invariant +
  fixes fires :: "'b \<Rightarrow> bool"
    and spent :: "'a \<Rightarrow> bool"
  assumes fire_spends: "inv s \<Longrightarrow> step s l t \<Longrightarrow> fires l \<Longrightarrow> \<not> spent s \<and> spent t"
    and spent_stable: "inv s \<Longrightarrow> step s l t \<Longrightarrow> spent s \<Longrightarrow> spent t"
begin

lemma fires_at_most_once:
  "run step s ls t \<Longrightarrow> inv s \<Longrightarrow> length (filter fires ls) \<le> (if spent s then 0 else 1)"
proof (induction rule: run.induct)
  case (run_nil s)
  show ?case by simp
next
  case (run_cons s l t ls u)
  have "inv t" using step_inv run_cons.prems run_cons.hyps(1) by blast
  then have IH: "length (filter fires ls) \<le> (if spent t then 0 else 1)"
    by (rule run_cons.IH)
  with run_cons show ?case
    using fire_spends spent_stable by (auto split: if_splits)
qed

lemma fires_spent:
  "run step s ls t \<Longrightarrow> inv s \<Longrightarrow> \<exists>l \<in> set ls. fires l \<Longrightarrow> spent t"
proof (induction rule: run.induct)
  case (run_nil s)
  then show ?case by simp
next
  case (run_cons s l t ls u)
  have inv_t: "inv t" using run_cons by (auto intro: step_inv)
  have keep: "spent t \<Longrightarrow> spent u"
    using run_rel [of "\<lambda>s t. spent s \<longrightarrow> spent t", OF _ _ _ run_cons(2) inv_t] spent_stable
    by blast
  show ?case using run_cons inv_t keep fire_spends by auto
qed

end

text \<open>
  Explained facts: whatever holds of a state was there at the start or some label of the run
  explains it; justified facts are those with one explaining label each.
\<close>

locale explained = step_invariant +
  fixes holds :: "'a \<Rightarrow> 'c \<Rightarrow> bool"
    and explains :: "'c \<Rightarrow> 'b \<Rightarrow> bool"
  assumes new_explained: "inv s \<Longrightarrow> step s l t \<Longrightarrow> holds t c \<Longrightarrow> holds s c \<or> explains c l"
begin

lemma run_explained:
  "run step s ls t \<Longrightarrow> inv s \<Longrightarrow> holds t c \<Longrightarrow> holds s c \<or> (\<exists>l \<in> set ls. explains c l)"
proof (induction rule: run.induct)
  case (run_nil s)
  then show ?case by simp
next
  case (run_cons s l t ls u)
  then have "holds t c \<or> (\<exists>l \<in> set ls. explains c l)" using step_inv by blast
  then show ?case using run_cons new_explained by auto
qed

end

locale justified = step_invariant +
  fixes holds :: "'a \<Rightarrow> 'c \<Rightarrow> bool"
    and reason :: "'c \<Rightarrow> 'b"
  assumes new_fact: "inv s \<Longrightarrow> step s l t \<Longrightarrow> holds t c \<Longrightarrow> holds s c \<or> l = reason c"

sublocale justified \<subseteq> explained step inv holds "\<lambda>c l. l = reason c"
  by unfold_locales (rule new_fact)

context justified
begin

lemma run_justified:
  "run step s ls t \<Longrightarrow> inv s \<Longrightarrow> holds t c \<Longrightarrow> holds s c \<or> reason c \<in> set ls"
  using run_explained by blast

end

end
