(* ===== verification/Permission.thy ===== *)
theory Permission
  imports Prelude
begin

text \<open>
  \<open>internal/permission\<close>: configured rules, their textual form, and the resolution of a rule,
  the caller's default and yolo mode into an outcome; and \<open>PermissionRule\<close> of
  \<open>internal/config/app\<close>, the lookup of the rule configured for an action.
\<close>

datatype rule = RuleUnset | RuleAllow | RuleDeny | RuleAsk | RuleAlwaysAsk

datatype outcome = Deny | Allow | Ask

datatype permission_error = InvalidRule string

definition ParseRule :: "string \<Rightarrow> permission_error + rule" where
  "ParseRule v =
     (if v = ''allow'' then Inr RuleAllow
      else if v = ''deny'' then Inr RuleDeny
      else if v = ''ask'' then Inr RuleAsk
      else if v = ''always-ask'' then Inr RuleAlwaysAsk
      else Inl (InvalidRule v))"

fun Rule_String :: "rule \<Rightarrow> string" where
  "Rule_String RuleAllow = ''allow''"
| "Rule_String RuleDeny = ''deny''"
| "Rule_String RuleAsk = ''ask''"
| "Rule_String RuleAlwaysAsk = ''always-ask''"
| "Rule_String RuleUnset = ''unset''"

fun Outcome_String :: "outcome \<Rightarrow> string" where
  "Outcome_String Allow = ''allow''"
| "Outcome_String Ask = ''ask''"
| "Outcome_String Deny = ''deny''"

text \<open>
  The first \<open>switch\<close> of \<open>Resolve\<close> decides explicit deny, explicit always-ask, yolo and
  explicit allow in that order; the second resolves what is left against the default.
\<close>

definition Resolve :: "rule \<Rightarrow> rule \<Rightarrow> bool \<Rightarrow> outcome" where
  "Resolve rule defaultRule yolo =
     (if rule = RuleDeny then Deny
      else if rule = RuleAlwaysAsk then Ask
      else if yolo then Allow
      else if rule = RuleAllow then Allow
      else (let rule = (if rule = RuleUnset then defaultRule else rule) in
            (case rule of RuleAllow \<Rightarrow> Allow | RuleDeny \<Rightarrow> Deny | _ \<Rightarrow> Ask)))"

text \<open>A Go map read yields the zero value \<open>RuleUnset\<close> for an absent key.\<close>

definition PermissionRule :: "(string \<times> rule) list \<Rightarrow> string \<Rightarrow> rule" where
  "PermissionRule actions a = (case map_of actions a of None \<Rightarrow> RuleUnset | Some r \<Rightarrow> r)"

section \<open>What resolution grants\<close>

lemma Resolve_Allow:
  "Resolve r d y = Allow \<longleftrightarrow>
     r \<noteq> RuleDeny \<and> r \<noteq> RuleAlwaysAsk \<and> (y \<or> r = RuleAllow \<or> (r = RuleUnset \<and> d = RuleAllow))"
  by (cases r; cases d) (auto simp: Resolve_def)

lemma Resolve_Deny:
  "Resolve r d y = Deny \<longleftrightarrow> r = RuleDeny \<or> (\<not> y \<and> r = RuleUnset \<and> d = RuleDeny)"
  by (cases r; cases d) (auto simp: Resolve_def)

lemma Resolve_Ask:
  "Resolve r d y = Ask \<longleftrightarrow>
     r = RuleAlwaysAsk \<or>
     (\<not> y \<and> (r = RuleAsk \<or> (r = RuleUnset \<and> d \<noteq> RuleAllow \<and> d \<noteq> RuleDeny)))"
  by (cases r; cases d) (auto simp: Resolve_def)

lemmas Resolve_iffs = Resolve_Allow Resolve_Deny Resolve_Ask

lemma ParseRule_Inr:
  "ParseRule v = Inr r \<longleftrightarrow> r \<noteq> RuleUnset \<and> v = Rule_String r"
  by (cases r) (auto simp: ParseRule_def)

end
