(* ===== verification/Approval.thy ===== *)
theory Approval
  imports Permission
begin

text \<open>
  \<open>internal/approval\<close>: the registry of held host-action requests of one launch
  (\<open>registry.go\<close>), its record and request types (\<open>types.go\<close>), execution grants
  (\<open>grant.go\<close>) and the authorization decision (\<open>service.go\<close>).

  The Go map of records is an association list with distinct keys; its order stands for the
  unspecified iteration order of the map. A record is changed through its pointer, which is
  \<open>AList.update\<close> at its id. Every method holds the registry mutex, so each is one atomic step;
  \<open>Wait\<close> is two critical sections around a blocking \<open>select\<close>. The \<open>decided\<close> channel is only
  ever closed; a second close panics, which is the result \<open>None\<close> of the step.
\<close>

section \<open>Data\<close>

datatype status = StatusPending | StatusExecuting | StatusCompleted | StatusDenied

fun Status_String :: "status \<Rightarrow> string" where
  "Status_String StatusExecuting = ''executing''"
| "Status_String StatusCompleted = ''completed''"
| "Status_String StatusDenied = ''denied''"
| "Status_String StatusPending = ''pending''"

record approval_record =
  recID :: string
  recAction :: string
  recName :: string
  recMessage :: string
  recRequestID :: bytes
  recParams :: bytes
  recCreated :: instant

text \<open>Go's \<open>record\<close> embeds \<open>Record\<close>.\<close>

record held_record = approval_record +
  recStatus :: status
  recRedeemed :: bool
  recResponse :: bytes
  recDecided :: bool

record approval_request =
  reqAction :: string
  reqName :: string
  reqMessage :: string
  reqDefault :: rule
  reqRequestID :: bytes
  reqParams :: bytes

datatype approval_error =
    ErrDenied
  | ErrNotFound
  | ErrTooManyRecords
  | ErrRandom
  | ErrNotExecuting string status
  | ErrContext
  | PendingError string string string

record registry =
  records :: "(string \<times> held_record) list"

definition NewRegistry :: registry where
  "NewRegistry = \<lparr>records = []\<rparr>"

abbreviation Record :: "held_record \<Rightarrow> approval_record" where
  "Record r \<equiv> approval_record.truncate r"

abbreviation lookup_record :: "registry \<Rightarrow> string \<Rightarrow> held_record option" where
  "lookup_record g i \<equiv> map_of (records g) i"

definition put_record :: "registry \<Rightarrow> string \<Rightarrow> held_record \<Rightarrow> registry" where
  "put_record g i r = g\<lparr>records := AList.update i r (records g)\<rparr>"

section \<open>Identifiers\<close>

definition approvalIDBytes :: nat where
  "approvalIDBytes = 6"

definition maxLiveRecords :: nat where
  "maxLiveRecords = 64"

definition hex_digit :: "nat \<Rightarrow> char" where
  "hex_digit n = ''0123456789abcdef'' ! n"

definition hex_EncodeToString :: "bytes \<Rightarrow> string" where
  "hex_EncodeToString bs = concat (map (\<lambda>b. [hex_digit (unat b div 16), hex_digit (unat b mod 16)]) bs)"

text \<open>
  The unbounded retry loop draws from a source of random bytes: \<open>draws\<close> lists what successive
  \<open>rand.Read\<close> calls deliver, \<open>None\<close> being a read error. Running out of the listed draws
  (\<open>None\<close>) means the loop is still retrying.
\<close>

fun newIDLocked ::
  "(string \<times> held_record) list \<Rightarrow> bytes option list \<Rightarrow> (approval_error + string) option"
where
  "newIDLocked recs [] = None"
| "newIDLocked recs (None # ds) = Some (Inl ErrRandom)"
| "newIDLocked recs (Some raw # ds) =
     (let i = hex_EncodeToString raw in
      if map_of recs i = None then Some (Inr i) else newIDLocked recs ds)"

section \<open>Registry operations\<close>

definition same_held_request :: "approval_request \<Rightarrow> held_record \<Rightarrow> bool" where
  "same_held_request req r \<longleftrightarrow>
     recStatus r = StatusPending \<and> recAction r = reqAction req \<and> recParams r = reqParams req"

definition new_record :: "string \<Rightarrow> approval_request \<Rightarrow> instant \<Rightarrow> held_record" where
  "new_record i req now =
     \<lparr>recID = i, recAction = reqAction req, recName = reqName req, recMessage = reqMessage req,
      recRequestID = reqRequestID req, recParams = reqParams req, recCreated = now,
      recStatus = StatusPending, recRedeemed = False, recResponse = [], recDecided = False\<rparr>"

definition Create ::
  "registry \<Rightarrow> approval_request \<Rightarrow> instant \<Rightarrow> bytes option list \<Rightarrow>
   (registry \<times> (approval_error + approval_record)) option"
where
  "Create g req now draws =
     (case find (\<lambda>(_, r). same_held_request req r) (records g) of
        Some (_, r) \<Rightarrow> Some (g, Inr (Record r))
      | None \<Rightarrow>
          if length (records g) \<ge> maxLiveRecords then Some (g, Inl ErrTooManyRecords)
          else (case newIDLocked (records g) draws of
                  None \<Rightarrow> None
                | Some (Inl e) \<Rightarrow> Some (g, Inl e)
                | Some (Inr i) \<Rightarrow>
                    (let r = new_record i req now
                     in Some (g\<lparr>records := (i, r) # records g\<rparr>, Inr (Record r)))))"

definition Pending :: "registry \<Rightarrow> approval_record list" where
  "Pending g =
     sort_key (\<lambda>r. (recCreated r, recID r))
       (map (\<lambda>(_, r). Record r) (filter (\<lambda>(_, r). recStatus r = StatusPending) (records g)))"

type_synonym decision = "approval_error + (approval_record \<times> status \<times> bool)"

definition decide :: "registry \<Rightarrow> string \<Rightarrow> status \<Rightarrow> (registry \<times> decision) option" where
  "decide g i next =
     (case lookup_record g i of
        None \<Rightarrow> Some (g, Inl ErrNotFound)
      | Some r \<Rightarrow>
          if recStatus r \<noteq> StatusPending then Some (g, Inr (Record r, recStatus r, False))
          else if next = StatusDenied then
            (case close_chan (recDecided r) of
               None \<Rightarrow> None
             | Some c \<Rightarrow>
                 Some (put_record g i (r\<lparr>recStatus := next, recDecided := c\<rparr>),
                       Inr (Record r, next, True)))
          else Some (put_record g i (r\<lparr>recStatus := next\<rparr>), Inr (Record r, next, True)))"

definition Approve :: "registry \<Rightarrow> string \<Rightarrow> (registry \<times> decision) option" where
  "Approve g i = decide g i StatusExecuting"

definition Deny_record :: "registry \<Rightarrow> string \<Rightarrow> (registry \<times> decision) option" where
  "Deny_record g i = decide g i StatusDenied"

definition RedeemGrant :: "registry \<Rightarrow> string \<Rightarrow> string \<Rightarrow> registry \<times> approval_error verdict" where
  "RedeemGrant g i action =
     (case lookup_record g i of
        None \<Rightarrow> (g, Some ErrNotFound)
      | Some r \<Rightarrow>
          if recStatus r \<noteq> StatusExecuting \<or> recRedeemed r \<or> recAction r \<noteq> action
          then (g, Some ErrDenied)
          else (put_record g i (r\<lparr>recRedeemed := True\<rparr>), None))"

definition SaveResponse ::
  "registry \<Rightarrow> string \<Rightarrow> bytes \<Rightarrow> (registry \<times> approval_error verdict) option"
where
  "SaveResponse g i response =
     (case lookup_record g i of
        None \<Rightarrow> Some (g, Some ErrNotFound)
      | Some r \<Rightarrow>
          if recStatus r \<noteq> StatusExecuting then Some (g, Some (ErrNotExecuting i (recStatus r)))
          else
            (case close_chan (recDecided r) of
               None \<Rightarrow> None
             | Some c \<Rightarrow>
                 Some (put_record g i
                         (r\<lparr>recStatus := StatusCompleted, recResponse := response, recDecided := c\<rparr>),
                       None)))"

text \<open>
  \<open>Wait\<close> looks the record up, blocks in \<open>select\<close>, and on a decision reads the record again
  under the mutex. \<open>before\<close> and \<open>after\<close> are the registry at the two critical sections; the
  record pointer survives in between, so the second read is of the same record.
\<close>

datatype wake = WakeDecided | WakeTimer | WakeContext

type_synonym wait_result = "approval_error + (approval_record \<times> status \<times> bytes)"

definition wake_enabled :: "registry \<Rightarrow> string \<Rightarrow> wake \<Rightarrow> bool" where
  "wake_enabled g i w \<longleftrightarrow>
     (w = WakeDecided \<longrightarrow> (case lookup_record g i of None \<Rightarrow> False | Some r \<Rightarrow> recDecided r))"

definition Wait :: "registry \<Rightarrow> string \<Rightarrow> wake \<Rightarrow> registry \<Rightarrow> wait_result" where
  "Wait before i w after =
     (case lookup_record before i of
        None \<Rightarrow> Inl ErrNotFound
      | Some held \<Rightarrow>
          (case w of
             WakeTimer \<Rightarrow> Inr (Record held, StatusPending, [])
           | WakeContext \<Rightarrow> Inl ErrContext
           | WakeDecided \<Rightarrow>
               (let r = (case lookup_record after i of None \<Rightarrow> held | Some r \<Rightarrow> r) in
                if recStatus r = StatusCompleted
                then Inr (Record r, StatusCompleted, recResponse r)
                else Inr (Record r, recStatus r, []))))"

fun deny_undecided :: "(string \<times> held_record) list \<Rightarrow> (string \<times> held_record) list option" where
  "deny_undecided [] = Some []"
| "deny_undecided ((i, r) # rs) =
     (case (if recStatus r = StatusPending \<or> recStatus r = StatusExecuting
            then map_option (\<lambda>c. r\<lparr>recStatus := StatusDenied, recDecided := c\<rparr>)
                   (close_chan (recDecided r))
            else Some r) of
        None \<Rightarrow> None
      | Some r' \<Rightarrow> map_option (\<lambda>rs'. (i, r') # rs') (deny_undecided rs))"

definition DenyAll :: "registry \<Rightarrow> registry option" where
  "DenyAll g = map_option (\<lambda>rs. g\<lparr>records := rs\<rparr>) (deny_undecided (records g))"

section \<open>Authorization\<close>

text \<open>A context carries at most one grant: the id of the approved record it executes.\<close>

type_synonym grant_context = "string option"

definition WithGrant :: "grant_context \<Rightarrow> string \<Rightarrow> grant_context" where
  "WithGrant ctx i = Some i"

definition grantFrom :: "grant_context \<Rightarrow> string option" where
  "grantFrom ctx = (case ctx of None \<Rightarrow> None | Some i \<Rightarrow> if i = '''' then None else Some i)"

record approval_config =
  cfgActions :: "(string \<times> rule) list"
  cfgYolo :: bool

definition Authorize ::
  "approval_config \<Rightarrow> registry \<Rightarrow> grant_context \<Rightarrow> approval_request \<Rightarrow> instant \<Rightarrow>
   bytes option list \<Rightarrow> (registry \<times> approval_error verdict) option"
where
  "Authorize cfg g ctx req now draws =
     (case grantFrom ctx of
        Some i \<Rightarrow> Some (RedeemGrant g i (reqAction req))
      | None \<Rightarrow>
          (case Resolve (PermissionRule (cfgActions cfg) (reqAction req)) (reqDefault req) (cfgYolo cfg) of
             Allow \<Rightarrow> Some (g, None)
           | Deny \<Rightarrow> Some (g, Some ErrDenied)
           | Ask \<Rightarrow>
               map_option
                 (\<lambda>(g', res). (g', Some (case res of
                      Inl e \<Rightarrow> e
                    | Inr r \<Rightarrow> PendingError (recID r) (recName r) (recMessage r))))
                 (Create g req now draws)))"

end
