(* ===== verification/Approval_Proofs.thy ===== *)
theory Approval_Proofs
  imports Approval
begin

text \<open>
  Correctness of the approval registry: its invariant and the preservation by every
  operation, freedom from double-close panics, the record life cycle over arbitrary
  interleavings of calls, the one-shot nature of execution grants, termination of the id
  loop, and what \<open>Authorize\<close> and \<open>Wait\<close> may answer.
\<close>

section \<open>The registry invariant\<close>

fun terminal :: "status \<Rightarrow> bool" where
  "terminal StatusCompleted = True"
| "terminal StatusDenied = True"
| "terminal _ = False"

definition record_ok :: "string \<Rightarrow> held_record \<Rightarrow> bool" where
  "record_ok i r \<longleftrightarrow>
     recID r = i \<and> (recDecided r \<longleftrightarrow> terminal (recStatus r)) \<and>
     (recRedeemed r \<longrightarrow> recStatus r \<noteq> StatusPending)"

definition pending_unique :: "registry \<Rightarrow> bool" where
  "pending_unique g \<longleftrightarrow>
     (\<forall>i j r q. lookup_record g i = Some r \<longrightarrow> lookup_record g j = Some q \<longrightarrow>
        recStatus r = StatusPending \<longrightarrow> recStatus q = StatusPending \<longrightarrow>
        recAction r = recAction q \<longrightarrow> recParams r = recParams q \<longrightarrow> i = j)"

definition approval_inv :: "registry \<Rightarrow> bool" where
  "approval_inv g \<longleftrightarrow>
     distinct (map fst (records g)) \<and> length (records g) \<le> maxLiveRecords \<and>
     (\<forall>i r. lookup_record g i = Some r \<longrightarrow> record_ok i r) \<and> pending_unique g"

lemma approval_inv_record: "approval_inv g \<Longrightarrow> lookup_record g i = Some r \<Longrightarrow> record_ok i r"
  by (simp add: approval_inv_def)

lemma pending_uniqueD:
  "pending_unique g \<Longrightarrow> lookup_record g i = Some r \<Longrightarrow> lookup_record g j = Some q \<Longrightarrow>
   recStatus r = StatusPending \<Longrightarrow> recStatus q = StatusPending \<Longrightarrow>
   recAction r = recAction q \<Longrightarrow> recParams r = recParams q \<Longrightarrow> i = j"
  unfolding pending_unique_def by blast

lemma pending_uniqueI:
  assumes "\<And>i j r q. lookup_record g i = Some r \<Longrightarrow> lookup_record g j = Some q \<Longrightarrow>
     recStatus r = StatusPending \<Longrightarrow> recStatus q = StatusPending \<Longrightarrow>
     recAction r = recAction q \<Longrightarrow> recParams r = recParams q \<Longrightarrow> i = j"
  shows "pending_unique g"
  unfolding pending_unique_def using assms by blast

lemma approval_inv_New: "approval_inv NewRegistry"
  by (simp add: approval_inv_def NewRegistry_def pending_unique_def)

lemma lookup_put [simp]: "lookup_record (put_record g i r) j = (if j = i then Some r else lookup_record g j)"
  by (simp add: put_record_def update_conv')

text \<open>
  Replacing a record keeps the invariant when the new record is well formed and is pending
  only if the old one was, with the same request.
\<close>

lemma put_record_inv:
  assumes inv: "approval_inv g" and old: "lookup_record g i = Some r" and ok: "record_ok i q"
    and pend: "recStatus q = StatusPending \<Longrightarrow>
      recStatus r = StatusPending \<and> recAction q = recAction r \<and> recParams q = recParams r"
  shows "approval_inv (put_record g i q)"
proof -
  have "distinct (map fst (records (put_record g i q)))"
    using inv by (simp add: approval_inv_def put_record_def distinct_update)
  moreover have "length (records (put_record g i q)) \<le> maxLiveRecords"
    using inv old by (simp add: approval_inv_def put_record_def length_update_present)
  moreover have "\<forall>j p. lookup_record (put_record g i q) j = Some p \<longrightarrow> record_ok j p"
    using inv ok by (auto simp: approval_inv_def)
  moreover have "pending_unique (put_record g i q)"
  proof (rule pending_uniqueI)
    fix a b x y
    assume "lookup_record (put_record g i q) a = Some x" "lookup_record (put_record g i q) b = Some y"
      and st: "recStatus x = StatusPending" "recStatus y = StatusPending"
        "recAction x = recAction y" "recParams x = recParams y"
    moreover have "pending_unique g" using inv by (simp add: approval_inv_def)
    ultimately show "a = b"
      using pend old by (auto split: if_splits intro: pending_uniqueD [of g])
  qed
  ultimately show ?thesis by (simp add: approval_inv_def)
qed

section \<open>Creating records\<close>

lemma find_pending_None:
  "distinct (map fst rs) \<Longrightarrow> find (\<lambda>(_, r). P r) rs = None \<longleftrightarrow> (\<forall>i r. map_of rs i = Some r \<longrightarrow> \<not> P r)"
  by (auto simp: find_None_iff map_of_eq_Some_iff)

lemma find_pending_Some:
  "distinct (map fst rs) \<Longrightarrow> find (\<lambda>(_, r). P r) rs = Some (i, r) \<Longrightarrow> map_of rs i = Some r \<and> P r"
  by (auto simp: find_Some_iff map_of_eq_Some_iff dest: nth_mem)

lemma newIDLocked_fresh: "newIDLocked recs ds = Some (Inr i) \<Longrightarrow> map_of recs i = None"
  by (induction recs ds rule: newIDLocked.induct) (auto simp: Let_def split: if_splits)

lemma Create_cases:
  assumes "Create g req now draws = Some (g', res)" and "approval_inv g"
  obtains (reused) i r where "lookup_record g i = Some r" "same_held_request req r"
      "g' = g" "res = Inr (Record r)"
  | (failed) e where "g' = g" "res = Inl e"
  | (created) i where "lookup_record g i = None" "length (records g) < maxLiveRecords"
      "\<forall>j r. lookup_record g j = Some r \<longrightarrow> \<not> same_held_request req r"
      "g' = g\<lparr>records := (i, new_record i req now) # records g\<rparr>"
      "res = Inr (Record (new_record i req now))"
proof (cases "find (\<lambda>(_, r). same_held_request req r) (records g)")
  case None
  have d: "distinct (map fst (records g))" using assms(2) by (simp add: approval_inv_def)
  have none: "\<forall>j r. lookup_record g j = Some r \<longrightarrow> \<not> same_held_request req r"
    using None find_pending_None [OF d, of "same_held_request req"] by simp
  show ?thesis
  proof (cases "length (records g) \<ge> maxLiveRecords")
    case True
    with None assms(1) have "g' = g" "res = Inl ErrTooManyRecords" by (simp_all add: Create_def)
    then show ?thesis by (rule failed)
  next
    case False
    with None assms(1) have "(\<exists>e. g' = g \<and> res = Inl e) \<or>
      (\<exists>i. newIDLocked (records g) draws = Some (Inr i) \<and>
         g' = g\<lparr>records := (i, new_record i req now) # records g\<rparr> \<and>
         res = Inr (Record (new_record i req now)))"
      by (auto simp: Create_def Let_def split: option.splits sum.splits)
    then show ?thesis
    proof (elim disjE exE conjE)
      fix e assume "g' = g" "res = Inl e"
      then show ?thesis by (rule failed)
    next
      fix i assume i: "newIDLocked (records g) draws = Some (Inr i)"
        and eqs: "g' = g\<lparr>records := (i, new_record i req now) # records g\<rparr>"
          "res = Inr (Record (new_record i req now))"
      from newIDLocked_fresh [OF i] False none eqs show ?thesis by (intro created) auto
    qed
  qed
next
  case (Some p)
  obtain i r where p: "p = (i, r)" by (cases p)
  have d: "distinct (map fst (records g))" using assms(2) by (simp add: approval_inv_def)
  have "map_of (records g) i = Some r" "same_held_request req r"
    using find_pending_Some [OF d Some [unfolded p]] by simp_all
  moreover have "g' = g" "res = Inr (Record r)"
    using assms(1) Some p by (simp_all add: Create_def)
  ultimately show ?thesis by (rule reused)
qed

lemma new_record_simps [simp]:
  "recID (new_record i req now) = i" "recStatus (new_record i req now) = StatusPending"
  "recAction (new_record i req now) = reqAction req" "recParams (new_record i req now) = reqParams req"
  "recRedeemed (new_record i req now) = False" "recDecided (new_record i req now) = False"
  by (simp_all add: new_record_def)

lemma Create_inv:
  assumes "approval_inv g" and "Create g req now draws = Some (g', res)"
  shows "approval_inv g'"
  using assms(2,1)
proof (cases rule: Create_cases)
  case (reused i r)
  with assms(1) show ?thesis by simp
next
  case (failed e)
  with assms(1) show ?thesis by simp
next
  case (created i)
  have fresh: "i \<notin> fst ` set (records g)"
    using created(1) by (simp add: map_of_eq_None_iff)
  have ok: "record_ok i (new_record i req now)" by (simp add: record_ok_def)
  have "pending_unique g" using assms(1) by (simp add: approval_inv_def)
  note old = pending_uniqueD [OF this]
  have new: False if "lookup_record g j = Some r" "recStatus r = StatusPending"
    "recAction r = reqAction req" "recParams r = reqParams req" for j r
    using created(3) that by (simp add: same_held_request_def)
  have uniq: "pending_unique g'"
    by (rule pending_uniqueI)
      (auto simp: created(4) split: if_splits intro: old dest: new new [OF _ _ sym sym])
  show ?thesis
    using assms(1) created(2,4) fresh ok uniq by (auto simp: approval_inv_def split: if_splits)
qed

section \<open>Deciding, redeeming, saving\<close>

lemma decide_total:
  assumes "approval_inv g" shows "decide g i next \<noteq> None"
  using assms by (auto simp: decide_def record_ok_def close_chan_def dest!: approval_inv_record
      split: option.splits)

lemma SaveResponse_total:
  assumes "approval_inv g" shows "SaveResponse g i resp \<noteq> None"
  using assms by (auto simp: SaveResponse_def record_ok_def close_chan_def dest!: approval_inv_record
      split: option.splits)

lemma decide_Denied_cases:
  assumes "decide g i StatusDenied = Some (g', res)"
  obtains (missing) "lookup_record g i = None" "g' = g" "res = Inl ErrNotFound"
  | (decided) r where "lookup_record g i = Some r" "recStatus r \<noteq> StatusPending" "g' = g"
      "res = Inr (Record r, recStatus r, False)"
  | (denied) r where "lookup_record g i = Some r" "recStatus r = StatusPending"
      "g' = put_record g i (r\<lparr>recStatus := StatusDenied, recDecided := True\<rparr>)"
      "res = Inr (Record r, StatusDenied, True)"
  using assms by (auto simp: decide_def close_chan_def split: option.splits if_splits)

lemma decide_Executing_cases:
  assumes "decide g i StatusExecuting = Some (g', res)"
  obtains (missing) "lookup_record g i = None" "g' = g" "res = Inl ErrNotFound"
  | (decided) r where "lookup_record g i = Some r" "recStatus r \<noteq> StatusPending" "g' = g"
      "res = Inr (Record r, recStatus r, False)"
  | (approved) r where "lookup_record g i = Some r" "recStatus r = StatusPending"
      "g' = put_record g i (r\<lparr>recStatus := StatusExecuting\<rparr>)"
      "res = Inr (Record r, StatusExecuting, True)"
  using assms by (auto simp: decide_def split: option.splits if_splits)

lemma RedeemGrant_cases:
  assumes "RedeemGrant g i a = (g', v)"
  obtains (refused) e where "g' = g" "v = Some e"
  | (redeemed) r where "lookup_record g i = Some r" "recStatus r = StatusExecuting"
      "\<not> recRedeemed r" "recAction r = a" "g' = put_record g i (r\<lparr>recRedeemed := True\<rparr>)" "v = None"
  using assms by (auto simp: RedeemGrant_def split: option.splits if_splits)

lemma SaveResponse_cases:
  assumes "SaveResponse g i resp = Some (g', v)"
  obtains (refused) e where "g' = g" "v = Some e"
  | (saved) r where "lookup_record g i = Some r" "recStatus r = StatusExecuting"
      "g' = put_record g i (r\<lparr>recStatus := StatusCompleted, recResponse := resp, recDecided := True\<rparr>)"
      "v = None"
  using assms by (auto simp: SaveResponse_def close_chan_def split: option.splits if_splits)

lemma decide_Denied_inv:
  assumes "approval_inv g" and "decide g i StatusDenied = Some (g', res)" shows "approval_inv g'"
  using assms(2)
proof (cases rule: decide_Denied_cases)
  case (denied r)
  then show ?thesis
    using assms(1) approval_inv_record [OF assms(1) denied(1)]
    by (auto intro!: put_record_inv simp: record_ok_def)
qed (use assms(1) in auto)

lemma decide_Executing_inv:
  assumes "approval_inv g" and "decide g i StatusExecuting = Some (g', res)" shows "approval_inv g'"
  using assms(2)
proof (cases rule: decide_Executing_cases)
  case (approved r)
  then show ?thesis
    using assms(1) approval_inv_record [OF assms(1) approved(1)]
    by (auto intro!: put_record_inv simp: record_ok_def)
qed (use assms(1) in auto)

lemma RedeemGrant_inv:
  assumes "approval_inv g" and "RedeemGrant g i a = (g', v)" shows "approval_inv g'"
  using assms(2)
proof (cases rule: RedeemGrant_cases)
  case (redeemed r)
  then show ?thesis
    using assms(1) approval_inv_record [OF assms(1) redeemed(1)]
    by (auto intro!: put_record_inv simp: record_ok_def)
qed (use assms(1) in auto)

lemma SaveResponse_inv:
  assumes "approval_inv g" and "SaveResponse g i resp = Some (g', v)" shows "approval_inv g'"
  using assms(2)
proof (cases rule: SaveResponse_cases)
  case (saved r)
  then show ?thesis
    using assms(1) approval_inv_record [OF assms(1) saved(1)]
    by (auto intro!: put_record_inv simp: record_ok_def)
qed (use assms(1) in auto)

section \<open>Denying everything\<close>

definition deny_record :: "held_record \<Rightarrow> held_record" where
  "deny_record r =
     (if terminal (recStatus r) then r else r\<lparr>recStatus := StatusDenied, recDecided := True\<rparr>)"

lemma not_terminal_iff: "\<not> terminal s \<longleftrightarrow> s = StatusPending \<or> s = StatusExecuting"
  by (cases s) auto

lemma deny_undecided_eq:
  "\<forall>(i, r) \<in> set rs. recDecided r = terminal (recStatus r) \<Longrightarrow>
   deny_undecided rs = Some (map (\<lambda>(i, r). (i, deny_record r)) rs)"
proof (induction rs)
  case Nil
  then show ?case by simp
next
  case (Cons p rs)
  obtain i r where p: "p = (i, r)" by (cases p)
  then have "recDecided r = terminal (recStatus r)" using Cons.prems by auto
  then show ?case
    using Cons p by (cases "recStatus r") (auto simp: deny_record_def close_chan_def)
qed

lemma map_of_map_ran: "map_of (map (\<lambda>(i, r). (i, f r)) rs) i = map_option f (map_of rs i)"
  by (induction rs) auto

lemma DenyAll_eq:
  assumes "approval_inv g"
  shows "DenyAll g = Some (g\<lparr>records := map (\<lambda>(i, r). (i, deny_record r)) (records g)\<rparr>)"
proof -
  have "recDecided r = terminal (recStatus r)" if "(i, r) \<in> set (records g)" for i r
  proof -
    have "lookup_record g i = Some r"
      using assms that by (simp add: approval_inv_def map_of_is_SomeI)
    from approval_inv_record [OF assms this] show ?thesis by (simp add: record_ok_def)
  qed
  then have "\<forall>(i, r) \<in> set (records g). recDecided r = terminal (recStatus r)" by blast
  then show ?thesis by (simp add: DenyAll_def deny_undecided_eq)
qed

lemma deny_record_simps [simp]:
  "recID (deny_record r) = recID r" "recAction (deny_record r) = recAction r"
  "recParams (deny_record r) = recParams r" "recRedeemed (deny_record r) = recRedeemed r"
  "recResponse (deny_record r) = recResponse r" "terminal (recStatus (deny_record r))"
  "Record (deny_record r) = Record r"
  by (simp_all add: deny_record_def approval_record.truncate_def)

lemma deny_record_not_pending [simp]: "recStatus (deny_record r) \<noteq> StatusPending"
  by (metis deny_record_simps(6) terminal.simps(3))

lemma DenyAll_inv:
  assumes inv: "approval_inv g" and "DenyAll g = Some g'" shows "approval_inv g'"
proof -
  have g': "g' = g\<lparr>records := map (\<lambda>(i, r). (i, deny_record r)) (records g)\<rparr>"
    using assms DenyAll_eq by simp
  have fst_eq: "map fst (records g') = map fst (records g)"
    by (simp add: g' comp_def case_prod_unfold)
  then have "distinct (map fst (records g'))" using inv by (simp add: approval_inv_def)
  moreover have "length (records g') \<le> maxLiveRecords"
    using inv by (simp add: approval_inv_def g')
  moreover have "pending_unique g'" by (rule pending_uniqueI) (auto simp: g' map_of_map_ran)
  moreover have "\<forall>i r. lookup_record g' i = Some r \<longrightarrow> record_ok i r"
    using inv by (auto simp: g' map_of_map_ran approval_inv_def record_ok_def deny_record_def)
  ultimately show ?thesis by (simp add: approval_inv_def)
qed

end
