(* ===== verification/Approval_Runs.thy ===== *)
theory Approval_Runs
  imports Approval_Proofs
begin

text \<open>
  Arbitrary interleavings of registry calls. Each call is one atomic step labelled with its
  arguments and its result; a run is any finite sequence of them from a fresh registry.
\<close>

datatype approval_event =
    EvCreate approval_request "approval_error + approval_record"
  | EvDecide string status decision
  | EvRedeem string string "approval_error verdict"
  | EvSave string bytes "approval_error verdict"
  | EvDenyAll

inductive approval_step :: "registry \<Rightarrow> approval_event \<Rightarrow> registry \<Rightarrow> bool" where
  step_create: "Create g req now draws = Some (g', res) \<Longrightarrow> approval_step g (EvCreate req res) g'"
| step_approve: "Approve g i = Some (g', res) \<Longrightarrow> approval_step g (EvDecide i StatusExecuting res) g'"
| step_deny: "Deny_record g i = Some (g', res) \<Longrightarrow> approval_step g (EvDecide i StatusDenied res) g'"
| step_redeem: "RedeemGrant g i a = (g', v) \<Longrightarrow> approval_step g (EvRedeem i a v) g'"
| step_save: "SaveResponse g i resp = Some (g', v) \<Longrightarrow> approval_step g (EvSave i resp v) g'"
| step_deny_all: "DenyAll g = Some g' \<Longrightarrow> approval_step g EvDenyAll g'"

inductive_simps step_redeem_iff: "approval_step g (EvRedeem i a v) g'"
inductive_simps step_decide_iff: "approval_step g (EvDecide i next res) g'"

interpretation approval_system: step_invariant approval_step approval_inv
  by unfold_locales
    (auto elim!: approval_step.cases simp: Approve_def Deny_record_def
      intro: Create_inv decide_Executing_inv decide_Denied_inv RedeemGrant_inv SaveResponse_inv DenyAll_inv)

lemma approval_run_inv: "run approval_step NewRegistry evs g \<Longrightarrow> approval_inv g"
  using approval_system.run_inv approval_inv_New by blast

section \<open>How one step changes the records\<close>

text \<open>
  Every step either leaves the records alone, prepends one fresh pending record, replaces
  one record, or denies all undecided ones.
\<close>

lemma approval_step_cases:
  assumes "approval_step g e g'" and "approval_inv g"
  obtains (same) "g' = g"
  | (created) i req now where "lookup_record g i = None"
      "g' = g\<lparr>records := (i, new_record i req now) # records g\<rparr>"
  | (approved) i r where "lookup_record g i = Some r" "recStatus r = StatusPending"
      "e = EvDecide i StatusExecuting (Inr (Record r, StatusExecuting, True))"
      "g' = put_record g i (r\<lparr>recStatus := StatusExecuting\<rparr>)"
  | (denied) i r where "lookup_record g i = Some r" "recStatus r = StatusPending"
      "e = EvDecide i StatusDenied (Inr (Record r, StatusDenied, True))"
      "g' = put_record g i (r\<lparr>recStatus := StatusDenied, recDecided := True\<rparr>)"
  | (redeemed) i r where "lookup_record g i = Some r" "recStatus r = StatusExecuting"
      "\<not> recRedeemed r" "e = EvRedeem i (recAction r) None"
      "g' = put_record g i (r\<lparr>recRedeemed := True\<rparr>)"
  | (saved) i r resp where "lookup_record g i = Some r" "recStatus r = StatusExecuting"
      "e = EvSave i resp None"
      "g' = put_record g i (r\<lparr>recStatus := StatusCompleted, recResponse := resp, recDecided := True\<rparr>)"
  | (swept) "e = EvDenyAll" "g' = g\<lparr>records := map (\<lambda>(i, r). (i, deny_record r)) (records g)\<rparr>"
  using assms(1)
proof cases
  case (step_create req now draws res)
  from step_create(2) assms(2) show ?thesis by (cases rule: Create_cases) (auto intro: same created)
next
  case (step_approve i res)
  from step_approve(2) [unfolded Approve_def] show ?thesis
    by (cases rule: decide_Executing_cases) (use step_approve(1) in \<open>auto intro: same approved\<close>)
next
  case (step_deny i res)
  from step_deny(2) [unfolded Deny_record_def] show ?thesis
    by (cases rule: decide_Denied_cases) (use step_deny(1) in \<open>auto intro: same denied\<close>)
next
  case (step_redeem i a v)
  from step_redeem(2) show ?thesis
    by (cases rule: RedeemGrant_cases) (use step_redeem(1) in \<open>auto intro: same redeemed\<close>)
next
  case (step_save i resp v)
  from step_save(2) show ?thesis
    by (cases rule: SaveResponse_cases) (use step_save(1) in \<open>auto intro: same saved\<close>)
next
  case step_deny_all
  with DenyAll_eq [OF assms(2)] show ?thesis by (auto intro: swept)
qed

fun status_le :: "status \<Rightarrow> status \<Rightarrow> bool" where
  "status_le StatusPending t = True"
| "status_le StatusExecuting t = (t \<noteq> StatusPending)"
| "status_le StatusCompleted t = (t = StatusCompleted)"
| "status_le StatusDenied t = (t = StatusDenied)"

lemma status_le_refl [simp]: "status_le s s"
  by (cases s) auto

lemma status_le_trans: "status_le s t \<Longrightarrow> status_le t u \<Longrightarrow> status_le s u"
  by (cases s; cases t; cases u) auto

definition record_evolves :: "held_record \<Rightarrow> held_record \<Rightarrow> bool" where
  "record_evolves r q \<longleftrightarrow>
     Record q = Record r \<and> status_le (recStatus r) (recStatus q) \<and>
     (recRedeemed r \<longrightarrow> recRedeemed q) \<and> (terminal (recStatus r) \<longrightarrow> q = r)"

definition registry_evolves :: "registry \<Rightarrow> registry \<Rightarrow> bool" where
  "registry_evolves g g' \<longleftrightarrow>
     (\<forall>i r. lookup_record g i = Some r \<longrightarrow>
        (\<exists>q. lookup_record g' i = Some q \<and> record_evolves r q))"

lemma record_evolves_refl [simp]: "record_evolves r r"
  by (simp add: record_evolves_def)

lemma record_evolves_trans: "record_evolves r q \<Longrightarrow> record_evolves q p \<Longrightarrow> record_evolves r p"
  by (auto simp: record_evolves_def intro: status_le_trans)

lemma registry_evolves_refl: "registry_evolves g g"
  by (simp add: registry_evolves_def)

lemma registry_evolves_trans:
  "registry_evolves g h \<Longrightarrow> registry_evolves h k \<Longrightarrow> registry_evolves g k"
  unfolding registry_evolves_def by (meson record_evolves_trans)

lemma registry_evolves_put:
  "lookup_record g i = Some r \<Longrightarrow> record_evolves r q \<Longrightarrow> registry_evolves g (put_record g i q)"
  by (auto simp: registry_evolves_def)

lemma evolves_frozen:
  assumes "registry_evolves g g'" and "lookup_record g i = Some r" and "terminal (recStatus r)"
  shows "lookup_record g' i = Some r"
proof -
  from assms(1,2) obtain q where "lookup_record g' i = Some q" "record_evolves r q"
    unfolding registry_evolves_def by blast
  with assms(3) show ?thesis by (simp add: record_evolves_def)
qed

lemma record_evolves_deny: "record_evolves r (deny_record r)"
  by (cases "recStatus r") (auto simp: record_evolves_def deny_record_def approval_record.truncate_def)

lemma approval_step_evolves:
  assumes "approval_inv g" and "approval_step g e g'" shows "registry_evolves g g'"
  using assms(2,1)
proof (cases rule: approval_step_cases)
  case swept
  then show ?thesis by (auto simp: registry_evolves_def map_of_map_ran record_evolves_deny)
qed (auto simp: registry_evolves_refl intro!: registry_evolves_put
      simp: record_evolves_def approval_record.truncate_def registry_evolves_def)

lemma approval_run_evolves:
  "run approval_step g evs g' \<Longrightarrow> approval_inv g \<Longrightarrow> registry_evolves g g'"
  using approval_system.run_rel [of registry_evolves] registry_evolves_refl registry_evolves_trans
    approval_step_evolves by blast

section \<open>Grants are one-shot\<close>

definition redeems :: "string \<Rightarrow> approval_event \<Rightarrow> bool" where
  "redeems i e \<longleftrightarrow> (\<exists>a. e = EvRedeem i a None)"

definition grant_spent :: "string \<Rightarrow> registry \<Rightarrow> bool" where
  "grant_spent i g \<longleftrightarrow> (\<exists>r. lookup_record g i = Some r \<and> recRedeemed r)"

interpretation grant: one_shot approval_step approval_inv "redeems i" "grant_spent i" for i
proof unfold_locales
  fix s l t assume inv: "approval_inv s" and step: "approval_step s l t"
  show "redeems i l \<Longrightarrow> \<not> grant_spent i s \<and> grant_spent i t"
    using step by (auto simp: redeems_def step_redeem_iff grant_spent_def elim!: RedeemGrant_cases)
  show "grant_spent i s \<Longrightarrow> grant_spent i t"
    using approval_step_evolves [OF inv step]
    by (fastforce simp: grant_spent_def registry_evolves_def record_evolves_def)
qed

section \<open>Executions are justified by approvals, responses by executions\<close>

definition under_execution :: "registry \<Rightarrow> string \<times> approval_record \<Rightarrow> bool" where
  "under_execution g c \<longleftrightarrow>
     (\<exists>r. lookup_record g (fst c) = Some r \<and> Record r = snd c \<and>
          recStatus r \<in> {StatusExecuting, StatusCompleted})"

definition approval_of :: "string \<times> approval_record \<Rightarrow> approval_event" where
  "approval_of c = EvDecide (fst c) StatusExecuting (Inr (snd c, StatusExecuting, True))"

interpretation executions: justified approval_step approval_inv under_execution approval_of
proof unfold_locales
  fix s l t and c :: "string \<times> approval_record"
  assume inv: "approval_inv s" and step: "approval_step s l t" and now: "under_execution t c"
  from step inv show "under_execution s c \<or> l = approval_of c"
  proof (cases rule: approval_step_cases)
    case swept
    with now show ?thesis
      by (auto simp: under_execution_def map_of_map_ran deny_record_def split: if_splits)
  qed (use now in \<open>auto simp: under_execution_def approval_of_def approval_record.truncate_def
        split: if_splits\<close>)
qed

definition has_response :: "registry \<Rightarrow> string \<times> bytes \<Rightarrow> bool" where
  "has_response g c \<longleftrightarrow>
     (\<exists>r. lookup_record g (fst c) = Some r \<and> recStatus r = StatusCompleted \<and> recResponse r = snd c)"

definition response_of :: "string \<times> bytes \<Rightarrow> approval_event" where
  "response_of c = EvSave (fst c) (snd c) None"

interpretation responses: justified approval_step approval_inv has_response response_of
proof unfold_locales
  fix s l t and c :: "string \<times> bytes"
  assume inv: "approval_inv s" and step: "approval_step s l t" and now: "has_response t c"
  from step inv show "has_response s c \<or> l = response_of c"
  proof (cases rule: approval_step_cases)
    case swept
    with now show ?thesis
      by (auto simp: has_response_def map_of_map_ran deny_record_def split: if_splits)
  qed (use now in \<open>auto simp: has_response_def response_of_def split: if_splits\<close>)
qed

end
