(* ===== verification/Approval_Properties.thy ===== *)
theory Approval_Properties
  imports Approval_Runs
begin

text \<open>
  The properties of the approval component, each about every reachable registry, with a
  concrete run as their common witness: one held request that is created, approved,
  redeemed and answered.
\<close>

section \<open>A concrete run\<close>

definition ex_request :: approval_request where
  "ex_request =
     \<lparr>reqAction = ''git.push'', reqName = ''Git push'', reqMessage = ''push main'',
      reqDefault = RuleAsk, reqRequestID = [49], reqParams = [123, 125]\<rparr>"

definition ex_draws :: "bytes option list" where
  "ex_draws = [Some [1, 2, 3, 4, 5, 255]]"

definition ex_id :: string where
  "ex_id = ''0102030405ff''"

definition ex_record :: held_record where
  "ex_record = new_record ex_id ex_request 7"

definition ex_created :: registry where
  "ex_created = \<lparr>records = [(ex_id, ex_record)]\<rparr>"

definition ex_approved :: registry where
  "ex_approved = \<lparr>records = [(ex_id, ex_record\<lparr>recStatus := StatusExecuting\<rparr>)]\<rparr>"

definition ex_redeemed :: registry where
  "ex_redeemed =
     \<lparr>records = [(ex_id, ex_record\<lparr>recStatus := StatusExecuting, recRedeemed := True\<rparr>)]\<rparr>"

definition ex_completed :: registry where
  "ex_completed =
     \<lparr>records = [(ex_id, ex_record\<lparr>recStatus := StatusCompleted, recRedeemed := True,
                                recResponse := [79, 75], recDecided := True\<rparr>)]\<rparr>"

definition ex_denied :: registry where
  "ex_denied =
     \<lparr>records = [(ex_id, ex_record\<lparr>recStatus := StatusDenied, recDecided := True\<rparr>)]\<rparr>"

definition ev_created :: approval_event where
  "ev_created = EvCreate ex_request (Inr (Record ex_record))"

definition ev_approved :: approval_event where
  "ev_approved = EvDecide ex_id StatusExecuting (Inr (Record ex_record, StatusExecuting, True))"

definition ev_denied :: approval_event where
  "ev_denied = EvDecide ex_id StatusDenied (Inr (Record ex_record, StatusDenied, True))"

definition ev_redeemed :: approval_event where
  "ev_redeemed = EvRedeem ex_id ''git.push'' None"

definition ev_saved :: approval_event where
  "ev_saved = EvSave ex_id [79, 75] None"

lemmas ex_defs = ex_request_def ex_id_def ex_record_def new_record_def approval_record.truncate_def

lemma ex_Create: "Create NewRegistry ex_request 7 ex_draws = Some (ex_created, Inr (Record ex_record))"
  by (simp add: Create_def NewRegistry_def ex_created_def ex_defs ex_draws_def maxLiveRecords_def
      hex_EncodeToString_def hex_digit_def)

lemma ex_Approve:
  "Approve ex_created ex_id = Some (ex_approved, Inr (Record ex_record, StatusExecuting, True))"
  by (simp add: Approve_def decide_def ex_created_def ex_approved_def ex_defs put_record_def)

lemma ex_Deny:
  "Deny_record ex_created ex_id = Some (ex_denied, Inr (Record ex_record, StatusDenied, True))"
  by (simp add: Deny_record_def decide_def ex_created_def ex_denied_def ex_defs put_record_def)

lemma ex_Redeem: "RedeemGrant ex_approved ex_id ''git.push'' = (ex_redeemed, None)"
  by (simp add: RedeemGrant_def ex_approved_def ex_redeemed_def ex_defs put_record_def)

lemma ex_Save: "SaveResponse ex_redeemed ex_id [79, 75] = Some (ex_completed, None)"
  by (simp add: SaveResponse_def ex_redeemed_def ex_completed_def ex_defs put_record_def)

lemma ex_run_created: "run approval_step NewRegistry [ev_created] ex_created"
  using ex_Create by (auto simp: run_Cons_iff ev_created_def intro: approval_step.intros)

lemma ex_run_approved: "run approval_step NewRegistry [ev_created, ev_approved] ex_approved"
  using run_append [OF ex_run_created, of "[ev_approved]" ex_approved] ex_Approve
  by (auto simp: run_Cons_iff ev_approved_def intro: approval_step.intros)

lemma ex_run_denied: "run approval_step NewRegistry [ev_created, ev_denied] ex_denied"
  using run_append [OF ex_run_created, of "[ev_denied]" ex_denied] ex_Deny
  by (auto simp: run_Cons_iff ev_denied_def intro: approval_step.intros)

lemma ex_run_redeemed:
  "run approval_step NewRegistry [ev_created, ev_approved, ev_redeemed] ex_redeemed"
  using run_append [OF ex_run_approved, of "[ev_redeemed]" ex_redeemed] ex_Redeem
  by (auto simp: run_Cons_iff ev_redeemed_def intro: approval_step.intros)

lemma ex_run_completed:
  "run approval_step NewRegistry [ev_created, ev_approved, ev_redeemed, ev_saved] ex_completed"
  using run_append [OF ex_run_redeemed, of "[ev_saved]" ex_completed] ex_Save
  by (auto simp: run_Cons_iff ev_saved_def intro: approval_step.intros)

section \<open>Execution safety\<close>

text \<open>
  C2. In every interleaving of registry calls, the grant of one approval record is redeemed
  at most once: an approved host action executes at most once.
\<close>

theorem redeem_at_most_once:
  "run approval_step NewRegistry evs g \<Longrightarrow> length (filter (redeems i) evs) \<le> 1"
  using grant.fires_at_most_once [OF _ approval_inv_New, of evs g i]
  by (auto simp: grant_spent_def NewRegistry_def)

theorem redeem_at_most_once_witness:
  "length (filter (redeems ex_id) [ev_created, ev_approved, ev_redeemed, ev_saved]) \<le> 1"
  by (rule redeem_at_most_once [OF ex_run_completed])

text \<open>
  C3. A grant redeems only after the user approved that very record: the run holds the
  approving call that changed the record, whose record has the redeemed id and action.
\<close>

theorem redeem_requires_approval:
  assumes "run approval_step NewRegistry evs g" and "RedeemGrant g i a = (g', None)"
  shows "\<exists>c. recID c = i \<and> recAction c = a \<and>
    EvDecide i StatusExecuting (Inr (c, StatusExecuting, True)) \<in> set evs"
proof -
  from assms(2) obtain r where r: "lookup_record g i = Some r" "recStatus r = StatusExecuting" "recAction r = a"
    by (cases rule: RedeemGrant_cases) auto
  have "recID r = i"
    using approval_inv_record [OF approval_run_inv [OF assms(1)] r(1)] by (simp add: record_ok_def)
  moreover have "under_execution g (i, Record r)" using r by (auto simp: under_execution_def)
  then have "approval_of (i, Record r) \<in> set evs"
    using executions.run_justified [OF assms(1) approval_inv_New]
    by (auto simp: under_execution_def NewRegistry_def)
  ultimately show ?thesis
    using r(3) by (intro exI [of _ "Record r"]) (auto simp: approval_of_def approval_record.truncate_def)
qed

theorem redeem_requires_approval_witness:
  "\<exists>c. recID c = ex_id \<and> recAction c = ''git.push'' \<and>
    EvDecide ex_id StatusExecuting (Inr (c, StatusExecuting, True)) \<in> set [ev_created, ev_approved]"
  by (rule redeem_requires_approval [OF ex_run_approved ex_Redeem])

text \<open>
  A record the user denied never executes, neither before nor after the denial.
\<close>

theorem denied_never_redeemed:
  assumes "run approval_step NewRegistry (evs @ EvDecide i StatusDenied (Inr (c, StatusDenied, True)) # evs') g"
  shows "filter (redeems i) (evs @ evs') = []"
proof -
  obtain s t where s: "run approval_step NewRegistry evs s"
    and step: "approval_step s (EvDecide i StatusDenied (Inr (c, StatusDenied, True))) t"
    and rest: "run approval_step t evs' g"
    using run_split [OF assms] by (auto simp: run_Cons_iff)
  have inv: "approval_inv s" "approval_inv t"
    using approval_run_inv [OF s] approval_system.step_inv step by blast+
  from step obtain r where r: "lookup_record s i = Some r" "recStatus r = StatusPending"
      "t = put_record s i (r\<lparr>recStatus := StatusDenied, recDecided := True\<rparr>)"
    by (auto simp: step_decide_iff Deny_record_def elim!: decide_Denied_cases)
  have unspent: "\<not> grant_spent i s"
    using approval_inv_record [OF inv(1) r(1)] r by (simp add: grant_spent_def record_ok_def)
  have before: "\<not> redeems i e" if "e \<in> set evs" for e
    using grant.fires_spent [OF s approval_inv_New, of i] unspent that by blast
  have after: "\<not> redeems i e" if e: "e \<in> set evs'" for e
  proof
    assume fires: "redeems i e"
    from e obtain xs ys where evs': "evs' = xs @ e # ys" by (meson split_list)
    then obtain u v where u: "run approval_step t xs u" "approval_step u e v"
      using run_split rest by (metis run_Cons_iff)
    have "lookup_record u i = Some (r\<lparr>recStatus := StatusDenied, recDecided := True\<rparr>)"
      by (rule evolves_frozen [OF approval_run_evolves [OF u(1) inv(2)]]) (simp_all add: r(3))
    with u(2) fires show False
      by (auto simp: redeems_def step_redeem_iff elim!: RedeemGrant_cases)
  qed
  from before after show ?thesis by (simp add: filter_empty_conv)
qed

theorem denied_never_redeemed_witness:
  "filter (redeems ex_id) ([ev_created] @ []) = []"
  by (rule denied_never_redeemed [of "[ev_created]" _ "Record ex_record" "[]"])
    (use ex_run_denied in \<open>simp add: ev_denied_def\<close>)

section \<open>Registry integrity\<close>

text \<open>
  No reachable registry call closes a record's \<open>decided\<close> channel twice (which would panic
  the launch process), and the registry never retains more than 64 records.
\<close>

theorem approval_no_panic:
  assumes "run approval_step NewRegistry evs g"
  shows "Approve g i \<noteq> None \<and> Deny_record g i \<noteq> None \<and> SaveResponse g i resp \<noteq> None \<and>
    DenyAll g \<noteq> None \<and> length (records g) \<le> maxLiveRecords"
  using approval_run_inv [OF assms]
  by (simp add: Approve_def Deny_record_def decide_total SaveResponse_total DenyAll_eq approval_inv_def)

theorem approval_no_panic_witness:
  "Approve ex_completed ex_id \<noteq> None \<and> Deny_record ex_completed ex_id \<noteq> None \<and>
   SaveResponse ex_completed ex_id [] \<noteq> None \<and> DenyAll ex_completed \<noteq> None \<and>
   length (records ex_completed) \<le> maxLiveRecords"
  by (rule approval_no_panic [OF ex_run_completed])

text \<open>
  Records are never dropped, their identifying fields never change, their status only
  moves forward (pending, executing, then completed or denied), and a decided record is
  frozen, its saved response included.
\<close>

theorem record_lifecycle:
  assumes "run approval_step NewRegistry evs g" and "run approval_step g evs' g'"
    and "lookup_record g i = Some r"
  shows "\<exists>q. lookup_record g' i = Some q \<and> Record q = Record r \<and>
    status_le (recStatus r) (recStatus q) \<and> (if terminal (recStatus r) then q = r else True)"
  using approval_run_evolves [OF assms(2) approval_run_inv [OF assms(1)]] assms(3)
  by (auto simp: registry_evolves_def record_evolves_def)

theorem record_lifecycle_witness:
  "\<exists>q. lookup_record ex_denied ex_id = Some q \<and> Record q = Record ex_record \<and>
    status_le (recStatus ex_record) (recStatus q) \<and>
    (if terminal (recStatus ex_record) then q = ex_record else True)"
proof -
  have "run approval_step ex_created [ev_denied] ex_denied"
    using ex_Deny by (auto simp: run_Cons_iff ev_denied_def intro: approval_step.intros)
  moreover have "lookup_record ex_created ex_id = Some ex_record" by (simp add: ex_created_def)
  ultimately show ?thesis by (rule record_lifecycle [OF ex_run_created])
qed

text \<open>
  \<open>Create\<close> answers with a pending record for exactly the requested action and parameters,
  and that record is the only pending one for them, so neither a repeated request nor the
  iteration order of the record map can yield a second approval id; on an error nothing
  changes.
\<close>

theorem Create_unique_pending:
  assumes "run approval_step NewRegistry evs g" and "Create g req now draws = Some (g', res)"
  shows "case res of
      Inl e \<Rightarrow> g' = g
    | Inr c \<Rightarrow> (\<exists>r. lookup_record g' (recID c) = Some r \<and> same_held_request req r \<and> Record r = c) \<and>
        {i. \<exists>r. lookup_record g' i = Some r \<and> same_held_request req r} = {recID c}"
proof -
  have inv: "approval_inv g" by (rule approval_run_inv [OF assms(1)])
  have inv': "pending_unique g'" "\<And>i r. lookup_record g' i = Some r \<Longrightarrow> recID r = i"
    using Create_inv [OF inv assms(2)] by (auto simp: approval_inv_def record_ok_def)
  have only: "{i. \<exists>r. lookup_record g' i = Some r \<and> same_held_request req r} = {i}"
    if "lookup_record g' i = Some r" "same_held_request req r" for i r
  proof -
    have "j = i" if j: "lookup_record g' j = Some q" "same_held_request req q" for j q
      using j \<open>same_held_request req r\<close>
      by (intro pending_uniqueD [OF inv'(1) j(1) \<open>lookup_record g' i = Some r\<close>])
        (simp_all add: same_held_request_def)
    with that show ?thesis by blast
  qed
  from assms(2) inv show ?thesis
  proof (cases rule: Create_cases)
    case (reused i r)
    moreover from reused inv'(2) have "recID r = i" by simp
    ultimately show ?thesis using only [of i r] by (simp add: approval_record.truncate_def)
  next
    case (failed e)
    then show ?thesis by simp
  next
    case (created i)
    then have "lookup_record g' i = Some (new_record i req now)" by simp
    moreover have "same_held_request req (new_record i req now)" by (simp add: same_held_request_def)
    ultimately show ?thesis
      using only created(5) by (simp add: approval_record.truncate_def)
  qed
qed

theorem Create_unique_pending_witness:
  "{i. \<exists>r. lookup_record ex_created i = Some r \<and> same_held_request ex_request r} = {recID (Record ex_record)}"
  using Create_unique_pending [OF run_nil ex_Create] by simp

section \<open>The identifier loop\<close>

lemma hex_digit_inj: "m < 16 \<Longrightarrow> n < 16 \<Longrightarrow> hex_digit m = hex_digit n \<Longrightarrow> m = n"
proof -
  have "distinct ''0123456789abcdef''" by simp
  moreover assume "m < 16" "n < 16" "hex_digit m = hex_digit n"
  ultimately show "m = n"
    using nth_eq_iff_index_eq [of "''0123456789abcdef''" m n] by (simp add: hex_digit_def)
qed

lemma unat_byte_div [simp]: "unat (b :: 8 word) div 16 < 16"
proof -
  have "unat b < 2 ^ 8" using unsigned_less [of b] by simp
  then show ?thesis by (simp add: less_mult_imp_div_less)
qed

lemma hex_byte_inj:
  fixes a b :: "8 word"
  assumes "hex_digit (unat a div 16) = hex_digit (unat b div 16)"
    and "hex_digit (unat a mod 16) = hex_digit (unat b mod 16)"
  shows "a = b"
proof -
  have "unat a div 16 = unat b div 16" "unat a mod 16 = unat b mod 16"
    using assms hex_digit_inj by auto
  then have "unat a = unat b" by (metis div_mult_mod_eq)
  then show ?thesis by (simp add: word_unat_eq_iff)
qed

lemma hex_EncodeToString_inj: "hex_EncodeToString xs = hex_EncodeToString ys \<Longrightarrow> xs = ys"
proof (induction xs arbitrary: ys)
  case Nil
  then show ?case by (cases ys) (auto simp: hex_EncodeToString_def)
next
  case (Cons x xs)
  then show ?case by (cases ys) (auto simp: hex_EncodeToString_def dest: hex_byte_inj)
qed

lemma newIDLocked_None:
  "newIDLocked recs (map Some raws) = None \<Longrightarrow> hex_EncodeToString ` set raws \<subseteq> fst ` set recs"
  by (induction raws) (auto simp: Let_def map_of_eq_None_iff split: if_splits)

text \<open>
  C33. The unbounded id loop returns an unused id as soon as the random source has delivered
  more distinct values than there are records, so at most 64 of them.
\<close>

theorem newIDLocked_returns:
  assumes "distinct raws" and "length (records g) < length raws"
  shows "\<exists>i. newIDLocked (records g) (map Some raws) = Some (Inr i) \<and> lookup_record g i = None"
proof -
  have "card (hex_EncodeToString ` set raws) = length raws"
    using assms(1) by (subst card_image) (auto simp: distinct_card inj_on_def dest: hex_EncodeToString_inj)
  moreover have "card (fst ` set (records g)) \<le> length (records g)"
    using card_length [of "map fst (records g)"] by simp
  ultimately have "\<not> hex_EncodeToString ` set raws \<subseteq> fst ` set (records g)"
    using assms(2) card_mono [of "fst ` set (records g)" "hex_EncodeToString ` set raws"] by auto
  then have "newIDLocked (records g) (map Some raws) \<noteq> None"
    using newIDLocked_None by blast
  moreover have "newIDLocked recs (map Some xs) \<noteq> Some (Inl e)" for recs xs e
    by (induction xs) (auto simp: Let_def)
  ultimately obtain i where "newIDLocked (records g) (map Some raws) = Some (Inr i)"
    by (metis not_None_eq old.sum.exhaust)
  then show ?thesis using newIDLocked_fresh by blast
qed

theorem newIDLocked_returns_witness:
  "\<exists>i. newIDLocked (records ex_completed) (map Some [[1, 2, 3, 4, 5, 255], [0, 0, 0, 0, 0, 7]]) = Some (Inr i) \<and>
     lookup_record ex_completed i = None"
  by (rule newIDLocked_returns) (simp_all add: ex_completed_def)

section \<open>Waiting and authorizing\<close>

text \<open>
  A wait that was woken by a decision answers a final status: the completed status with
  the response some \<open>SaveResponse\<close> call of the run saved, or the denied status with none.
\<close>

theorem Wait_decided_final:
  assumes "run approval_step NewRegistry evs g" and "run approval_step g evs' g'"
    and "lookup_record g i = Some r" and "wake_enabled g' i WakeDecided"
  shows "\<exists>q. lookup_record g' i = Some q \<and>
    ((Wait g i WakeDecided g' = Inr (Record q, StatusCompleted, recResponse q) \<and>
        EvSave i (recResponse q) None \<in> set (evs @ evs')) \<or>
     Wait g i WakeDecided g' = Inr (Record q, StatusDenied, []))"
proof -
  have run: "run approval_step NewRegistry (evs @ evs') g'" using assms(1,2) by (rule run_append)
  from assms(4) obtain q where q: "lookup_record g' i = Some q" "recDecided q"
    by (auto simp: wake_enabled_def split: option.splits)
  have final: "terminal (recStatus q)"
    using approval_inv_record [OF approval_run_inv [OF run] q(1)] q(2) by (simp add: record_ok_def)
  have saved: "EvSave i (recResponse q) None \<in> set (evs @ evs')" if "recStatus q = StatusCompleted"
  proof -
    have "has_response g' (i, recResponse q)" using q that by (simp add: has_response_def)
    from responses.run_justified [OF run approval_inv_New this] show ?thesis
      by (simp add: has_response_def response_of_def NewRegistry_def)
  qed
  from final saved q assms(3) show ?thesis
    by (cases "recStatus q") (auto simp: Wait_def)
qed

theorem Wait_decided_final_witness:
  "\<exists>q. lookup_record ex_completed ex_id = Some q \<and>
    ((Wait ex_redeemed ex_id WakeDecided ex_completed = Inr (Record q, StatusCompleted, recResponse q) \<and>
        EvSave ex_id (recResponse q) None \<in> set ([ev_created, ev_approved, ev_redeemed] @ [ev_saved])) \<or>
     Wait ex_redeemed ex_id WakeDecided ex_completed = Inr (Record q, StatusDenied, []))"
proof -
  have step: "run approval_step ex_redeemed [ev_saved] ex_completed"
    using ex_Save by (auto simp: run_Cons_iff ev_saved_def intro: approval_step.intros)
  have rec: "lookup_record ex_redeemed ex_id = Some (ex_record\<lparr>recStatus := StatusExecuting, recRedeemed := True\<rparr>)"
    by (simp add: ex_redeemed_def)
  have wake: "wake_enabled ex_completed ex_id WakeDecided"
    by (simp add: wake_enabled_def ex_completed_def)
  show ?thesis by (rule Wait_decided_final [OF ex_run_redeemed step rec wake])
qed

text \<open>
  C5. \<open>Authorize\<close> lets a request run exactly when it redeems the grant its context carries,
  or, without a grant, when the policy allows it outright: an explicit deny or always-ask
  rule never lets it run, even under yolo, and neither does an unanswered ask.
\<close>

theorem Authorize_runs_iff:
  "Authorize cfg g ctx req now draws = Some (g', None) \<longleftrightarrow>
     (\<exists>i. grantFrom ctx = Some i \<and> RedeemGrant g i (reqAction req) = (g', None)) \<or>
     (grantFrom ctx = None \<and> g' = g \<and>
      PermissionRule (cfgActions cfg) (reqAction req) \<notin> {RuleDeny, RuleAlwaysAsk} \<and>
      (cfgYolo cfg \<or> PermissionRule (cfgActions cfg) (reqAction req) = RuleAllow \<or>
       (PermissionRule (cfgActions cfg) (reqAction req) = RuleUnset \<and> reqDefault req = RuleAllow)))"
proof (cases "grantFrom ctx")
  case None
  then show ?thesis
    using Resolve_Allow [of "PermissionRule (cfgActions cfg) (reqAction req)" "reqDefault req" "cfgYolo cfg"]
    by (auto simp: Authorize_def split: outcome.splits sum.splits)
next
  case (Some i)
  then show ?thesis by (simp add: Authorize_def)
qed

text \<open>
  The textual form of a permission rule and its parser are inverse on the configurable
  rules, and nothing but those four words parses.
\<close>

theorem ParseRule_roundtrip:
  "ParseRule v = Inr r \<longleftrightarrow> v = Rule_String r \<and> r \<noteq> RuleUnset"
  using ParseRule_Inr by blast

end
