(* ===== verification/Resource_Types.thy ===== *)
theory Resource_Types
  imports Prelude
begin

text \<open>
  \<open>internal/agent/resource\<close>: the data of the background-resource registry (\<open>types.go\<close>,
  \<open>state.go\<close>, \<open>errors.go\<close>, \<open>lease.go\<close>, \<open>connector.go\<close>, \<open>registry.go\<close>), the sharing scopes
  (\<open>scope.go\<close>), the lifecycle options (\<open>options.go\<close>) and the retry backoff of \<open>failure.go\<close>.
\<close>

section \<open>Scopes\<close>

record mount_source_identity =
  msDevice :: "64 word"
  msInode :: "64 word"
  msFileType :: "32 word"

record resource_mount =
  rmSource :: string
  rmSourceIdentity :: mount_source_identity
  rmTarget :: string
  rmAccess :: string
  rmScope :: string

datatype scope_error = InvalidScope string | MountScope string scope_error | InvalidRunAuthority string

definition ScopeUser :: string where "ScopeUser = ''user''"
definition ScopeHome :: string where "ScopeHome = ''home''"
definition ScopeProject :: string where "ScopeProject = ''project''"
definition ScopeRun :: string where "ScopeRun = ''run''"
definition RunAuthorityAbsent :: string where "RunAuthorityAbsent = ''absent''"
definition RunAuthorityPresent :: string where "RunAuthorityPresent = ''present''"

lemmas scope_defs = ScopeUser_def ScopeHome_def ScopeProject_def ScopeRun_def
  RunAuthorityAbsent_def RunAuthorityPresent_def

definition scope_rank :: "string \<Rightarrow> scope_error + nat" where
  "scope_rank s =
     (if s = ScopeUser then Inr 0
      else if s = ScopeHome then Inr 1
      else if s = ScopeProject then Inr 2
      else if s = ScopeRun then Inr 3
      else Inl (InvalidScope s))"

fun narrow_by_mounts :: "nat \<Rightarrow> string \<Rightarrow> resource_mount list \<Rightarrow> scope_error + string" where
  "narrow_by_mounts rank effective [] = Inr effective"
| "narrow_by_mounts rank effective (m # ms) =
     (case scope_rank (rmScope m) of
        Inl e \<Rightarrow> Inl (MountScope (rmTarget m) e)
      | Inr mountRank \<Rightarrow>
          if mountRank > rank then narrow_by_mounts mountRank (rmScope m) ms
          else narrow_by_mounts rank effective ms)"

definition EffectiveScope :: "string \<Rightarrow> resource_mount list \<Rightarrow> string \<Rightarrow> scope_error + string" where
  "EffectiveScope requested mounts runAuthority =
     (case scope_rank requested of
        Inl e \<Rightarrow> Inl e
      | Inr rank \<Rightarrow>
          (case narrow_by_mounts rank requested mounts of
             Inl e \<Rightarrow> Inl e
           | Inr effective \<Rightarrow>
               if runAuthority = RunAuthorityAbsent then Inr effective
               else if runAuthority = RunAuthorityPresent then Inr ScopeRun
               else Inl (InvalidRunAuthority runAuthority)))"

section \<open>Keys, states, errors\<close>

record resource_key =
  keyDigest :: bytes
  keyKind :: string
  keyTransport :: string
  keyScope :: string

definition validKey :: "resource_key \<Rightarrow> bool" where
  "validKey k \<longleftrightarrow> keyKind k \<noteq> '''' \<and> keyTransport k \<noteq> '''' \<and> keyScope k \<noteq> ''''"

datatype resource_phase = StateCold | StateStarting | StateReady | StateIdle | StateStopping | StateFailed

datatype lease_phase = LeaseOpening | LeaseActive | LeaseReleasing | LeaseClosed

datatype resource_error =
    ErrShuttingDown
  | ErrResourceUnavailable
  | ErrLeaseClosed
  | ErrResourceExited "resource_error option"
  | RetryError instant
  | StartError resource_error
  | DeadlineExceeded
  | ErrStartUnused
  | ContextCanceled
  | GenerationExhausted
  | IdlePolicyMismatch
  | InvalidKey
  | NegativeIdleTimeout
  | NilInstance
  | NilDoneChannel
  | ExitedBeforeReady
  | ForeignError string
  | ForcedTerminationTimeout
  | JoinedErrors "resource_error list"

type_synonym generation = "64 word"

section \<open>Options and backoff\<close>

record resource_options =
  optIdleTimeout :: duration
  optStartTimeout :: duration
  optStopGrace :: duration
  optKillGrace :: duration
  optBackoffInitial :: duration
  optBackoffMaximum :: duration
  optFailureRetention :: duration
  optStableReady :: duration
  optJitter :: "(duration \<Rightarrow> duration) option"

definition Second :: duration where
  "Second = 1000000000"

definition ResourceStopGrace :: duration where
  "ResourceStopGrace = 5 * Second"

definition ResourceKillGrace :: duration where
  "ResourceKillGrace = 2 * Second"

datatype options_error = NegativeDuration string | BackoffMaximumBelowInitial

definition validateNonNegativeDurations :: "resource_options \<Rightarrow> options_error verdict" where
  "validateNonNegativeDurations o' =
     each (\<lambda>(n, v). fail_if (v < 0) (NegativeDuration n))
       [(''idle timeout'', optIdleTimeout o'), (''start timeout'', optStartTimeout o'),
        (''stop grace'', optStopGrace o'), (''kill grace'', optKillGrace o'),
        (''backoff initial'', optBackoffInitial o'), (''backoff maximum'', optBackoffMaximum o'),
        (''failure retention'', optFailureRetention o'),
        (''stable readiness period'', optStableReady o')]"

definition or_default :: "duration \<Rightarrow> duration \<Rightarrow> duration" where
  "or_default v d = (if v = 0 then d else v)"

text \<open>
  \<open>draw w\<close> is the random number \<open>rand.Int64N(w + 1)\<close>, between \<open>0\<close> and \<open>w\<close>. Durations are
  divided by two when they are not negative, where Go's truncation is \<open>div\<close>.
\<close>

definition defaultJitter :: "(duration \<Rightarrow> duration) \<Rightarrow> duration \<Rightarrow> duration" where
  "defaultJitter draw delay =
     (let minimum = delay div 2; width = delay - minimum
      in if width \<le> 0 then delay else minimum + draw width)"

definition options_normalized ::
  "(duration \<Rightarrow> duration) \<Rightarrow> resource_options \<Rightarrow> options_error + resource_options"
where
  "options_normalized draw o' =
     (case validateNonNegativeDurations o' of
        Some e \<Rightarrow> Inl e
      | None \<Rightarrow>
          (let n = o'\<lparr>
             optIdleTimeout := or_default (optIdleTimeout o') (300 * Second),
             optStartTimeout := or_default (optStartTimeout o') (120 * Second),
             optStopGrace := or_default (optStopGrace o') ResourceStopGrace,
             optKillGrace := or_default (optKillGrace o') ResourceKillGrace,
             optBackoffInitial := or_default (optBackoffInitial o') Second,
             optBackoffMaximum := or_default (optBackoffMaximum o') (60 * Second),
             optFailureRetention := or_default (optFailureRetention o') (300 * Second),
             optStableReady := or_default (optStableReady o') (30 * Second),
             optJitter := (case optJitter o' of None \<Rightarrow> Some (defaultJitter draw) | j \<Rightarrow> j)\<rparr>
           in if optBackoffMaximum n < optBackoffInitial n then Inl BackoffMaximumBelowInitial
              else Inr n))"

definition jitter :: "resource_options \<Rightarrow> duration \<Rightarrow> duration" where
  "jitter o' d = (case optJitter o' of None \<Rightarrow> d | Some j \<Rightarrow> j d)"

text \<open>The doubling loop of \<open>failLocked\<close>; \<open>remaining\<close> counts down from the failure count.\<close>

function backoff_loop :: "nat \<Rightarrow> duration \<Rightarrow> duration \<Rightarrow> duration" where
  "backoff_loop remaining base maximum =
     (if remaining > 1 \<and> base < maximum then
        (if base > maximum div 2 then maximum
         else backoff_loop (remaining - 1) (base * 2) maximum)
      else base)"
  by pat_completeness auto
termination
  by (relation "measure (\<lambda>(remaining, base, maximum). remaining)") auto

declare backoff_loop.simps [simp del]

definition backoff_base :: "resource_options \<Rightarrow> 32 word \<Rightarrow> duration" where
  "backoff_base o' failures =
     min (backoff_loop (unat failures) (optBackoffInitial o') (optBackoffMaximum o')) (optBackoffMaximum o')"

definition backoff_delay :: "resource_options \<Rightarrow> 32 word \<Rightarrow> duration" where
  "backoff_delay o' failures =
     (let base = backoff_base o' failures;
          minimumDelay = (if base div 2 \<le> 0 then 1 else base div 2);
          delay = jitter o' base;
          delay = (if delay < minimumDelay then minimumDelay else delay)
      in if delay > optBackoffMaximum o' then optBackoffMaximum o' else delay)"

section \<open>Leases, connectors, entries\<close>

text \<open>
  A lease's \<open>ready\<close> channel has capacity one: \<open>leaseReady\<close> lists every value ever sent on it.
  \<open>leaseDone\<close> and \<open>connDone\<close> count the closes of the respective \<open>done\<close> channels.
\<close>

record lease =
  leaseKey :: resource_key
  leaseState :: lease_phase
  leaseGeneration :: generation
  leaseReady :: "resource_error option list"
  leaseDone :: nat
  leaseErr :: "resource_error option"

record connector =
  connKey :: resource_key
  connGeneration :: generation
  connDone :: nat
  connErr :: "resource_error option"
  connClosed :: bool

text \<open>
  An instance handle supervises exactly one generation (the \<open>Factory\<close> contract), so it is
  named by that generation. Timer and cancel-function fields record whether they are set.
\<close>

record entry =
  entGeneration :: generation
  entState :: resource_phase
  entInstance :: "generation option"
  entReaped :: bool
  entStartPending :: bool
  entLeases :: "nat set"
  entConnectors :: "nat set"
  entStartCancel :: bool
  entStartTimer :: bool
  entIdleTimer :: bool
  entStableTimer :: bool
  entFailureTimer :: bool
  entStartedAt :: instant
  entStartDeadline :: instant
  entReadyAt :: instant
  entIdleDeadline :: instant
  entIdleTimeout :: duration
  entRetryDeadline :: instant
  entFailureDeadline :: instant
  entUpdatedAt :: instant
  entLastError :: string
  entFailures :: "32 word"

section \<open>Scopes only narrow\<close>

definition scope_order :: "string \<Rightarrow> nat" where
  "scope_order s = (case scope_rank s of Inl _ \<Rightarrow> 0 | Inr n \<Rightarrow> n)"

lemma scope_rank_Inr: "scope_rank s = Inr n \<Longrightarrow> scope_order s = n \<and> n \<le> 3"
  by (auto simp: scope_order_def scope_rank_def split: if_splits)

lemma scope_rank_inj: "scope_rank s = Inr n \<Longrightarrow> scope_rank t = Inr n \<Longrightarrow> s = t"
  by (auto simp: scope_rank_def split: if_splits)

lemma Max_insert2: "finite S \<Longrightarrow> Max (insert (a::nat) (insert b S)) = Max (insert (max a b) S)"
  by (cases "S = {}") (simp_all add: max.assoc)

lemma narrow_by_mounts_spec:
  assumes "narrow_by_mounts rank eff ms = Inr e" and "scope_rank eff = Inr rank"
  shows "scope_rank e = Inr (Max (insert rank ((\<lambda>m. scope_order (rmScope m)) ` set ms)))"
  using assms
proof (induction rank eff ms rule: narrow_by_mounts.induct)
  case (1 rank eff)
  then show ?case by simp
next
  case (2 rank eff m ms)
  from "2.prems"(1) obtain r where r: "scope_rank (rmScope m) = Inr r"
    by (auto split: sum.splits)
  have ord: "scope_order (rmScope m) = r" using scope_rank_Inr [OF r] by simp
  show ?case
  proof (cases "r > rank")
    case True
    with 2 r have "scope_rank e = Inr (Max (insert r ((\<lambda>m. scope_order (rmScope m)) ` set ms)))" by simp
    with True ord show ?thesis by (simp add: Max_insert2 max_absorb2 del: Max_insert)
  next
    case False
    with 2 r have "scope_rank e = Inr (Max (insert rank ((\<lambda>m. scope_order (rmScope m)) ` set ms)))" by simp
    with False ord show ?thesis by (simp add: Max_insert2 max_absorb1 del: Max_insert)
  qed
qed

section \<open>The backoff schedule\<close>

lemma backoff_loop_eq:
  assumes "0 < base" and "base \<le> maximum"
  shows "backoff_loop n base maximum = min (base * 2 ^ (n - 1)) maximum"
  using assms
proof (induction n base maximum rule: backoff_loop.induct)
  case (1 n base maximum)
  show ?case
  proof (cases "n > 1 \<and> base < maximum")
    case False
    have "base \<le> base * 2 ^ (n - 1)" using "1.prems" by simp
    moreover have "n - 1 = 0 \<or> base = maximum" using False "1.prems" by linarith
    ultimately show ?thesis
      using False "1.prems"(2) by (subst backoff_loop.simps) (auto simp: min_def)
  next
    case True
    obtain k where n: "n = Suc (Suc k)" using True by (cases n; cases "n - 1") auto
    show ?thesis
    proof (cases "base > maximum div 2")
      case big: True
      have "(1::int) \<le> 2 ^ k" by simp
      then have "base * 2 \<le> base * 2 * 2 ^ k" using "1.prems"(1) by (metis mult.right_neutral
            mult_left_mono mult_pos_pos order_less_imp_le zero_less_numeral)
      then have "maximum \<le> base * 2 ^ (n - 1)" using big n by (simp add: mult.assoc)
      with True big show ?thesis by (subst backoff_loop.simps) (simp add: min_def)
    next
      case small: False
      then have "base * 2 \<le> maximum" by linarith
      with 1 True small have "backoff_loop (n - 1) (base * 2) maximum = min (base * 2 * 2 ^ (n - 1 - 1)) maximum"
        by simp
      with True small n show ?thesis by (subst backoff_loop.simps) (simp add: mult.assoc)
    qed
  qed
qed

lemma backoff_delay_bounds:
  assumes "0 < optBackoffInitial o'" and "optBackoffInitial o' \<le> optBackoffMaximum o'"
  shows "0 < backoff_delay o' f" and "backoff_delay o' f \<le> optBackoffMaximum o'"
    and "backoff_base o' f div 2 \<le> backoff_delay o' f"
proof -
  have base: "backoff_base o' f \<le> optBackoffMaximum o'" by (simp add: backoff_base_def)
  have pos: "0 < backoff_base o' f"
    using assms by (simp add: backoff_base_def backoff_loop_eq)
  show "0 < backoff_delay o' f" "backoff_delay o' f \<le> optBackoffMaximum o'"
    "backoff_base o' f div 2 \<le> backoff_delay o' f"
    using base pos assms by (auto simp: backoff_delay_def Let_def)
qed

end
