(* ===== verification/Resource_Registry.thy ===== *)
theory Resource_Registry
  imports Resource_Types
begin

text \<open>
  The operations of \<open>internal/agent/resource\<close>: \<open>acquire.go\<close>, \<open>lease.go\<close>, \<open>connector.go\<close>,
  \<open>startup.go\<close>, \<open>stop.go\<close>, \<open>idle.go\<close>, \<open>stability.go\<close>, \<open>failure.go\<close>, \<open>retention.go\<close> and
  \<open>shutdown.go\<close>. Each critical section of the registry mutex is one function on the explicit
  state; the clock is read once per critical section (\<open>now\<close>). The entry a Go function mutates
  through its pointer (\<open>current\<close>) is passed and returned as a value and stored back by the
  caller. Goroutines counted by \<open>workers\<close> are values of type \<open>worker\<close> in the state: the next
  critical section each of them has to run.
\<close>

section \<open>State\<close>

datatype worker =
    WStart resource_key generation
      \<comment> \<open>\<open>startGeneration\<close>, inside \<open>factory.Start\<close>\<close>
  | WPublish resource_key generation
      \<comment> \<open>\<open>startGeneration\<close> with a ready instance, about to lock\<close>
  | WCleanup resource_key generation resource_error "generation option"
      \<comment> \<open>\<open>cleanupFailedStart\<close>, stopping the instance it was given\<close>
  | WReap resource_key generation
      \<comment> \<open>\<open>cleanupFailedStart\<close>, waiting for an instance it could not reap\<close>
  | WWatch resource_key generation
      \<comment> \<open>\<open>watchGeneration\<close>\<close>
  | WStop resource_key generation "generation option"
      \<comment> \<open>\<open>stopGeneration\<close>\<close>
  | WDetach resource_key generation
      \<comment> \<open>\<open>stopDetached\<close>, stopping the instance\<close>
  | WDetachWait resource_key generation
      \<comment> \<open>\<open>stopDetached\<close>, waiting for an instance it could not reap\<close>

record resource_state =
  rsEntries :: "(resource_key \<times> entry) list"
  rsNextGeneration :: generation
  rsClosing :: bool
  rsShutdownWait :: bool
  rsShutdownDone :: bool
  rsShutdownErrors :: "resource_error list"
  rsLeases :: "nat \<Rightarrow> lease option"
  rsConnectors :: "nat \<Rightarrow> connector option"
  rsNextHandle :: nat
  rsWorkers :: "worker set"
  rsCancelled :: "generation \<Rightarrow> resource_error option"
  rsStarted :: "(resource_key \<times> generation) set"
    \<comment> \<open>the generations for which the factory has returned an instance\<close>
  rsExited :: "(resource_key \<times> generation) set"
    \<comment> \<open>the generations whose instance's \<open>Done\<close> channel is closed\<close>

definition NewResourceRegistry :: resource_state where
  "NewResourceRegistry =
     \<lparr>rsEntries = [], rsNextGeneration = 0, rsClosing = False, rsShutdownWait = False,
      rsShutdownDone = False, rsShutdownErrors = [], rsLeases = Map.empty, rsConnectors = Map.empty,
      rsNextHandle = 0, rsWorkers = {}, rsCancelled = Map.empty, rsStarted = {},
      rsExited = {}\<rparr>"

abbreviation entry_of :: "resource_state \<Rightarrow> resource_key \<Rightarrow> entry option" where
  "entry_of s k \<equiv> map_of (rsEntries s) k"

definition put_entry :: "resource_state \<Rightarrow> resource_key \<Rightarrow> entry \<Rightarrow> resource_state" where
  "put_entry s k e = s\<lparr>rsEntries := AList.update k e (rsEntries s)\<rparr>"

definition del_entry :: "resource_state \<Rightarrow> resource_key \<Rightarrow> resource_state" where
  "del_entry s k = s\<lparr>rsEntries := AList.delete k (rsEntries s)\<rparr>"

definition add_worker :: "worker \<Rightarrow> resource_state \<Rightarrow> resource_state" where
  "add_worker w s = s\<lparr>rsWorkers := insert w (rsWorkers s)\<rparr>"

definition end_worker :: "worker \<Rightarrow> resource_state \<Rightarrow> resource_state" where
  "end_worker w s = s\<lparr>rsWorkers := rsWorkers s - {w}\<rparr>"

text \<open>The instance is observed as exited when its \<open>Done\<close> channel is closed; a nil handle never is.\<close>

definition done_observed :: "resource_state \<Rightarrow> resource_key \<Rightarrow> generation option \<Rightarrow> bool" where
  "done_observed s k i = (case i of None \<Rightarrow> False | Some g \<Rightarrow> (k, g) \<in> rsExited s)"

section \<open>Leases and connectors\<close>

definition activateLeaseLocked :: "generation \<Rightarrow> lease \<Rightarrow> lease" where
  "activateLeaseLocked g l =
     l\<lparr>leaseGeneration := g, leaseState := LeaseActive, leaseReady := leaseReady l @ [None]\<rparr>"

definition closeLeaseLocked :: "resource_error option \<Rightarrow> bool \<Rightarrow> lease \<Rightarrow> lease" where
  "closeLeaseLocked cause notifyOpening l =
     (if leaseState l = LeaseClosed then l
      else l\<lparr>leaseState := LeaseClosed, leaseErr := cause,
             leaseReady := leaseReady l @
               (if notifyOpening \<and> leaseState l = LeaseOpening then [cause] else []),
             leaseDone := Suc (leaseDone l)\<rparr>)"

definition closeConnectorLocked :: "resource_error option \<Rightarrow> connector \<Rightarrow> connector" where
  "closeConnectorLocked cause c =
     (if connClosed c then c else c\<lparr>connClosed := True, connErr := cause, connDone := Suc (connDone c)\<rparr>)"

definition on_leases :: "nat set \<Rightarrow> (lease \<Rightarrow> lease) \<Rightarrow> resource_state \<Rightarrow> resource_state" where
  "on_leases L f s = s\<lparr>rsLeases := (\<lambda>l. if l \<in> L then map_option f (rsLeases s l) else rsLeases s l)\<rparr>"

definition on_connectors :: "nat set \<Rightarrow> (connector \<Rightarrow> connector) \<Rightarrow> resource_state \<Rightarrow> resource_state" where
  "on_connectors C f s =
     s\<lparr>rsConnectors := (\<lambda>c. if c \<in> C then map_option f (rsConnectors s c) else rsConnectors s c)\<rparr>"

definition invalidateLeasesLocked ::
  "resource_state \<Rightarrow> entry \<Rightarrow> resource_error \<Rightarrow> resource_state \<times> entry"
where
  "invalidateLeasesLocked s e cause =
     (on_leases (entLeases e) (closeLeaseLocked (Some cause) True) s, e\<lparr>entLeases := {}\<rparr>)"

definition invalidateConnectorsLocked ::
  "resource_state \<Rightarrow> entry \<Rightarrow> resource_error \<Rightarrow> resource_state \<times> entry"
where
  "invalidateConnectorsLocked s e cause =
     (on_connectors (entConnectors e) (closeConnectorLocked (Some cause)) s, e\<lparr>entConnectors := {}\<rparr>)"

section \<open>Timers, retention, failure\<close>

definition cancelFailureRetentionLocked :: "entry \<Rightarrow> entry" where
  "cancelFailureRetentionLocked e = e\<lparr>entFailureTimer := False, entFailureDeadline := zero_time\<rparr>"

definition scheduleFailureRetentionLocked :: "resource_options \<Rightarrow> entry \<Rightarrow> entry" where
  "scheduleFailureRetentionLocked o' e =
     (cancelFailureRetentionLocked e)
       \<lparr>entFailureDeadline := entRetryDeadline e + optFailureRetention o', entFailureTimer := True\<rparr>"

definition cancelIdleLocked :: "entry \<Rightarrow> entry" where
  "cancelIdleLocked e = e\<lparr>entIdleTimer := False, entIdleDeadline := zero_time\<rparr>"

definition cancelStableResetLocked :: "entry \<Rightarrow> entry" where
  "cancelStableResetLocked e = e\<lparr>entStableTimer := False\<rparr>"

definition scheduleStableResetLocked :: "entry \<Rightarrow> entry" where
  "scheduleStableResetLocked e = (cancelStableResetLocked e)\<lparr>entStableTimer := True\<rparr>"

text \<open>
  The cause of a start context: the first cancellation wins, and the registry's lifetime
  context cancels every start context when shutdown begins.
\<close>

definition start_cause :: "resource_state \<Rightarrow> generation \<Rightarrow> resource_error option" where
  "start_cause s g =
     (case rsCancelled s g of
        Some c \<Rightarrow> Some c
      | None \<Rightarrow> if rsClosing s then Some ContextCanceled else None)"

definition cancel_start_context :: "resource_state \<Rightarrow> generation \<Rightarrow> resource_error \<Rightarrow> resource_state" where
  "cancel_start_context s g cause =
     (if start_cause s g = None then s\<lparr>rsCancelled := (rsCancelled s)(g \<mapsto> cause)\<rparr> else s)"

definition cancelStartLocked ::
  "resource_state \<Rightarrow> entry \<Rightarrow> resource_error \<Rightarrow> resource_state \<times> entry"
where
  "cancelStartLocked s e cause =
     ((if entStartCancel e then cancel_start_context s (entGeneration e) cause else s),
      e\<lparr>entStartTimer := False, entStartCancel := False, entStartDeadline := zero_time\<rparr>)"

definition failLocked :: "resource_options \<Rightarrow> instant \<Rightarrow> entry \<Rightarrow> string \<Rightarrow> entry" where
  "failLocked o' now e sanitizedError =
     (let failures = (if entReadyAt e \<noteq> zero_time \<and> now - entReadyAt e \<ge> optStableReady o'
                      then 0 else entFailures e);
          failures = (if failures < - 1 then failures + 1 else failures)
      in scheduleFailureRetentionLocked o'
           (e\<lparr>entFailures := failures, entState := StateFailed,
              entRetryDeadline := now + backoff_delay o' failures, entUpdatedAt := now,
              entLastError := sanitizedError, entIdleDeadline := zero_time\<rparr>))"

definition cold_deletable :: "entry \<Rightarrow> bool" where
  "cold_deletable e \<longleftrightarrow>
     entState e = StateCold \<and> entInstance e = None \<and> \<not> entReaped e \<and> \<not> entStartPending e \<and>
     entLeases e = {} \<and> entConnectors e = {} \<and>
     \<not> entStartCancel e \<and> \<not> entStartTimer e \<and> \<not> entIdleTimer e \<and> \<not> entStableTimer e \<and>
     \<not> entFailureTimer e \<and>
     entStartDeadline e = zero_time \<and> entIdleDeadline e = zero_time \<and>
     entRetryDeadline e = zero_time \<and> entFailureDeadline e = zero_time"

definition deleteColdEntryLocked :: "resource_state \<Rightarrow> resource_key \<Rightarrow> entry \<Rightarrow> resource_state" where
  "deleteColdEntryLocked s k e = (if cold_deletable e then del_entry s k else put_entry s k e)"

definition failed_deletable :: "instant \<Rightarrow> entry \<Rightarrow> bool" where
  "failed_deletable now e \<longleftrightarrow>
     entState e = StateFailed \<and> entInstance e = None \<and> \<not> entStartPending e \<and>
     entLeases e = {} \<and> entConnectors e = {} \<and> entFailureDeadline e \<le> now"

definition deleteFailedEntryLocked ::
  "instant \<Rightarrow> resource_state \<Rightarrow> resource_key \<Rightarrow> entry \<Rightarrow> resource_state"
where
  "deleteFailedEntryLocked now s k e =
     (if failed_deletable now e then del_entry s k else put_entry s k e)"

definition expireFailure ::
  "instant \<Rightarrow> resource_state \<Rightarrow> resource_key \<Rightarrow> generation \<Rightarrow> instant \<Rightarrow> resource_state"
where
  "expireFailure now s k g deadline =
     (case entry_of s k of
        None \<Rightarrow> s
      | Some e \<Rightarrow>
          if rsClosing s \<or> entGeneration e \<noteq> g \<or> entState e \<noteq> StateFailed then s
          else if entFailureDeadline e \<noteq> deadline \<or> now < deadline then s
          else deleteFailedEntryLocked now s k (e\<lparr>entFailureTimer := False\<rparr>))"

definition resetStableGeneration ::
  "instant \<Rightarrow> resource_state \<Rightarrow> resource_key \<Rightarrow> generation \<Rightarrow> resource_state"
where
  "resetStableGeneration now s k g =
     (case entry_of s k of
        None \<Rightarrow> s
      | Some e \<Rightarrow>
          if rsClosing s \<or> entGeneration e \<noteq> g then s
          else if entState e \<noteq> StateReady \<and> entState e \<noteq> StateIdle then s
          else put_entry s k (e\<lparr>entStableTimer := False, entFailures := 0, entUpdatedAt := now\<rparr>))"

section \<open>Idling and stopping\<close>

definition maybeIdleLocked :: "instant \<Rightarrow> entry \<Rightarrow> entry" where
  "maybeIdleLocked now e =
     (if entState e \<noteq> StateReady \<or> entLeases e \<noteq> {} \<or> entConnectors e \<noteq> {} then e
      else e\<lparr>entState := StateIdle, entIdleDeadline := now + entIdleTimeout e, entUpdatedAt := now,
             entIdleTimer := True\<rparr>)"

definition beginStopLocked ::
  "instant \<Rightarrow> resource_state \<Rightarrow> resource_key \<Rightarrow> entry \<Rightarrow> resource_state \<times> entry"
where
  "beginStopLocked now s k e =
     (add_worker (WStop k (entGeneration e) (entInstance e)) s,
      (cancelStableResetLocked (cancelIdleLocked e))
        \<lparr>entState := StateStopping, entReaped := False, entUpdatedAt := now\<rparr>)"

definition expireIdle ::
  "instant \<Rightarrow> resource_state \<Rightarrow> resource_key \<Rightarrow> generation \<Rightarrow> instant \<Rightarrow> resource_state"
where
  "expireIdle now s k g deadline =
     (case entry_of s k of
        None \<Rightarrow> s
      | Some e \<Rightarrow>
          if rsClosing s \<or> entGeneration e \<noteq> g \<or> entState e \<noteq> StateIdle then s
          else if entIdleDeadline e \<noteq> deadline \<or> now < deadline then s
          else (let (s', e') = beginStopLocked now s k
                      (e\<lparr>entIdleTimer := False, entIdleDeadline := zero_time\<rparr>)
                in put_entry s' k e'))"

record stop_outcome =
  soReaped :: bool
  soTimedOut :: bool
  soErr :: "resource_error option"

definition join_errors :: "resource_error list \<Rightarrow> resource_error option" where
  "join_errors es = (if es = [] then None else Some (JoinedErrors es))"

definition stopOutcome_Error :: "stop_outcome \<Rightarrow> resource_error option" where
  "stopOutcome_Error o' =
     (if \<not> soTimedOut o' then soErr o'
      else join_errors ((case soErr o' of None \<Rightarrow> [] | Some e \<Rightarrow> [e]) @ [ForcedTerminationTimeout]))"

definition observeReap :: "bool \<Rightarrow> stop_outcome \<Rightarrow> stop_outcome" where
  "observeReap finished o' =
     (if soReaped o' then o'
      else if finished then o'\<lparr>soReaped := True, soTimedOut := False\<rparr> else o')"

text \<open>
  \<open>stopInstance\<close> runs without the mutex. What it sees of the instance are the fields of a
  \<open>stop_observation\<close>: whether \<open>Done\<close> was closed on entry, after the graceful stop and after the
  forced kill (\<open>waitForInstance\<close>), and the errors of the two requests.
\<close>

record stop_observation =
  obsDoneAtEntry :: bool
  obsStopError :: "resource_error option"
  obsDoneAfterStop :: bool
  obsKillError :: "resource_error option"
  obsDoneAfterKill :: bool

definition stopInstance :: "generation option \<Rightarrow> stop_observation \<Rightarrow> stop_outcome" where
  "stopInstance i obs =
     (if i = None \<or> obsDoneAtEntry obs then \<lparr>soReaped = True, soTimedOut = False, soErr = None\<rparr>
      else (let collected = (case obsStopError obs of None \<Rightarrow> [] | Some e \<Rightarrow> [e]) in
            if obsDoneAfterStop obs then
              \<lparr>soReaped = True, soTimedOut = False, soErr = join_errors collected\<rparr>
            else (let collected = collected @ (case obsKillError obs of None \<Rightarrow> [] | Some e \<Rightarrow> [e]) in
                  \<lparr>soReaped = obsDoneAfterKill obs, soTimedOut = \<not> obsDoneAfterKill obs,
                   soErr = join_errors collected\<rparr>)))"

section \<open>Starting\<close>

definition nextGenerationLocked :: "resource_state \<Rightarrow> resource_error + (resource_state \<times> generation)" where
  "nextGenerationLocked s =
     (if rsNextGeneration s = - 1 then Inl GenerationExhausted
      else Inr (s\<lparr>rsNextGeneration := rsNextGeneration s + 1\<rparr>, rsNextGeneration s + 1))"

definition assign_generation :: "generation \<Rightarrow> lease \<Rightarrow> lease" where
  "assign_generation g l = (if leaseState l = LeaseOpening then l\<lparr>leaseGeneration := g\<rparr> else l)"

definition startLocked ::
  "resource_options \<Rightarrow> instant \<Rightarrow> resource_state \<Rightarrow> resource_key \<Rightarrow> entry \<Rightarrow>
   resource_error + (resource_state \<times> entry)"
where
  "startLocked o' now s k e =
     (case nextGenerationLocked s of
        Inl err \<Rightarrow> Inl err
      | Inr (s, g) \<Rightarrow>
          Inr (add_worker (WStart k g) (on_leases (entLeases e) (assign_generation g) s),
               (cancelFailureRetentionLocked e)
                 \<lparr>entGeneration := g, entState := StateStarting, entInstance := None,
                  entReaped := False, entStartPending := True, entStartCancel := True,
                  entStartedAt := now, entStartDeadline := now + optStartTimeout o',
                  entReadyAt := zero_time, entIdleDeadline := zero_time,
                  entRetryDeadline := zero_time, entUpdatedAt := now, entStartTimer := True\<rparr>))"

definition timeoutStartLocked ::
  "resource_options \<Rightarrow> instant \<Rightarrow> resource_state \<Rightarrow> entry \<Rightarrow> resource_state \<times> entry"
where
  "timeoutStartLocked o' now s e =
     (let (s, e) = cancelStartLocked s e DeadlineExceeded;
          e = failLocked o' now e ''resource start timed out''
      in invalidateLeasesLocked s e (StartError DeadlineExceeded))"

definition expireStart ::
  "resource_options \<Rightarrow> instant \<Rightarrow> resource_state \<Rightarrow> resource_key \<Rightarrow> generation \<Rightarrow> instant \<Rightarrow> resource_state"
where
  "expireStart o' now s k g deadline =
     (case entry_of s k of
        None \<Rightarrow> s
      | Some e \<Rightarrow>
          if rsClosing s \<or> entGeneration e \<noteq> g \<or> entState e \<noteq> StateStarting then s
          else if entStartDeadline e \<noteq> deadline \<or> now < deadline then s
          else (let (s', e') = timeoutStartLocked o' now s (e\<lparr>entStartTimer := False\<rparr>)
                in put_entry s' k e'))"

definition cancelUnusedStartLocked ::
  "resource_options \<Rightarrow> instant \<Rightarrow> resource_state \<Rightarrow> entry \<Rightarrow> resource_state \<times> entry"
where
  "cancelUnusedStartLocked o' now s e =
     (if entState e \<noteq> StateStarting \<or> entLeases e \<noteq> {} \<or> entConnectors e \<noteq> {} then (s, e)
      else (let (s, e) = cancelStartLocked s e ErrStartUnused;
                e = e\<lparr>entState := StateFailed, entInstance := None, entReaped := False,
                      entReadyAt := zero_time, entUpdatedAt := now, entLastError := ''''\<rparr>
            in (s, if entFailures e \<noteq> 0
                   then scheduleFailureRetentionLocked o' (e\<lparr>entRetryDeadline := entUpdatedAt e\<rparr>)
                   else e)))"

text \<open>
  What \<open>startGeneration\<close> sees when \<open>factory.Start\<close> returns: whether the handle is non-nil, the
  error, whether its \<open>Done\<close> channel is nil or already closed, and the instance's exit error.
  \<open>start_error\<close> is the first failing check; the cancellation cause is read from the start
  context when the factory itself reported no error.
\<close>

record start_report =
  srInstance :: bool
  srError :: "resource_error option"
  srDoneNil :: bool
  srExited :: bool
  srExitError :: "resource_error option"

definition start_error :: "resource_state \<Rightarrow> generation \<Rightarrow> start_report \<Rightarrow> resource_error option" where
  "start_error s g r =
     (case srError r of
        Some e \<Rightarrow> Some e
      | None \<Rightarrow>
          (case start_cause s g of
             Some c \<Rightarrow> Some c
           | None \<Rightarrow>
               if \<not> srInstance r then Some NilInstance
               else if srDoneNil r then Some NilDoneChannel
               else if srExited r then
                 Some (case srExitError r of Some e \<Rightarrow> e | None \<Rightarrow> ExitedBeforeReady)
               else None))"

definition startReturned :: "resource_state \<Rightarrow> resource_key \<Rightarrow> generation \<Rightarrow> start_report \<Rightarrow> resource_state" where
  "startReturned s k g r =
     (let s' = end_worker (WStart k g) s;
          s' = (if srInstance r then s'\<lparr>rsStarted := insert (k, g) (rsStarted s')\<rparr> else s');
          s' = (if srInstance r \<and> srExited r then s'\<lparr>rsExited := insert (k, g) (rsExited s')\<rparr> else s') in
      case start_error s g r of
        Some e \<Rightarrow> add_worker (WCleanup k g e (if srInstance r then Some g else None)) s'
      | None \<Rightarrow> add_worker (WPublish k g) s')"

definition activate_opening :: "generation \<Rightarrow> lease \<Rightarrow> lease" where
  "activate_opening g l =
     (if leaseState l = LeaseOpening \<and> leaseGeneration l = g then activateLeaseLocked g l else l)"

definition publishStart ::
  "resource_options \<Rightarrow> instant \<Rightarrow> resource_state \<Rightarrow> resource_key \<Rightarrow> generation \<Rightarrow> resource_state"
where
  "publishStart o' now s k g =
     (let s = end_worker (WPublish k g) s; detach = add_worker (WDetach k g) s in
      case entry_of s k of
        None \<Rightarrow> detach
      | Some e \<Rightarrow>
          if entGeneration e = g \<and> entStartPending e \<and> entState e \<noteq> StateStarting then
            add_worker (WCleanup k g (case start_cause s g of Some c \<Rightarrow> c | None \<Rightarrow> ErrResourceUnavailable)
                          (Some g)) s
          else if rsClosing s \<or> entGeneration e \<noteq> g \<or> entState e \<noteq> StateStarting then detach
          else if entStartDeadline e \<le> now then
            (let (s, e) = timeoutStartLocked o' now s e
             in add_worker (WCleanup k g DeadlineExceeded (Some g)) (put_entry s k e))
          else
            (let (s, e) = cancelStartLocked s e ContextCanceled;
                 e = scheduleStableResetLocked
                       (e\<lparr>entStartPending := False, entInstance := Some g, entReadyAt := now,
                          entRetryDeadline := zero_time, entUpdatedAt := now, entState := StateReady\<rparr>);
                 s = on_leases (entLeases e) (activate_opening g) s;
                 e = maybeIdleLocked now e
             in add_worker (WWatch k g) (put_entry s k e)))"

definition completeStartFailure ::
  "resource_options \<Rightarrow> instant \<Rightarrow> resource_state \<Rightarrow> resource_key \<Rightarrow> generation \<Rightarrow> resource_error \<Rightarrow>
   generation option \<Rightarrow> stop_outcome \<Rightarrow> resource_state"
where
  "completeStartFailure o' now s k g cause i cleanup =
     (case entry_of s k of
        None \<Rightarrow> s
      | Some e \<Rightarrow>
          if entGeneration e \<noteq> g \<or> \<not> entStartPending e then s
          else
            (let wasStarting = (entState e = StateStarting);
                 (s, e) = (if wasStarting then cancelStartLocked s e cause else (s, e));
                 cleanup = (if i \<noteq> None then observeReap (done_observed s k i) cleanup else cleanup);
                 cleanupError = stopOutcome_Error cleanup;
                 s = (case cleanupError of
                        Some ce \<Rightarrow> if rsClosing s then s\<lparr>rsShutdownErrors := rsShutdownErrors s @ [ce]\<rparr> else s
                      | None \<Rightarrow> s);
                 e = e\<lparr>entInstance := (if soReaped cleanup then None else i), entStartPending := False\<rparr>
             in if rsClosing s then
                  (let (s, e) = invalidateLeasesLocked s (e\<lparr>entUpdatedAt := now\<rparr>) ErrShuttingDown
                   in if soReaped cleanup then deleteColdEntryLocked s k (e\<lparr>entState := StateCold\<rparr>)
                      else put_entry s k
                             (e\<lparr>entState := StateFailed,
                                entLastError := ''failed resource start could not be reaped''\<rparr>))
                else if \<not> wasStarting then
                  (let e = e\<lparr>entUpdatedAt := now\<rparr>;
                       e = (if cleanupError \<noteq> None
                            then e\<lparr>entLastError := ''resource start cleanup failed''\<rparr> else e)
                   in if soReaped cleanup then deleteFailedEntryLocked now s k e else put_entry s k e)
                else
                  (let e = failLocked o' now e ''resource start failed'';
                       e = (if cleanupError \<noteq> None
                            then e\<lparr>entLastError := ''resource start cleanup failed''\<rparr> else e);
                       (s, e) = invalidateLeasesLocked s e (StartError cause)
                   in put_entry s k e)))"

text \<open>The end of \<open>cleanupFailedStart\<close>: an instance it could not reap is awaited.\<close>

definition cleanupReturned ::
  "resource_options \<Rightarrow> instant \<Rightarrow> resource_state \<Rightarrow> resource_key \<Rightarrow> generation \<Rightarrow> resource_error \<Rightarrow>
   generation option \<Rightarrow> stop_observation \<Rightarrow> resource_state"
where
  "cleanupReturned o' now s k g cause i obs =
     (let outcome = stopInstance i obs;
          s = completeStartFailure o' now (end_worker (WCleanup k g cause i) s) k g cause i outcome
      in if i \<noteq> None \<and> \<not> soReaped outcome then add_worker (WReap k g) s else s)"

section \<open>Unexpected exits and completed stops\<close>

definition generationExited ::
  "resource_options \<Rightarrow> instant \<Rightarrow> resource_state \<Rightarrow> resource_key \<Rightarrow> generation \<Rightarrow>
   resource_error option \<Rightarrow> resource_state"
where
  "generationExited o' now s k g cause =
     (case entry_of s k of
        None \<Rightarrow> s
      | Some e \<Rightarrow>
          if entGeneration e \<noteq> g then s
          else
            (case entState e of
               StateStopping \<Rightarrow> put_entry s k (e\<lparr>entReaped := True, entUpdatedAt := now\<rparr>)
             | StateFailed \<Rightarrow> deleteFailedEntryLocked now s k (e\<lparr>entInstance := None, entUpdatedAt := now\<rparr>)
             | StateCold \<Rightarrow> s
             | StateStarting \<Rightarrow> s
             | _ \<Rightarrow>
                 (let e = (cancelStableResetLocked (cancelIdleLocked e))\<lparr>entInstance := None\<rparr>;
                      (s, e) = invalidateLeasesLocked s e (ErrResourceExited cause);
                      (s, e) = invalidateConnectorsLocked s e (ErrResourceExited cause)
                  in put_entry s k (failLocked o' now e ''resource exited unexpectedly''))))"

definition completeStop ::
  "resource_options \<Rightarrow> instant \<Rightarrow> resource_state \<Rightarrow> resource_key \<Rightarrow> generation \<Rightarrow>
   generation option \<Rightarrow> stop_outcome \<Rightarrow> resource_state"
where
  "completeStop o' now s k g i outcome =
     (case entry_of s k of
        None \<Rightarrow> s
      | Some e \<Rightarrow>
          if entGeneration e \<noteq> g \<or> entState e \<noteq> StateStopping then s
          else
            (let outcome = (if entReaped e then outcome\<lparr>soReaped := True, soTimedOut := False\<rparr> else outcome);
                 outcome = observeReap (done_observed s k i) outcome;
                 outcomeError = stopOutcome_Error outcome;
                 s = (case outcomeError of
                        Some oe \<Rightarrow> if rsClosing s then s\<lparr>rsShutdownErrors := rsShutdownErrors s @ [oe]\<rparr> else s
                      | None \<Rightarrow> s);
                 e = (if outcomeError \<noteq> None then e\<lparr>entLastError := ''resource stop failed''\<rparr> else e)
             in if \<not> soReaped outcome then
                  (let (s, e) = invalidateLeasesLocked s e ErrResourceUnavailable;
                       (s, e) = invalidateConnectorsLocked s e ErrResourceUnavailable
                   in put_entry s k (failLocked o' now e ''resource could not be reaped''))
                else
                  (let e = e\<lparr>entInstance := None, entReaped := False, entFailures := 0,
                             entRetryDeadline := zero_time, entUpdatedAt := now\<rparr>
                   in if rsClosing s then
                        (let (s, e) = invalidateLeasesLocked s e ErrShuttingDown;
                             (s, e) = invalidateConnectorsLocked s e ErrShuttingDown
                         in deleteColdEntryLocked s k (e\<lparr>entState := StateCold\<rparr>))
                      else if entLeases e \<noteq> {} then
                        (case startLocked o' now s k (e\<lparr>entState := StateCold\<rparr>) of
                           Inr (s, e) \<Rightarrow> put_entry s k e
                         | Inl err \<Rightarrow>
                             (let (s, e) = invalidateLeasesLocked s (e\<lparr>entState := StateCold\<rparr>) err
                              in put_entry s k (failLocked o' now e ''resource restart failed'')))
                      else deleteColdEntryLocked s k (e\<lparr>entState := StateCold\<rparr>))))"

definition stopReturned ::
  "resource_options \<Rightarrow> instant \<Rightarrow> resource_state \<Rightarrow> resource_key \<Rightarrow> generation \<Rightarrow>
   generation option \<Rightarrow> stop_observation \<Rightarrow> resource_state"
where
  "stopReturned o' now s k g i obs =
     completeStop o' now (end_worker (WStop k g i) s) k g i (stopInstance i obs)"

definition detachReturned ::
  "resource_state \<Rightarrow> resource_key \<Rightarrow> generation \<Rightarrow> stop_observation \<Rightarrow> resource_state"
where
  "detachReturned s k g obs =
     (let outcome = observeReap ((k, g) \<in> rsExited s) (stopInstance (Some g) obs);
          s = end_worker (WDetach k g) s;
          s = (case stopOutcome_Error outcome of
                 Some oe \<Rightarrow> if rsClosing s then s\<lparr>rsShutdownErrors := rsShutdownErrors s @ [oe]\<rparr> else s
               | None \<Rightarrow> s)
      in if soReaped outcome then s else add_worker (WDetachWait k g) s)"

section \<open>Acquiring and releasing\<close>

definition new_entry :: "duration \<Rightarrow> instant \<Rightarrow> entry" where
  "new_entry idle now =
     \<lparr>entGeneration = 0, entState = StateCold, entInstance = None, entReaped = False,
      entStartPending = False, entLeases = {}, entConnectors = {}, entStartCancel = False,
      entStartTimer = False, entIdleTimer = False, entStableTimer = False, entFailureTimer = False,
      entStartedAt = zero_time, entStartDeadline = zero_time, entReadyAt = zero_time,
      entIdleDeadline = zero_time, entIdleTimeout = idle, entRetryDeadline = zero_time,
      entFailureDeadline = zero_time, entUpdatedAt = now, entLastError = '''', entFailures = 0\<rparr>"

definition entryWithIdleLocked ::
  "instant \<Rightarrow> resource_state \<Rightarrow> resource_key \<Rightarrow> duration \<Rightarrow> resource_error + entry"
where
  "entryWithIdleLocked now s k idle =
     (case entry_of s k of
        Some e \<Rightarrow> if entIdleTimeout e \<noteq> idle then Inl IdlePolicyMismatch else Inr e
      | None \<Rightarrow> Inr (new_entry idle now))"

definition new_lease :: "resource_key \<Rightarrow> lease" where
  "new_lease k =
     \<lparr>leaseKey = k, leaseState = LeaseOpening, leaseGeneration = 0, leaseReady = [], leaseDone = 0,
      leaseErr = None\<rparr>"

text \<open>The new lease takes the next handle number, which stands for its pointer identity.\<close>

definition alloc_lease :: "resource_state \<Rightarrow> lease \<Rightarrow> resource_state" where
  "alloc_lease s l =
     s\<lparr>rsLeases := (rsLeases s)(rsNextHandle s \<mapsto> l), rsNextHandle := Suc (rsNextHandle s)\<rparr>"

definition reserve_check :: "instant \<Rightarrow> entry \<Rightarrow> resource_error verdict" where
  "reserve_check now e =
     (if entStartPending e \<and> entState e \<noteq> StateStarting then Some ErrResourceUnavailable
      else if entState e = StateFailed then
        (if entInstance e \<noteq> None then Some ErrResourceUnavailable
         else if now < entRetryDeadline e then Some (RetryError (entRetryDeadline e))
         else None)
      else None)"

definition reserve_wake :: "instant \<Rightarrow> entry \<Rightarrow> entry" where
  "reserve_wake now e =
     (if entState e = StateIdle
      then (cancelIdleLocked e)\<lparr>entState := StateReady, entUpdatedAt := now\<rparr> else e)"

definition reserveLocked ::
  "resource_options \<Rightarrow> instant \<Rightarrow> resource_state \<Rightarrow> resource_key \<Rightarrow> duration \<Rightarrow>
   resource_state \<times> (resource_error + nat)"
where
  "reserveLocked o' now s k idle =
     (if rsClosing s then (s, Inl ErrShuttingDown)
      else case entryWithIdleLocked now s k idle of
        Inl err \<Rightarrow> (s, Inl err)
      | Inr e \<Rightarrow>
          (case reserve_check now e of
             Some err \<Rightarrow> (s, Inl err)
           | None \<Rightarrow>
               (let e = reserve_wake now e;
                    l = rsNextHandle s;
                    s1 = alloc_lease s (new_lease k);
                    e1 = e\<lparr>entLeases := insert l (entLeases e)\<rparr>
                in case entState e of
                     StateReady \<Rightarrow>
                       (put_entry (on_leases {l} (activateLeaseLocked (entGeneration e)) s1) k e1, Inr l)
                   | StateStarting \<Rightarrow>
                       (put_entry (on_leases {l} (\<lambda>x. x\<lparr>leaseGeneration := entGeneration e\<rparr>) s1) k e1,
                        Inr l)
                   | StateStopping \<Rightarrow> (put_entry s1 k e1, Inr l)
                   | _ \<Rightarrow>
                       (case startLocked o' now s1 k e1 of
                          Inr (s2, e2) \<Rightarrow> (put_entry s2 k e2, Inr l)
                        | Inl err \<Rightarrow>
                            (deleteColdEntryLocked
                               (on_leases {l} (closeLeaseLocked (Some err) True) s1) k e,
                             Inl err)))))"

definition AcquireWithPolicy ::
  "resource_options \<Rightarrow> instant \<Rightarrow> resource_error option \<Rightarrow> resource_state \<Rightarrow> resource_key \<Rightarrow> duration \<Rightarrow>
   resource_state \<times> (resource_error + nat)"
where
  "AcquireWithPolicy o' now ctxErr s k policyIdle =
     (if \<not> validKey k then (s, Inl InvalidKey)
      else case ctxErr of
        Some err \<Rightarrow> (s, Inl err)
      | None \<Rightarrow>
          (let idle = (if policyIdle = 0 then optIdleTimeout o' else policyIdle) in
           if idle < 0 then (s, Inl NegativeIdleTimeout)
           else reserveLocked o' now s k idle))"

definition Release :: "resource_options \<Rightarrow> instant \<Rightarrow> resource_state \<Rightarrow> nat \<Rightarrow> resource_state" where
  "Release o' now s l =
     (case rsLeases s l of
        None \<Rightarrow> s
      | Some x \<Rightarrow>
          if leaseState x = LeaseClosed \<or> leaseState x = LeaseReleasing then s
          else
            (let s = on_leases {l} (closeLeaseLocked None False)
                       (on_leases {l} (\<lambda>x. x\<lparr>leaseState := LeaseReleasing\<rparr>) s)
             in case entry_of s (leaseKey x) of
                  None \<Rightarrow> s
                | Some e \<Rightarrow>
                    (let (s, e) = cancelUnusedStartLocked o' now s (e\<lparr>entLeases := entLeases e - {l}\<rparr>)
                     in put_entry s (leaseKey x) (maybeIdleLocked now e))))"

definition generation_ready :: "resource_state \<Rightarrow> lease \<Rightarrow> bool" where
  "generation_ready s x =
     (case entry_of s (leaseKey x) of
        None \<Rightarrow> False
      | Some e \<Rightarrow> entGeneration e = leaseGeneration x \<and> entState e = StateReady \<and> entInstance e \<noteq> None)"

definition Lease_Instance :: "resource_state \<Rightarrow> lease \<Rightarrow> resource_error + generation" where
  "Lease_Instance s x =
     (if leaseState x \<noteq> LeaseActive then Inl ErrLeaseClosed
      else case entry_of s (leaseKey x) of
        None \<Rightarrow> Inl ErrResourceUnavailable
      | Some e \<Rightarrow>
          (case entInstance e of
             None \<Rightarrow> Inl ErrResourceUnavailable
           | Some i \<Rightarrow>
               if entGeneration e \<noteq> leaseGeneration x \<or> entState e \<noteq> StateReady then Inl ErrResourceUnavailable
               else if (leaseKey x, i) \<in> rsExited s then Inl (ErrResourceExited None) else Inr i))"

definition OpenConnector ::
  "instant \<Rightarrow> resource_state \<Rightarrow> lease \<Rightarrow> resource_state \<times> (resource_error + nat)"
where
  "OpenConnector now s x =
     (if rsClosing s then (s, Inl ErrShuttingDown)
      else if leaseState x \<noteq> LeaseActive then (s, Inl ErrLeaseClosed)
      else case entry_of s (leaseKey x) of
        None \<Rightarrow> (s, Inl ErrResourceUnavailable)
      | Some e \<Rightarrow>
          if \<not> generation_ready s x then (s, Inl ErrResourceUnavailable)
          else
            (let c = rsNextHandle s;
                 s = s\<lparr>rsConnectors := (rsConnectors s)(c \<mapsto>
                         \<lparr>connKey = leaseKey x, connGeneration = leaseGeneration x, connDone = 0,
                          connErr = None, connClosed = False\<rparr>),
                       rsNextHandle := Suc c\<rparr>
             in (put_entry s (leaseKey x)
                   (e\<lparr>entConnectors := insert c (entConnectors e), entUpdatedAt := now\<rparr>), Inr c)))"

definition Connector_Close :: "instant \<Rightarrow> resource_state \<Rightarrow> nat \<Rightarrow> resource_state" where
  "Connector_Close now s c =
     (case rsConnectors s c of
        None \<Rightarrow> s
      | Some x \<Rightarrow>
          if connClosed x then s
          else
            (let s = on_connectors {c} (closeConnectorLocked None) s
             in case entry_of s (connKey x) of
                  None \<Rightarrow> s
                | Some e \<Rightarrow>
                    put_entry s (connKey x)
                      (maybeIdleLocked now (e\<lparr>entConnectors := entConnectors e - {c}\<rparr>))))"

section \<open>Shutdown\<close>

definition shutdown_entry ::
  "instant \<Rightarrow> resource_state \<Rightarrow> resource_key \<Rightarrow> entry \<Rightarrow> resource_state \<times> entry"
where
  "shutdown_entry now s k e =
     (let (s, e) = cancelStartLocked s e ErrShuttingDown;
          e = cancelFailureRetentionLocked (cancelStableResetLocked (cancelIdleLocked e));
          (s, e) = invalidateLeasesLocked s e ErrShuttingDown;
          (s, e) = invalidateConnectorsLocked s e ErrShuttingDown
      in case entState e of
           StateStarting \<Rightarrow> (s, e)
         | StateStopping \<Rightarrow> (s, e)
         | StateCold \<Rightarrow> (s, e\<lparr>entUpdatedAt := now\<rparr>)
         | _ \<Rightarrow> if entInstance e \<noteq> None then beginStopLocked now s k e
                else (s, e\<lparr>entState := StateCold, entUpdatedAt := now\<rparr>))"

fun shutdown_entries ::
  "instant \<Rightarrow> resource_state \<Rightarrow> (resource_key \<times> entry) list \<Rightarrow> resource_state \<times> (resource_key \<times> entry) list"
where
  "shutdown_entries now s [] = (s, [])"
| "shutdown_entries now s ((k, e) # es) =
     (let (s, e) = shutdown_entry now s k e; (s, es) = shutdown_entries now s es in (s, (k, e) # es))"

definition beginShutdownLocked :: "instant \<Rightarrow> resource_state \<Rightarrow> resource_state" where
  "beginShutdownLocked now s =
     (let (s, es) = shutdown_entries now (s\<lparr>rsClosing := True\<rparr>) (rsEntries s)
      in s\<lparr>rsEntries := es, rsShutdownWait := True\<rparr>)"

definition Shutdown :: "instant \<Rightarrow> resource_state \<Rightarrow> resource_state" where
  "Shutdown now s = (if rsClosing s then s else beginShutdownLocked now s)"

text \<open>The goroutine that waits for \<open>workers\<close> and then closes \<open>shutdownDone\<close>.\<close>

definition finishShutdown :: "instant \<Rightarrow> resource_state \<Rightarrow> resource_state" where
  "finishShutdown now s =
     s\<lparr>rsEntries := map (\<lambda>(k, e). (k, e\<lparr>entState := StateCold, entInstance := None, entReaped := False,
                        entStartPending := False, entStartDeadline := zero_time,
                        entIdleDeadline := zero_time, entRetryDeadline := zero_time,
                        entFailureDeadline := zero_time, entUpdatedAt := now\<rparr>)) (rsEntries s),
       rsShutdownDone := True\<rparr>"

end
