(* ===== verification/Resource_Steps.thy ===== *)
theory Resource_Steps
  imports Resource_Registry
begin

text \<open>
  The registry under arbitrary interleavings: callers acquire, release and connect, workers
  reach their next critical section, timers fire (possibly late, with any arguments: the
  callbacks check them), instances exit, and shutdown runs. A worker that was told that an
  instance is done has seen its closed \<open>Done\<close> channel, so the instance has exited.
\<close>

datatype resource_event =
    REAcquire resource_key duration "resource_error + nat"
  | RERelease nat
  | REOpenConnector nat "resource_error + nat"
  | RECloseConnector nat
  | REStartReturned resource_key generation
  | REPublish resource_key generation
  | RECleanupReturned resource_key generation
  | REReaped resource_key generation
  | REExitSeen resource_key generation
  | REStopReturned resource_key generation
  | REDetachReturned resource_key generation
  | REDetachDone resource_key generation
  | REStartTimer resource_key generation
  | REIdleTimer resource_key generation
  | REFailureTimer resource_key generation
  | REStableTimer resource_key generation
  | REInstanceExit resource_key generation
  | REShutdown
  | REShutdownFinished

definition observes :: "resource_state \<Rightarrow> resource_key \<Rightarrow> generation option \<Rightarrow> stop_observation \<Rightarrow> bool" where
  "observes s k i obs \<longleftrightarrow>
     (if obsDoneAtEntry obs \<or> obsDoneAfterStop obs \<or> obsDoneAfterKill obs then done_observed s k i else True)"

inductive resource_step :: "resource_options \<Rightarrow> resource_state \<Rightarrow> resource_event \<Rightarrow> resource_state \<Rightarrow> bool"
  for o' :: resource_options
where
  rs_acquire:
    "AcquireWithPolicy o' now ctxErr s k idle = (t, res) \<Longrightarrow> resource_step o' s (REAcquire k idle res) t"
| rs_release: "resource_step o' s (RERelease l) (Release o' now s l)"
| rs_open:
    "rsLeases s l = Some x \<Longrightarrow> OpenConnector now s x = (t, res) \<Longrightarrow>
     resource_step o' s (REOpenConnector l res) t"
| rs_close: "resource_step o' s (RECloseConnector c) (Connector_Close now s c)"
| rs_start:
    "WStart k g \<in> rsWorkers s \<Longrightarrow>
     resource_step o' s (REStartReturned k g) (startReturned s k g r)"
| rs_publish:
    "WPublish k g \<in> rsWorkers s \<Longrightarrow>
     resource_step o' s (REPublish k g) (publishStart o' now s k g)"
| rs_cleanup:
    "WCleanup k g cause i \<in> rsWorkers s \<Longrightarrow> observes s k i obs \<Longrightarrow>
     resource_step o' s (RECleanupReturned k g) (cleanupReturned o' now s k g cause i obs)"
| rs_reap:
    "WReap k g \<in> rsWorkers s \<Longrightarrow> (k, g) \<in> rsExited s \<Longrightarrow>
     resource_step o' s (REReaped k g)
       (generationExited o' now (end_worker (WReap k g) s) k g exitErr)"
| rs_watch:
    "WWatch k g \<in> rsWorkers s \<Longrightarrow> (k, g) \<in> rsExited s \<Longrightarrow>
     resource_step o' s (REExitSeen k g)
       (generationExited o' now (end_worker (WWatch k g) s) k g exitErr)"
| rs_stop:
    "WStop k g i \<in> rsWorkers s \<Longrightarrow> observes s k i obs \<Longrightarrow>
     resource_step o' s (REStopReturned k g) (stopReturned o' now s k g i obs)"
| rs_detach:
    "WDetach k g \<in> rsWorkers s \<Longrightarrow> observes s k (Some g) obs \<Longrightarrow>
     resource_step o' s (REDetachReturned k g) (detachReturned s k g obs)"
| rs_detach_done:
    "WDetachWait k g \<in> rsWorkers s \<Longrightarrow> (k, g) \<in> rsExited s \<Longrightarrow>
     resource_step o' s (REDetachDone k g) (end_worker (WDetachWait k g) s)"
| rs_start_timer: "resource_step o' s (REStartTimer k g) (expireStart o' now s k g deadline)"
| rs_idle_timer: "resource_step o' s (REIdleTimer k g) (expireIdle now s k g deadline)"
| rs_failure_timer: "resource_step o' s (REFailureTimer k g) (expireFailure now s k g deadline)"
| rs_stable_timer: "resource_step o' s (REStableTimer k g) (resetStableGeneration now s k g)"
| rs_exit:
    "(k, g) \<in> rsStarted s \<Longrightarrow>
     resource_step o' s (REInstanceExit k g) (s\<lparr>rsExited := insert (k, g) (rsExited s)\<rparr>)"
| rs_shutdown: "resource_step o' s REShutdown (Shutdown now s)"
| rs_finish:
    "rsShutdownWait s \<Longrightarrow> rsWorkers s = {} \<Longrightarrow> \<not> rsShutdownDone s \<Longrightarrow>
     resource_step o' s REShutdownFinished (finishShutdown now s)"

section \<open>The invariant\<close>

fun worker_key :: "worker \<Rightarrow> resource_key" where
  "worker_key (WStart k g) = k"
| "worker_key (WPublish k g) = k"
| "worker_key (WCleanup k g c i) = k"
| "worker_key (WReap k g) = k"
| "worker_key (WWatch k g) = k"
| "worker_key (WStop k g i) = k"
| "worker_key (WDetach k g) = k"
| "worker_key (WDetachWait k g) = k"

text \<open>The workers of one start, from \<open>startLocked\<close> until the start is published or failed.\<close>

fun start_of :: "worker \<Rightarrow> generation option" where
  "start_of (WStart k g) = Some g"
| "start_of (WPublish k g) = Some g"
| "start_of (WCleanup k g c i) = Some g"
| "start_of _ = None"

text \<open>The generation whose instance a worker holds and will see to its exit.\<close>

fun holds_instance :: "worker \<Rightarrow> generation option" where
  "holds_instance (WStart k g) = None"
| "holds_instance (WPublish k g) = Some g"
| "holds_instance (WCleanup k g c i) = i"
| "holds_instance (WReap k g) = Some g"
| "holds_instance (WWatch k g) = Some g"
| "holds_instance (WStop k g i) = None"
| "holds_instance (WDetach k g) = Some g"
| "holds_instance (WDetachWait k g) = Some g"

definition lease_ok :: "lease \<Rightarrow> bool" where
  "lease_ok x \<longleftrightarrow>
     (case leaseState x of
        LeaseOpening \<Rightarrow> leaseReady x = [] \<and> leaseDone x = 0
      | LeaseActive \<Rightarrow> leaseReady x = [None] \<and> leaseDone x = 0
      | LeaseReleasing \<Rightarrow> False
      | LeaseClosed \<Rightarrow> length (leaseReady x) \<le> 1 \<and> leaseDone x = 1)"

definition connector_ok :: "connector \<Rightarrow> bool" where
  "connector_ok c \<longleftrightarrow> connDone c = (if connClosed c then 1 else 0)"

text \<open>What a lease in an entry's set looks like, by the state of the entry.\<close>

definition entry_lease_ok :: "entry \<Rightarrow> lease \<Rightarrow> bool" where
  "entry_lease_ok e x \<longleftrightarrow>
     (case entState e of
        StateStarting \<Rightarrow> leaseState x = LeaseOpening \<and> leaseGeneration x = entGeneration e
      | StateReady \<Rightarrow> leaseState x = LeaseActive \<and> leaseGeneration x = entGeneration e
      | StateStopping \<Rightarrow> leaseState x = LeaseOpening
      | _ \<Rightarrow> False)"

text \<open>The fields of an entry that its state determines.\<close>

definition phase_ok :: "bool \<Rightarrow> entry \<Rightarrow> bool" where
  "phase_ok closing e \<longleftrightarrow>
     (case entState e of
        StateStarting \<Rightarrow> entStartPending e \<and> entInstance e = None
      | StateReady \<Rightarrow> \<not> entStartPending e \<and> entInstance e = Some (entGeneration e)
      | StateIdle \<Rightarrow> \<not> entStartPending e \<and> entInstance e = Some (entGeneration e)
      | StateStopping \<Rightarrow> \<not> entStartPending e \<and> entInstance e = Some (entGeneration e)
      | StateFailed \<Rightarrow>
          (if entStartPending e then entInstance e = None
           else entInstance e \<in> {None, Some (entGeneration e)})
      | StateCold \<Rightarrow> entInstance e = None \<and> (entStartPending e \<longrightarrow> closing))"

text \<open>
  The lifecycle of one key: its entry, the workers that run for it, and the generations of its
  instances that were started and that have exited.
\<close>

definition life_ok ::
  "bool \<Rightarrow> resource_key \<Rightarrow> entry option \<Rightarrow> worker set \<Rightarrow> generation set \<Rightarrow> generation set \<Rightarrow> bool"
where
  "life_ok closing k eo W S X \<longleftrightarrow>
     (\<forall>e. eo = Some e \<longrightarrow>
        phase_ok closing e \<and>
        (entReaped e \<longrightarrow> entGeneration e \<in> X) \<and>
        (entStartPending e \<longrightarrow> \<not> closing \<longrightarrow> (\<exists>w \<in> W. start_of w = Some (entGeneration e))) \<and>
        (entState e = StateStopping \<longrightarrow> WStop k (entGeneration e) (Some (entGeneration e)) \<in> W)) \<and>
     (\<forall>w \<in> W. worker_key w = k \<and>
        (\<forall>g. start_of w = Some g \<longrightarrow> (\<exists>e. eo = Some e \<and> entGeneration e = g \<and> entStartPending e)) \<and>
        (\<forall>g. holds_instance w = Some g \<longrightarrow> g \<in> S)) \<and>
     (\<forall>w \<in> W. \<forall>w' \<in> W. start_of w \<noteq> None \<longrightarrow> start_of w' \<noteq> None \<longrightarrow> w = w') \<and>
     (\<forall>g i. WStop k g i \<in> W \<longrightarrow>
        i = Some g \<and> (\<exists>e. eo = Some e \<and> entGeneration e = g \<and> entState e = StateStopping)) \<and>
     (\<forall>g. WStart k g \<in> W \<longrightarrow> g \<notin> S) \<and>
     (\<forall>g c i. WCleanup k g c i \<in> W \<longrightarrow> i = (if g \<in> S then Some g else None)) \<and>
     (\<forall>g \<in> S. g \<notin> X \<longrightarrow>
        (\<exists>e. eo = Some e \<and> entGeneration e = g \<and> (entStartPending e \<or> entInstance e = Some g)) \<and>
        (\<exists>w \<in> W. holds_instance w = Some g)) \<and>
     X \<subseteq> S"

text \<open>The leases and connectors of one key, in step with the sets of its entry.\<close>

definition handles_ok ::
  "bool \<Rightarrow> resource_key \<Rightarrow> entry option \<Rightarrow> (nat \<Rightarrow> lease option) \<Rightarrow> (nat \<Rightarrow> connector option) \<Rightarrow> bool"
where
  "handles_ok closing k eo L C \<longleftrightarrow>
     (\<forall>l x. L l = Some x \<longrightarrow> leaseKey x = k \<longrightarrow> leaseState x \<noteq> LeaseClosed \<longrightarrow>
        (\<exists>e. eo = Some e \<and> l \<in> entLeases e)) \<and>
     (\<forall>c x. C c = Some x \<longrightarrow> connKey x = k \<longrightarrow> \<not> connClosed x \<longrightarrow>
        (\<exists>e. eo = Some e \<and> c \<in> entConnectors e)) \<and>
     (\<forall>e. eo = Some e \<longrightarrow>
        (\<forall>l \<in> entLeases e. \<exists>x. L l = Some x \<and> leaseKey x = k \<and> entry_lease_ok e x) \<and>
        (\<forall>c \<in> entConnectors e. \<exists>x. C c = Some x \<and> connKey x = k \<and> \<not> connClosed x \<and>
           connGeneration x = entGeneration e) \<and>
        (entConnectors e \<noteq> {} \<longrightarrow> entState e = StateReady) \<and>
        (closing \<longrightarrow> entLeases e = {} \<and> entConnectors e = {}))"

definition key_workers :: "resource_state \<Rightarrow> resource_key \<Rightarrow> worker set" where
  "key_workers s k = {w \<in> rsWorkers s. worker_key w = k}"

definition key_started :: "resource_state \<Rightarrow> resource_key \<Rightarrow> generation set" where
  "key_started s k = {g. (k, g) \<in> rsStarted s}"

definition key_exited :: "resource_state \<Rightarrow> resource_key \<Rightarrow> generation set" where
  "key_exited s k = {g. (k, g) \<in> rsExited s}"

definition key_ok :: "resource_state \<Rightarrow> resource_key \<Rightarrow> bool" where
  "key_ok s k \<longleftrightarrow>
     life_ok (rsClosing s) k (entry_of s k) (key_workers s k) (key_started s k) (key_exited s k) \<and>
     (\<forall>g \<in> key_started s k \<union> entGeneration ` set_option (entry_of s k). g \<le> rsNextGeneration s) \<and>
     handles_ok (rsClosing s) k (entry_of s k) (rsLeases s) (rsConnectors s)"

definition global_ok :: "resource_state \<Rightarrow> bool" where
  "global_ok s \<longleftrightarrow>
     distinct (map fst (rsEntries s)) \<and>
     (\<forall>l x. rsLeases s l = Some x \<longrightarrow> lease_ok x \<and> l < rsNextHandle s) \<and>
     (\<forall>c x. rsConnectors s c = Some x \<longrightarrow> connector_ok x \<and> c < rsNextHandle s) \<and>
     (rsShutdownWait s = rsClosing s) \<and>
     (rsShutdownDone s \<longrightarrow> rsClosing s \<and> rsWorkers s = {})"

definition resource_inv :: "resource_state \<Rightarrow> bool" where
  "resource_inv s \<longleftrightarrow> global_ok s \<and> (\<forall>k. key_ok s k)"

lemma resource_inv_New: "resource_inv NewResourceRegistry"
  by (simp add: resource_inv_def global_ok_def key_ok_def life_ok_def handles_ok_def
      key_workers_def key_started_def key_exited_def NewResourceRegistry_def)

end
