(* ===== verification/Resource_Life.thy ===== *)
theory Resource_Life
  imports Resource_Steps
begin

text \<open>
  The lifecycle transitions of one key, each proved to keep \<open>life_ok\<close>: starting, the return of
  the factory, publication, failed starts, exits, stops and shutdown. The operations of the
  registry are compositions of these.
\<close>

section \<open>The lifecycle predicate\<close>

lemma phase_okD:
  assumes "phase_ok closing e"
  shows "entState e = StateStarting \<Longrightarrow> entStartPending e \<and> entInstance e = None"
    and "entState e = StateReady \<Longrightarrow> \<not> entStartPending e \<and> entInstance e = Some (entGeneration e)"
    and "entState e = StateIdle \<Longrightarrow> \<not> entStartPending e \<and> entInstance e = Some (entGeneration e)"
    and "entState e = StateStopping \<Longrightarrow> \<not> entStartPending e \<and> entInstance e = Some (entGeneration e)"
    and "entState e = StateFailed \<Longrightarrow> entStartPending e \<Longrightarrow> entInstance e = None"
    and "entInstance e = None \<or> entInstance e = Some (entGeneration e)"
    and "entState e = StateCold \<Longrightarrow> entInstance e = None \<and> (entStartPending e \<longrightarrow> closing)"
    and "entStartPending e \<Longrightarrow> entInstance e = None"
  using assms by (auto simp: phase_ok_def split: resource_phase.splits if_splits)

lemma life_okI:
  assumes "\<And>e. eo = Some e \<Longrightarrow> phase_ok closing e"
    and "\<And>e. eo = Some e \<Longrightarrow> entReaped e \<Longrightarrow> entGeneration e \<in> X"
    and "\<And>e. eo = Some e \<Longrightarrow> entStartPending e \<Longrightarrow> \<not> closing \<Longrightarrow>
           \<exists>w \<in> W. start_of w = Some (entGeneration e)"
    and "\<And>e. eo = Some e \<Longrightarrow> entState e = StateStopping \<Longrightarrow>
           WStop k (entGeneration e) (Some (entGeneration e)) \<in> W"
    and "\<And>w. w \<in> W \<Longrightarrow> worker_key w = k"
    and "\<And>w g. w \<in> W \<Longrightarrow> start_of w = Some g \<Longrightarrow>
           \<exists>e. eo = Some e \<and> entGeneration e = g \<and> entStartPending e"
    and "\<And>w g. w \<in> W \<Longrightarrow> holds_instance w = Some g \<Longrightarrow> g \<in> S"
    and "\<And>w w'. w \<in> W \<Longrightarrow> w' \<in> W \<Longrightarrow> start_of w \<noteq> None \<Longrightarrow> start_of w' \<noteq> None \<Longrightarrow> w = w'"
    and "\<And>g i. WStop k g i \<in> W \<Longrightarrow>
           i = Some g \<and> (\<exists>e. eo = Some e \<and> entGeneration e = g \<and> entState e = StateStopping)"
    and "\<And>g. WStart k g \<in> W \<Longrightarrow> g \<notin> S"
    and "\<And>g c i. WCleanup k g c i \<in> W \<Longrightarrow> i = (if g \<in> S then Some g else None)"
    and "\<And>g. g \<in> S \<Longrightarrow> g \<notin> X \<Longrightarrow>
           \<exists>e. eo = Some e \<and> entGeneration e = g \<and> (entStartPending e \<or> entInstance e = Some g)"
    and "\<And>g. g \<in> S \<Longrightarrow> g \<notin> X \<Longrightarrow> \<exists>w \<in> W. holds_instance w = Some g"
    and "X \<subseteq> S"
  shows "life_ok closing k eo W S X"
  unfolding life_ok_def
  by (intro conjI allI impI ballI;
      (rule assms conjunct1 [OF assms(9)] conjunct2 [OF assms(9)]; assumption)?)

lemma life_okD:
  assumes "life_ok closing k eo W S X"
  shows "\<And>e. eo = Some e \<Longrightarrow> phase_ok closing e"
    and "\<And>e. eo = Some e \<Longrightarrow> entReaped e \<Longrightarrow> entGeneration e \<in> X"
    and "\<And>e. eo = Some e \<Longrightarrow> entStartPending e \<Longrightarrow> \<not> closing \<Longrightarrow>
           \<exists>w \<in> W. start_of w = Some (entGeneration e)"
    and "\<And>e. eo = Some e \<Longrightarrow> entState e = StateStopping \<Longrightarrow>
           WStop k (entGeneration e) (Some (entGeneration e)) \<in> W"
    and "\<And>w. w \<in> W \<Longrightarrow> worker_key w = k"
    and "\<And>w g. w \<in> W \<Longrightarrow> start_of w = Some g \<Longrightarrow>
           \<exists>e. eo = Some e \<and> entGeneration e = g \<and> entStartPending e"
    and "\<And>w g. w \<in> W \<Longrightarrow> holds_instance w = Some g \<Longrightarrow> g \<in> S"
    and "\<And>w w'. w \<in> W \<Longrightarrow> w' \<in> W \<Longrightarrow> start_of w \<noteq> None \<Longrightarrow> start_of w' \<noteq> None \<Longrightarrow> w = w'"
    and "\<And>g i. WStop k g i \<in> W \<Longrightarrow>
           i = Some g \<and> (\<exists>e. eo = Some e \<and> entGeneration e = g \<and> entState e = StateStopping)"
    and "\<And>g. WStart k g \<in> W \<Longrightarrow> g \<notin> S"
    and "\<And>g c i. WCleanup k g c i \<in> W \<Longrightarrow> i = (if g \<in> S then Some g else None)"
    and "\<And>g. g \<in> S \<Longrightarrow> g \<notin> X \<Longrightarrow>
           \<exists>e. eo = Some e \<and> entGeneration e = g \<and> (entStartPending e \<or> entInstance e = Some g)"
    and "\<And>g. g \<in> S \<Longrightarrow> g \<notin> X \<Longrightarrow> \<exists>w \<in> W. holds_instance w = Some g"
    and "X \<subseteq> S"
  using assms unfolding life_ok_def by simp_all

lemma life_settled:
  assumes "life_ok closing k eo W S X"
    and "\<And>e. eo = Some e \<Longrightarrow> \<not> entStartPending e \<and> entInstance e = None"
  shows "S \<subseteq> X"
  using assms life_okD(12) [OF assms(1)] by fastforce

section \<open>Transitions\<close>

lemma life_update:
  assumes life: "life_ok closing k (Some e) W S X"
    and same: "entGeneration e' = entGeneration e" "entStartPending e' = entStartPending e"
      "entInstance e' = entInstance e \<or> entGeneration e \<in> X" "(entState e' = StateStopping) = (entState e = StateStopping)"
    and "phase_ok closing e'" and "entReaped e' \<Longrightarrow> entGeneration e \<in> X"
  shows "life_ok closing k (Some e') W S X"
proof (rule life_okI)
  fix h i assume "WStop k h i \<in> W"
  from life_okD(9) [OF life this] same
  show "i = Some h \<and> (\<exists>e. Some e' = Some e \<and> entGeneration e = h \<and> entState e = StateStopping)" by auto
next
  fix a assume "Some e' = Some a" "entStartPending a" "\<not> closing"
  then show "\<exists>w \<in> W. start_of w = Some (entGeneration a)" using life_okD(3) [OF life refl] same by simp
next
  fix a assume "Some e' = Some a" "entState a = StateStopping"
  then show "WStop k (entGeneration a) (Some (entGeneration a)) \<in> W"
    using life_okD(4) [OF life refl] same by simp
next
  fix w g assume "w \<in> W" "start_of w = Some g"
  from life_okD(6) [OF life this] same
  show "\<exists>e. Some e' = Some e \<and> entGeneration e = g \<and> entStartPending e" by auto
next
  fix g assume g: "g \<in> S" "g \<notin> X"
  from life_okD(12) [OF life this] same g
  show "\<exists>e. Some e' = Some e \<and> entGeneration e = g \<and> (entStartPending e \<or> entInstance e = Some g)" by auto
next
  show "\<And>a. Some e' = Some a \<Longrightarrow> phase_ok closing a" "\<And>a. Some e' = Some a \<Longrightarrow> entReaped a \<Longrightarrow> entGeneration a \<in> X"
    using assms by auto
qed (rule life_okD(5,7,8,10,11,13,14) [OF life]; assumption)+

lemma life_start:
  assumes life: "life_ok closing k eo W S X"
    and quiet: "S \<subseteq> X" "\<And>e. eo = Some e \<Longrightarrow> \<not> entStartPending e \<and> entState e \<noteq> StateStopping"
    and new: "g \<notin> S" "entState e' = StateStarting" "entStartPending e'" "entInstance e' = None"
      "\<not> entReaped e'" "entGeneration e' = g"
  shows "life_ok closing k (Some e') (insert (WStart k g) W) S X"
proof -
  have "start_of w = None" if "w \<in> W" for w
    using life_okD(6) [OF life that] quiet(2) by (cases "start_of w") auto
  moreover have "WStop k h i \<notin> W" for h i using life_okD(9) [OF life, of h i] quiet(2) by auto
  ultimately show ?thesis
    using life_okD(5,7,10,11,14) [OF life] quiet(1) new
    by (intro life_okI) (auto simp: phase_ok_def)
qed

lemma life_delete:
  assumes life: "life_ok closing k eo W S X"
    and quiet: "S \<subseteq> X" "\<And>e. eo = Some e \<Longrightarrow> \<not> entStartPending e \<and> entState e \<noteq> StateStopping"
  shows "life_ok closing k None W S X"
proof -
  have "start_of w = None" if "w \<in> W" for w
    using life_okD(6) [OF life that] quiet(2) by (cases "start_of w") auto
  moreover have "WStop k h i \<notin> W" for h i using life_okD(9) [OF life, of h i] quiet(2) by auto
  ultimately show ?thesis
    using life_okD(5,7,10,11,14) [OF life] quiet(1)
    by (intro life_okI) auto
qed

text \<open>The worker of a pending start moves on to the next stage of the start.\<close>

lemma life_start_stage:
  assumes life: "life_ok closing k eo W S X" and "w \<in> W" and "start_of w = Some g"
    and "worker_key w' = k" and "start_of w' = Some g"
    and "\<And>h. WStart k h \<noteq> w'" and S': "S' \<in> {S, insert g S}" and X': "X \<subseteq> X'" "X' \<subseteq> insert g X" "X' \<subseteq> S'"
    and "\<And>c i. w' = WCleanup k g c i \<Longrightarrow> i = (if g \<in> S' then Some g else None)"
    and "holds_instance w' = (if g \<in> S' then Some g else None)"
    and "holds_instance w \<noteq> None \<Longrightarrow> g \<in> S" and keep: "\<And>h. holds_instance w = Some h \<Longrightarrow> h = g"
  shows "life_ok closing k eo (insert w' (W - {w})) S' X'"
proof -
  obtain e where e: "eo = Some e" "entGeneration e = g" "entStartPending e"
    using life_okD(6) [OF life assms(2,3)] by blast
  have only: "start_of v = None" if "v \<in> W - {w}" for v
    using life_okD(8) [OF life, of v w] that assms(2,3) by force
  show ?thesis
  proof (rule life_okI)
    fix h assume "h \<in> S'" "h \<notin> X'"
    then show "\<exists>e. eo = Some e \<and> entGeneration e = h \<and> (entStartPending e \<or> entInstance e = Some h)"
      using e S' X' life_okD(12) [OF life, of h] by auto
    show "\<exists>w \<in> insert w' (W - {w}). holds_instance w = Some h"
    proof (cases "h = g")
      case False
      with \<open>h \<in> S'\<close> \<open>h \<notin> X'\<close> S' X' have "\<exists>w \<in> W. holds_instance w = Some h"
        using life_okD(13) [OF life, of h] by auto
      with False keep show ?thesis by blast
    qed (use \<open>h \<in> S'\<close> assms(12) in simp)
  next
    fix v h assume "v \<in> insert w' (W - {w})" "holds_instance v = Some h"
    then consider "v = w'" | "h \<in> S" using life_okD(7) [OF life, of v h] by blast
    then show "h \<in> S'"
    proof cases
      case 1
      with \<open>holds_instance v = Some h\<close> assms(12) show ?thesis by (simp split: if_splits)
    qed (use S' in auto)
  next
    fix v v' assume "v \<in> insert w' (W - {w})" "v' \<in> insert w' (W - {w})"
      and "start_of v \<noteq> None" "start_of v' \<noteq> None"
    with only [of v] only [of v'] have "v = w'" "v' = w'" by auto
    then show "v = v'" by simp
  next
    fix h i assume "WStop k h i \<in> insert w' (W - {w})"
    then have "WStop k h i \<in> W" using assms(5) by auto
    then show "i = Some h \<and> (\<exists>e. eo = Some e \<and> entGeneration e = h \<and> entState e = StateStopping)"
      by (rule life_okD(9) [OF life])
  next
    fix h assume "WStart k h \<in> insert w' (W - {w})"
    then have "WStart k h \<in> W - {w}" using assms(6) by auto
    then show "h \<notin> S'" using only [of "WStart k h"] by simp
  next
    fix h c i assume "WCleanup k h c i \<in> insert w' (W - {w})"
    then have "w' = WCleanup k h c i" using only [of "WCleanup k h c i"] by auto
    moreover from this assms(5) have "h = g" by simp
    ultimately show "i = (if h \<in> S' then Some h else None)" using assms(11) by simp
  next
    show "\<And>a. eo = Some a \<Longrightarrow> entReaped a \<Longrightarrow> entGeneration a \<in> X'"
      using subsetD [OF X'(1)] life_okD(2) [OF life] by simp
  next
    fix a assume "eo = Some a" "entState a = StateStopping"
    then have "WStop k (entGeneration a) (Some (entGeneration a)) \<in> W" by (rule life_okD(4) [OF life])
    then show "WStop k (entGeneration a) (Some (entGeneration a)) \<in> insert w' (W - {w})"
      using assms(3) by auto
  qed (insert life_okD(1,5) [OF life] assms(4,5) e X'(3) only, auto)
qed

text \<open>The worker of a start ends; what it leaves behind holds the instance, if there is one.\<close>

lemma life_end_start:
  assumes life: "life_ok closing k (Some e) W S X" and w: "w \<in> W" "start_of w = Some g"
    and keep: "\<And>h. holds_instance w = Some h \<Longrightarrow> h = g"
    and A: "\<And>a. a \<in> A \<Longrightarrow> worker_key a = k \<and> start_of a = None \<and> (\<forall>h i. a \<noteq> WStop k h i)"
      "\<And>a h. a \<in> A \<Longrightarrow> holds_instance a = Some h \<Longrightarrow> h \<in> S"
    and e': "phase_ok closing e'" "entGeneration e' = g" "entState e' \<noteq> StateStopping"
      "entStartPending e' \<Longrightarrow> closing" "entReaped e' \<Longrightarrow> g \<in> X"
    and live: "g \<in> S \<Longrightarrow> g \<notin> X \<Longrightarrow> entStartPending e' \<or> entInstance e' = Some g"
      "g \<in> S \<Longrightarrow> g \<notin> X \<Longrightarrow> \<exists>a \<in> A. holds_instance a = Some g"
  shows "life_ok closing k (Some e') (A \<union> (W - {w})) S X"
proof -
  have e: "entGeneration e = g" "entStartPending e" using life_okD(6) [OF life w] by auto
  have only: "start_of v = None" if "v \<in> A \<union> (W - {w})" for v
    using life_okD(8) [OF life, of v w] A(1) [of v] that w by force
  have nostop: "WStop k h i \<notin> A \<union> (W - {w})" for h i
    using life_okD(9) [OF life, of h i] phase_okD(4) [OF life_okD(1) [OF life refl]] e A(1) [of "WStop k h i"]
    by auto
  show ?thesis
  proof (rule life_okI)
    fix h assume h: "h \<in> S" "h \<notin> X"
    with life_okD(12) [OF life h] e have "h = g" by simp
    with h live show "\<exists>e. Some e' = Some e \<and> entGeneration e = h \<and> (entStartPending e \<or> entInstance e = Some h)"
      "\<exists>w \<in> A \<union> (W - {w}). holds_instance w = Some h"
      using e'(2) by auto
  next
    fix v h assume "v \<in> A \<union> (W - {w})" "holds_instance v = Some h"
    then show "h \<in> S" using life_okD(7) [OF life, of v h] A(2) [of v h] by auto
  next
    fix v assume "v \<in> A \<union> (W - {w})"
    then show "worker_key v = k" using life_okD(5) [OF life, of v] A(1) [of v] by auto
  next
    fix v v' assume "v \<in> A \<union> (W - {w})" "start_of v \<noteq> None"
    then show "v = v'" using only [of v] by simp
  next
    show "X \<subseteq> S" by (rule life_okD(14) [OF life])
  next
    fix v h assume "v \<in> A \<union> (W - {w})" "start_of v = Some h"
    with only [of v] show "\<exists>e. Some e' = Some e \<and> entGeneration e = h \<and> entStartPending e" by simp
  next
    fix h c i assume "WCleanup k h c i \<in> A \<union> (W - {w})"
    then show "i = (if h \<in> S then Some h else None)" using only [of "WCleanup k h c i"] by simp
  next
    fix h assume "WStart k h \<in> A \<union> (W - {w})"
    then show "h \<notin> S" using only [of "WStart k h"] by simp
  next
    fix h i assume "WStop k h i \<in> A \<union> (W - {w})"
    with nostop [of h i] show "i = Some h \<and> (\<exists>e. Some e' = Some e \<and> entGeneration e = h \<and> entState e = StateStopping)"
      by simp
  qed (use e' in auto)
qed

text \<open>Workers outside starts and stops come and go while someone keeps holding live instances.\<close>

lemma life_swap:
  assumes life: "life_ok closing k eo W S X"
    and w: "start_of w = None" "\<And>h i. w \<noteq> WStop k h i"
    and A: "\<And>a. a \<in> A \<Longrightarrow> worker_key a = k \<and> start_of a = None \<and> (\<forall>h i. a \<noteq> WStop k h i)"
      "\<And>a h. a \<in> A \<Longrightarrow> holds_instance a = Some h \<Longrightarrow> h \<in> S"
    and live: "\<And>g. holds_instance w = Some g \<Longrightarrow> g \<notin> X \<Longrightarrow> \<exists>a \<in> A. holds_instance a = Some g"
  shows "life_ok closing k eo (A \<union> (W - {w})) S X"
proof -
  have starter: "v \<in> W" if "v \<in> A \<union> (W - {w})" "start_of v \<noteq> None" for v
    using that A(1) [of v] by auto
  show ?thesis
  proof (rule life_okI)
    fix a assume a: "eo = Some a" "entStartPending a" "\<not> closing"
    from life_okD(3) [OF life a] w(1)
    show "\<exists>w \<in> A \<union> (W - {w}). start_of w = Some (entGeneration a)" by auto
  next
    fix a assume "eo = Some a" "entState a = StateStopping"
    from life_okD(4) [OF life this] w(2)
    show "WStop k (entGeneration a) (Some (entGeneration a)) \<in> A \<union> (W - {w})" by auto
  next
    fix v assume "v \<in> A \<union> (W - {w})"
    then show "worker_key v = k" using life_okD(5) [OF life, of v] A(1) [of v] by auto
  next
    fix v h assume v: "v \<in> A \<union> (W - {w})" "start_of v = Some h"
    then show "\<exists>e. eo = Some e \<and> entGeneration e = h \<and> entStartPending e"
      using life_okD(6) [OF life starter] by simp
  next
    fix v h assume "v \<in> A \<union> (W - {w})" "holds_instance v = Some h"
    then show "h \<in> S" using life_okD(7) [OF life, of v h] A(2) [of v h] by auto
  next
    fix v v' assume "v \<in> A \<union> (W - {w})" "v' \<in> A \<union> (W - {w})" "start_of v \<noteq> None" "start_of v' \<noteq> None"
    then show "v = v'" using life_okD(8) [OF life starter starter] by simp
  next
    fix h i assume "WStop k h i \<in> A \<union> (W - {w})"
    then have "WStop k h i \<in> W" using A(1) [of "WStop k h i"] by auto
    then show "i = Some h \<and> (\<exists>e. eo = Some e \<and> entGeneration e = h \<and> entState e = StateStopping)"
      by (rule life_okD(9) [OF life])
  next
    fix h assume "WStart k h \<in> A \<union> (W - {w})"
    then have "WStart k h \<in> W" by (rule starter) simp
    then show "h \<notin> S" by (rule life_okD(10) [OF life])
  next
    fix h c i assume "WCleanup k h c i \<in> A \<union> (W - {w})"
    then have "WCleanup k h c i \<in> W" by (rule starter) simp
    then show "i = (if h \<in> S then Some h else None)" by (rule life_okD(11) [OF life])
  next
    fix h assume "h \<in> S" "h \<notin> X"
    with life_okD(13) [OF life this] live [of h]
    show "\<exists>w \<in> A \<union> (W - {w}). holds_instance w = Some h" by auto
  qed (rule life_okD(1,2,12,14) [OF life]; assumption)+
qed

text \<open>A stop begins: the entry keeps its instance and the stop worker takes charge of it.\<close>

lemma life_begin_stop:
  assumes life: "life_ok closing k (Some e) W S X"
    and e: "\<not> entStartPending e" "entInstance e = Some g" "entState e \<noteq> StateStopping"
    and e': "entGeneration e' = entGeneration e" "\<not> entStartPending e'" "entInstance e' = Some g"
      "entState e' = StateStopping" "\<not> entReaped e'"
  shows "life_ok closing k (Some e') (insert (WStop k g (Some g)) W) S X"
proof -
  have g: "entGeneration e = g"
    using phase_okD(6) [OF life_okD(1) [OF life refl]] e(2) by simp
  have nostart: "start_of w = None" if "w \<in> W" for w
    using life_okD(6) [OF life that] e(1) by (cases "start_of w") auto
  have nostop: "WStop k h i \<notin> W" for h i using life_okD(9) [OF life, of h i] e(3) by auto
  show ?thesis
  proof (rule life_okI)
    fix h assume h: "h \<in> S" "h \<notin> X"
    from life_okD(12) [OF life h] e(1) e' g
    show "\<exists>e. Some e' = Some e \<and> entGeneration e = h \<and> (entStartPending e \<or> entInstance e = Some h)" by simp
    from life_okD(13) [OF life h]
    show "\<exists>w \<in> insert (WStop k g (Some g)) W. holds_instance w = Some h" by blast
  next
    fix v h assume "v \<in> insert (WStop k g (Some g)) W" "holds_instance v = Some h"
    then show "h \<in> S" using life_okD(7) [OF life, of v h] by auto
  next
    fix v assume "v \<in> insert (WStop k g (Some g)) W"
    then show "worker_key v = k" using life_okD(5) [OF life, of v] by auto
  next
    fix v v' assume "v \<in> insert (WStop k g (Some g)) W" "start_of v \<noteq> None"
    then show "v = v'" using nostart [of v] by auto
  next
    fix v h assume "v \<in> insert (WStop k g (Some g)) W" "start_of v = Some h"
    then show "\<exists>e. Some e' = Some e \<and> entGeneration e = h \<and> entStartPending e" using nostart [of v] by auto
  next
    fix h i assume "WStop k h i \<in> insert (WStop k g (Some g)) W"
    then show "i = Some h \<and> (\<exists>e. Some e' = Some e \<and> entGeneration e = h \<and> entState e = StateStopping)"
      using nostop [of h i] e' g by simp
  next
    fix h assume "WStart k h \<in> insert (WStop k g (Some g)) W"
    then show "h \<notin> S" using nostart [of "WStart k h"] by simp
  next
    fix h c i assume "WCleanup k h c i \<in> insert (WStop k g (Some g)) W"
    then show "i = (if h \<in> S then Some h else None)" using nostart [of "WCleanup k h c i"] by simp
  next
    show "X \<subseteq> S" by (rule life_okD(14) [OF life])
  qed (use e' g in \<open>auto simp: phase_ok_def\<close>)
qed

text \<open>A stop ends: the instance is kept when it could not be reaped.\<close>

lemma life_end_stop:
  assumes life: "life_ok closing k (Some e) W S X"
    and e: "entState e = StateStopping" "entGeneration e = g"
    and e': "entGeneration e' = g" "\<not> entStartPending e'" "entState e' \<noteq> StateStopping"
      "phase_ok closing e'" "entReaped e' \<Longrightarrow> g \<in> X" "entInstance e' = Some g \<or> g \<in> X"
  shows "life_ok closing k (Some e') (W - {WStop k g (Some g)}) S X"
proof -
  have nostart: "start_of w = None" if "w \<in> W" for w
    using life_okD(6) [OF life that] phase_okD(4) [OF life_okD(1) [OF life refl] e(1)] by (cases "start_of w") auto
  have nostop: "WStop k h i \<notin> W - {WStop k g (Some g)}" for h i
    using life_okD(9) [OF life, of h i] e(2) by auto
  show ?thesis
  proof (rule life_okI)
    fix h assume h: "h \<in> S" "h \<notin> X"
    from life_okD(12) [OF life h] phase_okD(4) [OF life_okD(1) [OF life refl] e(1)] e(2) e' h
    show "\<exists>e. Some e' = Some e \<and> entGeneration e = h \<and> (entStartPending e \<or> entInstance e = Some h)" by auto
    from life_okD(13) [OF life h]
    show "\<exists>w \<in> W - {WStop k g (Some g)}. holds_instance w = Some h" by force
  next
    fix v h assume "v \<in> W - {WStop k g (Some g)}" "holds_instance v = Some h"
    then show "h \<in> S" using life_okD(7) [OF life, of v h] by auto
  next
    fix v assume "v \<in> W - {WStop k g (Some g)}"
    then show "worker_key v = k" using life_okD(5) [OF life, of v] by auto
  next
    fix v v' assume "v \<in> W - {WStop k g (Some g)}" "start_of v \<noteq> None"
    then show "v = v'" using nostart [of v] by auto
  next
    fix v h assume "v \<in> W - {WStop k g (Some g)}" "start_of v = Some h"
    then show "\<exists>e. Some e' = Some e \<and> entGeneration e = h \<and> entStartPending e" using nostart [of v] by auto
  next
    fix h i assume "WStop k h i \<in> W - {WStop k g (Some g)}"
    then show "i = Some h \<and> (\<exists>e. Some e' = Some e \<and> entGeneration e = h \<and> entState e = StateStopping)"
      using nostop [of h i] by simp
  next
    fix h assume "WStart k h \<in> W - {WStop k g (Some g)}"
    then show "h \<notin> S" using nostart [of "WStart k h"] by simp
  next
    fix h c i assume "WCleanup k h c i \<in> W - {WStop k g (Some g)}"
    then show "i = (if h \<in> S then Some h else None)" using nostart [of "WCleanup k h c i"] by simp
  next
    show "X \<subseteq> S" by (rule life_okD(14) [OF life])
  qed (use e' in auto)
qed

text \<open>An instance exits; shutdown begins; shutdown ends.\<close>

lemma life_exit:
  assumes life: "life_ok closing k eo W S X" and "g \<in> S"
  shows "life_ok closing k eo W S (insert g X)"
proof (rule life_okI)
  fix h assume "h \<in> S" "h \<notin> insert g X"
  then have h: "h \<in> S" "h \<notin> X" by auto
  show "\<exists>e. eo = Some e \<and> entGeneration e = h \<and> (entStartPending e \<or> entInstance e = Some h)"
    by (rule life_okD(12) [OF life h])
  show "\<exists>w \<in> W. holds_instance w = Some h" by (rule life_okD(13) [OF life h])
next
  show "\<And>e. eo = Some e \<Longrightarrow> entReaped e \<Longrightarrow> entGeneration e \<in> insert g X"
    by (rule insertI2) (rule life_okD(2) [OF life])
  show "insert g X \<subseteq> S" using life_okD(14) [OF life] assms(2) by simp
qed (rule life_okD(1,3-11) [OF life]; assumption)+

lemma phase_ok_closing: "phase_ok closing e \<Longrightarrow> phase_ok True e"
  by (auto simp: phase_ok_def split: resource_phase.splits if_splits)

lemma life_closing:
  assumes life: "life_ok closing k eo W S X" shows "life_ok True k eo W S X"
  by (rule life_okI)
    ((rule phase_ok_closing [OF life_okD(1) [OF life]] life_okD(2,4-14) [OF life]; assumption)
      | (simp; fail))+

lemma life_finish:
  assumes life: "life_ok True k eo {} S X"
    and "\<And>e. eo' = Some e \<Longrightarrow> entState e = StateCold \<and> entInstance e = None \<and> \<not> entReaped e"
  shows "life_ok True k eo' {} S X"
proof -
  have "S \<subseteq> X" using life_okD(13) [OF life] by auto
  with assms(2) life_okD(14) [OF life] show ?thesis
    by (intro life_okI) (auto simp: phase_ok_def)
qed

end
