(* ===== verification/Resource_Handles.thy ===== *)
theory Resource_Handles
  imports Resource_Steps
begin

text \<open>
  The leases and connectors of one key through the registry's transitions: each lemma shows that
  \<open>handles_ok\<close> survives one way in which the operations change the handles and the entry that
  owns them.
\<close>

definition mapped :: "nat set \<Rightarrow> ('a \<Rightarrow> 'a) \<Rightarrow> (nat \<Rightarrow> 'a option) \<Rightarrow> nat \<Rightarrow> 'a option" where
  "mapped A f m n = (if n \<in> A then map_option f (m n) else m n)"

lemma mapped_empty [simp]: "mapped {} f m = m"
  by (simp add: mapped_def fun_eq_iff)

lemma mapped_Some:
  "mapped A f m n = Some y \<longleftrightarrow> (\<exists>x. m n = Some x \<and> y = (if n \<in> A then f x else x))"
  by (auto simp: mapped_def)

lemma entry_lease_ok_open: "entry_lease_ok e x \<Longrightarrow> leaseState x \<noteq> LeaseClosed"
  by (auto simp: entry_lease_ok_def split: resource_phase.splits)

lemma handles_okI:
  assumes "\<And>l x. L l = Some x \<Longrightarrow> leaseKey x = k \<Longrightarrow> leaseState x \<noteq> LeaseClosed \<Longrightarrow>
      \<exists>e. eo = Some e \<and> l \<in> entLeases e"
    and "\<And>c x. C c = Some x \<Longrightarrow> connKey x = k \<Longrightarrow> \<not> connClosed x \<Longrightarrow>
      \<exists>e. eo = Some e \<and> c \<in> entConnectors e"
    and "\<And>e l. eo = Some e \<Longrightarrow> l \<in> entLeases e \<Longrightarrow>
      \<exists>x. L l = Some x \<and> leaseKey x = k \<and> entry_lease_ok e x"
    and "\<And>e c. eo = Some e \<Longrightarrow> c \<in> entConnectors e \<Longrightarrow>
      \<exists>x. C c = Some x \<and> connKey x = k \<and> \<not> connClosed x \<and> connGeneration x = entGeneration e"
    and "\<And>e. eo = Some e \<Longrightarrow> entConnectors e \<noteq> {} \<Longrightarrow> entState e = StateReady"
    and "\<And>e. eo = Some e \<Longrightarrow> closing \<Longrightarrow> entLeases e = {}"
    and "\<And>e. eo = Some e \<Longrightarrow> closing \<Longrightarrow> entConnectors e = {}"
  shows "handles_ok closing k eo L C"
  unfolding handles_ok_def
  by (intro conjI allI impI ballI; (rule assms; assumption))

lemma handles_okD:
  assumes "handles_ok closing k eo L C"
  shows "\<And>l x. L l = Some x \<Longrightarrow> leaseKey x = k \<Longrightarrow> leaseState x \<noteq> LeaseClosed \<Longrightarrow>
      \<exists>e. eo = Some e \<and> l \<in> entLeases e"
    and "\<And>c x. C c = Some x \<Longrightarrow> connKey x = k \<Longrightarrow> \<not> connClosed x \<Longrightarrow>
      \<exists>e. eo = Some e \<and> c \<in> entConnectors e"
    and "\<And>e l. eo = Some e \<Longrightarrow> l \<in> entLeases e \<Longrightarrow>
      \<exists>x. L l = Some x \<and> leaseKey x = k \<and> entry_lease_ok e x"
    and "\<And>e c. eo = Some e \<Longrightarrow> c \<in> entConnectors e \<Longrightarrow>
      \<exists>x. C c = Some x \<and> connKey x = k \<and> \<not> connClosed x \<and> connGeneration x = entGeneration e"
    and "\<And>e. eo = Some e \<Longrightarrow> entConnectors e \<noteq> {} \<Longrightarrow> entState e = StateReady"
    and "\<And>e. eo = Some e \<Longrightarrow> closing \<Longrightarrow> entLeases e = {}"
    and "\<And>e. eo = Some e \<Longrightarrow> closing \<Longrightarrow> entConnectors e = {}"
  using assms unfolding handles_ok_def by simp_all

lemma handles_SomeD:
  assumes "handles_ok closing k (Some e) L C"
  shows "\<And>l x. L l = Some x \<Longrightarrow> leaseKey x = k \<Longrightarrow> leaseState x \<noteq> LeaseClosed \<Longrightarrow> l \<in> entLeases e"
    and "\<And>c x. C c = Some x \<Longrightarrow> connKey x = k \<Longrightarrow> \<not> connClosed x \<Longrightarrow> c \<in> entConnectors e"
  using handles_okD(1,2) [OF assms] by simp_all

lemma entry_lease_ok_cong:
  "entState e' = entState e \<Longrightarrow> entGeneration e' = entGeneration e \<Longrightarrow> entry_lease_ok e' x = entry_lease_ok e x"
  by (simp add: entry_lease_ok_def split: resource_phase.split)

section \<open>Entries without handles\<close>

lemma handles_none:
  assumes "\<And>e. eo' = Some e \<Longrightarrow> entLeases e = {} \<and> entConnectors e = {}"
  shows "handles_ok closing k eo' L C \<longleftrightarrow>
     (\<forall>l x. L l = Some x \<longrightarrow> leaseKey x = k \<longrightarrow> leaseState x = LeaseClosed) \<and>
     (\<forall>c x. C c = Some x \<longrightarrow> connKey x = k \<longrightarrow> connClosed x)"
  using assms unfolding handles_ok_def by (cases eo') auto

lemma handles_bare:
  assumes "handles_ok closing k eo L C"
    and "\<And>e. eo = Some e \<Longrightarrow> entLeases e = {} \<and> entConnectors e = {}"
    and "\<And>e. eo' = Some e \<Longrightarrow> entLeases e = {} \<and> entConnectors e = {}"
  shows "handles_ok closing' k eo' L C"
  using assms by (simp add: handles_none)

lemma closeLease_closed [simp]: "leaseState (closeLeaseLocked c b x) = LeaseClosed"
  by (simp add: closeLeaseLocked_def)

lemma closeLease_key [simp]: "leaseKey (closeLeaseLocked c b x) = leaseKey x"
  by (simp add: closeLeaseLocked_def)

lemma closeConnector_closed [simp]: "connClosed (closeConnectorLocked c x)"
  by (simp add: closeConnectorLocked_def)

lemma closeConnector_key [simp]: "connKey (closeConnectorLocked c x) = connKey x"
  by (simp add: closeConnectorLocked_def)

lemma handles_cleared:
  assumes ok: "handles_ok closing k (Some e) L C"
    and C': "C' = C \<and> entConnectors e = {} \<or> C' = mapped (entConnectors e) (closeConnectorLocked c) C"
    and "\<And>e. eo' = Some e \<Longrightarrow> entLeases e = {} \<and> entConnectors e = {}"
  shows "handles_ok closing' k eo' (mapped (entLeases e) (closeLeaseLocked c' b) L) C'"
proof -
  have C': "C' = mapped (entConnectors e) (closeConnectorLocked c) C" using C' by auto
  have "leaseState x = LeaseClosed" if "mapped (entLeases e) (closeLeaseLocked c' b) L l = Some x" "leaseKey x = k" for l x
  proof (cases "l \<in> entLeases e")
    case False
    with that have "L l = Some x" by (simp add: mapped_def)
    with False handles_SomeD(1) [OF ok _ that(2)] show ?thesis by blast
  qed (use that in \<open>auto simp: mapped_def\<close>)
  moreover have "connClosed x" if "C' d = Some x" "connKey x = k" for d x
  proof (cases "d \<in> entConnectors e")
    case False
    with that have "C d = Some x" by (simp add: C' mapped_def)
    with False handles_SomeD(2) [OF ok _ that(2)] show ?thesis by blast
  qed (use that in \<open>auto simp: C' mapped_def\<close>)
  ultimately show ?thesis using handles_none [OF assms(3)] by simp
qed

section \<open>Entries that keep their handles\<close>

lemma handles_same:
  assumes ok: "handles_ok closing k (Some e) L C"
    and "entLeases e' = entLeases e" "entConnectors e' = entConnectors e"
      "entState e' = entState e" "entGeneration e' = entGeneration e"
  shows "handles_ok closing k (Some e') L C"
proof -
  have "entry_lease_ok e' = entry_lease_ok e" using assms(4,5) by (intro ext entry_lease_ok_cong)
  with ok assms(2-) show ?thesis by (simp add: handles_ok_def)
qed

lemma handles_add_lease:
  assumes ok: "handles_ok False k eo L C" and fresh: "L n = None"
    and x: "leaseKey x = k" "entry_lease_ok e' x"
    and e': "entLeases e' = insert n (case eo of Some e \<Rightarrow> entLeases e | None \<Rightarrow> {})"
      "entConnectors e' = (case eo of Some e \<Rightarrow> entConnectors e | None \<Rightarrow> {})"
    and same: "\<And>e. eo = Some e \<Longrightarrow>
        entGeneration e' = entGeneration e \<and> entState e' = entState e \<or>
        entLeases e = {} \<and> entConnectors e = {}"
  shows "handles_ok False k (Some e') (L(n \<mapsto> x)) C"
proof (rule handles_okI)
  fix l y assume "(L(n \<mapsto> x)) l = Some y" "leaseKey y = k" "leaseState y \<noteq> LeaseClosed"
  then have "l = n \<or> (\<exists>e. eo = Some e \<and> l \<in> entLeases e)"
    using handles_okD(1) [OF ok, of l y] by (cases "l = n") simp_all
  then show "\<exists>e. Some e' = Some e \<and> l \<in> entLeases e" by (elim disjE exE conjE) (simp_all add: e'(1))
next
  fix e l assume "Some e' = Some e" "l \<in> entLeases e"
  then have "l = n \<or> (\<exists>a. eo = Some a \<and> l \<in> entLeases a)" using e'(1) by (auto split: option.splits)
  then show "\<exists>y. (L(n \<mapsto> x)) l = Some y \<and> leaseKey y = k \<and> entry_lease_ok e y"
  proof
    assume "\<exists>a. eo = Some a \<and> l \<in> entLeases a"
    then obtain a where a: "eo = Some a" "l \<in> entLeases a" by blast
    then have "entGeneration e' = entGeneration a \<and> entState e' = entState a" using same by auto
    then have "entry_lease_ok e y = entry_lease_ok a y" for y
      using \<open>Some e' = Some e\<close> by (intro entry_lease_ok_cong) simp_all
    moreover have "l \<noteq> n" using handles_okD(3) [OF ok a] fresh by auto
    ultimately show ?thesis using handles_okD(3) [OF ok a] by simp
  qed (use x \<open>Some e' = Some e\<close> in simp)
next
  fix e c assume e: "Some e' = Some e" "c \<in> entConnectors e"
  then obtain a where a: "eo = Some a" "c \<in> entConnectors a" using e'(2) by (auto split: option.splits)
  with same have "entGeneration e' = entGeneration a" by auto
  with handles_okD(4) [OF ok a] e
  show "\<exists>x. C c = Some x \<and> connKey x = k \<and> \<not> connClosed x \<and> connGeneration x = entGeneration e" by auto
next
  fix e assume "Some e' = Some e" "entConnectors e \<noteq> {}"
  then show "entState e = StateReady"
    using handles_okD(5) [OF ok] e'(2) same by (auto split: option.splits)
next
  fix c y assume "C c = Some y" "connKey y = k" "\<not> connClosed y"
  then have "\<exists>e. eo = Some e \<and> c \<in> entConnectors e" by (rule handles_okD(2) [OF ok])
  then show "\<exists>e. Some e' = Some e \<and> c \<in> entConnectors e" by (elim exE conjE) (simp add: e'(2))
qed simp_all

lemma handles_release:
  assumes ok: "handles_ok closing k (Some e) L C"
    and e': "entLeases e' = entLeases e - {l}" "entConnectors e' = entConnectors e"
    and same: "entGeneration e' = entGeneration e \<and> entState e' = entState e \<or>
        entLeases e' = {} \<and> entConnectors e' = {}"
  shows "handles_ok closing k (Some e') (mapped {l} (closeLeaseLocked c b) L) C"
proof (rule handles_okI)
  fix m y assume "mapped {l} (closeLeaseLocked c b) L m = Some y" "leaseKey y = k" "leaseState y \<noteq> LeaseClosed"
  then have "m \<noteq> l" "L m = Some y" by (auto simp: mapped_def split: if_splits)
  with \<open>leaseKey y = k\<close> \<open>leaseState y \<noteq> LeaseClosed\<close> have "m \<in> entLeases e"
    by (simp add: handles_SomeD(1) [OF ok])
  with \<open>m \<noteq> l\<close> show "\<exists>e. Some e' = Some e \<and> m \<in> entLeases e" using e'(1) by simp
next
  fix a m assume a: "Some e' = Some a" "m \<in> entLeases a"
  then have "m \<in> entLeases e" "m \<noteq> l" "entGeneration a = entGeneration e \<and> entState a = entState e"
    using e'(1) same by auto
  with handles_okD(3) [OF ok refl, of m]
  show "\<exists>x. mapped {l} (closeLeaseLocked c b) L m = Some x \<and> leaseKey x = k \<and> entry_lease_ok a x"
    by (simp add: mapped_def entry_lease_ok_cong [of a e])
next
  fix a d assume a: "Some e' = Some a" "d \<in> entConnectors a"
  then have "d \<in> entConnectors e" "entGeneration a = entGeneration e" using e'(2) same by auto
  with handles_okD(4) [OF ok refl, of d]
  show "\<exists>x. C d = Some x \<and> connKey x = k \<and> \<not> connClosed x \<and> connGeneration x = entGeneration a" by simp
next
  fix a assume "Some e' = Some a" "entConnectors a \<noteq> {}"
  then show "entState a = StateReady" using handles_okD(5) [OF ok refl] e'(2) same by auto
next
  fix c y assume "C c = Some y" "connKey y = k" "\<not> connClosed y"
  then show "\<exists>e. Some e' = Some e \<and> c \<in> entConnectors e"
    using handles_SomeD(2) [OF ok, of c y] e'(2) by simp
qed (use handles_okD(6,7) [OF ok refl] e' in auto)

section \<open>Leases that a start carries along\<close>

text \<open>\<open>f\<close> is applied to every lease of the entry as its generation starts or is published.\<close>

lemma handles_carry:
  assumes ok: "handles_ok closing k (Some e) L C"
    and e': "entLeases e' = entLeases e" "entConnectors e = {}" "entConnectors e' = {}"
    and f: "\<And>x. leaseKey (f x) = leaseKey x"
      "\<And>x. leaseKey x = k \<Longrightarrow> entry_lease_ok e x \<Longrightarrow> entry_lease_ok e' (f x)"
  shows "handles_ok closing k (Some e') (mapped (entLeases e) f L) C"
proof (rule handles_okI)
  fix l y assume y: "mapped (entLeases e) f L l = Some y" "leaseKey y = k" "leaseState y \<noteq> LeaseClosed"
  have "l \<in> entLeases e"
  proof (rule ccontr)
    assume "l \<notin> entLeases e"
    moreover from this y(1) have "L l = Some y" by (simp add: mapped_def)
    ultimately show False using handles_SomeD(1) [OF ok _ y(2,3)] by simp
  qed
  then show "\<exists>e. Some e' = Some e \<and> l \<in> entLeases e" using e'(1) by simp
next
  fix a l assume a: "Some e' = Some a" "l \<in> entLeases a"
  with e'(1) have l: "l \<in> entLeases e" by simp
  with handles_okD(3) [OF ok refl l] f a
  show "\<exists>x. mapped (entLeases e) f L l = Some x \<and> leaseKey x = k \<and> entry_lease_ok a x"
    by (auto simp: mapped_def)
next
  fix c y assume "C c = Some y" "connKey y = k" "\<not> connClosed y"
  then have "c \<in> entConnectors e" by (rule handles_SomeD(2) [OF ok])
  then show "\<exists>e. Some e' = Some e \<and> c \<in> entConnectors e" using e'(2) by simp
next
  show "\<And>a. Some e' = Some a \<Longrightarrow> closing \<Longrightarrow> entLeases a = {}"
    using handles_okD(6) [OF ok refl] e'(1) by simp
qed (use e' in auto)

section \<open>Connectors\<close>

lemma handles_add_connector:
  assumes ok: "handles_ok False k (Some e) L C" and ready: "entState e = StateReady"
    and x: "connKey x = k" "\<not> connClosed x" "connGeneration x = entGeneration e" and fresh: "C n = None"
    and e': "entLeases e' = entLeases e" "entConnectors e' = insert n (entConnectors e)"
      "entState e' = entState e" "entGeneration e' = entGeneration e"
  shows "handles_ok False k (Some e') L (C(n \<mapsto> x))"
proof (rule handles_okI)
  fix c y assume "(C(n \<mapsto> x)) c = Some y" "connKey y = k" "\<not> connClosed y"
  then have "c = n \<or> c \<in> entConnectors e" using handles_SomeD(2) [OF ok, of c y] by (cases "c = n") simp_all
  then show "\<exists>e. Some e' = Some e \<and> c \<in> entConnectors e" using e'(2) by simp
next
  fix a l assume a: "Some e' = Some a" "l \<in> entLeases a"
  with e'(1) have l: "l \<in> entLeases e" by simp
  with handles_okD(3) [OF ok refl l] a e'
  show "\<exists>x. L l = Some x \<and> leaseKey x = k \<and> entry_lease_ok a x"
    by (simp add: entry_lease_ok_cong [of a e])
next
  fix l y assume "L l = Some y" "leaseKey y = k" "leaseState y \<noteq> LeaseClosed"
  then have "l \<in> entLeases e" by (rule handles_SomeD(1) [OF ok])
  then show "\<exists>e. Some e' = Some e \<and> l \<in> entLeases e" using e'(1) by simp
next
  fix a c assume a: "Some e' = Some a" "c \<in> entConnectors a"
  show "\<exists>y. (C(n \<mapsto> x)) c = Some y \<and> connKey y = k \<and> \<not> connClosed y \<and> connGeneration y = entGeneration a"
  proof (cases "c = n")
    case False
    with a e'(2) have "c \<in> entConnectors e" by simp
    from handles_okD(4) [OF ok refl this] False a e'(4) show ?thesis by simp
  qed (use x a e'(4) in simp)
qed (use ready e' in auto)

lemma handles_drop_connector:
  assumes ok: "handles_ok closing k (Some e) L C"
    and e': "entLeases e' = entLeases e" "entConnectors e' = entConnectors e - {n}"
    and same: "entGeneration e' = entGeneration e \<and> entState e' = entState e \<or>
        entLeases e' = {} \<and> entConnectors e' = {}"
  shows "handles_ok closing k (Some e') L (mapped {n} (closeConnectorLocked c) C)"
proof (rule handles_okI)
  fix d y assume "mapped {n} (closeConnectorLocked c) C d = Some y" "connKey y = k" "\<not> connClosed y"
  then have "d \<noteq> n" "C d = Some y" by (auto simp: mapped_def split: if_splits)
  with \<open>connKey y = k\<close> \<open>\<not> connClosed y\<close> have "d \<in> entConnectors e" by (simp add: handles_SomeD(2) [OF ok])
  with \<open>d \<noteq> n\<close> show "\<exists>e. Some e' = Some e \<and> d \<in> entConnectors e" using e'(2) by simp
next
  fix a l assume a: "Some e' = Some a" "l \<in> entLeases a"
  with e'(1) have l: "l \<in> entLeases e" by simp
  from a l e' same have "entGeneration a = entGeneration e" "entState a = entState e" by auto
  with handles_okD(3) [OF ok refl l]
  show "\<exists>x. L l = Some x \<and> leaseKey x = k \<and> entry_lease_ok a x"
    by (simp add: entry_lease_ok_cong [of a e])
next
  fix l y assume "L l = Some y" "leaseKey y = k" "leaseState y \<noteq> LeaseClosed"
  then have "l \<in> entLeases e" by (rule handles_SomeD(1) [OF ok])
  then show "\<exists>e. Some e' = Some e \<and> l \<in> entLeases e" using e'(1) by simp
next
  fix a d assume a: "Some e' = Some a" "d \<in> entConnectors a"
  then have "d \<in> entConnectors e" "d \<noteq> n" "entGeneration a = entGeneration e" using e'(2) same by auto
  with handles_okD(4) [OF ok refl, of d]
  show "\<exists>x. mapped {n} (closeConnectorLocked c) C d = Some x \<and> connKey x = k \<and> \<not> connClosed x \<and>
      connGeneration x = entGeneration a" by (simp add: mapped_def)
next
  fix a assume "Some e' = Some a" "entConnectors a \<noteq> {}"
  then show "entState a = StateReady" using handles_okD(5) [OF ok refl] e'(2) same by auto
qed (use handles_okD(6,7) [OF ok refl] e' in auto)

end
