(* ===== verification/Resource_Inv.thy ===== *)
theory Resource_Inv
  imports Resource_Life Resource_Handles
begin

text \<open>
  Preservation of the registry invariant by every critical section. Frame lemmas reduce each
  step to the key it works on; the entry transitions of that key are then discharged one
  operation at a time.
\<close>

named_theorems rs_simps \<open>projections of the primitive state updates\<close>

lemma entry_of_put [rs_simps]:
  "entry_of (put_entry s k e) k' = (if k' = k then Some e else entry_of s k')"
  by (simp add: put_entry_def update_conv')

lemma entry_of_del [rs_simps]:
  "distinct (map fst (rsEntries s)) \<Longrightarrow>
   entry_of (del_entry s k) k' = (if k' = k then None else entry_of s k')"
  by (simp add: del_entry_def delete_conv')

lemma put_entry_fields [rs_simps]:
  "rsNextGeneration (put_entry s k e) = rsNextGeneration s" "rsClosing (put_entry s k e) = rsClosing s"
  "rsShutdownWait (put_entry s k e) = rsShutdownWait s" "rsShutdownDone (put_entry s k e) = rsShutdownDone s"
  "rsLeases (put_entry s k e) = rsLeases s" "rsConnectors (put_entry s k e) = rsConnectors s"
  "rsNextHandle (put_entry s k e) = rsNextHandle s" "rsWorkers (put_entry s k e) = rsWorkers s"
  "rsStarted (put_entry s k e) = rsStarted s" "rsExited (put_entry s k e) = rsExited s"
  "rsCancelled (put_entry s k e) = rsCancelled s"
  by (simp_all add: put_entry_def)

lemma del_entry_fields [rs_simps]:
  "rsNextGeneration (del_entry s k) = rsNextGeneration s" "rsClosing (del_entry s k) = rsClosing s"
  "rsShutdownWait (del_entry s k) = rsShutdownWait s" "rsShutdownDone (del_entry s k) = rsShutdownDone s"
  "rsLeases (del_entry s k) = rsLeases s" "rsConnectors (del_entry s k) = rsConnectors s"
  "rsNextHandle (del_entry s k) = rsNextHandle s" "rsWorkers (del_entry s k) = rsWorkers s"
  "rsStarted (del_entry s k) = rsStarted s" "rsExited (del_entry s k) = rsExited s"
  by (simp_all add: del_entry_def)

lemma worker_fields [rs_simps]:
  "rsEntries (add_worker w s) = rsEntries s" "rsEntries (end_worker w s) = rsEntries s"
  "rsNextGeneration (add_worker w s) = rsNextGeneration s" "rsNextGeneration (end_worker w s) = rsNextGeneration s"
  "rsClosing (add_worker w s) = rsClosing s" "rsClosing (end_worker w s) = rsClosing s"
  "rsShutdownWait (add_worker w s) = rsShutdownWait s" "rsShutdownWait (end_worker w s) = rsShutdownWait s"
  "rsShutdownDone (add_worker w s) = rsShutdownDone s" "rsShutdownDone (end_worker w s) = rsShutdownDone s"
  "rsLeases (add_worker w s) = rsLeases s" "rsLeases (end_worker w s) = rsLeases s"
  "rsConnectors (add_worker w s) = rsConnectors s" "rsConnectors (end_worker w s) = rsConnectors s"
  "rsNextHandle (add_worker w s) = rsNextHandle s" "rsNextHandle (end_worker w s) = rsNextHandle s"
  "rsWorkers (add_worker w s) = insert w (rsWorkers s)" "rsWorkers (end_worker w s) = rsWorkers s - {w}"
  "rsStarted (add_worker w s) = rsStarted s" "rsStarted (end_worker w s) = rsStarted s"
  "rsExited (add_worker w s) = rsExited s" "rsExited (end_worker w s) = rsExited s"
  by (simp_all add: add_worker_def end_worker_def)

lemma on_leases_fields [rs_simps]:
  "rsEntries (on_leases L f s) = rsEntries s" "rsNextGeneration (on_leases L f s) = rsNextGeneration s"
  "rsClosing (on_leases L f s) = rsClosing s" "rsShutdownWait (on_leases L f s) = rsShutdownWait s"
  "rsShutdownDone (on_leases L f s) = rsShutdownDone s" "rsConnectors (on_leases L f s) = rsConnectors s"
  "rsNextHandle (on_leases L f s) = rsNextHandle s" "rsWorkers (on_leases L f s) = rsWorkers s"
  "rsStarted (on_leases L f s) = rsStarted s" "rsExited (on_leases L f s) = rsExited s"
  "rsLeases (on_leases L f s) = mapped L f (rsLeases s)"
  by (simp_all add: on_leases_def mapped_def fun_eq_iff)

lemma on_connectors_fields [rs_simps]:
  "rsEntries (on_connectors C f s) = rsEntries s" "rsNextGeneration (on_connectors C f s) = rsNextGeneration s"
  "rsClosing (on_connectors C f s) = rsClosing s" "rsShutdownWait (on_connectors C f s) = rsShutdownWait s"
  "rsShutdownDone (on_connectors C f s) = rsShutdownDone s" "rsLeases (on_connectors C f s) = rsLeases s"
  "rsNextHandle (on_connectors C f s) = rsNextHandle s" "rsWorkers (on_connectors C f s) = rsWorkers s"
  "rsStarted (on_connectors C f s) = rsStarted s" "rsExited (on_connectors C f s) = rsExited s"
  "rsConnectors (on_connectors C f s) = mapped C f (rsConnectors s)"
  by (simp_all add: on_connectors_def mapped_def fun_eq_iff)

lemma cancel_context_fields [rs_simps]:
  "rsEntries (cancel_start_context s g c) = rsEntries s"
  "rsNextGeneration (cancel_start_context s g c) = rsNextGeneration s"
  "rsClosing (cancel_start_context s g c) = rsClosing s"
  "rsShutdownWait (cancel_start_context s g c) = rsShutdownWait s"
  "rsShutdownDone (cancel_start_context s g c) = rsShutdownDone s"
  "rsLeases (cancel_start_context s g c) = rsLeases s"
  "rsConnectors (cancel_start_context s g c) = rsConnectors s"
  "rsNextHandle (cancel_start_context s g c) = rsNextHandle s"
  "rsWorkers (cancel_start_context s g c) = rsWorkers s"
  "rsStarted (cancel_start_context s g c) = rsStarted s"
  "rsExited (cancel_start_context s g c) = rsExited s"
  by (simp_all add: cancel_start_context_def)

lemma distinct_put [rs_simps]:
  "distinct (map fst (rsEntries s)) \<Longrightarrow> distinct (map fst (rsEntries (put_entry s k e)))"
  by (simp add: put_entry_def distinct_update)

lemma distinct_del [rs_simps]:
  "distinct (map fst (rsEntries s)) \<Longrightarrow> distinct (map fst (rsEntries (del_entry s k)))"
  by (simp add: del_entry_def distinct_delete)

section \<open>Frames\<close>

text \<open>Two states that agree on everything that belongs to one key.\<close>

definition same_key :: "resource_state \<Rightarrow> resource_state \<Rightarrow> resource_key \<Rightarrow> bool" where
  "same_key s t k \<longleftrightarrow>
     entry_of t k = entry_of s k \<and> key_workers t k = key_workers s k \<and>
     key_started t k = key_started s k \<and> key_exited t k = key_exited s k \<and>
     (\<forall>l x. leaseKey x = k \<longrightarrow> (rsLeases t l = Some x) = (rsLeases s l = Some x)) \<and>
     (\<forall>c x. connKey x = k \<longrightarrow> (rsConnectors t c = Some x) = (rsConnectors s c = Some x)) \<and>
     rsClosing t = rsClosing s \<and> rsNextGeneration s \<le> rsNextGeneration t"

lemma handles_ok_cong:
  assumes "\<And>l x. leaseKey x = k \<Longrightarrow> (L' l = Some x) = (L l = Some x)"
    and "\<And>c x. connKey x = k \<Longrightarrow> (C' c = Some x) = (C c = Some x)"
    and "handles_ok closing k eo L C"
  shows "handles_ok closing k eo L' C'"
proof -
  have leases: "(\<exists>x. L' l = Some x \<and> leaseKey x = k \<and> P x) = (\<exists>x. L l = Some x \<and> leaseKey x = k \<and> P x)" for l P
    using assms(1) by blast
  have conns: "(\<exists>x. C' c = Some x \<and> connKey x = k \<and> P x) = (\<exists>x. C c = Some x \<and> connKey x = k \<and> P x)" for c P
    using assms(2) by blast
  have all_leases: "(\<forall>l x. L' l = Some x \<longrightarrow> leaseKey x = k \<longrightarrow> P l x) =
      (\<forall>l x. L l = Some x \<longrightarrow> leaseKey x = k \<longrightarrow> P l x)" for P
    using assms(1) by blast
  have all_conns: "(\<forall>c x. C' c = Some x \<longrightarrow> connKey x = k \<longrightarrow> P c x) =
      (\<forall>c x. C c = Some x \<longrightarrow> connKey x = k \<longrightarrow> P c x)" for P
    using assms(2) by blast
  show ?thesis
    using assms(3) unfolding handles_ok_def leases conns all_leases all_conns .
qed

lemma same_key_ok:
  assumes "same_key s t k" and "key_ok s k" shows "key_ok t k"
proof -
  have "\<And>g. g \<le> rsNextGeneration s \<Longrightarrow> g \<le> rsNextGeneration t"
    using assms(1) by (auto simp: same_key_def)
  with assms show ?thesis
    using handles_ok_cong [of k "rsLeases t" "rsLeases s" "rsConnectors t" "rsConnectors s"]
    by (simp add: key_ok_def same_key_def)
qed

text \<open>
  A change local to key \<open>k\<close>: other keys see no difference, the handle tables stay well formed and
  the shutdown flags are untouched.
\<close>

definition tables_ok :: "resource_state \<Rightarrow> bool" where
  "tables_ok s \<longleftrightarrow>
     distinct (map fst (rsEntries s)) \<and>
     (\<forall>l x. rsLeases s l = Some x \<longrightarrow> lease_ok x \<and> l < rsNextHandle s) \<and>
     (\<forall>c x. rsConnectors s c = Some x \<longrightarrow> connector_ok x \<and> c < rsNextHandle s)"

definition local_to :: "resource_key \<Rightarrow> resource_state \<Rightarrow> resource_state \<Rightarrow> bool" where
  "local_to k s t \<longleftrightarrow>
     tables_ok t \<and> (\<forall>k'. k' \<noteq> k \<longrightarrow> same_key s t k') \<and>
     rsClosing t = rsClosing s \<and> rsShutdownWait t = rsShutdownWait s \<and> rsShutdownDone t = rsShutdownDone s"

lemma resource_inv_local:
  assumes inv: "resource_inv s" and loc: "local_to k s t" and ok: "key_ok t k"
    and fin: "rsShutdownDone s \<Longrightarrow> rsWorkers t \<subseteq> rsWorkers s"
  shows "resource_inv t"
proof -
  have "rsShutdownDone s \<longrightarrow> rsClosing s \<and> rsWorkers s = {}" "rsShutdownWait s = rsClosing s"
    using inv by (simp_all add: resource_inv_def global_ok_def)
  then have "global_ok t" using loc fin by (auto simp: global_ok_def local_to_def tables_ok_def)
  moreover have "key_ok t k'" for k'
    using ok loc inv same_key_ok [of s t k'] by (cases "k' = k") (auto simp: local_to_def resource_inv_def)
  ultimately show ?thesis by (simp add: resource_inv_def)
qed

lemma local_refl: "resource_inv s \<Longrightarrow> local_to k s s"
  by (simp add: local_to_def same_key_def tables_ok_def resource_inv_def global_ok_def)

named_theorems local_intros \<open>primitive updates are local to their key\<close>

lemma key_slices [rs_simps]:
  "key_workers (put_entry s k e) k' = key_workers s k'" "key_started (put_entry s k e) k' = key_started s k'"
  "key_exited (put_entry s k e) k' = key_exited s k'"
  "key_workers (del_entry s k) k' = key_workers s k'" "key_started (del_entry s k) k' = key_started s k'"
  "key_exited (del_entry s k) k' = key_exited s k'"
  "key_workers (on_leases A f s) k' = key_workers s k'" "key_started (on_leases A f s) k' = key_started s k'"
  "key_exited (on_leases A f s) k' = key_exited s k'"
  "key_workers (on_connectors B h s) k' = key_workers s k'" "key_started (on_connectors B h s) k' = key_started s k'"
  "key_exited (on_connectors B h s) k' = key_exited s k'"
  "key_workers (cancel_start_context s g c) k' = key_workers s k'"
  "key_started (cancel_start_context s g c) k' = key_started s k'"
  "key_exited (cancel_start_context s g c) k' = key_exited s k'"
  "key_workers (add_worker w s) k' = (if worker_key w = k' then insert w (key_workers s k') else key_workers s k')"
  "key_workers (end_worker w s) k' = key_workers s k' - {w}"
  "key_started (add_worker w s) k' = key_started s k'" "key_exited (add_worker w s) k' = key_exited s k'"
  "key_started (end_worker w s) k' = key_started s k'" "key_exited (end_worker w s) k' = key_exited s k'"
  "key_workers (rsShutdownErrors_update u s) k' = key_workers s k'"
  "key_started (rsShutdownErrors_update u s) k' = key_started s k'"
  "key_exited (rsShutdownErrors_update u s) k' = key_exited s k'"
  "key_workers (rsNextGeneration_update v s) k' = key_workers s k'"
  "key_started (rsNextGeneration_update v s) k' = key_started s k'"
  "key_exited (rsNextGeneration_update v s) k' = key_exited s k'"
  "key_workers (alloc_lease s x) k' = key_workers s k'" "key_started (alloc_lease s x) k' = key_started s k'"
  "key_exited (alloc_lease s x) k' = key_exited s k'"
  by (auto simp: key_workers_def key_started_def key_exited_def alloc_lease_def rs_simps)

lemma alloc_fields [rs_simps]:
  "rsEntries (alloc_lease s x) = rsEntries s" "rsNextGeneration (alloc_lease s x) = rsNextGeneration s"
  "rsClosing (alloc_lease s x) = rsClosing s" "rsShutdownDone (alloc_lease s x) = rsShutdownDone s"
  "rsShutdownWait (alloc_lease s x) = rsShutdownWait s" "rsConnectors (alloc_lease s x) = rsConnectors s"
  "rsLeases (alloc_lease s x) = (rsLeases s)(rsNextHandle s \<mapsto> x)"
  "rsNextHandle (alloc_lease s x) = Suc (rsNextHandle s)" "rsWorkers (alloc_lease s x) = rsWorkers s"
  "rsStarted (alloc_lease s x) = rsStarted s" "rsExited (alloc_lease s x) = rsExited s"
  by (simp_all add: alloc_lease_def)

lemma local_put [local_intros]: "local_to k s t \<Longrightarrow> local_to k s (put_entry t k e)"
  by (simp add: local_to_def same_key_def tables_ok_def rs_simps)

lemma local_del [local_intros]: "local_to k s t \<Longrightarrow> local_to k s (del_entry t k)"
  by (simp add: local_to_def same_key_def tables_ok_def rs_simps)

lemma local_add_worker [local_intros]:
  "local_to k s t \<Longrightarrow> worker_key w = k \<Longrightarrow> local_to k s (add_worker w t)"
  by (simp add: local_to_def same_key_def tables_ok_def rs_simps)

lemma local_end_worker [local_intros]:
  assumes "local_to k s t" and "worker_key w = k" shows "local_to k s (end_worker w t)"
proof -
  have "key_workers t k' - {w} = key_workers t k'" if "k' \<noteq> k" for k'
    using that assms(2) by (auto simp: key_workers_def)
  with assms(1) show ?thesis by (simp add: local_to_def same_key_def tables_ok_def rs_simps)
qed

lemma local_cancel [local_intros]: "local_to k s t \<Longrightarrow> local_to k s (cancel_start_context t g c)"
  by (simp add: local_to_def same_key_def tables_ok_def rs_simps)

lemma local_errors [local_intros]: "local_to k s t \<Longrightarrow> local_to k s (rsShutdownErrors_update u t)"
  by (simp add: local_to_def same_key_def tables_ok_def rs_simps)

lemma local_leases [local_intros]:
  assumes loc: "local_to k s t"
    and f: "\<And>l x. l \<in> A \<Longrightarrow> rsLeases t l = Some x \<Longrightarrow> leaseKey x = k \<and> leaseKey (f x) = k \<and> (lease_ok x \<longrightarrow> lease_ok (f x))"
  shows "local_to k s (on_leases A f t)"
proof -
  have other: "(mapped A f (rsLeases t) l = Some x) = (rsLeases s l = Some x)"
    if "k' \<noteq> k" "leaseKey x = k'" for k' l x
  proof -
    have "(rsLeases t l = Some x) = (rsLeases s l = Some x)"
      using that loc by (auto simp: local_to_def same_key_def)
    then show ?thesis using f [of l] that by (auto simp: mapped_def)
  qed
  have "lease_ok x \<and> l < rsNextHandle t" if "mapped A f (rsLeases t) l = Some x" for l x
  proof -
    from that obtain y where y: "rsLeases t l = Some y" "x = (if l \<in> A then f y else y)"
      by (auto simp: mapped_Some)
    moreover have "lease_ok y \<and> l < rsNextHandle t" using loc y(1) by (simp add: local_to_def tables_ok_def)
    ultimately show ?thesis using f [of l y] by simp
  qed
  then have "tables_ok (on_leases A f t)" using loc by (simp add: local_to_def tables_ok_def rs_simps)
  moreover have "same_key s (on_leases A f t) k'" if "k' \<noteq> k" for k'
  proof -
    have "same_key s t k'" using that loc by (simp add: local_to_def)
    then show ?thesis using other [OF that] unfolding same_key_def rs_simps by blast
  qed
  ultimately show ?thesis using loc by (simp add: local_to_def rs_simps)
qed

lemma local_connectors [local_intros]:
  assumes loc: "local_to k s t"
    and f: "\<And>c x. c \<in> A \<Longrightarrow> rsConnectors t c = Some x \<Longrightarrow>
      connKey x = k \<and> connKey (f x) = k \<and> (connector_ok x \<longrightarrow> connector_ok (f x))"
  shows "local_to k s (on_connectors A f t)"
proof -
  have other: "(mapped A f (rsConnectors t) c = Some x) = (rsConnectors s c = Some x)"
    if "k' \<noteq> k" "connKey x = k'" for k' c x
  proof -
    have "(rsConnectors t c = Some x) = (rsConnectors s c = Some x)"
      using that loc by (auto simp: local_to_def same_key_def)
    then show ?thesis using f [of c] that by (auto simp: mapped_def)
  qed
  have "connector_ok x \<and> c < rsNextHandle t" if "mapped A f (rsConnectors t) c = Some x" for c x
  proof -
    from that obtain y where y: "rsConnectors t c = Some y" "x = (if c \<in> A then f y else y)"
      by (auto simp: mapped_Some)
    moreover have "connector_ok y \<and> c < rsNextHandle t" using loc y(1) by (simp add: local_to_def tables_ok_def)
    ultimately show ?thesis using f [of c y] by simp
  qed
  then have "tables_ok (on_connectors A f t)" using loc by (simp add: local_to_def tables_ok_def rs_simps)
  moreover have "same_key s (on_connectors A f t) k'" if "k' \<noteq> k" for k'
  proof -
    have "same_key s t k'" using that loc by (simp add: local_to_def)
    then show ?thesis using other [OF that] unfolding same_key_def rs_simps by blast
  qed
  ultimately show ?thesis using loc by (simp add: local_to_def rs_simps)
qed

end
