(* ===== verification/Resource_Preserve.thy ===== *)
theory Resource_Preserve
  imports Resource_Inv
begin

text \<open>
  Every critical section of the registry keeps the invariant. Each operation is reduced to one
  lifecycle transition and one handle transition of the key it works on.
\<close>

section \<open>Reading the invariant\<close>

lemma inv_key:
  assumes "resource_inv s"
  shows "life_ok (rsClosing s) k (entry_of s k) (key_workers s k) (key_started s k) (key_exited s k)"
    and "handles_ok (rsClosing s) k (entry_of s k) (rsLeases s) (rsConnectors s)"
    and "g \<in> key_started s k \<Longrightarrow> g \<le> rsNextGeneration s"
    and "entry_of s k = Some e \<Longrightarrow> entGeneration e \<le> rsNextGeneration s"
proof -
  have ok: "key_ok s k" using assms by (simp add: resource_inv_def)
  then show "life_ok (rsClosing s) k (entry_of s k) (key_workers s k) (key_started s k) (key_exited s k)"
    "handles_ok (rsClosing s) k (entry_of s k) (rsLeases s) (rsConnectors s)"
    by (simp_all add: key_ok_def)
  show "g \<in> key_started s k \<Longrightarrow> g \<le> rsNextGeneration s"
    "entry_of s k = Some e \<Longrightarrow> entGeneration e \<le> rsNextGeneration s"
    using ok by (auto simp: key_ok_def)
qed

lemma inv_tables:
  assumes "resource_inv s"
  shows "distinct (map fst (rsEntries s))"
    and "rsLeases s l = Some x \<Longrightarrow> lease_ok x \<and> l < rsNextHandle s"
    and "rsConnectors s c = Some y \<Longrightarrow> connector_ok y \<and> c < rsNextHandle s"
    and "rsShutdownDone s \<Longrightarrow> rsClosing s \<and> rsWorkers s = {}"
  using assms by (simp_all add: resource_inv_def global_ok_def)

lemma inv_entry:
  assumes "resource_inv s" and e: "entry_of s k = Some e"
  shows "life_ok (rsClosing s) k (Some e) (key_workers s k) (key_started s k) (key_exited s k)"
    and "handles_ok (rsClosing s) k (Some e) (rsLeases s) (rsConnectors s)"
    and "phase_ok (rsClosing s) e"
  using inv_key(1,2) [OF assms(1), of k] life_okD(1) [OF inv_key(1) [OF assms(1)] e] e by simp_all

lemma entry_lease_key:
  assumes "resource_inv s" "entry_of s k = Some e" "l \<in> entLeases e" "rsLeases s l = Some x"
  shows "leaseKey x = k" and "entry_lease_ok e x"
  using handles_okD(3) [OF inv_entry(2) [OF assms(1,2)] refl assms(3)] assms(4) by auto

lemma entry_connector_key:
  assumes "resource_inv s" "entry_of s k = Some e" "c \<in> entConnectors e" "rsConnectors s c = Some x"
  shows "connKey x = k"
  using handles_okD(4) [OF inv_entry(2) [OF assms(1,2)] refl assms(3)] assms(4) by auto

lemma lease_ok_close: "lease_ok x \<Longrightarrow> lease_ok (closeLeaseLocked c b x)"
  by (auto simp: lease_ok_def closeLeaseLocked_def split: lease_phase.splits)

lemma connector_ok_close: "connector_ok x \<Longrightarrow> connector_ok (closeConnectorLocked c x)"
  by (simp add: connector_ok_def closeConnectorLocked_def)

lemma no_connectors:
  assumes "handles_ok closing k (Some e) L C" "entState e \<noteq> StateReady"
  shows "entConnectors e = {}"
  using handles_okD(5) [OF assms(1) refl] assms(2) by blast

lemma no_leases:
  assumes "handles_ok closing k (Some e) L C" "entState e \<in> {StateCold, StateIdle, StateFailed}"
  shows "entLeases e = {}"
  using handles_okD(3) [OF assms(1) refl] assms(2) by (fastforce simp: entry_lease_ok_def)

text \<open>The invariant after an operation on key \<open>k\<close>, from its two transitions.\<close>

lemma inv_after:
  assumes "resource_inv s" and "local_to k s t"
    and "life_ok (rsClosing s) k (entry_of t k) (key_workers t k) (key_started t k) (key_exited t k)"
    and "handles_ok (rsClosing s) k (entry_of t k) (rsLeases t) (rsConnectors t)"
    and "\<And>g. g \<in> key_started t k \<Longrightarrow> g \<le> rsNextGeneration t"
    and "\<And>e. entry_of t k = Some e \<Longrightarrow> entGeneration e \<le> rsNextGeneration t"
    and "rsShutdownDone s \<Longrightarrow> rsWorkers t \<subseteq> rsWorkers s"
  shows "resource_inv t"
proof -
  have "rsClosing t = rsClosing s" using assms(2) by (simp add: local_to_def)
  with assms show ?thesis by (intro resource_inv_local [OF assms(1,2)]) (auto simp: key_ok_def)
qed

lemma inv_put:
  assumes "resource_inv s" and "entry_of s k = Some e"
    and "life_ok (rsClosing s) k (Some e') (key_workers s k) (key_started s k) (key_exited s k)"
    and "handles_ok (rsClosing s) k (Some e') (rsLeases s) (rsConnectors s)"
    and "entGeneration e' = entGeneration e"
  shows "resource_inv (put_entry s k e')"
  by (rule inv_after [OF assms(1), of k])
    (use assms inv_key(3) [OF assms(1)] inv_key(4) [OF assms(1,2)] in
      \<open>auto simp: rs_simps intro: local_put local_refl\<close>)

lemma inv_del:
  assumes "resource_inv s"
    and "life_ok (rsClosing s) k None (key_workers s k) (key_started s k) (key_exited s k)"
    and "handles_ok (rsClosing s) k None (rsLeases s) (rsConnectors s)"
  shows "resource_inv (del_entry s k)"
  by (rule inv_after [OF assms(1), of k])
    (use assms inv_key(3) [OF assms(1)] inv_tables(1) [OF assms(1)] in
      \<open>auto simp: rs_simps intro: local_del local_refl\<close>)

lemma delete_put: "del_entry (put_entry s k e) k = del_entry s k"
  by (simp add: del_entry_def put_entry_def delete_update_same)

lemma inv_delete_quiet:
  assumes inv: "resource_inv (put_entry s k e)"
    and e: "\<not> entStartPending e" "entInstance e = None" "entState e \<noteq> StateStopping" "entLeases e = {}" "entConnectors e = {}"
  shows "resource_inv (del_entry s k)"
proof -
  let ?t = "put_entry s k e"
  have k: "entry_of ?t k = Some e" by (simp add: rs_simps)
  note life = inv_entry(1) [OF inv k]
  have "key_started ?t k \<subseteq> key_exited ?t k" by (rule life_settled [OF life]) (use e in auto)
  then have "life_ok (rsClosing ?t) k None (key_workers ?t k) (key_started ?t k) (key_exited ?t k)"
    by (rule life_delete [OF life]) (use e in auto)
  then have "resource_inv (del_entry ?t k)"
    by (rule inv_del [OF inv]) (rule handles_bare [OF inv_entry(2) [OF inv k]], use e in auto)
  then show ?thesis by (simp add: delete_put)
qed

lemma inv_delete_cold: "resource_inv (put_entry s k e) \<Longrightarrow> resource_inv (deleteColdEntryLocked s k e)"
  by (auto simp: deleteColdEntryLocked_def cold_deletable_def intro: inv_delete_quiet)

lemma inv_delete_failed: "resource_inv (put_entry s k e) \<Longrightarrow> resource_inv (deleteFailedEntryLocked now s k e)"
  by (auto simp: deleteFailedEntryLocked_def failed_deletable_def intro: inv_delete_quiet)

lemma phase_ok_cong:
  assumes "entState e' = entState e" "entStartPending e' = entStartPending e"
    "entInstance e' = entInstance e" "entGeneration e' = entGeneration e"
  shows "phase_ok closing e' = phase_ok closing e"
  using assms by (simp add: phase_ok_def split: resource_phase.split)

lemma life_same:
  assumes "life_ok closing k (Some e) W S X"
    and "entState e' = entState e" "entStartPending e' = entStartPending e"
      "entInstance e' = entInstance e" "entGeneration e' = entGeneration e" "entReaped e' = entReaped e"
  shows "life_ok closing k (Some e') W S X"
  using life_update [OF assms(1), of e'] life_okD(1,2) [OF assms(1) refl] assms(2-)
  by (simp add: phase_ok_cong [of e' e])

section \<open>Timers\<close>

lemma inv_resetStable: "resource_inv s \<Longrightarrow> resource_inv (resetStableGeneration now s k g)"
  unfolding resetStableGeneration_def
  by (auto split: option.split intro!: inv_put life_same [OF inv_entry(1)] handles_same [OF inv_entry(2)])

lemma inv_expireFailure:
  assumes inv: "resource_inv s" shows "resource_inv (expireFailure now s k g deadline)"
  using assms unfolding expireFailure_def
  by (auto split: option.split intro!: inv_delete_failed inv_put life_same [OF inv_entry(1)]
      handles_same [OF inv_entry(2)])

lemma inv_expireIdle:
  assumes inv: "resource_inv s" shows "resource_inv (expireIdle now s k g deadline)"
proof -
  have "resource_inv (put_entry (add_worker (WStop k (entGeneration e) (entInstance e)) s) k e')"
    if e: "entry_of s k = Some e" "entState e = StateIdle" "\<not> rsClosing s"
      and e': "entState e' = StateStopping" "\<not> entReaped e'" "entGeneration e' = entGeneration e"
        "entStartPending e' = entStartPending e" "entInstance e' = entInstance e"
        "entLeases e' = entLeases e" "entConnectors e' = entConnectors e" for e e'
  proof -
    note life = inv_entry(1) [OF inv e(1)] and hd = inv_entry(2) [OF inv e(1)]
    have p: "\<not> entStartPending e" "entInstance e = Some (entGeneration e)"
      using phase_okD(3) [OF inv_entry(3) [OF inv e(1)] e(2)] by simp_all
    have bare: "entLeases e = {}" "entConnectors e = {}"
      using no_leases [OF hd] no_connectors [OF hd] e(2) by simp_all
    show ?thesis
    proof (rule inv_after [OF inv, of k])
      show "local_to k s (put_entry (add_worker (WStop k (entGeneration e) (entInstance e)) s) k e')"
        by (intro local_intros local_refl inv) simp
    qed (use inv_key(3,4) [OF inv] inv_tables(4) [OF inv] e e' p bare
        life_begin_stop [OF life, of "entGeneration e" e'] handles_bare [OF hd, of "Some e'"] in
        \<open>auto simp: rs_simps\<close>)
  qed
  with inv show ?thesis
    by (auto simp: expireIdle_def beginStopLocked_def cancelStableResetLocked_def cancelIdleLocked_def
        split: option.split)
qed

section \<open>Abandoned starts and releases\<close>

lemma inv_cancel [simp]: "resource_inv (cancel_start_context s g c) = resource_inv s"
  by (simp add: resource_inv_def global_ok_def key_ok_def rs_simps)

lemma inv_errors [simp]: "resource_inv (rsShutdownErrors_update u s) = resource_inv s"
  by (simp add: resource_inv_def global_ok_def key_ok_def rs_simps)

text \<open>A failed start: the entry fails, its leases are closed with the cause.\<close>

lemma inv_fail_starting:
  assumes inv: "resource_inv s" and e: "entry_of s k = Some e" "entState e = StateStarting"
    and e': "entState e' = StateFailed" "entStartPending e'" "entInstance e' = None"
      "entGeneration e' = entGeneration e" "entReaped e' \<Longrightarrow> entReaped e" "entLeases e' = {}"
      "entConnectors e' = entConnectors e"
  shows "resource_inv (put_entry (on_leases (entLeases e) (closeLeaseLocked c b) s) k e')"
proof -
  note life = inv_entry(1) [OF inv e(1)] and hd = inv_entry(2) [OF inv e(1)]
  note p = phase_okD(1) [OF inv_entry(3) [OF inv e(1)] e(2)]
  have bare: "entConnectors e = {}" using no_connectors [OF hd] e(2) by simp
  have "life_ok (rsClosing s) k (Some e') (key_workers s k) (key_started s k) (key_exited s k)"
    by (rule life_update [OF life]) (use e' e(2) p life_okD(2) [OF life refl] in \<open>auto simp: phase_ok_def\<close>)
  moreover have "handles_ok (rsClosing s) k (Some e') (mapped (entLeases e) (closeLeaseLocked c b) (rsLeases s))
      (rsConnectors s)"
    by (rule handles_cleared [OF hd]) (use bare e' in auto)
  moreover have "local_to k s (put_entry (on_leases (entLeases e) (closeLeaseLocked c b) s) k e')"
    by (intro local_intros local_refl inv)
      (use entry_lease_key(1) [OF inv e(1)] lease_ok_close in auto)
  ultimately show ?thesis
    by (intro inv_after [OF inv, of k])
      (use inv_key(3) [OF inv] inv_key(4) [OF inv e(1)] e'(4) in \<open>auto simp: rs_simps\<close>)
qed

lemma failLocked_fields:
  "entState (failLocked o' now e m) = StateFailed"
  "entStartPending (failLocked o' now e m) = entStartPending e"
  "entInstance (failLocked o' now e m) = entInstance e"
  "entGeneration (failLocked o' now e m) = entGeneration e"
  "entReaped (failLocked o' now e m) = entReaped e"
  "entLeases (failLocked o' now e m) = entLeases e"
  "entConnectors (failLocked o' now e m) = entConnectors e"
  "entFailureTimer (failLocked o' now e m)"
  by (simp_all add: failLocked_def scheduleFailureRetentionLocked_def cancelFailureRetentionLocked_def Let_def)

lemma inv_timeoutStart:
  assumes inv: "resource_inv s" and e: "entry_of s k = Some e" "entState e = StateStarting"
    and e': "entState e' = entState e" "entStartPending e' = entStartPending e" "entInstance e' = entInstance e"
      "entGeneration e' = entGeneration e" "entReaped e' = entReaped e" "entLeases e' = entLeases e"
      "entConnectors e' = entConnectors e"
  shows "resource_inv (case timeoutStartLocked o' now s e' of (s', e') \<Rightarrow> put_entry s' k e')"
proof -
  have p: "entStartPending e" "entInstance e = None"
    using phase_okD(1) [OF inv_entry(3) [OF inv e(1)] e(2)] by simp_all
  define u where "u = (if entStartCancel e' then cancel_start_context s (entGeneration e') DeadlineExceeded else s)"
  have "resource_inv u" "entry_of u k = Some e" using inv e by (simp_all add: u_def rs_simps)
  moreover have "(case timeoutStartLocked o' now s e' of (s', e') \<Rightarrow> put_entry s' k e') =
      put_entry (on_leases (entLeases e) (closeLeaseLocked (Some (StartError DeadlineExceeded)) True) u) k
        (failLocked o' now (snd (cancelStartLocked s e' DeadlineExceeded)) ''resource start timed out''
          \<lparr>entLeases := {}\<rparr>)"
    using e' by (simp add: timeoutStartLocked_def cancelStartLocked_def invalidateLeasesLocked_def
        Let_def failLocked_fields u_def)
  ultimately show ?thesis
    using p e' e(2) by (auto simp: failLocked_fields cancelStartLocked_def intro!: inv_fail_starting)
qed

lemma inv_expireStart:
  assumes inv: "resource_inv s" shows "resource_inv (expireStart o' now s k g deadline)"
  unfolding expireStart_def using inv
  by (auto split: option.split intro!: inv_timeoutStart simp del: split_paired_All)

text \<open>Releasing closes the lease once and removes it from its entry.\<close>

lemma on_leases_releasing:
  assumes "rsLeases s l = Some x" "leaseState x \<noteq> LeaseClosed"
  shows "on_leases {l} (closeLeaseLocked None False) (on_leases {l} (\<lambda>x. x\<lparr>leaseState := LeaseReleasing\<rparr>) s) =
     on_leases {l} (closeLeaseLocked None False) s"
proof -
  have "closeLeaseLocked None False (x\<lparr>leaseState := LeaseReleasing\<rparr>) = closeLeaseLocked None False x"
    using assms(2) by (simp add: closeLeaseLocked_def)
  with assms(1) show ?thesis by (simp add: on_leases_def fun_eq_iff)
qed

lemma on_leases_cancel:
  "on_leases A f (cancel_start_context s g c) = cancel_start_context (on_leases A f s) g c"
proof -
  have "start_cause (on_leases A f s) g = start_cause s g" by (simp add: start_cause_def on_leases_def)
  then show ?thesis
    by (cases "start_cause s g") (simp_all add: cancel_start_context_def on_leases_def cong: if_cong)
qed

lemma inv_release_put:
  assumes inv: "resource_inv s" and e: "entry_of s k = Some e" and l: "l \<in> entLeases e"
    and life: "life_ok (rsClosing s) k (Some e') (key_workers s k) (key_started s k) (key_exited s k)"
    and e': "entLeases e' = entLeases e - {l}" "entConnectors e' = entConnectors e" "entGeneration e' = entGeneration e"
    and st: "entState e' = entState e \<or> entLeases e' = {} \<and> entConnectors e' = {}"
  shows "resource_inv (put_entry (on_leases {l} (closeLeaseLocked c b) s) k e')"
proof -
  have "handles_ok (rsClosing s) k (Some e') (mapped {l} (closeLeaseLocked c b) (rsLeases s)) (rsConnectors s)"
    by (rule handles_release [OF inv_entry(2) [OF inv e]]) (use e' st in auto)
  moreover have "local_to k s (put_entry (on_leases {l} (closeLeaseLocked c b) s) k e')"
    by (intro local_intros local_refl inv) (use entry_lease_key(1) [OF inv e l] lease_ok_close in auto)
  ultimately show ?thesis
    by (intro inv_after [OF inv, of k])
      (use life inv_key(3) [OF inv] inv_key(4) [OF inv e] e' in \<open>auto simp: rs_simps\<close>)
qed

lemma maybeIdle_cases:
  "maybeIdleLocked now e = e \<or>
   entState e = StateReady \<and> entLeases e = {} \<and> entConnectors e = {} \<and>
   entState (maybeIdleLocked now e) = StateIdle"
  "entLeases (maybeIdleLocked now e) = entLeases e" "entConnectors (maybeIdleLocked now e) = entConnectors e"
  "entGeneration (maybeIdleLocked now e) = entGeneration e" "entInstance (maybeIdleLocked now e) = entInstance e"
  "entStartPending (maybeIdleLocked now e) = entStartPending e" "entReaped (maybeIdleLocked now e) = entReaped e"
  by (simp_all add: maybeIdleLocked_def)

lemma life_maybeIdle:
  assumes "life_ok closing k (Some e) W S X" shows "life_ok closing k (Some (maybeIdleLocked now e)) W S X"
  using maybeIdle_cases(1) [of now e]
proof
  assume idle: "entState e = StateReady \<and> entLeases e = {} \<and> entConnectors e = {} \<and>
      entState (maybeIdleLocked now e) = StateIdle"
  with phase_okD(2) [OF life_okD(1) [OF assms refl]]
  show ?thesis
    by (intro life_update [OF assms])
      (auto simp: maybeIdle_cases(2-) phase_ok_def life_okD(2) [OF assms refl])
qed (use assms in simp)

lemma inv_Release:
  assumes inv: "resource_inv s" shows "resource_inv (Release o' now s l)"
proof (cases "rsLeases s l")
  case (Some x)
  let ?k = "leaseKey x"
  show ?thesis
  proof (cases "leaseState x = LeaseClosed \<or> leaseState x = LeaseReleasing")
    case True
    then show ?thesis using inv Some by (auto simp: Release_def)
  next
    case False
    then obtain e where e: "entry_of s ?k = Some e" and l: "l \<in> entLeases e"
      using handles_okD(1) [OF inv_key(2) [OF inv] Some refl] by blast
    define e1 where "e1 = e\<lparr>entLeases := entLeases e - {l}\<rparr>"
    have life: "life_ok (rsClosing s) ?k (Some e1) (key_workers s ?k) (key_started s ?k) (key_exited s ?k)"
      by (rule life_same [OF inv_entry(1) [OF inv e]]) (simp_all add: e1_def)
    have rel: "Release o' now s l = (case cancelUnusedStartLocked o' now (on_leases {l} (closeLeaseLocked None False) s) e1
        of (s, e) \<Rightarrow> put_entry s ?k (maybeIdleLocked now e))"
      using Some False e by (simp add: Release_def Let_def on_leases_releasing rs_simps e1_def)
    show ?thesis
    proof (cases "entState e1 \<noteq> StateStarting \<or> entLeases e1 \<noteq> {} \<or> entConnectors e1 \<noteq> {}")
      case True
      have "resource_inv (put_entry (on_leases {l} (closeLeaseLocked None False) s) ?k (maybeIdleLocked now e1))"
        by (rule inv_release_put [OF inv e l life_maybeIdle [OF life]])
          (use maybeIdle_cases(1) [of now e1] in \<open>auto simp: maybeIdle_cases(2-) e1_def\<close>)
      then show ?thesis using True rel by (simp add: cancelUnusedStartLocked_def)
    next
      case unused: False
      define u where "u = (if entStartCancel e1 then cancel_start_context s (entGeneration e1) ErrStartUnused else s)"
      have u: "resource_inv u" "entry_of u ?k = Some e" using inv e by (simp_all add: u_def rs_simps)
      obtain e2 where e2: "cancelUnusedStartLocked o' now (on_leases {l} (closeLeaseLocked None False) s) e1 =
            (on_leases {l} (closeLeaseLocked None False) u, e2)"
          "entState e2 = StateFailed" "entInstance e2 = None" "\<not> entReaped e2" "entLeases e2 = entLeases e1"
          "entConnectors e2 = entConnectors e1" "entGeneration e2 = entGeneration e1" "entStartPending e2 = entStartPending e1"
        using unused by (auto simp: cancelUnusedStartLocked_def cancelStartLocked_def Let_def u_def on_leases_cancel
            scheduleFailureRetentionLocked_def cancelFailureRetentionLocked_def)
      have p: "entStartPending e1" "entInstance e1 = None"
        using phase_okD(1) [OF life_okD(1) [OF life refl]] unused by simp_all
      have "life_ok (rsClosing u) ?k (Some e2) (key_workers u ?k) (key_started u ?k) (key_exited u ?k)"
        using life_update [OF life, of e2] e2 p unused by (simp add: u_def rs_simps phase_ok_def)
      then have "resource_inv (put_entry (on_leases {l} (closeLeaseLocked None False) u) ?k e2)"
        by (rule inv_release_put [OF u l]) (use e2 unused in \<open>simp_all add: e1_def\<close>)
      then show ?thesis using rel e2(1,2) by (simp add: maybeIdleLocked_def)
    qed
  qed
qed (use inv in \<open>simp add: Release_def\<close>)

end
