(* ===== verification/Resource_Preserve_Start.thy ===== *)
theory Resource_Preserve_Start
  imports Resource_Preserve
begin

text \<open>
  The invariant through connectors, acquisition, and the stages of a start.
\<close>

section \<open>Connectors\<close>

lemma inv_OpenConnector:
  assumes inv: "resource_inv s" and x: "rsLeases s l = Some x" and op: "OpenConnector now s x = (t, res)"
  shows "resource_inv t"
proof (cases "t = s")
  case False
  let ?k = "leaseKey x" and ?c = "rsNextHandle s"
  define y where "y = \<lparr>connKey = ?k, connGeneration = leaseGeneration x, connDone = 0, connErr = None, connClosed = False\<rparr>"
  define u where "u = s\<lparr>rsConnectors := (rsConnectors s)(?c \<mapsto> y), rsNextHandle := Suc ?c\<rparr>"
  from op False obtain e where e: "entry_of s ?k = Some e" and open_ok: "\<not> rsClosing s" "generation_ready s x"
    and t: "t = put_entry u ?k (e\<lparr>entConnectors := insert ?c (entConnectors e), entUpdatedAt := now\<rparr>)"
    by (auto simp: OpenConnector_def Let_def u_def y_def split: if_splits option.splits)
  have ready: "entState e = StateReady" "entGeneration e = leaseGeneration x"
    using open_ok(2) e by (simp_all add: generation_ready_def)
  have fresh: "rsConnectors s ?c = None" using inv_tables(3) [OF inv, of ?c] by (cases "rsConnectors s ?c") auto
  have uf: "rsEntries u = rsEntries s" "rsLeases u = rsLeases s" "rsConnectors u = (rsConnectors s)(?c \<mapsto> y)"
      "rsClosing u = rsClosing s" "rsNextGeneration u = rsNextGeneration s" "key_workers u k = key_workers s k"
      "key_started u k = key_started s k" "key_exited u k = key_exited s k" "rsWorkers u = rsWorkers s" for k
    by (simp_all add: u_def key_workers_def key_started_def key_exited_def)
  have "same_key s u k'" if "k' \<noteq> ?k" for k'
    using that fresh by (auto simp: same_key_def uf y_def)
  moreover have "tables_ok u"
    using inv_tables(1,2,3) [OF inv] by (force simp: tables_ok_def u_def y_def connector_ok_def)
  ultimately have loc: "local_to ?k s u" by (simp add: local_to_def uf) (simp add: u_def)
  show ?thesis unfolding t
  proof (rule inv_after [OF inv, of ?k])
    show "local_to ?k s (put_entry u ?k (e\<lparr>entConnectors := insert ?c (entConnectors e), entUpdatedAt := now\<rparr>))"
      by (rule local_put [OF loc])
  qed (use inv_key(3) [OF inv] inv_key(4) [OF inv e] ready fresh open_ok(1) inv_entry(2) [OF inv e]
      life_same [OF inv_entry(1) [OF inv e]] in
      \<open>auto simp: rs_simps uf y_def intro!: handles_add_connector [of ?k e]\<close>)
qed (use inv in simp)

lemma inv_Connector_Close:
  assumes inv: "resource_inv s" shows "resource_inv (Connector_Close now s c)"
proof (cases "rsConnectors s c")
  case (Some x)
  let ?k = "connKey x"
  show ?thesis
  proof (cases "connClosed x")
    case False
    then obtain e where e: "entry_of s ?k = Some e" and c: "c \<in> entConnectors e"
      using handles_okD(2) [OF inv_key(2) [OF inv] Some refl] by blast
    define e1 where "e1 = e\<lparr>entConnectors := entConnectors e - {c}\<rparr>"
    have life: "life_ok (rsClosing s) ?k (Some e1) (key_workers s ?k) (key_started s ?k) (key_exited s ?k)"
      by (rule life_same [OF inv_entry(1) [OF inv e]]) (simp_all add: e1_def)
    have hd: "handles_ok (rsClosing s) ?k (Some (maybeIdleLocked now e1)) (rsLeases s)
        (mapped {c} (closeConnectorLocked None) (rsConnectors s))"
      by (rule handles_drop_connector [OF inv_entry(2) [OF inv e]])
        (use maybeIdle_cases(1) [of now e1] in \<open>auto simp: maybeIdle_cases(2-) e1_def\<close>)
    have "resource_inv (put_entry (on_connectors {c} (closeConnectorLocked None) s) ?k (maybeIdleLocked now e1))"
    proof (rule inv_after [OF inv, of ?k])
      show "local_to ?k s (put_entry (on_connectors {c} (closeConnectorLocked None) s) ?k (maybeIdleLocked now e1))"
        by (intro local_intros local_refl inv) (use Some connector_ok_close in auto)
    qed (use inv_key(3) [OF inv] inv_key(4) [OF inv e] life_maybeIdle [OF life, of now] hd in
        \<open>auto simp: rs_simps maybeIdle_cases(2-) e1_def\<close>)
    then show ?thesis using Some False e by (simp add: Connector_Close_def Let_def rs_simps e1_def)
  qed (use inv Some in \<open>simp add: Connector_Close_def\<close>)
qed (use inv in \<open>simp add: Connector_Close_def\<close>)

section \<open>Starting a generation\<close>

lemma startLocked_cases:
  assumes "startLocked o' now s k e = Inr (t, e')"
  shows "rsNextGeneration s \<noteq> - 1"
    and "t = add_worker (WStart k (rsNextGeneration s + 1))
           (on_leases (entLeases e) (assign_generation (rsNextGeneration s + 1))
             (s\<lparr>rsNextGeneration := rsNextGeneration s + 1\<rparr>))"
    and "entGeneration e' = rsNextGeneration s + 1" "entState e' = StateStarting" "entInstance e' = None"
      "\<not> entReaped e'" "entStartPending e'" "entLeases e' = entLeases e" "entConnectors e' = entConnectors e"
  using assms by (auto simp: startLocked_def nextGenerationLocked_def cancelFailureRetentionLocked_def split: if_splits)

lemma next_generation_fresh:
  assumes "(n::generation) \<noteq> - 1" shows "n < n + 1"
proof -
  have "1 + n \<noteq> 0" using assms by (metis add.commute eq_neg_iff_add_eq_0)
  then have "unat (n + 1) = Suc (unat n)" using unatSuc [of n] by (simp add: add.commute)
  then show ?thesis by (simp add: word_less_nat_alt)
qed

lemma assign_generation_key [simp]: "leaseKey (assign_generation g x) = leaseKey x"
  by (simp add: assign_generation_def)

lemma lease_ok_assign: "lease_ok x \<Longrightarrow> lease_ok (assign_generation g x)"
  by (auto simp: assign_generation_def lease_ok_def split: lease_phase.splits)

text \<open>
  A start from \<open>s'\<close>, which is \<open>s\<close> up to the handles of \<open>k\<close>: the key is quiet and the leases in
  the entry are opening.
\<close>

lemma inv_start:
  assumes inv: "resource_inv s" and closing: "\<not> rsClosing s" and loc: "local_to k s u"
    and life: "life_ok False k eo (key_workers u k) (key_started s k) (key_exited s k)"
    and same: "key_started u k = key_started s k" "key_exited u k = key_exited s k"
      "rsNextGeneration u = rsNextGeneration s"
    and quiet: "key_started s k \<subseteq> key_exited s k"
      "\<And>a. eo = Some a \<Longrightarrow> \<not> entStartPending a \<and> entState a \<noteq> StateStopping"
    and hd: "handles_ok False k (Some e) (rsLeases u) (rsConnectors u)" "entConnectors e = {}"
      "entState e = StateStopping"
    and st: "startLocked o' now u k e1 = Inr (t, e')" and e1: "entLeases e1 = entLeases e" "entConnectors e1 = {}"
  shows "resource_inv (put_entry t k e')"
proof -
  let ?n = "rsNextGeneration s" and ?g = "rsNextGeneration s + 1"
  note sc = startLocked_cases [OF st]
  have n: "?n < ?g" using sc(1) same(3) next_generation_fresh by simp
  have fresh: "?g \<notin> key_started s k" using inv_key(3) [OF inv, of ?g k] n by auto
  have older: "g \<le> ?g" if "g \<in> key_started s k" for g
    using inv_key(3) [OF inv that] n by simp
  define v where "v = u\<lparr>rsNextGeneration := ?g\<rparr>"
  have t: "t = add_worker (WStart k ?g) (on_leases (entLeases e) (assign_generation ?g) v)"
    using sc(2) same(3) e1 by (simp add: v_def)
  have vf: "rsEntries v = rsEntries u" "rsLeases v = rsLeases u" "rsConnectors v = rsConnectors u"
      "rsNextGeneration v = ?g" "key_workers v k' = key_workers u k'" "key_started v k' = key_started u k'"
      "key_exited v k' = key_exited u k'" for k'
    by (simp_all add: v_def rs_simps)
  have "same_key s v k'" if "k' \<noteq> k" for k'
    using that loc n same(3) by (auto simp: local_to_def same_key_def vf) (simp_all add: v_def)
  then have locv: "local_to k s v" using loc by (auto simp: local_to_def tables_ok_def v_def)
  have keys: "leaseKey x = k" if "l \<in> entLeases e" "rsLeases u l = Some x" for l x
    using handles_okD(3) [OF hd(1) refl that(1)] that(2) by auto
  have life': "life_ok False k (Some e') (insert (WStart k ?g) (key_workers u k)) (key_started s k) (key_exited s k)"
    by (rule life_start [OF life quiet fresh]) (use sc(3-) same(3) in auto)
  have hd': "handles_ok False k (Some e') (mapped (entLeases e) (assign_generation ?g) (rsLeases u)) (rsConnectors u)"
    by (rule handles_carry [OF hd(1)])
      (use sc(3-) same(3) e1 hd(2,3) in \<open>auto simp: entry_lease_ok_def assign_generation_def\<close>)
  show ?thesis unfolding t
  proof (rule inv_after [OF inv, of k])
    show "local_to k s (put_entry (add_worker (WStart k ?g) (on_leases (entLeases e) (assign_generation ?g) v)) k e')"
      by (intro local_intros locv) (use keys lease_ok_assign vf in auto)
  qed (use older sc(3) same closing life' hd' inv_tables(4) [OF inv] in
      \<open>auto simp: rs_simps vf\<close>)
qed

section \<open>Acquiring\<close>

lemma on_leases_alloc: "on_leases {rsNextHandle s} f (alloc_lease s x) = alloc_lease s (f x)"
  by (simp add: on_leases_def alloc_lease_def fun_eq_iff)

lemma handle_fresh: "resource_inv s \<Longrightarrow> rsLeases s (rsNextHandle s) = None"
  using inv_tables(2) [of s "rsNextHandle s"] by (cases "rsLeases s (rsNextHandle s)") auto

lemma local_alloc:
  assumes inv: "resource_inv s" and x: "leaseKey x = k" "lease_ok x"
  shows "local_to k s (alloc_lease s x)"
proof -
  have "same_key s (alloc_lease s x) k'" if "k' \<noteq> k" for k'
    using that handle_fresh [OF inv] x by (auto simp: same_key_def rs_simps)
  moreover have "tables_ok (alloc_lease s x)"
    unfolding tables_ok_def
    using inv_tables(1-3) [OF inv] x by (force simp: alloc_lease_def intro: less_SucI)
  ultimately show ?thesis by (simp add: local_to_def rs_simps)
qed

lemma inv_alloc_put:
  assumes inv: "resource_inv s" and x: "leaseKey x = k" "lease_ok x"
    and e: "entry_of s k = Some e" "entGeneration e' = entGeneration e"
    and life: "life_ok (rsClosing s) k (Some e') (key_workers s k) (key_started s k) (key_exited s k)"
    and hd: "handles_ok (rsClosing s) k (Some e') ((rsLeases s)(rsNextHandle s \<mapsto> x)) (rsConnectors s)"
  shows "resource_inv (put_entry (alloc_lease s x) k e')"
  by (rule inv_after [OF inv local_put [OF local_alloc [OF inv x]]])
    (use life hd inv_key(3) [OF inv] inv_key(4) [OF inv e(1)] e(2) in \<open>auto simp: rs_simps\<close>)

lemma handles_add_closed:
  assumes ok: "handles_ok closing k eo L C" and "L n = None" and "leaseState x = LeaseClosed"
  shows "handles_ok closing k eo (L(n \<mapsto> x)) C"
proof (rule handles_okI)
  fix l y assume "(L(n \<mapsto> x)) l = Some y" "leaseKey y = k" "leaseState y \<noteq> LeaseClosed"
  moreover from this assms(3) have "l \<noteq> n" by auto
  ultimately show "\<exists>e. eo = Some e \<and> l \<in> entLeases e" by (simp add: handles_okD(1) [OF ok])
next
  fix e l assume "eo = Some e" "l \<in> entLeases e"
  from handles_okD(3) [OF ok this] assms(2)
  show "\<exists>y. (L(n \<mapsto> x)) l = Some y \<and> leaseKey y = k \<and> entry_lease_ok e y" by auto
qed (rule handles_okD(2,4-7) [OF ok]; assumption)+

lemma new_lease_fields [simp]:
  "leaseKey (new_lease k) = k" "leaseState (new_lease k) = LeaseOpening" "lease_ok (new_lease k)"
  by (simp_all add: new_lease_def lease_ok_def)

lemma activate_fields [simp]:
  "leaseKey (activateLeaseLocked g x) = leaseKey x" "leaseState (activateLeaseLocked g x) = LeaseActive"
  "leaseGeneration (activateLeaseLocked g x) = g"
  by (simp_all add: activateLeaseLocked_def)

lemma lease_ok_activate: "lease_ok x \<Longrightarrow> leaseState x = LeaseOpening \<Longrightarrow> lease_ok (activateLeaseLocked g x)"
  by (simp add: activateLeaseLocked_def lease_ok_def)

text \<open>The new lease joins an entry that is ready, starting or stopping.\<close>

lemma inv_reserve_join:
  assumes inv: "resource_inv s" and closing: "\<not> rsClosing s" and e: "entry_of s k = Some e"
    and e': "entGeneration e' = entGeneration e" "entInstance e' = entInstance e" "entReaped e' = entReaped e"
      "entStartPending e' = entStartPending e" "entLeases e' = insert (rsNextHandle s) (entLeases e)"
      "entConnectors e' = entConnectors e"
      "entState e' = entState e \<or> entState e = StateIdle \<and> entState e' = StateReady"
    and x: "leaseKey x = k" "lease_ok x" "entry_lease_ok e' x"
  shows "resource_inv (put_entry (alloc_lease s x) k e')"
proof (rule inv_alloc_put [OF inv x(1,2) e e'(1)])
  note life = inv_entry(1) [OF inv e] and hd = inv_entry(2) [OF inv e]
  show "life_ok (rsClosing s) k (Some e') (key_workers s k) (key_started s k) (key_exited s k)"
    using e'(7)
  proof
    assume "entState e' = entState e"
    then show ?thesis by (intro life_same [OF life]) (use e' in simp_all)
  next
    assume "entState e = StateIdle \<and> entState e' = StateReady"
    with phase_okD(3) [OF inv_entry(3) [OF inv e]] e' show ?thesis
      by (intro life_update [OF life]) (simp_all add: phase_ok_def life_okD(2) [OF life refl])
  qed
  have "entState e = StateIdle \<Longrightarrow> entLeases e = {} \<and> entConnectors e = {}"
    using no_leases [OF hd] no_connectors [OF hd] by simp
  then show "handles_ok (rsClosing s) k (Some e') ((rsLeases s)(rsNextHandle s \<mapsto> x)) (rsConnectors s)"
    using handles_add_lease [of k "Some e" "rsLeases s" "rsConnectors s" "rsNextHandle s" x e'] hd
      handle_fresh [OF inv] x e' closing by auto
qed

text \<open>The new lease starts a generation of an absent or failed entry.\<close>

definition startable :: "entry option \<Rightarrow> bool" where
  "startable eo \<longleftrightarrow>
     (\<forall>e. eo = Some e \<longrightarrow>
        entState e \<in> {StateCold, StateFailed} \<and> entInstance e = None \<and> \<not> entStartPending e)"

lemma startable_quiet:
  assumes inv: "resource_inv s" and st: "startable (entry_of s k)"
  shows "key_started s k \<subseteq> key_exited s k"
    and "\<And>e. entry_of s k = Some e \<Longrightarrow> entLeases e = {} \<and> entConnectors e = {}"
proof -
  show "key_started s k \<subseteq> key_exited s k"
    by (rule life_settled [OF inv_key(1) [OF inv]]) (use st in \<open>auto simp: startable_def\<close>)
  show "\<And>e. entry_of s k = Some e \<Longrightarrow> entLeases e = {} \<and> entConnectors e = {}"
    using no_leases [OF inv_entry(2) [OF inv]] no_connectors [OF inv_entry(2) [OF inv]] st
    by (auto simp: startable_def)
qed

lemma inv_reserve_start:
  assumes inv: "resource_inv s" and closing: "\<not> rsClosing s" and st: "startable (entry_of s k)"
    and e1: "entLeases e1 = {rsNextHandle s}" "entConnectors e1 = {}"
    and start: "startLocked o' now (alloc_lease s (new_lease k)) k e1 = Inr (t, e')"
  shows "resource_inv (put_entry t k e')"
proof -
  note bare = startable_quiet(2) [OF inv st]
  have no_handles: "(case entry_of s k of Some e \<Rightarrow> entLeases e | None \<Rightarrow> {}) = {}"
    "(case entry_of s k of Some e \<Rightarrow> entConnectors e | None \<Rightarrow> {}) = {}"
    using bare by (auto split: option.split)
  have hd0: "handles_ok False k (entry_of s k) (rsLeases s) (rsConnectors s)"
    using inv_key(2) [OF inv, of k] closing by simp
  have life0: "life_ok False k (entry_of s k) (key_workers s k) (key_started s k) (key_exited s k)"
    using inv_key(1) [OF inv, of k] closing by simp
  let ?ghost = "e1\<lparr>entState := StateStopping\<rparr>"
  have hd: "handles_ok False k (Some ?ghost) ((rsLeases s)(rsNextHandle s \<mapsto> new_lease k)) (rsConnectors s)"
    by (rule handles_add_lease [OF hd0 handle_fresh [OF inv]])
      (use bare e1 in \<open>simp_all add: no_handles entry_lease_ok_def\<close>)
  show ?thesis
    by (rule inv_start [OF inv closing local_alloc [OF inv], where eo = "entry_of s k" and e = ?ghost and ?e1.0 = e1])
      (use startable_quiet(1) [OF inv st] st start e1 life0 hd in \<open>auto simp: rs_simps startable_def\<close>)
qed

lemma inv_reserve_refused:
  assumes inv: "resource_inv s" and st: "startable (entry_of s k)"
    and e: "entry_of s k = Some e \<or> entry_of s k = None \<and> cold_deletable e"
    and x: "leaseKey x = k" "lease_ok x" "leaseState x = LeaseClosed"
  shows "resource_inv (deleteColdEntryLocked (alloc_lease s x) k e)"
  using e
proof
  note hd = handles_add_closed [OF inv_key(2) [OF inv] handle_fresh [OF inv] x(3)]
  assume e: "entry_of s k = Some e"
  have "resource_inv (put_entry (alloc_lease s x) k e)"
    by (rule inv_alloc_put [OF inv x(1,2) e refl inv_entry(1) [OF inv e]]) (use hd [of k] e in simp)
  then show ?thesis by (rule inv_delete_cold)
next
  note hd = handles_add_closed [OF inv_key(2) [OF inv] handle_fresh [OF inv] x(3)]
  assume e: "entry_of s k = None \<and> cold_deletable e"
  have "resource_inv (del_entry (alloc_lease s x) k)"
    by (rule inv_after [OF inv local_del [OF local_alloc [OF inv x(1,2)]]])
      (use inv_key(3) [OF inv] inv_key(1) [OF inv, of k] hd [of k] e inv_tables(1) [OF inv] in
        \<open>auto simp: rs_simps\<close>)
  with e show ?thesis by (simp add: deleteColdEntryLocked_def)
qed

lemma inv_reserve:
  assumes inv: "resource_inv s" and res: "reserveLocked o' now s k idle = (t, res)"
  shows "resource_inv t"
proof (cases "t = s")
  case False
  let ?l = "rsNextHandle s"
  from res False obtain e0 where closing: "\<not> rsClosing s" and e0: "entryWithIdleLocked now s k idle = Inr e0"
    and chk: "reserve_check now e0 = None"
    by (auto simp: reserveLocked_def split: if_splits sum.splits option.splits)
  define e where "e = reserve_wake now e0"
  define e1 where "e1 = e\<lparr>entLeases := insert ?l (entLeases e)\<rparr>"
  have src: "entry_of s k = Some e0 \<or> entry_of s k = None \<and> e0 = new_entry idle now"
    using e0 by (auto simp: entryWithIdleLocked_def split: option.splits if_splits)
  have body: "reserveLocked o' now s k idle =
     (case entState e of
        StateReady \<Rightarrow> (put_entry (alloc_lease s (activateLeaseLocked (entGeneration e) (new_lease k))) k e1, Inr ?l)
      | StateStarting \<Rightarrow>
          (put_entry (alloc_lease s ((new_lease k)\<lparr>leaseGeneration := entGeneration e\<rparr>)) k e1, Inr ?l)
      | StateStopping \<Rightarrow> (put_entry (alloc_lease s (new_lease k)) k e1, Inr ?l)
      | _ \<Rightarrow>
          (case startLocked o' now (alloc_lease s (new_lease k)) k e1 of
             Inr (s2, e2) \<Rightarrow> (put_entry s2 k e2, Inr ?l)
           | Inl err \<Rightarrow>
               (deleteColdEntryLocked (alloc_lease s (closeLeaseLocked (Some err) True (new_lease k))) k e, Inl err)))"
    using closing e0 chk
    by (simp add: reserveLocked_def Let_def on_leases_alloc e_def e1_def split: resource_phase.split sum.split)
  have wake: "entGeneration e = entGeneration e0" "entInstance e = entInstance e0" "entReaped e = entReaped e0"
      "entStartPending e = entStartPending e0" "entLeases e = entLeases e0" "entConnectors e = entConnectors e0"
      "entState e = (if entState e0 = StateIdle then StateReady else entState e0)"
      "entState e0 \<noteq> StateIdle \<Longrightarrow> e = e0"
    by (simp_all add: e_def reserve_wake_def cancelIdleLocked_def)
  consider (join) "entry_of s k = Some e0" "entState e \<in> {StateReady, StateStarting, StateStopping}"
    | (start) "startable (entry_of s k)" "entState e \<in> {StateCold, StateFailed}" "e = e0"
  proof (cases "entry_of s k = Some e0 \<and> entState e \<in> {StateReady, StateStarting, StateStopping}")
    case False
    from src show ?thesis
    proof
      assume k: "entry_of s k = Some e0"
      with False have "entState e0 \<in> {StateCold, StateFailed}" using wake(7) by (cases "entState e0") auto
      moreover have "entState e0 = StateCold \<Longrightarrow> entInstance e0 = None \<and> \<not> entStartPending e0"
        using phase_okD(7) [OF inv_entry(3) [OF inv k]] closing by auto
      ultimately show ?thesis using k chk wake that(2) by (auto simp: startable_def reserve_check_def split: if_splits)
    qed (use wake that(2) in \<open>auto simp: startable_def new_entry_def\<close>)
  qed (use that in blast)
  then show ?thesis
  proof cases
    case join
    have "resource_inv (put_entry (alloc_lease s x) k e1)"
      if "leaseKey x = k" "lease_ok x" "entry_lease_ok e1 x" for x
      by (rule inv_reserve_join [OF inv closing join(1) _ _ _ _ _ _ _ that]) (use wake in \<open>auto simp: e1_def\<close>)
    from this [of "new_lease k"] this [of "(new_lease k)\<lparr>leaseGeneration := entGeneration e\<rparr>"]
      this [of "activateLeaseLocked (entGeneration e) (new_lease k)"]
    show ?thesis using join(2) res body
      by (auto simp: lease_ok_activate entry_lease_ok_def e1_def) (simp_all add: new_lease_def lease_ok_def)
  next
    case start
    have bare: "entLeases e = {}" "entConnectors e = {}"
      using startable_quiet(2) [OF inv start(1)] src start(3) by (auto simp: new_entry_def)
    have "entry_of s k = Some e \<or> entry_of s k = None \<and> cold_deletable e"
      using src start(3) by (auto simp: new_entry_def cold_deletable_def)
    then have refused: "resource_inv (deleteColdEntryLocked (alloc_lease s (closeLeaseLocked c b (new_lease k))) k e)" for c b
      by (rule inv_reserve_refused [OF inv start(1)]) (simp_all add: lease_ok_close)
    have started: "resource_inv (put_entry u k e2)"
      if "startLocked o' now (alloc_lease s (new_lease k)) k e1 = Inr (u, e2)" for u e2
      by (rule inv_reserve_start [OF inv closing start(1) _ _ that]) (simp_all add: e1_def bare)
    show ?thesis using res body start(2) refused started
      by (auto split: sum.splits)
  qed
qed (use inv in simp)

lemma inv_Acquire:
  assumes inv: "resource_inv s" and acq: "AcquireWithPolicy o' now ctxErr s k idle = (t, res)"
  shows "resource_inv t"
  using acq inv by (auto simp: AcquireWithPolicy_def Let_def split: if_splits option.splits intro: inv_reserve)

end
