(* ===== verification/Resource_Preserve_Workers.thy ===== *)
theory Resource_Preserve_Workers
  imports Resource_Preserve_Start
begin

text \<open>
  The invariant through the critical sections of the registry's workers: the return of the
  factory, publication, failed starts, exits, stops and detached instances.
\<close>

section \<open>Replacing a worker\<close>

definition swap_workers :: "worker \<Rightarrow> worker set \<Rightarrow> resource_state \<Rightarrow> resource_state" where
  "swap_workers w A s = s\<lparr>rsWorkers := A \<union> (rsWorkers s - {w})\<rparr>"

lemma swap_workers_eq:
  "end_worker w s = swap_workers w {} s" "add_worker a (swap_workers w A s) = swap_workers w (insert a A) s"
  by (simp_all add: swap_workers_def end_worker_def add_worker_def)

lemma swap_fields [rs_simps]:
  "rsEntries (swap_workers w A s) = rsEntries s" "rsNextGeneration (swap_workers w A s) = rsNextGeneration s"
  "rsClosing (swap_workers w A s) = rsClosing s" "rsShutdownWait (swap_workers w A s) = rsShutdownWait s"
  "rsShutdownDone (swap_workers w A s) = rsShutdownDone s" "rsLeases (swap_workers w A s) = rsLeases s"
  "rsConnectors (swap_workers w A s) = rsConnectors s" "rsNextHandle (swap_workers w A s) = rsNextHandle s"
  "rsStarted (swap_workers w A s) = rsStarted s" "rsExited (swap_workers w A s) = rsExited s"
  "rsWorkers (swap_workers w A s) = A \<union> (rsWorkers s - {w})"
  "key_started (swap_workers w A s) k = key_started s k" "key_exited (swap_workers w A s) k = key_exited s k"
  by (simp_all add: swap_workers_def key_started_def key_exited_def)

lemma key_workers_swap:
  "(\<And>a. a \<in> A \<Longrightarrow> worker_key a = k) \<Longrightarrow> key_workers (swap_workers w A s) k = A \<union> (key_workers s k - {w})"
  by (auto simp: key_workers_def swap_workers_def)

lemma local_swap [local_intros]:
  assumes "local_to k s t" "worker_key w = k" "\<And>a. a \<in> A \<Longrightarrow> worker_key a = k"
  shows "local_to k s (swap_workers w A t)"
proof -
  have "key_workers (swap_workers w A t) k' = key_workers t k'" if "k' \<noteq> k" for k'
    using that assms(2,3) by (auto simp: key_workers_def swap_workers_def)
  with assms(1) show ?thesis by (simp add: local_to_def same_key_def tables_ok_def rs_simps)
qed

lemma swap_commute:
  "add_worker a (put_entry s k e) = put_entry (add_worker a s) k e"
  "add_worker a (del_entry s k) = del_entry (add_worker a s) k"
  "add_worker a (on_leases L f s) = on_leases L f (add_worker a s)"
  "cancel_start_context (swap_workers w A s) g c = swap_workers w A (cancel_start_context s g c)"
  "rsShutdownErrors_update u (swap_workers w A s) = swap_workers w A (rsShutdownErrors_update u s)"
  "start_cause (swap_workers w A s) g = start_cause s g"
proof -
  show cause: "start_cause (swap_workers w A s) g = start_cause s g"
    by (simp add: start_cause_def swap_workers_def)
  show "cancel_start_context (swap_workers w A s) g c = swap_workers w A (cancel_start_context s g c)"
    unfolding cancel_start_context_def cause by (simp add: swap_workers_def)
qed (simp_all add: add_worker_def put_entry_def del_entry_def on_leases_def swap_workers_def cong: if_cong)

section \<open>Starts that return\<close>

lemma start_worker_entry:
  assumes inv: "resource_inv s" and w: "w \<in> rsWorkers s" "worker_key w = k" "start_of w = Some g"
  obtains e where "entry_of s k = Some e" "entGeneration e = g" "entStartPending e" "entConnectors e = {}"
    "entState e \<in> {StateStarting, StateFailed, StateCold}"
proof -
  have "w \<in> key_workers s k" using w by (simp add: key_workers_def)
  from life_okD(6) [OF inv_key(1) [OF inv] this w(3)] obtain e
    where e: "entry_of s k = Some e" "entGeneration e = g" "entStartPending e" by blast
  moreover have "entState e \<in> {StateStarting, StateFailed, StateCold}"
    using phase_okD(2-4) [OF inv_entry(3) [OF inv e(1)]] e(3) by (cases "entState e") auto
  ultimately show ?thesis
    using that no_connectors [OF inv_entry(2) [OF inv e(1)]] by force
qed

text \<open>The worker of a start is replaced by the worker of its next stage.\<close>

lemma inv_stage:
  assumes inv: "resource_inv s" and w: "w \<in> rsWorkers s" "worker_key w = k" "start_of w = Some g"
    and w': "worker_key w' = k" "start_of w' = Some g" "\<And>h. w' \<noteq> WStart k h"
      "\<And>c i. w' = WCleanup k g c i \<Longrightarrow> i = (if g \<in> key_started t k then Some g else None)"
      "holds_instance w' = (if g \<in> key_started t k then Some g else None)"
    and hold: "\<And>h. holds_instance w = Some h \<Longrightarrow> h = g \<and> g \<in> key_started s k"
    and t: "local_to k s t" "rsWorkers t = insert w' (rsWorkers s - {w})" "rsEntries t = rsEntries s"
      "rsLeases t = rsLeases s" "rsConnectors t = rsConnectors s" "rsNextGeneration t = rsNextGeneration s"
      "key_started t k \<in> {key_started s k, insert g (key_started s k)}"
      "key_exited s k \<subseteq> key_exited t k" "key_exited t k \<subseteq> insert g (key_exited s k)" "key_exited t k \<subseteq> key_started t k"
  shows "resource_inv t"
proof -
  obtain e where e: "entry_of s k = Some e" "entGeneration e = g"
    using start_worker_entry [OF inv w] by blast
  have W: "key_workers t k = insert w' (key_workers s k - {w})" "w \<in> key_workers s k"
    using t(2) w w'(1) by (auto simp: key_workers_def)
  have life: "life_ok (rsClosing s) k (entry_of s k) (insert w' (key_workers s k - {w})) (key_started t k) (key_exited t k)"
    by (rule life_start_stage [OF inv_key(1) [OF inv] W(2) w(3) w'(1,2) _ t(7-10) w'(4,5)])
      (use w'(3) hold in auto)
  have bound: "h \<le> rsNextGeneration s" if "h \<in> key_started t k" for h
    using that t(7) inv_key(3) [OF inv, of h k] inv_key(4) [OF inv e(1)] e(2) by auto
  show ?thesis
    by (rule inv_after [OF inv t(1)])
      (use life W(1) t(3-6) inv_key(2) [OF inv, of k] bound inv_key(4) [OF inv] inv_tables(4) [OF inv] w(1) in auto)
qed

lemma start_error_None: "start_error s g r = None \<Longrightarrow> srInstance r \<and> \<not> srExited r"
  by (auto simp: start_error_def split: option.splits if_splits)

lemma inv_startReturned:
  assumes inv: "resource_inv s" and w: "WStart k g \<in> rsWorkers s"
  shows "resource_inv (startReturned s k g r)"
proof -
  define w' where "w' = (case start_error s g r of
      Some e \<Rightarrow> WCleanup k g e (if srInstance r then Some g else None) | None \<Rightarrow> WPublish k g)"
  define t where "t = s\<lparr>rsWorkers := insert w' (rsWorkers s - {WStart k g}),
      rsStarted := (if srInstance r then insert (k, g) (rsStarted s) else rsStarted s),
      rsExited := (if srInstance r \<and> srExited r then insert (k, g) (rsExited s) else rsExited s)\<rparr>"
  have t: "startReturned s k g r = t"
    by (simp add: startReturned_def t_def w'_def Let_def add_worker_def end_worker_def split: option.split)
  have fresh: "g \<notin> key_started s k"
    using life_okD(10) [OF inv_key(1) [OF inv, of k], of g] w by (simp add: key_workers_def)
  have S: "key_started t k = (if srInstance r then insert g (key_started s k) else key_started s k)"
    "key_exited t k = (if srInstance r \<and> srExited r then insert g (key_exited s k) else key_exited s k)"
    by (auto simp: key_started_def key_exited_def t_def)
  have tf: "rsWorkers t = insert w' (rsWorkers s - {WStart k g})" "rsEntries t = rsEntries s"
      "rsLeases t = rsLeases s" "rsConnectors t = rsConnectors s" "rsNextGeneration t = rsNextGeneration s"
    by (simp_all add: t_def)
  have kw: "worker_key w' = k" by (simp add: w'_def split: option.split)
  have "same_key s t k'" if "k' \<noteq> k" for k'
    using that kw by (auto simp: same_key_def t_def key_workers_def key_started_def key_exited_def)
  then have loc: "local_to k s t" using local_refl [OF inv, of k] by (simp add: local_to_def t_def tables_ok_def)
  show ?thesis unfolding t
    by (rule inv_stage [OF inv w _ _ kw _ _ _ _ _ loc tf])
      (use fresh life_okD(14) [OF inv_key(1) [OF inv, of k]] start_error_None [of s g r] in
        \<open>auto simp: S w'_def split: option.splits\<close>)
qed

section \<open>Publication\<close>

text \<open>The worker of a start ends, its entry moves on and its leases are updated by \<open>f\<close>.\<close>

lemma inv_end_start:
  assumes inv: "resource_inv s" and w: "w \<in> rsWorkers s" "worker_key w = k" "start_of w = Some g"
    and hold: "\<And>h. holds_instance w = Some h \<Longrightarrow> h = g"
    and A: "\<And>a. a \<in> A \<Longrightarrow> worker_key a = k \<and> start_of a = None \<and> (\<forall>h i. a \<noteq> WStop k h i) \<and>
        (\<forall>h. holds_instance a = Some h \<longrightarrow> h \<in> key_started s k)"
    and e: "entry_of s k = Some e"
    and e': "phase_ok (rsClosing s) e'" "entGeneration e' = g" "entState e' \<noteq> StateStopping"
      "entStartPending e' \<Longrightarrow> rsClosing s" "entReaped e' \<Longrightarrow> g \<in> key_exited s k"
    and live: "g \<in> key_started s k \<Longrightarrow> g \<notin> key_exited s k \<Longrightarrow>
        (entStartPending e' \<or> entInstance e' = Some g) \<and> (\<exists>a \<in> A. holds_instance a = Some g)"
    and f: "\<And>l x. l \<in> entLeases e \<Longrightarrow> rsLeases s l = Some x \<Longrightarrow>
        leaseKey (f x) = leaseKey x \<and> (lease_ok x \<longrightarrow> lease_ok (f x))"
    and hd: "handles_ok (rsClosing s) k (Some e') (mapped (entLeases e) f (rsLeases s)) (rsConnectors s)"
  shows "resource_inv (put_entry (on_leases (entLeases e) f (swap_workers w A s)) k e')"
proof (rule inv_after [OF inv, of k])
  have keyA: "\<And>a. a \<in> A \<Longrightarrow> worker_key a = k" using A by blast
  have W: "key_workers (swap_workers w A s) k = A \<union> (key_workers s k - {w})" "w \<in> key_workers s k"
    using A w by (auto simp: key_workers_def rs_simps)
  show "local_to k s (put_entry (on_leases (entLeases e) f (swap_workers w A s)) k e')"
  proof (intro local_put local_leases)
    show "local_to k s (swap_workers w A s)" by (intro local_swap local_refl inv w(2) keyA)
    fix l x assume l: "l \<in> entLeases e" and "rsLeases (swap_workers w A s) l = Some x"
    then have x: "rsLeases s l = Some x" by (simp add: rs_simps)
    show "leaseKey x = k \<and> leaseKey (f x) = k \<and> (lease_ok x \<longrightarrow> lease_ok (f x))"
      using f [OF l x] entry_lease_key(1) [OF inv e l x] by simp
  qed
  have "life_ok (rsClosing s) k (Some e') (A \<union> (key_workers s k - {w})) (key_started s k) (key_exited s k)"
    by (rule life_end_start [OF inv_entry(1) [OF inv e] W(2) w(3) hold]) (use A e' live in auto)
  then show "life_ok (rsClosing s) k (entry_of (put_entry (on_leases (entLeases e) f (swap_workers w A s)) k e') k)
      (key_workers (put_entry (on_leases (entLeases e) f (swap_workers w A s)) k e') k)
      (key_started (put_entry (on_leases (entLeases e) f (swap_workers w A s)) k e') k)
      (key_exited (put_entry (on_leases (entLeases e) f (swap_workers w A s)) k e') k)"
    by (simp add: rs_simps W(1))
  have "entGeneration e = g" using start_worker_entry [OF inv w] e by auto
  then show "\<And>a. entry_of (put_entry (on_leases (entLeases e) f (swap_workers w A s)) k e') k = Some a \<Longrightarrow>
      entGeneration a \<le> rsNextGeneration (put_entry (on_leases (entLeases e) f (swap_workers w A s)) k e')"
    using inv_key(4) [OF inv e] e'(2) by (simp add: rs_simps)
qed (use hd inv_key(3) [OF inv] inv_tables(4) [OF inv] w(1) in \<open>auto simp: rs_simps\<close>)

lemma on_leases_none [simp]: "on_leases {} f s = s"
  by (simp add: on_leases_def)

lemma mapped_id: "mapped A (\<lambda>x. x) m = m"
  by (simp add: mapped_def fun_eq_iff option.map_ident)

lemma on_leases_id: "on_leases A (\<lambda>x. x) s = s"
  by (simp add: on_leases_def option.map_ident cong: if_cong)

lemma put_same: "entry_of s k = Some e \<Longrightarrow> put_entry s k e = s"
proof -
  have "map_of al k = Some e \<Longrightarrow> AList.update k e al = al" for al by (induction al) auto
  then show "entry_of s k = Some e \<Longrightarrow> put_entry s k e = s" by (simp add: put_entry_def)
qed

lemma inv_to_cleanup:
  assumes inv: "resource_inv s" and w: "WPublish k g \<in> rsWorkers s"
  shows "resource_inv (swap_workers (WPublish k g) {WCleanup k g c (Some g)} s)"
proof (rule inv_stage [OF inv w])
  have S: "g \<in> key_started s k"
    using life_okD(7) [OF inv_key(1) [OF inv, of k], of "WPublish k g" g] w by (simp add: key_workers_def)
  show "local_to k s (swap_workers (WPublish k g) {WCleanup k g c (Some g)} s)"
    by (intro local_intros local_refl inv) auto
qed (use life_okD(7) [OF inv_key(1) [OF inv, of k], of "WPublish k g" g] w
      life_okD(14) [OF inv_key(1) [OF inv, of k]] in \<open>auto simp: rs_simps key_workers_def\<close>)

lemma activate_opening_key [simp]: "leaseKey (activate_opening g x) = leaseKey x"
  by (simp add: activate_opening_def)

lemma lease_ok_activate_opening: "lease_ok x \<Longrightarrow> lease_ok (activate_opening g x)"
  by (simp add: activate_opening_def lease_ok_activate)

lemma inv_publish_ready:
  assumes inv: "resource_inv s" and w: "WPublish k g \<in> rsWorkers s"
    and e: "entry_of s k = Some e" "entGeneration e = g" "entState e = StateStarting" and closing: "\<not> rsClosing s"
    and e': "entGeneration e' = g" "\<not> entStartPending e'" "entInstance e' = Some g" "entReaped e' = entReaped e"
      "entLeases e' = entLeases e" "entConnectors e' = entConnectors e" "entState e' = StateReady"
  shows "resource_inv (put_entry (on_leases (entLeases e) (activate_opening g) (swap_workers (WPublish k g) {WWatch k g} s))
     k (maybeIdleLocked now e'))"
proof (rule inv_end_start [OF inv w _ _ _ _ e(1)])
  note hd = inv_entry(2) [OF inv e(1)]
  have bare: "entConnectors e = {}" using no_connectors [OF hd] e(3) by simp
  have ready: "handles_ok (rsClosing s) k (Some e') (mapped (entLeases e) (activate_opening g) (rsLeases s)) (rsConnectors s)"
    by (rule handles_carry [OF hd])
      (use e e' bare in \<open>auto simp: entry_lease_ok_def activate_opening_def\<close>)
  show "handles_ok (rsClosing s) k (Some (maybeIdleLocked now e'))
      (mapped (entLeases e) (activate_opening g) (rsLeases s)) (rsConnectors s)"
    using maybeIdle_cases(1) [of now e']
  proof
    assume idle: "entState e' = StateReady \<and> entLeases e' = {} \<and> entConnectors e' = {} \<and>
        entState (maybeIdleLocked now e') = StateIdle"
    show ?thesis by (rule handles_bare [OF ready]) (use idle in \<open>auto simp: maybeIdle_cases(2,3)\<close>)
  qed (use ready in simp)
  have "g \<in> key_started s k"
    using life_okD(7) [OF inv_key(1) [OF inv, of k], of "WPublish k g" g] w by (simp add: key_workers_def)
  then show "worker_key a = k \<and> start_of a = None \<and> (\<forall>h i. a \<noteq> WStop k h i) \<and>
      (\<forall>h. holds_instance a = Some h \<longrightarrow> h \<in> key_started s k)" if "a \<in> {WWatch k g}" for a
    using that by simp
  show "phase_ok (rsClosing s) (maybeIdleLocked now e')" "entState (maybeIdleLocked now e') \<noteq> StateStopping"
    using maybeIdle_cases(1) [of now e'] e' by (auto simp: phase_ok_def maybeIdle_cases(2-))
  show "entReaped (maybeIdleLocked now e') \<Longrightarrow> g \<in> key_exited s k"
    using life_okD(2) [OF inv_entry(1) [OF inv e(1)] refl] e e' by (simp add: maybeIdle_cases(7))
qed (use e' in \<open>auto simp: maybeIdle_cases(2-) lease_ok_activate_opening\<close>)

lemma inv_publishStart:
  assumes inv: "resource_inv s" and w: "WPublish k g \<in> rsWorkers s"
  shows "resource_inv (publishStart o' now s k g)"
proof -
  obtain e where e: "entry_of s k = Some e" "entGeneration e = g" "entStartPending e"
    using start_worker_entry [OF inv w, of k g] by auto
  define cancelled where "cancelled = (\<lambda>c. if entStartCancel e then cancel_start_context s g c else s)"
  have cancelled: "resource_inv (cancelled c)" "entry_of (cancelled c) k = Some e" "rsClosing (cancelled c) = rsClosing s"
    "WPublish k g \<in> rsWorkers (cancelled c)" "rsExited (cancelled c) = rsExited s"
    for c using inv w e(1) by (simp_all add: cancelled_def rs_simps)
  have S: "g \<in> key_started s k"
    using life_okD(7) [OF inv_key(1) [OF inv, of k], of "WPublish k g" g] w by (simp add: key_workers_def)
  consider (failed) "entState e \<noteq> StateStarting" | (closing) "entState e = StateStarting" "rsClosing s"
    | (late) "entState e = StateStarting" "\<not> rsClosing s" "entStartDeadline e \<le> now"
    | (ready) "entState e = StateStarting" "\<not> rsClosing s" "\<not> entStartDeadline e \<le> now" by blast
  then show ?thesis
  proof cases
    case failed
    with e inv_to_cleanup [OF inv w] show ?thesis
      by (simp add: publishStart_def swap_workers_eq rs_simps)
  next
    case closing
    have "resource_inv (put_entry (on_leases (entLeases e) (\<lambda>x. x) (swap_workers (WPublish k g) {WDetach k g} s)) k e)"
      by (rule inv_end_start [OF inv w _ _ _ _ e(1) inv_entry(3) [OF inv e(1)] e(2)])
        (use closing e S life_okD(2) [OF inv_entry(1) [OF inv e(1)] refl] inv_entry(2) [OF inv e(1)] in
          \<open>auto simp: mapped_id\<close>)
    with closing e show ?thesis
      by (simp add: publishStart_def swap_workers_eq rs_simps on_leases_id put_same)
  next
    case late
    let ?t = "swap_workers (WPublish k g) {WCleanup k g DeadlineExceeded (Some g)} s"
    have "entry_of ?t k = Some e" using e(1) by (simp add: rs_simps)
    from inv_timeoutStart [OF inv_to_cleanup [OF inv w] this late(1) refl refl refl refl refl refl refl]
    have "resource_inv (case timeoutStartLocked o' now ?t e of (s', e') \<Rightarrow> put_entry s' k e')" .
    with late e show ?thesis
      by (cases "entStartCancel e")
        (simp_all add: publishStart_def swap_workers_eq swap_commute rs_simps timeoutStartLocked_def
          cancelStartLocked_def invalidateLeasesLocked_def Let_def failLocked_fields)
  next
    case ready
    define e' where "e' = scheduleStableResetLocked (snd (cancelStartLocked s e ContextCanceled)
        \<lparr>entStartPending := False, entInstance := Some g, entReadyAt := now, entRetryDeadline := zero_time,
         entUpdatedAt := now, entState := StateReady\<rparr>)"
    have "resource_inv (put_entry (on_leases (entLeases e) (activate_opening g)
        (swap_workers (WPublish k g) {WWatch k g} (cancelled ContextCanceled))) k (maybeIdleLocked now e'))"
      by (rule inv_publish_ready [OF cancelled(1,4,2) e(2) ready(1)])
        (use ready cancelled e in \<open>simp_all add: e'_def scheduleStableResetLocked_def cancelStableResetLocked_def cancelStartLocked_def\<close>)
    moreover have "entLeases e' = entLeases e"
      by (simp add: e'_def scheduleStableResetLocked_def cancelStableResetLocked_def cancelStartLocked_def)
    ultimately show ?thesis using ready e
      by (simp add: publishStart_def swap_workers_eq swap_commute rs_simps cancelStartLocked_def Let_def
          cancelled_def e'_def split: if_splits)
  qed
qed

end
