(* ===== verification/Resource_Preserve_Stop.thy ===== *)
theory Resource_Preserve_Stop
  imports Resource_Preserve_Workers
begin

text \<open>
  The invariant through failed starts, unexpected exits, completed stops and detached instances.
\<close>

section \<open>What a stop observes\<close>

lemma stopInstance_reaped:
  "observes s k i obs \<Longrightarrow> soReaped (stopInstance i obs) \<Longrightarrow> i = None \<or> done_observed s k i"
  by (auto simp: stopInstance_def observes_def Let_def split: if_splits)

lemma stopInstance_None [simp]: "soReaped (stopInstance None obs)"
  by (simp add: stopInstance_def)

lemma observeReap_reaped: "soReaped (observeReap d out) \<longleftrightarrow> soReaped out \<or> d"
  by (simp add: observeReap_def)

definition noted :: "resource_error option \<Rightarrow> resource_state \<Rightarrow> resource_state" where
  "noted oe s = (case oe of
     Some err \<Rightarrow> if rsClosing s then s\<lparr>rsShutdownErrors := rsShutdownErrors s @ [err]\<rparr> else s
   | None \<Rightarrow> s)"

lemma noted_fields [rs_simps]:
  "rsEntries (noted oe s) = rsEntries s" "rsClosing (noted oe s) = rsClosing s"
  "rsWorkers (noted oe s) = rsWorkers s" "rsStarted (noted oe s) = rsStarted s" "rsExited (noted oe s) = rsExited s"
  "rsLeases (noted oe s) = rsLeases s" "rsConnectors (noted oe s) = rsConnectors s"
  "rsNextGeneration (noted oe s) = rsNextGeneration s"
  "rsShutdownDone (noted oe s) = rsShutdownDone s"
  "key_exited (noted oe s) k = key_exited s k" "key_started (noted oe s) k = key_started s k"
  "key_workers (noted oe s) k = key_workers s k"
  by (auto simp: noted_def key_exited_def key_started_def key_workers_def split: option.split)

lemma inv_noted [simp]: "resource_inv (noted oe s) = resource_inv s"
  by (simp add: noted_def split: option.split)

lemma noted_swap: "noted oe (swap_workers w A s) = swap_workers w A (noted oe s)"
  by (simp add: noted_def rs_simps swap_commute(5) split: option.split) (simp add: swap_workers_def)

section \<open>Failed starts\<close>

lemma delete_commute:
  "add_worker a (deleteColdEntryLocked s k e) = deleteColdEntryLocked (add_worker a s) k e"
  "add_worker a (deleteFailedEntryLocked now s k e) = deleteFailedEntryLocked now (add_worker a s) k e"
  by (simp_all add: deleteColdEntryLocked_def deleteFailedEntryLocked_def swap_commute)

lemma inv_cleanup_put:
  assumes inv: "resource_inv s" and w: "WCleanup k g cause i \<in> rsWorkers s" and e: "entry_of s k = Some e"
    and reaped: "reaped \<Longrightarrow> i = None \<or> g \<in> key_exited s k" "\<not> reaped \<Longrightarrow> i \<noteq> None \<Longrightarrow> A = {WReap k g}"
    and A: "A \<subseteq> {WReap k g}" "A \<noteq> {} \<Longrightarrow> i \<noteq> None"
    and e': "entGeneration e' = g" "\<not> entStartPending e'" "entInstance e' = (if reaped then None else i)"
      "entReaped e' = entReaped e" "entLeases e' = {}" "entConnectors e' = {}"
      "entState e' = StateFailed \<or> entState e' = StateCold \<and> rsClosing s \<and> reaped"
  shows "resource_inv (put_entry (on_leases (entLeases e) (closeLeaseLocked c b) (swap_workers (WCleanup k g cause i) A s)) k e')"
proof (rule inv_end_start [OF inv w _ _ _ _ e])
  have W: "WCleanup k g cause i \<in> key_workers s k" using w by (simp add: key_workers_def)
  note i = life_okD(11) [OF inv_key(1) [OF inv] W]
  obtain e0 where e0: "entry_of s k = Some e0" "entGeneration e0 = g" "entConnectors e0 = {}"
    using start_worker_entry [OF inv w, of k g] by auto
  have bare: "entConnectors e = {}" "entGeneration e = g" using e0 e by simp_all
  show "handles_ok (rsClosing s) k (Some e') (mapped (entLeases e) (closeLeaseLocked c b) (rsLeases s)) (rsConnectors s)"
    by (rule handles_cleared [OF inv_entry(2) [OF inv e]]) (use bare e' in auto)
  show "worker_key a = k \<and> start_of a = None \<and> (\<forall>h j. a \<noteq> WStop k h j) \<and>
      (\<forall>h. holds_instance a = Some h \<longrightarrow> h \<in> key_started s k)" if "a \<in> A" for a
    using that A i by (auto split: if_splits)
  show "phase_ok (rsClosing s) e'" using e' i by (auto simp: phase_ok_def)
  show "entReaped e' \<Longrightarrow> g \<in> key_exited s k"
    using life_okD(2) [OF inv_entry(1) [OF inv e] refl] bare e'(4) by simp
  show "(entStartPending e' \<or> entInstance e' = Some g) \<and> (\<exists>a \<in> A. holds_instance a = Some g)"
    if "g \<in> key_started s k" "g \<notin> key_exited s k"
    using that reaped i e'(3) by (cases reaped) auto
  show "holds_instance (WCleanup k g cause i) = Some h \<Longrightarrow> h = g" for h using i by (simp split: if_splits)
qed (use e' lease_ok_close in auto)

text \<open>The branches of \<open>completeStartFailure\<close> on the entry \<open>e\<close> of the pending start.\<close>

lemma completeStartFailure_shape:
  assumes e: "entry_of s k = Some e" "entGeneration e = g" "entStartPending e" "entConnectors e = {}"
    and quiet: "entState e \<noteq> StateStarting \<or> rsClosing s \<Longrightarrow> entLeases e = {}"
    and failed: "entState e \<noteq> StateStarting \<Longrightarrow> \<not> rsClosing s \<Longrightarrow> entState e = StateFailed"
    and out: "out = (if i \<noteq> None then observeReap (done_observed s k i) cleanup else cleanup)"
  shows "\<exists>u e' c. (u = s \<or> u = cancel_start_context s g cause) \<and>
     completeStartFailure o' now s k g cause i cleanup \<in>
       (let t = on_leases (entLeases e) (closeLeaseLocked c True) (noted (stopOutcome_Error out) u)
        in {put_entry t k e', deleteColdEntryLocked t k e', deleteFailedEntryLocked now t k e'}) \<and>
     entGeneration e' = g \<and> \<not> entStartPending e' \<and> entInstance e' = (if soReaped out then None else i) \<and>
     entReaped e' = entReaped e \<and> entLeases e' = {} \<and> entConnectors e' = {} \<and>
     (entState e' = StateFailed \<or> entState e' = StateCold \<and> rsClosing s \<and> soReaped out)"
proof -
  define wasStarting where "wasStarting = (entState e = StateStarting)"
  define u where "u = (if wasStarting \<and> entStartCancel e then cancel_start_context s g cause else s)"
  define e1 where "e1 = (if wasStarting then e\<lparr>entStartTimer := False, entStartCancel := False, entStartDeadline := zero_time\<rparr>
      else e)\<lparr>entInstance := (if soReaped out then None else i), entStartPending := False\<rparr>"
  have uf: "rsClosing u = rsClosing s" "done_observed u k j = done_observed s k j" for j
    by (simp_all add: u_def rs_simps done_observed_def split: option.split)
  have e1f: "entGeneration e1 = g" "\<not> entStartPending e1" "entInstance e1 = (if soReaped out then None else i)"
      "entReaped e1 = entReaped e" "entLeases e1 = entLeases e" "entConnectors e1 = {}" "entState e1 = entState e"
    using e by (simp_all add: e1_def)
  let ?err = "stopOutcome_Error out"
  let ?s = "noted ?err u"
  have body: "completeStartFailure o' now s k g cause i cleanup =
      (if rsClosing s then
         (let (s, e) = invalidateLeasesLocked ?s (e1\<lparr>entUpdatedAt := now\<rparr>) ErrShuttingDown
          in if soReaped out then deleteColdEntryLocked s k (e\<lparr>entState := StateCold\<rparr>)
             else put_entry s k
                    (e\<lparr>entState := StateFailed, entLastError := ''failed resource start could not be reaped''\<rparr>))
       else if \<not> wasStarting then
         (let e = e1\<lparr>entUpdatedAt := now\<rparr>;
              e = (if ?err \<noteq> None then e\<lparr>entLastError := ''resource start cleanup failed''\<rparr> else e)
          in if soReaped out then deleteFailedEntryLocked now ?s k e else put_entry ?s k e)
       else
         (let e = failLocked o' now e1 ''resource start failed'';
              e = (if ?err \<noteq> None then e\<lparr>entLastError := ''resource start cleanup failed''\<rparr> else e);
              (s, e) = invalidateLeasesLocked ?s e (StartError cause)
          in put_entry s k e))"
  proof -
    have c: "(if wasStarting then cancelStartLocked s e cause else (s, e)) =
        (u, if wasStarting then e\<lparr>entStartTimer := False, entStartCancel := False, entStartDeadline := zero_time\<rparr> else e)"
      using e(2) by (simp add: cancelStartLocked_def u_def)
    have o2: "(if i \<noteq> None then observeReap (done_observed u k i) cleanup else cleanup) = out"
      by (simp only: out uf)
    have n: "(case oe of Some ce \<Rightarrow> if rsClosing u then u\<lparr>rsShutdownErrors := rsShutdownErrors u @ [ce]\<rparr> else u
        | None \<Rightarrow> u) = noted oe u" for oe
      by (simp add: noted_def)
    have cl: "rsClosing (noted oe u) = rsClosing s" for oe by (simp add: rs_simps uf)
    show ?thesis
      unfolding completeStartFailure_def e(1) option.case e(2) Let_def wasStarting_def [symmetric] c prod.case
        o2 n cl e1_def [symmetric]
      using e(3) by simp
  qed
  show ?thesis
  proof (cases "rsClosing s")
    case True
    then show ?thesis
      using e1f quiet
      by (intro exI [of _ u] exI [of _ "e1\<lparr>entUpdatedAt := now, entLeases := {},
            entState := (if soReaped out then StateCold else StateFailed),
            entLastError := (if soReaped out then entLastError e1 else ''failed resource start could not be reaped'')\<rparr>"]
          exI [of _ "Some ErrShuttingDown"])
        (simp add: body invalidateLeasesLocked_def Let_def u_def)
  next
    case open_reg: False
    let ?upd = "\<lambda>e. if ?err \<noteq> None then e\<lparr>entLastError := ''resource start cleanup failed''\<rparr> else e"
    show ?thesis
    proof (cases wasStarting)
      case False
      then have "entState e = StateFailed" "entLeases e = {}" using open_reg failed quiet by (simp_all add: wasStarting_def)
      with open_reg False e1f show ?thesis
        by (intro exI [of _ u] exI [of _ "?upd (e1\<lparr>entUpdatedAt := now\<rparr>)"]) (simp add: body Let_def u_def)
    next
      case True
      with open_reg e1f show ?thesis
        by (intro exI [of _ u] exI [of _ "(?upd (failLocked o' now e1 ''resource start failed''))\<lparr>entLeases := {}\<rparr>"]
            exI [of _ "Some (StartError cause)"])
          (simp add: body Let_def u_def invalidateLeasesLocked_def failLocked_fields)
    qed
  qed
qed

lemma closing_no_leases:
  assumes "handles_ok closing k (Some e) L C" "entState e \<noteq> StateStarting" "entStartPending e" "phase_ok closing e"
  shows "entLeases e = {}"
proof -
  have "entState e \<in> {StateCold, StateIdle, StateFailed}"
    using phase_okD(2-4) [OF assms(4)] assms(2,3) by (cases "entState e") auto
  then show ?thesis by (rule no_leases [OF assms(1)])
qed

lemma inv_cleanupReturned:
  assumes inv: "resource_inv s" and w: "WCleanup k g cause i \<in> rsWorkers s" and obs: "observes s k i obs"
  shows "resource_inv (cleanupReturned o' now s k g cause i obs)"
proof -
  let ?w = "WCleanup k g cause i"
  obtain e where e: "entry_of s k = Some e" "entGeneration e = g" "entStartPending e" "entConnectors e = {}"
    and st: "entState e \<in> {StateStarting, StateFailed, StateCold}"
    using start_worker_entry [OF inv w, of k g] by auto
  define outcome where "outcome = stopInstance i obs"
  define A where "A = (if i \<noteq> None \<and> \<not> soReaped outcome then {WReap k g} else {})"
  define out where "out = (if i \<noteq> None then observeReap (done_observed s k i) outcome else outcome)"
  let ?s = "swap_workers ?w {} s"
  have i: "i = (if g \<in> key_started s k then Some g else None)"
    using life_okD(11) [OF inv_key(1) [OF inv]] w by (simp add: key_workers_def)
  have reaped: "i = None \<or> g \<in> key_exited s k" if "soReaped out"
    using that stopInstance_reaped [OF obs] i
    by (auto simp: out_def outcome_def observeReap_reaped done_observed_def key_exited_def split: if_splits)
  have less: "soReaped outcome \<Longrightarrow> soReaped out" by (simp add: out_def observeReap_reaped)
  have empty: "entLeases e = {}" if "entState e \<noteq> StateStarting \<or> rsClosing s"
    using that closing_no_leases [OF inv_entry(2) [OF inv e(1)] _ e(3) inv_entry(3) [OF inv e(1)]]
      handles_okD(6) [OF inv_entry(2) [OF inv e(1)] refl] by blast
  have cold: "entState e = StateFailed" if "entState e \<noteq> StateStarting" "\<not> rsClosing s"
    using that st e(3) phase_okD(7) [OF inv_entry(3) [OF inv e(1)]] by auto
  have "entry_of ?s k = Some e" "out = (if i \<noteq> None then observeReap (done_observed ?s k i) outcome else outcome)"
    using e(1) by (simp_all add: rs_simps out_def done_observed_def split: option.split)
  from completeStartFailure_shape [OF this(1) e(2-4) _ _ this(2), of cause o' now] empty cold obtain u e' c where
    u: "u = ?s \<or> u = cancel_start_context ?s g cause"
    and t: "completeStartFailure o' now ?s k g cause i outcome \<in>
       (let t = on_leases (entLeases e) (closeLeaseLocked c True) (noted (stopOutcome_Error out) u)
        in {put_entry t k e', deleteColdEntryLocked t k e', deleteFailedEntryLocked now t k e'})"
    and e': "entGeneration e' = g" "\<not> entStartPending e'" "entInstance e' = (if soReaped out then None else i)"
      "entReaped e' = entReaped e" "entLeases e' = {}" "entConnectors e' = {}"
      "entState e' = StateFailed \<or> entState e' = StateCold \<and> rsClosing s \<and> soReaped out"
    by (auto simp: rs_simps Let_def)
  define v where "v = noted (stopOutcome_Error out) (if u = ?s then s else cancel_start_context s g cause)"
  have v: "noted (stopOutcome_Error out) u = swap_workers ?w {} v" "resource_inv v" "entry_of v k = Some e" "?w \<in> rsWorkers v"
      "rsClosing v = rsClosing s" "key_exited v k = key_exited s k"
    using u inv e(1) w by (auto simp: v_def rs_simps swap_commute(4) noted_swap)
  have put: "resource_inv (put_entry (on_leases (entLeases e) (closeLeaseLocked c True) (swap_workers ?w A v)) k e')"
    by (rule inv_cleanup_put [OF v(2,4,3), where reaped = "soReaped out"])
      (use reaped less e' v(5,6) in \<open>auto simp: A_def\<close>)
  let ?t = "on_leases (entLeases e) (closeLeaseLocked c True) (swap_workers ?w A v)"
  have "cleanupReturned o' now s k g cause i obs =
      (if A = {} then id else add_worker (WReap k g)) (completeStartFailure o' now ?s k g cause i outcome)"
    by (simp add: cleanupReturned_def outcome_def A_def Let_def swap_workers_eq)
  also have "\<dots> \<in> {put_entry ?t k e', deleteColdEntryLocked ?t k e', deleteFailedEntryLocked now ?t k e'}"
    using t by (auto simp: Let_def v(1) A_def swap_commute delete_commute swap_workers_eq)
  finally show ?thesis using put inv_delete_cold [OF put] inv_delete_failed [OF put, of now] by auto
qed

section \<open>Exits\<close>

text \<open>A worker that watched an instance ends once the instance has exited.\<close>

lemma inv_end_watcher:
  assumes inv: "resource_inv s" and w: "worker_key w = k" "start_of w = None" "\<And>h i. w \<noteq> WStop k h i"
    and gone: "\<And>g. holds_instance w = Some g \<Longrightarrow> g \<in> key_exited s k"
  shows "resource_inv (end_worker w s)"
proof (rule inv_after [OF inv local_end_worker [OF local_refl [OF inv] w(1)]])
  have "life_ok (rsClosing s) k (entry_of s k) ({} \<union> (key_workers s k - {w})) (key_started s k) (key_exited s k)"
    by (rule life_swap [OF inv_key(1) [OF inv] w(2,3)]) (use gone in auto)
  then show "life_ok (rsClosing s) k (entry_of (end_worker w s) k) (key_workers (end_worker w s) k)
      (key_started (end_worker w s) k) (key_exited (end_worker w s) k)"
    by (simp add: rs_simps)
qed (use inv_key(2-4) [OF inv] in \<open>auto simp: rs_simps\<close>)

lemma inv_generationExited:
  assumes inv: "resource_inv s" and gone: "(k, g) \<in> rsExited s"
  shows "resource_inv (generationExited o' now s k g cause)"
proof (cases "entry_of s k")
  case None
  then show ?thesis using inv by (simp add: generationExited_def)
next
  case (Some e)
  note life = inv_entry(1) [OF inv Some] and hd = inv_entry(2) [OF inv Some] and ph = inv_entry(3) [OF inv Some]
  have X: "g \<in> key_exited s k" using gone by (simp add: key_exited_def)
  show ?thesis
  proof (cases "entGeneration e = g")
    case True
    consider (stop) "entState e = StateStopping" | (fail) "entState e = StateFailed"
      | (none) "entState e \<in> {StateCold, StateStarting}" | (up) "entState e \<in> {StateReady, StateIdle}"
      by (cases "entState e") auto
    then show ?thesis
    proof cases
      case stop
      have "resource_inv (put_entry s k (e\<lparr>entReaped := True, entUpdatedAt := now\<rparr>))"
        by (rule inv_put [OF inv Some life_update [OF life] handles_same [OF hd]])
          (use X True stop ph in \<open>auto simp: phase_ok_def\<close>)
      then show ?thesis using Some True stop by (simp add: generationExited_def)
    next
      case fail
      have "resource_inv (put_entry s k (e\<lparr>entInstance := None, entUpdatedAt := now\<rparr>))"
        by (rule inv_put [OF inv Some life_update [OF life] handles_same [OF hd]])
          (use X True fail ph in \<open>auto simp: phase_ok_def\<close>)
      then show ?thesis using Some True fail by (simp add: generationExited_def inv_delete_failed)
    next
      case none
      then show ?thesis using Some True inv by (auto simp: generationExited_def)
    next
      case up
      let ?c = "ErrResourceExited cause"
      define e' where "e' = failLocked o' now ((cancelStableResetLocked (cancelIdleLocked e))\<lparr>entInstance := None,
          entLeases := {}, entConnectors := {}\<rparr>) ''resource exited unexpectedly''"
      have f: "entGeneration e' = g" "entState e' = StateFailed" "entInstance e' = None" "entStartPending e' = entStartPending e"
          "entReaped e' = entReaped e" "entLeases e' = {}" "entConnectors e' = {}"
        using True by (simp_all add: e'_def failLocked_fields cancelStableResetLocked_def cancelIdleLocked_def)
      let ?t = "on_connectors (entConnectors e) (closeConnectorLocked (Some ?c))
          (on_leases (entLeases e) (closeLeaseLocked (Some ?c) True) s)"
      have "life_ok (rsClosing s) k (Some e') (key_workers s k) (key_started s k) (key_exited s k)"
        by (rule life_update [OF life]) (use up f X True ph in \<open>auto simp: phase_ok_def\<close>)
      moreover have "handles_ok (rsClosing s) k (Some e') (mapped (entLeases e) (closeLeaseLocked (Some ?c) True) (rsLeases s))
          (mapped (entConnectors e) (closeConnectorLocked (Some ?c)) (rsConnectors s))"
        by (rule handles_cleared [OF hd]) (use f in auto)
      moreover have "local_to k s (put_entry ?t k e')"
        by (intro local_intros local_refl inv)
          (use entry_lease_key(1) [OF inv Some] entry_connector_key [OF inv Some] lease_ok_close connector_ok_close in
            \<open>auto simp: rs_simps\<close>)
      ultimately have "resource_inv (put_entry ?t k e')"
        by (intro inv_after [OF inv, of k])
          (use f inv_key(3) [OF inv] inv_key(4) [OF inv Some] True in \<open>auto simp: rs_simps\<close>)
      then show ?thesis using Some True up
        by (auto simp: generationExited_def invalidateLeasesLocked_def invalidateConnectorsLocked_def Let_def
            e'_def cancelStableResetLocked_def cancelIdleLocked_def)
    qed
  qed (use Some inv in \<open>simp add: generationExited_def\<close>)
qed

lemma inv_watch:
  assumes inv: "resource_inv s" and "w \<in> {WReap k g, WWatch k g}" and gone: "(k, g) \<in> rsExited s"
  shows "resource_inv (generationExited o' now (end_worker w s) k g cause)"
proof -
  have "resource_inv (end_worker w s)"
    by (rule inv_end_watcher [OF inv, of _ k]) (use assms(2) gone in \<open>auto simp: key_exited_def\<close>)
  then show ?thesis by (rule inv_generationExited) (use gone in \<open>simp add: rs_simps\<close>)
qed

section \<open>Completed stops\<close>

lemma key_workers_end [rs_simps]: "key_workers (swap_workers w {} s) k = key_workers s k - {w}"
  by (rule key_workers_swap [of "{}", simplified])

lemma on_connectors_none [simp]: "on_connectors {} f s = s"
  by (simp add: on_connectors_def)

lemma stop_worker_entry:
  assumes inv: "resource_inv s" and w: "WStop k g i \<in> rsWorkers s"
  obtains e where "entry_of s k = Some e" "entGeneration e = g" "entState e = StateStopping"
    "entConnectors e = {}" "i = Some g" "\<not> entStartPending e" "entInstance e = Some g"
proof -
  have "WStop k g i \<in> key_workers s k" using w by (simp add: key_workers_def)
  from life_okD(9) [OF inv_key(1) [OF inv] this] obtain e
    where e: "entry_of s k = Some e" "entGeneration e = g" "entState e = StateStopping" "i = Some g" by blast
  with phase_okD(4) [OF inv_entry(3) [OF inv e(1)]] no_connectors [OF inv_entry(2) [OF inv e(1)]] that
  show ?thesis by simp
qed

lemma inv_end_stop:
  assumes inv: "resource_inv s" and w: "WStop k g (Some g) \<in> rsWorkers s"
    and e: "entry_of s k = Some e" "entGeneration e = g" "entState e = StateStopping"
    and e': "entGeneration e' = g" "\<not> entStartPending e'" "entState e' \<in> {StateFailed, StateCold}"
      "entReaped e' \<Longrightarrow> entReaped e" "entLeases e' = {}" "entConnectors e' = {}"
      "entInstance e' = Some g \<and> entState e' = StateFailed \<or> entInstance e' = None \<and> g \<in> key_exited s k"
  shows "resource_inv (put_entry (on_leases (entLeases e) (closeLeaseLocked c b) (swap_workers (WStop k g (Some g)) {} s)) k e')"
proof -
  let ?t = "on_leases (entLeases e) (closeLeaseLocked c b) (swap_workers (WStop k g (Some g)) {} s)"
  note life = inv_entry(1) [OF inv e(1)] and hd = inv_entry(2) [OF inv e(1)]
  have bare: "entConnectors e = {}" using no_connectors [OF hd] e(3) by simp
  have "life_ok (rsClosing s) k (Some e') (key_workers s k - {WStop k g (Some g)}) (key_started s k) (key_exited s k)"
    by (rule life_end_stop [OF life e(3,2)])
      (use e' e(2) life_okD(2) [OF life refl] in \<open>auto simp: phase_ok_def\<close>)
  moreover have "handles_ok (rsClosing s) k (Some e') (mapped (entLeases e) (closeLeaseLocked c b) (rsLeases s)) (rsConnectors s)"
    by (rule handles_cleared [OF hd]) (use bare e' in auto)
  moreover have "local_to k s (put_entry ?t k e')"
    by (intro local_intros local_refl inv)
      (use entry_lease_key(1) [OF inv e(1)] lease_ok_close in \<open>auto simp: rs_simps\<close>)
  ultimately show ?thesis
    by (intro inv_after [OF inv, of k])
      (use e' inv_key(3) [OF inv] inv_key(4) [OF inv e(1)] e(2) in \<open>auto simp: rs_simps\<close>)
qed

lemma inv_stop_restart:
  assumes inv: "resource_inv s" and closing: "\<not> rsClosing s"
    and e: "entry_of s k = Some e" "entGeneration e = g" "entState e = StateStopping" and gone: "g \<in> key_exited s k"
    and start: "startLocked o' now (swap_workers (WStop k g (Some g)) {} s) k e1 = Inr (t, e')"
    and e1: "entLeases e1 = entLeases e" "entConnectors e1 = {}"
  shows "resource_inv (put_entry t k e')"
proof -
  note life = inv_entry(1) [OF inv e(1)] and hd = inv_entry(2) [OF inv e(1)]
  have bare: "entConnectors e = {}" using no_connectors [OF hd] e(3) by simp
  let ?ghost = "e\<lparr>entState := StateFailed, entInstance := None, entReaped := False\<rparr>"
  have p: "\<not> entStartPending e" using phase_okD(4) [OF inv_entry(3) [OF inv e(1)] e(3)] by simp
  have life': "life_ok False k (Some ?ghost) (key_workers s k - {WStop k g (Some g)}) (key_started s k) (key_exited s k)"
    using life_end_stop [OF life e(3,2), of ?ghost] gone e(2) p closing by (simp add: phase_ok_def)
  have settled: "key_started s k \<subseteq> key_exited s k"
    by (rule life_settled [OF life']) (use p in simp)
  have loc: "local_to k s (swap_workers (WStop k g (Some g)) {} s)"
    by (intro local_intros local_refl inv) auto
  show ?thesis
    by (rule inv_start [OF inv closing loc _ _ _ _ settled _ _ _ _ start e1, where eo = "Some ?ghost"])
      (use life' hd bare p e(3) closing in \<open>auto simp: rs_simps\<close>)
qed

lemma inv_stopReturned:
  assumes inv: "resource_inv s" and w: "WStop k g i \<in> rsWorkers s" and obs: "observes s k i obs"
  shows "resource_inv (stopReturned o' now s k g i obs)"
proof -
  obtain e where e: "entry_of s k = Some e" "entGeneration e = g" "entState e = StateStopping"
    and e2: "entConnectors e = {}" "i = Some g" "\<not> entStartPending e" "entInstance e = Some g"
    using stop_worker_entry [OF inv w] by blast
  have w': "WStop k g (Some g) \<in> rsWorkers s" using w e2(2) by simp
  define out0 where "out0 = (if entReaped e then (stopInstance i obs)\<lparr>soReaped := True, soTimedOut := False\<rparr> else stopInstance i obs)"
  define out where "out = observeReap ((k, g) \<in> rsExited s) out0"
  define v where "v = noted (stopOutcome_Error out) s"
  let ?t = "swap_workers (WStop k g (Some g)) {} v"
  define e1 where "e1 = (if stopOutcome_Error out \<noteq> None then e\<lparr>entLastError := ''resource stop failed''\<rparr> else e)"
  define e3 where "e3 = e1\<lparr>entInstance := None, entReaped := False, entFailures := 0,
      entRetryDeadline := zero_time, entUpdatedAt := now, entState := StateCold\<rparr>"
  have gone: "g \<in> key_exited s k" if "soReaped out"
    using that stopInstance_reaped [OF obs] life_okD(2) [OF inv_entry(1) [OF inv e(1)] refl] e(2) e2(2)
    by (auto simp: out_def out0_def observeReap_reaped done_observed_def key_exited_def split: if_splits)
  have noreap: "\<not> entReaped e" if "\<not> soReaped out" using that by (auto simp: out_def out0_def observeReap_reaped)
  have v: "resource_inv v" "WStop k g (Some g) \<in> rsWorkers v" "entry_of v k = Some e" "rsClosing v = rsClosing s"
      "key_exited v k = key_exited s k"
    using inv w' e by (simp_all add: v_def rs_simps)
  have e1f: "entLeases e1 = entLeases e" "entConnectors e1 = {}" "entGeneration e1 = g" "entInstance e1 = Some g"
      "entReaped e1 = entReaped e" "\<not> entStartPending e1"
    using e e2 by (simp_all add: e1_def)
  have e3f: "entLeases e3 = entLeases e" "entConnectors e3 = {}" "entGeneration e3 = g" "entInstance e3 = None"
      "\<not> entReaped e3" "\<not> entStartPending e3" "entState e3 = StateCold"
    using e1f by (simp_all add: e3_def)
  have put: "resource_inv (put_entry (on_leases (entLeases e) (closeLeaseLocked c b) ?t) k e')"
    if "entGeneration e' = g" "\<not> entStartPending e'" "entState e' \<in> {StateFailed, StateCold}"
      "entReaped e' \<Longrightarrow> entReaped e" "entLeases e' = {}" "entConnectors e' = {}"
      "entInstance e' = Some g \<and> entState e' = StateFailed \<or> entInstance e' = None \<and> soReaped out" for c b e'
    by (rule inv_end_stop [OF v(1,2,3) e(2,3) that(1-6)]) (use that(7) gone v(5) in auto)
  have body: "stopReturned o' now s k g i obs =
     (if \<not> soReaped out then
        put_entry (on_leases (entLeases e) (closeLeaseLocked (Some ErrResourceUnavailable) True) ?t) k
          (failLocked o' now (e1\<lparr>entLeases := {}, entConnectors := {}\<rparr>) ''resource could not be reaped'')
      else if rsClosing s then
        deleteColdEntryLocked (on_leases (entLeases e) (closeLeaseLocked (Some ErrShuttingDown) True) ?t) k
          (e3\<lparr>entLeases := {}, entConnectors := {}, entState := StateCold\<rparr>)
      else if entLeases e \<noteq> {} then
        (case startLocked o' now ?t k e3 of
           Inr (s, e) \<Rightarrow> put_entry s k e
         | Inl err \<Rightarrow>
             put_entry (on_leases (entLeases e) (closeLeaseLocked (Some err) True) ?t) k
               (failLocked o' now (e3\<lparr>entLeases := {}\<rparr>) ''resource restart failed''))
      else deleteColdEntryLocked ?t k e3)"
  proof -
    let ?s = "swap_workers (WStop k g (Some g)) {} s"
    have a: "done_observed ?s k (Some g) = ((k, g) \<in> rsExited s)" by (simp add: done_observed_def rs_simps)
    have n: "(case oe of Some err \<Rightarrow> if rsClosing ?s then ?s\<lparr>rsShutdownErrors := rsShutdownErrors ?s @ [err]\<rparr> else ?s
        | None \<Rightarrow> ?s) = noted oe ?s" for oe
      by (simp add: noted_def)
    have x: "(entGeneration e \<noteq> g \<or> entState e \<noteq> StateStopping) = False" "entry_of ?s k = Some e"
      using e by (simp_all add: rs_simps)
    show ?thesis
      unfolding stopReturned_def completeStop_def e2(2) swap_workers_eq x option.case if_False Let_def
        out0_def [symmetric, unfolded e2(2)] a out_def [symmetric] n e1_def [symmetric] noted_swap v_def [symmetric]
      using e1f e3_def
      by (simp add: invalidateLeasesLocked_def invalidateConnectorsLocked_def rs_simps v(4) split: sum.split)
  qed
  show ?thesis
  proof (cases "soReaped out")
    case False
    then show ?thesis using noreap e1f by (simp add: body) (rule put, auto simp: failLocked_fields)
  next
    case True
    show ?thesis
    proof (cases "rsClosing s \<or> entLeases e = {}")
      case cold: True
      have "resource_inv (put_entry (on_leases (entLeases e) (closeLeaseLocked (Some ErrShuttingDown) True) ?t) k
          (e3\<lparr>entLeases := {}, entConnectors := {}, entState := StateCold\<rparr>))"
        by (rule put) (use True e3f in auto)
      moreover have "entLeases e = {} \<Longrightarrow> e3\<lparr>entLeases := {}, entConnectors := {}, entState := StateCold\<rparr> = e3" using e3f by simp
      ultimately show ?thesis using cold True by (auto simp: body intro!: inv_delete_cold)
    next
      case live: False
      have "resource_inv (put_entry t k e')" if "startLocked o' now ?t k e3 = Inr (t, e')" for t e'
        by (rule inv_stop_restart [OF v(1) _ v(3) e(2,3) _ that]) (use live v gone [OF True] e3f in auto)
      moreover have "resource_inv (put_entry (on_leases (entLeases e) (closeLeaseLocked (Some err) True) ?t) k
          (failLocked o' now (e3\<lparr>entLeases := {}\<rparr>) ''resource restart failed''))" for err
        by (rule put) (use True e3f in \<open>auto simp: failLocked_fields\<close>)
      ultimately show ?thesis using live True by (auto simp: body split: sum.split)
    qed
  qed
qed

section \<open>Detached instances\<close>

lemma inv_detachReturned:
  assumes inv: "resource_inv s" and w: "WDetach k g \<in> rsWorkers s" and obs: "observes s k (Some g) obs"
  shows "resource_inv (detachReturned s k g obs)"
proof -
  define out where "out = observeReap ((k, g) \<in> rsExited s) (stopInstance (Some g) obs)"
  define v where "v = noted (stopOutcome_Error out) s"
  have v: "resource_inv v" "WDetach k g \<in> key_workers v k" "key_exited v k = key_exited s k"
    using inv w by (simp_all add: v_def rs_simps) (simp add: key_workers_def)
  have S: "g \<in> key_started v k" using life_okD(7) [OF inv_key(1) [OF v(1)] v(2)] by simp
  define A where "A = (if soReaped out then {} else {WDetachWait k g})"
  have gone: "g \<in> key_exited v k" if "soReaped out"
    using that stopInstance_reaped [OF obs] by (auto simp: out_def observeReap_reaped done_observed_def key_exited_def v_def rs_simps)
  have "resource_inv (swap_workers (WDetach k g) A v)"
  proof (rule inv_after [OF v(1), of k])
    show "local_to k v (swap_workers (WDetach k g) A v)"
      by (intro local_intros local_refl v(1)) (auto simp: A_def split: if_splits)
    have "life_ok (rsClosing v) k (entry_of v k) (A \<union> (key_workers v k - {WDetach k g})) (key_started v k) (key_exited v k)"
      by (rule life_swap [OF inv_key(1) [OF v(1)]]) (use S gone in \<open>auto simp: A_def split: if_splits\<close>)
    moreover have "key_workers (swap_workers (WDetach k g) A v) k = A \<union> (key_workers v k - {WDetach k g})"
      by (rule key_workers_swap, cases "soReaped out") (simp_all add: A_def)
    ultimately show "life_ok (rsClosing v) k (entry_of (swap_workers (WDetach k g) A v) k)
        (key_workers (swap_workers (WDetach k g) A v) k) (key_started (swap_workers (WDetach k g) A v) k)
        (key_exited (swap_workers (WDetach k g) A v) k)"
      by (simp add: rs_simps)
  qed (use inv_key(2-4) [OF v(1)] inv_tables(4) [OF v(1)] v(2) in \<open>auto simp: rs_simps key_workers_def\<close>)
  moreover have "detachReturned s k g obs = swap_workers (WDetach k g) A v"
    using noted_swap [of "stopOutcome_Error out" "WDetach k g" "{}" s]
    by (simp add: detachReturned_def Let_def swap_workers_eq A_def v_def noted_def flip: out_def)
  ultimately show ?thesis by simp
qed

end
