(* ===== verification/Resource_Runs.thy ===== *)
theory Resource_Runs
  imports Resource_Preserve_Stop
begin

text \<open>
  Shutdown and its completion, and the invariant over whole runs of the registry.
\<close>

section \<open>Exits of instances\<close>

lemma inv_exit:
  assumes inv: "resource_inv s" and g: "(k, g) \<in> rsStarted s"
  shows "resource_inv (s\<lparr>rsExited := insert (k, g) (rsExited s)\<rparr>)"
proof -
  let ?t = "s\<lparr>rsExited := insert (k, g) (rsExited s)\<rparr>"
  have X: "key_exited ?t k' = (if k' = k then insert g (key_exited s k) else key_exited s k')"
      "key_started ?t k' = key_started s k'" "key_workers ?t k' = key_workers s k'" for k'
    by (auto simp: key_exited_def key_started_def key_workers_def)
  have loc: "local_to k s ?t"
    using local_refl [OF inv, of k] by (simp add: local_to_def same_key_def tables_ok_def X)
  have life: "life_ok (rsClosing s) k (entry_of s k) (key_workers s k) (key_started s k) (insert g (key_exited s k))"
    by (rule life_exit [OF inv_key(1) [OF inv]]) (use g in \<open>simp add: key_started_def\<close>)
  show ?thesis
    by (rule inv_after [OF inv loc]) (use life inv_key(2-4) [OF inv] in \<open>auto simp: X\<close>)
qed

section \<open>Shutdown\<close>

text \<open>What shutdown makes of one entry, and whether it leaves a stop worker for it.\<close>

definition shut :: "instant \<Rightarrow> entry \<Rightarrow> entry" where
  "shut now e = snd (shutdown_entry now NewResourceRegistry undefined e)"

definition stops :: "entry \<Rightarrow> bool" where
  "stops e \<longleftrightarrow> entState e \<in> {StateReady, StateIdle, StateFailed} \<and> entInstance e \<noteq> None"

lemma mapped_mapped: "(\<And>x. f (f x) = f x) \<Longrightarrow> mapped A f (mapped B f m) = mapped (A \<union> B) f m"
  by (auto simp: mapped_def fun_eq_iff option.map_comp comp_def)

lemma closeLease_idem: "closeLeaseLocked c b (closeLeaseLocked c b x) = closeLeaseLocked c b x"
  by (simp add: closeLeaseLocked_def)

lemma closeConnector_idem: "closeConnectorLocked c (closeConnectorLocked c x) = closeConnectorLocked c x"
  by (simp add: closeConnectorLocked_def)

lemma shutdown_entry_eq:
  "shutdown_entry now s k e =
     ((let t = on_connectors (entConnectors e) (closeConnectorLocked (Some ErrShuttingDown))
                 (on_leases (entLeases e) (closeLeaseLocked (Some ErrShuttingDown) True)
                   (if entStartCancel e then cancel_start_context s (entGeneration e) ErrShuttingDown else s))
       in if stops e then add_worker (WStop k (entGeneration e) (entInstance e)) t else t),
      shut now e)"
  by (cases "entState e")
    (simp_all add: shutdown_entry_def shut_def stops_def cancelStartLocked_def invalidateLeasesLocked_def
      invalidateConnectorsLocked_def cancelFailureRetentionLocked_def cancelStableResetLocked_def
      cancelIdleLocked_def beginStopLocked_def Let_def)

lemma shut_fields:
  "entGeneration (shut now e) = entGeneration e" "entInstance (shut now e) = entInstance e"
  "entStartPending (shut now e) = entStartPending e" "entLeases (shut now e) = {}" "entConnectors (shut now e) = {}"
  "entReaped (shut now e) = (entReaped e \<and> \<not> stops e)"
  "entState (shut now e) = (if stops e then StateStopping
     else if entState e \<in> {StateStarting, StateStopping} then entState e else StateCold)"
  by (cases "entState e";
      auto simp: shutdown_entry_def shut_def stops_def cancelStartLocked_def invalidateLeasesLocked_def
      invalidateConnectorsLocked_def cancelFailureRetentionLocked_def cancelStableResetLocked_def
      cancelIdleLocked_def beginStopLocked_def Let_def)+

lemma shutdown_entries_eq:
  assumes "shutdown_entries now s es = (t, es')"
  shows "es' = map (\<lambda>(k, e). (k, shut now e)) es \<and>
    rsLeases t = mapped (\<Union>(entLeases ` snd ` set es)) (closeLeaseLocked (Some ErrShuttingDown) True) (rsLeases s) \<and>
    rsConnectors t = mapped (\<Union>(entConnectors ` snd ` set es)) (closeConnectorLocked (Some ErrShuttingDown)) (rsConnectors s) \<and>
    rsWorkers t = {WStop k (entGeneration e) (entInstance e) | k e. (k, e) \<in> set es \<and> stops e} \<union> rsWorkers s \<and>
    rsStarted t = rsStarted s \<and> rsExited t = rsExited s \<and> rsClosing t = rsClosing s \<and>
    rsShutdownDone t = rsShutdownDone s \<and> rsNextGeneration t = rsNextGeneration s \<and> rsNextHandle t = rsNextHandle s"
  using assms
proof (induction now s es arbitrary: t es' rule: shutdown_entries.induct)
  case (2 now s k e es)
  obtain u where u: "shutdown_entry now s k e = (u, shut now e)" by (simp add: shutdown_entry_eq)
  obtain v es'' where v: "shutdown_entries now u es = (v, es'')" by fastforce
  have t: "t = v" "es' = (k, shut now e) # es''" using "2.prems" by (simp_all add: u v)
  have uf: "rsLeases u = mapped (entLeases e) (closeLeaseLocked (Some ErrShuttingDown) True) (rsLeases s)"
    "rsConnectors u = mapped (entConnectors e) (closeConnectorLocked (Some ErrShuttingDown)) (rsConnectors s)"
    "rsWorkers u = (if stops e then {WStop k (entGeneration e) (entInstance e)} else {}) \<union> rsWorkers s"
    "rsStarted u = rsStarted s \<and> rsExited u = rsExited s \<and> rsClosing u = rsClosing s \<and>
     rsShutdownDone u = rsShutdownDone s \<and> rsNextGeneration u = rsNextGeneration s \<and> rsNextHandle u = rsNextHandle s"
    using u by (cases "stops e"; cases "entStartCancel e"; auto simp: shutdown_entry_eq Let_def rs_simps)+
  note IH = "2.IH" [OF u [symmetric] refl v]
  have "{WStop k' (entGeneration e') (entInstance e') | k' e'. (k', e') \<in> set ((k, e) # es) \<and> stops e'} \<union> rsWorkers s =
      {WStop k' (entGeneration e') (entInstance e') | k' e'. (k', e') \<in> set es \<and> stops e'} \<union> rsWorkers u"
    unfolding uf(3) by auto
  with IH t uf(1,2,4) show ?case
    by (simp add: mapped_mapped closeLease_idem closeConnector_idem Un_commute)
qed simp

lemma phase_shut:
  assumes "phase_ok closing e" shows "phase_ok True (shut now e)"
  using assms by (cases "entState e") (auto simp: phase_ok_def shut_fields stops_def split: if_splits)

lemma life_shut:
  assumes life: "life_ok True k (Some e) W S X"
  shows "life_ok True k (Some (shut now e))
    ((if stops e then {WStop k (entGeneration e) (entInstance e)} else {}) \<union> W) S X"
proof (cases "stops e")
  case True
  then obtain g where g: "entInstance e = Some g" "entState e \<noteq> StateStopping" by (auto simp: stops_def)
  have ph: "phase_ok True e" by (rule life_okD(1) [OF life refl])
  have "entGeneration e = g" "\<not> entStartPending e"
    using phase_okD(6,8) [OF ph] g(1) by auto
  then show ?thesis
    using life_begin_stop [OF life, of g "shut now e"] g True by (simp add: shut_fields)
next
  case False
  have "life_ok True k (Some (shut now e)) W S X"
    by (rule life_update [OF life])
      (use False phase_shut [OF life_okD(1) [OF life refl]] life_okD(2) [OF life refl] in
        \<open>auto simp: shut_fields stops_def\<close>)
  with False show ?thesis by simp
qed

lemma inv_beginShutdown:
  assumes inv: "resource_inv s" and open_reg: "\<not> rsClosing s"
  shows "resource_inv (beginShutdownLocked now s)"
proof -
  define s1 where "s1 = s\<lparr>rsClosing := True\<rparr>"
  obtain u es' where u: "shutdown_entries now s1 (rsEntries s) = (u, es')" by fastforce
  define t where "t = u\<lparr>rsEntries := es', rsShutdownWait := True\<rparr>"
  have t: "beginShutdownLocked now s = t" by (simp add: beginShutdownLocked_def t_def u flip: s1_def)
  note sh = shutdown_entries_eq [OF u]
  let ?L = "\<Union>(entLeases ` snd ` set (rsEntries s))" and ?C = "\<Union>(entConnectors ` snd ` set (rsEntries s))"
  have tf: "rsEntries t = map (\<lambda>(k, e). (k, shut now e)) (rsEntries s)"
      "rsLeases t = mapped ?L (closeLeaseLocked (Some ErrShuttingDown) True) (rsLeases s)"
      "rsConnectors t = mapped ?C (closeConnectorLocked (Some ErrShuttingDown)) (rsConnectors s)"
      "rsWorkers t = {WStop k (entGeneration e) (entInstance e) | k e. (k, e) \<in> set (rsEntries s) \<and> stops e} \<union> rsWorkers s"
      "rsClosing t" "rsShutdownWait t" "rsShutdownDone t = rsShutdownDone s" "rsNextGeneration t = rsNextGeneration s"
      "rsNextHandle t = rsNextHandle s" "key_started t k = key_started s k" "key_exited t k = key_exited s k" for k
    using sh by (simp_all add: t_def s1_def key_started_def key_exited_def)
  have dist: "distinct (map fst (rsEntries s))" by (rule inv_tables(1) [OF inv])
  have ent: "entry_of t k = map_option (shut now) (entry_of s k)" for k
    by (simp add: tf(1) map_of_map)
  have "global_ok t"
    unfolding global_ok_def tf(1-3,5-7,9)
    using inv_tables(1-3) [OF inv] inv_tables(4) [OF inv] open_reg lease_ok_close connector_ok_close tf(5,6)
    by (auto simp: mapped_Some comp_def case_prod_unfold)
  moreover have "key_ok t k" for k
  proof -
    have handles: "handles_ok True k (entry_of t k) (rsLeases t) (rsConnectors t)"
    proof (subst handles_none)
      show "\<And>e. entry_of t k = Some e \<Longrightarrow> entLeases e = {} \<and> entConnectors e = {}"
        by (auto simp: ent shut_fields)
      have "leaseState x = LeaseClosed" if x: "rsLeases t l = Some x" "leaseKey x = k" for l x
      proof (cases "l \<in> ?L")
        case False
        then have "rsLeases s l = Some x" using x(1) by (simp add: tf(2) mapped_def)
        with False handles_okD(1) [OF inv_key(2) [OF inv, of k] this x(2)] show ?thesis
          by (force dest: map_of_SomeD)
      qed (use x(1) in \<open>auto simp: tf(2) mapped_def\<close>)
      moreover have "connClosed x" if x: "rsConnectors t c = Some x" "connKey x = k" for c x
      proof (cases "c \<in> ?C")
        case False
        then have "rsConnectors s c = Some x" using x(1) by (simp add: tf(3) mapped_def)
        with False handles_okD(2) [OF inv_key(2) [OF inv, of k] this x(2)] show ?thesis
          by (force dest: map_of_SomeD)
      qed (use x(1) in \<open>auto simp: tf(3) mapped_def\<close>)
      ultimately show "(\<forall>l x. rsLeases t l = Some x \<longrightarrow> leaseKey x = k \<longrightarrow> leaseState x = LeaseClosed) \<and>
          (\<forall>c x. rsConnectors t c = Some x \<longrightarrow> connKey x = k \<longrightarrow> connClosed x)" by blast
    qed
    have life0: "life_ok True k (entry_of s k) (key_workers s k) (key_started s k) (key_exited s k)"
      by (rule life_closing [OF inv_key(1) [OF inv]])
    have life: "life_ok True k (entry_of t k) (key_workers t k) (key_started t k) (key_exited t k)"
    proof (cases "entry_of s k")
      case None
      then have "(k, e) \<notin> set (rsEntries s)" for e using distinct_map_of_iff [OF dist, of k e] by simp
      then have "key_workers t k = key_workers s k" by (auto simp: key_workers_def tf(4))
      with life0 None show ?thesis by (simp add: ent tf(10,11))
    next
      case (Some e)
      have "key_workers t k = (if stops e then {WStop k (entGeneration e) (entInstance e)} else {}) \<union> key_workers s k"
      proof -
        have "(k, v) \<in> set (rsEntries s) \<longleftrightarrow> v = e" for v
          using distinct_map_of_iff [OF dist, of k v] Some by auto
        then show ?thesis by (auto simp: key_workers_def tf(4))
      qed
      with life_shut [OF life0 [unfolded Some]] Some show ?thesis by (simp add: ent tf(10,11))
    qed
    have "\<forall>g \<in> key_started t k \<union> entGeneration ` set_option (entry_of t k). g \<le> rsNextGeneration t"
      using inv_key(3,4) [OF inv] by (auto simp: tf(8,10) ent shut_fields)
    with life handles show ?thesis by (simp add: key_ok_def tf(5))
  qed
  ultimately show ?thesis unfolding t by (simp add: resource_inv_def)
qed

lemma inv_Shutdown: "resource_inv s \<Longrightarrow> resource_inv (Shutdown now s)"
  by (simp add: Shutdown_def inv_beginShutdown)

lemma inv_finishShutdown:
  assumes inv: "resource_inv s" and fin: "rsShutdownWait s" "rsWorkers s = {}"
  shows "resource_inv (finishShutdown now s)"
proof -
  let ?t = "finishShutdown now s"
  define f where "f = (\<lambda>e :: entry. e\<lparr>entState := StateCold, entInstance := None, entReaped := False,
      entStartPending := False, entStartDeadline := zero_time, entIdleDeadline := zero_time,
      entRetryDeadline := zero_time, entFailureDeadline := zero_time, entUpdatedAt := now\<rparr>)"
  have closing: "rsClosing s" using inv fin(1) by (simp add: resource_inv_def global_ok_def)
  have ent: "entry_of ?t k = map_option f (entry_of s k)" for k
    by (simp add: finishShutdown_def f_def map_of_map)
  have "key_ok ?t k" for k
  proof -
    have "life_ok True k (entry_of ?t k) {} (key_started s k) (key_exited s k)"
      by (rule life_finish) (use inv_key(1) [OF inv, of k] closing fin(2) in \<open>auto simp: ent f_def key_workers_def\<close>)
    moreover have "handles_ok True k (entry_of ?t k) (rsLeases s) (rsConnectors s)"
      by (rule handles_bare [OF inv_key(2) [OF inv]])
        (use handles_okD(6,7) [OF inv_key(2) [OF inv, of k]] closing in \<open>auto simp: ent f_def\<close>)
    moreover have "\<forall>g \<in> key_started s k \<union> entGeneration ` set_option (entry_of ?t k). g \<le> rsNextGeneration s"
      using inv_key(3,4) [OF inv] by (auto simp: ent f_def)
    ultimately show ?thesis
      using closing fin(2) unfolding key_ok_def
      by (simp add: finishShutdown_def key_workers_def key_started_def key_exited_def)
  qed
  moreover have "global_ok ?t"
    using inv closing fin(2) by (simp add: resource_inv_def global_ok_def finishShutdown_def comp_def case_prod_unfold)
  ultimately show ?thesis by (simp add: resource_inv_def)
qed

section \<open>Runs\<close>

lemma resource_step_inv:
  assumes "resource_inv s" "resource_step o' s l t" shows "resource_inv t"
  using assms(2,1)
proof (cases rule: resource_step.cases)
  case (rs_reap k g now exitErr)
  then show ?thesis using inv_watch [OF assms(1), of "WReap k g" k g o' now exitErr] by simp
next
  case (rs_watch k g now exitErr)
  then show ?thesis using inv_watch [OF assms(1), of "WWatch k g" k g o' now exitErr] by simp
next
  case (rs_detach_done k g)
  then show ?thesis using inv_end_watcher [OF assms(1), of "WDetachWait k g" k] by (auto simp: key_exited_def)
qed (auto intro: inv_Acquire inv_Release inv_OpenConnector inv_Connector_Close inv_startReturned inv_publishStart
    inv_cleanupReturned inv_stopReturned inv_detachReturned inv_expireStart inv_expireIdle inv_expireFailure
    inv_resetStable inv_exit inv_Shutdown inv_finishShutdown)

interpretation registry: step_invariant "resource_step o'" resource_inv for o'
  by unfold_locales (rule resource_step_inv)

end
