(* ===== verification/Resource_Properties.thy ===== *)
theory Resource_Properties
  imports Resource_Runs
begin

text \<open>
  The properties of the background-resource registry. Those about reachable states share one
  witness: a run that acquires a lease, starts and publishes its generation, opens a
  connector and shuts the registry down.
\<close>

section \<open>A concrete run\<close>

definition demo_options :: resource_options where
  "demo_options =
     \<lparr>optIdleTimeout = 100, optStartTimeout = 50, optStopGrace = 5, optKillGrace = 2, optBackoffInitial = 4,
      optBackoffMaximum = 20, optFailureRetention = 30, optStableReady = 30, optJitter = None\<rparr>"

definition demo_key :: resource_key where
  "demo_key = \<lparr>keyDigest = [1], keyKind = ''mcp'', keyTransport = ''stdio'', keyScope = ''user''\<rparr>"

definition demo_report :: start_report where
  "demo_report = \<lparr>srInstance = True, srError = None, srDoneNil = False, srExited = False, srExitError = None\<rparr>"

definition demo_stop :: stop_observation where
  "demo_stop = \<lparr>obsDoneAtEntry = True, obsStopError = None, obsDoneAfterStop = False, obsKillError = None,
     obsDoneAfterKill = False\<rparr>"

definition demo_starting :: resource_state where
  "demo_starting = fst (AcquireWithPolicy demo_options 7 None NewResourceRegistry demo_key 0)"

definition demo_started :: resource_state where
  "demo_started = startReturned demo_starting demo_key 1 demo_report"

definition demo_ready :: resource_state where
  "demo_ready = publishStart demo_options 9 demo_started demo_key 1"

definition demo_closing :: resource_state where
  "demo_closing = Shutdown 11 demo_ready"

definition demo_exited :: resource_state where
  "demo_exited = demo_closing\<lparr>rsExited := {(demo_key, 1)}\<rparr>"

definition demo_stopped :: resource_state where
  "demo_stopped = stopReturned demo_options 12 demo_exited demo_key 1 (Some 1) demo_stop"

definition demo_watched :: resource_state where
  "demo_watched = generationExited demo_options 13 (end_worker (WWatch demo_key 1) demo_stopped) demo_key 1 None"

definition demo_done :: resource_state where
  "demo_done = finishShutdown 14 demo_watched"

definition demo_lease :: lease where
  "demo_lease = \<lparr>leaseKey = demo_key, leaseState = LeaseActive, leaseGeneration = 1, leaseReady = [None],
     leaseDone = 0, leaseErr = None\<rparr>"

lemmas acquire_unfold = AcquireWithPolicy_def reserveLocked_def entryWithIdleLocked_def new_entry_def
  reserve_check_def reserve_wake_def startLocked_def nextGenerationLocked_def alloc_lease_def new_lease_def
  on_leases_def assign_generation_def add_worker_def put_entry_def cancelFailureRetentionLocked_def validKey_def

lemma demo_starting_eq:
  "AcquireWithPolicy demo_options 7 None NewResourceRegistry demo_key 0 = (demo_starting, Inr 0)"
  "rsWorkers demo_starting = {WStart demo_key 1}" "rsLeases demo_starting = [0 \<mapsto> demo_lease\<lparr>leaseState := LeaseOpening, leaseReady := []\<rparr>]"
  "rsStarted demo_starting = {}" "rsExited demo_starting = {}" "rsClosing demo_starting = False"
  by (simp_all add: demo_starting_def acquire_unfold NewResourceRegistry_def demo_options_def demo_key_def demo_lease_def
      fun_eq_iff)

lemmas demo_unfold = demo_options_def demo_key_def demo_lease_def NewResourceRegistry_def
  demo_report_def demo_stop_def acquire_unfold Let_def

lemma demo_started_eq:
  "rsWorkers demo_started = {WPublish demo_key 1}" "rsStarted demo_started = {(demo_key, 1)}" "rsExited demo_started = {}"
  by (simp_all add: demo_started_def demo_starting_eq(2-) startReturned_def start_error_def start_cause_def
      demo_report_def add_worker_def end_worker_def Let_def) (simp_all add: demo_starting_def demo_unfold)

lemma demo_starting_entry:
  "rsEntries demo_starting = [(demo_key, (new_entry 100 7)\<lparr>entGeneration := 1, entState := StateStarting, entInstance := None,
     entReaped := False, entStartPending := True, entLeases := {0}, entStartCancel := True,
     entStartedAt := 7, entStartDeadline := 57, entReadyAt := 0, entIdleDeadline := 0,
     entRetryDeadline := 0, entUpdatedAt := 7, entStartTimer := True\<rparr>)]"
  "rsShutdownDone demo_starting = False" "rsShutdownWait demo_starting = False" "rsCancelled demo_starting = Map.empty"
  "rsConnectors demo_starting = Map.empty"
  by (simp_all add: demo_starting_def demo_unfold)

lemma demo_started_state:
  "demo_started = demo_starting\<lparr>rsWorkers := {WPublish demo_key 1}, rsStarted := {(demo_key, 1)}\<rparr>"
  by (simp add: demo_started_def demo_starting_eq(2-) demo_starting_entry startReturned_def start_error_def start_cause_def
      demo_report_def add_worker_def end_worker_def Let_def)

lemma demo_ready_eq:
  "rsWorkers demo_ready = {WWatch demo_key 1}" "rsStarted demo_ready = {(demo_key, 1)}" "rsExited demo_ready = {}"
  "rsLeases demo_ready = [0 \<mapsto> demo_lease]" "rsClosing demo_ready = False" "rsShutdownDone demo_ready = False"
  "\<exists>e. rsEntries demo_ready = [(demo_key, e)] \<and> entGeneration e = 1 \<and> entState e = StateReady \<and>
     entInstance e = Some 1 \<and> \<not> entReaped e \<and> entLeases e = {0} \<and> entConnectors e = {} \<and> \<not> entStartPending e"
  unfolding demo_ready_def demo_started_state
  by (simp_all add: publishStart_def end_worker_def add_worker_def put_entry_def demo_starting_entry demo_starting_eq(2-)
      cancelStartLocked_def cancel_start_context_def start_cause_def on_leases_def scheduleStableResetLocked_def
      cancelStableResetLocked_def maybeIdleLocked_def activate_opening_def activateLeaseLocked_def Let_def new_entry_def
      fun_eq_iff demo_lease_def)

lemma demo_closing_eq:
  "rsWorkers demo_closing = {WStop demo_key 1 (Some 1), WWatch demo_key 1}" "rsStarted demo_closing = {(demo_key, 1)}"
  "rsExited demo_closing = {}" "rsClosing demo_closing" "rsShutdownWait demo_closing" "\<not> rsShutdownDone demo_closing"
  "\<exists>e. rsEntries demo_closing = [(demo_key, e)] \<and> entGeneration e = 1 \<and> entState e = StateStopping \<and> \<not> entReaped e"
proof -
  obtain e where e: "rsEntries demo_ready = [(demo_key, e)]" "entGeneration e = 1" "entState e = StateReady"
      "entInstance e = Some 1"
    using demo_ready_eq(7) by blast
  have "stops e" using e by (simp add: stops_def)
  obtain t es where t: "shutdown_entries 11 (demo_ready\<lparr>rsClosing := True\<rparr>) [(demo_key, e)] = (t, es)" by fastforce
  note sh = shutdown_entries_eq [OF t]
  have c: "demo_closing = t\<lparr>rsEntries := es, rsShutdownWait := True\<rparr>"
    by (simp add: demo_closing_def Shutdown_def beginShutdownLocked_def demo_ready_eq e(1) t
        del: shutdown_entries.simps)
  have "{WStop k (entGeneration a) (entInstance a) | k a. (k, a) \<in> set [(demo_key, e)] \<and> stops a} = {WStop demo_key 1 (Some 1)}"
    using e \<open>stops e\<close> by auto
  then show "rsWorkers demo_closing = {WStop demo_key 1 (Some 1), WWatch demo_key 1}"
    using sh demo_ready_eq(1) unfolding c by (simp add: insert_commute)
  show "rsStarted demo_closing = {(demo_key, 1)}" "rsExited demo_closing = {}" "rsClosing demo_closing"
    "rsShutdownWait demo_closing" "\<not> rsShutdownDone demo_closing"
    using sh by (simp_all add: c demo_ready_eq)
  show "\<exists>e. rsEntries demo_closing = [(demo_key, e)] \<and> entGeneration e = 1 \<and> entState e = StateStopping \<and> \<not> entReaped e"
    using sh e \<open>stops e\<close> by (simp add: c shut_fields)
qed

lemma demo_stopped_eq:
  "rsWorkers demo_stopped = {WWatch demo_key 1}" "rsExited demo_stopped = {(demo_key, 1)}"
  "rsStarted demo_stopped = {(demo_key, 1)}"
  "rsShutdownWait demo_stopped" "\<not> rsShutdownDone demo_stopped"
  "\<forall>e. entry_of demo_stopped demo_key = Some e \<longrightarrow> entState e = StateCold"
proof -
  obtain e where e: "rsEntries demo_closing = [(demo_key, e)]" "entGeneration e = 1" "entState e = StateStopping" "\<not> entReaped e"
    using demo_closing_eq(7) by blast
  note facts = demo_stopped_def demo_exited_def stopReturned_def completeStop_def demo_closing_eq(1-6) e rs_simps
    stopInstance_def demo_stop_def done_observed_def observeReap_def stopOutcome_Error_def Let_def
    invalidateLeasesLocked_def invalidateConnectorsLocked_def deleteColdEntryLocked_def end_worker_def
  show "rsWorkers demo_stopped = {WWatch demo_key 1}" "rsExited demo_stopped = {(demo_key, 1)}"
    "rsStarted demo_stopped = {(demo_key, 1)}"
    "rsShutdownWait demo_stopped" "\<not> rsShutdownDone demo_stopped"
    "\<forall>e. entry_of demo_stopped demo_key = Some e \<longrightarrow> entState e = StateCold"
    by (auto simp: facts)
qed

lemma demo_watched_eq:
  "demo_watched = end_worker (WWatch demo_key 1) demo_stopped"
  using demo_stopped_eq(6)
  by (simp add: demo_watched_def generationExited_def rs_simps split: option.split)

abbreviation demo_step :: "resource_state \<Rightarrow> resource_event \<Rightarrow> resource_state \<Rightarrow> bool" where
  "demo_step \<equiv> resource_step demo_options"

definition demo_up :: "resource_event list" where
  "demo_up = [REAcquire demo_key 0 (Inr 0), REStartReturned demo_key 1, REPublish demo_key 1]"

definition demo_down :: "resource_event list" where
  "demo_down = [REShutdown, REInstanceExit demo_key 1, REStopReturned demo_key 1, REExitSeen demo_key 1, REShutdownFinished]"

lemma demo_run_starting: "run demo_step NewResourceRegistry [REAcquire demo_key 0 (Inr 0)] demo_starting"
  using demo_starting_eq(1) by (auto intro!: run.intros rs_acquire)

lemma demo_run_up: "run demo_step NewResourceRegistry demo_up demo_ready"
proof -
  have "demo_step demo_starting (REStartReturned demo_key 1) demo_started"
    unfolding demo_started_def by (rule rs_start) (simp add: demo_starting_eq)
  moreover have "demo_step demo_started (REPublish demo_key 1) demo_ready"
    unfolding demo_ready_def by (rule rs_publish) (simp add: demo_started_eq)
  ultimately have "run demo_step demo_starting [REStartReturned demo_key 1, REPublish demo_key 1] demo_ready"
    by (auto intro: run.intros)
  from run_append [OF demo_run_starting this] show ?thesis by (simp add: demo_up_def)
qed

lemma demo_run_down: "run demo_step NewResourceRegistry (demo_up @ demo_down) demo_done"
proof -
  have "demo_step demo_ready REShutdown demo_closing" unfolding demo_closing_def by (rule rs_shutdown)
  moreover have "demo_step demo_closing (REInstanceExit demo_key 1) demo_exited"
    using rs_exit [of demo_key 1 demo_closing demo_options] by (simp add: demo_exited_def demo_closing_eq)
  moreover have "demo_step demo_exited (REStopReturned demo_key 1) demo_stopped"
    unfolding demo_stopped_def
    by (rule rs_stop) (simp_all add: demo_exited_def demo_closing_eq observes_def done_observed_def)
  moreover have "demo_step demo_stopped (REExitSeen demo_key 1) demo_watched"
    unfolding demo_watched_def by (rule rs_watch) (simp_all add: demo_stopped_eq)
  moreover have "demo_step demo_watched REShutdownFinished demo_done"
    unfolding demo_done_def by (rule rs_finish) (simp_all add: demo_watched_eq rs_simps demo_stopped_eq)
  ultimately have "run demo_step demo_ready demo_down demo_done"
    unfolding demo_down_def by (simp add: run_Cons_iff) blast
  with demo_run_up show ?thesis by (rule run_append)
qed

section \<open>Instances\<close>

lemma run_from_New: "run (resource_step o') NewResourceRegistry es s \<Longrightarrow> resource_inv s"
  by (rule registry.run_inv [OF _ resource_inv_New])

text \<open>
  The generations of a key for which an operating-system instance may exist: the factory is
  still starting it, or it was started and has not exited.
\<close>

definition live_generations :: "resource_state \<Rightarrow> resource_key \<Rightarrow> generation list \<Rightarrow> bool" where
  "live_generations s k gs \<longleftrightarrow>
     list_all (\<lambda>g. WStart k g \<in> rsWorkers s \<or> ((k, g) \<in> rsStarted s \<and> (k, g) \<notin> rsExited s)) gs"

lemma live_generation_entry:
  assumes inv: "resource_inv s"
    and live: "WStart k g \<in> rsWorkers s \<or> ((k, g) \<in> rsStarted s \<and> (k, g) \<notin> rsExited s)"
  shows "\<exists>e. entry_of s k = Some e \<and> entGeneration e = g"
  using live
proof
  assume "WStart k g \<in> rsWorkers s"
  then show ?thesis using start_worker_entry [OF inv _ refl, of "WStart k g" g] by auto
next
  assume "(k, g) \<in> rsStarted s \<and> (k, g) \<notin> rsExited s"
  then show ?thesis
    using life_okD(12) [OF inv_key(1) [OF inv, of k], of g] by (auto simp: key_started_def key_exited_def)
qed

text \<open>
  C17. One resource key never has two instances at once: in every interleaving of callers,
  workers, timers, exits and shutdown, all generations of a key that are being started or are
  running are the same generation.
\<close>

theorem single_instance_per_key:
  assumes "run (resource_step o') NewResourceRegistry es s" and "live_generations s k [g, h]"
  shows "g = h"
  using live_generation_entry [OF run_from_New [OF assms(1)], of k g]
    live_generation_entry [OF run_from_New [OF assms(1)], of k h] assms(2)
  by (auto simp: live_generations_def)

theorem single_instance_per_key_witness:
  "live_generations demo_ready demo_key [1, 1] \<and> (1::generation) = 1"
proof
  show live: "live_generations demo_ready demo_key [1, 1]"
    by (simp add: live_generations_def demo_ready_eq)
  show "(1::generation) = 1" by (rule single_instance_per_key [OF demo_run_up live])
qed

text \<open>
  C18. When \<open>shutdownDone\<close> closes, no worker is left, every instance that was ever started has
  exited, and every lease and connector is closed.
\<close>

theorem shutdown_reaps_everything:
  assumes run: "run (resource_step o') NewResourceRegistry es s" and fin: "rsShutdownDone s"
  shows "rsWorkers s = {} \<and> rsStarted s = rsExited s \<and>
    (case rsLeases s l of None \<Rightarrow> True | Some x \<Rightarrow> leaseState x = LeaseClosed) \<and>
    (case rsConnectors s c of None \<Rightarrow> True | Some y \<Rightarrow> connClosed y)"
proof -
  have inv: "resource_inv s" by (rule run_from_New [OF run])
  have closing: "rsClosing s" and W: "rsWorkers s = {}" using inv_tables(4) [OF inv fin] by simp_all
  have settled: "key_started s k = key_exited s k" for k
  proof -
    have "key_workers s k = {}" using W by (simp add: key_workers_def)
    then show ?thesis using life_okD(13,14) [OF inv_key(1) [OF inv, of k]] by auto
  qed
  have "rsStarted s = rsExited s"
  proof (rule set_eqI)
    fix p show "p \<in> rsStarted s \<longleftrightarrow> p \<in> rsExited s"
      using settled [of "fst p"] by (cases p) (auto simp: key_started_def key_exited_def set_eq_iff)
  qed
  moreover have "leaseState x = LeaseClosed" if x: "rsLeases s l = Some x" for x
    using handles_okD(1) [OF inv_key(2) [OF inv] x refl] handles_okD(6) [OF inv_key(2) [OF inv, of "leaseKey x"]] closing
    by (metis empty_iff)
  moreover have "connClosed y" if y: "rsConnectors s c = Some y" for y
    using handles_okD(2) [OF inv_key(2) [OF inv] y refl] handles_okD(7) [OF inv_key(2) [OF inv, of "connKey y"]] closing
    by (metis empty_iff)
  ultimately show ?thesis using W by (auto split: option.split)
qed

theorem shutdown_reaps_everything_witness:
  "rsShutdownDone demo_done \<and> rsWorkers demo_done = {} \<and> rsStarted demo_done = rsExited demo_done"
proof -
  have fin: "rsShutdownDone demo_done" by (simp add: demo_done_def finishShutdown_def)
  with shutdown_reaps_everything [OF demo_run_down fin] show ?thesis by simp
qed

text \<open>
  C19. An active lease always refers to a ready generation of its own key: \<open>Lease.Instance\<close>
  returns the instance of the lease's own generation, or reports that this instance exited.
\<close>

theorem active_lease_instance:
  assumes run: "run (resource_step o') NewResourceRegistry es s" and x: "rsLeases s l = Some x" "leaseState x = LeaseActive"
  shows "generation_ready s x \<and>
    Lease_Instance s x = (if (leaseKey x, leaseGeneration x) \<in> rsExited s then Inl (ErrResourceExited None)
       else Inr (leaseGeneration x))"
proof -
  have inv: "resource_inv s" by (rule run_from_New [OF run])
  obtain e where e: "entry_of s (leaseKey x) = Some e" "l \<in> entLeases e"
    using handles_okD(1) [OF inv_key(2) [OF inv] x(1) refl] x(2) by auto
  have "entState e = StateReady" "leaseGeneration x = entGeneration e"
    using entry_lease_key(2) [OF inv e x(1)] x(2) by (auto simp: entry_lease_ok_def split: resource_phase.splits)
  moreover from this(1) have "entInstance e = Some (entGeneration e)"
    using phase_okD(2) [OF inv_entry(3) [OF inv e(1)]] by simp
  ultimately show ?thesis using e x(2) by (simp add: generation_ready_def Lease_Instance_def)
qed

theorem active_lease_instance_witness: "Lease_Instance demo_ready demo_lease = Inr 1"
proof -
  have x: "rsLeases demo_ready 0 = Some demo_lease" "leaseState demo_lease = LeaseActive"
    by (simp_all add: demo_ready_eq demo_lease_def)
  from active_lease_instance [OF demo_run_up x] show ?thesis
    by (simp add: demo_ready_eq) (simp add: demo_lease_def)
qed

section \<open>Leases and connectors\<close>

text \<open>
  No critical section blocks or panics on a channel: a lease's \<open>ready\<close> channel (capacity one)
  receives at most one value, its \<open>done\<close> channel is closed at most once and exactly when the lease
  is closed; a connector's \<open>done\<close> channel is closed exactly when the connector is.
\<close>

theorem lease_channels_once:
  assumes "run (resource_step o') NewResourceRegistry es s"
  shows "(case rsLeases s l of None \<Rightarrow> True
     | Some x \<Rightarrow> length (leaseReady x) \<le> 1 \<and> leaseDone x = (if leaseState x = LeaseClosed then 1 else 0)) \<and>
    (case rsConnectors s c of None \<Rightarrow> True
     | Some y \<Rightarrow> connDone y = (if connClosed y then 1 else 0))"
proof -
  note tables = inv_tables(2,3) [OF run_from_New [OF assms]]
  have "length (leaseReady x) \<le> 1 \<and> leaseDone x = (if leaseState x = LeaseClosed then 1 else 0)"
    if "rsLeases s l = Some x" for x
    using tables(1) [OF that] by (auto simp: lease_ok_def split: lease_phase.splits)
  moreover have "connDone y = (if connClosed y then 1 else 0)" if "rsConnectors s c = Some y" for y
    using tables(2) [OF that] by (simp add: connector_ok_def)
  ultimately show ?thesis by (simp split: option.split)
qed

theorem lease_channels_once_witness:
  "length (leaseReady demo_lease) \<le> 1 \<and> leaseDone demo_lease = 0"
  using lease_channels_once [OF demo_run_up, of 0 0] by (simp add: demo_ready_eq) (simp add: demo_lease_def)

text \<open>
  A waiting lease is never stranded: as long as a lease is opening, the registry is not
  shutting down and a worker of its key is under way, either the start of the very generation
  the lease waits for or the stop after which that key is started again.
\<close>

theorem opening_lease_served:
  assumes run: "run (resource_step o') NewResourceRegistry es s" and x: "rsLeases s l = Some x" "leaseState x = LeaseOpening"
  shows "\<not> rsClosing s \<and>
    (\<exists>w. w \<in> rsWorkers s \<and> worker_key w = leaseKey x \<and>
       (start_of w = Some (leaseGeneration x) \<or> (\<exists>g. w = WStop (leaseKey x) g (Some g))))"
proof -
  have inv: "resource_inv s" by (rule run_from_New [OF run])
  obtain e where e: "entry_of s (leaseKey x) = Some e" "l \<in> entLeases e"
    using handles_okD(1) [OF inv_key(2) [OF inv] x(1) refl] x(2) by auto
  note life = inv_entry(1) [OF inv e(1)]
  have closing: "\<not> rsClosing s" using handles_okD(6) [OF inv_entry(2) [OF inv e(1)] refl] e(2) by auto
  have "entState e = StateStarting \<and> leaseGeneration x = entGeneration e \<or> entState e = StateStopping"
    using entry_lease_key(2) [OF inv e x(1)] x(2) by (auto simp: entry_lease_ok_def split: resource_phase.splits)
  then show ?thesis
  proof
    assume st: "entState e = StateStarting \<and> leaseGeneration x = entGeneration e"
    then have "entStartPending e" using phase_okD(1) [OF inv_entry(3) [OF inv e(1)]] by simp
    from life_okD(3) [OF life refl this closing] st closing show ?thesis by (auto simp: key_workers_def)
  next
    assume "entState e = StateStopping"
    from life_okD(4) [OF life refl this] closing show ?thesis by (auto simp: key_workers_def)
  qed
qed

theorem opening_lease_served_witness:
  "\<not> rsClosing demo_starting \<and> (\<exists>w. w \<in> rsWorkers demo_starting \<and> worker_key w = demo_key \<and>
     (start_of w = Some 1 \<or> (\<exists>g. w = WStop demo_key g (Some g))))"
proof -
  have x: "rsLeases demo_starting 0 = Some (demo_lease\<lparr>leaseState := LeaseOpening, leaseReady := []\<rparr>)"
    by (simp add: demo_starting_eq)
  from opening_lease_served [OF demo_run_starting x] show ?thesis by (simp add: demo_lease_def)
qed

lemma publish_leases:
  assumes inv: "resource_inv s" and w: "WPublish k g \<in> rsWorkers s" and e: "entry_of s k = Some e" "entState e = StateStarting"
    and closing: "\<not> rsClosing s"
  shows "\<exists>f. rsLeases (publishStart o' now s k g) = mapped (entLeases e) f (rsLeases s) \<and>
     f \<in> {activate_opening g, closeLeaseLocked (Some (StartError DeadlineExceeded)) True}"
proof -
  have g: "entGeneration e = g" "entStartPending e"
    using start_worker_entry [OF inv w, of k g] e(1) by auto
  show ?thesis
  proof (cases "entStartDeadline e \<le> now")
    case True
    with e g closing show ?thesis
      by (intro exI [of _ "closeLeaseLocked (Some (StartError DeadlineExceeded)) True"])
        (simp add: publishStart_def timeoutStartLocked_def cancelStartLocked_def invalidateLeasesLocked_def Let_def
          failLocked_fields rs_simps)
  next
    case False
    with e g closing show ?thesis
      by (intro exI [of _ "activate_opening g"])
        (simp add: publishStart_def cancelStartLocked_def Let_def rs_simps scheduleStableResetLocked_def
          cancelStableResetLocked_def)
  qed
qed

lemma cleanup_leases:
  assumes inv: "resource_inv s" and w: "WCleanup k g cause i \<in> rsWorkers s"
    and e: "entry_of s k = Some e" "entState e = StateStarting" and closing: "\<not> rsClosing s"
  shows "rsLeases (cleanupReturned o' now s k g cause i obs) =
     mapped (entLeases e) (closeLeaseLocked (Some (StartError cause)) True) (rsLeases s)"
proof -
  have g: "entGeneration e = g" "entStartPending e"
    using start_worker_entry [OF inv w, of k g] e(1) by auto
  show ?thesis
    using e g closing
    by (simp add: cleanupReturned_def completeStartFailure_def cancelStartLocked_def invalidateLeasesLocked_def
        Let_def rs_simps failLocked_fields split: option.split)
qed

text \<open>
  C20. The end of a start resolves every lease that waits for it: the critical section that
  publishes the generation, or the one that completes its failure, makes the lease active or
  closed and sends exactly one value on its \<open>ready\<close> channel.
\<close>

theorem start_resolves_leases:
  assumes run: "run (resource_step o') NewResourceRegistry es s" and step: "resource_step o' s ev t"
    and ev: "ev \<in> {REPublish k g, RECleanupReturned k g}"
    and x: "rsLeases s l = Some x" "leaseState x = LeaseOpening" "leaseKey x = k" "leaseGeneration x = g"
  shows "\<exists>y. rsLeases t l = Some y \<and> leaseState y \<in> {LeaseActive, LeaseClosed} \<and> length (leaseReady y) = 1"
proof -
  have inv: "resource_inv s" by (rule run_from_New [OF run])
  have empty: "leaseReady x = []" using inv_tables(2) [OF inv x(1)] x(2) by (simp add: lease_ok_def)
  obtain e where e: "entry_of s k = Some e" "l \<in> entLeases e"
    using handles_okD(1) [OF inv_key(2) [OF inv] x(1,3)] x(2) by auto
  have closing: "\<not> rsClosing s" using handles_okD(6) [OF inv_entry(2) [OF inv e(1)] refl] e(2) by auto
  have "entState e = StateStarting \<or> entState e = StateStopping"
    using entry_lease_key(2) [OF inv e x(1)] x(2) by (auto simp: entry_lease_ok_def split: resource_phase.splits)
  moreover have starting: "entState e \<noteq> StateStopping" if w: "w \<in> rsWorkers s" "worker_key w = k" "start_of w = Some g" for w
  proof -
    obtain a where "entry_of s k = Some a" "entState a \<in> {StateStarting, StateFailed, StateCold}"
      using start_worker_entry [OF inv w] by metis
    then show ?thesis using e(1) by auto
  qed
  ultimately have st: "entState e = StateStarting" if "w \<in> rsWorkers s" "worker_key w = k" "start_of w = Some g" for w
    using that by blast
  have resolved: "\<exists>y. mapped (entLeases e) f (rsLeases s) l = Some y \<and> leaseState y \<in> {LeaseActive, LeaseClosed} \<and> length (leaseReady y) = 1"
    if "f = activate_opening g \<or> (\<exists>c. f = closeLeaseLocked c True)" for f
    using that x e(2) empty
    by (auto simp: mapped_def activate_opening_def activateLeaseLocked_def closeLeaseLocked_def)
  show ?thesis using step ev
  proof (cases rule: resource_step.cases)
    case (rs_publish k' g' now)
    then have w: "WPublish k g \<in> rsWorkers s" and t: "t = publishStart o' now s k g" using ev by simp_all
    obtain f where f: "rsLeases t = mapped (entLeases e) f (rsLeases s)"
        "f = activate_opening g \<or> (\<exists>c. f = closeLeaseLocked c True)"
      using publish_leases [OF inv w e(1) st [OF w] closing, of o' now] unfolding t by auto
    show ?thesis unfolding f(1) by (rule resolved [OF f(2)])
  next
    case (rs_cleanup k' g' cause i obs now)
    then have w: "WCleanup k g cause i \<in> rsWorkers s" and t: "t = cleanupReturned o' now s k g cause i obs" using ev by simp_all
    show ?thesis unfolding t cleanup_leases [OF inv w e(1) st [OF w, simplified] closing]
      by (rule resolved) blast
  qed simp_all
qed

theorem start_resolves_leases_witness:
  "\<exists>y. rsLeases demo_ready 0 = Some y \<and> leaseState y \<in> {LeaseActive, LeaseClosed} \<and> length (leaseReady y) = 1"
proof (rule start_resolves_leases [where x = "demo_lease\<lparr>leaseState := LeaseOpening, leaseReady := []\<rparr>"])
  show "run demo_step NewResourceRegistry [REAcquire demo_key 0 (Inr 0), REStartReturned demo_key 1] demo_started"
    using run_append [OF demo_run_starting, of "[REStartReturned demo_key 1]" demo_started]
      rs_start [of demo_key 1 demo_starting demo_options demo_report] demo_starting_eq(2)
    by (simp add: run_Cons_iff demo_started_def)
  show "demo_step demo_started (REPublish demo_key 1) demo_ready"
    unfolding demo_ready_def by (rule rs_publish) (simp add: demo_started_eq)
  show "rsLeases demo_started 0 = Some (demo_lease\<lparr>leaseState := LeaseOpening, leaseReady := []\<rparr>)"
    by (simp add: demo_started_state demo_starting_eq)
qed (simp_all add: demo_lease_def)

text \<open>
  A resource is stopped only while nobody uses it: while a stop of a key is under way, no
  lease of that key is active and none of its connectors is open.
\<close>

theorem stop_only_unused:
  assumes run: "run (resource_step o') NewResourceRegistry es s" and w: "WStop k g i \<in> rsWorkers s"
  shows "(case rsLeases s l of None \<Rightarrow> True
     | Some x \<Rightarrow> if leaseKey x = k then leaseState x \<noteq> LeaseActive else True) \<and>
    (case rsConnectors s c of None \<Rightarrow> True | Some y \<Rightarrow> if connKey y = k then connClosed y else True)"
proof -
  have inv: "resource_inv s" by (rule run_from_New [OF run])
  obtain e where e: "entry_of s k = Some e" "entState e = StateStopping" "entConnectors e = {}"
    using stop_worker_entry [OF inv w] by blast
  note hd = inv_entry(2) [OF inv e(1)]
  have "leaseState x \<noteq> LeaseActive" if x: "rsLeases s l = Some x" "leaseKey x = k" for x
  proof
    assume active: "leaseState x = LeaseActive"
    then have "l \<in> entLeases e" using handles_SomeD(1) [OF hd x] by simp
    from entry_lease_key(2) [OF inv e(1) this x(1)] e(2) active show False by (simp add: entry_lease_ok_def)
  qed
  moreover have "connClosed y" if y: "rsConnectors s c = Some y" "connKey y = k" for y
    using handles_SomeD(2) [OF hd y] e(3) by blast
  ultimately show ?thesis by (auto split: option.split)
qed

theorem stop_only_unused_witness:
  "WStop demo_key 1 (Some 1) \<in> rsWorkers demo_closing \<and>
   (case rsLeases demo_closing 0 of None \<Rightarrow> True
    | Some x \<Rightarrow> if leaseKey x = demo_key then leaseState x \<noteq> LeaseActive else True)"
proof -
  have run: "run demo_step NewResourceRegistry (demo_up @ [REShutdown]) demo_closing"
    by (rule run_append [OF demo_run_up]) (simp add: run_Cons_iff demo_closing_def rs_shutdown)
  have w: "WStop demo_key 1 (Some 1) \<in> rsWorkers demo_closing" by (simp add: demo_closing_eq)
  from stop_only_unused [OF run w, of 0 0] w show ?thesis by blast
qed

definition in_backoff :: "instant \<Rightarrow> resource_state \<Rightarrow> resource_key \<Rightarrow> bool" where
  "in_backoff now s k =
     (case entry_of s k of
        None \<Rightarrow> False
      | Some e \<Rightarrow> entState e = StateFailed \<and> \<not> entStartPending e \<and> entInstance e = None \<and> now < entRetryDeadline e)"

lemma reserve_result:
  assumes inv: "resource_inv s" and acq: "reserveLocked o' now s k idle = (t, res)"
  shows "case res of
      Inr l \<Rightarrow> \<not> rsClosing s \<and> rsLeases s l = None \<and> \<not> in_backoff now s k \<and>
        (\<exists>x. rsLeases t l = Some x \<and> leaseKey x = k \<and> leaseState x \<in> {LeaseOpening, LeaseActive})
    | Inl err \<Rightarrow> (t = s \<or> err = GenerationExhausted)"
proof (cases res)
  case (Inl err)
  with acq show ?thesis
    by (auto simp: reserveLocked_def Let_def startLocked_def nextGenerationLocked_def
        split: if_splits sum.splits option.splits resource_phase.splits prod.splits)
next
  case (Inr l)
  with acq obtain e where open_reg: "\<not> rsClosing s" and e: "entryWithIdleLocked now s k idle = Inr e" "reserve_check now e = None"
    by (auto simp: reserveLocked_def split: if_splits sum.splits option.splits)
  have "\<not> in_backoff now s k"
    using e by (auto simp: in_backoff_def entryWithIdleLocked_def reserve_check_def split: option.splits if_splits)
  moreover have "l = rsNextHandle s"
    using acq Inr by (auto simp: reserveLocked_def Let_def startLocked_def nextGenerationLocked_def
        split: if_splits sum.splits option.splits resource_phase.splits prod.splits)
  moreover have "\<exists>x. rsLeases t (rsNextHandle s) = Some x \<and> leaseKey x = k \<and> leaseState x \<in> {LeaseOpening, LeaseActive}"
    using acq Inr open_reg e
    by (auto simp: reserveLocked_def Let_def startLocked_def nextGenerationLocked_def rs_simps mapped_def
        new_lease_def activateLeaseLocked_def assign_generation_def
        split: if_splits sum.splits option.splits resource_phase.splits prod.splits)
  ultimately show ?thesis using Inr open_reg handle_fresh [OF inv] by simp
qed

text \<open>
  What acquiring returns: a lease is fresh, belongs to the key and is open, and is granted
  only for a valid key while the registry is not shutting down; an error leaves the registry
  unchanged unless the generation numbers are exhausted. During the retry window of a failed
  resource the error is the retry deadline.
\<close>

theorem Acquire_result:
  assumes run: "run (resource_step o') NewResourceRegistry es s"
    and acq: "AcquireWithPolicy o' now ctxErr s k idle = (t, res)"
  shows "case res of
      Inr l \<Rightarrow> validKey k \<and> \<not> rsClosing s \<and> rsLeases s l = None \<and> \<not> in_backoff now s k \<and>
        (\<exists>x. rsLeases t l = Some x \<and> leaseKey x = k \<and> leaseState x \<in> {LeaseOpening, LeaseActive})
    | Inl err \<Rightarrow> (t = s \<or> err = GenerationExhausted)"
  using acq reserve_result [OF run_from_New [OF run]]
  by (auto simp: AcquireWithPolicy_def Let_def split: if_splits option.splits sum.splits) fastforce+

theorem Acquire_result_witness:
  "validKey demo_key \<and> (\<exists>x. rsLeases demo_starting 0 = Some x \<and> leaseKey x = demo_key \<and>
     leaseState x \<in> {LeaseOpening, LeaseActive})"
  using Acquire_result [OF run_nil demo_starting_eq(1)] by simp

section \<open>Retry backoff, scopes and options\<close>

definition option_durations :: "resource_options \<Rightarrow> duration list" where
  "option_durations o' =
     [optIdleTimeout o', optStartTimeout o', optStopGrace o', optKillGrace o', optBackoffInitial o',
      optBackoffMaximum o', optFailureRetention o', optStableReady o']"

text \<open>
  The options a registry runs with: a successful normalisation keeps every duration the
  caller set, makes every one positive and orders the backoff bounds; a negative duration or a
  maximum below the initial backoff is refused.
\<close>

theorem options_normalized_ok:
  "case options_normalized draw o' of
     Inr n \<Rightarrow> filter (\<lambda>d. d \<le> 0) (option_durations n) = [] \<and> optBackoffInitial n \<le> optBackoffMaximum n \<and>
       filter (\<lambda>(d, d'). d \<noteq> 0 \<and> d' \<noteq> d) (zip (option_durations o') (option_durations n)) = [] \<and>
       optJitter n \<noteq> None
   | Inl _ \<Rightarrow> 0 < length (filter (\<lambda>d. d < 0) (option_durations o')) \<or>
       or_default (optBackoffMaximum o') (60 * Second) < or_default (optBackoffInitial o') Second"
proof (cases "validateNonNegativeDurations o'")
  case None
  then have pos: "list_all (\<lambda>d. 0 \<le> d) (option_durations o')"
    by (auto simp: validateNonNegativeDurations_def option_durations_def verdict_simps)
  define n where "n = o'\<lparr>
             optIdleTimeout := or_default (optIdleTimeout o') (300 * Second),
             optStartTimeout := or_default (optStartTimeout o') (120 * Second),
             optStopGrace := or_default (optStopGrace o') ResourceStopGrace,
             optKillGrace := or_default (optKillGrace o') ResourceKillGrace,
             optBackoffInitial := or_default (optBackoffInitial o') Second,
             optBackoffMaximum := or_default (optBackoffMaximum o') (60 * Second),
             optFailureRetention := or_default (optFailureRetention o') (300 * Second),
             optStableReady := or_default (optStableReady o') (30 * Second),
             optJitter := (case optJitter o' of None \<Rightarrow> Some (defaultJitter draw) | j \<Rightarrow> j)\<rparr>"
  have body: "options_normalized draw o' =
      (if optBackoffMaximum n < optBackoffInitial n then Inl BackoffMaximumBelowInitial else Inr n)"
    using None unfolding options_normalized_def n_def Let_def by simp
  have durs: "option_durations n = map2 or_default (option_durations o')
      [300 * Second, 120 * Second, ResourceStopGrace, ResourceKillGrace, Second, 60 * Second, 300 * Second, 30 * Second]"
    by (simp add: option_durations_def n_def)
  have "filter (\<lambda>d. d \<le> 0) (option_durations n) = []"
    using pos unfolding durs
    by (simp add: option_durations_def or_default_def Second_def ResourceStopGrace_def ResourceKillGrace_def)
  moreover have "filter (\<lambda>(d, d'). d \<noteq> 0 \<and> d' \<noteq> d) (zip (option_durations o') (option_durations n)) = []"
    unfolding durs by (simp add: option_durations_def or_default_def)
  moreover have "optJitter n \<noteq> None" by (simp add: n_def split: option.split)
  moreover have "optBackoffMaximum n = or_default (optBackoffMaximum o') (60 * Second)"
    "optBackoffInitial n = or_default (optBackoffInitial o') Second"
    by (simp_all add: n_def)
  ultimately show ?thesis unfolding body by auto
next
  case (Some err)
  have "\<not> (\<forall>d \<in> set (option_durations o'). 0 \<le> d)"
  proof
    assume "\<forall>d \<in> set (option_durations o'). 0 \<le> d"
    then have "validateNonNegativeDurations o' = None"
      by (simp add: validateNonNegativeDurations_def option_durations_def verdict_simps)
    with Some show False by simp
  qed
  then have "filter (\<lambda>d. d < 0) (option_durations o') \<noteq> []" by (auto simp: filter_empty_conv not_le)
  with Some show ?thesis by (simp add: options_normalized_def)
qed

text \<open>
  The retry schedule: under normalised options a failure moves the entry to the failed
  state with the next retry after the bounded exponential backoff: the base is the initial
  delay doubled for every further consecutive failure and capped at the maximum, the jittered
  delay is positive, at least half the base and at most the maximum, and the failure count
  never wraps.
\<close>

theorem failLocked_backoff:
  assumes "0 < optBackoffInitial o'" and "optBackoffInitial o' \<le> optBackoffMaximum o'"
  shows "let f = failLocked o' now e msg; n = unat (entFailures f);
             base = min (optBackoffInitial o' * 2 ^ (n - 1)) (optBackoffMaximum o');
             delay = entRetryDeadline f - now
         in entState f = StateFailed \<and> 0 < n \<and> 0 < delay \<and> base div 2 \<le> delay \<and>
            delay \<le> optBackoffMaximum o' \<and>
            (n = 1 \<or> n = Suc (unat (entFailures e)) \<or> n = unat (entFailures e)) \<and>
            entFailureDeadline f = entRetryDeadline f + optFailureRetention o'"
proof -
  define c where "c = (if entReadyAt e \<noteq> 0 \<and> optStableReady o' \<le> now - entReadyAt e then 0 else entFailures e)"
  define n where "n = (if c < - 1 then c + 1 else c)"
  have n: "n \<noteq> 0" "unat n = 1 \<or> unat n = Suc (unat (entFailures e)) \<or> unat n = unat (entFailures e)"
  proof -
    have suc: "unat (c + 1) = Suc (unat c)" if "c < - 1"
    proof -
      have "1 + c \<noteq> 0" using that by (metis add.commute eq_neg_iff_add_eq_0 less_irrefl)
      then show ?thesis using unatSuc [of c] by (simp add: add.commute)
    qed
    have pos: "(0 :: 32 word) < - 1" by (simp add: word_neq_0_conv [symmetric])
    then show "n \<noteq> 0" using suc by (auto simp: n_def)
    show "unat n = 1 \<or> unat n = Suc (unat (entFailures e)) \<or> unat n = unat (entFailures e)"
      using suc pos by (auto simp: n_def c_def split: if_splits)
  qed
  have f: "failLocked o' now e msg = scheduleFailureRetentionLocked o'
       (e\<lparr>entFailures := n, entState := StateFailed, entRetryDeadline := now + backoff_delay o' n, entUpdatedAt := now,
          entLastError := msg, entIdleDeadline := zero_time\<rparr>)"
    by (simp add: failLocked_def Let_def n_def c_def)
  have base: "backoff_base o' n = min (optBackoffInitial o' * 2 ^ (unat n - 1)) (optBackoffMaximum o')"
    using assms by (simp add: backoff_base_def backoff_loop_eq)
  show ?thesis
    using backoff_delay_bounds [OF assms, of n] n
    by (simp add: f scheduleFailureRetentionLocked_def cancelFailureRetentionLocked_def Let_def unat_gt_0 base)
qed

theorem failLocked_backoff_witness:
  "let f = failLocked demo_options 9 (new_entry 100 7) ''boom''
   in entState f = StateFailed \<and> 0 < entRetryDeadline f - 9 \<and> entRetryDeadline f - 9 \<le> 20"
  using failLocked_backoff [of demo_options 9 "new_entry 100 7" "''boom''"] by (simp add: demo_options_def Let_def)

text \<open>
  Sharing scopes only narrow: a resolved scope is the narrowest of the requested scope and
  the scopes of all mounts, and it is the run scope whenever the resource holds run authority;
  any unknown scope or authority is an error.
\<close>

theorem EffectiveScope_narrowest:
  "case EffectiveScope requested mounts authority of
     Inr effective \<Rightarrow>
       scope_rank effective = Inr (if authority = RunAuthorityPresent then 3
         else Max (insert (scope_order requested) ((\<lambda>m. scope_order (rmScope m)) ` set mounts))) \<and>
       authority \<in> {RunAuthorityPresent, RunAuthorityAbsent}
   | Inl _ \<Rightarrow> if authority \<in> {RunAuthorityPresent, RunAuthorityAbsent}
       then 0 < length (filter (\<lambda>s. s \<notin> {ScopeUser, ScopeHome, ScopeProject, ScopeRun}) (requested # map rmScope mounts))
       else True"
proof -
  have bad: "s \<notin> {ScopeUser, ScopeHome, ScopeProject, ScopeRun}" if "scope_rank s = Inl x" for s x
    using that by (auto simp: scope_rank_def split: if_splits)
  have mount_bad: "\<exists>m \<in> set ms. rmScope m \<notin> {ScopeUser, ScopeHome, ScopeProject, ScopeRun}"
    if "narrow_by_mounts r e ms = Inl x" for r e ms x
    using that by (induction r e ms rule: narrow_by_mounts.induct) (auto split: sum.splits if_splits dest: bad)
  show ?thesis
  proof (cases "scope_rank requested")
    case (Inl x)
    with bad show ?thesis by (simp add: EffectiveScope_def)
  next
    case (Inr r)
    note r = scope_rank_Inr [OF Inr]
    show ?thesis
    proof (cases "narrow_by_mounts r requested mounts")
      case Inl': (Inl x)
      from mount_bad [OF this] Inr Inl' show ?thesis
        by (auto simp: EffectiveScope_def filter_empty_conv)
    next
      case Inr': (Inr e)
      from narrow_by_mounts_spec [OF this Inr] Inr Inr' r show ?thesis
        by (auto simp: EffectiveScope_def scope_defs) (simp add: scope_rank_def scope_defs)
    qed
  qed
qed

end
