(* ===== verification/Tools.thy ===== *)
theory Tools
  imports Prelude
begin

text \<open>
  \<open>internal/tools\<close>: a tool's declarative identity (\<open>base.go\<close>), the registry of tools and the
  resolution of a launch selection (\<open>registry.go\<close>), and the deterministic topological sort that
  is the only source of launch order (\<open>order.go\<close>). A Go map is an association list with distinct
  keys; where the code ranges over a map, the iteration order is a parameter. Strings are
  ordered lexicographically by byte, as Go's \<open><\<close> and \<open>sort.Strings\<close> do.
\<close>

section \<open>Tools\<close>

record tool =
  toolName :: string
  toolDisplayName :: string
  toolCLIName :: string
  toolLaunchHelp :: string
  toolGroup :: string
  toolContextGroups :: "string list"
  toolDependencies :: "string list"

definition CommandName :: "tool \<Rightarrow> string" where
  "CommandName t = (if toolCLIName t \<noteq> '''' then toolCLIName t else toolName t)"

definition DisplayName :: "tool \<Rightarrow> string" where
  "DisplayName t = (if toolDisplayName t \<noteq> '''' then toolDisplayName t else toolName t)"

datatype tools_error =
    EmptyToolName
  | DuplicateTool string
  | UnknownDependency string string
  | DependencyCycle "string list"
  | UnknownTool string
  | UnknownPrimary string

section \<open>Topological order\<close>

text \<open>\<open>byName\<close>: a later item of the same name overwrites an earlier one.\<close>

definition by_name :: "tool list \<Rightarrow> string \<Rightarrow> tool option" where
  "by_name items = map_of (rev (map (\<lambda>t. (toolName t, t)) items))"

definition dependenciesEmitted :: "tool \<Rightarrow> tool list \<Rightarrow> string set \<Rightarrow> bool" where
  "dependenciesEmitted item items emitted =
     list_all (\<lambda>dep. \<not> (by_name items dep \<noteq> None \<and> dep \<notin> emitted)) (toolDependencies item)"

definition unemitted :: "tool list \<Rightarrow> string set \<Rightarrow> string list" where
  "unemitted items emitted = sort (filter (\<lambda>n. n \<notin> emitted) (map toolName items))"

text \<open>The inner loop: the smallest ready name so far, the empty string when there is none.\<close>

fun next_ready :: "tool list \<Rightarrow> string set \<Rightarrow> string \<Rightarrow> tool list \<Rightarrow> string" where
  "next_ready items emitted next [] = next"
| "next_ready items emitted next (item # rest) =
     (if toolName item \<in> emitted \<or> \<not> dependenciesEmitted item items emitted
      then next_ready items emitted next rest
      else if next = '''' \<or> toolName item < next then next_ready items emitted (toolName item) rest
      else next_ready items emitted next rest)"

function topo_loop :: "tool list \<Rightarrow> string set \<Rightarrow> tool list \<Rightarrow> tools_error + tool list" where
  "topo_loop items emitted result =
     (if length result < length items then
        (let next = next_ready items emitted '''' items in
         if next = '''' then Inl (DependencyCycle (unemitted items emitted))
         else (case by_name items next of
                 None \<Rightarrow> Inl (DependencyCycle (unemitted items emitted))
               | Some t \<Rightarrow> topo_loop items (insert next emitted) (result @ [t])))
      else Inr result)"
  by pat_completeness auto
termination
  by (relation "measure (\<lambda>(items, emitted, result). length items - length result)") auto

declare topo_loop.simps [simp del]

definition topologicalOrder :: "tool list \<Rightarrow> tools_error + tool list" where
  "topologicalOrder items = topo_loop items {} []"

section \<open>The registry\<close>

definition GroupAI :: string where "GroupAI = ''ai''"
definition GroupUI :: string where "GroupUI = ''ui''"
definition GroupSystem :: string where "GroupSystem = ''system''"
definition GroupVCS :: string where "GroupVCS = ''vcs''"
definition GroupCommand :: string where "GroupCommand = ''command''"

definition orderedGroups :: "string list" where
  "orderedGroups = [GroupAI, GroupUI, GroupSystem, GroupVCS, GroupCommand]"

record tool_registry =
  regTools :: "(string \<times> tool) list"
  regByGroup :: "(string \<times> string list) list"

definition group_names :: "tool_registry \<Rightarrow> string \<Rightarrow> string list" where
  "group_names r g = (case map_of (regByGroup r) g of None \<Rightarrow> [] | Some ns \<Rightarrow> ns)"

definition index_tool :: "tool_registry \<Rightarrow> tool \<Rightarrow> tool_registry" where
  "index_tool r item =
     (let r = r\<lparr>regTools := AList.update (toolName item) item (regTools r)\<rparr>
      in if toolGroup item \<noteq> ''''
         then r\<lparr>regByGroup := AList.update (toolGroup item)
                  (group_names r (toolGroup item) @ [toolName item]) (regByGroup r)\<rparr>
         else r)"

fun index_tools :: "tool_registry \<Rightarrow> tool list \<Rightarrow> tools_error + tool_registry" where
  "index_tools r [] = Inr r"
| "index_tools r (item # rest) =
     (if toolName item = '''' then Inl EmptyToolName
      else if map_of (regTools r) (toolName item) \<noteq> None then Inl (DuplicateTool (toolName item))
      else index_tools (index_tool r item) rest)"

definition check_dependencies :: "tool_registry \<Rightarrow> tool list \<Rightarrow> tools_error verdict" where
  "check_dependencies r items =
     each (\<lambda>item. each (\<lambda>dep. fail_if (map_of (regTools r) dep = None) (UnknownDependency (toolName item) dep))
                       (toolDependencies item)) items"

definition NewToolRegistry :: "tool list \<Rightarrow> tools_error + tool_registry" where
  "NewToolRegistry toolList =
     (case index_tools \<lparr>regTools = [], regByGroup = []\<rparr> toolList of
        Inl e \<Rightarrow> Inl e
      | Inr r \<Rightarrow>
          (let r = r\<lparr>regByGroup := map (\<lambda>(g, ns). (g, sort ns)) (regByGroup r)\<rparr> in
           case check_dependencies r toolList of
             Some e \<Rightarrow> Inl e
           | None \<Rightarrow>
               (case topologicalOrder toolList of
                  Inl e \<Rightarrow> Inl e
                | Inr _ \<Rightarrow> Inr r)))"

definition Get_tool :: "tool_registry \<Rightarrow> string \<Rightarrow> tool option" where
  "Get_tool r name = map_of (regTools r) name"

definition ToolNames :: "tool_registry \<Rightarrow> string list" where
  "ToolNames r = sort (map fst (regTools r))"

fun launch_names :: "tool_registry \<Rightarrow> string set \<Rightarrow> string list \<Rightarrow> string set \<times> tool list" where
  "launch_names r seen [] = (seen, [])"
| "launch_names r seen (name # rest) =
     (if name \<in> seen then launch_names r seen rest
      else
        (let (seen', result) = launch_names r (insert name seen) rest in
         case Get_tool r name of
           None \<Rightarrow> (seen', result)
         | Some item \<Rightarrow> if toolLaunchHelp item = '''' then (seen', result) else (seen', item # result)))"

definition LaunchTools :: "tool_registry \<Rightarrow> tool list" where
  "LaunchTools r = snd (launch_names r {} (concat (map (group_names r) orderedGroups)))"

fun first_seen :: "string set \<Rightarrow> string list \<Rightarrow> string list" where
  "first_seen seen [] = []"
| "first_seen seen (name # rest) =
     (if name \<in> seen then first_seen seen rest else name # first_seen (insert name seen) rest)"

definition ExpandGroups :: "tool_registry \<Rightarrow> string list \<Rightarrow> string list" where
  "ExpandGroups r groups =
     first_seen {} (concat (map (group_names r) (filter (\<lambda>g. g \<in> set groups) orderedGroups)))"

section \<open>Building a toolset\<close>

text \<open>
  \<open>gather\<close> adds a tool to the closure and then gathers its dependencies before it returns to the
  names still to be gathered; the pending names are the second argument.
\<close>

function gather :: "tool_registry \<Rightarrow> (string \<times> tool) list \<Rightarrow> string list \<Rightarrow> tools_error + (string \<times> tool) list" where
  "gather r closure [] = Inr closure"
| "gather r closure (name # rest) =
     (if map_of closure name \<noteq> None then gather r closure rest
      else case Get_tool r name of
        None \<Rightarrow> Inl (UnknownTool name)
      | Some item \<Rightarrow> gather r (closure @ [(name, item)]) (toolDependencies item @ rest))"
  by pat_completeness auto
termination
proof (relation "measures [\<lambda>(r, closure, names). card (fst ` set (regTools r) - fst ` set closure),
    \<lambda>(r, closure, names). length names]")
  fix r :: tool_registry and closure :: "(string \<times> tool) list" and name rest item
  assume new: "\<not> map_of closure name \<noteq> None" and item: "Get_tool r name = Some item"
  have "name \<in> fst ` set (regTools r)" using item by (force simp: Get_tool_def dest: map_of_SomeD)
  moreover have "name \<notin> fst ` set closure" using new by (simp add: map_of_eq_None_iff)
  ultimately have "card (fst ` set (regTools r) - fst ` set (closure @ [(name, item)])) <
      card (fst ` set (regTools r) - fst ` set closure)"
    by (intro psubset_card_mono) auto
  then show "((r, closure @ [(name, item)], toolDependencies item @ rest), r, closure, name # rest) \<in>
      measures [\<lambda>(r, closure, names). card (fst ` set (regTools r) - fst ` set closure),
        \<lambda>(r, closure, names). length names]"
    by simp
qed auto

record toolset =
  tsPrimary :: "tool option"
  tsOrdered :: "tool list"

text \<open>\<open>iterate\<close> is the order in which the closure map is ranged over.\<close>

definition Build ::
  "(tool list \<Rightarrow> tool list) \<Rightarrow> tool_registry \<Rightarrow> string list \<Rightarrow> string \<Rightarrow> tools_error + toolset"
where
  "Build iterate r requested primary =
     (case gather r [] requested of
        Inl e \<Rightarrow> Inl e
      | Inr closure \<Rightarrow>
          (case (if primary = '''' then Inr (closure, None)
                 else case Get_tool r primary of
                   None \<Rightarrow> Inl (UnknownPrimary primary)
                 | Some t \<Rightarrow>
                     (case gather r closure [primary] of
                        Inl e \<Rightarrow> Inl e
                      | Inr closure \<Rightarrow> Inr (closure, Some t))) of
             Inl e \<Rightarrow> Inl e
           | Inr (closure, primaryTool) \<Rightarrow>
               (case topologicalOrder (iterate (map snd closure)) of
                  Inl e \<Rightarrow> Inl e
                | Inr ordered \<Rightarrow> Inr \<lparr>tsPrimary = primaryTool, tsOrdered = ordered\<rparr>)))"

definition OrderedToolNames :: "toolset \<Rightarrow> string list" where
  "OrderedToolNames t = map toolName (tsOrdered t)"

end
