(* ===== verification/Tools_Proofs.thy ===== *)
theory Tools_Proofs
  imports Tools
begin

text \<open>
  The topological sort is sound, complete and independent of the order of its input; the
  closure of a selection under dependencies.
\<close>

section \<open>The dependency graph\<close>

definition tool_names :: "tool list \<Rightarrow> string set" where
  "tool_names items = toolName ` set items"

definition depends :: "tool list \<Rightarrow> (string \<times> string) set" where
  "depends items =
     {(d, toolName t) | d t. t \<in> set items \<and> d \<in> set (toolDependencies t) \<and> d \<in> tool_names items}"

definition well_named :: "tool list \<Rightarrow> bool" where
  "well_named items \<longleftrightarrow> distinct (map toolName items) \<and> '''' \<notin> tool_names items"

lemma by_name_None: "by_name items n = None \<longleftrightarrow> n \<notin> tool_names items"
  by (force simp: by_name_def map_of_eq_None_iff tool_names_def image_iff)

lemma by_name_Some: "by_name items n = Some t \<Longrightarrow> t \<in> set items \<and> toolName t = n"
  by (auto simp: by_name_def dest!: map_of_SomeD)

lemma by_name_unique:
  assumes "distinct (map toolName items)" "t \<in> set items" shows "by_name items (toolName t) = Some t"
proof -
  obtain u where u: "by_name items (toolName t) = Some u"
    using assms(2) by_name_None [of items "toolName t"] by (auto simp: tool_names_def)
  then have "u \<in> set items" "toolName u = toolName t" using by_name_Some by blast+
  then have "u = t" using assms by (auto simp: distinct_map inj_on_def)
  with u show ?thesis by simp
qed

lemma finite_depends: "finite (depends items)"
proof -
  have "depends items \<subseteq> tool_names items \<times> tool_names items"
    by (auto simp: depends_def tool_names_def)
  then show ?thesis by (rule finite_subset) (simp add: tool_names_def)
qed

section \<open>The choice of the next tool\<close>

definition ready :: "tool list \<Rightarrow> string set \<Rightarrow> string set" where
  "ready items emitted = {toolName t | t. t \<in> set items \<and> toolName t \<notin> emitted \<and> dependenciesEmitted t items emitted}"

lemma ready_finite: "finite (ready items emitted)"
  by (rule finite_subset [of _ "toolName ` set items"]) (auto simp: ready_def)

definition pick :: "string \<Rightarrow> string \<Rightarrow> string" where
  "pick next n = (if next = '''' \<or> n < next then n else next)"

lemma next_ready_fold:
  "next_ready items emitted next rest =
     foldl pick next (map toolName (filter (\<lambda>t. toolName t \<notin> emitted \<and> dependenciesEmitted t items emitted) rest))"
  by (induction items emitted "next" rest rule: next_ready.induct) (auto simp: pick_def)

lemma fold_pick_Min:
  "'''' \<notin> set ns \<Longrightarrow> next \<noteq> '''' \<Longrightarrow> foldl pick next ns = Min (insert next (set ns))"
proof (induction ns arbitrary: "next")
  case (Cons n ns)
  have "pick next n = min n next" using Cons.prems by (auto simp: pick_def min_def)
  moreover have "min n next \<noteq> []" using Cons.prems by (auto simp: min_def)
  ultimately have "foldl pick next (n # ns) = Min (insert (min n next) (set ns))"
    using Cons by simp
  also have "\<dots> = Min (insert next (set (n # ns)))"
    by (cases "set ns = {}") (simp_all add: min.commute min.left_commute)
  finally show ?case .
qed simp

lemma next_ready_Min:
  assumes "'''' \<notin> tool_names items"
  shows "next_ready items emitted '''' items =
     (if ready items emitted = {} then '''' else Min (ready items emitted))"
proof -
  define ns where "ns = map toolName (filter (\<lambda>t. toolName t \<notin> emitted \<and> dependenciesEmitted t items emitted) items)"
  have set: "set ns = ready items emitted" by (auto simp: ns_def ready_def)
  have "'''' \<notin> set ns" using assms by (auto simp: ns_def tool_names_def)
  moreover have "next_ready items emitted '''' items = foldl pick '''' ns" by (simp add: next_ready_fold ns_def)
  ultimately show ?thesis
    using fold_pick_Min [of "tl ns" "hd ns"] set by (cases ns) (auto simp: pick_def)
qed

section \<open>Soundness, completeness and determinism\<close>

text \<open>What is true of a prefix of the order: each tool of it follows its dependencies.\<close>

definition ordered_prefix :: "tool list \<Rightarrow> tool list \<Rightarrow> bool" where
  "ordered_prefix items result \<longleftrightarrow>
     distinct (map toolName result) \<and> set result \<subseteq> set items \<and>
     (\<forall>us t vs. result = us @ t # vs \<longrightarrow>
        (\<forall>d \<in> set (toolDependencies t). d \<in> tool_names items \<longrightarrow> d \<in> tool_names us))"

lemma ordered_prefix_snoc:
  assumes "ordered_prefix items result" "t \<in> set items" "toolName t \<notin> tool_names result"
    and "\<And>d. d \<in> set (toolDependencies t) \<Longrightarrow> d \<in> tool_names items \<Longrightarrow> d \<in> tool_names result"
  shows "ordered_prefix items (result @ [t])"
proof -
  have "d \<in> tool_names us"
    if "result @ [t] = us @ u # vs" "d \<in> set (toolDependencies u)" "d \<in> tool_names items" for us u vs d
  proof (cases vs rule: rev_cases)
    case Nil
    with that assms(4) show ?thesis by simp
  next
    case (snoc ws v)
    with that(1) have "result = us @ u # ws" by simp
    with assms(1) that(2,3) show ?thesis unfolding ordered_prefix_def by blast
  qed
  with assms show ?thesis by (auto simp: ordered_prefix_def tool_names_def)
qed

lemma topo_step:
  assumes named: "well_named items" and pre: "ordered_prefix items result"
    and n: "n = next_ready items (tool_names result) '''' items" "n \<noteq> ''''"
  obtains t where "by_name items n = Some t" "t \<in> set items" "toolName t = n"
    "ordered_prefix items (result @ [t])" "n \<in> ready items (tool_names result)"
    "tool_names (result @ [t]) = insert n (tool_names result)"
proof -
  have ne: "ready items (tool_names result) \<noteq> {}" "n = Min (ready items (tool_names result))"
    using n next_ready_Min [of items "tool_names result"] named by (auto simp: well_named_def split: if_splits)
  then have r: "n \<in> ready items (tool_names result)" using Min_in [OF ready_finite] by simp
  then obtain t where t: "t \<in> set items" "toolName t = n" "n \<notin> tool_names result"
      "dependenciesEmitted t items (tool_names result)"
    by (auto simp: ready_def)
  have "by_name items n = Some t" using by_name_unique t named by (auto simp: well_named_def)
  moreover have "ordered_prefix items (result @ [t])"
    by (rule ordered_prefix_snoc [OF pre t(1)])
      (use t in \<open>auto simp: dependenciesEmitted_def list_all_iff by_name_None\<close>)
  ultimately show ?thesis using that t r by (auto simp: tool_names_def)
qed

lemma topo_loop_sound:
  assumes "well_named items" "ordered_prefix items result" "topo_loop items (tool_names result) result = Inr out"
  shows "ordered_prefix items out \<and> length out \<ge> length items"
  using assms
proof (induction "length items - length result" arbitrary: result)
  case 0
  then show ?case by (simp add: topo_loop.simps)
next
  case (Suc m)
  then have len: "length result < length items" by simp
  define n where "n = next_ready items (tool_names result) '''' items"
  have n: "n \<noteq> ''''" using Suc.prems(3) len by (auto simp: topo_loop.simps n_def Let_def split: if_splits)
  obtain t where t: "by_name items n = Some t" "ordered_prefix items (result @ [t])"
      "tool_names (result @ [t]) = insert n (tool_names result)"
    using topo_step [OF Suc.prems(1,2) n_def n] by metis
  have "topo_loop items (tool_names (result @ [t])) (result @ [t]) = Inr out"
    using Suc.prems(3) len n t by (simp add: topo_loop.simps [of items "tool_names result"] Let_def flip: n_def)
  with Suc.hyps(1) [of "result @ [t]"] Suc.hyps(2) Suc.prems(1) t(2) show ?case by simp
qed

lemma ordered_prefix_full:
  assumes "well_named items" "ordered_prefix items out" "length out \<ge> length items"
  shows "set out = set items" "distinct out"
proof -
  have d: "distinct out" "distinct items" "set out \<subseteq> set items"
    using assms by (auto simp: ordered_prefix_def well_named_def distinct_map)
  then have "card (set out) \<ge> card (set items)" using assms(3) by (simp add: distinct_card)
  then show "set out = set items" using d(3) card_mono [OF _ d(3)] by (intro card_subset_eq) auto
  show "distinct out" by (rule d(1))
qed

lemma acyclic_of_order:
  assumes "ordered_prefix items out" "set out = set items"
  shows "acyclic (depends items)"
proof -
  have dist: "distinct (map toolName out)" using assms(1) by (simp add: ordered_prefix_def)
  define pos where "pos = (\<lambda>n. LEAST i. i < length out \<and> toolName (out ! i) = n)"
  have "pos d < pos n" if "(d, n) \<in> depends items" for d n
  proof -
    from that obtain t where t: "t \<in> set out" "toolName t = n" "d \<in> set (toolDependencies t)" "d \<in> tool_names items"
      by (auto simp: depends_def assms(2))
    then obtain i where i: "i < length out" "out ! i = t" by (auto simp: in_set_conv_nth)
    have same: "j = i" if "j < length out" "toolName (out ! j) = n" for j
      using that i t(2) dist nth_eq_iff_index_eq [of "map toolName out" j i] by simp
    have posn: "pos n = i"
      unfolding pos_def by (rule Least_equality) (use i t(2) same in \<open>force+\<close>)
    have "out = take i out @ t # drop (Suc i) out" using i id_take_nth_drop [OF i(1)] by simp
    moreover have "\<And>us u vs d. out = us @ u # vs \<Longrightarrow> d \<in> set (toolDependencies u) \<Longrightarrow> d \<in> tool_names items \<Longrightarrow>
        d \<in> tool_names us"
      using assms(1) by (simp add: ordered_prefix_def)
    ultimately have "d \<in> tool_names (take i out)" using t(3,4) by metis
    then obtain j where j: "j < i" "toolName (out ! j) = d" by (auto simp: tool_names_def in_set_conv_nth)
    then have "pos d \<le> j" unfolding pos_def using i by (intro Least_le) simp
    with j posn show ?thesis by simp
  qed
  then have "depends items \<subseteq> measure pos" by auto
  then show ?thesis by (rule acyclic_subset [rotated]) (rule wf_acyclic [OF wf_measure])
qed

lemma topo_loop_complete:
  assumes "well_named items" "acyclic (depends items)" "ordered_prefix items result"
  shows "\<exists>out. topo_loop items (tool_names result) result = Inr out"
  using assms(3)
proof (induction "length items - length result" arbitrary: result)
  case 0
  then show ?case by (simp add: topo_loop.simps)
next
  case (Suc m)
  then have len: "length result < length items" by simp
  let ?rest = "tool_names items - tool_names result"
  have dist: "distinct (map toolName items)" "distinct (map toolName result)"
    using assms(1) Suc.prems by (auto simp: well_named_def ordered_prefix_def)
  have "?rest \<noteq> {}"
  proof
    assume "?rest = {}"
    then have "card (tool_names items) \<le> card (tool_names result)"
      by (intro card_mono) (auto simp: tool_names_def)
    moreover have "card (tool_names items) = length items" "card (tool_names result) = length result"
      using distinct_card [OF dist(1)] distinct_card [OF dist(2)] by (simp_all add: tool_names_def)
    ultimately show False using len by simp
  qed
  then obtain n0 where n0: "n0 \<in> ?rest" by blast
  have "wf (depends items)" by (rule finite_acyclic_wf [OF finite_depends assms(2)])
  then obtain n where n: "n \<in> ?rest" "\<And>d. (d, n) \<in> depends items \<Longrightarrow> d \<notin> ?rest"
    using n0 wfE_min [of "depends items" n0 ?rest] by metis
  then obtain t where t: "t \<in> set items" "toolName t = n" by (auto simp: tool_names_def)
  have "dependenciesEmitted t items (tool_names result)"
    unfolding dependenciesEmitted_def list_all_iff
  proof (intro ballI notI, elim conjE)
    fix d assume "d \<in> set (toolDependencies t)" "by_name items d \<noteq> None" "d \<notin> tool_names result"
    then have "(d, n) \<in> depends items" "d \<in> ?rest"
      using t by (auto simp: depends_def by_name_None)
    with n(2) show False by blast
  qed
  then have ready: "n \<in> ready items (tool_names result)" using t n(1) by (auto simp: ready_def)
  define m' where "m' = next_ready items (tool_names result) '''' items"
  have m': "m' \<noteq> ''''"
  proof -
    have "Min (ready items (tool_names result)) \<in> ready items (tool_names result)"
      using ready by (intro Min_in ready_finite) auto
    moreover have "ready items (tool_names result) \<subseteq> tool_names items" by (auto simp: ready_def tool_names_def)
    ultimately show ?thesis
      using ready next_ready_Min [of items "tool_names result"] assms(1) by (auto simp: m'_def well_named_def)
  qed
  obtain u where u: "by_name items m' = Some u" "ordered_prefix items (result @ [u])"
      "tool_names (result @ [u]) = insert m' (tool_names result)"
    using topo_step [OF assms(1) Suc.prems m'_def m'] by metis
  have "m = length items - length (result @ [u])" using Suc.hyps(2) by simp
  from Suc.hyps(1) [OF this u(2)] obtain out
    where "topo_loop items (tool_names (result @ [u])) (result @ [u]) = Inr out" by blast
  then show ?case
    using len m' u by (simp add: topo_loop.simps [of items "tool_names result"] Let_def flip: m'_def)
qed

lemma tool_names_Nil [simp]: "tool_names [] = {}"
  by (simp add: tool_names_def)

lemma topologicalOrder_sound:
  assumes "well_named items" "topologicalOrder items = Inr out"
  shows "ordered_prefix items out" "set out = set items" "distinct out"
proof -
  have "ordered_prefix items []" by (simp add: ordered_prefix_def)
  from topo_loop_sound [OF assms(1) this] assms(2)
  have out: "ordered_prefix items out" "length out \<ge> length items" by (auto simp: topologicalOrder_def)
  from ordered_prefix_full [OF assms(1) this] out(1)
  show "ordered_prefix items out" "set out = set items" "distinct out" by simp_all
qed

lemma topologicalOrder_iff:
  assumes "well_named items"
  shows "(\<exists>out. topologicalOrder items = Inr out) \<longleftrightarrow> acyclic (depends items)"
proof
  assume "\<exists>out. topologicalOrder items = Inr out"
  then obtain out where "topologicalOrder items = Inr out" by blast
  from topologicalOrder_sound [OF assms this] show "acyclic (depends items)" by (intro acyclic_of_order)
next
  assume "acyclic (depends items)"
  from topo_loop_complete [OF assms this, of "[]"]
  show "\<exists>out. topologicalOrder items = Inr out" by (simp add: topologicalOrder_def ordered_prefix_def)
qed

text \<open>The result does not depend on the order in which the items are listed.\<close>

lemma well_named_perm:
  assumes "well_named items" "mset items = mset items'" shows "well_named items'"
proof -
  have "mset (map toolName items) = mset (map toolName items')" using assms(2) by simp
  then have "distinct (map toolName items')"
    using assms(1) mset_eq_imp_distinct_iff [of "map toolName items" "map toolName items'"] by (simp add: well_named_def)
  with assms show ?thesis by (auto simp: well_named_def tool_names_def dest: mset_eq_setD)
qed

lemma topo_loop_perm:
  assumes named: "well_named items" and perm: "mset items = mset items'"
  shows "topo_loop items emitted result = topo_loop items' emitted result"
proof -
  have same: "set items = set items'" "length items = length items'" "tool_names items = tool_names items'"
    using perm by (auto simp: tool_names_def dest: mset_eq_setD mset_eq_length)
  note named' = well_named_perm [OF named perm]
  have bn: "by_name items n = by_name items' n" for n
  proof (cases "n \<in> tool_names items")
    case True
    then obtain t where "t \<in> set items" "toolName t = n" by (auto simp: tool_names_def)
    then show ?thesis
      using by_name_unique [of items t] by_name_unique [of items' t] named named' same
      by (auto simp: well_named_def)
  qed (use by_name_None same in metis)
  have dep: "dependenciesEmitted t items E = dependenciesEmitted t items' E" for t E
    by (simp add: dependenciesEmitted_def bn)
  have rd: "ready items E = ready items' E" for E by (simp add: ready_def dep same)
  have nx: "next_ready items E '''' items = next_ready items' E '''' items'" for E
    using next_ready_Min [of items E] next_ready_Min [of items' E] named named' rd by (simp add: well_named_def)
  have un: "unemitted items E = unemitted items' E" for E
    using perm unfolding unemitted_def by (intro properties_for_sort) simp_all
  show ?thesis
  proof (induction "length items - length result" arbitrary: emitted result)
    case 0
    then show ?case using same(2) by (simp add: topo_loop.simps)
  next
    case (Suc m)
    then show ?case
      using Suc.hyps(1) [of "result @ [t]" for t] Suc.hyps(2)
      by (simp add: topo_loop.simps [of items emitted] topo_loop.simps [of items' emitted] Let_def bn nx un same(2)
          split: option.split)
  qed
qed

lemma topologicalOrder_perm:
  "well_named items \<Longrightarrow> mset items = mset items' \<Longrightarrow> topologicalOrder items = topologicalOrder items'"
  by (simp add: topologicalOrder_def topo_loop_perm)

end
