(* ===== verification/Tools_Properties.thy ===== *)
theory Tools_Properties
  imports Tools_Proofs
begin

text \<open>
  Registration, closure and ordering of tools: what a valid registry guarantees, what a toolset
  contains, and that the iteration order of Go maps cannot be observed.
\<close>

section \<open>Valid registries\<close>

lemma index_tool_tools:
  assumes "map_of (regTools r) (toolName t) = None"
  shows "regTools (index_tool r t) = regTools r @ [(toolName t, t)]"
proof -
  have "AList.update k v al = al @ [(k, v)]" if "map_of al k = None" for k v and al :: "(string \<times> tool) list"
    using that by (induction al) (auto split: if_splits)
  with assms show ?thesis by (simp add: index_tool_def Let_def)
qed

lemma index_tool_group:
  "g \<noteq> '''' \<Longrightarrow> group_names (index_tool r t) g = group_names r g @ (if toolGroup t = g then [toolName t] else [])"
  by (auto simp: index_tool_def group_names_def Let_def update_conv')

lemma index_tools_ok:
  assumes "index_tools r ts = Inr r'" and "distinct (map fst (regTools r))"
  shows "regTools r' = regTools r @ map (\<lambda>t. (toolName t, t)) ts \<and> distinct (map fst (regTools r')) \<and>
    '''' \<notin> tool_names ts \<and>
    (\<forall>g. g \<noteq> '''' \<longrightarrow> group_names r' g = group_names r g @ map toolName (filter (\<lambda>t. toolGroup t = g) ts))"
  using assms
proof (induction ts arbitrary: r)
  case (Cons t ts)
  then have new: "toolName t \<noteq> ''''" "map_of (regTools r) (toolName t) = None"
    and rest: "index_tools (index_tool r t) ts = Inr r'"
    by (simp_all split: if_splits)
  have "distinct (map fst (regTools (index_tool r t)))"
    using Cons.prems(2) new(2) by (simp add: index_tool_tools map_of_eq_None_iff)
  note IH = Cons.IH [OF rest this]
  have d: "distinct (map fst (regTools r'))" by (rule conjunct1 [OF conjunct2 [OF IH]])
  show ?case
    by (intro conjI d) (use IH new in \<open>simp_all add: index_tool_tools index_tool_group tool_names_def\<close>)
qed (simp add: tool_names_def)

lemma index_tools_total:
  assumes "'''' \<notin> tool_names ts" "distinct (map fst (regTools r) @ map toolName ts)"
  shows "\<exists>r'. index_tools r ts = Inr r'"
  using assms
proof (induction ts arbitrary: r)
  case (Cons t ts)
  then have "map_of (regTools r) (toolName t) = None" by (auto simp: map_of_eq_None_iff)
  moreover have "toolName t \<noteq> ''''" using Cons.prems(1) by (auto simp: tool_names_def)
  ultimately show ?case
    using Cons.IH [of "index_tool r t"] Cons.prems by (auto simp: index_tool_tools tool_names_def)
qed simp

definition all_known :: "tool list \<Rightarrow> bool" where
  "all_known ts \<longleftrightarrow> (\<forall>t \<in> set ts. set (toolDependencies t) \<subseteq> tool_names ts)"

lemma map_of_named: "map_of (map (\<lambda>t. (toolName t, t)) ts) n = None \<longleftrightarrow> n \<notin> tool_names ts"
  by (simp add: map_of_eq_None_iff tool_names_def image_image)

lemma check_dependencies_None:
  "regTools r = map (\<lambda>t. (toolName t, t)) ts \<Longrightarrow> check_dependencies r ts = None \<longleftrightarrow> all_known ts"
  by (auto simp: check_dependencies_def all_known_def verdict_simps map_of_named)

lemma NewToolRegistry_ok:
  assumes "NewToolRegistry ts = Inr r"
  shows "well_named ts" "all_known ts" "acyclic (depends ts)" "regTools r = map (\<lambda>t. (toolName t, t)) ts"
    "g \<noteq> '''' \<Longrightarrow> group_names r g = sort (map toolName (filter (\<lambda>t. toolGroup t = g) ts))"
proof -
  from assms obtain r0 where r0: "index_tools \<lparr>regTools = [], regByGroup = []\<rparr> ts = Inr r0"
    and r: "r = r0\<lparr>regByGroup := map (\<lambda>(g, ns). (g, sort ns)) (regByGroup r0)\<rparr>"
    and chk: "check_dependencies r ts = None" and topo: "\<exists>out. topologicalOrder ts = Inr out"
    by (auto simp: NewToolRegistry_def Let_def split: sum.splits option.splits)
  note ok = index_tools_ok [OF r0]
  show tools: "regTools r = map (\<lambda>t. (toolName t, t)) ts" using ok r by simp
  have "distinct (map fst (map (\<lambda>t. (toolName t, t)) ts))" using ok by (metis append_Nil tool_registry.select_convs(1) list.map_disc_iff distinct.simps(1))
  then have "distinct (map toolName ts)" by (simp add: comp_def)
  then show named: "well_named ts" using ok by (simp add: well_named_def)
  show "all_known ts" using chk check_dependencies_None [OF tools] by simp
  show "acyclic (depends ts)" using topo topologicalOrder_iff [OF named] by blast
  assume g: "g \<noteq> ''''"
  have "group_names r g = sort (group_names r0 g)"
    by (simp add: r group_names_def map_of_map split: option.split)
  also have "group_names r0 g = map toolName (filter (\<lambda>t. toolGroup t = g) ts)"
    using ok g by (simp add: group_names_def)
  finally show "group_names r g = sort (map toolName (filter (\<lambda>t. toolGroup t = g) ts))" .
qed

section \<open>The closure of a selection\<close>

definition needs :: "tool_registry \<Rightarrow> (string \<times> string) set" where
  "needs r = {(n, d). \<exists>t. Get_tool r n = Some t \<and> d \<in> set (toolDependencies t)}"

definition needed :: "tool_registry \<Rightarrow> string set \<Rightarrow> string set" where
  "needed r S = (needs r)\<^sup>* `` S"

definition closure_ok :: "tool_registry \<Rightarrow> (string \<times> tool) list \<Rightarrow> bool" where
  "closure_ok r c \<longleftrightarrow> distinct (map fst c) \<and> (\<forall>n t. (n, t) \<in> set c \<longrightarrow> Get_tool r n = Some t)"

definition closed_upto :: "(string \<times> tool) list \<Rightarrow> string list \<Rightarrow> bool" where
  "closed_upto c pending \<longleftrightarrow>
     (\<forall>n t. (n, t) \<in> set c \<longrightarrow> set (toolDependencies t) \<subseteq> fst ` set c \<union> set pending)"

lemma gather_ok:
  assumes "gather r c ns = Inr c'" "closure_ok r c" "closed_upto c ns"
  shows "closure_ok r c' \<and> closed_upto c' [] \<and> fst ` set c \<union> set ns \<subseteq> fst ` set c' \<and>
    fst ` set c' \<subseteq> fst ` set c \<union> needed r (set ns)"
  using assms
proof (induction r c ns rule: gather.induct)
  case (1 r c)
  then show ?case by (auto simp: needed_def)
next
  case (2 r c name rest)
  show ?case
  proof (cases "map_of c name")
    case (Some t)
    then have seen: "name \<in> fst ` set c" by (force dest: map_of_SomeD)
    have "closed_upto c rest" using "2.prems"(3) seen by (auto simp: closed_upto_def)
    moreover have "needed r (set rest) \<subseteq> needed r (set (name # rest))" by (auto simp: needed_def)
    ultimately show ?thesis using "2.IH"(1) "2.prems"(1,2) Some seen by auto
  next
    case None
    then obtain item where item: "Get_tool r name = Some item"
      and rest: "gather r (c @ [(name, item)]) (toolDependencies item @ rest) = Inr c'"
      using "2.prems"(1) by (auto split: option.splits)
    have "closure_ok r (c @ [(name, item)])"
      using "2.prems"(2) None item by (auto simp: closure_ok_def map_of_eq_None_iff)
    moreover have "closed_upto (c @ [(name, item)]) (toolDependencies item @ rest)"
      using "2.prems"(3) by (auto simp: closed_upto_def)
    ultimately have IH: "closure_ok r c' \<and> closed_upto c' [] \<and>
        fst ` set (c @ [(name, item)]) \<union> set (toolDependencies item @ rest) \<subseteq> fst ` set c' \<and>
        fst ` set c' \<subseteq> fst ` set (c @ [(name, item)]) \<union> needed r (set (toolDependencies item @ rest))"
      using "2.IH"(2) [of item] None item rest by simp
    have "needed r (set (toolDependencies item)) \<subseteq> needed r {name}"
      using item by (auto simp: needed_def needs_def intro: converse_rtrancl_into_rtrancl)
    then have "needed r (set (toolDependencies item @ rest)) \<union> {name} \<subseteq> needed r (set (name # rest))"
      by (auto simp: needed_def)
    with IH show ?thesis by auto
  qed
qed

lemma needed_closed:
  assumes "closure_ok r c" "closed_upto c []" "S \<subseteq> fst ` set c" shows "needed r S \<subseteq> fst ` set c"
proof
  fix m assume "m \<in> needed r S"
  then obtain n where "n \<in> S" "(n, m) \<in> (needs r)\<^sup>*" by (auto simp: needed_def)
  from this(2,1) show "m \<in> fst ` set c"
  proof (induction rule: rtrancl_induct)
    case base
    then show ?case using assms(3) by blast
  next
    case (step y z)
    then obtain t where t: "(y, t) \<in> set c" by auto
    then have "Get_tool r y = Some t" using assms(1) by (auto simp: closure_ok_def)
    with step.hyps(2) have "z \<in> set (toolDependencies t)" by (simp add: needs_def)
    with t assms(2) show ?case by (auto simp: closed_upto_def)
  qed
qed

definition deps_registered :: "tool_registry \<Rightarrow> bool" where
  "deps_registered r \<longleftrightarrow>
     (\<forall>n t d. Get_tool r n = Some t \<longrightarrow> d \<in> set (toolDependencies t) \<longrightarrow> Get_tool r d \<noteq> None)"

lemma gather_total:
  assumes "deps_registered r" and "gather r c ns = Inl err"
  shows "\<exists>n \<in> set ns. Get_tool r n = None \<and> err = UnknownTool n"
  using assms
proof (induction r c ns rule: gather.induct)
  case (2 r c name rest)
  show ?case
  proof (cases "map_of c name")
    case (Some t)
    with "2.IH"(1) "2.prems" show ?thesis by auto
  next
    case None
    show ?thesis
    proof (cases "Get_tool r name")
      case unknown: None
      with None "2.prems"(2) show ?thesis by simp
    next
      case item: (Some item)
      with None "2.prems"(2) have "gather r (c @ [(name, item)]) (toolDependencies item @ rest) = Inl err" by simp
      from "2.IH"(2) [OF _ item "2.prems"(1) this] None
      obtain n where n: "n \<in> set (toolDependencies item @ rest)" "Get_tool r n = None" "err = UnknownTool n" by blast
      with "2.prems"(1) item show ?thesis by (fastforce simp: deps_registered_def)
    qed
  qed
qed simp


lemma registry_facts:
  assumes "NewToolRegistry ts = Inr r"
  shows "Get_tool r n = Some t \<longleftrightarrow> t \<in> set ts \<and> toolName t = n" "deps_registered r"
proof -
  note ok = NewToolRegistry_ok [OF assms]
  have dist: "distinct (map fst (map (\<lambda>t. (toolName t, t)) ts))" using ok(1) by (simp add: well_named_def comp_def)
  show get: "Get_tool r n = Some t \<longleftrightarrow> t \<in> set ts \<and> toolName t = n" for n t
    using distinct_map_of_iff [OF dist, of n t] by (auto simp: Get_tool_def ok(4))
  have "Get_tool r d \<noteq> None" if "Get_tool r n = Some t" "d \<in> set (toolDependencies t)" for n t d
  proof -
    have "t \<in> set ts" using that(1) get by simp
    with that(2) ok(2) obtain u where "u \<in> set ts" "toolName u = d" by (auto simp: all_known_def tool_names_def)
    then have "Get_tool r d = Some u" using get by simp
    then show ?thesis by simp
  qed
  then show "deps_registered r" by (simp add: deps_registered_def)
qed

text \<open>The tools of a closure form a well-named, acyclic set.\<close>

lemma closure_items:
  assumes reg: "NewToolRegistry ts = Inr r" and c: "closure_ok r c"
  shows "well_named (map snd c)" "acyclic (depends (map snd c))" "map toolName (map snd c) = map fst c"
    "set (map snd c) \<subseteq> set ts"
proof -
  note ok = NewToolRegistry_ok [OF reg] and get = registry_facts(1) [OF reg]
  have named: "toolName t = n \<and> t \<in> set ts" if "(n, t) \<in> set c" for n t
    using that c get by (auto simp: closure_ok_def)
  then show names: "map toolName (map snd c) = map fst c" by (auto simp: map_eq_conv)
  show sub: "set (map snd c) \<subseteq> set ts" using named by auto
  have "tool_names (map snd c) \<subseteq> tool_names ts" using sub by (auto simp: tool_names_def)
  then show "well_named (map snd c)"
    using c ok(1) unfolding well_named_def closure_ok_def names by auto
  have "depends (map snd c) \<subseteq> depends ts"
    using sub \<open>tool_names (map snd c) \<subseteq> tool_names ts\<close> by (fastforce simp: depends_def)
  then show "acyclic (depends (map snd c))" using ok(3) acyclic_subset by blast
qed

section \<open>Properties\<close>

definition example_tools :: "tool list" where
  "example_tools =
     [\<lparr>toolName = ''codex'', toolDisplayName = '''', toolCLIName = '''', toolLaunchHelp = ''Launch Codex'',
       toolGroup = ''ai'', toolContextGroups = [''vcs''], toolDependencies = [''npm'']\<rparr>,
      \<lparr>toolName = ''npm'', toolDisplayName = '''', toolCLIName = '''', toolLaunchHelp = '''',
       toolGroup = ''system'', toolContextGroups = [], toolDependencies = []\<rparr>,
      \<lparr>toolName = ''glab'', toolDisplayName = '''', toolCLIName = '''', toolLaunchHelp = '''',
       toolGroup = ''vcs'', toolContextGroups = [], toolDependencies = []\<rparr>]"

definition follows_dependencies :: "tool list \<Rightarrow> bool" where
  "follows_dependencies out =
     list_all (\<lambda>i. list_all (\<lambda>d. if d \<in> set (map toolName out) then d \<in> set (map toolName (take i out)) else True)
                 (toolDependencies (out ! i))) [0..<length out]"

lemma follows_of_prefix:
  assumes "ordered_prefix items out" "set out = set items" shows "follows_dependencies out"
proof -
  have "d \<in> tool_names (take i out)"
    if "i < length out" "d \<in> set (toolDependencies (out ! i))" "d \<in> tool_names items" for i d
  proof -
    have "out = take i out @ out ! i # drop (Suc i) out" using that(1) by (rule id_take_nth_drop)
    moreover have "\<And>us u vs d. out = us @ u # vs \<Longrightarrow> d \<in> set (toolDependencies u) \<Longrightarrow> d \<in> tool_names items \<Longrightarrow>
        d \<in> tool_names us"
      using assms(1) by (simp add: ordered_prefix_def)
    ultimately show ?thesis using that(2,3) by metis
  qed
  then show ?thesis using assms(2) by (auto simp: follows_dependencies_def list_all_iff tool_names_def)
qed

text \<open>
  C29. The topological sort of uniquely named tools returns a permutation of them in which every
  tool follows its dependencies, exactly when the dependency graph has no cycle, and otherwise
  reports a cycle.
\<close>

theorem topologicalOrder_correct:
  assumes "well_named items"
  shows "case topologicalOrder items of
      Inr out \<Rightarrow> mset out = mset items \<and> follows_dependencies out \<and> acyclic (depends items)
    | Inl e \<Rightarrow> \<not> acyclic (depends items)"
proof (cases "topologicalOrder items")
  case (Inl e)
  then show ?thesis using topologicalOrder_iff [OF assms] by auto
next
  case (Inr out)
  note s = topologicalOrder_sound [OF assms Inr]
  have "distinct items" using assms by (auto simp: well_named_def distinct_map)
  then have "mset out = mset items" using s(2,3) by (simp add: set_eq_iff_mset_eq_distinct)
  with Inr s topologicalOrder_iff [OF assms] follows_of_prefix show ?thesis by auto
qed

lemma example_named: "well_named example_tools"
  by (simp add: well_named_def example_tools_def tool_names_def)

theorem topologicalOrder_correct_witness:
  "case topologicalOrder example_tools of
      Inr out \<Rightarrow> mset out = mset example_tools \<and> follows_dependencies out \<and> acyclic (depends example_tools)
    | Inl e \<Rightarrow> \<not> acyclic (depends example_tools)"
  by (rule topologicalOrder_correct [OF example_named])

text \<open>
  C30. A registry is built exactly from tools with distinct, non-empty names whose dependencies
  are all registered and acyclic.
\<close>

theorem NewToolRegistry_iff:
  "(\<exists>r. NewToolRegistry ts = Inr r) \<longleftrightarrow> well_named ts \<and> all_known ts \<and> acyclic (depends ts)"
proof
  assume "\<exists>r. NewToolRegistry ts = Inr r"
  then show "well_named ts \<and> all_known ts \<and> acyclic (depends ts)" using NewToolRegistry_ok by blast
next
  assume ok: "well_named ts \<and> all_known ts \<and> acyclic (depends ts)"
  then obtain r0 where r0: "index_tools \<lparr>regTools = [], regByGroup = []\<rparr> ts = Inr r0"
    using index_tools_total [of ts "\<lparr>regTools = [], regByGroup = []\<rparr>"] by (auto simp: well_named_def)
  moreover obtain out where "topologicalOrder ts = Inr out" using ok topologicalOrder_iff by blast
  ultimately show "\<exists>r. NewToolRegistry ts = Inr r"
    using ok index_tools_ok [OF r0] check_dependencies_None [of "r0\<lparr>regByGroup := x\<rparr>" ts for x]
    by (simp add: NewToolRegistry_def Let_def)
qed

text \<open>
  C31. Building a toolset from a valid registry: it succeeds exactly when every requested tool and
  the primary are registered; the toolset then holds exactly the tools reachable from them
  through dependencies, each once and after its dependencies, with the primary recorded.
  Otherwise the error names a requested tool or primary that is not registered; a cycle is
  never reported.
\<close>

theorem Build_correct:
  assumes reg: "NewToolRegistry ts = Inr r" and iter: "\<And>xs. mset (iterate xs) = mset xs"
  shows "case Build iterate r requested primary of
      Inr s \<Rightarrow> distinct (OrderedToolNames s) \<and> follows_dependencies (tsOrdered s) \<and> set (tsOrdered s) \<subseteq> set ts \<and>
        set (OrderedToolNames s) = needed r (set requested \<union> (if primary = '''' then {} else {primary})) \<and>
        tsPrimary s = (if primary = '''' then None else Get_tool r primary) \<and>
        (if primary = '''' then True else primary \<in> set (OrderedToolNames s))
    | Inl e \<Rightarrow> (\<exists>n \<in> set requested. Get_tool r n = None \<and> e = UnknownTool n) \<or>
        (primary \<in> - {''''} \<and> Get_tool r primary = None \<and> e = UnknownPrimary primary)"
proof -
  note total = gather_total [OF registry_facts(2) [OF reg]]
  have start: "closure_ok r []" "closed_upto [] ns" for ns by (simp_all add: closure_ok_def closed_upto_def)
  have finish: "\<exists>out. topologicalOrder (iterate (map snd c)) = Inr out \<and>
      distinct (map toolName out) \<and> follows_dependencies out \<and> set out \<subseteq> set ts \<and> toolName ` set out = fst ` set c"
    if c: "closure_ok r c" for c
  proof -
    note items = closure_items [OF reg c]
    have perm: "topologicalOrder (iterate (map snd c)) = topologicalOrder (map snd c)"
      using topologicalOrder_perm [OF items(1), of "iterate (map snd c)"] iter by simp
    obtain out where out: "topologicalOrder (map snd c) = Inr out" using topologicalOrder_iff [OF items(1)] items(2) by blast
    note s = topologicalOrder_sound [OF items(1) out]
    have "toolName ` set out = fst ` set c" using s(2) items(3) by (metis list.set_map)
    with perm out s items follows_of_prefix [OF s(1,2)] show ?thesis
      by (auto simp: ordered_prefix_def)
  qed
  show ?thesis
  proof (cases "gather r [] requested")
    case (Inl e)
    then show ?thesis using total [OF Inl] by (auto simp: Build_def)
  next
    case (Inr c)
    note g = gather_ok [OF Inr start]
    have names: "fst ` set c = needed r (set requested)"
    proof
      show "fst ` set c \<subseteq> needed r (set requested)" using g by simp
      show "needed r (set requested) \<subseteq> fst ` set c" by (rule needed_closed) (use g in simp_all)
    qed
    show ?thesis
    proof (cases "primary = ''''")
      case True
      obtain out where out: "topologicalOrder (iterate (map snd c)) = Inr out" "distinct (map toolName out)"
          "follows_dependencies out" "set out \<subseteq> set ts" "toolName ` set out = fst ` set c"
        using finish [OF conjunct1 [OF g]] by blast
      show ?thesis using True Inr out names by (simp add: Build_def OrderedToolNames_def)
    next
      case prim: False
      show ?thesis
      proof (cases "Get_tool r primary")
        case None
        then show ?thesis using prim Inr by (simp add: Build_def)
      next
        case (Some t)
        obtain c2 where c2: "gather r c [primary] = Inr c2"
          using total [of c "[primary]"] Some by (cases "gather r c [primary]") auto
        have "closed_upto c [primary]" using g by (auto simp: closed_upto_def)
        note g2 = gather_ok [OF c2 conjunct1 [OF g] this]
        have "fst ` set c2 = needed r (set requested \<union> {primary})"
        proof
          show "fst ` set c2 \<subseteq> needed r (set requested \<union> {primary})"
            using g2 names by (simp add: needed_def) blast
          show "needed r (set requested \<union> {primary}) \<subseteq> fst ` set c2"
            by (rule needed_closed) (use g g2 in \<open>simp_all, blast\<close>)
        qed
        moreover obtain out where out: "topologicalOrder (iterate (map snd c2)) = Inr out" "distinct (map toolName out)"
            "follows_dependencies out" "set out \<subseteq> set ts" "toolName ` set out = fst ` set c2"
          using finish [OF conjunct1 [OF g2]] by blast
        moreover have "primary \<in> fst ` set c2" using g2 by simp
        ultimately show ?thesis using prim Some Inr c2
          by (simp add: Build_def OrderedToolNames_def del: gather.simps)
      qed
    qed
  qed
qed

lemma example_registry: "\<exists>r. NewToolRegistry example_tools = Inr r"
  by (simp add: NewToolRegistry_def example_tools_def index_tool_def group_names_def check_dependencies_def
      topologicalOrder_def topo_loop.simps dependenciesEmitted_def by_name_def Let_def)

theorem Build_correct_witness:
  "\<exists>r. NewToolRegistry example_tools = Inr r \<and>
     (case Build rev r [''codex''] '''' of
        Inr s \<Rightarrow> distinct (OrderedToolNames s) \<and> set (OrderedToolNames s) = needed r {''codex''}
      | Inl e \<Rightarrow> Get_tool r ''codex'' = None)"
proof -
  obtain r where r: "NewToolRegistry example_tools = Inr r" using example_registry by blast
  from Build_correct [OF r, of rev "[''codex'']" "''''"] r show ?thesis
    by (intro exI [of _ r]) (auto split: sum.splits)
qed

text \<open>
  The iteration order of the closure map cannot be observed: whatever order Go ranges over
  it, building a toolset gives the same result.
\<close>

theorem Build_deterministic:
  assumes reg: "NewToolRegistry ts = Inr r"
    and iter: "\<And>xs. mset (iterate xs) = mset xs" "\<And>xs. mset (iterate' xs) = mset xs"
  shows "Build iterate r requested primary = Build iterate' r requested primary"
proof -
  have same: "topologicalOrder (iterate (map snd c)) = topologicalOrder (iterate' (map snd c))" if "closure_ok r c" for c
    using topologicalOrder_perm [OF closure_items(1) [OF reg that], of "iterate (map snd c)"]
      topologicalOrder_perm [OF closure_items(1) [OF reg that], of "iterate' (map snd c)"] iter by simp
  have start: "closure_ok r []" "closed_upto [] ns" for ns by (simp_all add: closure_ok_def closed_upto_def)
  show ?thesis
  proof (cases "gather r [] requested")
    case (Inr c)
    have c: "closure_ok r c" "closed_upto c [primary]"
      using gather_ok [OF Inr start] by (auto simp: closed_upto_def)
    show ?thesis
    proof (cases "primary = ''''")
      case True
      with Inr same [OF c(1)] show ?thesis by (simp add: Build_def)
    next
      case False
      show ?thesis
      proof (cases "gather r c [primary]")
        case c2: (Inr c2)
        have "closure_ok r c2" using gather_ok [OF c2 c] by simp
        from same [OF this] Inr c2 False show ?thesis
          by (cases "Get_tool r primary") (simp_all add: Build_def del: gather.simps)
      next
        case (Inl e)
        with Inr False show ?thesis by (cases "Get_tool r primary") (simp_all add: Build_def del: gather.simps)
      qed
    qed
  qed (simp add: Build_def)
qed

theorem Build_deterministic_witness:
  "\<exists>r. NewToolRegistry example_tools = Inr r \<and> Build rev r [''codex''] ''codex'' = Build id r [''codex''] ''codex''"
  using example_registry Build_deterministic [of example_tools _ rev id] by auto

lemma first_seen_ok: "distinct (first_seen seen ns) \<and> set (first_seen seen ns) = set ns - seen"
  by (induction seen ns rule: first_seen.induct) auto

lemma launch_names_ok:
  "snd (launch_names r seen ns) =
     filter (\<lambda>t. toolLaunchHelp t \<noteq> '''') (List.map_filter (Get_tool r) (first_seen seen ns))"
  by (induction r seen ns rule: launch_names.induct)
    (auto simp: List.map_filter_simps case_prod_unfold Let_def split: option.split)


lemma orderedGroups_set: "set orderedGroups = {GroupAI, GroupUI, GroupSystem, GroupVCS, GroupCommand}" "'''' \<notin> set orderedGroups"
  by (simp_all add: orderedGroups_def GroupAI_def GroupUI_def GroupSystem_def GroupVCS_def GroupCommand_def)

lemma map_filter_Get:
  assumes "NewToolRegistry ts = Inr r" "distinct ns" "set ns \<subseteq> tool_names ts"
  shows "map toolName (List.map_filter (Get_tool r) ns) = ns \<and> set (List.map_filter (Get_tool r) ns) \<subseteq> set ts"
  using assms(3)
proof (induction ns)
  case (Cons n ns)
  then obtain t where "t \<in> set ts" "toolName t = n" by (auto simp: tool_names_def)
  then have "Get_tool r n = Some t" using registry_facts(1) [OF assms(1)] by simp
  with Cons \<open>t \<in> set ts\<close> \<open>toolName t = n\<close> show ?case by (simp add: List.map_filter_simps)
qed (simp add: List.map_filter_simps)

text \<open>
  Expanding groups yields, without duplicates, exactly the registered tools filed under a
  requested group that is one of the known groups; the launchable tools are exactly the grouped
  tools that have a launch description, each once.
\<close>

theorem groups_and_launch:
  assumes reg: "NewToolRegistry ts = Inr r"
  shows "distinct (ExpandGroups r groups) \<and>
     set (ExpandGroups r groups) =
       toolName ` {t. t \<in> set ts \<and> toolGroup t \<in> set groups \<and> toolGroup t \<in> set orderedGroups} \<and>
     distinct (map toolName (LaunchTools r)) \<and>
     set (LaunchTools r) = {t. t \<in> set ts \<and> toolGroup t \<in> set orderedGroups \<and> toolLaunchHelp t \<noteq> ''''}"
proof -
  note ok = NewToolRegistry_ok [OF reg]
  have grp: "set (group_names r g) = toolName ` {t \<in> set ts. toolGroup t = g}" if "g \<in> set orderedGroups" for g
  proof -
    have "g \<noteq> ''''" using that orderedGroups_set(2) by auto
    then show ?thesis using ok(5) [of g] by auto
  qed
  define ns where "ns = first_seen {} (concat (map (group_names r) orderedGroups))"
  have ns: "distinct ns" "set ns = toolName ` {t \<in> set ts. toolGroup t \<in> set orderedGroups}"
    using first_seen_ok [of "{}" "concat (map (group_names r) orderedGroups)"] grp by (auto simp: ns_def)
  have mf: "map toolName (List.map_filter (Get_tool r) ns) = ns" "set (List.map_filter (Get_tool r) ns) \<subseteq> set ts"
    using map_filter_Get [OF reg ns(1)] ns(2) by (auto simp: tool_names_def)
  have inj: "inj_on toolName (set ts)" using ok(1) by (simp add: well_named_def distinct_map)
  have mset: "set (List.map_filter (Get_tool r) ns) = {t \<in> set ts. toolGroup t \<in> set orderedGroups}"
  proof -
    have "toolName ` set (List.map_filter (Get_tool r) ns) = toolName ` {t \<in> set ts. toolGroup t \<in> set orderedGroups}"
      using mf(1) ns(2) by (metis list.set_map)
    then show ?thesis
      by (subst (asm) inj_on_image_eq_iff [OF inj mf(2)]) auto
  qed
  have launch: "LaunchTools r = filter (\<lambda>t. toolLaunchHelp t \<noteq> '''') (List.map_filter (Get_tool r) ns)"
    by (simp add: LaunchTools_def launch_names_ok ns_def)
  have "distinct (map toolName (LaunchTools r))"
    unfolding launch using mf(1) ns(1) by (metis distinct_map_filter)
  moreover have "set (LaunchTools r) = {t. t \<in> set ts \<and> toolGroup t \<in> set orderedGroups \<and> toolLaunchHelp t \<noteq> ''''}"
    unfolding launch using mset by auto
  moreover have "distinct (ExpandGroups r groups)" by (simp add: ExpandGroups_def first_seen_ok)
  moreover have "set (ExpandGroups r groups) =
      toolName ` {t. t \<in> set ts \<and> toolGroup t \<in> set groups \<and> toolGroup t \<in> set orderedGroups}"
    using grp by (auto simp: ExpandGroups_def first_seen_ok)
  ultimately show ?thesis by blast
qed

theorem groups_and_launch_witness:
  "\<exists>r. NewToolRegistry example_tools = Inr r \<and> distinct (ExpandGroups r [''vcs''])"
  using example_registry groups_and_launch by blast

end
