(* ===== verification/Paths.thy ===== *)
theory Paths
  imports Prelude "HOL-Library.Sublist"
begin

text \<open>
  The parts of Go's \<open>path\<close>, \<open>path/filepath\<close> (on Unix the same functions), \<open>strings\<close> and
  \<open>strconv\<close> the sandbox planner relies on, and the correspondence between clean absolute path
  strings and lists of components. On clean absolute paths every string test of the planner
  (prefix with a separator, \<open>filepath.Rel\<close>) is a prefix test on component lists.
\<close>

named_theorems path_simps \<open>path operations on paths given by their components\<close>

section \<open>Go's lexical path functions\<close>

abbreviation slash :: char where
  "slash \<equiv> CHR ''/''"

text \<open>\<open>strings.Split(s, "/")\<close> and \<open>strings.Join(ws, "/")\<close>.\<close>

fun split_slash :: "string \<Rightarrow> string list" where
  "split_slash [] = [[]]"
| "split_slash (c # s) =
     (if c = slash then [] # split_slash s
      else case split_slash s of [] \<Rightarrow> [[c]] | w # ws \<Rightarrow> (c # w) # ws)"

fun join_slash :: "string list \<Rightarrow> string" where
  "join_slash [] = []"
| "join_slash [w] = w"
| "join_slash (w # ws) = w @ slash # join_slash ws"

definition IsAbs :: "string \<Rightarrow> bool" where
  "IsAbs s = prefix ''/'' s"

text \<open>
  \<open>Clean\<close>: empty and \<open>.\<close> elements vanish, \<open>..\<close> removes the element before it, and at the root of
  a rooted path it vanishes. The second argument is the output so far, last element first.
\<close>

fun clean_walk :: "bool \<Rightarrow> string list \<Rightarrow> string list \<Rightarrow> string list" where
  "clean_walk rooted out [] = rev out"
| "clean_walk rooted out (c # cs) =
     (if c = '''' \<or> c = ''.'' then clean_walk rooted out cs
      else if c = ''..'' then
        (case out of
           [] \<Rightarrow> if rooted then clean_walk rooted [] cs else clean_walk rooted [''..''] cs
         | w # ws \<Rightarrow> if w = ''..'' then clean_walk rooted (''..'' # out) cs else clean_walk rooted ws cs)
      else clean_walk rooted (c # out) cs)"

definition Clean :: "string \<Rightarrow> string" where
  "Clean s =
     (let body = join_slash (clean_walk (IsAbs s) [] (split_slash s)) in
      if IsAbs s then slash # body else if body = '''' then ''.'' else body)"

text \<open>\<open>Split\<close> cuts after the last slash; \<open>Dir\<close> cleans the first part.\<close>

definition Dir :: "string \<Rightarrow> string" where
  "Dir s = Clean (rev (dropWhile (\<lambda>c. c \<noteq> slash) (rev s)))"

definition Base :: "string \<Rightarrow> string" where
  "Base s =
     (if s = '''' then ''.''
      else
        (let s = rev (dropWhile (\<lambda>c. c = slash) (rev s));
             s = rev (takeWhile (\<lambda>c. c \<noteq> slash) (rev s))
         in if s = '''' then ''/'' else s))"

definition Join :: "string \<Rightarrow> string \<Rightarrow> string" where
  "Join a b =
     (if a = '''' then (if b = '''' then '''' else Clean b)
      else Clean (a @ slash # b))"

text \<open>
  \<open>filepath.Rel\<close> on the elements of the two cleaned paths: the common elements are skipped,
  every element left of the base becomes \<open>..\<close>. A base element \<open>..\<close> met at the first difference
  cannot be undone (\<open>None\<close>).
\<close>

definition elements :: "string \<Rightarrow> string list" where
  "elements s = filter (\<lambda>w. w \<noteq> '''') (split_slash s)"

fun skip_common :: "string list \<Rightarrow> string list \<Rightarrow> string list \<times> string list" where
  "skip_common (b # bs) (t # ts) = (if b = t then skip_common bs ts else (b # bs, t # ts))"
| "skip_common bs ts = (bs, ts)"

definition Rel :: "string \<Rightarrow> string \<Rightarrow> string option" where
  "Rel basepath targpath =
     (let base = Clean basepath; targ = Clean targpath in
      if targ = base then Some ''.''
      else
        (let base = (if base = ''.'' then '''' else base) in
         if IsAbs base \<noteq> IsAbs targ then None
         else
           (let (bs, ts) = skip_common (elements base) (elements targ) in
            if bs \<noteq> [] \<and> ts \<noteq> [] \<and> hd bs = ''..'' then None
            else Some (join_slash (replicate (length bs) ''..'' @ ts)))))"

section \<open>Clean absolute paths by their components\<close>

definition good_element :: "string \<Rightarrow> bool" where
  "good_element w \<longleftrightarrow> w \<noteq> '''' \<and> w \<noteq> ''.'' \<and> w \<noteq> ''..'' \<and> slash \<notin> set w"

abbreviation good_elements :: "string list \<Rightarrow> bool" where
  "good_elements ws \<equiv> list_all good_element ws"

definition abs_path :: "string list \<Rightarrow> string" where
  "abs_path ws = slash # join_slash ws"

lemma good_elementD:
  assumes "good_element w" shows "w \<noteq> ''''" "w \<noteq> ''.''" "w \<noteq> ''..''" "slash \<notin> set w"
  using assms by (auto simp: good_element_def)

lemma split_slash_nonempty [simp]: "split_slash s \<noteq> []"
  by (cases s) (auto split: list.splits)

lemma split_slash_word: "slash \<notin> set w \<Longrightarrow> split_slash w = [w]"
  by (induction w) auto

lemma split_slash_append: "slash \<notin> set w \<Longrightarrow> split_slash (w @ slash # s) = w # split_slash s"
  by (induction w) auto

lemma split_join: "ws \<noteq> [] \<Longrightarrow> \<forall>w \<in> set ws. slash \<notin> set w \<Longrightarrow> split_slash (join_slash ws) = ws"
  by (induction ws rule: join_slash.induct) (auto simp: split_slash_word split_slash_append)

lemma split_slash_no_slash: "w \<in> set (split_slash s) \<Longrightarrow> slash \<notin> set w"
proof (induction s arbitrary: w)
  case (Cons c s)
  obtain v vs where "split_slash s = v # vs" by (cases "split_slash s") auto
  with Cons show ?case by (auto split: if_splits)
qed auto

lemma join_split [simp]: "join_slash (split_slash s) = s"
proof (induction s)
  case (Cons c s)
  obtain v vs where "split_slash s = v # vs" by (cases "split_slash s") auto
  with Cons show ?case by (cases vs) auto
qed auto

lemma clean_walk_good:
  assumes "good_elements ws" "list_all good_element (rev out)"
  shows "clean_walk r out ws = rev out @ ws"
  using assms by (induction ws arbitrary: out) (auto simp: good_element_def)

lemma clean_walk_rooted:
  assumes "good_elements out" "\<forall>w \<in> set ws. slash \<notin> set w"
  shows "good_elements (clean_walk True out ws)"
  using assms
proof (induction ws arbitrary: out)
  case Nil
  then show ?case by (simp add: list_all_iff)
next
  case (Cons w ws)
  then show ?case by (cases out) (auto simp: good_element_def)
qed

lemma split_abs_path: "good_elements ws \<Longrightarrow> split_slash (abs_path ws) = '''' # (if ws = [] then [''''] else ws)"
  by (auto simp: abs_path_def split_join list_all_iff good_element_def)

lemma IsAbs_abs_path [simp]: "IsAbs (abs_path ws)"
  by (simp add: IsAbs_def abs_path_def)

lemma Clean_abs_path [path_simps]: "good_elements ws \<Longrightarrow> Clean (abs_path ws) = abs_path ws"
  unfolding Clean_def by (simp add: split_abs_path clean_walk_good) (simp add: abs_path_def)

lemma elements_abs_path [path_simps]: "good_elements ws \<Longrightarrow> elements (abs_path ws) = ws"
  by (auto simp: elements_def split_abs_path list_all_iff good_element_def filter_id_conv)

lemma abs_path_inject [path_simps]:
  "good_elements us \<Longrightarrow> good_elements vs \<Longrightarrow> abs_path us = abs_path vs \<longleftrightarrow> us = vs"
  by (metis elements_abs_path)

lemma Clean_IsAbs:
  assumes "IsAbs s" obtains ws where "good_elements ws" "Clean s = abs_path ws"
proof
  show "good_elements (clean_walk True [] (split_slash s))"
    using split_slash_no_slash by (intro clean_walk_rooted) auto
  show "Clean s = abs_path (clean_walk True [] (split_slash s))"
    using assms by (simp add: Clean_def abs_path_def)
qed

lemma clean_abs_elements:
  assumes "IsAbs s" "Clean s = s" shows "good_elements (elements s)" "abs_path (elements s) = s"
proof -
  obtain ws where ws: "good_elements ws" "Clean s = abs_path ws" using Clean_IsAbs [OF assms(1)] .
  with assms(2) have "s = abs_path ws" by simp
  with ws(1) show "good_elements (elements s)" "abs_path (elements s) = s"
    by (simp_all add: elements_abs_path)
qed

lemma clean_abs_cases:
  assumes "IsAbs s" "Clean s = s" obtains ws where "good_elements ws" "s = abs_path ws"
  using clean_abs_elements [OF assms] that by metis

section \<open>Containment of paths\<close>

lemma split_slash_sep: "split_slash (a @ slash # t) = split_slash a @ split_slash t"
proof (induction a)
  case (Cons c a)
  obtain v vs where "split_slash a = v # vs" by (cases "split_slash a") auto
  with Cons show ?case by auto
qed auto

lemma abs_path_eq_root [path_simps]: "good_elements ws \<Longrightarrow> abs_path ws = ''/'' \<longleftrightarrow> ws = []"
  by (cases ws rule: join_slash.cases) (auto simp: abs_path_def good_element_def)

lemma abs_path_not_empty [simp]: "abs_path ws \<noteq> ''''"
  by (simp add: abs_path_def)

lemma join_slash_append:
  "us \<noteq> [] \<Longrightarrow> vs \<noteq> [] \<Longrightarrow> join_slash (us @ vs) = join_slash us @ slash # join_slash vs"
proof (induction us rule: join_slash.induct)
  case (2 w)
  then show ?case by (cases vs) auto
qed auto

lemma abs_path_append:
  "us \<noteq> [] \<Longrightarrow> vs \<noteq> [] \<Longrightarrow> abs_path (us @ vs) = abs_path us @ slash # join_slash vs"
  by (simp add: abs_path_def join_slash_append)

lemma contains_abs_path [path_simps]:
  assumes "good_elements us" "good_elements vs"
  shows "prefix (abs_path us @ ''/'') (abs_path vs) \<longleftrightarrow> us \<noteq> [] \<and> strict_prefix us vs"
proof
  assume "prefix (abs_path us @ ''/'') (abs_path vs)"
  then obtain t where "abs_path vs = abs_path us @ slash # t" by (auto simp: prefix_def)
  then have "split_slash (abs_path vs) = split_slash (abs_path us) @ split_slash t"
    by (simp add: split_slash_sep)
  then have eq: "(if vs = [] then [''''] else vs) = (if us = [] then [''''] else us) @ split_slash t"
    using assms by (simp add: split_abs_path)
  obtain v rest where t: "split_slash t = v # rest" by (cases "split_slash t") auto
  have "length (if vs = [] then [''''] else vs) = length (if us = [] then [''''] else us) + Suc (length rest)"
    unfolding eq by (simp add: t)
  then have "vs \<noteq> []" by (cases us) auto
  moreover have "us \<noteq> []" using eq assms(2) \<open>vs \<noteq> []\<close> by (auto split: if_splits simp: good_element_def)
  ultimately show "us \<noteq> [] \<and> strict_prefix us vs" using eq t by (auto intro: strict_prefixI')
next
  assume "us \<noteq> [] \<and> strict_prefix us vs"
  then obtain z zs where "us \<noteq> []" "vs = us @ z # zs" by (auto elim: strict_prefixE')
  then show "prefix (abs_path us @ ''/'') (abs_path vs)" by (simp add: abs_path_append)
qed

lemma Join_abs_path [path_simps]:
  assumes "good_elements ws" "good_element w" shows "Join (abs_path ws) w = abs_path (ws @ [w])"
proof -
  have "IsAbs (abs_path ws @ slash # w)" by (simp add: IsAbs_def abs_path_def)
  moreover have "split_slash w = [w]" using assms(2) by (intro split_slash_word) (simp add: good_element_def)
  moreover have "clean_walk True [] (split_slash (abs_path ws) @ [w]) = ws @ [w]"
    using clean_walk_good [of "ws @ [w]" "[]" True] assms by (auto simp: split_abs_path good_element_def)
  ultimately show ?thesis by (simp add: Join_def Clean_def split_slash_sep abs_path_def [of "ws @ [w]"])
qed

lemma last_cut:
  assumes "slash \<notin> set w"
  shows "rev (dropWhile (\<lambda>c. c \<noteq> slash) (rev (a @ slash # w))) = a @ ''/''"
    "rev (takeWhile (\<lambda>c. c \<noteq> slash) (rev (a @ slash # w))) = w"
proof -
  have w: "\<forall>c \<in> set (rev w). c \<noteq> slash" using assms by auto
  have r: "rev (a @ slash # w) = rev w @ slash # rev a" by simp
  show "rev (dropWhile (\<lambda>c. c \<noteq> slash) (rev (a @ slash # w))) = a @ ''/''"
    unfolding r using w by (subst dropWhile_append2) auto
  show "rev (takeWhile (\<lambda>c. c \<noteq> slash) (rev (a @ slash # w))) = w"
    unfolding r using w by (subst takeWhile_append2) auto
qed

lemma abs_path_snoc: "abs_path (ws @ [w]) = (if ws = [] then [] else abs_path ws) @ slash # w"
  by (simp add: abs_path_append) (simp add: abs_path_def)

lemma clean_walk_trailing: "clean_walk r out (us @ ['''']) = clean_walk r out us"
  by (induction us arbitrary: out) (auto split: list.splits)

lemma Clean_trailing:
  assumes "good_elements ws" "ws \<noteq> []" shows "Clean (abs_path ws @ ''/'') = abs_path ws"
proof -
  have "clean_walk True [] (split_slash (abs_path ws) @ ['''']) = ws"
    using assms clean_walk_good [of ws "[]" True] by (simp add: clean_walk_trailing split_abs_path)
  moreover have "IsAbs (abs_path ws @ ''/'')" by (simp add: IsAbs_def abs_path_def)
  moreover have "split_slash (abs_path ws @ ''/'') = split_slash (abs_path ws) @ ['''']"
    using split_slash_sep [of "abs_path ws" "''''"] by simp
  ultimately show ?thesis by (simp add: Clean_def abs_path_def [of ws])
qed

lemma Dir_abs_path [path_simps]:
  assumes "good_elements ws" "good_element w" shows "Dir (abs_path (ws @ [w])) = abs_path ws"
proof (cases "ws = []")
  case True
  have w: "slash \<notin> set w" using assms(2) by (simp add: good_element_def)
  have "abs_path [w] = [] @ slash # w" by (simp add: abs_path_def)
  then have "Dir (abs_path [w]) = Clean ''/''"
    unfolding Dir_def by (simp only: last_cut(1) [OF w]) simp
  moreover have "Clean ''/'' = abs_path []" by (simp add: Clean_def IsAbs_def abs_path_def)
  ultimately show ?thesis using True by simp
next
  case False
  have "slash \<notin> set w" using assms(2) by (simp add: good_element_def)
  then have "Dir (abs_path (ws @ [w])) = Clean (abs_path ws @ ''/'')"
    unfolding Dir_def abs_path_snoc if_not_P [OF False] by (subst last_cut(1)) simp_all
  with Clean_trailing [OF assms(1) False] show ?thesis by simp
qed

lemma Base_abs_path [path_simps]:
  assumes "good_element w" shows "Base (abs_path (ws @ [w])) = w"
proof -
  define a where "a = (if ws = [] then [] else abs_path ws)"
  have w: "slash \<notin> set w" "w \<noteq> ''''" using assms by (auto simp: good_element_def)
  have "dropWhile (\<lambda>c. c = slash) (rev (a @ slash # w)) = rev (a @ slash # w)"
    using w by (cases w rule: rev_cases) auto
  then have "Base (a @ slash # w) = w"
    using last_cut(2) [OF w(1), of a] w(2) by (auto simp: Base_def Let_def simp del: rev_append rev.simps)
  then show ?thesis by (simp add: abs_path_snoc a_def)
qed

lemma Base_word:
  assumes "slash \<notin> set w" "w \<noteq> ''''" shows "Base w = w"
proof -
  have "\<forall>c \<in> set (rev w). c \<noteq> slash" using assms by auto
  moreover have "dropWhile (\<lambda>c. c = slash) (rev w) = rev w"
    using assms by (cases w rule: rev_cases) auto
  ultimately show ?thesis using assms(2) by (simp add: Base_def takeWhile_eq_all_conv [THEN iffD2])
qed

section \<open>Relative paths\<close>

lemma skip_common_eq:
  "\<exists>cs us' vs'. us = cs @ us' \<and> vs = cs @ vs' \<and> skip_common us vs = (us', vs') \<and>
      (us' = [] \<or> vs' = [] \<or> hd us' \<noteq> hd vs')"
proof (induction us vs rule: skip_common.induct)
  case (1 b bs t ts)
  show ?case
  proof (cases "b = t")
    case True
    with 1 obtain cs us' vs' where "bs = cs @ us' \<and> ts = cs @ vs' \<and> skip_common bs ts = (us', vs') \<and>
        (us' = [] \<or> vs' = [] \<or> hd us' \<noteq> hd vs')" by blast
    with True have "b # bs = (b # cs) @ us' \<and> t # ts = (b # cs) @ vs' \<and> skip_common (b # bs) (t # ts) = (us', vs') \<and>
        (us' = [] \<or> vs' = [] \<or> hd us' \<noteq> hd vs')" by auto
    then show ?thesis by blast
  qed simp
qed simp_all

lemma climbs_iff:
  assumes good: "good_elements us" "good_elements vs" and ne: "us \<noteq> [] \<or> vs \<noteq> []"
  defines "r \<equiv> join_slash (replicate (length us) ''..'' @ vs)"
  shows "r \<noteq> ''.''" "r = ''..'' \<or> prefix ''../'' r \<longleftrightarrow> us \<noteq> []"
proof -
  have "r \<noteq> ''.'' \<and> (r = ''..'' \<or> prefix ''../'' r \<longleftrightarrow> us \<noteq> [])"
  proof (cases us)
    case Nil
    with ne obtain v ws where v: "vs = v # ws" by (cases vs) auto
    have gv: "v \<noteq> ''''" "v \<noteq> ''.''" "v \<noteq> ''..''" "slash \<notin> set v" using good(2) v by (auto simp: good_element_def)
    have "\<not> prefix ''../'' (v @ t)" if "t = [] \<or> hd t = slash" for t
      using gv that by (cases v; cases "tl v"; cases "tl (tl v)"; cases t) (auto simp: prefix_def)
    moreover have "r = v @ (if ws = [] then [] else slash # join_slash ws)"
      using Nil v by (cases ws) (auto simp: r_def)
    moreover have "v @ (if ws = [] then [] else slash # join_slash ws) \<notin> {''.'', ''..''}"
      using gv by (auto simp: append_eq_Cons_conv)
    ultimately show ?thesis using Nil by auto
  next
    case (Cons u ws)
    then have "r = ''..'' \<or> prefix ''../'' r"
      by (cases "replicate (length ws) ''..'' @ vs") (auto simp: r_def)
    then show ?thesis using Cons by auto
  qed
  then show "r \<noteq> ''.''" "r = ''..'' \<or> prefix ''../'' r \<longleftrightarrow> us \<noteq> []" by simp_all
qed

lemma Rel_abs_path:
  assumes "good_elements us" "good_elements vs"
  obtains r where "Rel (abs_path us) (abs_path vs) = Some r" "r = ''.'' \<longleftrightarrow> us = vs"
    "r = ''..'' \<or> prefix ''../'' r \<longleftrightarrow> \<not> prefix us vs"
proof (cases "us = vs")
  case True
  then show ?thesis using that [of "''.''"] assms by (simp add: Rel_def path_simps)
next
  case ne: False
  obtain cs us' vs' where d: "us = cs @ us'" "vs = cs @ vs'" "skip_common us vs = (us', vs')"
      "us' = [] \<or> vs' = [] \<or> hd us' \<noteq> hd vs'"
    using skip_common_eq [of us vs] by blast
  have good: "good_elements us'" "good_elements vs'" using assms d(1,2) by simp_all
  have ne': "us' \<noteq> [] \<or> vs' \<noteq> []" using ne d(1,2) by auto
  have root: "abs_path us \<noteq> ''.''" by (simp add: abs_path_def)
  have ab: "abs_path vs \<noteq> abs_path us" using ne assms by (auto simp: path_simps)
  have "\<not> (us' \<noteq> [] \<and> vs' \<noteq> [] \<and> hd us' = ''..'')"
    using good(1) by (cases us') (auto simp: good_element_def)
  then have "Rel (abs_path us) (abs_path vs) = Some (join_slash (replicate (length us') ''..'' @ vs'))"
    using assms ab d(3) root by (simp add: Rel_def path_simps Let_def)
  moreover have "prefix us vs \<longleftrightarrow> us' = []"
    using d by (cases us'; cases vs') auto
  ultimately show ?thesis using that climbs_iff [OF good ne'] ne by blast
qed

lemma clean_walk_word_list:
  assumes "good_elements ws" "good_elements rs"
  shows "clean_walk True [] (split_slash (abs_path ws) @ rs) = ws @ rs"
  using clean_walk_good [of "ws @ rs" "[]" True] assms by (auto simp: split_abs_path good_element_def)

lemma Join_abs_path_list:
  assumes "good_elements ws" "good_elements rs" "rs \<noteq> []"
  shows "Join (abs_path ws) (join_slash rs) = abs_path (ws @ rs)"
proof -
  have "IsAbs (abs_path ws @ slash # join_slash rs)" by (simp add: IsAbs_def abs_path_def)
  moreover have "split_slash (join_slash rs) = rs"
    using assms(2,3) by (intro split_join) (auto simp: good_element_def list_all_iff)
  ultimately show ?thesis
    using assms by (simp add: Join_def Clean_def split_slash_sep clean_walk_word_list abs_path_def [of "ws @ rs"])
qed

lemma abs_path_length: "us \<noteq> [] \<Longrightarrow> strict_prefix us vs \<Longrightarrow> length (abs_path us) < length (abs_path vs)"
  by (auto simp: abs_path_append elim!: strict_prefixE')

end
