(* ===== verification/Go_Strings.thy ===== *)
theory Go_Strings
  imports Prelude "HOL-Library.Sublist"
begin

text \<open>
  The parts of Go's \<open>strings\<close> and \<open>strconv\<close> the components use, on byte strings:
  \<open>strings.TrimSpace\<close> with every Unicode space in its UTF-8 encoding, \<open>strconv.Itoa\<close>, and
  character classes. \<open>Itoa\<close> is injective, so two descriptors never print alike.
\<close>

section \<open>Bytes and character classes\<close>

abbreviation NUL :: char where
  "NUL \<equiv> CHR 0x00"

definition ascii_digit :: "char \<Rightarrow> bool" where
  "ascii_digit c = (CHR ''0'' \<le> c \<and> c \<le> CHR ''9'')"

definition ascii_lower_hex :: "char \<Rightarrow> bool" where
  "ascii_lower_hex c = (ascii_digit c \<or> (CHR ''a'' \<le> c \<and> c \<le> CHR ''f''))"

definition ascii_letter :: "char \<Rightarrow> bool" where
  "ascii_letter c = ((CHR ''A'' \<le> c \<and> c \<le> CHR ''Z'') \<or> (CHR ''a'' \<le> c \<and> c \<le> CHR ''z''))"

text \<open>The UTF-8 encodings of the white space characters \<open>unicode.IsSpace\<close> accepts.\<close>

definition space_encodings :: "nat list list" where
  "space_encodings =
     [[9], [10], [11], [12], [13], [32], [194, 133], [194, 160], [225, 154, 128],
      [226, 128, 128], [226, 128, 129], [226, 128, 130], [226, 128, 131], [226, 128, 132],
      [226, 128, 133], [226, 128, 134], [226, 128, 135], [226, 128, 136], [226, 128, 137],
      [226, 128, 138], [226, 128, 168], [226, 128, 169], [226, 128, 175], [226, 129, 159],
      [227, 128, 128]]"

definition leading :: "string list \<Rightarrow> string \<Rightarrow> nat" where
  "leading encs s = (case filter (\<lambda>e. e \<noteq> [] \<and> prefix e s) encs of [] \<Rightarrow> 0 | e # _ \<Rightarrow> length e)"

lemma leading_le: "leading encs s \<noteq> 0 \<Longrightarrow> 0 < leading encs s \<and> s \<noteq> []"
proof -
  assume n: "leading encs s \<noteq> 0"
  then obtain e es where "filter (\<lambda>e. e \<noteq> [] \<and> prefix e s) encs = e # es"
    by (auto simp: leading_def split: list.splits)
  then have "e \<in> set (filter (\<lambda>e. e \<noteq> [] \<and> prefix e s) encs)" by simp
  with n show ?thesis by auto
qed

function trim_left :: "string list \<Rightarrow> string \<Rightarrow> string" where
  "trim_left encs s = (if leading encs s = 0 then s else trim_left encs (drop (leading encs s) s))"
  by pat_completeness auto
termination
  by (relation "measure (\<lambda>(encs, s). length s)") (use leading_le in force)+

declare trim_left.simps [simp del]

definition TrimSpace :: "string \<Rightarrow> string" where
  "TrimSpace s =
     (let encs = map (map char_of) space_encodings in
      rev (trim_left (map rev encs) (rev (trim_left encs s))))"

section \<open>Decimal numbers\<close>

fun digits :: "nat \<Rightarrow> string" where
  "digits n = (if n < 10 then [char_of (48 + n)] else digits (n div 10) @ [char_of (48 + n mod 10)])"

declare digits.simps [simp del]

definition Itoa :: "int \<Rightarrow> string" where
  "Itoa i = (if i < 0 then ''-'' @ digits (nat (- i)) else digits (nat i))"

fun read_digits :: "string \<Rightarrow> nat" where
  "read_digits s = foldl (\<lambda>n c. 10 * n + (of_char c - 48)) 0 s"

lemma digits_ascii: "c \<in> set (digits n) \<Longrightarrow> ascii_digit c"
  by (induction n rule: digits.induct)
    (subst (asm) (2) digits.simps, auto simp: ascii_digit_def less_eq_char_def split: if_splits)

lemma read_digits_digits: "read_digits (digits n) = n"
  by (induction n rule: digits.induct) (subst digits.simps, auto)

lemma digits_inject [simp]: "digits m = digits n \<longleftrightarrow> m = n"
  using read_digits_digits by metis

lemma digits_not_minus: "digits n \<noteq> CHR ''-'' # s"
proof
  assume "digits n = CHR ''-'' # s"
  then have "ascii_digit (CHR ''-'')" using digits_ascii [of "CHR ''-''" n] by simp
  then show False by (simp add: ascii_digit_def less_eq_char_def)
qed

lemma Itoa_inject [simp]: "Itoa i = Itoa j \<longleftrightarrow> i = j"
  using digits_not_minus [of "nat i"] digits_not_minus [of "nat j"]
    digits_not_minus [of "nat i", symmetric] digits_not_minus [of "nat j", symmetric]
  by (cases "i < 0"; cases "j < 0") (auto simp: Itoa_def)

end
