(* ===== verification/Mount.thy ===== *)
theory Mount
  imports Paths Go_Strings
begin

text \<open>
  \<open>internal/sandbox/layout\<close> (the fixed paths of a sandbox) and \<open>internal/sandbox/mount\<close> (managed
  volumes, external binds, target overlap). Validators return verdicts; the accepted values are
  characterised through path components.
\<close>

section \<open>Layout\<close>

definition layout_Root :: string where "layout_Root = ''/toby''"
definition layout_Home :: string where "layout_Home = ''/toby/home''"
definition layout_Workspace :: string where "layout_Workspace = ''/toby/workspace''"
definition layout_Bin :: string where "layout_Bin = ''/toby/bin''"
definition layout_Runtime :: string where "layout_Runtime = ''/run/toby''"

definition layout_SandboxBinary :: string where
  "layout_SandboxBinary = Join layout_Bin ''tobys''"

definition layout_SandboxSocket :: string where
  "layout_SandboxSocket = Join layout_Runtime ''sandbox.sock''"

definition ExpandHome :: "string \<Rightarrow> string" where
  "ExpandHome value =
     (if value = ''~'' then layout_Home
      else if prefix ''~/'' value then layout_Home @ tl value
      else value)"

lemmas layout_defs = layout_Root_def layout_Home_def layout_Workspace_def layout_Bin_def layout_Runtime_def

section \<open>Mount keys\<close>

definition TypeTool :: string where "TypeTool = ''tool''"

definition temporaryPublicationPrefix :: string where
  "temporaryPublicationPrefix = ''.toby-tmp-''"

record mount_key =
  keyType :: string
  keyName :: string
  keyPurpose :: string

definition Key_String :: "mount_key \<Rightarrow> string" where
  "Key_String k = keyType k @ ''.'' @ keyName k @ ''.'' @ keyPurpose k"

datatype component_error =
    ComponentEmpty
  | ComponentWhitespace
  | ComponentDots string
  | ComponentTemporary
  | ComponentTooLong
  | ComponentCharacter

text \<open>
  Ranging over a string yields runes; a byte from 128 on is part of a rune beyond ASCII or of an
  invalid encoding, and both are refused, so the loop is a test of every byte.
\<close>

definition component_char :: "char \<Rightarrow> bool" where
  "component_char c = (ascii_letter c \<or> ascii_digit c \<or> c = CHR ''.'' \<or> c = CHR ''_'' \<or> c = CHR ''-'')"

definition validateComponent :: "string \<Rightarrow> component_error verdict" where
  "validateComponent value =
     and_then (fail_if (value = '''') ComponentEmpty)
    (and_then (fail_if (value \<noteq> TrimSpace value) ComponentWhitespace)
    (and_then (fail_if (value = ''.'' \<or> value = ''..'') (ComponentDots value))
    (and_then (fail_if (prefix temporaryPublicationPrefix value) ComponentTemporary)
    (and_then (fail_if (length value > 128) ComponentTooLong)
              (each (\<lambda>c. fail_if (\<not> component_char c) ComponentCharacter) value)))))"

datatype mount_error =
    KeyType component_error
  | KeyTypeNotTool
  | KeyName component_error
  | KeyPurpose component_error
  | InvalidAccess string
  | NotAbsolute string string
  | NotClean string string
  | EmptyProfile

definition map_error :: "('e \<Rightarrow> 'f) \<Rightarrow> 'e verdict \<Rightarrow> 'f verdict" where
  "map_error f v = map_option f v"

lemma map_error_None [simp, verdict_simps]: "map_error f v = None \<longleftrightarrow> v = None"
  by (simp add: map_error_def)

definition Key_Validate :: "mount_key \<Rightarrow> mount_error verdict" where
  "Key_Validate k =
     and_then (map_error KeyType (validateComponent (keyType k)))
    (and_then (fail_if (keyType k \<noteq> TypeTool) KeyTypeNotTool)
    (and_then (map_error KeyName (validateComponent (keyName k)))
              (map_error KeyPurpose (validateComponent (keyPurpose k)))))"

section \<open>Access, entries and binds\<close>

text \<open>\<open>Access\<close> is a string type: any other value is refused by \<open>Validate\<close>.\<close>

type_synonym access = string

definition AccessRegular :: access where "AccessRegular = ''regular''"
definition AccessReadOnly :: access where "AccessReadOnly = ''read_only''"
definition AccessDev :: access where "AccessDev = ''dev''"

definition Access_Validate :: "access \<Rightarrow> mount_error verdict" where
  "Access_Validate a = fail_if (a \<notin> {AccessRegular, AccessReadOnly, AccessDev}) (InvalidAccess a)"

definition validateSandboxPath_mount :: "string \<Rightarrow> string \<Rightarrow> mount_error verdict" where
  "validateSandboxPath_mount label value =
     and_then (fail_if (value = '''' \<or> \<not> IsAbs value \<or> NUL \<in> set value) (NotAbsolute label value))
              (fail_if (Clean value \<noteq> value) (NotClean label value))"

definition validateHostPath_mount :: "string \<Rightarrow> string \<Rightarrow> mount_error verdict" where
  "validateHostPath_mount label value =
     and_then (fail_if (value = '''' \<or> \<not> IsAbs value \<or> NUL \<in> set value) (NotAbsolute label value))
              (fail_if (Clean value \<noteq> value) (NotClean label value))"

record seed =
  seedImagePath :: string

definition Seed_Validate :: "seed \<Rightarrow> mount_error verdict" where
  "Seed_Validate s =
     (if seedImagePath s = '''' then None else validateSandboxPath_mount ''seed image path'' (seedImagePath s))"

record mount_entry =
  entryKey :: mount_key
  entryProfile :: string
  entryHostPath :: string
  entryTarget :: string
  entryAccess :: access
  entryOptional :: bool
  entrySeed :: seed

definition Entry_Validate :: "mount_entry \<Rightarrow> mount_error verdict" where
  "Entry_Validate e =
     and_then (Key_Validate (entryKey e))
    (and_then (fail_if (entryProfile e = '''') EmptyProfile)
    (and_then (validateHostPath_mount ''tool-volume host path'' (entryHostPath e))
    (and_then (validateSandboxPath_mount ''tool-volume target'' (entryTarget e))
    (and_then (Access_Validate (entryAccess e))
              (Seed_Validate (entrySeed e))))))"

record mount_bind =
  bindHostPath :: string
  bindTarget :: string
  bindAccess :: access
  bindOptional :: bool

definition Bind_Validate :: "mount_bind \<Rightarrow> mount_error verdict" where
  "Bind_Validate b =
     and_then (validateHostPath_mount ''bind host path'' (bindHostPath b))
    (and_then (validateSandboxPath_mount ''bind target'' (bindTarget b))
              (Access_Validate (bindAccess b)))"

definition ValidateTarget :: "string \<Rightarrow> mount_error verdict" where
  "ValidateTarget value = validateSandboxPath_mount ''sandbox target'' value"

definition TargetsOverlap :: "string \<Rightarrow> string \<Rightarrow> bool" where
  "TargetsOverlap a b =
     (let a = Clean a; b = Clean b in
      if a = ''/'' \<or> b = ''/'' then True
      else a = b \<or> prefix (b @ ''/'') a \<or> prefix (a @ ''/'') b)"

section \<open>Clean absolute paths\<close>

text \<open>What every path validator of the sandbox accepts.\<close>

definition valid_path :: "string \<Rightarrow> bool" where
  "valid_path s \<longleftrightarrow> IsAbs s \<and> Clean s = s \<and> NUL \<notin> set s"

lemma IsAbs_not_empty: "IsAbs s \<Longrightarrow> s \<noteq> ''''"
  by (auto simp: IsAbs_def)

lemma validate_mount_paths [verdict_simps]:
  "validateSandboxPath_mount l s = None \<longleftrightarrow> valid_path s"
  "validateHostPath_mount l s = None \<longleftrightarrow> valid_path s"
  by (auto simp: validateSandboxPath_mount_def validateHostPath_mount_def valid_path_def verdict_simps IsAbs_not_empty)

lemma valid_path_cases:
  assumes "valid_path s" obtains ws where "good_elements ws" "s = abs_path ws"
  using assms clean_abs_cases by (auto simp: valid_path_def)

lemma valid_path_elements:
  assumes "valid_path s" shows "good_elements (elements s)" "abs_path (elements s) = s"
  using assms clean_abs_elements by (auto simp: valid_path_def)

text \<open>On accepted paths the string test is exactly comparability of the component lists.\<close>

lemma TargetsOverlap_elements:
  assumes "valid_path a" "valid_path b"
  shows "TargetsOverlap a b \<longleftrightarrow> \<not> parallel (elements a) (elements b)"
proof -
  obtain us vs where p: "good_elements us" "a = abs_path us" "good_elements vs" "b = abs_path vs"
    using assms by (meson valid_path_cases)
  then show ?thesis
    by (auto simp: TargetsOverlap_def path_simps Let_def strict_prefix_def parallel_def)
qed

lemma layout_elements [simp]:
  "elements layout_Root = [''toby'']" "elements layout_Home = [''toby'', ''home'']"
  "elements layout_Workspace = [''toby'', ''workspace'']" "elements layout_Bin = [''toby'', ''bin'']"
  "elements layout_Runtime = [''run'', ''toby'']"
  by (simp_all add: layout_defs elements_def)

lemma layout_valid [simp]:
  "valid_path layout_Root" "valid_path layout_Home" "valid_path layout_Workspace" "valid_path layout_Bin"
  "valid_path layout_Runtime"
  by (simp_all add: layout_defs valid_path_def IsAbs_def Clean_def)

lemma SandboxBinary_eq: "layout_SandboxBinary = ''/toby/bin/tobys''"
  by (simp add: layout_SandboxBinary_def layout_defs Join_def Clean_def IsAbs_def)

section \<open>Accepted components\<close>

lemma leading_0: "s \<noteq> [] \<Longrightarrow> hd s \<notin> hd ` set encs \<Longrightarrow> leading encs s = 0"
proof -
  assume "s \<noteq> []" "hd s \<notin> hd ` set encs"
  then have "filter (\<lambda>e. e \<noteq> [] \<and> prefix e s) encs = []"
    by (cases s) (force simp: filter_empty_conv prefix_Cons)+
  then show ?thesis by (simp add: leading_def)
qed

lemma component_char_bytes: "component_char c \<Longrightarrow> of_char c < (128 :: nat) \<and> 32 < (of_char c :: nat)"
  by (auto simp: component_char_def ascii_letter_def ascii_digit_def less_eq_char_def)

lemma TrimSpace_component:
  assumes "list_all component_char s" shows "TrimSpace s = s"
proof (cases "s = []")
  case False
  have ends: "component_char (hd s)" "component_char (hd (rev s))"
    using assms False by (auto simp: list_all_iff hd_rev)
  define encs where "encs = map (map char_of) space_encodings"
  have "of_char (hd e) \<in> {9, 10, 11, 12, 13, 32} \<union> {128..<256 :: nat}" if "e \<in> set encs" for e
    using that by (auto simp: encs_def space_encodings_def)
  moreover have "of_char (hd e) \<in> {9, 10, 11, 12, 13, 32} \<union> {128..<256 :: nat}" if "e \<in> set (map rev encs)" for e
    using that by (auto simp: encs_def space_encodings_def)
  ultimately have "hd s \<notin> hd ` set encs" "hd (rev s) \<notin> hd ` set (map rev encs)"
    using component_char_bytes [OF ends(1)] component_char_bytes [OF ends(2)] by fastforce+
  then have "trim_left encs s = s" "trim_left (map rev encs) (rev s) = rev s"
    using False by (simp_all add: trim_left.simps leading_0)
  then show ?thesis by (simp add: TrimSpace_def Let_def encs_def)
qed (simp add: TrimSpace_def Let_def trim_left.simps leading_def)

lemma validateComponent_None:
  "validateComponent s = None \<longleftrightarrow>
     s \<notin> {'''', ''.'', ''..''} \<and> \<not> prefix temporaryPublicationPrefix s \<and> length s \<le> 128 \<and> list_all component_char s"
  using TrimSpace_component [of s] unfolding validateComponent_def verdict_simps by (auto simp: list_all_iff)

end
