(* ===== verification/Bwrap_Plan.thy ===== *)
theory Bwrap_Plan
  imports Mount
begin

text \<open>
  \<open>internal/sandbox/bwrap\<close>: the pure description of one Bubblewrap command (\<open>plan.go\<close>), the
  validation of its sandbox targets (\<open>target_graph.go\<close>) and of its host paths
  (\<open>host_graph.go\<close>), and the builder (\<open>builder.go\<close>). Every validator is the sequence of checks
  of the source, returning the first error. A slice is a list, so the copies \<open>Clone\<close> makes are
  the values themselves. \<open>sort.Slice\<close> leaves the order of equal elements open; the model keeps
  the given order, and a validated plan has no equal elements.
\<close>

section \<open>Loops over a slice with its earlier elements\<close>

fun each_earlier :: "('a list \<Rightarrow> 'a \<Rightarrow> 'e verdict) \<Rightarrow> 'a list \<Rightarrow> 'a list \<Rightarrow> 'e verdict" where
  "each_earlier f us [] = None"
| "each_earlier f us (x # xs) = and_then (f us x) (each_earlier f (us @ [x]) xs)"

lemma each_earlier_None:
  "each_earlier f us xs = None \<longleftrightarrow> (\<forall>i < length xs. f (us @ take i xs) (xs ! i) = None)"
proof (induction xs arbitrary: us)
  case (Cons x xs)
  show ?case (is "?l \<longleftrightarrow> ?r")
  proof
    assume ?l
    then have "f us x = None" "\<forall>i < length xs. f ((us @ [x]) @ take i xs) (xs ! i) = None"
      using Cons by (simp_all add: and_then_None)
    then show ?r by (auto simp: less_Suc_eq_0_disj)
  next
    assume r: ?r
    have "f us x = None" using r by force
    moreover have "f ((us @ [x]) @ take i xs) (xs ! i) = None" if "i < length xs" for i
      using r that by (auto dest: spec [of _ "Suc i"])
    ultimately show ?l using Cons by (simp add: and_then_None)
  qed
qed simp

section \<open>The plan\<close>

definition alnum :: "char \<Rightarrow> bool" where
  "alnum c = (ascii_letter c \<or> ascii_digit c)"

definition idPattern :: "string \<Rightarrow> bool" where
  "idPattern s =
     (case s of [] \<Rightarrow> False
      | c # cs \<Rightarrow> alnum c \<and> list_all (\<lambda>d. alnum d \<or> d = CHR ''.'' \<or> d = CHR ''_'' \<or> d = CHR ''-'') cs)"

definition digestPattern :: "string \<Rightarrow> bool" where
  "digestPattern s =
     (prefix ''sha256:'' s \<and> length (drop 7 s) = 64 \<and> list_all ascii_lower_hex (drop 7 s))"

type_synonym execution_mode = string
definition ExecutionNonInteractive :: execution_mode where "ExecutionNonInteractive = ''noninteractive''"
definition ExecutionDirectTerminal :: execution_mode where "ExecutionDirectTerminal = ''direct_terminal''"

type_synonym network_mode = string
definition NetworkHost :: network_mode where "NetworkHost = ''host''"
definition NetworkPrivate :: network_mode where "NetworkPrivate = ''private''"

type_synonym capability_policy = string
definition CapabilityDropAll :: capability_policy where "CapabilityDropAll = ''drop_all''"
definition CapabilityRootLifecycle :: capability_policy where "CapabilityRootLifecycle = ''root_lifecycle''"

record rootfs =
  rootDigest :: string
  rootPath :: string

record overlay =
  ovRunStorageDir :: string
  ovUpper :: string
  ovWork :: string

record home =
  homeID :: string
  homeHostPath :: string

record project =
  projName :: string
  projHostPath :: string
  projTarget :: string
  projReadOnly :: bool

record generated_file =
  genHostPath :: string
  genTarget :: string
  genData :: bytes
  genMode :: "32 word"
  genUID :: int
  genGID :: int

record runtime_asset =
  assetHostPath :: string
  assetTarget :: string
  assetAccess :: access

record binary =
  binHostPath :: string
  binTarget :: string

record environment_variable =
  envName :: string
  envValue :: string

record identity =
  idHostUID :: int
  idHostGID :: int

record namespaces =
  nsNetwork :: network_mode

record command =
  cmdArgv :: "string list"
  cmdMode :: execution_mode
  cmdRoot :: bool
  cmdCapabilities :: capability_policy

record plan =
  planRunID :: string
  planRootFS :: rootfs
  planOverlay :: overlay
  planHome :: home
  planProjects :: "project list"
  planManaged :: "mount_entry list"
  planBinds :: "mount_bind list"
  planAssets :: "runtime_asset list"
  planGenerated :: "generated_file list"
  planBinary :: binary
  planWorkdir :: string
  planEnvironment :: "environment_variable list"
  planIdentity :: identity
  planNamespaces :: namespaces
  planCommand :: command

definition Canonical :: "plan \<Rightarrow> plan" where
  "Canonical p =
     p\<lparr>planProjects := sort_key projName (planProjects p),
       planManaged := sort_key (\<lambda>e. (entryTarget e, Key_String (entryKey e))) (planManaged p),
       planBinds := sort_key (\<lambda>b. (bindTarget b, bindHostPath b)) (planBinds p),
       planAssets := sort_key (\<lambda>a. (assetTarget a, assetHostPath a)) (planAssets p),
       planGenerated := sort_key genHostPath (planGenerated p),
       planEnvironment := sort_key envName (planEnvironment p)\<rparr>"

text \<open>The errors of \<open>plan.go\<close>, \<open>target_graph.go\<close> and \<open>host_graph.go\<close>, grouped by what they refuse.\<close>

datatype command_error =
    EmptyCommand
  | CommandNUL
  | InvalidMode string
  | RootCapabilities
  | ApplicationCapabilities

datatype environment_error =
    InvalidEnvironmentName string
  | EnvironmentNUL string
  | EnvironmentFixed string
  | DuplicateEnvironment string

datatype target_error =
    TargetsOverlapping string string
  | RuntimeAssetOutside string
  | RuntimeAssetsOverlap string string
  | ShadowsRoot string
  | ShadowsHome string
  | OverlapsReserved string string
  | OverlapsProject string string string
  | GeneratedTargetsOverlap string string
  | GeneratedOverlapsBind string string

datatype generated_error =
    DuplicateGeneratedHost string
  | GeneratedMode
  | GeneratedModeOwner
  | GeneratedOwnerNegative
  | GeneratedOwnerMismatch
  | GeneratedNoBacking string
  | GeneratedHostMismatch string string
  | GeneratedBackings nat nat

datatype host_error =
    OverlaySame
  | OverlayNotSiblings
  | OverlayNames
  | OverlayRunRoot string string
  | OverlapsHost string string string string

datatype service_error =
    OptionalBind nat
  | BindNotReadOnly string
  | RuntimeTarget
  | RuntimeNotWritable
  | RuntimeHostPath string string
  | TooManyDescriptors nat
  | WorkdirNeedsRuntime string

datatype plan_error =
    InvalidRunID string
  | InvalidDigest string
  | HostPathNotClean string string
  | SandboxPathNotClean string string
  | InvalidHomeID string
  | BinaryTarget
  | NegativeIdentity
  | InvalidNetwork string
  | InvalidProjectName string
  | ProjectTarget string
  | DuplicateProjectName string
  | DuplicateProjectTarget string
  | MountInvalid mount_error
  | DuplicateManagedKey string
  | CommandInvalid command_error
  | EnvironmentInvalid environment_error
  | TargetInvalid target_error
  | GeneratedInvalid generated_error
  | HostInvalid host_error
  | ServiceInvalid service_error
  | RuntimeAssetError nat plan_error
  | GeneratedFileError nat plan_error
  | ServiceBindError nat plan_error

section \<open>Leaf validators\<close>

definition validateSandboxPath :: "string \<Rightarrow> string \<Rightarrow> plan_error verdict" where
  "validateSandboxPath label value =
     fail_if (value = '''' \<or> \<not> IsAbs value \<or> Clean value \<noteq> value \<or> NUL \<in> set value) (SandboxPathNotClean label value)"

definition validateHostPath :: "string \<Rightarrow> string \<Rightarrow> plan_error verdict" where
  "validateHostPath label value =
     fail_if (value = '''' \<or> \<not> IsAbs value \<or> Clean value \<noteq> value \<or> NUL \<in> set value) (HostPathNotClean label value)"

definition Namespaces_validate :: "namespaces \<Rightarrow> plan_error verdict" where
  "Namespaces_validate n = fail_if (nsNetwork n \<noteq> NetworkHost) (InvalidNetwork (nsNetwork n))"

definition Command_validate :: "command \<Rightarrow> plan_error verdict" where
  "Command_validate c =
     and_then (fail_if (cmdArgv c = [] \<or> hd (cmdArgv c) = '''') (CommandInvalid EmptyCommand))
    (and_then (each (\<lambda>arg. fail_if (NUL \<in> set arg) (CommandInvalid CommandNUL)) (cmdArgv c))
    (and_then (fail_if (cmdMode c \<notin> {ExecutionNonInteractive, ExecutionDirectTerminal}) (CommandInvalid (InvalidMode (cmdMode c))))
              (if cmdRoot c \<and> cmdCapabilities c \<noteq> CapabilityRootLifecycle then Some (CommandInvalid RootCapabilities)
               else if \<not> cmdRoot c \<and> cmdCapabilities c \<noteq> CapabilityDropAll then Some (CommandInvalid ApplicationCapabilities)
               else None)))"

definition validateProjects :: "project list \<Rightarrow> plan_error verdict" where
  "validateProjects projects =
     each_earlier (\<lambda>seen p.
       and_then (fail_if (projName p = '''' \<or> projName p = ''.'' \<or> projName p = ''..'' \<or>
                          slash \<in> set (projName p) \<or> Base (projName p) \<noteq> projName p)
                   (InvalidProjectName (projName p)))
      (and_then (validateHostPath (''project '' @ projName p) (projHostPath p))
      (and_then (validateSandboxPath ''project target'' (projTarget p))
      (and_then (fail_if (projTarget p \<noteq> Join layout_Workspace (projName p)) (ProjectTarget (projName p)))
      (and_then (fail_if (projName p \<in> projName ` set seen) (DuplicateProjectName (projName p)))
                (fail_if (projTarget p \<in> projTarget ` set seen) (DuplicateProjectTarget (projTarget p))))))))
       [] projects"

definition sandboxPathContains :: "string \<Rightarrow> string \<Rightarrow> bool" where
  "sandboxPathContains parent child = prefix (parent @ ''/'') child"

text \<open>
  The second loop of \<open>validateMounts\<close> continues the list of targets of the first: it starts with
  the targets of all managed directories.
\<close>

definition validateMounts :: "mount_entry list \<Rightarrow> mount_bind list \<Rightarrow> plan_error verdict" where
  "validateMounts managed binds =
     and_then
       (each_earlier (\<lambda>seen entry.
          and_then (map_error MountInvalid (Entry_Validate entry))
         (and_then (validateHostPath ''managed-directory'' (entryHostPath entry))
         (and_then (fail_if (entryKey entry \<in> entryKey ` set seen) (DuplicateManagedKey (Key_String (entryKey entry))))
                   (each (\<lambda>target. fail_if (TargetsOverlap target (entryTarget entry))
                                     (TargetInvalid (TargetsOverlapping target (entryTarget entry))))
                      (map entryTarget seen))))) [] managed)
       (each_earlier (\<lambda>seen bind.
          and_then (map_error MountInvalid (Bind_Validate bind))
         (and_then (validateHostPath ''bind'' (bindHostPath bind))
                   (each (\<lambda>target. fail_if (TargetsOverlap target (bindTarget bind))
                                     (TargetInvalid (TargetsOverlapping target (bindTarget bind))))
                      (map entryTarget managed @ map bindTarget seen)))) [] binds)"

definition validateRuntimeAssets :: "runtime_asset list \<Rightarrow> plan_error verdict" where
  "validateRuntimeAssets assets =
     each_earlier (\<lambda>earlier asset.
       and_then (map_error (RuntimeAssetError (length earlier)) (validateHostPath ''runtime asset'' (assetHostPath asset)))
      (and_then (map_error (RuntimeAssetError (length earlier))
                   (validateSandboxPath ''runtime asset target'' (assetTarget asset)))
      (and_then (fail_if (\<not> sandboxPathContains layout_Runtime (assetTarget asset))
                   (TargetInvalid (RuntimeAssetOutside (assetTarget asset))))
      (and_then (map_error (RuntimeAssetError (length earlier) \<circ> MountInvalid) (Access_Validate (assetAccess asset)))
                (each (\<lambda>other. fail_if (TargetsOverlap (assetTarget other) (assetTarget asset))
                                  (TargetInvalid (RuntimeAssetsOverlap (assetTarget other) (assetTarget asset)))) earlier)))))
       [] assets"

definition validateEnvironment :: "environment_variable list \<Rightarrow> plan_error verdict" where
  "validateEnvironment environment =
     each_earlier (\<lambda>seen v.
       and_then (fail_if (envName v = '''' \<or> CHR ''='' \<in> set (envName v) \<or> NUL \<in> set (envName v))
                   (EnvironmentInvalid (InvalidEnvironmentName (envName v))))
      (and_then (fail_if (NUL \<in> set (envValue v)) (EnvironmentInvalid (EnvironmentNUL (envName v))))
      (and_then (fail_if (envName v = ''HOME'' \<or> envName v = ''TOBY_SANDBOX'') (EnvironmentInvalid (EnvironmentFixed (envName v))))
                (fail_if (envName v \<in> envName ` set seen) (EnvironmentInvalid (DuplicateEnvironment (envName v)))))))
       [] environment"

section \<open>The sandbox target graph\<close>

definition validateTargetGraph :: "plan \<Rightarrow> plan_error verdict" where
  "validateTargetGraph plan =
     each (\<lambda>target.
       and_then (fail_if (target = layout_Root \<or> sandboxPathContains target layout_Root) (TargetInvalid (ShadowsRoot target)))
      (and_then (fail_if (target = layout_Home \<or> sandboxPathContains target layout_Home) (TargetInvalid (ShadowsHome target)))
      (and_then (each (\<lambda>reserved. fail_if (TargetsOverlap target reserved) (TargetInvalid (OverlapsReserved target reserved)))
                   [layout_Workspace, layout_Bin, layout_Runtime])
                (each (\<lambda>p. fail_if (TargetsOverlap target (projTarget p))
                               (TargetInvalid (OverlapsProject target (projName p) (projTarget p))))
                   (planProjects plan)))))
       (map entryTarget (planManaged plan) @ map bindTarget (planBinds plan))"

record persistent_backing =
  backHostRoot :: string
  backSandboxRoot :: string

text \<open>The zero value of \<open>selected\<close> has an empty sandbox root.\<close>

definition select_backing :: "string \<Rightarrow> persistent_backing \<Rightarrow> persistent_backing \<Rightarrow> persistent_backing" where
  "select_backing target backing selected =
     (if \<not> sandboxPathContains (backSandboxRoot backing) target then selected
      else if backSandboxRoot selected = '''' \<or> length (backSandboxRoot backing) > length (backSandboxRoot selected)
      then backing
      else selected)"

text \<open>\<open>TrimPrefix(target, root + "/")\<close>: the prefix is there, because the backing was selected by it.\<close>

definition TrimPrefix :: "string \<Rightarrow> string \<Rightarrow> string" where
  "TrimPrefix s p = (if prefix p s then drop (length p) s else s)"

definition generatedFileBacking ::
  "string \<Rightarrow> persistent_backing list \<Rightarrow> (persistent_backing \<times> string) option"
where
  "generatedFileBacking target backings =
     (let selected = fold (select_backing target) backings \<lparr>backHostRoot = '''', backSandboxRoot = ''''\<rparr> in
      if backSandboxRoot selected = '''' then None
      else Some (selected, TrimPrefix target (backSandboxRoot selected @ ''/'')))"

definition ModePerm :: "32 word" where "ModePerm = 0x1FF"

definition validateGeneratedFile ::
  "generated_file \<Rightarrow> persistent_backing list \<Rightarrow> identity \<Rightarrow> plan_error verdict"
where
  "validateGeneratedFile file backings identity =
     and_then (validateHostPath ''generated-file'' (genHostPath file))
    (and_then (validateSandboxPath ''generated-file target'' (genTarget file))
    (and_then (fail_if (and (genMode file) ModePerm = 0 \<or> and (genMode file) (not ModePerm) \<noteq> 0) (GeneratedInvalid GeneratedMode))
    (and_then (fail_if (and (and (genMode file) ModePerm) 0x180 = 0) (GeneratedInvalid GeneratedModeOwner))
    (and_then (fail_if (genUID file < 0 \<or> genGID file < 0) (GeneratedInvalid GeneratedOwnerNegative))
    (and_then (fail_if (genUID file \<noteq> idHostUID identity \<or> genGID file \<noteq> idHostGID identity) (GeneratedInvalid GeneratedOwnerMismatch))
              (case generatedFileBacking (genTarget file) backings of
                 None \<Rightarrow> Some (GeneratedInvalid (GeneratedNoBacking (genTarget file)))
               | Some (backing, relative) \<Rightarrow>
                   fail_if (Clean (genHostPath file) \<noteq> Clean (Join (backHostRoot backing) relative))
                     (GeneratedInvalid (GeneratedHostMismatch (genHostPath file) (genTarget file)))))))))"

definition plan_backings :: "plan \<Rightarrow> persistent_backing list" where
  "plan_backings plan =
     \<lparr>backHostRoot = homeHostPath (planHome plan), backSandboxRoot = layout_Home\<rparr> #
     map (\<lambda>e. \<lparr>backHostRoot = entryHostPath e, backSandboxRoot = entryTarget e\<rparr>) (planManaged plan)"

definition validateGeneratedFiles :: "plan \<Rightarrow> plan_error verdict" where
  "validateGeneratedFiles plan =
     each_earlier (\<lambda>earlier file.
       and_then (map_error (GeneratedFileError (length earlier))
                   (validateGeneratedFile file (plan_backings plan) (planIdentity plan)))
      (and_then (each (\<lambda>other.
                   and_then (fail_if (TargetsOverlap (genTarget other) (genTarget file))
                               (TargetInvalid (GeneratedTargetsOverlap (genTarget other) (genTarget file))))
                            (fail_if (Clean (genHostPath other) = Clean (genHostPath file))
                               (GeneratedInvalid (DuplicateGeneratedHost (genHostPath file))))) earlier)
                (each (\<lambda>b. fail_if (TargetsOverlap (genTarget file) (bindTarget b))
                               (TargetInvalid (GeneratedOverlapsBind (genTarget file) (bindTarget b)))) (planBinds plan))))
       [] (planGenerated plan)"

section \<open>The host storage graph\<close>

record host_path_claim =
  claimLabel :: string
  claimPath :: string
  claimInsideRuntime :: bool

definition pathIsWithin :: "string \<Rightarrow> bool" where
  "pathIsWithin relative = (relative = ''.'' \<or> (relative \<noteq> ''..'' \<and> \<not> prefix ''../'' relative))"

definition within :: "string option \<Rightarrow> bool" where
  "within r = (case r of None \<Rightarrow> False | Some relative \<Rightarrow> pathIsWithin relative)"

definition hostPathsOverlap :: "string \<Rightarrow> string \<Rightarrow> bool" where
  "hostPathsOverlap first second = (within (Rel first second) \<or> within (Rel second first))"

definition hostPathStrictlyContains :: "string \<Rightarrow> string \<Rightarrow> bool" where
  "hostPathStrictlyContains parent child =
     (case Rel parent child of None \<Rightarrow> False | Some relative \<Rightarrow> relative \<noteq> ''.'' \<and> pathIsWithin relative)"

abbreviation claim :: "string \<Rightarrow> string \<Rightarrow> host_path_claim" where
  "claim l p \<equiv> \<lparr>claimLabel = l, claimPath = p, claimInsideRuntime = False\<rparr>"

definition numbered :: "string \<Rightarrow> ('a \<Rightarrow> string) \<Rightarrow> bool \<Rightarrow> 'a list \<Rightarrow> host_path_claim list" where
  "numbered l f inside xs =
     map (\<lambda>(i, x). \<lparr>claimLabel = l @ '' '' @ Itoa (int i), claimPath = f x, claimInsideRuntime = inside\<rparr>)
       (enumerate 0 xs)"

definition managed_claims :: "plan \<Rightarrow> host_path_claim list" where
  "managed_claims plan =
     map (\<lambda>e. claim (''managed-directory '' @ Key_String (entryKey e)) (entryHostPath e)) (planManaged plan)"

definition project_claims :: "plan \<Rightarrow> host_path_claim list" where
  "project_claims plan = map (\<lambda>p. claim (''project '' @ projName p) (projHostPath p)) (planProjects plan)"

definition externalHostPaths :: "plan \<Rightarrow> host_path_claim list" where
  "externalHostPaths plan =
     claim ''sandbox helper'' (binHostPath (planBinary plan)) # project_claims plan @
     numbered ''bind'' bindHostPath False (planBinds plan) @
     numbered ''runtime asset'' assetHostPath True (planAssets plan)"

definition persistentHostPaths :: "plan \<Rightarrow> host_path_claim list" where
  "persistentHostPaths plan =
     [claim ''rootfs'' (rootPath (planRootFS plan)),
      claim ''private-home'' (homeHostPath (planHome plan)),
      claim ''sandbox helper'' (binHostPath (planBinary plan))] @
     project_claims plan @ managed_claims plan @
     numbered ''bind'' bindHostPath False (planBinds plan) @
     numbered ''runtime asset'' assetHostPath True (planAssets plan) @
     numbered ''generated file'' genHostPath False (planGenerated plan)"

definition validateImmutableRootFS :: "plan \<Rightarrow> plan_error verdict" where
  "validateImmutableRootFS plan =
     each (\<lambda>c. fail_if (claimLabel c \<noteq> ''rootfs'' \<and> hostPathsOverlap (rootPath (planRootFS plan)) (claimPath c))
                 (HostInvalid (OverlapsHost ''rootfs'' (rootPath (planRootFS plan)) (claimLabel c) (claimPath c))))
       (persistentHostPaths plan)"

definition validateOwnedBackings :: "plan \<Rightarrow> plan_error verdict" where
  "validateOwnedBackings plan =
     each_earlier (\<lambda>earlier c.
       and_then (each (\<lambda>other. fail_if (hostPathsOverlap (claimPath c) (claimPath other))
                                  (HostInvalid (OverlapsHost (claimLabel c) (claimPath c) (claimLabel other) (claimPath other))))
                   earlier)
                (each (\<lambda>ext. fail_if (hostPathsOverlap (claimPath c) (claimPath ext))
                                (HostInvalid (OverlapsHost (claimLabel c) (claimPath c) (claimLabel ext) (claimPath ext))))
                   (externalHostPaths plan)))
       [] (claim ''private-home'' (homeHostPath (planHome plan)) # managed_claims plan)"

definition validateGeneratedFileOwnership :: "plan \<Rightarrow> plan_error verdict" where
  "validateGeneratedFileOwnership plan =
     each (\<lambda>(index, file).
       (let matches = length (filter (\<lambda>backing. hostPathStrictlyContains backing (genHostPath file))
                         (homeHostPath (planHome plan) # map entryHostPath (planManaged plan)))
        in fail_if (matches \<noteq> 1) (GeneratedInvalid (GeneratedBackings index matches))))
       (enumerate 0 (planGenerated plan))"

definition validateHostStorageGraph :: "plan \<Rightarrow> plan_error verdict" where
  "validateHostStorageGraph plan =
     (let upperParent = Dir (ovUpper (planOverlay plan));
          workParent = Dir (ovWork (planOverlay plan));
          expectedRunRoot = Join (ovRunStorageDir (planOverlay plan)) (planRunID plan);
          runtimeRoot = Join expectedRunRoot ''runtime''
      in
        and_then (fail_if (upperParent \<noteq> workParent) (HostInvalid OverlayNotSiblings))
       (and_then (fail_if (Base (ovUpper (planOverlay plan)) \<noteq> ''upper'' \<or> Base (ovWork (planOverlay plan)) \<noteq> ''work'')
                    (HostInvalid OverlayNames))
       (and_then (fail_if (upperParent \<noteq> expectedRunRoot) (HostInvalid (OverlayRunRoot upperParent expectedRunRoot)))
       (and_then (each (\<lambda>c.
                    if claimInsideRuntime c \<and> hostPathStrictlyContains runtimeRoot (claimPath c) then None
                    else fail_if (hostPathsOverlap upperParent (claimPath c))
                           (HostInvalid (OverlapsHost ''overlay run root'' upperParent (claimLabel c) (claimPath c))))
                    (persistentHostPaths plan))
       (and_then (validateImmutableRootFS plan)
       (and_then (validateOwnedBackings plan)
                 (validateGeneratedFileOwnership plan)))))))"

section \<open>The complete validation and the builder\<close>

definition Validate :: "plan \<Rightarrow> plan_error verdict" where
  "Validate p =
     and_then (fail_if (\<not> idPattern (planRunID p)) (InvalidRunID (planRunID p)))
    (and_then (fail_if (\<not> digestPattern (rootDigest (planRootFS p))) (InvalidDigest (rootDigest (planRootFS p))))
    (and_then (each (\<lambda>(label, path). validateHostPath label path)
                 [(''rootfs'', rootPath (planRootFS p)),
                  (''run storage'', ovRunStorageDir (planOverlay p)),
                  (''overlay upper'', ovUpper (planOverlay p)),
                  (''overlay work'', ovWork (planOverlay p)),
                  (''private home'', homeHostPath (planHome p)),
                  (''sandbox helper'', binHostPath (planBinary p))])
    (and_then (fail_if (Clean (ovUpper (planOverlay p)) = Clean (ovWork (planOverlay p))) (HostInvalid OverlaySame))
    (and_then (fail_if (\<not> idPattern (homeID (planHome p))) (InvalidHomeID (homeID (planHome p))))
    (and_then (fail_if (binTarget (planBinary p) \<noteq> layout_SandboxBinary) BinaryTarget)
    (and_then (validateSandboxPath ''workdir'' (planWorkdir p))
    (and_then (fail_if (idHostUID (planIdentity p) < 0 \<or> idHostGID (planIdentity p) < 0) NegativeIdentity)
    (and_then (Namespaces_validate (planNamespaces p))
    (and_then (Command_validate (planCommand p))
    (and_then (validateProjects (planProjects p))
    (and_then (validateMounts (planManaged p) (planBinds p))
    (and_then (validateRuntimeAssets (planAssets p))
    (and_then (validateTargetGraph p)
    (and_then (validateGeneratedFiles p)
    (and_then (validateHostStorageGraph p)
              (validateEnvironment (planEnvironment p)))))))))))))))))"

record project_input =
  inName :: string
  inHostPath :: string
  inReadOnly :: bool

record plan_input =
  inputRunID :: string
  inputRootFS :: rootfs
  inputOverlay :: overlay
  inputHome :: home
  inputProjects :: "project_input list"
  inputManaged :: "mount_entry list"
  inputBinds :: "mount_bind list"
  inputAssets :: "runtime_asset list"
  inputGenerated :: "generated_file list"
  inputBinaryPath :: string
  inputWorkdir :: string
  inputEnvironment :: "environment_variable list"
  inputIdentity :: identity
  inputArgv :: "string list"
  inputMode :: execution_mode
  inputRoot :: bool

definition plan_of_input :: "plan_input \<Rightarrow> plan" where
  "plan_of_input i =
     \<lparr>planRunID = inputRunID i, planRootFS = inputRootFS i, planOverlay = inputOverlay i, planHome = inputHome i,
      planProjects = map (\<lambda>p. \<lparr>projName = inName p, projHostPath = inHostPath p,
        projTarget = Join layout_Workspace (inName p), projReadOnly = inReadOnly p\<rparr>) (inputProjects i),
      planManaged = inputManaged i, planBinds = inputBinds i, planAssets = inputAssets i,
      planGenerated = inputGenerated i,
      planBinary = \<lparr>binHostPath = inputBinaryPath i, binTarget = layout_SandboxBinary\<rparr>,
      planWorkdir = inputWorkdir i, planEnvironment = inputEnvironment i, planIdentity = inputIdentity i,
      planNamespaces = \<lparr>nsNetwork = NetworkHost\<rparr>,
      planCommand = \<lparr>cmdArgv = inputArgv i, cmdMode = inputMode i, cmdRoot = inputRoot i,
        cmdCapabilities = (if inputRoot i then CapabilityRootLifecycle else CapabilityDropAll)\<rparr>\<rparr>"

definition BuildPlan :: "plan_input \<Rightarrow> plan_error + plan" where
  "BuildPlan i =
     (let p = Canonical (plan_of_input i) in
      case Validate p of Some e \<Rightarrow> Inl e | None \<Rightarrow> Inr p)"

end
