(* ===== verification/Bwrap_Graph.thy ===== *)
theory Bwrap_Graph
  imports Bwrap_Plan
begin

text \<open>
  What the validators of \<open>Bwrap_Plan\<close> accept, over path components: each validator is
  characterised by a condition on single elements and a symmetric relation between any two of
  them, so acceptance does not depend on the order of the slices.
\<close>

section \<open>Loops over earlier elements as pairwise conditions\<close>

lemma each_earlier_pairwise_from:
  assumes "\<And>us x. f us x = None \<longleftrightarrow> P x \<and> (\<forall>u \<in> set us. R u x)"
  shows "each_earlier f us xs = None \<longleftrightarrow>
    (\<forall>x \<in> set xs. P x \<and> (\<forall>u \<in> set us. R u x)) \<and> sorted_wrt R xs"
  by (induction xs arbitrary: us) (auto simp: and_then_None assms)

lemma each_earlier_pairwise:
  assumes "\<And>us x. f us x = None \<longleftrightarrow> P x \<and> (\<forall>u \<in> set us. R u x)"
  shows "each_earlier f [] xs = None \<longleftrightarrow> (\<forall>x \<in> set xs. P x) \<and> sorted_wrt R xs"
  by (simp add: each_earlier_pairwise_from [OF assms])

lemma sorted_wrt_mset:
  assumes "symp R" "mset xs = mset ys" shows "sorted_wrt R xs = sorted_wrt R ys"
proof -
  have *: "sorted_wrt R xs" if "sorted_wrt R ys" "mset xs = mset ys" for xs ys
    using that
  proof (induction xs arbitrary: ys)
    case (Cons x xs)
    then have "x \<in> set ys" by (metis list.set_intros(1) mset_eq_setD)
    then obtain us vs where ys: "ys = us @ x # vs" by (meson split_list)
    with Cons have m: "mset xs = mset (us @ vs)" and s: "sorted_wrt R (us @ vs)"
      by (auto simp: sorted_wrt_append)
    have "\<forall>y \<in> set (us @ vs). R x y"
      using Cons.prems(1) ys \<open>symp R\<close> by (auto simp: sorted_wrt_append sympD)
    then show ?case using Cons.IH [OF s m] mset_eq_setD [OF m] by auto
  qed simp
  show ?thesis using * [of xs ys] * [of ys xs] assms(2) by auto
qed

section \<open>Path tests over components\<close>

abbreviation apart :: "string \<Rightarrow> string \<Rightarrow> bool" where
  "apart a b \<equiv> parallel (elements a) (elements b)"

lemma parallel_commute: "parallel us vs \<longleftrightarrow> parallel vs us"
  by (auto simp: parallel_def)

lemma validate_paths [verdict_simps]:
  "validateSandboxPath l s = None \<longleftrightarrow> valid_path s"
  "validateHostPath l s = None \<longleftrightarrow> valid_path s"
  by (auto simp: validateSandboxPath_def validateHostPath_def valid_path_def verdict_simps IsAbs_not_empty)

lemma within_Rel:
  assumes "valid_path a" "valid_path b" shows "within (Rel a b) \<longleftrightarrow> prefix (elements a) (elements b)"
proof -
  obtain us vs where p: "good_elements us" "a = abs_path us" "good_elements vs" "b = abs_path vs"
    using assms by (meson valid_path_cases)
  obtain r where "Rel (abs_path us) (abs_path vs) = Some r" "r = ''.'' \<longleftrightarrow> us = vs"
      "r = ''..'' \<or> prefix ''../'' r \<longleftrightarrow> \<not> prefix us vs"
    using Rel_abs_path [OF p(1,3)] by metis
  with p show ?thesis by (auto simp: within_def pathIsWithin_def path_simps)
qed

lemma hostPathsOverlap_elements:
  "valid_path a \<Longrightarrow> valid_path b \<Longrightarrow> hostPathsOverlap a b \<longleftrightarrow> \<not> apart a b"
  by (auto simp: hostPathsOverlap_def within_Rel parallel_def)

lemma hostPathStrictlyContains_elements:
  assumes "valid_path a" "valid_path b"
  shows "hostPathStrictlyContains a b \<longleftrightarrow> strict_prefix (elements a) (elements b)"
proof -
  obtain us vs where p: "good_elements us" "a = abs_path us" "good_elements vs" "b = abs_path vs"
    using assms by (meson valid_path_cases)
  obtain r where r: "Rel (abs_path us) (abs_path vs) = Some r" "r = ''.'' \<longleftrightarrow> us = vs"
      "r = ''..'' \<or> prefix ''../'' r \<longleftrightarrow> \<not> prefix us vs"
    using Rel_abs_path [OF p(1,3)] by metis
  have "hostPathStrictlyContains a b \<longleftrightarrow> r \<noteq> ''.'' \<and> \<not> (r = ''..'' \<or> prefix ''../'' r)"
    using p r(1) by (auto simp: hostPathStrictlyContains_def pathIsWithin_def)
  with r(2,3) p show ?thesis by (auto simp: strict_prefix_def path_simps)
qed

lemma sandboxPathContains_elements:
  assumes "valid_path a" "valid_path b"
  shows "sandboxPathContains a b \<longleftrightarrow> elements a \<noteq> [] \<and> strict_prefix (elements a) (elements b)"
proof -
  obtain us vs where p: "good_elements us" "a = abs_path us" "good_elements vs" "b = abs_path vs"
    using assms by (meson valid_path_cases)
  then show ?thesis by (simp add: sandboxPathContains_def path_simps)
qed

lemmas path_tests = TargetsOverlap_elements hostPathsOverlap_elements hostPathStrictlyContains_elements
  sandboxPathContains_elements

lemma TargetsOverlap_sym: "TargetsOverlap a b = TargetsOverlap b a"
  by (auto simp: TargetsOverlap_def Let_def)

lemma hostPathsOverlap_sym: "hostPathsOverlap a b = hostPathsOverlap b a"
  by (auto simp: hostPathsOverlap_def)

section \<open>Accepted slices\<close>

definition project_ok :: "project \<Rightarrow> bool" where
  "project_ok p \<longleftrightarrow> good_element (projName p) \<and> valid_path (projHostPath p) \<and> valid_path (projTarget p) \<and>
     projTarget p = Join layout_Workspace (projName p)"

definition project_pair :: "project \<Rightarrow> project \<Rightarrow> bool" where
  "project_pair q p \<longleftrightarrow> projName p \<noteq> projName q \<and> projTarget p \<noteq> projTarget q"

lemma good_name: "good_element w \<longleftrightarrow> \<not> (w = '''' \<or> w = ''.'' \<or> w = ''..'' \<or> slash \<in> set w \<or> Base w \<noteq> w)"
  using Base_word by (auto simp: good_element_def)

lemma validateProjects_None:
  "validateProjects ps = None \<longleftrightarrow> (\<forall>p \<in> set ps. project_ok p) \<and> sorted_wrt project_pair ps"
  unfolding validateProjects_def
proof (rule each_earlier_pairwise, goal_cases)
  case (1 us x)
  show ?case
    unfolding verdict_simps good_name [symmetric] not_not project_ok_def project_pair_def by auto
qed

definition managed_ok :: "mount_entry \<Rightarrow> bool" where
  "managed_ok e \<longleftrightarrow> Key_Validate (entryKey e) = None \<and> entryProfile e \<noteq> '''' \<and> valid_path (entryHostPath e) \<and>
     valid_path (entryTarget e) \<and> Access_Validate (entryAccess e) = None \<and> Seed_Validate (entrySeed e) = None"

definition managed_pair :: "mount_entry \<Rightarrow> mount_entry \<Rightarrow> bool" where
  "managed_pair d e \<longleftrightarrow> entryKey e \<noteq> entryKey d \<and> \<not> TargetsOverlap (entryTarget d) (entryTarget e)"

definition bind_ok :: "mount_bind \<Rightarrow> bool" where
  "bind_ok b \<longleftrightarrow> valid_path (bindHostPath b) \<and> valid_path (bindTarget b) \<and> Access_Validate (bindAccess b) = None"

definition bind_pair :: "mount_bind \<Rightarrow> mount_bind \<Rightarrow> bool" where
  "bind_pair a b \<longleftrightarrow> \<not> TargetsOverlap (bindTarget a) (bindTarget b)"

lemma Entry_Validate_None: "Entry_Validate e = None \<longleftrightarrow> managed_ok e"
  by (auto simp: Entry_Validate_def managed_ok_def verdict_simps)

lemma Bind_Validate_None: "Bind_Validate b = None \<longleftrightarrow> bind_ok b"
  by (auto simp: Bind_Validate_def bind_ok_def verdict_simps)

lemma validateMounts_None:
  "validateMounts ms bs = None \<longleftrightarrow>
     (\<forall>e \<in> set ms. managed_ok e) \<and> sorted_wrt managed_pair ms \<and>
     (\<forall>b \<in> set bs. bind_ok b \<and> (\<forall>e \<in> set ms. \<not> TargetsOverlap (entryTarget e) (bindTarget b))) \<and>
     sorted_wrt bind_pair bs"
proof -
  have m: "each_earlier (\<lambda>seen entry.
          and_then (map_error MountInvalid (Entry_Validate entry))
         (and_then (validateHostPath ''managed-directory'' (entryHostPath entry))
         (and_then (fail_if (entryKey entry \<in> entryKey ` set seen) (DuplicateManagedKey (Key_String (entryKey entry))))
                   (each (\<lambda>target. fail_if (TargetsOverlap target (entryTarget entry))
                                     (TargetInvalid (TargetsOverlapping target (entryTarget entry))))
                      (map entryTarget seen))))) [] ms = None \<longleftrightarrow>
      (\<forall>e \<in> set ms. managed_ok e) \<and> sorted_wrt managed_pair ms"
    by (rule each_earlier_pairwise)
      (auto simp: verdict_simps Entry_Validate_None managed_pair_def managed_ok_def)
  have b: "each_earlier (\<lambda>seen bind.
          and_then (map_error MountInvalid (Bind_Validate bind))
         (and_then (validateHostPath ''bind'' (bindHostPath bind))
                   (each (\<lambda>target. fail_if (TargetsOverlap target (bindTarget bind))
                                     (TargetInvalid (TargetsOverlapping target (bindTarget bind))))
                      (map entryTarget ms @ map bindTarget seen)))) [] bs = None \<longleftrightarrow>
      (\<forall>b \<in> set bs. bind_ok b \<and> (\<forall>e \<in> set ms. \<not> TargetsOverlap (entryTarget e) (bindTarget b))) \<and>
      sorted_wrt bind_pair bs"
    by (rule each_earlier_pairwise)
      (auto simp: verdict_simps Bind_Validate_None bind_pair_def bind_ok_def)
  show ?thesis unfolding validateMounts_def and_then_None m b by auto
qed

definition asset_ok :: "runtime_asset \<Rightarrow> bool" where
  "asset_ok a \<longleftrightarrow> valid_path (assetHostPath a) \<and> valid_path (assetTarget a) \<and>
     sandboxPathContains layout_Runtime (assetTarget a) \<and> Access_Validate (assetAccess a) = None"

definition asset_pair :: "runtime_asset \<Rightarrow> runtime_asset \<Rightarrow> bool" where
  "asset_pair a b \<longleftrightarrow> \<not> TargetsOverlap (assetTarget a) (assetTarget b)"

lemma validateRuntimeAssets_None:
  "validateRuntimeAssets as = None \<longleftrightarrow> (\<forall>a \<in> set as. asset_ok a) \<and> sorted_wrt asset_pair as"
  unfolding validateRuntimeAssets_def
  by (rule each_earlier_pairwise) (auto simp: verdict_simps asset_ok_def asset_pair_def)

definition env_ok :: "environment_variable \<Rightarrow> bool" where
  "env_ok v \<longleftrightarrow> envName v \<noteq> '''' \<and> CHR ''='' \<notin> set (envName v) \<and> NUL \<notin> set (envName v) \<and>
     NUL \<notin> set (envValue v) \<and> envName v \<noteq> ''HOME'' \<and> envName v \<noteq> ''TOBY_SANDBOX''"

definition env_pair :: "environment_variable \<Rightarrow> environment_variable \<Rightarrow> bool" where
  "env_pair u v \<longleftrightarrow> envName v \<noteq> envName u"

lemma validateEnvironment_None:
  "validateEnvironment vs = None \<longleftrightarrow> (\<forall>v \<in> set vs. env_ok v) \<and> sorted_wrt env_pair vs"
  unfolding validateEnvironment_def
  by (rule each_earlier_pairwise) (auto simp: verdict_simps env_ok_def env_pair_def)

definition target_ok :: "plan \<Rightarrow> string \<Rightarrow> bool" where
  "target_ok p t \<longleftrightarrow> t \<noteq> layout_Root \<and> \<not> sandboxPathContains t layout_Root \<and>
     t \<noteq> layout_Home \<and> \<not> sandboxPathContains t layout_Home \<and>
     \<not> TargetsOverlap t layout_Workspace \<and> \<not> TargetsOverlap t layout_Bin \<and> \<not> TargetsOverlap t layout_Runtime \<and>
     (\<forall>q \<in> set (planProjects p). \<not> TargetsOverlap t (projTarget q))"

lemma validateTargetGraph_None:
  "validateTargetGraph p = None \<longleftrightarrow>
     (\<forall>t \<in> set (map entryTarget (planManaged p) @ map bindTarget (planBinds p)). target_ok p t)"
  unfolding validateTargetGraph_def verdict_simps target_ok_def by auto

definition generated_ok :: "plan \<Rightarrow> generated_file \<Rightarrow> bool" where
  "generated_ok p g \<longleftrightarrow> validateGeneratedFile g (plan_backings p) (planIdentity p) = None \<and>
     (\<forall>b \<in> set (planBinds p). \<not> TargetsOverlap (genTarget g) (bindTarget b))"

definition generated_pair :: "generated_file \<Rightarrow> generated_file \<Rightarrow> bool" where
  "generated_pair f g \<longleftrightarrow> \<not> TargetsOverlap (genTarget f) (genTarget g) \<and> Clean (genHostPath f) \<noteq> Clean (genHostPath g)"

lemma validateGeneratedFiles_None:
  "validateGeneratedFiles p = None \<longleftrightarrow>
     (\<forall>g \<in> set (planGenerated p). generated_ok p g) \<and> sorted_wrt generated_pair (planGenerated p)"
  unfolding validateGeneratedFiles_def
  by (rule each_earlier_pairwise) (auto simp: verdict_simps generated_ok_def generated_pair_def)

section \<open>The host storage graph\<close>

definition owned_paths :: "plan \<Rightarrow> string list" where
  "owned_paths p = homeHostPath (planHome p) # map entryHostPath (planManaged p)"

definition external_paths :: "plan \<Rightarrow> string list" where
  "external_paths p =
     binHostPath (planBinary p) # map projHostPath (planProjects p) @ map bindHostPath (planBinds p)"

definition asset_paths :: "plan \<Rightarrow> string list" where
  "asset_paths p = map assetHostPath (planAssets p)"

definition generated_paths :: "plan \<Rightarrow> string list" where
  "generated_paths p = map genHostPath (planGenerated p)"

lemma enumerate_all: "(\<forall>c \<in> set (enumerate n xs). P (snd c)) \<longleftrightarrow> (\<forall>x \<in> set xs. P x)"
  by (metis (no_types, lifting) image_iff list.set_map map_snd_enumerate)

lemma numbered_all:
  "(\<forall>c \<in> set (numbered l f inside xs). P (claimPath c) (claimInsideRuntime c)) \<longleftrightarrow> (\<forall>x \<in> set xs. P (f x) inside)"
  unfolding numbered_def using enumerate_all [of 0 xs "\<lambda>x. P (f x) inside"] by (auto simp: split_beta)

lemma numbered_label: "c \<in> set (numbered l f inside xs) \<Longrightarrow> \<exists>s. claimLabel c = l @ '' '' @ s"
  by (auto simp: numbered_def)

lemma persistent_all:
  "(\<forall>c \<in> set (persistentHostPaths p). P (claimPath c) (claimInsideRuntime c)) \<longleftrightarrow>
     P (rootPath (planRootFS p)) False \<and>
     (\<forall>h \<in> set (owned_paths p @ external_paths p @ generated_paths p). P h False) \<and>
     (\<forall>h \<in> set (asset_paths p). P h True)"
  unfolding persistentHostPaths_def set_append ball_Un numbered_all
  by (auto simp: owned_paths_def external_paths_def generated_paths_def asset_paths_def project_claims_def managed_claims_def)

lemma external_all:
  "(\<forall>c \<in> set (externalHostPaths p). P (claimPath c)) \<longleftrightarrow> (\<forall>h \<in> set (external_paths p @ asset_paths p). P h)"
  unfolding externalHostPaths_def set_append set_simps ball_simps ball_Un numbered_all [of _ _ _ _ "\<lambda>x _. P x"]
  by (auto simp: external_paths_def asset_paths_def project_claims_def)

lemma persistent_rootfs:
  "c \<in> set (persistentHostPaths p) \<Longrightarrow> claimLabel c = ''rootfs'' \<Longrightarrow> c = claim ''rootfs'' (rootPath (planRootFS p))"
  by (auto simp: persistentHostPaths_def project_claims_def managed_claims_def dest!: numbered_label)

lemma persistent_others:
  "(\<forall>c \<in> set (persistentHostPaths p). claimLabel c \<noteq> ''rootfs'' \<longrightarrow> P (claimPath c)) \<longleftrightarrow>
     (\<forall>h \<in> set (owned_paths p @ external_paths p @ generated_paths p @ asset_paths p). P h)"
proof -
  define others where "others = tl (persistentHostPaths p)"
  have split: "persistentHostPaths p = claim ''rootfs'' (rootPath (planRootFS p)) # others"
    by (simp add: others_def persistentHostPaths_def)
  have "claimLabel c \<noteq> ''rootfs''" if "c \<in> set others" for c
    using that by (auto simp: others_def persistentHostPaths_def project_claims_def managed_claims_def dest!: numbered_label)
  then have "(\<forall>c \<in> set (persistentHostPaths p). claimLabel c \<noteq> ''rootfs'' \<longrightarrow> P (claimPath c)) \<longleftrightarrow>
      (\<forall>c \<in> set others. P (claimPath c))"
    unfolding split by auto
  also have "\<dots> \<longleftrightarrow> (\<forall>h \<in> set (owned_paths p @ external_paths p @ generated_paths p @ asset_paths p). P h)"
    unfolding others_def persistentHostPaths_def append.simps list.sel set_append set_simps ball_simps ball_Un
      numbered_all [of _ _ _ _ "\<lambda>x _. P x"]
    by (auto simp: owned_paths_def external_paths_def generated_paths_def asset_paths_def project_claims_def managed_claims_def)
  finally show ?thesis .
qed

lemma validateImmutableRootFS_None:
  "validateImmutableRootFS p = None \<longleftrightarrow>
     (\<forall>h \<in> set (owned_paths p @ external_paths p @ generated_paths p @ asset_paths p).
        \<not> hostPathsOverlap (rootPath (planRootFS p)) h)"
  unfolding validateImmutableRootFS_def verdict_simps persistent_others [symmetric] by auto

lemma validateOwnedBackings_None:
  "validateOwnedBackings p = None \<longleftrightarrow>
     (\<forall>h \<in> set (owned_paths p). \<forall>e \<in> set (external_paths p @ asset_paths p). \<not> hostPathsOverlap h e) \<and>
     sorted_wrt (\<lambda>a b. \<not> hostPathsOverlap a b) (owned_paths p)"
proof -
  let ?owned = "claim ''private-home'' (homeHostPath (planHome p)) # managed_claims p"
  have paths: "map claimPath ?owned = owned_paths p" by (simp add: owned_paths_def managed_claims_def)
  have "validateOwnedBackings p = None \<longleftrightarrow>
      (\<forall>c \<in> set ?owned. \<forall>e \<in> set (externalHostPaths p). \<not> hostPathsOverlap (claimPath c) (claimPath e)) \<and>
      sorted_wrt (\<lambda>a b. \<not> hostPathsOverlap (claimPath a) (claimPath b)) ?owned"
    unfolding validateOwnedBackings_def
    by (rule each_earlier_pairwise) (auto simp: verdict_simps hostPathsOverlap_sym)
  also have "\<dots> \<longleftrightarrow>
      (\<forall>h \<in> set (map claimPath ?owned). \<forall>e \<in> set (external_paths p @ asset_paths p). \<not> hostPathsOverlap h e) \<and>
      sorted_wrt (\<lambda>a b. \<not> hostPathsOverlap a b) (map claimPath ?owned)"
    unfolding external_all [of p "\<lambda>e. \<not> hostPathsOverlap h e" for h] sorted_wrt_map set_map ball_simps ..
  finally show ?thesis unfolding paths .
qed

lemma validateGeneratedFileOwnership_None:
  "validateGeneratedFileOwnership p = None \<longleftrightarrow>
     (\<forall>h \<in> set (generated_paths p). length (filter (\<lambda>b. hostPathStrictlyContains b h) (owned_paths p)) = 1)"
  unfolding validateGeneratedFileOwnership_def verdict_simps owned_paths_def [symmetric] generated_paths_def
  using enumerate_all [of 0 "planGenerated p"
    "\<lambda>g. length (filter (\<lambda>b. hostPathStrictlyContains b (genHostPath g)) (owned_paths p)) = 1"]
  by (auto simp: split_beta Let_def fail_if_None)

definition run_root :: "plan \<Rightarrow> string" where
  "run_root p = Join (ovRunStorageDir (planOverlay p)) (planRunID p)"

definition host_graph_ok :: "plan \<Rightarrow> bool" where
  "host_graph_ok p \<longleftrightarrow>
     Dir (ovUpper (planOverlay p)) = run_root p \<and> Dir (ovWork (planOverlay p)) = run_root p \<and>
     Base (ovUpper (planOverlay p)) = ''upper'' \<and> Base (ovWork (planOverlay p)) = ''work'' \<and>
     (\<forall>h \<in> set (rootPath (planRootFS p) # owned_paths p @ external_paths p @ generated_paths p).
        \<not> hostPathsOverlap (run_root p) h) \<and>
     (\<forall>h \<in> set (asset_paths p).
        hostPathStrictlyContains (Join (run_root p) ''runtime'') h \<or> \<not> hostPathsOverlap (run_root p) h) \<and>
     validateImmutableRootFS p = None \<and> validateOwnedBackings p = None \<and> validateGeneratedFileOwnership p = None"

lemma validateHostStorageGraph_None: "validateHostStorageGraph p = None \<longleftrightarrow> host_graph_ok p"
proof -
  have loop: "each (\<lambda>c.
        if claimInsideRuntime c \<and> hostPathStrictlyContains (Join (run_root p) ''runtime'') (claimPath c) then None
        else fail_if (hostPathsOverlap u (claimPath c)) (HostInvalid (OverlapsHost ''overlay run root'' u (claimLabel c) (claimPath c))))
        (persistentHostPaths p) = None \<longleftrightarrow>
      (\<forall>h \<in> set (rootPath (planRootFS p) # owned_paths p @ external_paths p @ generated_paths p).
         \<not> hostPathsOverlap u h) \<and>
      (\<forall>h \<in> set (asset_paths p). hostPathStrictlyContains (Join (run_root p) ''runtime'') h \<or> \<not> hostPathsOverlap u h)" for u
  proof -
    have "each (\<lambda>c.
        if claimInsideRuntime c \<and> hostPathStrictlyContains (Join (run_root p) ''runtime'') (claimPath c) then None
        else fail_if (hostPathsOverlap u (claimPath c)) (HostInvalid (OverlapsHost ''overlay run root'' u (claimLabel c) (claimPath c))))
        (persistentHostPaths p) = None \<longleftrightarrow>
      (\<forall>c \<in> set (persistentHostPaths p).
        (claimInsideRuntime c \<and> hostPathStrictlyContains (Join (run_root p) ''runtime'') (claimPath c)) \<or>
        \<not> hostPathsOverlap u (claimPath c))"
      by (auto simp: verdict_simps split: if_splits)
    also have "\<dots> \<longleftrightarrow>
      (\<forall>h \<in> set (rootPath (planRootFS p) # owned_paths p @ external_paths p @ generated_paths p).
         \<not> hostPathsOverlap u h) \<and>
      (\<forall>h \<in> set (asset_paths p). hostPathStrictlyContains (Join (run_root p) ''runtime'') h \<or> \<not> hostPathsOverlap u h)"
      using persistent_all [of p "\<lambda>h inside.
        (inside \<and> hostPathStrictlyContains (Join (run_root p) ''runtime'') h) \<or> \<not> hostPathsOverlap u h"]
      by simp
    finally show ?thesis .
  qed
  show ?thesis
    unfolding validateHostStorageGraph_def Let_def run_root_def [symmetric] and_then_None loop fail_if_None host_graph_ok_def
    by auto
qed

end
