(* ===== verification/Bwrap_Valid.thy ===== *)
theory Bwrap_Valid
  imports Bwrap_Graph
begin

text \<open>
  Consequences of acceptance of a plan: the sandbox targets, the host paths, the backing of
  generated files, and the canonical order.
\<close>

section \<open>An accepted plan\<close>

lemma Validate_None:
  "Validate p = None \<longleftrightarrow>
     idPattern (planRunID p) \<and> digestPattern (rootDigest (planRootFS p)) \<and>
     (\<forall>h \<in> {rootPath (planRootFS p), ovRunStorageDir (planOverlay p), ovUpper (planOverlay p), ovWork (planOverlay p),
        homeHostPath (planHome p), binHostPath (planBinary p)}. valid_path h) \<and>
     Clean (ovUpper (planOverlay p)) \<noteq> Clean (ovWork (planOverlay p)) \<and> idPattern (homeID (planHome p)) \<and>
     binTarget (planBinary p) = layout_SandboxBinary \<and> valid_path (planWorkdir p) \<and>
     0 \<le> idHostUID (planIdentity p) \<and> 0 \<le> idHostGID (planIdentity p) \<and>
     nsNetwork (planNamespaces p) = NetworkHost \<and> Command_validate (planCommand p) = None \<and>
     validateProjects (planProjects p) = None \<and> validateMounts (planManaged p) (planBinds p) = None \<and>
     validateRuntimeAssets (planAssets p) = None \<and> validateTargetGraph p = None \<and>
     validateGeneratedFiles p = None \<and> host_graph_ok p \<and> validateEnvironment (planEnvironment p) = None"
  unfolding Validate_def verdict_simps Namespaces_validate_def validateHostStorageGraph_None
  by (auto simp: validate_paths)

lemma valid_planD:
  assumes "Validate p = None"
  shows "\<And>q. q \<in> set (planProjects p) \<Longrightarrow> project_ok q" "sorted_wrt project_pair (planProjects p)"
    "\<And>e. e \<in> set (planManaged p) \<Longrightarrow> managed_ok e" "sorted_wrt managed_pair (planManaged p)"
    "\<And>b. b \<in> set (planBinds p) \<Longrightarrow> bind_ok b" "sorted_wrt bind_pair (planBinds p)"
    "\<And>e b. e \<in> set (planManaged p) \<Longrightarrow> b \<in> set (planBinds p) \<Longrightarrow> \<not> TargetsOverlap (entryTarget e) (bindTarget b)"
    "\<And>a. a \<in> set (planAssets p) \<Longrightarrow> asset_ok a" "sorted_wrt asset_pair (planAssets p)"
    "\<And>e. e \<in> set (planManaged p) \<Longrightarrow> target_ok p (entryTarget e)"
    "\<And>b. b \<in> set (planBinds p) \<Longrightarrow> target_ok p (bindTarget b)"
    "\<And>g. g \<in> set (planGenerated p) \<Longrightarrow> generated_ok p g" "sorted_wrt generated_pair (planGenerated p)"
    "\<And>v. v \<in> set (planEnvironment p) \<Longrightarrow> env_ok v" "sorted_wrt env_pair (planEnvironment p)"
    "host_graph_ok p"
  using assms
  unfolding Validate_None validateProjects_None validateMounts_None validateRuntimeAssets_None
    validateTargetGraph_None validateGeneratedFiles_None validateEnvironment_None
  by auto

lemma valid_plan_paths:
  assumes "Validate p = None"
  shows "valid_path (rootPath (planRootFS p))" "valid_path (ovRunStorageDir (planOverlay p))"
    "valid_path (ovUpper (planOverlay p))" "valid_path (ovWork (planOverlay p))"
    "h \<in> set (owned_paths p @ external_paths p @ generated_paths p @ asset_paths p) \<Longrightarrow> valid_path h"
proof -
  show "valid_path (rootPath (planRootFS p))" "valid_path (ovRunStorageDir (planOverlay p))"
    "valid_path (ovUpper (planOverlay p))" "valid_path (ovWork (planOverlay p))"
    using assms unfolding Validate_None by auto
  have own: "valid_path (homeHostPath (planHome p))" "valid_path (binHostPath (planBinary p))"
    using assms unfolding Validate_None by auto
  have gen: "valid_path (genHostPath g)" if "g \<in> set (planGenerated p)" for g
    using valid_planD(12) [OF assms that]
    by (simp add: generated_ok_def validateGeneratedFile_def verdict_simps)
  show "valid_path h" if "h \<in> set (owned_paths p @ external_paths p @ generated_paths p @ asset_paths p)"
    using that own gen valid_planD(1,3,5,8) [OF assms]
    by (auto simp: owned_paths_def external_paths_def generated_paths_def asset_paths_def
        project_ok_def managed_ok_def bind_ok_def asset_ok_def)
qed

lemma idPattern_good: "idPattern s \<Longrightarrow> good_element s"
proof (cases s)
  case (Cons c cs)
  assume p: "idPattern s"
  have "\<not> alnum (CHR ''.'')" "\<not> alnum slash"
    by (simp_all add: alnum_def ascii_letter_def ascii_digit_def)
  with p Cons show ?thesis by (auto simp: idPattern_def good_element_def list_all_iff)
qed (simp add: idPattern_def)

section \<open>Sandbox targets\<close>

text \<open>The targets of the mounts in the order in which they are made.\<close>

definition mount_targets :: "plan \<Rightarrow> string list" where
  "mount_targets p =
     layout_Home # map entryTarget (planManaged p) @ map projTarget (planProjects p) @
     map bindTarget (planBinds p) @ map assetTarget (planAssets p) @ [binTarget (planBinary p)]"

definition no_shadow :: "string \<Rightarrow> string \<Rightarrow> bool" where
  "no_shadow a b \<longleftrightarrow> apart a b \<or> (a = layout_Home \<and> strict_prefix (elements layout_Home) (elements b))"

lemma project_target_elements:
  assumes "project_ok q" shows "elements (projTarget q) = [''toby'', ''workspace'', projName q]"
proof -
  have w: "good_elements [''toby'', ''workspace'']" by (simp add: good_element_def)
  have "layout_Workspace = abs_path [''toby'', ''workspace'']" by (simp add: layout_Workspace_def abs_path_def)
  then have "projTarget q = abs_path [''toby'', ''workspace'', projName q]"
    using assms Join_abs_path [OF w] by (simp add: project_ok_def)
  moreover have "good_elements [''toby'', ''workspace'', projName q]" using assms w by (simp add: project_ok_def)
  ultimately show ?thesis using elements_abs_path by metis
qed

lemma target_ok_apart:
  assumes "target_ok p t" "valid_path t"
  shows "apart t layout_Workspace" "apart t layout_Bin" "apart t layout_Runtime" "no_shadow layout_Home t"
proof -
  show "apart t layout_Workspace" "apart t layout_Bin" "apart t layout_Runtime"
    using assms by (simp_all add: target_ok_def path_tests)
  have "t \<noteq> layout_Home" "\<not> (elements t \<noteq> [] \<and> strict_prefix (elements t) [''toby'', ''home''])"
    using assms by (simp_all add: target_ok_def path_tests)
  moreover have "elements t \<noteq> []" using \<open>apart t layout_Bin\<close> by auto
  moreover have "elements t \<noteq> [''toby'', ''home'']"
    using \<open>t \<noteq> layout_Home\<close> valid_path_elements(2) [OF assms(2)] valid_path_elements(2) [of layout_Home] by auto
  ultimately show "no_shadow layout_Home t"
    by (auto simp: no_shadow_def parallel_def strict_prefix_def)
qed

lemma apart_extend: "parallel us vs \<Longrightarrow> prefix vs ws \<Longrightarrow> parallel us ws"
  by (metis parallel_def prefix_order.trans prefix_same_cases)

lemma apart_asset:
  assumes "asset_ok a" shows "prefix [''run'', ''toby''] (elements (assetTarget a))" "valid_path (assetTarget a)"
  using assms by (auto simp: asset_ok_def path_tests strict_prefix_def)

lemma sorted_wrt_mono_on:
  "sorted_wrt R xs \<Longrightarrow> (\<And>x y. x \<in> set xs \<Longrightarrow> y \<in> set xs \<Longrightarrow> R x y \<Longrightarrow> S x y) \<Longrightarrow> sorted_wrt S xs"
  by (induction xs) auto

lemma mount_targets_ok:
  assumes v: "Validate p = None" shows "sorted_wrt no_shadow (mount_targets p)"
proof -
  note V = valid_planD [OF v]
  have path: "valid_path (entryTarget e)" if "e \<in> set (planManaged p)" for e
    using V(3) [OF that] by (simp add: managed_ok_def)
  have bpath: "valid_path (bindTarget b)" if "b \<in> set (planBinds p)" for b
    using V(5) [OF that] by (simp add: bind_ok_def)
  have bin: "elements (binTarget (planBinary p)) = [''toby'', ''bin'', ''tobys'']"
    using v unfolding Validate_None by (simp add: SandboxBinary_eq elements_def)
  note proj = project_target_elements [OF V(1)]
  note mt = target_ok_apart [OF V(10) path] and bt = target_ok_apart [OF V(11) bpath]
  have ws: "apart t (projTarget q)" if "apart t layout_Workspace" "q \<in> set (planProjects p)" for t q
    using apart_extend [OF that(1)] proj [OF that(2)] by simp
  have rt: "apart t (assetTarget a)" if "apart t layout_Runtime" "a \<in> set (planAssets p)" for t a
    using apart_extend [OF that(1)] apart_asset [OF V(8) [OF that(2)]] by simp
  have bt': "apart t (binTarget (planBinary p))" if "apart t layout_Bin" for t
    using apart_extend [OF that] bin by simp
  have projects: "sorted_wrt (\<lambda>x y. no_shadow (projTarget x) (projTarget y)) (planProjects p)"
  proof (rule sorted_wrt_mono_on [OF V(2)])
    fix x y assume "x \<in> set (planProjects p)" "y \<in> set (planProjects p)" "project_pair x y"
    then show "no_shadow (projTarget x) (projTarget y)"
      by (auto simp: no_shadow_def project_pair_def proj parallel_def)
  qed
  have pairs: "sorted_wrt no_shadow (map entryTarget (planManaged p))" "sorted_wrt no_shadow (map projTarget (planProjects p))"
    "sorted_wrt no_shadow (map bindTarget (planBinds p))" "sorted_wrt no_shadow (map assetTarget (planAssets p))"
    unfolding sorted_wrt_map
    using projects sorted_wrt_mono_on [OF V(4), of "\<lambda>x y. no_shadow (entryTarget x) (entryTarget y)"]
      sorted_wrt_mono_on [OF V(6), of "\<lambda>x y. no_shadow (bindTarget x) (bindTarget y)"]
      sorted_wrt_mono_on [OF V(9), of "\<lambda>x y. no_shadow (assetTarget x) (assetTarget y)"]
    by (simp_all add: no_shadow_def managed_pair_def bind_pair_def asset_pair_def path_tests
        path bpath apart_asset(2) [OF V(8)])
  have cross: "no_shadow (entryTarget e) (bindTarget b)" if "e \<in> set (planManaged p)" "b \<in> set (planBinds p)" for e b
    using V(7) [OF that] path [OF that(1)] bpath [OF that(2)] by (simp add: no_shadow_def path_tests)
  have pb: "apart (projTarget q) (bindTarget b)" if "q \<in> set (planProjects p)" "b \<in> set (planBinds p)" for q b
    using ws [OF bt(1) [OF that(2) that(2)] that(1)] by (simp add: parallel_commute)
  have pa: "apart (projTarget q) (assetTarget a)" if "q \<in> set (planProjects p)" "a \<in> set (planAssets p)" for q a
    using proj [OF that(1)] apart_asset(1) [OF V(8) [OF that(2)]] by (auto simp: parallel_def prefix_def)
  have pn: "apart (projTarget q) (binTarget (planBinary p))" if "q \<in> set (planProjects p)" for q
    using proj [OF that] bin by (simp add: parallel_def)
  have an: "apart (assetTarget a) (binTarget (planBinary p))" if "a \<in> set (planAssets p)" for a
    using apart_asset(1) [OF V(8) [OF that]] bin by (auto simp: parallel_def prefix_def)
  have ha: "apart layout_Home (assetTarget a)" if "a \<in> set (planAssets p)" for a
    using apart_asset(1) [OF V(8) [OF that]] by (auto simp: parallel_def prefix_def)
  have hp: "apart layout_Home (projTarget q)" if "q \<in> set (planProjects p)" for q
    using proj [OF that] by (simp add: parallel_def)
  have hb: "apart layout_Home (binTarget (planBinary p))" using bin by (simp add: parallel_def)
  have "\<forall>t \<in> set (tl (mount_targets p)). no_shadow layout_Home t"
    using mt(4) bt(4) ha hp hb
    by (simp add: mount_targets_def ball_Un no_shadow_def)
  then have home: "\<And>t. t \<in> set (tl (mount_targets p)) \<Longrightarrow> no_shadow layout_Home t" by blast
  show ?thesis
    using home pairs cross ws [OF mt(1)] rt [OF mt(3)] bt' [OF mt(2)] rt [OF bt(3)] bt' [OF bt(2)] pb pa pn an
    unfolding mount_targets_def by (auto simp: sorted_wrt_append no_shadow_def)
qed

section \<open>Host paths\<close>

lemma run_root_elements:
  assumes "Validate p = None"
  shows "elements (run_root p) = elements (ovRunStorageDir (planOverlay p)) @ [planRunID p]"
    "valid_path (run_root p)" "good_elements (elements (run_root p))" "abs_path (elements (run_root p)) = run_root p"
proof -
  have g: "good_element (planRunID p)" using assms idPattern_good unfolding Validate_None by blast
  note s = valid_path_elements [OF valid_plan_paths(2) [OF assms]]
  have run: "run_root p = abs_path (elements (ovRunStorageDir (planOverlay p)) @ [planRunID p])"
    using Join_abs_path [OF s(1) g] s(2) by (simp add: run_root_def)
  have good: "good_elements (elements (ovRunStorageDir (planOverlay p)) @ [planRunID p])" using s(1) g by simp
  show "elements (run_root p) = elements (ovRunStorageDir (planOverlay p)) @ [planRunID p]"
    unfolding run using good by (rule elements_abs_path)
  then show "good_elements (elements (run_root p))" "abs_path (elements (run_root p)) = run_root p"
    using good run by simp_all
  have "ovUpper (planOverlay p) \<noteq> ''/''"
    using valid_planD(16) [OF assms] by (auto simp: host_graph_ok_def Base_def)
  then have "elements (ovUpper (planOverlay p)) \<noteq> []"
    using valid_path_elements(2) [OF valid_plan_paths(3) [OF assms]] by (auto simp: abs_path_def)
  then obtain us u where u: "elements (ovUpper (planOverlay p)) = us @ [u]" by (meson rev_exhaust)
  have up: "ovUpper (planOverlay p) = abs_path (us @ [u])" "good_elements us" "good_element u"
    using valid_path_elements [OF valid_plan_paths(3) [OF assms]] u by auto
  have "run_root p = abs_path us"
    using valid_planD(16) [OF assms] Dir_abs_path [OF up(2,3)] up(1) by (simp add: host_graph_ok_def)
  moreover have "set (abs_path us) \<subseteq> insert slash (set (abs_path (us @ [u])))"
    by (cases "us = []") (auto simp: abs_path_def join_slash_append)
  ultimately have "NUL \<notin> set (run_root p)"
    using valid_plan_paths(3) [OF assms] up(1) by (auto simp: valid_path_def)
  then show "valid_path (run_root p)"
    unfolding run using good by (simp add: valid_path_def Clean_abs_path)
qed

lemma Dir_Base_elements:
  assumes "valid_path s" "Dir s = r" "Base s = w" "w \<noteq> ''/''" "valid_path r"
  shows "elements s = elements r @ [w]"
proof -
  have "elements s \<noteq> []"
  proof
    assume "elements s = []"
    then have "s = ''/''" using valid_path_elements(2) [OF assms(1)] by (auto simp: abs_path_def)
    then show False using assms(3,4) by (auto simp: Base_def)
  qed
  then obtain us u where u: "elements s = us @ [u]" by (meson rev_exhaust)
  then have s: "s = abs_path (us @ [u])" "good_elements us" "good_element u"
    using valid_path_elements [OF assms(1)] by auto
  have "u = w" using assms(3) Base_abs_path [OF s(3), of us] s(1) by simp
  moreover have "r = abs_path us" using assms(2) Dir_abs_path [OF s(2,3)] s(1) by simp
  ultimately show ?thesis using u elements_abs_path [OF s(2)] by simp
qed

lemma overlay_elements:
  assumes "Validate p = None"
  shows "elements (ovUpper (planOverlay p)) = elements (run_root p) @ [''upper'']"
    "elements (ovWork (planOverlay p)) = elements (run_root p) @ [''work'']"
  using Dir_Base_elements [OF valid_plan_paths(3) [OF assms]] Dir_Base_elements [OF valid_plan_paths(4) [OF assms]]
    valid_planD(16) [OF assms] run_root_elements(2) [OF assms]
  by (simp_all add: host_graph_ok_def)

lemma apart_below: "parallel us vs \<Longrightarrow> parallel (us @ ws) vs"
  using apart_extend [of vs us "us @ ws"] by (simp add: parallel_commute)

lemma valid_runtime_root:
  assumes "Validate p = None"
  shows "elements (Join (run_root p) ''runtime'') = elements (run_root p) @ [''runtime'']"
    "valid_path (Join (run_root p) ''runtime'')"
proof -
  note r = run_root_elements [OF assms]
  have g: "good_element ''runtime''" by (simp add: good_element_def)
  have j: "Join (run_root p) ''runtime'' = abs_path (elements (run_root p) @ [''runtime''])"
    using Join_abs_path [OF r(3) g] r(4) by simp
  have good: "good_elements (elements (run_root p) @ [''runtime''])" using r(3) g by simp
  show "elements (Join (run_root p) ''runtime'') = elements (run_root p) @ [''runtime'']"
    unfolding j using good by (rule elements_abs_path)
  have "NUL \<notin> set (abs_path (elements (run_root p) @ [''runtime'']))"
    using r(2,4) by (simp add: abs_path_snoc valid_path_def)
  then show "valid_path (Join (run_root p) ''runtime'')"
    unfolding j using good by (simp add: valid_path_def Clean_abs_path)
qed

lemma overlay_apart:
  assumes v: "Validate p = None"
    and h: "h \<in> set (rootPath (planRootFS p) # owned_paths p @ external_paths p @ generated_paths p @ asset_paths p)"
  shows "apart (ovUpper (planOverlay p)) h" "apart (ovWork (planOverlay p)) h"
proof -
  note G = valid_planD(16) [OF v] and run = run_root_elements [OF v]
  have hp: "valid_path h" using h valid_plan_paths(1,5) [OF v] by auto
  consider (outside) "apart (run_root p) h"
    | (runtime) ws where "elements h = elements (run_root p) @ ''runtime'' # ws"
  proof (cases "h \<in> set (asset_paths p) \<and> hostPathStrictlyContains (Join (run_root p) ''runtime'') h")
    case True
    then obtain z zs where "elements h = (elements (run_root p) @ [''runtime'']) @ z # zs"
      using valid_runtime_root [OF v] hp by (auto simp: path_tests elim!: strict_prefixE')
    then show ?thesis using runtime by simp
  next
    case False
    then have "\<not> hostPathsOverlap (run_root p) h" using G h by (auto simp: host_graph_ok_def)
    then show ?thesis using outside run(2) hp by (simp add: path_tests)
  qed
  then have "apart (ovUpper (planOverlay p)) h \<and> apart (ovWork (planOverlay p)) h"
    by cases (simp_all add: overlay_elements [OF v] apart_below, simp add: parallel_def)
  then show "apart (ovUpper (planOverlay p)) h" "apart (ovWork (planOverlay p)) h" by auto
qed

lemma rootfs_apart:
  assumes v: "Validate p = None"
    and h: "h \<in> set (owned_paths p @ external_paths p @ generated_paths p @ asset_paths p)"
  shows "apart (rootPath (planRootFS p)) h"
proof -
  have "\<not> hostPathsOverlap (rootPath (planRootFS p)) h"
    using valid_planD(16) [OF v] h unfolding host_graph_ok_def validateImmutableRootFS_None by blast
  then show ?thesis using valid_plan_paths(1) [OF v] valid_plan_paths(5) [OF v h] by (simp add: path_tests)
qed

lemma owned_apart:
  assumes v: "Validate p = None" and o: "h \<in> set (owned_paths p)"
    and e: "e \<in> set (external_paths p @ asset_paths p)"
  shows "apart h e"
proof -
  have "\<not> hostPathsOverlap h e"
    using valid_planD(16) [OF v] o e unfolding host_graph_ok_def validateOwnedBackings_None by blast
  then show ?thesis using valid_plan_paths(5) [OF v, of h] valid_plan_paths(5) [OF v, of e] o e
    by (auto simp: hostPathsOverlap_elements)
qed

lemma owned_pairwise:
  assumes v: "Validate p = None" shows "sorted_wrt apart (owned_paths p)"
proof -
  have "sorted_wrt (\<lambda>a b. \<not> hostPathsOverlap a b) (owned_paths p)"
    using valid_planD(16) [OF v] unfolding host_graph_ok_def validateOwnedBackings_None by simp
  then show ?thesis
    by (rule sorted_wrt_mono_on) (use valid_plan_paths(5) [OF v] in \<open>auto simp: path_tests\<close>)
qed

section \<open>The backing of a generated file\<close>

abbreviation covers :: "string \<Rightarrow> persistent_backing \<Rightarrow> bool" where
  "covers t b \<equiv> sandboxPathContains (backSandboxRoot b) t"

lemma select_backing_fold:
  assumes "\<forall>b \<in> set bs. backSandboxRoot b \<noteq> ''''" "backSandboxRoot s \<noteq> ''''"
  shows "fold (select_backing t) bs s \<in> insert s {b \<in> set bs. covers t b} \<and>
    (\<forall>b \<in> insert s {b \<in> set bs. covers t b}. length (backSandboxRoot b) \<le> length (backSandboxRoot (fold (select_backing t) bs s)))"
  using assms
proof (induction bs arbitrary: s)
  case (Cons b bs)
  have "backSandboxRoot (select_backing t b s) \<noteq> ''''" using Cons.prems by (auto simp: select_backing_def)
  moreover have "length (backSandboxRoot s) \<le> length (backSandboxRoot (select_backing t b s))"
    "covers t b \<Longrightarrow> length (backSandboxRoot b) \<le> length (backSandboxRoot (select_backing t b s))"
    "select_backing t b s = s \<or> (select_backing t b s = b \<and> covers t b)"
    by (auto simp: select_backing_def)
  ultimately show ?case using Cons.IH [of "select_backing t b s"] Cons.prems by fastforce
qed simp

lemma select_backing_start:
  assumes "\<forall>b \<in> set bs. backSandboxRoot b \<noteq> ''''" "backSandboxRoot s = ''''"
  shows "if filter (covers t) bs = [] then fold (select_backing t) bs s = s
    else fold (select_backing t) bs s \<in> set (filter (covers t) bs) \<and>
      (\<forall>b \<in> set (filter (covers t) bs). length (backSandboxRoot b) \<le> length (backSandboxRoot (fold (select_backing t) bs s)))"
  using assms
proof (induction bs)
  case (Cons b bs)
  show ?case
  proof (cases "covers t b")
    case True
    then have "select_backing t b s = b" using Cons.prems by (simp add: select_backing_def)
    with True select_backing_fold [of bs b t] Cons.prems show ?thesis by auto
  next
    case False
    then have "select_backing t b s = s" by (simp add: select_backing_def)
    with False Cons show ?thesis by auto
  qed
qed simp

lemma valid_backings:
  assumes "Validate p = None" "b \<in> set (plan_backings p)"
  shows "valid_path (backHostRoot b)" "valid_path (backSandboxRoot b)" "elements (backSandboxRoot b) \<noteq> []"
proof -
  have "valid_path (homeHostPath (planHome p))" using assms(1) unfolding Validate_None by auto
  then show "valid_path (backHostRoot b)" "valid_path (backSandboxRoot b)"
    using assms(2) valid_planD(3) [OF assms(1)] by (auto simp: plan_backings_def managed_ok_def)
  have "elements (entryTarget e) \<noteq> []" if "e \<in> set (planManaged p)" for e
    using target_ok_apart(2) [OF valid_planD(10) [OF assms(1) that]] valid_planD(3) [OF assms(1) that]
    by (auto simp: managed_ok_def)
  then show "elements (backSandboxRoot b) \<noteq> []" using assms(2) by (auto simp: plan_backings_def)
qed

lemma TrimPrefix_elements:
  assumes "valid_path r" "valid_path t" "elements r \<noteq> []" "elements t = elements r @ rel" "rel \<noteq> []"
  shows "TrimPrefix t (r @ ''/'') = join_slash rel"
proof -
  have "t = r @ slash # join_slash rel"
    using abs_path_append [OF assms(3,5)] valid_path_elements(2) [OF assms(1)] valid_path_elements(2) [OF assms(2)] assms(4)
    by simp
  then show ?thesis by (simp add: TrimPrefix_def)
qed

lemma generated_backing:
  assumes v: "Validate p = None" and g: "g \<in> set (planGenerated p)"
  obtains b rel where "b \<in> set (plan_backings p)" "rel \<noteq> []"
    "elements (genTarget g) = elements (backSandboxRoot b) @ rel"
    "elements (genHostPath g) = elements (backHostRoot b) @ rel"
    "\<And>c. c \<in> set (plan_backings p) \<Longrightarrow> covers (genTarget g) c \<Longrightarrow> prefix (elements (backSandboxRoot c)) (elements (backSandboxRoot b))"
proof -
  let ?bs = "plan_backings p" and ?t = "genTarget g"
  have ok: "valid_path (genHostPath g)" "valid_path ?t"
    "\<exists>b rel. generatedFileBacking ?t ?bs = Some (b, rel) \<and> Clean (genHostPath g) = Clean (Join (backHostRoot b) rel)"
    using valid_planD(12) [OF v g]
    by (auto simp: generated_ok_def validateGeneratedFile_def verdict_simps split: option.splits)
  then obtain b r where b: "generatedFileBacking ?t ?bs = Some (b, r)" "Clean (genHostPath g) = Clean (Join (backHostRoot b) r)"
    by blast
  define z where "z = \<lparr>backHostRoot = '''', backSandboxRoot = ''''\<rparr>"
  have roots: "\<forall>c \<in> set ?bs. backSandboxRoot c \<noteq> ''''"
  proof
    fix c assume "c \<in> set ?bs"
    from valid_backings(3) [OF v this] show "backSandboxRoot c \<noteq> ''''" by (auto simp: elements_def)
  qed
  have sel: "fold (select_backing ?t) ?bs z = b" "backSandboxRoot b \<noteq> ''''" "r = TrimPrefix ?t (backSandboxRoot b @ ''/'')"
    using b(1) by (auto simp: generatedFileBacking_def z_def Let_def split: if_splits)
  have "filter (covers ?t) ?bs \<noteq> []"
    using select_backing_start [OF roots, of z ?t] sel by (auto simp: z_def split: if_splits)
  then have bin: "b \<in> set ?bs" "covers ?t b"
    and longest: "\<And>c. c \<in> set ?bs \<Longrightarrow> covers ?t c \<Longrightarrow> length (backSandboxRoot c) \<le> length (backSandboxRoot b)"
    using select_backing_start [OF roots, of z ?t] sel(1) by (auto simp: z_def split: if_splits)
  note B = valid_backings [OF v bin(1)]
  have sp: "strict_prefix (elements (backSandboxRoot b)) (elements ?t)" using bin(2) B ok(2) by (simp add: path_tests)
  then obtain rel where rel: "elements ?t = elements (backSandboxRoot b) @ rel" "rel \<noteq> []"
    by (auto simp: strict_prefix_def prefix_def)
  have good: "good_elements rel" "good_elements (elements (backHostRoot b) @ rel)"
    using rel valid_path_elements(1) [OF ok(2)] valid_path_elements(1) [OF B(1)] by simp_all
  have "r = join_slash rel" using sel(3) TrimPrefix_elements [OF B(2) ok(2) B(3) rel] by simp
  then have "Join (backHostRoot b) r = abs_path (elements (backHostRoot b) @ rel)"
    using Join_abs_path_list [OF valid_path_elements(1) [OF B(1)] good(1) rel(2)] valid_path_elements(2) [OF B(1)] by simp
  then have "genHostPath g = abs_path (elements (backHostRoot b) @ rel)"
    using b(2) ok(1) Clean_abs_path [OF good(2)] by (simp add: valid_path_def)
  then have host: "elements (genHostPath g) = elements (backHostRoot b) @ rel" using elements_abs_path [OF good(2)] by simp
  have "prefix (elements (backSandboxRoot c)) (elements (backSandboxRoot b))" if c: "c \<in> set ?bs" "covers ?t c" for c
  proof -
    note C = valid_backings [OF v c(1)]
    have "strict_prefix (elements (backSandboxRoot c)) (elements ?t)" using c(2) C ok(2) by (simp add: path_tests)
    with sp have "prefix (elements (backSandboxRoot c)) (elements (backSandboxRoot b)) \<or>
        strict_prefix (elements (backSandboxRoot b)) (elements (backSandboxRoot c))"
      by (metis prefix_order.le_less prefix_same_cases)
    moreover have "\<not> strict_prefix (elements (backSandboxRoot b)) (elements (backSandboxRoot c))"
      using abs_path_length [OF B(3)] longest [OF c] valid_path_elements(2) [OF B(2)] valid_path_elements(2) [OF C(2)]
      by (metis linorder_not_le)
    ultimately show ?thesis by blast
  qed
  with that bin(1) rel host show ?thesis by blast
qed

section \<open>The canonical order\<close>

definition same_plan :: "plan \<Rightarrow> plan \<Rightarrow> bool" where
  "same_plan p q \<longleftrightarrow>
     mset (planProjects p) = mset (planProjects q) \<and> mset (planManaged p) = mset (planManaged q) \<and>
     mset (planBinds p) = mset (planBinds q) \<and> mset (planAssets p) = mset (planAssets q) \<and>
     mset (planGenerated p) = mset (planGenerated q) \<and> mset (planEnvironment p) = mset (planEnvironment q) \<and>
     q = p\<lparr>planProjects := planProjects q, planManaged := planManaged q, planBinds := planBinds q,
       planAssets := planAssets q, planGenerated := planGenerated q, planEnvironment := planEnvironment q\<rparr>"

definition in_order :: "plan \<Rightarrow> bool" where
  "in_order p \<longleftrightarrow>
     sorted (map projName (planProjects p)) \<and>
     sorted (map (\<lambda>e. (entryTarget e, Key_String (entryKey e))) (planManaged p)) \<and>
     sorted (map (\<lambda>b. (bindTarget b, bindHostPath b)) (planBinds p)) \<and>
     sorted (map (\<lambda>a. (assetTarget a, assetHostPath a)) (planAssets p)) \<and>
     sorted (map genHostPath (planGenerated p)) \<and> sorted (map envName (planEnvironment p))"

lemma same_plan_Canonical: "same_plan p (Canonical p)" "in_order (Canonical p)"
  by (simp_all add: same_plan_def in_order_def Canonical_def)

lemma pair_syms: "symp project_pair" "symp managed_pair" "symp bind_pair" "symp asset_pair" "symp generated_pair" "symp env_pair"
  "symp (\<lambda>a b. \<not> hostPathsOverlap a b)"
  by (auto simp: symp_def project_pair_def managed_pair_def bind_pair_def asset_pair_def generated_pair_def env_pair_def
      TargetsOverlap_sym hostPathsOverlap_sym)

lemma same_plan_fields:
  assumes "same_plan p q"
  shows "planRunID q = planRunID p" "planRootFS q = planRootFS p" "planOverlay q = planOverlay p" "planHome q = planHome p"
    "planBinary q = planBinary p" "planWorkdir q = planWorkdir p" "planIdentity q = planIdentity p"
    "planNamespaces q = planNamespaces p" "planCommand q = planCommand p"
proof -
  obtain a b c d e f where q: "q = p\<lparr>planProjects := a, planManaged := b, planBinds := c,
       planAssets := d, planGenerated := e, planEnvironment := f\<rparr>"
    using assms unfolding same_plan_def by blast
  show "planRunID q = planRunID p" "planRootFS q = planRootFS p" "planOverlay q = planOverlay p" "planHome q = planHome p"
    "planBinary q = planBinary p" "planWorkdir q = planWorkdir p" "planIdentity q = planIdentity p"
    "planNamespaces q = planNamespaces p" "planCommand q = planCommand p"
    unfolding q by simp_all
qed

lemma no_shadow_distinct: "sorted_wrt no_shadow ts \<Longrightarrow> distinct ts"
  by (induction ts) (auto simp: no_shadow_def strict_prefix_def)

lemma backings_inj:
  assumes "Validate p = None" shows "inj_on backSandboxRoot (set (plan_backings p))"
proof -
  have "sorted_wrt no_shadow (layout_Home # map entryTarget (planManaged p))"
    using mount_targets_ok [OF assms] by (auto simp: mount_targets_def sorted_wrt_append)
  then have "distinct (layout_Home # map entryTarget (planManaged p))" by (rule no_shadow_distinct)
  moreover have "map backSandboxRoot (plan_backings p) = layout_Home # map entryTarget (planManaged p)"
    by (simp add: plan_backings_def)
  ultimately show ?thesis using distinct_map by metis
qed

lemma prefix_same_length: "prefix us ts \<Longrightarrow> prefix vs ts \<Longrightarrow> length us = length vs \<Longrightarrow> us = vs"
  by (auto simp: prefix_def append_eq_append_conv)

lemma backing_by_set:
  assumes "set bs = set bs'" "\<forall>b \<in> set bs. backSandboxRoot b \<noteq> ''''" "inj_on backSandboxRoot (set bs)"
    "backSandboxRoot z = ''''"
  shows "fold (select_backing t) bs z = fold (select_backing t) bs' z"
proof -
  let ?b = "fold (select_backing t) bs z" and ?c = "fold (select_backing t) bs' z"
  have roots': "\<forall>b \<in> set bs'. backSandboxRoot b \<noteq> ''''" using assms(1,2) by auto
  note B = select_backing_start [OF assms(2,4), of t] and C = select_backing_start [OF roots' assms(4), of t]
  have f: "filter (covers t) bs = [] \<longleftrightarrow> filter (covers t) bs' = []" "set (filter (covers t) bs) = set (filter (covers t) bs')"
    using assms(1) by (auto simp: filter_empty_conv)
  show ?thesis
  proof (cases "filter (covers t) bs = []")
    case True
    with B C f show ?thesis by simp
  next
    case False
    then have b: "?b \<in> set (filter (covers t) bs)" "?c \<in> set (filter (covers t) bs)"
      "length (backSandboxRoot ?b) = length (backSandboxRoot ?c)"
      using B C f by (auto intro: antisym)
    then have "backSandboxRoot ?b @ ''/'' = backSandboxRoot ?c @ ''/''"
      by (intro prefix_same_length [of _ t]) (auto simp: sandboxPathContains_def)
    then have "backSandboxRoot ?b = backSandboxRoot ?c" by simp
    then show ?thesis using b assms(3) by (auto simp: inj_on_def)
  qed
qed

lemma same_plan_backing:
  assumes "Validate p = None" "same_plan p q"
  shows "generatedFileBacking t (plan_backings q) = generatedFileBacking t (plan_backings p)"
proof -
  have "set (plan_backings p) = set (plan_backings q)"
    using assms(2) same_plan_fields(4) [OF assms(2)] mset_eq_setD [of "planManaged p" "planManaged q"]
    by (auto simp: plan_backings_def same_plan_def)
  moreover have "\<forall>c \<in> set (plan_backings p). backSandboxRoot c \<noteq> ''''"
  proof
    fix c assume "c \<in> set (plan_backings p)"
    from valid_backings(3) [OF assms(1) this] show "backSandboxRoot c \<noteq> ''''" by (auto simp: elements_def)
  qed
  ultimately have "fold (select_backing t) (plan_backings p) z = fold (select_backing t) (plan_backings q) z"
    if "backSandboxRoot z = ''''" for z
    using backing_by_set backings_inj [OF assms(1)] that by blast
  then show ?thesis by (simp add: generatedFileBacking_def)
qed

lemma same_plan_paths:
  assumes "same_plan p q"
  shows "mset (owned_paths q) = mset (owned_paths p)" "mset (external_paths q) = mset (external_paths p)"
    "mset (asset_paths q) = mset (asset_paths p)" "mset (generated_paths q) = mset (generated_paths p)"
proof -
  have m: "mset (planProjects q) = mset (planProjects p)" "mset (planManaged q) = mset (planManaged p)"
    "mset (planBinds q) = mset (planBinds p)" "mset (planAssets q) = mset (planAssets p)"
    "mset (planGenerated q) = mset (planGenerated p)"
    using assms by (simp_all add: same_plan_def)
  show "mset (owned_paths q) = mset (owned_paths p)" "mset (external_paths q) = mset (external_paths p)"
    "mset (asset_paths q) = mset (asset_paths p)" "mset (generated_paths q) = mset (generated_paths p)"
    by (simp_all add: owned_paths_def external_paths_def asset_paths_def generated_paths_def m same_plan_fields [OF assms])
qed

lemma same_plan_host_graph:
  assumes "same_plan p q" shows "host_graph_ok q = host_graph_ok p"
proof -
  note M = same_plan_paths [OF assms]
  note S = mset_eq_setD [OF M(1)] mset_eq_setD [OF M(2)] mset_eq_setD [OF M(3)] mset_eq_setD [OF M(4)]
  have count: "length (filter P (owned_paths q)) = length (filter P (owned_paths p))" for P
    using M(1) by (metis mset_filter size_mset)
  show ?thesis
    unfolding host_graph_ok_def validateImmutableRootFS_None validateOwnedBackings_None
      validateGeneratedFileOwnership_None run_root_def set_append set_simps S count
      same_plan_fields [OF assms] sorted_wrt_mset [OF pair_syms(7) M(1)] ..
qed

lemma same_plan_valid:
  assumes v: "Validate p = None" and s: "same_plan p q" shows "Validate q = None"
proof -
  have M: "mset (planProjects p) = mset (planProjects q)" "mset (planManaged p) = mset (planManaged q)"
    "mset (planBinds p) = mset (planBinds q)" "mset (planAssets p) = mset (planAssets q)"
    "mset (planGenerated p) = mset (planGenerated q)" "mset (planEnvironment p) = mset (planEnvironment q)"
    using s by (simp_all add: same_plan_def)
  note S = M [THEN mset_eq_setD]
  note W = sorted_wrt_mset [OF pair_syms(1) M(1)] sorted_wrt_mset [OF pair_syms(2) M(2)] sorted_wrt_mset [OF pair_syms(3) M(3)]
    sorted_wrt_mset [OF pair_syms(4) M(4)] sorted_wrt_mset [OF pair_syms(5) M(5)] sorted_wrt_mset [OF pair_syms(6) M(6)]
  note F = same_plan_fields [OF s]
  have "validateGeneratedFile g (plan_backings q) (planIdentity q) = validateGeneratedFile g (plan_backings p) (planIdentity p)" for g
    unfolding validateGeneratedFile_def same_plan_backing [OF v s] F ..
  then have "validateGeneratedFiles q = None"
    using v S W(5) unfolding Validate_None validateGeneratedFiles_None generated_ok_def by simp
  moreover have "validateTargetGraph q = None"
    using v S unfolding Validate_None validateTargetGraph_None target_ok_def by simp
  moreover have "host_graph_ok q" using v same_plan_host_graph [OF s] unfolding Validate_None by simp
  ultimately show ?thesis
    using v S W unfolding Validate_None F validateProjects_None validateMounts_None validateRuntimeAssets_None
      validateEnvironment_None by simp
qed

lemma same_plan_sym: "same_plan p q \<Longrightarrow> same_plan q p"
proof -
  assume s: "same_plan p q"
  then obtain a b c d e f where q: "q = p\<lparr>planProjects := a, planManaged := b, planBinds := c,
       planAssets := d, planGenerated := e, planEnvironment := f\<rparr>" unfolding same_plan_def by blast
  from s show "same_plan q p" unfolding same_plan_def q by simp
qed

lemma Validate_order: "same_plan p q \<Longrightarrow> Validate p = None \<longleftrightarrow> Validate q = None"
  using same_plan_valid same_plan_sym by blast

lemma sort_key_unique: "inj_on f (set xs) \<Longrightarrow> mset xs = mset ys \<Longrightarrow> sorted (map f ys) \<Longrightarrow> ys = sort_key f xs"
  using sort_key_inj_key_eq by metis

lemma Canonical_unique:
  assumes v: "Validate p = None" and s: "same_plan p q" "in_order q" shows "q = Canonical p"
proof -
  note V = valid_planD [OF v]
  have inj: "inj_on projName (set (planProjects p))" "inj_on (\<lambda>e. (entryTarget e, Key_String (entryKey e))) (set (planManaged p))"
    "inj_on (\<lambda>b. (bindTarget b, bindHostPath b)) (set (planBinds p))"
    "inj_on (\<lambda>a. (assetTarget a, assetHostPath a)) (set (planAssets p))"
    "inj_on genHostPath (set (planGenerated p))" "inj_on envName (set (planEnvironment p))"
  proof -
    have *: "inj_on f (set xs)" if "sorted_wrt R xs" "\<And>x y. x \<in> set xs \<Longrightarrow> y \<in> set xs \<Longrightarrow> R x y \<Longrightarrow> f x \<noteq> f y"
      for f :: "'x \<Rightarrow> 'y" and R xs
    proof -
      have "sorted_wrt (\<lambda>x y. f x \<noteq> f y) xs" using that by (rule sorted_wrt_mono_on)
      then have "distinct (map f xs)" by (induction xs) auto
      then show ?thesis by (simp add: distinct_map)
    qed
    have refl: "TargetsOverlap t t" for t by (simp add: TargetsOverlap_def Let_def)
    show "inj_on projName (set (planProjects p))" by (rule * [OF V(2)]) (auto simp: project_pair_def)
    show "inj_on (\<lambda>e. (entryTarget e, Key_String (entryKey e))) (set (planManaged p))"
      by (rule * [OF V(4)]) (auto simp: managed_pair_def refl)
    show "inj_on (\<lambda>b. (bindTarget b, bindHostPath b)) (set (planBinds p))"
      by (rule * [OF V(6)]) (auto simp: bind_pair_def refl)
    show "inj_on (\<lambda>a. (assetTarget a, assetHostPath a)) (set (planAssets p))"
      by (rule * [OF V(9)]) (auto simp: asset_pair_def refl)
    show "inj_on genHostPath (set (planGenerated p))" by (rule * [OF V(13)]) (auto simp: generated_pair_def)
    show "inj_on envName (set (planEnvironment p))" by (rule * [OF V(15)]) (auto simp: env_pair_def)
  qed
  have "planProjects q = planProjects (Canonical p)" "planManaged q = planManaged (Canonical p)"
    "planBinds q = planBinds (Canonical p)" "planAssets q = planAssets (Canonical p)"
    "planGenerated q = planGenerated (Canonical p)" "planEnvironment q = planEnvironment (Canonical p)"
    using s inj [THEN sort_key_unique] unfolding Canonical_def same_plan_def in_order_def by simp_all
  moreover have "plan.more q = plan.more (Canonical p)" by simp
  ultimately show ?thesis
    using same_plan_fields [OF s(1)] same_plan_fields [OF same_plan_Canonical(1) [of p]] by simp
qed

end
