(* ===== verification/Bwrap_Sources.thy ===== *)
theory Bwrap_Sources
  imports Bwrap_Valid
begin

text \<open>
  The already-open descriptors a plan is rendered with (\<open>sources.go\<close>) and the checks of their
  directory lineage (\<open>project_sources_linux.go\<close>, \<open>bind_sources_linux.go\<close>). The kernel is a
  parameter: what \<open>fstat\<close>, \<open>openat\<close> with \<open>..\<close>, \<open>openat2\<close> beneath a directory and \<open>fcntl\<close> with
  \<open>F_DUPFD_CLOEXEC\<close> answer for an open file. The walk to the filesystem root is an unbounded
  loop, so the checks that use it return an optional verdict, \<open>None\<close> when the walk does not end.
\<close>

section \<open>The kernel and open files\<close>

datatype file_kind = Directory | RegularFile | Socket | SymbolicLink | NamedPipe | Device | OtherKind

record file_info =
  fiDev :: "64 word"
  fiIno :: "64 word"
  fiKind :: file_kind
  fiNlink :: "64 word"
  fiSys :: bool

text \<open>\<open>os.SameFile\<close> compares device and inode.\<close>

definition SameFile :: "file_info \<Rightarrow> file_info \<Rightarrow> bool" where
  "SameFile a b \<longleftrightarrow> fiDev a = fiDev b \<and> fiIno a = fiIno b"

record 'f kernel =
  fstat :: "'f \<Rightarrow> file_info option"
  open_parent :: "'f \<Rightarrow> 'f option"
  open_child :: "'f \<Rightarrow> string \<Rightarrow> 'f option"
  dup_fd :: "'f \<Rightarrow> 'f option"

record 'f protected_roots =
  prImageStore :: "'f option"
  prPersistentData :: "'f option"
  prRunStorage :: "'f option"
  prRuntime :: "'f option"

record 'f sources =
  srcProtected :: "'f protected_roots"
  srcRootFS :: "'f option"
  srcUpper :: "'f option"
  srcWork :: "'f option"
  srcHome :: "'f option"
  srcManaged :: "(mount_key \<times> 'f option) list"
  srcProjects :: "(string \<times> 'f option) list"
  srcBinds :: "(string \<times> 'f option) list"
  srcBindParents :: "(string \<times> 'f option) list"
  srcBindNames :: "(string \<times> string) list"
  srcAssets :: "(string \<times> 'f option) list"
  srcBinary :: "'f option"

text \<open>A lookup in a Go map of pointers: an absent key reads as nil.\<close>

definition lookup_file :: "('k \<times> 'f option) list \<Rightarrow> 'k \<Rightarrow> 'f option" where
  "lookup_file m k = (case map_of m k of None \<Rightarrow> None | Some v \<Rightarrow> v)"

datatype source_error =
    SourceNil string
  | SourceStat string
  | SourceKind string file_kind
  | SourceLimit nat
  | MissingSource string string
  | UnexpectedSource string string
  | ManagedDeviceAccess string
  | SourcesAlias string string
  | SourcesDevice string
  | OverlayDevices
  | BadBindName string
  | BindChild string
  | BindLinks string
  | DuplicateFailed string
  | ParentFailed string
  | OverlayRunRoots
  | RunRootNotChild
  | NotBeneath string string
  | LineageOverlap string string

section \<open>Descriptor kinds\<close>

definition descriptorInfo :: "'f kernel \<Rightarrow> string \<Rightarrow> 'f option \<Rightarrow> source_error + file_info" where
  "descriptorInfo k label file =
     (case file of
        None \<Rightarrow> Inl (SourceNil label)
      | Some f \<Rightarrow> (case fstat k f of None \<Rightarrow> Inl (SourceStat label) | Some info \<Rightarrow> Inr info))"

definition with_info ::
  "'f kernel \<Rightarrow> string \<Rightarrow> 'f option \<Rightarrow> (file_info \<Rightarrow> source_error verdict) \<Rightarrow> source_error verdict"
where
  "with_info k label file g = (case descriptorInfo k label file of Inl e \<Rightarrow> Some e | Inr info \<Rightarrow> g info)"

definition validateDirectoryDescriptor :: "'f kernel \<Rightarrow> string \<Rightarrow> 'f option \<Rightarrow> source_error verdict" where
  "validateDirectoryDescriptor k label file =
     with_info k label file (\<lambda>info. fail_if (fiKind info \<noteq> Directory) (SourceKind label (fiKind info)))"

definition validateExecutableDescriptor :: "'f kernel \<Rightarrow> string \<Rightarrow> 'f option \<Rightarrow> source_error verdict" where
  "validateExecutableDescriptor k label file =
     with_info k label file (\<lambda>info. fail_if (fiKind info \<noteq> RegularFile) (SourceKind label (fiKind info)))"

definition validateBindDescriptor :: "'f kernel \<Rightarrow> string \<Rightarrow> 'f option \<Rightarrow> access \<Rightarrow> source_error verdict" where
  "validateBindDescriptor k label file access =
     with_info k label file (\<lambda>info.
       if access = AccessDev then fail_if (fiKind info \<noteq> Socket) (SourceKind label (fiKind info))
       else if fiKind info \<in> {Directory, RegularFile, Socket} then None
       else Some (SourceKind label (fiKind info)))"

definition validateExternalBindLinkShape :: "'f kernel \<Rightarrow> string \<Rightarrow> 'f option \<Rightarrow> source_error verdict" where
  "validateExternalBindLinkShape k label source =
     with_info k label source (\<lambda>info.
       if fiKind info = Directory then None
       else and_then (fail_if (\<not> fiSys info) (SourcesDevice label))
                     (fail_if (fiNlink info \<noteq> 1) (BindLinks label)))"

definition validateExternalBindParent ::
  "'f kernel \<Rightarrow> mount_bind \<Rightarrow> 'f option \<Rightarrow> 'f option \<Rightarrow> string \<Rightarrow> source_error verdict"
where
  "validateExternalBindParent k bind source parent base =
     and_then (fail_if (base = '''' \<or> base = ''.'' \<or> base = ''/'' \<or> Base base \<noteq> base) (BadBindName base))
    (case parent of
       None \<Rightarrow> Some (BindChild (bindTarget bind))
     | Some dir \<Rightarrow>
         (case open_child k dir base of
            None \<Rightarrow> Some (BindChild (bindTarget bind))
          | Some child \<Rightarrow>
              with_info k (''external bind '' @ bindTarget bind) source (\<lambda>sourceInfo.
              with_info k (''external bind '' @ bindTarget bind @ '' parent child'') (Some child) (\<lambda>childInfo.
                fail_if (\<not> SameFile sourceInfo childInfo) (BindChild (bindTarget bind))))))"

section \<open>Coverage and cardinality\<close>

definition maxRenderedSourceDescriptors :: nat where
  "maxRenderedSourceDescriptors = 4096"

definition validateSourceCardinality :: "plan \<Rightarrow> 'f sources \<Rightarrow> source_error verdict" where
  "validateSourceCardinality plan sources =
     (let want = 5 + length (planManaged plan) + length (planProjects plan) + length (planBinds plan) + length (planAssets plan);
          provided = 5 + length (srcManaged sources) + length (srcProjects sources) + length (srcBinds sources) + length (srcAssets sources)
      in and_then (fail_if (want > maxRenderedSourceDescriptors) (SourceLimit want))
                  (fail_if (provided > maxRenderedSourceDescriptors) (SourceLimit provided)))"

definition validateStringCoverage :: "string \<Rightarrow> string list \<Rightarrow> (string \<times> 'v) list \<Rightarrow> source_error verdict" where
  "validateStringCoverage kind expected sources =
     (let unexpected = filter (\<lambda>key. key \<notin> set expected) (map fst sources) in
      if unexpected = [] then None else Some (UnexpectedSource kind (hd (sort unexpected))))"

definition validateManagedCoverage :: "mount_entry list \<Rightarrow> (mount_key \<times> 'v) list \<Rightarrow> source_error verdict" where
  "validateManagedCoverage entries sources =
     (let unexpected = map Key_String (filter (\<lambda>key. key \<notin> entryKey ` set entries) (map fst sources)) in
      if unexpected = [] then None else Some (UnexpectedSource ''managed-directory'' (hd (sort unexpected))))"

definition owned_descriptors :: "plan \<Rightarrow> 'f sources \<Rightarrow> (string \<times> 'f option) list" where
  "owned_descriptors plan sources =
     [(''rootfs'', srcRootFS sources), (''overlay upper'', srcUpper sources), (''overlay work'', srcWork sources),
      (''private home'', srcHome sources)] @
     map (\<lambda>e. (''managed-directory '' @ Key_String (entryKey e), lookup_file (srcManaged sources) (entryKey e)))
       (planManaged plan)"

fun inspect_identities :: "'f kernel \<Rightarrow> (string \<times> 'f option) list \<Rightarrow> source_error + (string \<times> file_info) list" where
  "inspect_identities k [] = Inr []"
| "inspect_identities k ((label, file) # rest) =
     (case (case file of None \<Rightarrow> None | Some f \<Rightarrow> fstat k f) of
        None \<Rightarrow> Inl (SourceStat label)
      | Some info \<Rightarrow>
          (case inspect_identities k rest of Inl e \<Rightarrow> Inl e | Inr infos \<Rightarrow> Inr ((label, info) # infos)))"

definition descriptorDevice :: "string \<times> file_info \<Rightarrow> source_error + 64 word" where
  "descriptorDevice d = (if fiSys (snd d) then Inr (fiDev (snd d)) else Inl (SourcesDevice (fst d)))"

definition validateOwnedDescriptorIdentities :: "'f kernel \<Rightarrow> plan \<Rightarrow> 'f sources \<Rightarrow> source_error verdict" where
  "validateOwnedDescriptorIdentities k plan sources =
     (case inspect_identities k (owned_descriptors plan sources) of
        Inl e \<Rightarrow> Some e
      | Inr identities \<Rightarrow>
          and_then (each_earlier (\<lambda>earlier d. each (\<lambda>other. fail_if (SameFile (snd d) (snd other)) (SourcesAlias (fst d) (fst other)))
                      earlier) [] identities)
         (case descriptorDevice (identities ! 1) of
            Inl e \<Rightarrow> Some e
          | Inr upperDevice \<Rightarrow>
              (case descriptorDevice (identities ! 2) of
                 Inl e \<Rightarrow> Some e
               | Inr workDevice \<Rightarrow> fail_if (upperDevice \<noteq> workDevice) OverlayDevices)))"

section \<open>Directory lineage\<close>

record lineage =
  linLabel :: string
  linInfos :: "file_info list"

definition openDescriptorParent :: "'f kernel \<Rightarrow> 'f option \<Rightarrow> string \<Rightarrow> source_error + 'f" where
  "openDescriptorParent k file label =
     (case file of
        None \<Rightarrow> Inl (SourceNil label)
      | Some f \<Rightarrow> (case open_parent k f of None \<Rightarrow> Inl (ParentFailed label) | Some parent \<Rightarrow> Inr parent))"

partial_function (option) lineage_loop ::
  "'f kernel \<Rightarrow> string \<Rightarrow> 'f \<Rightarrow> file_info list \<Rightarrow> (source_error + file_info list) option"
where
  "lineage_loop k label current infos =
     (case descriptorInfo k label (Some current) of
        Inl e \<Rightarrow> Some (Inl e)
      | Inr info \<Rightarrow>
          (case openDescriptorParent k (Some current) label of
             Inl e \<Rightarrow> Some (Inl e)
           | Inr parent \<Rightarrow>
               (case descriptorInfo k (label @ '' parent'') (Some parent) of
                  Inl e \<Rightarrow> Some (Inl e)
                | Inr parentInfo \<Rightarrow>
                    if SameFile info parentInfo then Some (Inr (infos @ [info]))
                    else lineage_loop k label parent (infos @ [info]))))"

declare lineage_loop.simps [code]

definition duplicateDescriptor :: "'f kernel \<Rightarrow> 'f option \<Rightarrow> string \<Rightarrow> source_error + 'f" where
  "duplicateDescriptor k file label =
     (case file of
        None \<Rightarrow> Inl (SourceNil label)
      | Some f \<Rightarrow> (case dup_fd k f of None \<Rightarrow> Inl (DuplicateFailed label) | Some g \<Rightarrow> Inr g))"

definition inspectDirectoryLineage :: "'f kernel \<Rightarrow> string \<times> 'f option \<Rightarrow> (source_error + lineage) option" where
  "inspectDirectoryLineage k d =
     (case duplicateDescriptor k (snd d) (fst d) of
        Inl e \<Rightarrow> Some (Inl e)
      | Inr current \<Rightarrow>
          (case lineage_loop k (fst d) current [] of
             None \<Rightarrow> None
           | Some (Inl e) \<Rightarrow> Some (Inl e)
           | Some (Inr infos) \<Rightarrow> Some (Inr \<lparr>linLabel = fst d, linInfos = infos\<rparr>)))"

definition directoryStrictlyContains :: "lineage \<Rightarrow> lineage \<Rightarrow> bool" where
  "directoryStrictlyContains parent child =
     (if linInfos parent = [] \<or> linInfos child = [] \<or> SameFile (hd (linInfos parent)) (hd (linInfos child)) then False
      else list_ex (\<lambda>info. SameFile info (hd (linInfos parent))) (tl (linInfos child)))"

definition directoryLineagesOverlap :: "lineage \<Rightarrow> lineage \<Rightarrow> bool" where
  "directoryLineagesOverlap first second =
     (if linInfos first = [] \<or> linInfos second = [] then False
      else list_ex (\<lambda>info. SameFile info (hd (linInfos second))) (linInfos first) \<or>
           list_ex (\<lambda>info. SameFile info (hd (linInfos first))) (linInfos second))"

section \<open>Checks that may not return\<close>

definition then_do :: "'e verdict option \<Rightarrow> 'e verdict option \<Rightarrow> 'e verdict option" where
  "then_do a b = (case a of None \<Rightarrow> None | Some (Some e) \<Rightarrow> Some (Some e) | Some None \<Rightarrow> b)"

fun each_do :: "('a \<Rightarrow> 'e verdict option) \<Rightarrow> 'a list \<Rightarrow> 'e verdict option" where
  "each_do f [] = Some None"
| "each_do f (x # xs) = then_do (f x) (each_do f xs)"

definition with_result :: "('e + 'a) option \<Rightarrow> ('a \<Rightarrow> 'e verdict option) \<Rightarrow> 'e verdict option" where
  "with_result r f = (case r of None \<Rightarrow> None | Some (Inl e) \<Rightarrow> Some (Some e) | Some (Inr x) \<Rightarrow> f x)"

fun inspectDescriptorLineages :: "'f kernel \<Rightarrow> (string \<times> 'f option) list \<Rightarrow> (source_error + lineage list) option" where
  "inspectDescriptorLineages k [] = Some (Inr [])"
| "inspectDescriptorLineages k (d # ds) =
     (case inspectDirectoryLineage k d of
        None \<Rightarrow> None
      | Some (Inl e) \<Rightarrow> Some (Inl e)
      | Some (Inr lineage) \<Rightarrow>
          (case inspectDescriptorLineages k ds of
             None \<Rightarrow> None
           | Some (Inl e) \<Rightarrow> Some (Inl e)
           | Some (Inr lineages) \<Rightarrow> Some (Inr (lineage # lineages))))"

definition protected_descriptors :: "'f sources \<Rightarrow> (string \<times> 'f option) list" where
  "protected_descriptors sources =
     [(''OCI image-store root'', prImageStore (srcProtected sources)),
      (''Toby persistent-data root'', prPersistentData (srcProtected sources)),
      (''Bubblewrap run-storage root'', prRunStorage (srcProtected sources)),
      (''Toby runtime root'', prRuntime (srcProtected sources))]"

section \<open>Isolation of projects\<close>

definition check_beneath :: "'f kernel \<Rightarrow> lineage \<Rightarrow> string \<times> 'f option \<Rightarrow> source_error verdict option" where
  "check_beneath k root d =
     with_result (inspectDirectoryLineage k d) (\<lambda>lineage.
       Some (fail_if (\<not> directoryStrictlyContains root lineage) (NotBeneath (fst d) (linLabel root))))"

text \<open>The first part: upper and work share one run root, a direct child of run storage.\<close>

definition validate_run_root :: "'f kernel \<Rightarrow> 'f sources \<Rightarrow> source_error verdict" where
  "validate_run_root k sources =
     (case openDescriptorParent k (srcUpper sources) ''overlay upper'' of
        Inl e \<Rightarrow> Some e
      | Inr runRoot \<Rightarrow>
     (case openDescriptorParent k (srcWork sources) ''overlay work'' of
        Inl e \<Rightarrow> Some e
      | Inr workRoot \<Rightarrow>
     with_info k ''overlay run root'' (Some runRoot) (\<lambda>runRootInfo.
     with_info k ''overlay work parent'' (Some workRoot) (\<lambda>workRootInfo.
       and_then (fail_if (\<not> SameFile runRootInfo workRootInfo) OverlayRunRoots)
      (case openDescriptorParent k (Some runRoot) ''overlay run root'' of
         Inl e \<Rightarrow> Some e
       | Inr runStorageParent \<Rightarrow>
           with_info k ''overlay run-root parent'' (Some runStorageParent) (\<lambda>parentInfo.
           with_info k ''Bubblewrap run-storage root'' (prRunStorage (srcProtected sources)) (\<lambda>runStorageInfo.
             fail_if (\<not> SameFile parentInfo runStorageInfo) RunRootNotChild)))))))"

definition validateProjectDescriptorIsolation :: "'f kernel \<Rightarrow> plan \<Rightarrow> 'f sources \<Rightarrow> source_error verdict option" where
  "validateProjectDescriptorIsolation k plan sources =
     then_do (Some (validate_run_root k sources))
    (with_result (inspectDescriptorLineages k (protected_descriptors sources)) (\<lambda>protected.
       then_do (Some (fail_if (\<not> directoryStrictlyContains (protected ! 1) (protected ! 0))
                        (NotBeneath ''OCI image-store root'' (linLabel (protected ! 1)))))
      (then_do (check_beneath k (protected ! 0) (''rootfs'', srcRootFS sources))
      (then_do (check_beneath k (protected ! 1) (''private home'', srcHome sources))
      (then_do (each_do (\<lambda>e. check_beneath k (protected ! 1)
                    (''managed-directory '' @ Key_String (entryKey e), lookup_file (srcManaged sources) (entryKey e)))
                  (planManaged plan))
               (each_do (\<lambda>p. with_result
                    (inspectDirectoryLineage k (''project '' @ projName p, lookup_file (srcProjects sources) (projName p)))
                    (\<lambda>lineage. Some (each (\<lambda>root. fail_if (directoryLineagesOverlap lineage root)
                       (LineageOverlap (linLabel lineage) (linLabel root))) protected)))
                  (planProjects plan)))))))"

section \<open>Isolation of external binds\<close>

definition check_bind_isolation ::
  "'f kernel \<Rightarrow> 'f sources \<Rightarrow> lineage list \<Rightarrow> lineage list \<Rightarrow> mount_bind \<Rightarrow> source_error verdict option"
where
  "check_bind_isolation k sources protected owned bind =
     (let source = lookup_file (srcBinds sources) (bindTarget bind);
          label = ''external bind '' @ bindTarget bind
      in case descriptorInfo k label source of
        Inl e \<Rightarrow> Some (Some e)
      | Inr info \<Rightarrow>
          with_result
            (if fiKind info = Directory then inspectDirectoryLineage k (label, source)
             else inspectDirectoryLineage k (label @ '' parent'', lookup_file (srcBindParents sources) (bindTarget bind)))
            (\<lambda>lineage. Some
              (and_then (each (\<lambda>root. fail_if (directoryLineagesOverlap lineage root)
                             (LineageOverlap (linLabel lineage) (linLabel root))) protected)
                        (each (\<lambda>backing. fail_if (directoryLineagesOverlap lineage backing)
                             (LineageOverlap (linLabel lineage) (linLabel backing))) owned))))"

definition validateBindDescriptorIsolation :: "'f kernel \<Rightarrow> plan \<Rightarrow> 'f sources \<Rightarrow> source_error verdict option" where
  "validateBindDescriptorIsolation k plan sources =
     with_result (inspectDescriptorLineages k (protected_descriptors sources)) (\<lambda>protected.
     with_result (inspectDescriptorLineages k (owned_descriptors plan sources)) (\<lambda>owned.
       each_do (check_bind_isolation k sources protected owned) (planBinds plan)))"

section \<open>The complete check of the sources\<close>

definition directories :: "'f kernel \<Rightarrow> (string \<times> 'f option) list \<Rightarrow> source_error verdict" where
  "directories k ds = each (\<lambda>(label, file). validateDirectoryDescriptor k label file) ds"

definition check_managed_source :: "'f kernel \<Rightarrow> 'f sources \<Rightarrow> mount_entry \<Rightarrow> source_error verdict" where
  "check_managed_source k sources entry =
     (case map_of (srcManaged sources) (entryKey entry) of
        None \<Rightarrow> Some (MissingSource ''managed-directory'' (Key_String (entryKey entry)))
      | Some source \<Rightarrow>
          and_then (fail_if (entryAccess entry = AccessDev) (ManagedDeviceAccess (Key_String (entryKey entry))))
                   (validateDirectoryDescriptor k (''managed-directory '' @ Key_String (entryKey entry)) source))"

definition check_project_source :: "'f kernel \<Rightarrow> 'f sources \<Rightarrow> project \<Rightarrow> source_error verdict" where
  "check_project_source k sources project =
     (case map_of (srcProjects sources) (projName project) of
        None \<Rightarrow> Some (MissingSource ''project'' (projName project))
      | Some source \<Rightarrow> validateDirectoryDescriptor k (''project '' @ projName project) source)"

definition check_bind_source :: "'f kernel \<Rightarrow> 'f sources \<Rightarrow> mount_bind \<Rightarrow> source_error verdict" where
  "check_bind_source k sources bind =
     (let label = ''external bind '' @ bindTarget bind in
      case map_of (srcBinds sources) (bindTarget bind) of
        None \<Rightarrow> Some (MissingSource ''external-bind'' (bindTarget bind))
      | Some source \<Rightarrow>
          and_then (validateBindDescriptor k label source (bindAccess bind))
         (and_then (validateExternalBindLinkShape k label source)
         (case map_of (srcBindParents sources) (bindTarget bind) of
            None \<Rightarrow> Some (MissingSource ''external-bind parent'' (bindTarget bind))
          | Some parent \<Rightarrow>
              and_then (validateDirectoryDescriptor k (label @ '' parent'') parent)
             (case map_of (srcBindNames sources) (bindTarget bind) of
                None \<Rightarrow> Some (MissingSource ''external-bind resolved name'' (bindTarget bind))
              | Some name \<Rightarrow> validateExternalBindParent k bind source parent name))))"

definition check_asset_source :: "'f kernel \<Rightarrow> 'f sources \<Rightarrow> runtime_asset \<Rightarrow> source_error verdict" where
  "check_asset_source k sources asset =
     (case map_of (srcAssets sources) (assetTarget asset) of
        None \<Rightarrow> Some (MissingSource ''runtime-asset'' (assetTarget asset))
      | Some source \<Rightarrow> validateBindDescriptor k (''runtime asset '' @ assetTarget asset) source (assetAccess asset))"

definition validateSources :: "'f kernel \<Rightarrow> plan \<Rightarrow> 'f sources \<Rightarrow> source_error verdict option" where
  "validateSources k plan sources =
     then_do (Some (and_then (validateSourceCardinality plan sources)
                   (and_then (directories k (protected_descriptors sources))
                   (and_then (directories k [(''rootfs'', srcRootFS sources), (''overlay upper'', srcUpper sources),
                                (''overlay work'', srcWork sources), (''private home'', srcHome sources)])
                   (and_then (each (check_managed_source k sources) (planManaged plan))
                   (and_then (validateManagedCoverage (planManaged plan) (srcManaged sources))
                   (and_then (each (check_project_source k sources) (planProjects plan))
                   (and_then (validateStringCoverage ''project'' (map projName (planProjects plan)) (srcProjects sources))
                             (validateOwnedDescriptorIdentities k plan sources)))))))))
    (then_do (validateProjectDescriptorIsolation k plan sources)
    (then_do (Some (and_then (each (check_bind_source k sources) (planBinds plan))
                   (and_then (validateStringCoverage ''external-bind'' (map bindTarget (planBinds plan)) (srcBinds sources))
                   (and_then (validateStringCoverage ''external-bind parent'' (map bindTarget (planBinds plan)) (srcBindParents sources))
                             (validateStringCoverage ''external-bind resolved name'' (map bindTarget (planBinds plan)) (srcBindNames sources))))))
    (then_do (validateBindDescriptorIsolation k plan sources)
             (Some (and_then (each (check_asset_source k sources) (planAssets plan))
                   (and_then (validateStringCoverage ''runtime-asset'' (map assetTarget (planAssets plan)) (srcAssets sources))
                             (validateExecutableDescriptor k ''sandbox helper'' (srcBinary sources))))))))"

end
