(* ===== verification/Bwrap_Isolation.thy ===== *)
theory Bwrap_Isolation
  imports Bwrap_Sources
begin

text \<open>
  The descriptor checks over a directory tree: when the kernel answers for directories as a tree
  does (the parent of a directory is the directory one component up, the root is its own
  parent, device and inode identify a directory), the walk to the root returns, and lineage
  overlap is comparability of the two locations.
\<close>

section \<open>Acceptance of checks that may not return\<close>

lemma then_do_accept: "then_do a b = Some None \<longleftrightarrow> a = Some None \<and> b = Some None"
  by (auto simp: then_do_def split: option.splits)

lemma each_do_accept: "each_do f xs = Some None \<longleftrightarrow> (\<forall>x \<in> set xs. f x = Some None)"
  by (induction xs) (auto simp: then_do_accept)

lemma with_result_accept: "with_result r f = Some None \<longleftrightarrow> (\<exists>x. r = Some (Inr x) \<and> f x = Some None)"
  by (auto simp: with_result_def split: option.splits sum.splits)

lemma then_do_returns:
  "a \<noteq> None \<Longrightarrow> (a = Some None \<Longrightarrow> b \<noteq> None) \<Longrightarrow> then_do a b \<noteq> None"
  by (auto simp: then_do_def split: option.splits)

lemma each_do_returns: "(\<And>x. x \<in> set xs \<Longrightarrow> f x \<noteq> None) \<Longrightarrow> each_do f xs \<noteq> None"
proof (induction xs)
  case (Cons x xs)
  then show ?case by (simp only: each_do.simps) (rule then_do_returns, simp_all)
qed simp

lemma with_result_returns:
  "r \<noteq> None \<Longrightarrow> (\<And>x. r = Some (Inr x) \<Longrightarrow> f x \<noteq> None) \<Longrightarrow> with_result r f \<noteq> None"
  by (auto simp: with_result_def split: option.splits sum.splits)

lemma with_info_accept:
  "with_info k l file g = None \<longleftrightarrow> (\<exists>f i. file = Some f \<and> fstat k f = Some i \<and> g i = None)"
  by (auto simp: with_info_def descriptorInfo_def split: option.splits sum.splits)

section \<open>Directory trees\<close>

definition is_dir :: "'f kernel \<Rightarrow> 'f \<Rightarrow> file_info \<Rightarrow> bool" where
  "is_dir k f i \<longleftrightarrow> fstat k f = Some i \<and> fiKind i = Directory"

definition directory_tree :: "'f kernel \<Rightarrow> ('f \<Rightarrow> string list) \<Rightarrow> bool" where
  "directory_tree k loc \<longleftrightarrow>
     (\<forall>f i. is_dir k f i \<longrightarrow>
        (\<exists>g j. open_parent k f = Some g \<and> is_dir k g j \<and> loc g = butlast (loc f)) \<and>
        (\<exists>g. dup_fd k f = Some g \<and> fstat k g = Some i \<and> loc g = loc f) \<and>
        (\<forall>g j. is_dir k g j \<longrightarrow> (SameFile i j \<longleftrightarrow> loc f = loc g)))"

lemma validateDirectoryDescriptor_None:
  "validateDirectoryDescriptor k l file = None \<longleftrightarrow> (\<exists>f i. file = Some f \<and> is_dir k f i)"
  by (auto simp: validateDirectoryDescriptor_def with_info_accept fail_if_None is_dir_def)

lemma treeD:
  assumes "directory_tree k loc" "is_dir k f i"
  obtains g j h where "open_parent k f = Some g" "is_dir k g j" "loc g = butlast (loc f)"
    "dup_fd k f = Some h" "is_dir k h i" "loc h = loc f"
  using assms unfolding directory_tree_def is_dir_def by blast

lemma tree_same:
  assumes "directory_tree k loc" "is_dir k f i" "is_dir k g j" shows "SameFile i j \<longleftrightarrow> loc f = loc g"
  using assms unfolding directory_tree_def by blast

lemma prefix_butlast_strict: "ws \<noteq> [] \<Longrightarrow> prefix us (butlast ws) \<longleftrightarrow> strict_prefix us ws"
  by (cases ws rule: rev_cases) (auto simp: strict_prefix_def)

text \<open>What the walk collects: the directory itself and then every directory above it.\<close>

definition lineage_of :: "'f kernel \<Rightarrow> ('f \<Rightarrow> string list) \<Rightarrow> 'f \<Rightarrow> file_info \<Rightarrow> file_info list \<Rightarrow> bool" where
  "lineage_of k loc f i infos \<longleftrightarrow> infos \<noteq> [] \<and> hd infos = i \<and>
     (\<forall>g j. is_dir k g j \<longrightarrow> (list_ex (\<lambda>x. SameFile x j) infos \<longleftrightarrow> prefix (loc g) (loc f)) \<and>
                             (list_ex (\<lambda>x. SameFile x j) (tl infos) \<longleftrightarrow> strict_prefix (loc g) (loc f)))"

lemma lineage_loop_tree:
  assumes tree: "directory_tree k loc" and dir: "is_dir k f i"
  shows "\<exists>infos. lineage_loop k label f acc = Some (Inr (acc @ infos)) \<and> lineage_of k loc f i infos"
  using dir
proof (induction "length (loc f)" arbitrary: f i acc rule: less_induct)
  case less
  obtain g j where g: "open_parent k f = Some g" "is_dir k g j" "loc g = butlast (loc f)"
    using treeD [OF tree less.prems] by metis
  have step: "lineage_loop k label f acc =
      (if SameFile i j then Some (Inr (acc @ [i])) else lineage_loop k label g (acc @ [i]))"
    using less.prems g(1,2)
    by (subst lineage_loop.simps) (simp add: descriptorInfo_def openDescriptorParent_def is_dir_def)
  have same: "SameFile i j \<longleftrightarrow> loc f = []"
    using tree_same [OF tree less.prems g(2)] g(3) by (cases "loc f" rule: rev_cases) auto
  show ?case
  proof (cases "loc f = []")
    case True
    have "lineage_of k loc f i [i]"
      using True tree_same [OF tree less.prems] by (auto simp: lineage_of_def)
    with True step same show ?thesis by auto
  next
    case False
    then have "length (loc g) < length (loc f)" using g(3) by simp
    from less.hyps [OF this g(2), of "acc @ [i]"] obtain infos where
      infos: "lineage_loop k label g (acc @ [i]) = Some (Inr (acc @ i # infos))" "lineage_of k loc g j infos"
      by auto
    have "lineage_of k loc f i (i # infos)"
      unfolding lineage_of_def
    proof (intro conjI allI impI)
      fix h l assume h: "is_dir k h l"
      have up: "list_ex (\<lambda>x. SameFile x l) infos \<longleftrightarrow> prefix (loc h) (butlast (loc f))"
        using infos(2) h g(3) by (simp add: lineage_of_def)
      note strict = prefix_butlast_strict [OF False, of "loc h"]
      show "list_ex (\<lambda>x. SameFile x l) (tl (i # infos)) \<longleftrightarrow> strict_prefix (loc h) (loc f)"
        using up strict by simp
      show "list_ex (\<lambda>x. SameFile x l) (i # infos) \<longleftrightarrow> prefix (loc h) (loc f)"
        unfolding list_ex_Cons_iff up strict tree_same [OF tree less.prems h] prefix_order.le_less [of "loc h" "loc f"] by auto
    qed auto
    moreover have "lineage_loop k label f acc = Some (Inr (acc @ (i # infos)))"
      unfolding step using infos(1) same False by simp
    ultimately show ?thesis by blast
  qed
qed

lemma inspect_tree:
  assumes tree: "directory_tree k loc" and dir: "is_dir k f i"
  shows "\<exists>infos. inspectDirectoryLineage k (label, Some f) = Some (Inr \<lparr>linLabel = label, linInfos = infos\<rparr>) \<and>
    lineage_of k loc f i infos"
proof -
  obtain h where h: "dup_fd k f = Some h" "is_dir k h i" "loc h = loc f"
    using treeD [OF tree dir] by metis
  obtain infos where "lineage_loop k label h [] = Some (Inr infos)" "lineage_of k loc h i infos"
    using lineage_loop_tree [OF tree h(2), of label "[]"] by auto
  with h show ?thesis by (auto simp: inspectDirectoryLineage_def duplicateDescriptor_def lineage_of_def)
qed

lemma lineages_overlap_tree:
  assumes "lineage_of k loc f i is" "is_dir k f i" "lineage_of k loc g j js" "is_dir k g j"
  shows "directoryLineagesOverlap \<lparr>linLabel = a, linInfos = is\<rparr> \<lparr>linLabel = b, linInfos = js\<rparr> \<longleftrightarrow> \<not> parallel (loc f) (loc g)"
  using assms by (auto simp: directoryLineagesOverlap_def lineage_of_def parallel_def)

lemma strictly_contains_tree:
  assumes "lineage_of k loc f i is" "is_dir k f i" "lineage_of k loc g j js" "is_dir k g j" "directory_tree k loc"
  shows "directoryStrictlyContains \<lparr>linLabel = a, linInfos = is\<rparr> \<lparr>linLabel = b, linInfos = js\<rparr> \<longleftrightarrow>
    strict_prefix (loc f) (loc g)"
  using assms tree_same [OF assms(5,2,4)] by (auto simp: directoryStrictlyContains_def lineage_of_def)

section \<open>Accepted sources\<close>

definition dir_at :: "'f kernel \<Rightarrow> string \<times> 'f option \<Rightarrow> bool" where
  "dir_at k d \<longleftrightarrow> (\<exists>f i. snd d = Some f \<and> is_dir k f i)"

definition has_lineage :: "'f kernel \<Rightarrow> ('f \<Rightarrow> string list) \<Rightarrow> string \<times> 'f option \<Rightarrow> lineage \<Rightarrow> bool" where
  "has_lineage k loc d l \<longleftrightarrow>
     (\<exists>f i. snd d = Some f \<and> is_dir k f i \<and> linLabel l = fst d \<and> lineage_of k loc f i (linInfos l))"

lemma inspect_dir_at:
  assumes "directory_tree k loc" "dir_at k d"
  obtains l where "inspectDirectoryLineage k d = Some (Inr l)" "has_lineage k loc d l"
proof -
  obtain f i where f: "snd d = Some f" "is_dir k f i" using assms(2) by (auto simp: dir_at_def)
  obtain infos where "inspectDirectoryLineage k (fst d, Some f) = Some (Inr \<lparr>linLabel = fst d, linInfos = infos\<rparr>)"
    "lineage_of k loc f i infos" using inspect_tree [OF assms(1) f(2), of "fst d"] by blast
  with f that show ?thesis by (metis has_lineage_def lineage.select_convs prod.collapse)
qed

lemma inspect_all_dirs:
  assumes "directory_tree k loc" "\<forall>d \<in> set ds. dir_at k d"
  shows "\<exists>ls. inspectDescriptorLineages k ds = Some (Inr ls) \<and> list_all2 (has_lineage k loc) ds ls"
  using assms(2)
proof (induction ds)
  case (Cons d ds)
  then obtain ls where ls: "inspectDescriptorLineages k ds = Some (Inr ls)" "list_all2 (has_lineage k loc) ds ls" by auto
  obtain l where "inspectDirectoryLineage k d = Some (Inr l)" "has_lineage k loc d l"
    using inspect_dir_at [OF assms(1), of d] Cons.prems by auto
  with ls show ?case by auto
qed simp

lemma overlap_has_lineage:
  assumes "has_lineage k loc d l" "has_lineage k loc e m" "snd d = Some f" "snd e = Some g"
  shows "directoryLineagesOverlap l m \<longleftrightarrow> \<not> parallel (loc f) (loc g)"
  using assms lineages_overlap_tree [of k loc f _ "linInfos l" g _ "linInfos m" "linLabel l" "linLabel m"]
  by (cases l; cases m) (auto simp: has_lineage_def)

lemma contains_has_lineage:
  assumes "directory_tree k loc" "has_lineage k loc d l" "has_lineage k loc e m" "snd d = Some f" "snd e = Some g"
  shows "directoryStrictlyContains l m \<longleftrightarrow> strict_prefix (loc f) (loc g)"
  using assms strictly_contains_tree [of k loc f _ "linInfos l" g _ "linInfos m" "linLabel l" "linLabel m"]
  by (cases l; cases m) (auto simp: has_lineage_def)

text \<open>The descriptors the walks start from.\<close>

definition project_descriptors :: "plan \<Rightarrow> 'f sources \<Rightarrow> (string \<times> 'f option) list" where
  "project_descriptors p s = map (\<lambda>q. (''project '' @ projName q, lookup_file (srcProjects s) (projName q))) (planProjects p)"

lemma directories_None: "directories k ds = None \<longleftrightarrow> (\<forall>d \<in> set ds. dir_at k d)"
  by (auto simp: directories_def each_None validateDirectoryDescriptor_None dir_at_def split_beta)

lemma check_managed_dir: "check_managed_source k s e = None \<Longrightarrow> dir_at k (l, lookup_file (srcManaged s) (entryKey e))"
  by (auto simp: check_managed_source_def lookup_file_def dir_at_def verdict_simps validateDirectoryDescriptor_None split: option.splits)

lemma check_project_dir: "check_project_source k s q = None \<Longrightarrow> dir_at k (l, lookup_file (srcProjects s) (projName q))"
  by (auto simp: check_project_source_def lookup_file_def dir_at_def validateDirectoryDescriptor_None split: option.splits)

definition bind_descriptor :: "'f kernel \<Rightarrow> 'f sources \<Rightarrow> mount_bind \<Rightarrow> string \<times> 'f option" where
  "bind_descriptor k s b =
     (let source = lookup_file (srcBinds s) (bindTarget b) in
      if (case source of None \<Rightarrow> False | Some f \<Rightarrow> (case fstat k f of None \<Rightarrow> False | Some i \<Rightarrow> fiKind i = Directory))
      then (''external bind '' @ bindTarget b, source)
      else (''external bind '' @ bindTarget b @ '' parent'', lookup_file (srcBindParents s) (bindTarget b)))"

lemma check_bind_dir:
  assumes "check_bind_source k s b = None"
  shows "dir_at k (bind_descriptor k s b)" "\<exists>f i. lookup_file (srcBinds s) (bindTarget b) = Some f \<and> fstat k f = Some i"
proof -
  obtain f i where f: "map_of (srcBinds s) (bindTarget b) = Some (Some f)" "fstat k f = Some i"
    using assms by (auto simp: check_bind_source_def Let_def verdict_simps validateBindDescriptor_def with_info_accept split: option.splits)
  then show "\<exists>f i. lookup_file (srcBinds s) (bindTarget b) = Some f \<and> fstat k f = Some i" by (simp add: lookup_file_def)
  have "\<exists>g j. map_of (srcBindParents s) (bindTarget b) = Some (Some g) \<and> is_dir k g j"
    using assms f by (auto simp: check_bind_source_def Let_def verdict_simps validateDirectoryDescriptor_None split: option.splits)
  with f show "dir_at k (bind_descriptor k s b)"
    by (auto simp: bind_descriptor_def lookup_file_def dir_at_def is_dir_def Let_def)
qed

text \<open>The part of the check before the first walk makes every descriptor of the walks a directory.\<close>

definition sources_ready :: "'f kernel \<Rightarrow> plan \<Rightarrow> 'f sources \<Rightarrow> bool" where
  "sources_ready k p s \<longleftrightarrow> (\<forall>d \<in> set (protected_descriptors s @ owned_descriptors p s @ project_descriptors p s). dir_at k d)"

definition before_walks :: "'f kernel \<Rightarrow> plan \<Rightarrow> 'f sources \<Rightarrow> source_error verdict" where
  "before_walks k plan sources =
     and_then (validateSourceCardinality plan sources)
    (and_then (directories k (protected_descriptors sources))
    (and_then (directories k [(''rootfs'', srcRootFS sources), (''overlay upper'', srcUpper sources),
                                (''overlay work'', srcWork sources), (''private home'', srcHome sources)])
    (and_then (each (check_managed_source k sources) (planManaged plan))
    (and_then (validateManagedCoverage (planManaged plan) (srcManaged sources))
    (and_then (each (check_project_source k sources) (planProjects plan))
    (and_then (validateStringCoverage ''project'' (map projName (planProjects plan)) (srcProjects sources))
              (validateOwnedDescriptorIdentities k plan sources)))))))"

lemma before_walks_ready: "before_walks k p s = None \<Longrightarrow> sources_ready k p s"
  unfolding before_walks_def and_then_None directories_None each_None sources_ready_def
  by (auto simp: owned_descriptors_def project_descriptors_def check_managed_dir check_project_dir)

lemma ready_dirs:
  assumes "sources_ready k p s"
  shows "\<forall>d \<in> set (protected_descriptors s). dir_at k d" "\<forall>d \<in> set (owned_descriptors p s). dir_at k d"
    "dir_at k (''rootfs'', srcRootFS s)" "dir_at k (''private home'', srcHome s)"
    "\<And>e. e \<in> set (planManaged p) \<Longrightarrow>
       dir_at k (''managed-directory '' @ Key_String (entryKey e), lookup_file (srcManaged s) (entryKey e))"
    "\<And>q. q \<in> set (planProjects p) \<Longrightarrow> dir_at k (''project '' @ projName q, lookup_file (srcProjects s) (projName q))"
  using assms by (auto simp: sources_ready_def owned_descriptors_def project_descriptors_def)

lemma check_beneath_returns:
  assumes "directory_tree k loc" "dir_at k d" shows "check_beneath k root d \<noteq> None"
  using inspect_dir_at [OF assms] by (metis check_beneath_def option.discI with_result_returns)

lemma check_bind_lineage:
  assumes "lookup_file (srcBinds s) (bindTarget b) = Some f" "fstat k f = Some i"
  shows "check_bind_isolation k s ps os b = with_result (inspectDirectoryLineage k (bind_descriptor k s b)) (\<lambda>l. Some
    (and_then (each (\<lambda>root. fail_if (directoryLineagesOverlap l root) (LineageOverlap (linLabel l) (linLabel root))) ps)
      (each (\<lambda>backing. fail_if (directoryLineagesOverlap l backing) (LineageOverlap (linLabel l) (linLabel backing))) os)))"
  using assms by (simp add: check_bind_isolation_def bind_descriptor_def descriptorInfo_def Let_def)

lemma project_isolation_returns:
  assumes tree: "directory_tree k loc" and ready: "sources_ready k p s"
  shows "validateProjectDescriptorIsolation k p s \<noteq> None"
proof -
  note R = ready_dirs [OF ready]
  obtain ps where ps: "inspectDescriptorLineages k (protected_descriptors s) = Some (Inr ps)"
    using inspect_all_dirs [OF tree R(1)] by blast
  have beneath: "check_beneath k root d \<noteq> None" if "dir_at k d" for root d
    using check_beneath_returns [OF tree that] .
  have projects: "with_result (inspectDirectoryLineage k (''project '' @ projName q, lookup_file (srcProjects s) (projName q)))
      (\<lambda>l. Some (F l)) \<noteq> None" if "q \<in> set (planProjects p)" for q F
    using inspect_dir_at [OF tree R(6) [OF that]] by (metis option.discI with_result_returns)
  show ?thesis unfolding validateProjectDescriptorIsolation_def
    by (intro then_do_returns with_result_returns each_do_returns projects)
      (use ps beneath [OF R(3)] beneath [OF R(4)] beneath [OF R(5)] in simp_all)
qed

lemma bind_isolation_returns:
  assumes tree: "directory_tree k loc" and ready: "sources_ready k p s"
    and binds: "\<forall>b \<in> set (planBinds p). check_bind_source k s b = None"
  shows "validateBindDescriptorIsolation k p s \<noteq> None"
proof -
  note R = ready_dirs [OF ready]
  obtain ps os where ps: "inspectDescriptorLineages k (protected_descriptors s) = Some (Inr ps)"
      "inspectDescriptorLineages k (owned_descriptors p s) = Some (Inr os)"
    using inspect_all_dirs [OF tree R(1)] inspect_all_dirs [OF tree R(2)] by blast
  have "check_bind_isolation k s ps os b \<noteq> None" if b: "b \<in> set (planBinds p)" for b
  proof -
    note B = check_bind_dir [OF bspec [OF binds b]]
    obtain f i where f: "lookup_file (srcBinds s) (bindTarget b) = Some f" "fstat k f = Some i" using B(2) by blast
    obtain l where "inspectDirectoryLineage k (bind_descriptor k s b) = Some (Inr l)"
      using inspect_dir_at [OF tree B(1)] by blast
    then show ?thesis unfolding check_bind_lineage [OF f] by (simp add: with_result_def)
  qed
  then show ?thesis unfolding validateBindDescriptorIsolation_def
    by (intro with_result_returns each_do_returns) (use ps in simp_all)
qed

lemma validateSources_split:
  "validateSources k p s =
     then_do (Some (before_walks k p s))
    (then_do (validateProjectDescriptorIsolation k p s)
    (then_do (Some (and_then (each (check_bind_source k s) (planBinds p))
                   (and_then (validateStringCoverage ''external-bind'' (map bindTarget (planBinds p)) (srcBinds s))
                   (and_then (validateStringCoverage ''external-bind parent'' (map bindTarget (planBinds p)) (srcBindParents s))
                             (validateStringCoverage ''external-bind resolved name'' (map bindTarget (planBinds p)) (srcBindNames s))))))
    (then_do (validateBindDescriptorIsolation k p s)
             (Some (and_then (each (check_asset_source k s) (planAssets p))
                   (and_then (validateStringCoverage ''runtime-asset'' (map assetTarget (planAssets p)) (srcAssets s))
                             (validateExecutableDescriptor k ''sandbox helper'' (srcBinary s))))))))"
  unfolding validateSources_def before_walks_def ..

lemma sources_return:
  assumes "directory_tree k loc" shows "validateSources k p s \<noteq> None"
  unfolding validateSources_split
  by (intro then_do_returns project_isolation_returns [OF assms] bind_isolation_returns [OF assms] before_walks_ready)
    (simp_all add: and_then_None each_None)

lemma sources_accepted:
  assumes "validateSources k p s = Some None"
  shows "sources_ready k p s" "validateProjectDescriptorIsolation k p s = Some None"
    "\<forall>b \<in> set (planBinds p). check_bind_source k s b = None" "validateBindDescriptorIsolation k p s = Some None"
    "before_walks k p s = None"
  using assms before_walks_ready unfolding validateSources_split then_do_accept
  by (auto simp: and_then_None each_None)

section \<open>What acceptance means in the tree\<close>

lemma projects_apart:
  assumes tree: "directory_tree k loc" and acc: "validateSources k p s = Some None"
    and d: "d \<in> set (project_descriptors p s)" "snd d = Some f" and r: "r \<in> set (protected_descriptors s)" "snd r = Some g"
  shows "parallel (loc f) (loc g)"
proof -
  note A = sources_accepted [OF acc] and R = ready_dirs [OF sources_accepted(1) [OF acc]]
  obtain ps where ps: "inspectDescriptorLineages k (protected_descriptors s) = Some (Inr ps)"
      "list_all2 (has_lineage k loc) (protected_descriptors s) ps"
    using inspect_all_dirs [OF tree R(1)] by blast
  obtain m where m: "m \<in> set ps" "has_lineage k loc r m"
    using ps(2) r(1) by (metis in_set_conv_nth list_all2_conv_all_nth)
  have "dir_at k d" using d(1) A(1) by (auto simp: sources_ready_def)
  then obtain l where l: "inspectDirectoryLineage k d = Some (Inr l)" "has_lineage k loc d l"
    using inspect_dir_at [OF tree] by metis
  have "\<not> directoryLineagesOverlap l m"
    using A(2) ps(1) d(1) l(1) m(1)
    by (auto simp: validateProjectDescriptorIsolation_def then_do_accept with_result_accept each_do_accept
        verdict_simps project_descriptors_def)
  then show ?thesis using overlap_has_lineage [OF l(2) m(2) d(2) r(2)] by blast
qed

lemma binds_apart:
  assumes tree: "directory_tree k loc" and acc: "validateSources k p s = Some None"
    and b: "b \<in> set (planBinds p)" "snd (bind_descriptor k s b) = Some f"
    and r: "r \<in> set (protected_descriptors s @ owned_descriptors p s)" "snd r = Some g"
  shows "parallel (loc f) (loc g)"
proof -
  note A = sources_accepted [OF acc] and R = ready_dirs [OF sources_accepted(1) [OF acc]]
  obtain ps os where ps: "inspectDescriptorLineages k (protected_descriptors s) = Some (Inr ps)"
      "list_all2 (has_lineage k loc) (protected_descriptors s) ps"
      "inspectDescriptorLineages k (owned_descriptors p s) = Some (Inr os)"
      "list_all2 (has_lineage k loc) (owned_descriptors p s) os"
    using inspect_all_dirs [OF tree R(1)] inspect_all_dirs [OF tree R(2)] by blast
  obtain m where m: "m \<in> set ps \<union> set os" "has_lineage k loc r m"
    using ps(2,4) r(1) by (metis UnE UnI1 UnI2 in_set_conv_nth list_all2_conv_all_nth set_append)
  note B = check_bind_dir [OF bspec [OF A(3) b(1)]]
  obtain h i where h: "lookup_file (srcBinds s) (bindTarget b) = Some h" "fstat k h = Some i" using B(2) by blast
  obtain l where l: "inspectDirectoryLineage k (bind_descriptor k s b) = Some (Inr l)" "has_lineage k loc (bind_descriptor k s b) l"
    using inspect_dir_at [OF tree B(1)] by metis
  have "check_bind_isolation k s ps os b = Some None"
    using A(4) ps(1,3) b(1) by (auto simp: validateBindDescriptorIsolation_def with_result_accept each_do_accept)
  then have "\<not> directoryLineagesOverlap l m"
    using m(1) l(1) by (auto simp: check_bind_lineage [OF h] with_result_accept verdict_simps)
  then show ?thesis using overlap_has_lineage [OF l(2) m(2) b(2) r(2)] by blast
qed

lemma beneath_roots:
  assumes tree: "directory_tree k loc" and acc: "validateSources k p s = Some None"
  shows "\<And>f g. srcRootFS s = Some f \<Longrightarrow> prImageStore (srcProtected s) = Some g \<Longrightarrow> strict_prefix (loc g) (loc f)"
    "\<And>f g d. d \<in> set ((''private home'', srcHome s) #
        map (\<lambda>e. (''managed-directory '' @ Key_String (entryKey e), lookup_file (srcManaged s) (entryKey e))) (planManaged p)) \<Longrightarrow>
      snd d = Some f \<Longrightarrow> prPersistentData (srcProtected s) = Some g \<Longrightarrow> strict_prefix (loc g) (loc f)"
proof -
  note A = sources_accepted [OF acc] and R = ready_dirs [OF sources_accepted(1) [OF acc]]
  obtain ps where ps: "inspectDescriptorLineages k (protected_descriptors s) = Some (Inr ps)"
      "list_all2 (has_lineage k loc) (protected_descriptors s) ps"
    using inspect_all_dirs [OF tree R(1)] by blast
  have root: "has_lineage k loc (''OCI image-store root'', prImageStore (srcProtected s)) (ps ! 0)"
    "has_lineage k loc (''Toby persistent-data root'', prPersistentData (srcProtected s)) (ps ! 1)"
    using ps(2) by (auto simp: protected_descriptors_def list_all2_conv_all_nth)
  have acc': "check_beneath k (ps ! 0) (''rootfs'', srcRootFS s) = Some None"
    "\<forall>d \<in> set ((''private home'', srcHome s) #
        map (\<lambda>e. (''managed-directory '' @ Key_String (entryKey e), lookup_file (srcManaged s) (entryKey e))) (planManaged p)).
      check_beneath k (ps ! 1) d = Some None \<and> dir_at k d"
    using A(2) ps(1) R(4,5)
    by (auto simp: validateProjectDescriptorIsolation_def then_do_accept with_result_accept each_do_accept)
  have *: "strict_prefix (loc g) (loc f)"
    if c: "check_beneath k root d = Some None" "dir_at k d" "has_lineage k loc e root" "snd d = Some f" "snd e = Some g"
    for root d e f g
  proof -
    obtain l where l: "inspectDirectoryLineage k d = Some (Inr l)" "has_lineage k loc d l"
      using inspect_dir_at [OF tree c(2)] .
    have "directoryStrictlyContains root l" using c(1) l(1) by (auto simp: check_beneath_def with_result_accept fail_if_None)
    then show ?thesis using contains_has_lineage [OF tree c(3) l(2) c(5,4)] by blast
  qed
  show "strict_prefix (loc g) (loc f)" if "srcRootFS s = Some f" "prImageStore (srcProtected s) = Some g" for f g
    using * [OF acc'(1) R(3) root(1)] that by simp
  show "strict_prefix (loc g) (loc f)"
    if "d \<in> set ((''private home'', srcHome s) #
        map (\<lambda>e. (''managed-directory '' @ Key_String (entryKey e), lookup_file (srcManaged s) (entryKey e))) (planManaged p))"
      "snd d = Some f" "prPersistentData (srcProtected s) = Some g" for f g d
    using * [OF _ _ root(2), of d] acc'(2) that by auto
qed

end
