(* ===== verification/Bwrap_Render.thy ===== *)
theory Bwrap_Render
  imports Bwrap_Isolation
begin

text \<open>
  Rendering a plan into Bubblewrap arguments and a table of child descriptors (\<open>render.go\<close>,
  \<open>runtime.go\<close>). An invocation owns one duplicate per source, and the argument that mounts it
  names the descriptor number the child will see. The descriptors closed on an error path are
  not tracked: the invocation of a failed rendering is dropped.
\<close>

section \<open>Invocations\<close>

record 'f invocation =
  invArgs :: "string list"
  invExtraFiles :: "'f list"
  invMode :: execution_mode
  invPayloadArgIndex :: nat
  invConfidential :: bool
  invConfidentialIndex :: nat
  invAllowOverlayReuseRetry :: bool

definition new_invocation :: "execution_mode \<Rightarrow> 'f invocation" where
  "new_invocation mode =
     \<lparr>invArgs = [], invExtraFiles = [], invMode = mode, invPayloadArgIndex = 0, invConfidential = False,
      invConfidentialIndex = 0, invAllowOverlayReuseRetry = False\<rparr>"

text \<open>\<open>Close\<close> returns the descriptors it closes; \<open>Args\<close> and \<open>Mode\<close> stay.\<close>

definition Invocation_Close :: "'f invocation \<Rightarrow> 'f list \<times> 'f invocation" where
  "Invocation_Close i =
     (invExtraFiles i,
      i\<lparr>invExtraFiles := [], invPayloadArgIndex := 0, invConfidential := False, invConfidentialIndex := 0,
        invAllowOverlayReuseRetry := False\<rparr>)"

datatype render_error =
    RenderSources source_error
  | RenderPlan plan_error
  | RenderDescriptor source_error
  | PublicCommandEmpty
  | OptionSeparator
  | PublicArgument nat
  | ArgumentCount nat
  | ArgumentsSet
  | ArgumentsEmpty
  | ArgumentNUL nat
  | PayloadSize
  | PayloadEmpty
  | PayloadUnterminated
  | ArgumentFile

definition childExtraFileBaseFD :: nat where "childExtraFileBaseFD = 3"

definition childFDPath :: "nat \<Rightarrow> string" where
  "childFDPath fd = ''/proc/self/fd/'' @ Itoa (int fd)"

definition namespaceArgs :: "int \<Rightarrow> int \<Rightarrow> string list" where
  "namespaceArgs uid gid =
     [''--unshare-user'', ''--uid'', Itoa uid, ''--gid'', Itoa gid, ''--unshare-pid'', ''--unshare-ipc'',
      ''--unshare-uts'', ''--die-with-parent'']"

definition retain :: "'f kernel \<Rightarrow> 'f option \<Rightarrow> string \<Rightarrow> 'f invocation \<Rightarrow> render_error + nat \<times> 'f invocation" where
  "retain k source label i =
     (case duplicateDescriptor k source label of
        Inl e \<Rightarrow> Inl (RenderDescriptor e)
      | Inr duplicate \<Rightarrow>
          Inr (childExtraFileBaseFD + length (invExtraFiles i), i\<lparr>invExtraFiles := invExtraFiles i @ [duplicate]\<rparr>))"

definition appendFDBind :: "string list \<Rightarrow> access \<Rightarrow> nat \<Rightarrow> string \<Rightarrow> string list" where
  "appendFDBind args access fd target =
     args @ [if access = AccessReadOnly then ''--ro-bind-fd'' else ''--bind-fd'', Itoa (int fd), target]"

definition appendOverlayFDRegistrations :: "string list \<Rightarrow> nat list \<Rightarrow> string list" where
  "appendOverlayFDRegistrations args descriptors =
     args @ concat (map (\<lambda>fd. [''--ro-bind-fd'', Itoa (int fd), ''/dev'']) descriptors)"

definition overlay_args :: "nat \<Rightarrow> nat \<Rightarrow> nat \<Rightarrow> string list" where
  "overlay_args rootFD upperFD workFD =
     [''--overlay-src'', childFDPath rootFD, ''--overlay'', childFDPath upperFD, childFDPath workFD, ''/'']"

text \<open>
  One loop of the renderer: retain the source of each element and append the bind of its
  target. An element is its source, the label of its descriptor, its access and its target.
\<close>

fun retain_binds ::
  "'f kernel \<Rightarrow> ('f option \<times> string \<times> access \<times> string) list \<Rightarrow> string list \<times> 'f invocation \<Rightarrow>
    render_error + string list \<times> 'f invocation"
where
  "retain_binds k [] (args, i) = Inr (args, i)"
| "retain_binds k ((source, label, access, target) # rest) (args, i) =
     attempt (retain k source label i) (\<lambda>(fd, i). retain_binds k rest (appendFDBind args access fd target, i))"

definition lifecycle_capabilities :: "string list" where
  "lifecycle_capabilities =
     [''CAP_CHOWN'', ''CAP_DAC_OVERRIDE'', ''CAP_FOWNER'', ''CAP_FSETID'', ''CAP_SETGID'', ''CAP_SETUID'']"

definition capability_args :: "capability_policy \<Rightarrow> string list" where
  "capability_args policy =
     [''--cap-drop'', ''ALL''] @
     (if policy = CapabilityRootLifecycle
      then concat (map (\<lambda>c. [''--cap-add'', c]) lifecycle_capabilities) else [])"

definition environment_args :: "string \<Rightarrow> environment_variable list \<Rightarrow> string list" where
  "environment_args home environment =
     [''--clearenv'', ''--setenv'', ''HOME'', home, ''--setenv'', ''TOBY_SANDBOX'', ''1''] @
     concat (map (\<lambda>v. [''--setenv'', envName v, envValue v]) environment)"

section \<open>Rendering a plan\<close>

definition managed_binds :: "plan \<Rightarrow> 'f sources \<Rightarrow> ('f option \<times> string \<times> access \<times> string) list" where
  "managed_binds p s =
     map (\<lambda>e. (lookup_file (srcManaged s) (entryKey e), ''managed-directory '' @ Key_String (entryKey e),
               entryAccess e, entryTarget e)) (planManaged p)"

definition project_binds :: "plan \<Rightarrow> 'f sources \<Rightarrow> ('f option \<times> string \<times> access \<times> string) list" where
  "project_binds p s =
     map (\<lambda>q. (lookup_file (srcProjects s) (projName q), ''project '' @ projName q,
               (if projReadOnly q then AccessReadOnly else AccessRegular), projTarget q)) (planProjects p)"

definition external_binds :: "plan \<Rightarrow> 'f sources \<Rightarrow> ('f option \<times> string \<times> access \<times> string) list" where
  "external_binds p s =
     map (\<lambda>b. (lookup_file (srcBinds s) (bindTarget b), ''external bind '' @ bindTarget b, bindAccess b, bindTarget b))
       (planBinds p)"

definition asset_binds :: "plan \<Rightarrow> 'f sources \<Rightarrow> ('f option \<times> string \<times> access \<times> string) list" where
  "asset_binds p s =
     map (\<lambda>a. (lookup_file (srcAssets s) (assetTarget a), ''runtime asset '' @ assetTarget a, assetAccess a, assetTarget a))
       (planAssets p)"

definition fixed_directories :: "string list" where
  "fixed_directories =
     [''--proc'', ''/proc'', ''--dev'', ''/dev'', ''--tmpfs'', ''/tmp'', ''--dir'', ''/run'', ''--dir'', layout_Runtime,
      ''--chmod'', ''0700'', layout_Runtime, ''--dir'', layout_Root, ''--dir'', layout_Home, ''--dir'', layout_Workspace,
      ''--dir'', layout_Bin]"

definition render_canonical :: "'f kernel \<Rightarrow> plan \<Rightarrow> 'f sources \<Rightarrow> render_error + 'f invocation" where
  "render_canonical k p s =
     attempt (retain k (srcRootFS s) ''rootfs'' (new_invocation '''')) (\<lambda>(rootFD, i).
     attempt (retain k (srcUpper s) ''overlay upper'' i) (\<lambda>(upperFD, i).
     attempt (retain k (srcWork s) ''overlay work'' i) (\<lambda>(workFD, i).
       (let uid = (if cmdRoot (planCommand p) then 0 else idHostUID (planIdentity p));
            gid = (if cmdRoot (planCommand p) then 0 else idHostGID (planIdentity p));
            args = namespaceArgs uid gid @ capability_args (cmdCapabilities (planCommand p)) @
                   overlay_args rootFD upperFD workFD;
            args = appendOverlayFDRegistrations args [rootFD, upperFD, workFD] @ fixed_directories
        in
          attempt (retain k (srcHome s) ''private home'' i) (\<lambda>(homeFD, i).
          attempt (retain_binds k (managed_binds p s) (appendFDBind args AccessRegular homeFD layout_Home, i)) (\<lambda>st.
          attempt (retain_binds k (project_binds p s) st) (\<lambda>st.
          attempt (retain_binds k (external_binds p s) st) (\<lambda>st.
          attempt (retain_binds k (asset_binds p s) st) (\<lambda>(args, i).
          attempt (retain k (srcBinary s) ''sandbox helper'' i) (\<lambda>(binaryFD, i).
            (let args = appendFDBind args AccessReadOnly binaryFD (binTarget (planBinary p)) @
                        environment_args layout_Home (planEnvironment p) @ [''--chdir'', planWorkdir p, ''--'']
             in Inr (i\<lparr>invPayloadArgIndex := length args, invArgs := args @ cmdArgv (planCommand p),
                       invMode := cmdMode (planCommand p)\<rparr>))))))))))))"

definition Render :: "'f kernel \<Rightarrow> plan \<Rightarrow> 'f sources \<Rightarrow> (render_error + 'f invocation) option" where
  "Render k plan s =
     (case validateSourceCardinality plan s of
        Some e \<Rightarrow> Some (Inl (RenderSources e))
      | None \<Rightarrow>
          (let canonical = Canonical plan in
           case Validate canonical of
             Some e \<Rightarrow> Some (Inl (RenderPlan e))
           | None \<Rightarrow>
               (case validateSources k canonical s of
                  None \<Rightarrow> None
                | Some (Some e) \<Rightarrow> Some (Inl (RenderSources e))
                | Some None \<Rightarrow> Some (render_canonical k canonical s))))"

section \<open>What is rendered\<close>

text \<open>The mounts of a plan in order: the source, its label, the access and the target.\<close>

definition mounts :: "plan \<Rightarrow> 'f sources \<Rightarrow> ('f option \<times> string \<times> access \<times> string) list" where
  "mounts p s =
     (srcHome s, ''private home'', AccessRegular, layout_Home) #
     managed_binds p s @ project_binds p s @ external_binds p s @ asset_binds p s @
     [(srcBinary s, ''sandbox helper'', AccessReadOnly, binTarget (planBinary p))]"

fun mount_args :: "nat \<Rightarrow> ('f option \<times> string \<times> access \<times> string) list \<Rightarrow> string list" where
  "mount_args fd [] = []"
| "mount_args fd ((source, label, access, target) # rest) =
     [if access = AccessReadOnly then ''--ro-bind-fd'' else ''--bind-fd'', Itoa (int fd), target] @ mount_args (Suc fd) rest"

definition setup_args :: "plan \<Rightarrow> string list" where
  "setup_args p =
     namespaceArgs (if cmdRoot (planCommand p) then 0 else idHostUID (planIdentity p))
       (if cmdRoot (planCommand p) then 0 else idHostGID (planIdentity p)) @
     capability_args (cmdCapabilities (planCommand p)) @ overlay_args 3 4 5 @
     concat (map (\<lambda>fd. [''--ro-bind-fd'', Itoa (int fd), ''/dev'']) [3, 4, 5 :: nat]) @ fixed_directories"

definition duplicates :: "'f kernel \<Rightarrow> 'f option list \<Rightarrow> 'f list \<Rightarrow> bool" where
  "duplicates k sources files \<longleftrightarrow> list_all2 (\<lambda>source g. \<exists>f. source = Some f \<and> dup_fd k f = Some g) sources files"

lemma duplicates_simps [simp]:
  "duplicates k [] fs \<longleftrightarrow> fs = []"
  "duplicates k (x # xs) fs \<longleftrightarrow> (\<exists>f g gs. x = Some f \<and> dup_fd k f = Some g \<and> fs = g # gs \<and> duplicates k xs gs)"
  by (auto simp: duplicates_def list_all2_Cons1)

lemma retain_Inr:
  "retain k source label i = Inr r \<longleftrightarrow>
     (\<exists>f g. source = Some f \<and> dup_fd k f = Some g \<and>
        r = (3 + length (invExtraFiles i), i\<lparr>invExtraFiles := invExtraFiles i @ [g]\<rparr>))"
  by (auto simp: retain_def duplicateDescriptor_def childExtraFileBaseFD_def split: option.splits)

lemma retain_binds_Inr:
  "retain_binds k ms (args, i) = Inr r \<longleftrightarrow>
     (\<exists>fs. duplicates k (map fst ms) fs \<and>
        r = (args @ mount_args (3 + length (invExtraFiles i)) ms, i\<lparr>invExtraFiles := invExtraFiles i @ fs\<rparr>))"
proof (induction ms arbitrary: args i r)
  case (Cons m ms)
  obtain source label access target where m: "m = (source, label, access, target)" by (cases m)
  define F where "F fs = (args @ mount_args (3 + length (invExtraFiles i)) (m # ms), i\<lparr>invExtraFiles := invExtraFiles i @ fs\<rparr>)" for fs
  have "retain_binds k (m # ms) (args, i) = Inr r \<longleftrightarrow>
      (\<exists>f g gs. source = Some f \<and> dup_fd k f = Some g \<and> duplicates k (map fst ms) gs \<and> r = F (g # gs))"
    unfolding m F_def by (auto simp: attempt_Inr retain_Inr Cons.IH appendFDBind_def)
  also have "\<dots> \<longleftrightarrow> (\<exists>fs. duplicates k (map fst (m # ms)) fs \<and> r = F fs)"
    unfolding m by auto
  finally show ?case unfolding F_def .
qed auto

lemma retain_binds_append:
  "retain_binds k (ms @ ns) st = attempt (retain_binds k ms st) (retain_binds k ns)"
proof (induction ms arbitrary: st)
  case Nil
  show ?case by (cases st) simp
next
  case (Cons m ms)
  obtain source label access target args i where "m = (source, label, access, target)" "st = (args, i)"
    by (cases m; cases st)
  then show ?case by (auto simp: attempt_def Cons.IH split: sum.splits)
qed

lemma attempt_assoc: "attempt (attempt r f) g = attempt r (\<lambda>x. attempt (f x) g)"
  by (cases r) simp_all

lemma retain_binds_single:
  "retain_binds k [(source, label, access, target)] st =
     attempt (retain k source label (snd st)) (\<lambda>x. Inr (appendFDBind (fst st) access (fst x) target, snd x))"
  by (cases st) (simp add: split_beta')

text \<open>The renderer is one pass over the mounts: the home first and the helper last are binds too.\<close>

lemma render_canonical_mounts:
  "render_canonical k p s =
     attempt (retain k (srcRootFS s) ''rootfs'' (new_invocation '''')) (\<lambda>(rootFD, i).
     attempt (retain k (srcUpper s) ''overlay upper'' i) (\<lambda>(upperFD, i).
     attempt (retain k (srcWork s) ''overlay work'' i) (\<lambda>(workFD, i).
     attempt (retain_binds k (mounts p s) (setup_args p, i)) (\<lambda>(args, i).
       (let args = args @ environment_args layout_Home (planEnvironment p) @ [''--chdir'', planWorkdir p, ''--'']
        in Inr (i\<lparr>invPayloadArgIndex := length args, invArgs := args @ cmdArgv (planCommand p),
                  invMode := cmdMode (planCommand p)\<rparr>))))))"
proof (cases "retain k (srcRootFS s) ''rootfs'' (new_invocation '''')")
  case (Inr a)
  obtain f i where a: "a = (3, i)" "invExtraFiles i = [f]" using Inr by (auto simp: retain_Inr new_invocation_def)
  show ?thesis
  proof (cases "retain k (srcUpper s) ''overlay upper'' i")
    case Inr2: (Inr b)
    obtain g j where b: "b = (4, j)" "invExtraFiles j = [f, g]" using Inr2 a(2) by (auto simp: retain_Inr)
    show ?thesis
    proof (cases "retain k (srcWork s) ''overlay work'' j")
      case Inr3: (Inr c)
      obtain l where c: "c = (5, l)" using Inr3 b(2) by (auto simp: retain_Inr)
      show ?thesis
        unfolding render_canonical_def Inr a(1) attempt_simps prod.case Inr2 b(1) Inr3 c mounts_def retain_binds.simps
          retain_binds_append attempt_assoc setup_args_def appendOverlayFDRegistrations_def
        by (simp add: Let_def split_beta' attempt_assoc retain_binds_single)
    qed (use Inr Inr2 a b in \<open>simp add: render_canonical_def\<close>)
  qed (use Inr a in \<open>simp add: render_canonical_def\<close>)
qed (simp add: render_canonical_def)

lemma render_canonical_Inr:
  "render_canonical k p s = Inr r \<longleftrightarrow>
     (\<exists>fs. duplicates k (srcRootFS s # srcUpper s # srcWork s # map fst (mounts p s)) fs \<and>
        (let pre = setup_args p @ mount_args 6 (mounts p s) @ environment_args layout_Home (planEnvironment p) @
                     [''--chdir'', planWorkdir p, ''--'']
         in r = \<lparr>invArgs = pre @ cmdArgv (planCommand p), invExtraFiles = fs, invMode = cmdMode (planCommand p),
                   invPayloadArgIndex = length pre, invConfidential = False, invConfidentialIndex = 0,
                   invAllowOverlayReuseRetry = False\<rparr>))"
proof -
  define F where "F fs = (let pre = setup_args p @ mount_args 6 (mounts p s) @ environment_args layout_Home (planEnvironment p) @
                     [''--chdir'', planWorkdir p, ''--'']
         in \<lparr>invArgs = pre @ cmdArgv (planCommand p), invExtraFiles = fs, invMode = cmdMode (planCommand p),
                   invPayloadArgIndex = length pre, invConfidential = False, invConfidentialIndex = 0,
                   invAllowOverlayReuseRetry = False\<rparr>)" for fs :: "'a list"
  have "render_canonical k p s = Inr r \<longleftrightarrow>
      (\<exists>f f' g g' h h' fs. srcRootFS s = Some f \<and> dup_fd k f = Some f' \<and> srcUpper s = Some g \<and> dup_fd k g = Some g' \<and>
         srcWork s = Some h \<and> dup_fd k h = Some h' \<and> duplicates k (map fst (mounts p s)) fs \<and> r = F (f' # g' # h' # fs))"
    (is "_ \<longleftrightarrow> ?rhs")
  proof
    assume "render_canonical k p s = Inr r"
    then show ?rhs unfolding render_canonical_mounts F_def
      by (auto simp: attempt_Inr retain_Inr retain_binds_Inr new_invocation_def Let_def)
  next
    assume ?rhs
    then obtain f f' g g' h h' fs where d: "srcRootFS s = Some f" "dup_fd k f = Some f'" "srcUpper s = Some g" "dup_fd k g = Some g'"
        "srcWork s = Some h" "dup_fd k h = Some h'" "duplicates k (map fst (mounts p s)) fs" "r = F (f' # g' # h' # fs)"
      by blast
    let ?i = "(new_invocation '''')\<lparr>invExtraFiles := [f', g', h']\<rparr>"
    have "retain_binds k (mounts p s) (setup_args p, ?i) =
        Inr (setup_args p @ mount_args 6 (mounts p s), ?i\<lparr>invExtraFiles := f' # g' # h' # fs\<rparr>)"
      using d(7) by (subst retain_binds_Inr) (auto intro!: exI [of _ fs])
    then show "render_canonical k p s = Inr r"
      using d by (simp add: render_canonical_mounts retain_def duplicateDescriptor_def childExtraFileBaseFD_def
          new_invocation_def F_def Let_def)
  qed
  also have "\<dots> \<longleftrightarrow> (\<exists>fs. duplicates k (srcRootFS s # srcUpper s # srcWork s # map fst (mounts p s)) fs \<and> r = F fs)"
    unfolding duplicates_simps by blast
  finally show ?thesis unfolding F_def Let_def .
qed

end
