(* ===== verification/Bwrap_Properties.thy ===== *)
theory Bwrap_Properties
  imports Bwrap_Render
begin

text \<open>
  The properties of the sandbox planner and renderer: targets never shadow each other, host
  storage is disjoint, generated files are visible where they are declared, acceptance does not
  depend on order, descriptors of projects and binds are isolated from Toby's storage, and the
  rendered arguments are exactly the validated mounts.
\<close>

section \<open>An example launch\<close>

definition example_input :: plan_input where
  "example_input =
     \<lparr>inputRunID = ''run-1'', inputRootFS = \<lparr>rootDigest = ''sha256:'' @ replicate 64 (CHR ''a''), rootPath = ''/d/i/r''\<rparr>,
      inputOverlay = \<lparr>ovRunStorageDir = ''/s'', ovUpper = ''/s/run-1/upper'', ovWork = ''/s/run-1/work''\<rparr>,
      inputHome = \<lparr>homeID = ''h'', homeHostPath = ''/d/h''\<rparr>,
      inputProjects = [\<lparr>inName = ''p'', inHostPath = ''/w/p'', inReadOnly = False\<rparr>],
      inputManaged = [\<lparr>entryKey = \<lparr>keyType = ''tool'', keyName = ''c'', keyPurpose = ''x''\<rparr>, entryProfile = ''default'',
        entryHostPath = ''/d/v'', entryTarget = ''/toby/home/.c'', entryAccess = ''regular'', entryOptional = False,
        entrySeed = \<lparr>seedImagePath = ''''\<rparr>\<rparr>],
      inputBinds = [\<lparr>bindHostPath = ''/e'', bindTarget = ''/etc/e'', bindAccess = ''read_only'', bindOptional = False\<rparr>],
      inputAssets = [\<lparr>assetHostPath = ''/s/run-1/runtime/a'', assetTarget = ''/run/toby/a'', assetAccess = ''dev''\<rparr>],
      inputGenerated = [\<lparr>genHostPath = ''/d/v/f'', genTarget = ''/toby/home/.c/f'', genData = [], genMode = 0x180,
        genUID = 1000, genGID = 1000\<rparr>],
      inputBinaryPath = ''/b'', inputWorkdir = ''/toby/workspace/p'',
      inputEnvironment = [\<lparr>envName = ''A'', envValue = ''1''\<rparr>],
      inputIdentity = \<lparr>idHostUID = 1000, idHostGID = 1000\<rparr>,
      inputArgv = [''codex''], inputMode = ''noninteractive'', inputRoot = False\<rparr>"

definition example_plan :: plan where
  "example_plan = plan_of_input example_input"

lemmas path_eval = Clean_def IsAbs_def Join_def Dir_def Base_def Rel_def elements_def valid_path_def

lemmas layout_eval = layout_defs SandboxBinary_eq

lemma ascii_eval [simp]: "ascii_lower_hex (CHR ''a'')" "alnum (CHR ''r'')" "alnum (CHR ''u'')" "alnum (CHR ''n'')"
  "alnum (CHR ''1'')" "alnum (CHR ''h'')" "component_char (CHR ''t'')" "component_char (CHR ''o'')" "component_char (CHR ''l'')"
  "component_char (CHR ''c'')" "component_char (CHR ''x'')"
  by (simp_all add: ascii_lower_hex_def ascii_digit_def alnum_def ascii_letter_def component_char_def less_eq_char_def)

lemma example_keys: "validateComponent ''tool'' = None" "validateComponent ''c'' = None" "validateComponent ''x'' = None"
  by (simp_all add: validateComponent_None temporaryPublicationPrefix_def)

lemmas access_eval = AccessRegular_def AccessReadOnly_def AccessDev_def

lemma example_fields:
  "planProjects example_plan = [\<lparr>projName = ''p'', projHostPath = ''/w/p'', projTarget = ''/toby/workspace/p'', projReadOnly = False\<rparr>]"
  by (simp add: example_plan_def plan_of_input_def example_input_def path_eval layout_defs)

lemma example_projects: "validateProjects (planProjects example_plan) = None"
  unfolding example_fields by (simp add: validateProjects_None project_ok_def good_element_def path_eval layout_eval)

lemma example_mounts: "validateMounts (planManaged example_plan) (planBinds example_plan) = None"
  by (simp add: example_plan_def plan_of_input_def example_input_def validateMounts_None managed_ok_def bind_ok_def
      Key_Validate_def TypeTool_def example_keys Access_Validate_def Seed_Validate_def access_eval path_eval TargetsOverlap_def
      Let_def verdict_simps)

lemma example_assets: "validateRuntimeAssets (planAssets example_plan) = None"
  by (simp add: example_plan_def plan_of_input_def example_input_def validateRuntimeAssets_None asset_ok_def
      sandboxPathContains_def Access_Validate_def access_eval path_eval layout_eval verdict_simps)

lemma example_environment: "validateEnvironment (planEnvironment example_plan) = None"
  by (simp add: example_plan_def plan_of_input_def example_input_def validateEnvironment_None env_ok_def)

lemma example_targets: "validateTargetGraph example_plan = None"
  unfolding validateTargetGraph_None target_ok_def example_fields
  by (simp add: example_plan_def plan_of_input_def example_input_def sandboxPathContains_def path_eval layout_eval
      TargetsOverlap_def Let_def)

lemma example_generated: "validateGeneratedFiles example_plan = None"
  unfolding validateGeneratedFiles_None generated_ok_def
  by (simp add: example_plan_def plan_of_input_def example_input_def validateGeneratedFile_def plan_backings_def
      generatedFileBacking_def select_backing_def TrimPrefix_def sandboxPathContains_def path_eval layout_eval
      TargetsOverlap_def ModePerm_def Let_def verdict_simps validateHostPath_def validateSandboxPath_def)

lemma example_hosts: "validateHostStorageGraph example_plan = None"
  unfolding validateHostStorageGraph_None host_graph_ok_def validateImmutableRootFS_None validateOwnedBackings_None
    validateGeneratedFileOwnership_None owned_paths_def external_paths_def asset_paths_def generated_paths_def run_root_def
    example_fields
  by (simp add: example_plan_def plan_of_input_def example_input_def hostPathsOverlap_def hostPathStrictlyContains_def
      within_def pathIsWithin_def path_eval Let_def)

lemma example_valid: "Validate example_plan = None"
proof -
  have "list_all ascii_lower_hex (replicate 64 (CHR ''a''))" by (simp add: list_all_iff)
  then show ?thesis
    unfolding Validate_None validateHostStorageGraph_None [symmetric]
    using example_projects example_mounts example_assets example_targets example_generated example_hosts example_environment
    by (simp add: example_plan_def plan_of_input_def example_input_def idPattern_def digestPattern_def path_eval layout_eval
        Command_validate_def ExecutionNonInteractive_def CapabilityDropAll_def CapabilityRootLifecycle_def fail_if_def
        NetworkHost_def)
qed

section \<open>Targets and host paths\<close>

text \<open>
  C32. In an accepted plan no mount hides another one. In the order in which the mounts are made
  (private home, managed directories, projects, external binds, runtime assets, helper binary),
  any two targets lie in disjoint subtrees, except that a later target may lie strictly beneath
  the private home; all targets are different.
\<close>

theorem mounts_never_shadow:
  assumes "Validate p = None"
  shows "sorted_wrt (\<lambda>a b. parallel (elements a) (elements b) \<or>
           (a = layout_Home \<and> strict_prefix (elements layout_Home) (elements b))) (mount_targets p) \<and>
         distinct (mount_targets p)"
  using mount_targets_ok [OF assms] no_shadow_distinct [OF mount_targets_ok [OF assms]]
  by (simp add: no_shadow_def [abs_def])

theorem mounts_never_shadow_witness:
  "sorted_wrt (\<lambda>a b. parallel (elements a) (elements b) \<or>
      (a = layout_Home \<and> strict_prefix (elements layout_Home) (elements b))) (mount_targets example_plan) \<and>
    length (mount_targets example_plan) = 6"
  using mounts_never_shadow [OF example_valid]
  by (simp add: mount_targets_def example_plan_def plan_of_input_def example_input_def)

text \<open>
  In an accepted plan the writable overlay of the run is the pair \<open>upper\<close> and \<open>work\<close> directly
  beneath the run's directory of the run storage, and neither directory contains or is
  contained in any other host path of the plan; the image root filesystem is disjoint from
  every other host path; and the directories Toby owns (the private home and the managed
  directories) are disjoint from each other and from every path the user supplies.
\<close>

theorem host_storage_disjoint:
  assumes v: "Validate p = None"
  shows "elements (ovUpper (planOverlay p)) = elements (ovRunStorageDir (planOverlay p)) @ [planRunID p, ''upper''] \<and>
    elements (ovWork (planOverlay p)) = elements (ovRunStorageDir (planOverlay p)) @ [planRunID p, ''work''] \<and>
    list_all (\<lambda>h. parallel (elements (ovUpper (planOverlay p))) (elements h) \<and>
                  parallel (elements (ovWork (planOverlay p))) (elements h))
      (rootPath (planRootFS p) # owned_paths p @ external_paths p @ generated_paths p @ asset_paths p) \<and>
    list_all (\<lambda>h. parallel (elements (rootPath (planRootFS p))) (elements h))
      (owned_paths p @ external_paths p @ generated_paths p @ asset_paths p) \<and>
    sorted_wrt (\<lambda>a b. parallel (elements a) (elements b)) (owned_paths p) \<and>
    list_all (\<lambda>o'. list_all (\<lambda>e. parallel (elements o') (elements e)) (external_paths p @ asset_paths p)) (owned_paths p)"
proof (intro conjI)
  show "elements (ovUpper (planOverlay p)) = elements (ovRunStorageDir (planOverlay p)) @ [planRunID p, ''upper'']"
    "elements (ovWork (planOverlay p)) = elements (ovRunStorageDir (planOverlay p)) @ [planRunID p, ''work'']"
    by (simp_all add: overlay_elements [OF v] run_root_elements(1) [OF v])
  show "list_all (\<lambda>h. parallel (elements (ovUpper (planOverlay p))) (elements h) \<and>
                  parallel (elements (ovWork (planOverlay p))) (elements h))
      (rootPath (planRootFS p) # owned_paths p @ external_paths p @ generated_paths p @ asset_paths p)"
    unfolding list_all_iff using overlay_apart [OF v] by blast
  show "list_all (\<lambda>h. parallel (elements (rootPath (planRootFS p))) (elements h))
      (owned_paths p @ external_paths p @ generated_paths p @ asset_paths p)"
    unfolding list_all_iff using rootfs_apart [OF v] by blast
  show "sorted_wrt (\<lambda>a b. parallel (elements a) (elements b)) (owned_paths p)" by (rule owned_pairwise [OF v])
  show "list_all (\<lambda>o'. list_all (\<lambda>e. parallel (elements o') (elements e)) (external_paths p @ asset_paths p)) (owned_paths p)"
    unfolding list_all_iff using owned_apart [OF v] by blast
qed

theorem host_storage_disjoint_witness:
  "elements (ovUpper (planOverlay example_plan)) = [''s'', ''run-1'', ''upper''] \<and>
    sorted_wrt (\<lambda>a b. parallel (elements a) (elements b)) (owned_paths example_plan)"
  using host_storage_disjoint [OF example_valid]
  by (simp add: example_plan_def plan_of_input_def example_input_def elements_def)

text \<open>
  In an accepted plan every generated file has one backing directory (the private home or a
  managed directory): its host path is the backing's host root extended by the same components
  by which its sandbox target extends the backing's sandbox root, no backing lies deeper around
  the target, and no other backing holds the host path. So what is written on the host is what
  the sandbox sees at the target.
\<close>

theorem generated_file_visible:
  assumes v: "Validate p = None" and g: "g \<in> set (planGenerated p)"
  shows "\<exists>b rel. b \<in> set (plan_backings p) \<and> rel \<in> - {[]} \<and>
    elements (genTarget g) = elements (backSandboxRoot b) @ rel \<and>
    elements (genHostPath g) = elements (backHostRoot b) @ rel \<and>
    list_all (\<lambda>c. if sandboxPathContains (backSandboxRoot c) (genTarget g)
                  then prefix (elements (backSandboxRoot c)) (elements (backSandboxRoot b)) else True) (plan_backings p) \<and>
    filter (\<lambda>c. strict_prefix (elements c) (elements (genHostPath g))) (owned_paths p) = [backHostRoot b]"
proof -
  obtain b rel where b: "b \<in> set (plan_backings p)" "rel \<noteq> []"
    "elements (genTarget g) = elements (backSandboxRoot b) @ rel"
    "elements (genHostPath g) = elements (backHostRoot b) @ rel"
    "\<And>c. c \<in> set (plan_backings p) \<Longrightarrow> covers (genTarget g) c \<Longrightarrow>
      prefix (elements (backSandboxRoot c)) (elements (backSandboxRoot b))"
    using generated_backing [OF v g] by metis
  have gp: "valid_path (genHostPath g)" using valid_plan_paths(5) [OF v, of "genHostPath g"] g by (simp add: generated_paths_def)
  have own: "backHostRoot b \<in> set (owned_paths p)" using b(1) by (auto simp: plan_backings_def owned_paths_def)
  have "filter (\<lambda>c. strict_prefix (elements c) (elements (genHostPath g))) (owned_paths p) =
      filter (\<lambda>c. hostPathStrictlyContains c (genHostPath g)) (owned_paths p)"
    by (rule filter_cong) (use gp valid_plan_paths(5) [OF v] in \<open>simp_all add: hostPathStrictlyContains_elements\<close>)
  also have "length \<dots> = 1"
    using valid_planD(16) [OF v] g
    by (auto simp: host_graph_ok_def validateGeneratedFileOwnership_None generated_paths_def)
  finally have "length (filter (\<lambda>c. strict_prefix (elements c) (elements (genHostPath g))) (owned_paths p)) = 1" .
  moreover have "backHostRoot b \<in> set (filter (\<lambda>c. strict_prefix (elements c) (elements (genHostPath g))) (owned_paths p))"
    using own b(2,4) by (simp add: strict_prefix_def)
  ultimately have "filter (\<lambda>c. strict_prefix (elements c) (elements (genHostPath g))) (owned_paths p) = [backHostRoot b]"
    by (metis One_nat_def length_0_conv length_Suc_conv list.set_cases set_ConsD list.distinct(1) empty_iff list.set(1))
  with b show ?thesis unfolding list_all_iff by auto
qed

theorem generated_file_visible_witness:
  "\<exists>b rel. b \<in> set (plan_backings example_plan) \<and> [''toby'', ''home'', ''.c'', ''f''] = elements (backSandboxRoot b) @ rel \<and>
     [''d'', ''v'', ''f''] = elements (backHostRoot b) @ rel"
proof -
  have g: "hd (planGenerated example_plan) \<in> set (planGenerated example_plan)"
    "elements (genTarget (hd (planGenerated example_plan))) = [''toby'', ''home'', ''.c'', ''f'']"
    "elements (genHostPath (hd (planGenerated example_plan))) = [''d'', ''v'', ''f'']"
    by (simp_all add: example_plan_def plan_of_input_def example_input_def elements_def)
  from generated_file_visible [OF example_valid g(1)] g(2,3) show ?thesis by metis
qed

section \<open>Order and construction\<close>

lemma same_plan_trans:
  assumes "same_plan p q" "same_plan q r" shows "same_plan p r"
proof -
  obtain a b c d e f where q: "q = p\<lparr>planProjects := a, planManaged := b, planBinds := c,
       planAssets := d, planGenerated := e, planEnvironment := f\<rparr>" using assms(1) unfolding same_plan_def by blast
  obtain a' b' c' d' e' f' where r: "r = q\<lparr>planProjects := a', planManaged := b', planBinds := c',
       planAssets := d', planGenerated := e', planEnvironment := f'\<rparr>" using assms(2) unfolding same_plan_def by blast
  show ?thesis using assms unfolding same_plan_def r q by simp
qed

text \<open>
  The order of the slices of a plan never matters: two plans that differ only in it are both
  accepted or both refused, and for an accepted plan there is exactly one rearrangement whose
  slices are sorted by the comparison functions of \<open>Canonical\<close>, the canonical plan. So the
  result does not depend on how \<open>sort.Slice\<close> treats equal elements, and rendering is a function
  of the plan's contents.
\<close>

theorem Canonical_order_independent:
  assumes "same_plan p q"
  shows "(Validate p = None) = (Validate q = None) \<and>
    (if Validate p = None then Canonical p = Canonical q \<and> (in_order q = (q = Canonical p)) else True)"
proof -
  have v: "(Validate p = None) = (Validate q = None)" using Validate_order [OF assms] .
  have "Canonical p = Canonical q \<and> (in_order q = (q = Canonical p))" if "Validate p = None"
  proof -
    have "same_plan p (Canonical q)" using assms same_plan_Canonical(1) by (rule same_plan_trans)
    then have "Canonical q = Canonical p" using Canonical_unique [OF that] same_plan_Canonical(2) by blast
    then show ?thesis using Canonical_unique [OF that assms] same_plan_Canonical(2) by metis
  qed
  with v show ?thesis by simp
qed

definition reversed_plan :: "plan \<Rightarrow> plan" where
  "reversed_plan p = p\<lparr>planEnvironment := rev (planEnvironment p), planBinds := rev (planBinds p)\<rparr>"

theorem Canonical_order_independent_witness:
  "same_plan example_plan (reversed_plan example_plan) \<and> Validate (reversed_plan example_plan) = None \<and>
     Canonical example_plan = Canonical (reversed_plan example_plan)"
proof -
  have "same_plan example_plan (reversed_plan example_plan)" by (simp add: same_plan_def reversed_plan_def)
  with Canonical_order_independent [OF this] example_valid show ?thesis by simp
qed

text \<open>
  Building a plan succeeds exactly when the plan the input describes is acceptable; the
  result is then that plan in canonical order, accepted again by validation and unchanged by
  another canonicalisation, with host networking, the helper at its fixed target, each project
  beneath the workspace under its name, and capabilities exactly for root lifecycle commands.
\<close>

theorem BuildPlan_correct:
  "case BuildPlan i of
     Inl e \<Rightarrow> Validate (plan_of_input i) \<in> - {None}
   | Inr p \<Rightarrow> Validate (plan_of_input i) = None \<and> Validate p = None \<and> Canonical p = p \<and> same_plan (plan_of_input i) p \<and>
       nsNetwork (planNamespaces p) = NetworkHost \<and> binTarget (planBinary p) = layout_SandboxBinary \<and>
       list_all (\<lambda>q. elements (projTarget q) = elements layout_Workspace @ [projName q]) (planProjects p) \<and>
       cmdCapabilities (planCommand p) = (if inputRoot i then CapabilityRootLifecycle else CapabilityDropAll)"
proof -
  let ?q = "plan_of_input i" and ?p = "Canonical (plan_of_input i)"
  have same: "same_plan ?q ?p" "in_order ?p" by (rule same_plan_Canonical)+
  have acc: "Validate ?q = None \<longleftrightarrow> Validate ?p = None" using Validate_order [OF same(1)] .
  show ?thesis
  proof (cases "Validate ?p")
    case None
    then have idem: "Canonical ?p = ?p"
      using Canonical_unique [OF None _ same(2)] by (simp add: same_plan_def)
    have "list_all (\<lambda>q. elements (projTarget q) = elements layout_Workspace @ [projName q]) (planProjects ?p)"
      unfolding list_all_iff using project_target_elements [OF valid_planD(1) [OF None]] by simp
    moreover have "cmdCapabilities (planCommand ?p) = (if inputRoot i then CapabilityRootLifecycle else CapabilityDropAll)"
      by (simp add: Canonical_def plan_of_input_def)
    ultimately show ?thesis
      using None acc same(1) idem by (simp add: BuildPlan_def Canonical_def plan_of_input_def)
  next
    case (Some e)
    then show ?thesis using acc by (simp add: BuildPlan_def)
  qed
qed

section \<open>Rendering\<close>

lemma mounts_targets: "map (\<lambda>(source, label, access, target). target) (mounts p s) = mount_targets p"
  by (simp add: mounts_def mount_targets_def managed_binds_def project_binds_def external_binds_def asset_binds_def)

text \<open>
  C35. A rendered invocation is the validated canonical plan: the plan and its sources were
  accepted; the arguments are the fixed set-up, one bind per mount of the plan in mount order
  (read-only exactly for read-only access), the environment and the working directory, and then
  the unchanged command, which starts at the recorded payload index; the descriptor named by
  the n-th mount is the duplicate of that mount's source, and the targets are those of the
  plan, which never shadow each other.
\<close>

theorem Render_correct:
  assumes "Render k p s = Some (Inr r)"
  defines "c \<equiv> Canonical p"
  shows "Validate c = None \<and> validateSources k c s = Some None \<and>
    invArgs r = setup_args c @ mount_args 6 (mounts c s) @ environment_args layout_Home (planEnvironment c) @
      [''--chdir'', planWorkdir c, ''--''] @ cmdArgv (planCommand p) \<and>
    drop (invPayloadArgIndex r) (invArgs r) = cmdArgv (planCommand p) \<and> invMode r = cmdMode (planCommand p) \<and>
    list_all2 (\<lambda>source g. \<exists>f. source = Some f \<and> dup_fd k f = Some g)
      ([srcRootFS s, srcUpper s, srcWork s] @ map fst (mounts c s)) (invExtraFiles r) \<and>
    map (\<lambda>(source, label, access, target). target) (mounts c s) = mount_targets c \<and>
    sorted_wrt no_shadow (mount_targets c)"
proof -
  have ok: "Validate c = None" "validateSources k c s = Some None" "render_canonical k c s = Inr r"
    using assms(1) by (auto simp: Render_def Let_def c_def split: option.splits)
  have cmd: "planCommand c = planCommand p" by (simp add: c_def Canonical_def)
  define pre where "pre = setup_args c @ mount_args 6 (mounts c s) @ environment_args layout_Home (planEnvironment c) @
      [''--chdir'', planWorkdir c, ''--'']"
  obtain fs where "duplicates k (srcRootFS s # srcUpper s # srcWork s # map fst (mounts c s)) fs"
    "r = \<lparr>invArgs = pre @ cmdArgv (planCommand c), invExtraFiles = fs, invMode = cmdMode (planCommand c),
          invPayloadArgIndex = length pre, invConfidential = False, invConfidentialIndex = 0,
          invAllowOverlayReuseRetry = False\<rparr>"
    using ok(3) unfolding render_canonical_Inr Let_def pre_def by blast
  then show ?thesis
    using ok mounts_targets [of c s] mount_targets_ok [OF ok(1)] cmd by (simp add: duplicates_def pre_def)
qed

text \<open>
  A small host: directories 0 to 13 with their parents, 14 the helper binary, 15 a socket. The
  inode of a directory is its number.
\<close>

definition example_loc :: "nat \<Rightarrow> string list" where
  "example_loc n =
     (if n < 14 then
        [[], [''d''], [''d'', ''i''], [''d'', ''i'', ''r''], [''s''], [''s'', ''run-1''], [''s'', ''run-1'', ''upper''],
         [''s'', ''run-1'', ''work''], [''d'', ''h''], [''d'', ''v''], [''w''], [''w'', ''p''], [''e''], [''t'']] ! n
      else [''f''])"

definition example_kernel :: "nat kernel" where
  "example_kernel =
     \<lparr>fstat = (\<lambda>n. if n < 16 then Some \<lparr>fiDev = 1, fiIno = of_nat n,
                 fiKind = (if n < 14 then Directory else if n = 14 then RegularFile else Socket), fiNlink = 1, fiSys = True\<rparr>
               else None),
      open_parent = (\<lambda>n. if n < 14 then Some ([0, 0, 1, 2, 0, 4, 5, 5, 1, 1, 0, 10, 0, 0] ! n) else None),
      open_child = (\<lambda>n name. if n = 0 \<and> name = ''e'' then Some 12 else None),
      dup_fd = (\<lambda>n. if n < 16 then Some n else None)\<rparr>"

definition example_sources :: "nat sources" where
  "example_sources =
     \<lparr>srcProtected = \<lparr>prImageStore = Some 2, prPersistentData = Some 1, prRunStorage = Some 4, prRuntime = Some 13\<rparr>,
      srcRootFS = Some 3, srcUpper = Some 6, srcWork = Some 7, srcHome = Some 8,
      srcManaged = [(\<lparr>keyType = ''tool'', keyName = ''c'', keyPurpose = ''x''\<rparr>, Some 9)],
      srcProjects = [(''p'', Some 11)], srcBinds = [(''/etc/e'', Some 12)], srcBindParents = [(''/etc/e'', Some 0)],
      srcBindNames = [(''/etc/e'', ''e'')], srcAssets = [(''/run/toby/a'', Some 15)], srcBinary = Some 14\<rparr>"

lemma example_dir: "is_dir example_kernel n i \<longleftrightarrow>
    n < 14 \<and> i = \<lparr>fiDev = 1, fiIno = of_nat n, fiKind = Directory, fiNlink = 1, fiSys = True\<rparr>"
  by (auto simp: is_dir_def example_kernel_def)

lemma example_parents:
  assumes "n < 14"
  shows "[0, 0, 1, 2, 0, 4, 5, 5, 1, 1, 0, 10, 0, 0 :: nat] ! n < 14 \<and>
    example_loc ([0, 0, 1, 2, 0, 4, 5, 5, 1, 1, 0, 10, 0, 0] ! n) = butlast (example_loc n)"
proof -
  have "n \<in> {0, 1, 2, 3, 4, 5, 6, 7, 8, 9, 10, 11, 12, 13}"
    unfolding insert_iff empty_iff using assms by presburger
  then show ?thesis by (auto simp: example_loc_def)
qed

lemma example_loc_inj: "m < 14 \<Longrightarrow> n < 14 \<Longrightarrow> example_loc m = example_loc n \<longleftrightarrow> m = n"
proof -
  assume "m < 14" "n < 14"
  moreover have "distinct (map example_loc [0..<14])" by (simp add: upt_rec example_loc_def)
  ultimately show ?thesis using nth_eq_iff_index_eq [of "map example_loc [0..<14]" m n] by simp
qed

lemma example_tree: "directory_tree example_kernel example_loc"
  unfolding directory_tree_def example_dir
proof (intro allI impI conjI; elim conjE)
  fix n i assume n: "n < 14" "i = \<lparr>fiDev = 1, fiIno = of_nat n, fiKind = Directory, fiNlink = 1, fiSys = True\<rparr>"
  show "\<exists>g j. open_parent example_kernel n = Some g \<and>
      (g < 14 \<and> j = \<lparr>fiDev = 1, fiIno = of_nat g, fiKind = Directory, fiNlink = 1, fiSys = True\<rparr>) \<and>
      example_loc g = butlast (example_loc n)"
    using example_parents [OF n(1)] n(1) by (simp add: example_kernel_def)
  show "\<exists>g. dup_fd example_kernel n = Some g \<and> fstat example_kernel g = Some i \<and> example_loc g = example_loc n"
    using n by (simp add: example_kernel_def)
  fix m j assume m: "m < 14" "j = \<lparr>fiDev = 1, fiIno = of_nat m, fiKind = Directory, fiNlink = 1, fiSys = True\<rparr>"
  have "(of_nat n :: 64 word) = of_nat m \<longleftrightarrow> n = m"
    using n(1) m(1) by (simp add: word_of_nat_eq_iff take_bit_eq_mod)
  then show "SameFile i j \<longleftrightarrow> example_loc n = example_loc m"
    using n m example_loc_inj by (simp add: SameFile_def)
qed

lemma example_accepted: "validateSources example_kernel example_plan example_sources = Some None"
  by code_simp

text \<open>
  C34. On a host whose directories form a tree, the check of the sources always returns, and what
  it accepts is isolated: every project directory, and every external bind (its directory, or
  the parent directory of a file), lies in a subtree disjoint from the image store, the
  persistent data, the run storage and the runtime root; external binds are also disjoint from
  every directory Toby mounts itself; the root filesystem lies strictly beneath the image
  store, and the private home and the managed directories strictly beneath the persistent data.
\<close>

theorem sources_isolated:
  assumes tree: "directory_tree k loc"
  shows "validateSources k p s \<in> - {None} \<and>
    (if validateSources k p s = Some None then
       list_all (\<lambda>r. list_all (\<lambda>d. \<exists>f g. snd d = Some f \<and> snd r = Some g \<and> parallel (loc f) (loc g))
         (project_descriptors p s @ map (bind_descriptor k s) (planBinds p))) (protected_descriptors s) \<and>
       list_all (\<lambda>r. list_all (\<lambda>b. \<exists>f g. snd (bind_descriptor k s b) = Some f \<and> snd r = Some g \<and> parallel (loc f) (loc g))
         (planBinds p)) (owned_descriptors p s) \<and>
       (\<exists>f g. srcRootFS s = Some f \<and> prImageStore (srcProtected s) = Some g \<and> strict_prefix (loc g) (loc f)) \<and>
       list_all (\<lambda>d. \<exists>f g. d = Some f \<and> prPersistentData (srcProtected s) = Some g \<and> strict_prefix (loc g) (loc f))
         (srcHome s # map (\<lambda>e. lookup_file (srcManaged s) (entryKey e)) (planManaged p))
     else True)"
proof (cases "validateSources k p s = Some None")
  case True
  note A = sources_accepted [OF True] and R = ready_dirs [OF sources_accepted(1) [OF True]]
  have dirs: "\<exists>f. snd d = Some f" if "dir_at k d" for d using that by (auto simp: dir_at_def)
  have prot: "\<exists>g. snd r = Some g" if "r \<in> set (protected_descriptors s @ owned_descriptors p s)" for r
    using dirs [of r] R(1,2) that by auto
  have bind: "\<exists>f. snd (bind_descriptor k s b) = Some f" if "b \<in> set (planBinds p)" for b
    using dirs [OF check_bind_dir(1)] A(3) that by blast
  have proj: "\<exists>f. snd d = Some f" if "d \<in> set (project_descriptors p s)" for d
    using dirs R(6) that by (auto simp: project_descriptors_def)
  have "list_all (\<lambda>r. list_all (\<lambda>d. \<exists>f g. snd d = Some f \<and> snd r = Some g \<and> parallel (loc f) (loc g))
      (project_descriptors p s @ map (bind_descriptor k s) (planBinds p))) (protected_descriptors s)"
    unfolding list_all_iff
  proof (intro ballI)
    fix r d assume r: "r \<in> set (protected_descriptors s)"
      and d: "d \<in> set (project_descriptors p s @ map (bind_descriptor k s) (planBinds p))"
    obtain g where g: "snd r = Some g" using prot [of r] r by auto
    show "\<exists>f g. snd d = Some f \<and> snd r = Some g \<and> parallel (loc f) (loc g)"
    proof (cases "d \<in> set (project_descriptors p s)")
      case dp: True
      then show ?thesis using proj projects_apart [OF tree True dp _ r g] g by blast
    next
      case False
      then obtain b where b: "b \<in> set (planBinds p)" "d = bind_descriptor k s b" using d by auto
      then show ?thesis using bind [OF b(1)] binds_apart [OF tree True b(1) _ _ g] r g by auto
    qed
  qed
  moreover have "list_all (\<lambda>r. list_all (\<lambda>b. \<exists>f g. snd (bind_descriptor k s b) = Some f \<and> snd r = Some g \<and>
      parallel (loc f) (loc g)) (planBinds p)) (owned_descriptors p s)"
    unfolding list_all_iff
  proof (intro ballI)
    fix r b assume r: "r \<in> set (owned_descriptors p s)" and b: "b \<in> set (planBinds p)"
    obtain f g where "snd (bind_descriptor k s b) = Some f" "snd r = Some g" using bind [OF b] prot [of r] r by auto
    then show "\<exists>f g. snd (bind_descriptor k s b) = Some f \<and> snd r = Some g \<and> parallel (loc f) (loc g)"
      using binds_apart [OF tree True b, of f r g] r by auto
  qed
  moreover obtain store data where pr: "prImageStore (srcProtected s) = Some store" "prPersistentData (srcProtected s) = Some data"
    using prot by (force simp: protected_descriptors_def)
  moreover have "\<exists>f g. srcRootFS s = Some f \<and> prImageStore (srcProtected s) = Some g \<and> strict_prefix (loc g) (loc f)"
    using dirs [OF R(3)] pr(1) beneath_roots(1) [OF tree True] by auto
  moreover have "list_all (\<lambda>d. \<exists>f g. d = Some f \<and> prPersistentData (srcProtected s) = Some g \<and> strict_prefix (loc g) (loc f))
      (srcHome s # map (\<lambda>e. lookup_file (srcManaged s) (entryKey e)) (planManaged p))"
  proof -
    define ds where "ds = (''private home'', srcHome s) #
      map (\<lambda>e. (''managed-directory '' @ Key_String (entryKey e), lookup_file (srcManaged s) (entryKey e))) (planManaged p)"
    have "dir_at k d" if "d \<in> set ds" for d using that R(4,5) by (auto simp: ds_def)
    then have opened: "\<exists>f. snd d = Some f" if "d \<in> set ds" for d using dirs that by blast
    have "\<exists>f g. snd d = Some f \<and> prPersistentData (srcProtected s) = Some g \<and> strict_prefix (loc g) (loc f)"
      if d: "d \<in> set ds" for d
    proof -
      obtain f where f: "snd d = Some f" using opened [OF d] by blast
      show ?thesis using beneath_roots(2) [OF tree True d [unfolded ds_def] f pr(2)] f pr(2) by blast
    qed
    then have "list_all (\<lambda>d. \<exists>f g. d = Some f \<and> prPersistentData (srcProtected s) = Some g \<and> strict_prefix (loc g) (loc f))
        (map snd ds)"
      unfolding list_all_iff set_map by blast
    moreover have "map snd ds = srcHome s # map (\<lambda>e. lookup_file (srcManaged s) (entryKey e)) (planManaged p)"
      by (simp add: ds_def)
    ultimately show ?thesis by simp
  qed
  ultimately show ?thesis using True by simp
next
  case False
  then show ?thesis using sources_return [OF tree] by simp
qed

theorem sources_isolated_witness:
  "directory_tree example_kernel example_loc \<and> validateSources example_kernel example_plan example_sources = Some None \<and>
     list_all (\<lambda>r. list_all (\<lambda>d. \<exists>f g. snd d = Some f \<and> snd r = Some g \<and> parallel (example_loc f) (example_loc g))
         (project_descriptors example_plan example_sources @
          map (bind_descriptor example_kernel example_sources) (planBinds example_plan)))
       (protected_descriptors example_sources)"
  using sources_isolated [OF example_tree, of example_plan example_sources] example_accepted example_tree by simp

theorem Render_correct_witness:
  "\<exists>r. Render example_kernel example_plan example_sources = Some (Inr r) \<and>
     drop (invPayloadArgIndex r) (invArgs r) = [''codex'']"
proof -
  have canon: "Canonical example_plan = example_plan"
    by (simp add: Canonical_def example_plan_def plan_of_input_def example_input_def)
  have "duplicates example_kernel (srcRootFS example_sources # srcUpper example_sources # srcWork example_sources #
      map fst (mounts example_plan example_sources)) [3, 6, 7, 8, 9, 11, 12, 15, 14]"
    by (simp add: example_sources_def example_kernel_def mounts_def managed_binds_def project_binds_def external_binds_def
        asset_binds_def lookup_file_def example_plan_def plan_of_input_def example_input_def)
  then obtain r where "render_canonical example_kernel example_plan example_sources = Inr r"
    unfolding render_canonical_Inr Let_def by blast
  moreover have "validateSourceCardinality example_plan example_sources = None"
    using sources_accepted(5) [OF example_accepted] by (simp add: before_walks_def verdict_simps)
  ultimately have "Render example_kernel example_plan example_sources = Some (Inr r)"
    using example_valid example_accepted by (simp add: Render_def canon Let_def)
  from this Render_correct [OF this] show ?thesis
    by (auto simp: example_plan_def plan_of_input_def example_input_def)
qed

end
