(* ===== verification/Bwrap_Service.thy ===== *)
theory Bwrap_Service
  imports Bwrap_Render
begin

text \<open>
  The plans of agent-owned processes: background services (\<open>background_service_plan.go\<close>,
  \<open>background_service_sources_linux.go\<close>, \<open>background_service_render_linux.go\<close>) and MCP sidecars
  (\<open>sidecar_plan.go\<close>, \<open>sidecar_sources_linux.go\<close>, \<open>sidecar_render_linux.go\<close>). Both have the same
  fields and share one record. Their options are passed in a sealed anonymous file
  (\<open>confidential_arguments_linux.go\<close>); creating and reading such a file is a parameter.
\<close>

section \<open>Plans\<close>

record service_plan =
  svcID :: string
  svcRootFS :: rootfs
  svcOverlay :: overlay
  svcBinds :: "mount_bind list"
  svcRuntime :: "runtime_asset option"
  svcWorkdir :: string
  svcEnvironment :: "environment_variable list"
  svcIdentity :: identity
  svcNetwork :: network_mode
  svcCommand :: "string list"

definition maxBackgroundServiceSourceDescriptors :: nat where
  "maxBackgroundServiceSourceDescriptors = 4096"

definition BackgroundServiceRuntimeTarget :: string where
  "BackgroundServiceRuntimeTarget = layout_Runtime @ ''/service''"

definition BackgroundServiceAuthSocketTarget :: string where
  "BackgroundServiceAuthSocketTarget = layout_Runtime @ ''/auth.sock''"

definition BackgroundService_Canonical :: "service_plan \<Rightarrow> service_plan" where
  "BackgroundService_Canonical p =
     p\<lparr>svcBinds := sort_key (\<lambda>b. (bindTarget b, bindHostPath b, bindAccess b, bindOptional b)) (svcBinds p),
       svcEnvironment := sort_key (\<lambda>v. (envName v, envValue v)) (svcEnvironment p)\<rparr>"

definition Sidecar_Canonical :: "service_plan \<Rightarrow> service_plan" where
  "Sidecar_Canonical p =
     p\<lparr>svcBinds := sort_key (\<lambda>b. (bindTarget b, bindHostPath b)) (svcBinds p),
       svcEnvironment := sort_key envName (svcEnvironment p)\<rparr>"

section \<open>Background services\<close>

definition validateBackgroundServiceOverlay :: "service_plan \<Rightarrow> plan_error verdict" where
  "validateBackgroundServiceOverlay p =
     (let upper = ovUpper (svcOverlay p); work = ovWork (svcOverlay p);
          expected = Join (ovRunStorageDir (svcOverlay p)) (svcID p)
      in and_then (fail_if (Clean upper = Clean work) (HostInvalid OverlaySame))
        (and_then (fail_if (Dir upper \<noteq> Dir work \<or> Base upper \<noteq> ''upper'' \<or> Base work \<noteq> ''work'') (HostInvalid OverlayNames))
                  (fail_if (Dir upper \<noteq> expected) (HostInvalid (OverlayRunRoot (Dir upper) expected)))))"

definition reserved_targets :: "string list" where
  "reserved_targets = [''/proc'', ''/dev'', ''/tmp'', ''/run'']"

definition validateBackgroundServiceBinds :: "mount_bind list \<Rightarrow> plan_error verdict" where
  "validateBackgroundServiceBinds binds =
     each_earlier (\<lambda>earlier bind.
       and_then (map_error (ServiceBindError (length earlier) \<circ> MountInvalid) (Bind_Validate bind))
      (and_then (map_error (ServiceBindError (length earlier)) (validateHostPath ''background-service bind'' (bindHostPath bind)))
      (and_then (fail_if (bindOptional bind) (ServiceInvalid (OptionalBind (length earlier))))
      (and_then (if bindTarget bind = BackgroundServiceAuthSocketTarget
                 then fail_if (bindAccess bind \<noteq> AccessReadOnly) (ServiceInvalid (BindNotReadOnly (bindTarget bind)))
                 else and_then (fail_if (bindAccess bind \<noteq> AccessReadOnly) (ServiceInvalid (BindNotReadOnly (bindTarget bind))))
                               (each (\<lambda>reserved. fail_if (TargetsOverlap (bindTarget bind) reserved)
                                        (TargetInvalid (OverlapsReserved (bindTarget bind) reserved))) reserved_targets))
                (each (\<lambda>other. fail_if (TargetsOverlap (bindTarget bind) (bindTarget other))
                         (TargetInvalid (TargetsOverlapping (bindTarget other) (bindTarget bind)))) earlier)))))
       [] binds"

definition validateBackgroundServiceRuntime :: "runtime_asset option \<Rightarrow> plan_error verdict" where
  "validateBackgroundServiceRuntime runtime =
     (case runtime of
        None \<Rightarrow> None
      | Some a \<Rightarrow>
          and_then (fail_if (assetTarget a \<noteq> BackgroundServiceRuntimeTarget) (ServiceInvalid RuntimeTarget))
         (and_then (fail_if (assetAccess a \<noteq> AccessRegular) (ServiceInvalid RuntimeNotWritable))
                   (validateHostPath ''background-service runtime directory'' (assetHostPath a))))"

text \<open>
  The host graph of both kinds: \<open>kind\<close> is the prefix of the labels. The runtime directory has
  to be the run's own \<open>runtime\<close> directory and is the only claim inside the run root.
\<close>

definition service_claims :: "string \<Rightarrow> service_plan \<Rightarrow> host_path_claim list" where
  "service_claims kind p =
     claim (kind @ '' rootfs'') (rootPath (svcRootFS p)) # numbered (kind @ '' bind'') bindHostPath False (svcBinds p) @
     (case svcRuntime p of None \<Rightarrow> [] | Some a \<Rightarrow> [claim (kind @ '' runtime directory'') (assetHostPath a)])"

definition validate_service_host_graph :: "string \<Rightarrow> service_plan \<Rightarrow> plan_error verdict" where
  "validate_service_host_graph kind p =
     (let runRoot = Dir (ovUpper (svcOverlay p)); expectedRuntime = Join runRoot ''runtime'' in
      and_then (case svcRuntime p of
                  None \<Rightarrow> None
                | Some a \<Rightarrow> fail_if (assetHostPath a \<noteq> expectedRuntime) (ServiceInvalid (RuntimeHostPath (assetHostPath a) expectedRuntime)))
               (each_earlier (\<lambda>earlier c.
                  and_then (fail_if (claimLabel c \<noteq> kind @ '' runtime directory'' \<and> hostPathsOverlap runRoot (claimPath c))
                              (HostInvalid (OverlapsHost ''overlay root'' runRoot (claimLabel c) (claimPath c))))
                           (each (\<lambda>other. fail_if (hostPathsOverlap (claimPath c) (claimPath other))
                                    (HostInvalid (OverlapsHost (claimLabel c) (claimPath c) (claimLabel other) (claimPath other))))
                              earlier))
                  [] (service_claims kind p)))"

definition validateBackgroundServiceHostGraph :: "service_plan \<Rightarrow> plan_error verdict" where
  "validateBackgroundServiceHostGraph p = validate_service_host_graph ''background-service'' p"

definition service_descriptors :: "service_plan \<Rightarrow> nat" where
  "service_descriptors p = 3 + length (svcBinds p) + (if svcRuntime p \<noteq> None then 1 else 0)"

definition BackgroundService_Validate :: "service_plan \<Rightarrow> plan_error verdict" where
  "BackgroundService_Validate p =
     and_then (fail_if (service_descriptors p > maxBackgroundServiceSourceDescriptors)
                 (ServiceInvalid (TooManyDescriptors (service_descriptors p))))
    (and_then (fail_if (\<not> idPattern (svcID p)) (InvalidRunID (svcID p)))
    (and_then (fail_if (\<not> digestPattern (rootDigest (svcRootFS p))) (InvalidDigest (rootDigest (svcRootFS p))))
    (and_then (validateHostPath ''background-service rootfs'' (rootPath (svcRootFS p)))
    (and_then (each (\<lambda>(label, path). validateHostPath label path)
                 [(''background-service run storage'', ovRunStorageDir (svcOverlay p)),
                  (''background-service overlay upper'', ovUpper (svcOverlay p)),
                  (''background-service overlay work'', ovWork (svcOverlay p))])
    (and_then (validateBackgroundServiceOverlay p)
    (and_then (validateSandboxPath ''background-service workdir'' (svcWorkdir p))
    (and_then (fail_if (idHostUID (svcIdentity p) < 0 \<or> idHostGID (svcIdentity p) < 0) NegativeIdentity)
    (and_then (fail_if (svcNetwork p \<notin> {NetworkHost, NetworkPrivate}) (InvalidNetwork (svcNetwork p)))
    (and_then (fail_if (svcCommand p = [] \<or> hd (svcCommand p) = '''') (CommandInvalid EmptyCommand))
    (and_then (each (\<lambda>arg. fail_if (NUL \<in> set arg) (CommandInvalid CommandNUL)) (svcCommand p))
    (and_then (validateEnvironment (svcEnvironment p))
    (and_then (validateBackgroundServiceBinds (svcBinds p))
    (and_then (validateBackgroundServiceRuntime (svcRuntime p))
    (and_then (fail_if (svcRuntime p = None \<and>
                        (svcWorkdir p = BackgroundServiceRuntimeTarget \<or> prefix (BackgroundServiceRuntimeTarget @ ''/'') (svcWorkdir p)))
                 (ServiceInvalid (WorkdirNeedsRuntime (svcWorkdir p))))
              (validateBackgroundServiceHostGraph p)))))))))))))))"

section \<open>Sidecars\<close>

definition maxSidecarSourceDescriptors :: nat where
  "maxSidecarSourceDescriptors = 4096"

definition generatedRunIDPattern :: "string \<Rightarrow> bool" where
  "generatedRunIDPattern s =
     (prefix ''run-'' s \<and> length (drop 4 s) = 32 \<and> list_all ascii_lower_hex (drop 4 s))"

definition validateSidecarOverlay :: "service_plan \<Rightarrow> plan_error verdict" where
  "validateSidecarOverlay p =
     (let upper = ovUpper (svcOverlay p); work = ovWork (svcOverlay p);
          expected = Join (ovRunStorageDir (svcOverlay p)) (svcID p)
      in and_then (fail_if (Clean upper = Clean work) (HostInvalid OverlaySame))
        (and_then (fail_if (Dir upper \<noteq> Dir work \<or> Base upper \<noteq> ''upper'' \<or> Base work \<noteq> ''work'') (HostInvalid OverlayNames))
                  (fail_if (Dir upper \<noteq> expected) (HostInvalid (OverlayRunRoot (Dir upper) expected)))))"

definition validateSidecarBinds :: "mount_bind list \<Rightarrow> runtime_asset option \<Rightarrow> plan_error verdict" where
  "validateSidecarBinds binds runtime =
     and_then
       (each_earlier (\<lambda>earlier bind.
          and_then (map_error (ServiceBindError (length earlier) \<circ> MountInvalid) (Bind_Validate bind))
         (and_then (map_error (ServiceBindError (length earlier)) (validateHostPath ''sidecar bind'' (bindHostPath bind)))
         (and_then (each (\<lambda>reserved. fail_if (TargetsOverlap (bindTarget bind) reserved)
                            (TargetInvalid (OverlapsReserved (bindTarget bind) reserved))) reserved_targets)
                   (each (\<lambda>other. fail_if (TargetsOverlap (bindTarget bind) (bindTarget other))
                            (TargetInvalid (TargetsOverlapping (bindTarget other) (bindTarget bind)))) earlier)))) [] binds)
       (case runtime of
          None \<Rightarrow> None
        | Some a \<Rightarrow>
            and_then (fail_if (assetTarget a \<noteq> layout_Runtime) (ServiceInvalid RuntimeTarget))
           (and_then (fail_if (assetAccess a \<noteq> AccessRegular) (ServiceInvalid RuntimeNotWritable))
                     (validateHostPath ''sidecar runtime directory'' (assetHostPath a))))"

definition validateSidecarHostGraph :: "service_plan \<Rightarrow> plan_error verdict" where
  "validateSidecarHostGraph p = validate_service_host_graph ''sidecar'' p"

definition Sidecar_Validate :: "service_plan \<Rightarrow> plan_error verdict" where
  "Sidecar_Validate p =
     and_then (fail_if (\<not> generatedRunIDPattern (svcID p)) (InvalidRunID (svcID p)))
    (and_then (fail_if (\<not> digestPattern (rootDigest (svcRootFS p))) (InvalidDigest (rootDigest (svcRootFS p))))
    (and_then (each (\<lambda>(label, path). validateHostPath label path)
                 [(''rootfs'', rootPath (svcRootFS p)),
                  (''run storage'', ovRunStorageDir (svcOverlay p)),
                  (''overlay upper'', ovUpper (svcOverlay p)),
                  (''overlay work'', ovWork (svcOverlay p))])
    (and_then (validateSidecarOverlay p)
    (and_then (validateSandboxPath ''sidecar workdir'' (svcWorkdir p))
    (and_then (fail_if (idHostUID (svcIdentity p) < 0 \<or> idHostGID (svcIdentity p) < 0) NegativeIdentity)
    (and_then (fail_if (svcNetwork p \<notin> {NetworkHost, NetworkPrivate}) (InvalidNetwork (svcNetwork p)))
    (and_then (fail_if (svcCommand p = [] \<or> hd (svcCommand p) = '''') (CommandInvalid EmptyCommand))
    (and_then (each (\<lambda>arg. fail_if (NUL \<in> set arg) (CommandInvalid CommandNUL)) (svcCommand p))
    (and_then (validateEnvironment (svcEnvironment p))
    (and_then (validateSidecarBinds (svcBinds p) (svcRuntime p))
              (validateSidecarHostGraph p)))))))))))"

section \<open>Sources of services\<close>

record 'f service_sources =
  ssRootFS :: "'f option"
  ssUpper :: "'f option"
  ssWork :: "'f option"
  ssBinds :: "(string \<times> 'f option) list"
  ssRuntime :: "'f option"

definition provided_descriptors :: "'f service_sources \<Rightarrow> nat" where
  "provided_descriptors s = 3 + length (ssBinds s) + (if ssRuntime s \<noteq> None then 1 else 0)"

definition validateBackgroundServiceSourceCardinality :: "service_plan \<Rightarrow> 'f service_sources \<Rightarrow> source_error verdict" where
  "validateBackgroundServiceSourceCardinality p s =
     and_then (fail_if (service_descriptors p > maxBackgroundServiceSourceDescriptors \<or>
                        provided_descriptors s > maxBackgroundServiceSourceDescriptors) (SourceLimit maxBackgroundServiceSourceDescriptors))
              (fail_if (service_descriptors p \<noteq> provided_descriptors s) (SourceLimit (provided_descriptors s)))"

definition validateBackgroundServiceBindDescriptor ::
  "'f kernel \<Rightarrow> string \<Rightarrow> 'f option \<Rightarrow> mount_bind \<Rightarrow> source_error verdict"
where
  "validateBackgroundServiceBindDescriptor k label file bind =
     (if bindTarget bind = BackgroundServiceAuthSocketTarget then validateBindDescriptor k label file AccessDev
      else with_info k label file (\<lambda>info. fail_if (fiKind info \<notin> {Directory, RegularFile}) (SourceKind label (fiKind info))))"

text \<open>The loop that inspects one descriptor and compares it with the ones inspected before.\<close>

fun distinct_descriptors ::
  "'f kernel \<Rightarrow> (string \<times> file_info) list \<Rightarrow> (string \<times> 'f option) list \<Rightarrow> source_error verdict"
where
  "distinct_descriptors k seen [] = None"
| "distinct_descriptors k seen ((label, file) # rest) =
     (case (case file of None \<Rightarrow> None | Some f \<Rightarrow> fstat k f) of
        None \<Rightarrow> Some (SourceStat label)
      | Some info \<Rightarrow>
          and_then (each (\<lambda>(other, otherInfo). fail_if (SameFile info otherInfo) (SourcesAlias label other)) seen)
                   (distinct_descriptors k (seen @ [(label, info)]) rest))"

definition same_device :: "'f kernel \<Rightarrow> string \<times> 'f option \<Rightarrow> string \<times> 'f option \<Rightarrow> source_error verdict" where
  "same_device k a b =
     (case (case snd a of None \<Rightarrow> None | Some f \<Rightarrow> fstat k f) of
        None \<Rightarrow> Some (SourceStat (fst a))
      | Some i \<Rightarrow>
          (case (case snd b of None \<Rightarrow> None | Some f \<Rightarrow> fstat k f) of
             None \<Rightarrow> Some (SourceStat (fst b))
           | Some j \<Rightarrow> fail_if (fiDev i \<noteq> fiDev j) OverlayDevices))"

definition validateDistinctBackgroundServiceDescriptors ::
  "'f kernel \<Rightarrow> service_plan \<Rightarrow> 'f service_sources \<Rightarrow> source_error verdict"
where
  "validateDistinctBackgroundServiceDescriptors k p s =
     and_then (distinct_descriptors k []
                 ([(''background-service rootfs'', ssRootFS s), (''background-service overlay upper'', ssUpper s),
                   (''background-service overlay work'', ssWork s)] @
                  map (\<lambda>b. (''background-service bind '' @ bindTarget b, lookup_file (ssBinds s) (bindTarget b))) (svcBinds p) @
                  (if svcRuntime p \<noteq> None then [(''background-service runtime'', ssRuntime s)] else [])))
              (same_device k (''background-service overlay upper'', ssUpper s) (''background-service overlay work'', ssWork s))"

definition validateBackgroundServiceSources :: "'f kernel \<Rightarrow> service_plan \<Rightarrow> 'f service_sources \<Rightarrow> source_error verdict" where
  "validateBackgroundServiceSources k p s =
     and_then (validateBackgroundServiceSourceCardinality p s)
    (and_then (directories k [(''background-service rootfs'', ssRootFS s), (''background-service overlay upper'', ssUpper s),
                 (''background-service overlay work'', ssWork s)])
    (and_then (each (\<lambda>b. case map_of (ssBinds s) (bindTarget b) of
                   None \<Rightarrow> Some (MissingSource ''background-service bind'' (bindTarget b))
                 | Some source \<Rightarrow> validateBackgroundServiceBindDescriptor k (''background-service bind '' @ bindTarget b) source b)
                 (svcBinds p))
    (and_then (validateStringCoverage ''background-service bind'' (map bindTarget (svcBinds p)) (ssBinds s))
    (and_then (if svcRuntime p = None \<and> ssRuntime s \<noteq> None then Some (UnexpectedSource ''background-service'' ''runtime'')
               else if svcRuntime p \<noteq> None \<and> ssRuntime s = None then Some (MissingSource ''background-service'' ''runtime'')
               else if svcRuntime p \<noteq> None then validateDirectoryDescriptor k ''background-service runtime'' (ssRuntime s)
               else None)
              (validateDistinctBackgroundServiceDescriptors k p s)))))"

definition validateDistinctSidecarDirectories :: "'f kernel \<Rightarrow> 'f service_sources \<Rightarrow> source_error verdict" where
  "validateDistinctSidecarDirectories k s =
     and_then (distinct_descriptors k []
                 [(''sidecar rootfs'', ssRootFS s), (''sidecar overlay upper'', ssUpper s), (''sidecar overlay work'', ssWork s)])
              (same_device k (''sidecar overlay upper'', ssUpper s) (''sidecar overlay work'', ssWork s))"

text \<open>\<open>iterate\<close> is the order in which the map of bind sources is ranged over.\<close>

definition validateSidecarSources ::
  "'f kernel \<Rightarrow> ((string \<times> 'f option) list \<Rightarrow> (string \<times> 'f option) list) \<Rightarrow> service_plan \<Rightarrow> 'f service_sources \<Rightarrow> source_error verdict"
where
  "validateSidecarSources k iterate p s =
     and_then (fail_if (service_descriptors p > maxSidecarSourceDescriptors \<or> provided_descriptors s > maxSidecarSourceDescriptors)
                 (SourceLimit maxSidecarSourceDescriptors))
    (and_then (fail_if (service_descriptors p \<noteq> provided_descriptors s) (SourceLimit (provided_descriptors s)))
    (and_then (directories k [(''sidecar rootfs'', ssRootFS s), (''sidecar overlay upper'', ssUpper s),
                 (''sidecar overlay work'', ssWork s)])
    (and_then (validateDistinctSidecarDirectories k s)
    (and_then (each (\<lambda>b. case map_of (ssBinds s) (bindTarget b) of
                   None \<Rightarrow> Some (MissingSource ''sidecar bind'' (bindTarget b))
                 | Some source \<Rightarrow> validateBindDescriptor k (''sidecar bind '' @ bindTarget b) source (bindAccess b))
                 (svcBinds p))
    (and_then (each (\<lambda>(target, file). fail_if (target \<notin> bindTarget ` set (svcBinds p)) (UnexpectedSource ''sidecar bind'' target))
                 (iterate (ssBinds s)))
              (if svcRuntime p = None \<and> ssRuntime s \<noteq> None then Some (UnexpectedSource ''sidecar'' ''runtime'')
               else if svcRuntime p \<noteq> None \<and> ssRuntime s = None then Some (MissingSource ''sidecar'' ''runtime'')
               else if svcRuntime p \<noteq> None then validateDirectoryDescriptor k ''sidecar runtime'' (ssRuntime s)
               else None))))))"

section \<open>Confidential arguments\<close>

definition maxConfidentialArgumentPayloadSize :: nat where
  "maxConfidentialArgumentPayloadSize = 2 ^ 20"

definition maxConfidentialArgumentCount :: nat where
  "maxConfidentialArgumentCount = 9000 - 6"

fun encode_loop :: "nat \<Rightarrow> string \<Rightarrow> string list \<Rightarrow> render_error + string" where
  "encode_loop index payload [] = Inr payload"
| "encode_loop index payload (argument # rest) =
     require (and_then (fail_if (NUL \<in> set argument) (ArgumentNUL index))
                       (fail_if (length argument + 1 > maxConfidentialArgumentPayloadSize - length payload) PayloadSize))
       (encode_loop (Suc index) (payload @ argument @ [NUL]) rest)"

definition encodeConfidentialArguments :: "string list \<Rightarrow> render_error + string" where
  "encodeConfidentialArguments args =
     require (and_then (fail_if (args = []) ArgumentsEmpty)
                       (fail_if (length args > maxConfidentialArgumentCount) (ArgumentCount (length args))))
       (encode_loop 0 [] args)"

definition validateConfidentialArgumentPayload :: "string \<Rightarrow> render_error verdict" where
  "validateConfidentialArgumentPayload payload =
     and_then (fail_if (payload = []) PayloadEmpty)
    (and_then (fail_if (length payload > maxConfidentialArgumentPayloadSize) PayloadSize)
    (and_then (fail_if (last payload \<noteq> NUL) PayloadUnterminated)
              (fail_if (length (filter (\<lambda>c. c = NUL) payload) > maxConfidentialArgumentCount)
                 (ArgumentCount (length (filter (\<lambda>c. c = NUL) payload))))))"

text \<open>The decoding loop; the first argument is \<open>payload[start:index]\<close>, the bytes since the last terminator.\<close>

fun decode_loop :: "string \<Rightarrow> string \<Rightarrow> string list" where
  "decode_loop current [] = []"
| "decode_loop current (c # payload) =
     (if c \<noteq> NUL then decode_loop (current @ [c]) payload else current # decode_loop [] payload)"

definition decodeConfidentialArguments :: "string \<Rightarrow> render_error + string list" where
  "decodeConfidentialArguments payload =
     require (validateConfidentialArgumentPayload payload) (Inr (decode_loop [] payload))"

text \<open>
  Sealed anonymous files: \<open>seal\<close> is what \<open>createConfidentialArgumentFile\<close> does after validating
  the payload (create, write, seal), \<open>unseal\<close> what \<open>readConfidentialArgumentFile\<close> reads back.
\<close>

record 'f memfd =
  seal :: "string \<Rightarrow> 'f option"
  unseal :: "'f \<Rightarrow> string option"

definition createConfidentialArgumentFile :: "'f memfd \<Rightarrow> string \<Rightarrow> render_error + 'f" where
  "createConfidentialArgumentFile mfd payload =
     require (validateConfidentialArgumentPayload payload)
       (case seal mfd payload of None \<Rightarrow> Inl ArgumentFile | Some f \<Rightarrow> Inr f)"

definition readConfidentialArgumentFile :: "'f memfd \<Rightarrow> 'f \<Rightarrow> render_error + string" where
  "readConfidentialArgumentFile mfd f =
     (case unseal mfd f of
        None \<Rightarrow> Inl ArgumentFile
      | Some payload \<Rightarrow> require (validateConfidentialArgumentPayload payload) (Inr payload))"

definition setConfidentialArgumentsWithTail ::
  "'f memfd \<Rightarrow> string list \<Rightarrow> string list \<Rightarrow> 'f invocation \<Rightarrow> render_error + 'f invocation"
where
  "setConfidentialArgumentsWithTail mfd args publicTail i =
     require (fail_if (invConfidential i \<or> invArgs i \<noteq> []) ArgumentsSet)
    (attempt (encodeConfidentialArguments args) (\<lambda>payload.
     attempt (createConfidentialArgumentFile mfd payload) (\<lambda>f.
       (let index = length (invExtraFiles i) in
        Inr (i\<lparr>invExtraFiles := invExtraFiles i @ [f],
               invArgs := [''--args'', Itoa (int (childExtraFileBaseFD + index))] @ publicTail,
               invConfidential := True, invConfidentialIndex := index\<rparr>)))))"

definition setConfidentialOptions ::
  "'f memfd \<Rightarrow> string list \<Rightarrow> string list \<Rightarrow> 'f invocation \<Rightarrow> render_error + 'f invocation"
where
  "setConfidentialOptions mfd options publicCommand i =
     require (and_then (fail_if (publicCommand = []) PublicCommandEmpty)
             (and_then (each (\<lambda>option. fail_if (option = ''--'') OptionSeparator) options)
             (and_then (each (\<lambda>(index, argument). fail_if ((index = 0 \<and> argument = '''') \<or> NUL \<in> set argument) (PublicArgument index))
                          (enumerate 0 publicCommand))
                       (fail_if (int (length options) > int maxConfidentialArgumentCount - int (length publicCommand) - 1)
                          (ArgumentCount (length options))))))
       (setConfidentialArgumentsWithTail mfd options (''--'' # publicCommand) i)"

definition validateConfidentialArgumentReference :: "'f invocation \<Rightarrow> render_error verdict" where
  "validateConfidentialArgumentReference i =
     (if \<not> invConfidential i then None
      else
        and_then (fail_if (invConfidentialIndex i \<ge> length (invExtraFiles i)) ArgumentFile)
       (and_then (fail_if (length (invArgs i) < 2 \<or> hd (invArgs i) \<noteq> ''--args'' \<or>
                           invArgs i ! 1 \<noteq> Itoa (int (childExtraFileBaseFD + invConfidentialIndex i))) ArgumentFile)
                 (fail_if (length (invArgs i) > 2 \<and>
                           (length (invArgs i) < 4 \<or> invArgs i ! 2 \<noteq> ''--'' \<or> invArgs i ! 3 = '''')) (PublicArgument 0))))"

definition invocationArguments :: "'f memfd \<Rightarrow> 'f invocation \<Rightarrow> render_error + string list" where
  "invocationArguments mfd i =
     (if \<not> invConfidential i then Inr (invArgs i)
      else require (validateConfidentialArgumentReference i)
          (attempt (readConfidentialArgumentFile mfd (invExtraFiles i ! invConfidentialIndex i)) (\<lambda>payload.
           attempt (decodeConfidentialArguments payload) (\<lambda>args. Inr (args @ drop 2 (invArgs i))))))"

section \<open>Rendering services\<close>

definition service_binds :: "string \<Rightarrow> string \<Rightarrow> service_plan \<Rightarrow> 'f service_sources \<Rightarrow> ('f option \<times> string \<times> access \<times> string) list" where
  "service_binds bind runtime p s =
     map (\<lambda>b. (lookup_file (ssBinds s) (bindTarget b), bind @ bindTarget b, bindAccess b, bindTarget b)) (svcBinds p) @
     (case svcRuntime p of None \<Rightarrow> [] | Some a \<Rightarrow> [(ssRuntime s, runtime, assetAccess a, assetTarget a)])"

definition service_namespace_args :: "service_plan \<Rightarrow> string list" where
  "service_namespace_args p =
     namespaceArgs (idHostUID (svcIdentity p)) (idHostGID (svcIdentity p)) @
     (if svcNetwork p = NetworkPrivate then [''--unshare-net''] else []) @ [''--cap-drop'', ''ALL'']"

definition RenderBackgroundService ::
  "'f kernel \<Rightarrow> 'f memfd \<Rightarrow> service_plan \<Rightarrow> 'f service_sources \<Rightarrow> render_error + 'f invocation"
where
  "RenderBackgroundService k mfd plan s =
     require (map_error RenderSources (validateBackgroundServiceSourceCardinality plan s))
    (let p = BackgroundService_Canonical plan in
     require (map_error RenderPlan (BackgroundService_Validate p))
    (require (map_error RenderSources (validateBackgroundServiceSources k p s))
    (attempt (retain k (ssRootFS s) ''background-service rootfs'' (new_invocation ExecutionNonInteractive)) (\<lambda>(rootFD, i).
     attempt (retain k (ssUpper s) ''background-service overlay upper'' i) (\<lambda>(upperFD, i).
     attempt (retain k (ssWork s) ''background-service overlay work'' i) (\<lambda>(workFD, i).
       (let args = appendOverlayFDRegistrations (service_namespace_args p @ overlay_args rootFD upperFD workFD) [rootFD, upperFD, workFD] @
                   [''--proc'', ''/proc'', ''--dev'', ''/dev'', ''--tmpfs'', ''/tmp'', ''--tmpfs'', ''/run'', ''--dir'', layout_Runtime,
                    ''--chmod'', ''0700'', layout_Runtime]
        in attempt (retain_binds k (service_binds ''background-service bind '' ''background-service runtime'' p s) (args, i)) (\<lambda>(args, i).
             setConfidentialOptions mfd
               (args @ [''--remount-ro'', ''/''] @ environment_args ''/tmp'' (svcEnvironment p) @ [''--chdir'', svcWorkdir p])
               (svcCommand p) i))))))))"

definition RenderSidecar ::
  "'f kernel \<Rightarrow> 'f memfd \<Rightarrow> ((string \<times> 'f option) list \<Rightarrow> (string \<times> 'f option) list) \<Rightarrow>
    service_plan \<Rightarrow> 'f service_sources \<Rightarrow> render_error + 'f invocation"
where
  "RenderSidecar k mfd iterate plan s =
    (let p = Sidecar_Canonical plan in
     require (map_error RenderPlan (Sidecar_Validate p))
    (require (map_error RenderSources (validateSidecarSources k iterate p s))
    (attempt (retain k (ssRootFS s) ''sidecar rootfs'' (new_invocation ExecutionNonInteractive)) (\<lambda>(rootFD, i).
     attempt (retain k (ssUpper s) ''sidecar overlay upper'' i) (\<lambda>(upperFD, i).
     attempt (retain k (ssWork s) ''sidecar overlay work'' i) (\<lambda>(workFD, i).
       (let args = appendOverlayFDRegistrations (service_namespace_args p @ overlay_args rootFD upperFD workFD) [rootFD, upperFD, workFD] @
                   [''--proc'', ''/proc'', ''--dev'', ''/dev'', ''--tmpfs'', ''/tmp'', ''--dir'', ''/run'', ''--dir'', layout_Runtime,
                    ''--chmod'', ''0700'', layout_Runtime]
        in attempt (retain_binds k (service_binds ''sidecar bind '' ''sidecar runtime directory'' p s) (args, i)) (\<lambda>(args, i).
             setConfidentialOptions mfd
               (args @ environment_args ''/tmp'' (svcEnvironment p) @ [''--chdir'', svcWorkdir p])
               (svcCommand p) i))))))))"

end
