(* ===== verification/Bwrap_Service_Properties.thy ===== *)
theory Bwrap_Service_Properties
  imports Bwrap_Service
begin

text \<open>
  Properties of agent-owned processes: an accepted service plan confines what the process can
  reach, and the options of a rendered service are passed only in the sealed file, which
  decodes to exactly the rendered arguments.
\<close>

section \<open>Accepted plans\<close>

lemma Dir_valid:
  assumes "valid_path s" "Base s \<noteq> ''/''"
  shows "valid_path (Dir s)" "elements s = elements (Dir s) @ [Base s]"
proof -
  have "s \<noteq> ''/''" using assms(2) by (auto simp: Base_def)
  then have "elements s \<noteq> []" using valid_path_elements(2) [OF assms(1)] by (auto simp: abs_path_def)
  then obtain us u where u: "elements s = us @ [u]" by (meson rev_exhaust)
  then have s: "s = abs_path (us @ [u])" "good_elements us" "good_element u"
    using valid_path_elements [OF assms(1)] by auto
  have d: "Dir s = abs_path us" using Dir_abs_path [OF s(2,3)] s(1) by simp
  have "set (abs_path us) \<subseteq> insert slash (set (abs_path (us @ [u])))"
    by (cases "us = []") (auto simp: abs_path_def join_slash_append)
  then have "NUL \<notin> set (abs_path us)" using assms(1) s(1) by (auto simp: valid_path_def)
  then show v: "valid_path (Dir s)" unfolding d using s(2) by (simp add: valid_path_def Clean_abs_path)
  show "elements s = elements (Dir s) @ [Base s]"
    using u d elements_abs_path [OF s(2)] Base_abs_path [OF s(3), of us] s(1) by simp
qed

lemma generatedRunID_good: "generatedRunIDPattern s \<Longrightarrow> good_element s"
proof -
  assume g: "generatedRunIDPattern s"
  then obtain t where t: "s = ''run-'' @ t" by (auto simp: generatedRunIDPattern_def prefix_def)
  have "\<not> ascii_lower_hex slash" by (simp add: ascii_lower_hex_def ascii_digit_def less_eq_char_def)
  then have "slash \<notin> set t" using g t by (auto simp: generatedRunIDPattern_def list_all_iff)
  with t show ?thesis by (simp add: good_element_def)
qed

lemma Join_good:
  assumes "valid_path s" "good_element w" shows "elements (Join s w) = elements s @ [w]"
  using Join_abs_path [OF valid_path_elements(1) [OF assms(1)] assms(2)] valid_path_elements [OF assms(1)]
    elements_abs_path [of "elements s @ [w]"] assms(2) by simp

definition service_accepted :: "service_plan \<Rightarrow> bool" where
  "service_accepted p \<longleftrightarrow> BackgroundService_Validate p = None \<or> Sidecar_Validate p = None"

definition service_targets :: "service_plan \<Rightarrow> string list" where
  "service_targets p =
     map bindTarget (svcBinds p) @ (case svcRuntime p of None \<Rightarrow> [] | Some a \<Rightarrow> [assetTarget a])"

definition service_paths :: "service_plan \<Rightarrow> string list" where
  "service_paths p =
     rootPath (svcRootFS p) # map bindHostPath (svcBinds p) @ (case svcRuntime p of None \<Rightarrow> [] | Some a \<Rightarrow> [assetHostPath a])"

lemma numbered_paths: "map claimPath (numbered l f i xs) = map f xs"
proof -
  have "map claimPath (numbered l f i xs) = map f (map snd (enumerate 0 xs))"
    unfolding numbered_def by (simp add: split_beta' del: map_snd_enumerate)
  then show ?thesis by simp
qed

lemma service_claims_paths: "map claimPath (service_claims kind p) = service_paths p"
  by (simp add: service_claims_def service_paths_def numbered_paths split: option.splits)

lemma host_graph_service:
  assumes "validate_service_host_graph kind p = None"
  shows "sorted_wrt (\<lambda>a b. \<not> hostPathsOverlap a b) (service_paths p)"
    "\<forall>h \<in> set (rootPath (svcRootFS p) # map bindHostPath (svcBinds p)). \<not> hostPathsOverlap (Dir (ovUpper (svcOverlay p))) h"
    "\<forall>a. svcRuntime p = Some a \<longrightarrow> assetHostPath a = Join (Dir (ovUpper (svcOverlay p))) ''runtime''"
proof -
  let ?root = "Dir (ovUpper (svcOverlay p))" and ?cs = "service_claims kind p"
  have "each_earlier (\<lambda>earlier c.
        and_then (fail_if (claimLabel c \<noteq> kind @ '' runtime directory'' \<and> hostPathsOverlap ?root (claimPath c))
                    (HostInvalid (OverlapsHost ''overlay root'' ?root (claimLabel c) (claimPath c))))
                 (each (\<lambda>other. fail_if (hostPathsOverlap (claimPath c) (claimPath other))
                          (HostInvalid (OverlapsHost (claimLabel c) (claimPath c) (claimLabel other) (claimPath other)))) earlier))
        [] ?cs = None \<longleftrightarrow>
      (\<forall>c \<in> set ?cs. \<not> (claimLabel c \<noteq> kind @ '' runtime directory'' \<and> hostPathsOverlap ?root (claimPath c))) \<and>
      sorted_wrt (\<lambda>a b. \<not> hostPathsOverlap (claimPath b) (claimPath a)) ?cs"
    by (rule each_earlier_pairwise) (auto simp: verdict_simps)
  then have c: "\<forall>c \<in> set ?cs. \<not> (claimLabel c \<noteq> kind @ '' runtime directory'' \<and> hostPathsOverlap ?root (claimPath c))"
    "sorted_wrt (\<lambda>a b. \<not> hostPathsOverlap (claimPath b) (claimPath a)) ?cs"
    using assms by (simp_all add: validate_service_host_graph_def Let_def and_then_None)
  have "sorted_wrt (\<lambda>a b. \<not> hostPathsOverlap a b) (map claimPath ?cs)"
    using c(2) by (simp add: sorted_wrt_map hostPathsOverlap_sym)
  then show "sorted_wrt (\<lambda>a b. \<not> hostPathsOverlap a b) (service_paths p)" by (simp add: service_claims_paths)
  have "\<forall>c \<in> set (numbered (kind @ '' bind'') bindHostPath False (svcBinds p)). \<not> hostPathsOverlap ?root (claimPath c)"
  proof
    fix c' assume c': "c' \<in> set (numbered (kind @ '' bind'') bindHostPath False (svcBinds p))"
    then obtain t where "claimLabel c' = (kind @ '' bind'') @ '' '' @ t" using numbered_label by blast
    moreover have "c' \<in> set ?cs" using c' by (simp add: service_claims_def)
    ultimately show "\<not> hostPathsOverlap ?root (claimPath c')" using c(1) by auto
  qed
  then show "\<forall>h \<in> set (rootPath (svcRootFS p) # map bindHostPath (svcBinds p)). \<not> hostPathsOverlap ?root h"
    using c(1) numbered_all [of "kind @ '' bind''" bindHostPath False "svcBinds p" "\<lambda>h _. \<not> hostPathsOverlap ?root h"]
    by (auto simp: service_claims_def)
  show "\<forall>a. svcRuntime p = Some a \<longrightarrow> assetHostPath a = Join ?root ''runtime''"
    using assms by (auto simp: validate_service_host_graph_def Let_def verdict_simps)
qed

definition service_bind_ok :: "mount_bind \<Rightarrow> bool" where
  "service_bind_ok b \<longleftrightarrow> bind_ok b \<and>
     (bindTarget b = BackgroundServiceAuthSocketTarget \<or> (\<forall>r \<in> set reserved_targets. \<not> TargetsOverlap (bindTarget b) r))"

lemma background_binds_None:
  "validateBackgroundServiceBinds bs = None \<longleftrightarrow>
     (\<forall>b \<in> set bs. service_bind_ok b \<and> \<not> bindOptional b \<and> bindAccess b = AccessReadOnly) \<and> sorted_wrt bind_pair bs"
  unfolding validateBackgroundServiceBinds_def
proof (rule each_earlier_pairwise, goal_cases)
  case (1 us x)
  show ?case
    by (auto simp: verdict_simps Bind_Validate_None service_bind_ok_def bind_ok_def bind_pair_def TargetsOverlap_sym)
qed

lemma sidecar_binds_None:
  "validateSidecarBinds bs rt = None \<longleftrightarrow>
     (\<forall>b \<in> set bs. bind_ok b \<and> (\<forall>r \<in> set reserved_targets. \<not> TargetsOverlap (bindTarget b) r)) \<and> sorted_wrt bind_pair bs \<and>
     (\<forall>a. rt = Some a \<longrightarrow> assetTarget a = layout_Runtime \<and> assetAccess a = AccessRegular \<and> valid_path (assetHostPath a))"
proof -
  have "each_earlier (\<lambda>earlier bind.
          and_then (map_error (ServiceBindError (length earlier) \<circ> MountInvalid) (Bind_Validate bind))
         (and_then (map_error (ServiceBindError (length earlier)) (validateHostPath ''sidecar bind'' (bindHostPath bind)))
         (and_then (each (\<lambda>reserved. fail_if (TargetsOverlap (bindTarget bind) reserved)
                            (TargetInvalid (OverlapsReserved (bindTarget bind) reserved))) reserved_targets)
                   (each (\<lambda>other. fail_if (TargetsOverlap (bindTarget bind) (bindTarget other))
                            (TargetInvalid (TargetsOverlapping (bindTarget other) (bindTarget bind)))) earlier)))) [] bs = None \<longleftrightarrow>
      (\<forall>b \<in> set bs. bind_ok b \<and> (\<forall>r \<in> set reserved_targets. \<not> TargetsOverlap (bindTarget b) r)) \<and> sorted_wrt bind_pair bs"
    by (rule each_earlier_pairwise) (auto simp: verdict_simps Bind_Validate_None bind_ok_def bind_pair_def TargetsOverlap_sym)
  then show ?thesis
    by (auto simp: validateSidecarBinds_def verdict_simps split: option.splits)
qed

lemma service_facts:
  assumes "service_accepted p"
  shows "valid_path (rootPath (svcRootFS p))" "valid_path (ovRunStorageDir (svcOverlay p))" "valid_path (ovUpper (svcOverlay p))"
    "valid_path (ovWork (svcOverlay p))" "good_element (svcID p)"
    "Dir (ovUpper (svcOverlay p)) = Join (ovRunStorageDir (svcOverlay p)) (svcID p)"
    "Dir (ovWork (svcOverlay p)) = Join (ovRunStorageDir (svcOverlay p)) (svcID p)"
    "Base (ovUpper (svcOverlay p)) = ''upper''" "Base (ovWork (svcOverlay p)) = ''work''"
    "\<forall>b \<in> set (svcBinds p). service_bind_ok b" "sorted_wrt bind_pair (svcBinds p)"
    "\<And>a. svcRuntime p = Some a \<Longrightarrow>
       assetTarget a \<in> {BackgroundServiceRuntimeTarget, layout_Runtime} \<and> assetAccess a = AccessRegular \<and> valid_path (assetHostPath a)"
    "validate_service_host_graph ''background-service'' p = None \<or> validate_service_host_graph ''sidecar'' p = None"
    "\<And>a b. svcRuntime p = Some a \<Longrightarrow> b \<in> set (svcBinds p) \<Longrightarrow> assetTarget a = layout_Runtime \<Longrightarrow>
       \<forall>r \<in> set reserved_targets. \<not> TargetsOverlap (bindTarget b) r"
proof -
  have neq: "BackgroundServiceRuntimeTarget \<noteq> layout_Runtime"
    by (simp add: BackgroundServiceRuntimeTarget_def layout_Runtime_def)
  consider (bg) "BackgroundService_Validate p = None" | (sc) "Sidecar_Validate p = None"
    using assms by (auto simp: service_accepted_def)
  then have all: "valid_path (rootPath (svcRootFS p)) \<and> valid_path (ovRunStorageDir (svcOverlay p)) \<and>
      valid_path (ovUpper (svcOverlay p)) \<and> valid_path (ovWork (svcOverlay p)) \<and> good_element (svcID p) \<and>
      Dir (ovUpper (svcOverlay p)) = Join (ovRunStorageDir (svcOverlay p)) (svcID p) \<and>
      Dir (ovWork (svcOverlay p)) = Join (ovRunStorageDir (svcOverlay p)) (svcID p) \<and>
      Base (ovUpper (svcOverlay p)) = ''upper'' \<and> Base (ovWork (svcOverlay p)) = ''work'' \<and>
      (\<forall>b \<in> set (svcBinds p). service_bind_ok b) \<and> sorted_wrt bind_pair (svcBinds p) \<and>
      (\<forall>a. svcRuntime p = Some a \<longrightarrow> assetTarget a \<in> {BackgroundServiceRuntimeTarget, layout_Runtime} \<and>
         assetAccess a = AccessRegular \<and> valid_path (assetHostPath a)) \<and>
      (validate_service_host_graph ''background-service'' p = None \<or> validate_service_host_graph ''sidecar'' p = None) \<and>
      (\<forall>a b. svcRuntime p = Some a \<longrightarrow> b \<in> set (svcBinds p) \<longrightarrow> assetTarget a = layout_Runtime \<longrightarrow>
         (\<forall>r \<in> set reserved_targets. \<not> TargetsOverlap (bindTarget b) r))"
  proof cases
    case bg
    then have b: "valid_path (rootPath (svcRootFS p))" "valid_path (ovRunStorageDir (svcOverlay p))" "valid_path (ovUpper (svcOverlay p))"
        "valid_path (ovWork (svcOverlay p))" "idPattern (svcID p)" "validateBackgroundServiceOverlay p = None"
        "validateBackgroundServiceBinds (svcBinds p) = None" "validateBackgroundServiceRuntime (svcRuntime p) = None"
        "validate_service_host_graph ''background-service'' p = None"
      unfolding BackgroundService_Validate_def validateBackgroundServiceHostGraph_def verdict_simps
      by (auto simp: validate_paths)
    have rt: "\<forall>a. svcRuntime p = Some a \<longrightarrow> assetTarget a = BackgroundServiceRuntimeTarget \<and>
        assetAccess a = AccessRegular \<and> valid_path (assetHostPath a)"
      using b(8) by (auto simp: validateBackgroundServiceRuntime_def verdict_simps)
    show ?thesis
      using b rt neq idPattern_good [OF b(5)] b(6,7) unfolding background_binds_None validateBackgroundServiceOverlay_def Let_def verdict_simps
      by auto
  next
    case sc
    then have b: "valid_path (rootPath (svcRootFS p))" "valid_path (ovRunStorageDir (svcOverlay p))" "valid_path (ovUpper (svcOverlay p))"
        "valid_path (ovWork (svcOverlay p))" "generatedRunIDPattern (svcID p)" "validateSidecarOverlay p = None"
        "validateSidecarBinds (svcBinds p) (svcRuntime p) = None" "validate_service_host_graph ''sidecar'' p = None"
      unfolding Sidecar_Validate_def validateSidecarHostGraph_def verdict_simps by (auto simp: validate_paths)
    show ?thesis
      using b generatedRunID_good [OF b(5)] b(6,7) unfolding sidecar_binds_None validateSidecarOverlay_def Let_def verdict_simps
      by (auto simp: service_bind_ok_def)
  qed
  show "valid_path (rootPath (svcRootFS p))" "valid_path (ovRunStorageDir (svcOverlay p))" "valid_path (ovUpper (svcOverlay p))"
    "valid_path (ovWork (svcOverlay p))" "good_element (svcID p)"
    "Dir (ovUpper (svcOverlay p)) = Join (ovRunStorageDir (svcOverlay p)) (svcID p)"
    "Dir (ovWork (svcOverlay p)) = Join (ovRunStorageDir (svcOverlay p)) (svcID p)"
    "Base (ovUpper (svcOverlay p)) = ''upper''" "Base (ovWork (svcOverlay p)) = ''work''"
    "\<forall>b \<in> set (svcBinds p). service_bind_ok b" "sorted_wrt bind_pair (svcBinds p)"
    "\<And>a. svcRuntime p = Some a \<Longrightarrow>
       assetTarget a \<in> {BackgroundServiceRuntimeTarget, layout_Runtime} \<and> assetAccess a = AccessRegular \<and> valid_path (assetHostPath a)"
    "validate_service_host_graph ''background-service'' p = None \<or> validate_service_host_graph ''sidecar'' p = None"
    "\<And>a b. svcRuntime p = Some a \<Longrightarrow> b \<in> set (svcBinds p) \<Longrightarrow> assetTarget a = layout_Runtime \<Longrightarrow>
       \<forall>r \<in> set reserved_targets. \<not> TargetsOverlap (bindTarget b) r"
    using all by simp_all
qed

lemma service_targets_ok:
  assumes "service_accepted p"
  shows "sorted_wrt apart (service_targets p)"
    "list_all (\<lambda>b. bindTarget b = BackgroundServiceAuthSocketTarget \<or>
        list_all (\<lambda>r. apart (bindTarget b) r) reserved_targets) (svcBinds p)"
proof -
  note F = service_facts [OF assms]
  have path: "valid_path (bindTarget b)" if "b \<in> set (svcBinds p)" for b
    using F(10) that by (auto simp: service_bind_ok_def bind_ok_def)
  have res: "valid_path r" if "r \<in> set reserved_targets" for r
    using that by (auto simp: reserved_targets_def valid_path_def Clean_def IsAbs_def)
  have "sorted_wrt (\<lambda>a b. apart (bindTarget a) (bindTarget b)) (svcBinds p)"
    by (rule sorted_wrt_mono_on [OF F(11)]) (auto simp: bind_pair_def TargetsOverlap_elements path)
  then have binds: "sorted_wrt apart (map bindTarget (svcBinds p))" by (simp add: sorted_wrt_map)
  have run: "\<forall>r \<in> set reserved_targets. \<not> TargetsOverlap t r \<Longrightarrow> valid_path t \<Longrightarrow> apart t ''/run''" for t
    using res [of "''/run''"] by (auto simp: reserved_targets_def TargetsOverlap_elements)
  have e: "elements ''/run'' = [''run'']" "elements BackgroundServiceRuntimeTarget = [''run'', ''toby'', ''service'']"
    "elements BackgroundServiceAuthSocketTarget = [''run'', ''toby'', ''auth.sock'']"
    by (simp_all add: elements_def BackgroundServiceRuntimeTarget_def BackgroundServiceAuthSocketTarget_def layout_Runtime_def)
  have "apart (bindTarget b) (assetTarget a)" if a: "svcRuntime p = Some a" and b: "b \<in> set (svcBinds p)" for a b
  proof (cases "bindTarget b = BackgroundServiceAuthSocketTarget \<and> assetTarget a \<noteq> layout_Runtime")
    case True
    then show ?thesis using F(12) [OF a] e by (auto simp: parallel_def)
  next
    case False
    then have "\<forall>r \<in> set reserved_targets. \<not> TargetsOverlap (bindTarget b) r"
      using F(10,14) a b by (auto simp: service_bind_ok_def)
    then have "parallel (elements (bindTarget b)) [''run'']" using run [OF _ path [OF b]] e(1) by simp
    moreover have "prefix [''run''] (elements (assetTarget a))" using F(12) [OF a] e by auto
    ultimately show ?thesis by (rule apart_extend)
  qed
  then show "sorted_wrt apart (service_targets p)"
    using binds by (auto simp: service_targets_def sorted_wrt_append split: option.splits)
  show "list_all (\<lambda>b. bindTarget b = BackgroundServiceAuthSocketTarget \<or>
        list_all (\<lambda>r. apart (bindTarget b) r) reserved_targets) (svcBinds p)"
    using F(10) path res by (auto simp: list_all_iff service_bind_ok_def TargetsOverlap_elements)
qed

lemma service_hosts_ok:
  assumes "service_accepted p"
  shows "elements (ovUpper (svcOverlay p)) = elements (ovRunStorageDir (svcOverlay p)) @ [svcID p, ''upper'']"
    "elements (ovWork (svcOverlay p)) = elements (ovRunStorageDir (svcOverlay p)) @ [svcID p, ''work'']"
    "sorted_wrt apart (service_paths p)"
    "list_all (\<lambda>h. apart (ovUpper (svcOverlay p)) h \<and> apart (ovWork (svcOverlay p)) h) (service_paths p)"
proof -
  note F = service_facts [OF assms]
  have up: "valid_path (Dir (ovUpper (svcOverlay p)))" "elements (ovUpper (svcOverlay p)) = elements (Dir (ovUpper (svcOverlay p))) @ [''upper'']"
    using Dir_valid [OF F(3)] F(8) by simp_all
  have wk: "elements (ovWork (svcOverlay p)) = elements (Dir (ovUpper (svcOverlay p))) @ [''work'']"
    using Dir_valid(2) [OF F(4)] F(6,7,9) by simp
  have run: "elements (Dir (ovUpper (svcOverlay p))) = elements (ovRunStorageDir (svcOverlay p)) @ [svcID p]"
    using Join_good [OF F(2,5)] F(6) by simp
  show "elements (ovUpper (svcOverlay p)) = elements (ovRunStorageDir (svcOverlay p)) @ [svcID p, ''upper'']"
    "elements (ovWork (svcOverlay p)) = elements (ovRunStorageDir (svcOverlay p)) @ [svcID p, ''work'']"
    using up(2) wk run by simp_all
  obtain kind where kind: "validate_service_host_graph kind p = None" using F(13) by blast
  note G = host_graph_service [OF kind]
  have path: "valid_path h" if "h \<in> set (service_paths p)" for h
    using that F(1,10,12) by (auto simp: service_paths_def service_bind_ok_def bind_ok_def split: option.splits)
  show "sorted_wrt apart (service_paths p)"
    by (rule sorted_wrt_mono_on [OF G(1)]) (auto simp: hostPathsOverlap_elements path)
  have "apart (ovUpper (svcOverlay p)) h \<and> apart (ovWork (svcOverlay p)) h" if h: "h \<in> set (service_paths p)" for h
  proof (cases "h \<in> set (rootPath (svcRootFS p) # map bindHostPath (svcBinds p))")
    case True
    then have "apart (Dir (ovUpper (svcOverlay p))) h" using G(2) up(1) path [OF h] by (auto simp: hostPathsOverlap_elements)
    then show ?thesis unfolding up(2) wk by (simp add: apart_below)
  next
    case False
    then obtain a where "svcRuntime p = Some a" "h = assetHostPath a"
      using h by (cases "svcRuntime p") (auto simp: service_paths_def)
    then have "elements h = elements (Dir (ovUpper (svcOverlay p))) @ [''runtime'']"
      using G(3) Join_good [OF up(1), of "''runtime''"] by (simp add: good_element_def)
    then show ?thesis unfolding up(2) wk by (simp add: parallel_def)
  qed
  then show "list_all (\<lambda>h. apart (ovUpper (svcOverlay p)) h \<and> apart (ovWork (svcOverlay p)) h) (service_paths p)"
    by (simp add: list_all_iff)
qed

section \<open>Confidential arguments\<close>

lemma encode_loop_Inr:
  "encode_loop n payload args = Inr out \<Longrightarrow> length payload \<le> maxConfidentialArgumentPayloadSize \<Longrightarrow>
     out = payload @ concat (map (\<lambda>a. a @ [NUL]) args) \<and> list_all (\<lambda>a. NUL \<notin> set a) args \<and>
     length out \<le> maxConfidentialArgumentPayloadSize"
proof (induction n payload args rule: encode_loop.induct)
  case (2 n payload a rest)
  then have "encode_loop (Suc n) (payload @ a @ [NUL]) rest = Inr out" "NUL \<notin> set a"
    "length (payload @ a @ [NUL]) \<le> maxConfidentialArgumentPayloadSize"
    by (auto simp: verdict_simps)
  then show ?case using 2 by (auto simp: verdict_simps)
qed auto

lemma decode_loop_word: "NUL \<notin> set a \<Longrightarrow> decode_loop cur (a @ NUL # rest) = (cur @ a) # decode_loop [] rest"
  by (induction a arbitrary: cur) auto

lemma decode_encode: "list_all (\<lambda>a. NUL \<notin> set a) args \<Longrightarrow> decode_loop [] (concat (map (\<lambda>a. a @ [NUL]) args)) = args"
  by (induction args) (auto simp: decode_loop_word)

lemma count_terminators: "list_all (\<lambda>a. NUL \<notin> set a) args \<Longrightarrow>
    length (filter (\<lambda>c. c = NUL) (concat (map (\<lambda>a. a @ [NUL]) args))) = length args"
  by (induction args) (auto simp: filter_empty_conv)

lemma last_terminator: "args \<noteq> [] \<Longrightarrow> last (concat (map (\<lambda>a. a @ [NUL]) args)) = NUL"
  by (induction args) auto

lemma encode_payload:
  assumes "encodeConfidentialArguments args = Inr payload"
  shows "validateConfidentialArgumentPayload payload = None" "decodeConfidentialArguments payload = Inr args"
    "length payload \<le> maxConfidentialArgumentPayloadSize"
proof -
  have a: "args \<noteq> []" "length args \<le> maxConfidentialArgumentCount" "encode_loop 0 [] args = Inr payload"
    using assms by (auto simp: encodeConfidentialArguments_def verdict_simps)
  note e = encode_loop_Inr [OF a(3), simplified]
  have "payload \<noteq> []" using e a(1) by (cases args) auto
  then show v: "validateConfidentialArgumentPayload payload = None"
    unfolding validateConfidentialArgumentPayload_def verdict_simps
    using e a last_terminator [OF a(1)] count_terminators [of args] by auto
  show "decodeConfidentialArguments payload = Inr args"
    unfolding decodeConfidentialArguments_def v using e decode_encode by simp
  show "length payload \<le> maxConfidentialArgumentPayloadSize" using e by blast
qed

lemma encode_loop_succeeds:
  "list_all (\<lambda>a. NUL \<notin> set a) args \<Longrightarrow>
   length payload + sum_list (map (\<lambda>a. length a + 1) args) \<le> maxConfidentialArgumentPayloadSize \<Longrightarrow>
   \<exists>out. encode_loop n payload args = Inr out"
  by (induction n payload args rule: encode_loop.induct) (auto simp: fail_if_def)

lemma setConfidentialOptions_succeeds:
  assumes "invArgs i = []" "\<not> invConfidential i" "cmd \<noteq> []" "hd cmd \<noteq> ''''" "list_all (\<lambda>a. NUL \<notin> set a) cmd"
    "options \<noteq> []" "list_all (\<lambda>a. NUL \<notin> set a \<and> a \<noteq> ''--'') options"
    "length options + length cmd + 1 \<le> maxConfidentialArgumentCount"
    "sum_list (map (\<lambda>a. length a + 1) options) \<le> maxConfidentialArgumentPayloadSize"
    "\<And>payload. seal mfd payload \<noteq> None"
  shows "\<exists>j. setConfidentialOptions mfd options cmd i = Inr j"
proof -
  obtain payload where "encode_loop 0 [] options = Inr payload"
    using encode_loop_succeeds [of options "[]" 0] assms(7,9) by (auto simp: list_all_iff)
  then have e: "encodeConfidentialArguments options = Inr payload"
    using assms(6,8) by (simp add: encodeConfidentialArguments_def fail_if_def)
  then obtain f where "createConfidentialArgumentFile mfd payload = Inr f"
    using encode_payload(1) [OF e] assms(10) [of payload] by (auto simp: createConfidentialArgumentFile_def)
  moreover have "each (\<lambda>(index, argument). fail_if ((index = 0 \<and> argument = '''') \<or> NUL \<in> set argument) (PublicArgument index))
      (enumerate 0 cmd) = None"
    using assms(3,4,5) by (auto simp: verdict_simps list_all_iff in_set_enumerate_eq hd_conv_nth)
  moreover have "each (\<lambda>option. fail_if (option = ''--'') OptionSeparator) options = None"
    using assms(7) by (auto simp: verdict_simps list_all_iff)
  ultimately show ?thesis
    using e assms(1,2,3,8) by (simp add: setConfidentialOptions_def setConfidentialArgumentsWithTail_def fail_if_def Let_def)
qed

section \<open>Properties\<close>

text \<open>
  What an accepted background service or sidecar can reach: its mount targets lie in pairwise
  disjoint subtrees and, apart from the authorization socket, outside \<open>/proc\<close>, \<open>/dev\<close>, \<open>/tmp\<close> and
  \<open>/run\<close>; its overlay is the pair \<open>upper\<close> and \<open>work\<close> in the directory of its own run, disjoint from
  every host path it mounts, and those host paths are disjoint from each other. For a
  background service every bind is read-only and mandatory.
\<close>

theorem service_confined:
  assumes "service_accepted p"
  shows "sorted_wrt (\<lambda>a b. parallel (elements a) (elements b)) (service_targets p) \<and>
    list_all (\<lambda>b. bindTarget b = BackgroundServiceAuthSocketTarget \<or>
        list_all (\<lambda>r. parallel (elements (bindTarget b)) (elements r)) reserved_targets) (svcBinds p) \<and>
    elements (ovUpper (svcOverlay p)) = elements (ovRunStorageDir (svcOverlay p)) @ [svcID p, ''upper''] \<and>
    elements (ovWork (svcOverlay p)) = elements (ovRunStorageDir (svcOverlay p)) @ [svcID p, ''work''] \<and>
    list_all (\<lambda>h. parallel (elements (ovUpper (svcOverlay p))) (elements h) \<and>
                  parallel (elements (ovWork (svcOverlay p))) (elements h)) (service_paths p) \<and>
    sorted_wrt (\<lambda>a b. parallel (elements a) (elements b)) (service_paths p) \<and>
    (if BackgroundService_Validate p = None
     then list_all (\<lambda>b. bindAccess b = AccessReadOnly \<and> \<not> bindOptional b) (svcBinds p) else True)"
proof -
  have "list_all (\<lambda>b. bindAccess b = AccessReadOnly \<and> \<not> bindOptional b) (svcBinds p)" if "BackgroundService_Validate p = None"
    using that unfolding BackgroundService_Validate_def verdict_simps background_binds_None by (auto simp: list_all_iff)
  then show ?thesis using service_targets_ok [OF assms] service_hosts_ok [OF assms] by simp
qed

lemma confidential_options:
  assumes set: "setConfidentialOptions mfd options cmd i = Inr j"
    and mfd: "\<And>payload f. seal mfd payload = Some f \<Longrightarrow> unseal mfd f = Some payload"
  shows "invArgs j = [''--args'', Itoa (int (3 + length (invExtraFiles i))), ''--''] @ cmd \<and>
    invocationArguments mfd j = Inr (options @ ''--'' # cmd) \<and>
    (\<exists>f payload. invExtraFiles j = invExtraFiles i @ [f] \<and> seal mfd payload = Some f \<and> length payload \<le> 2 ^ 20)"
proof -
  obtain payload f where p: "cmd \<noteq> []" "hd cmd \<noteq> ''''"
      "encodeConfidentialArguments options = Inr payload" "createConfidentialArgumentFile mfd payload = Inr f"
      "j = i\<lparr>invExtraFiles := invExtraFiles i @ [f],
             invArgs := [''--args'', Itoa (int (3 + length (invExtraFiles i)))] @ ''--'' # cmd,
             invConfidential := True, invConfidentialIndex := length (invExtraFiles i)\<rparr>"
    using set by (cases cmd) (auto simp: setConfidentialOptions_def setConfidentialArgumentsWithTail_def verdict_simps Let_def childExtraFileBaseFD_def)
  note e = encode_payload [OF p(3)]
  have f: "seal mfd payload = Some f"
    using p(4) by (auto simp: createConfidentialArgumentFile_def verdict_simps split: option.splits)
  have "readConfidentialArgumentFile mfd f = Inr payload"
    using mfd [OF f] e(1) by (simp add: readConfidentialArgumentFile_def)
  moreover obtain c cs where "cmd = c # cs" "c \<noteq> ''''" using p(1,2) by (cases cmd) auto
  then have "validateConfidentialArgumentReference j = None"
    unfolding p(5) by (simp add: validateConfidentialArgumentReference_def childExtraFileBaseFD_def verdict_simps)
  ultimately have "invocationArguments mfd j = Inr (options @ ''--'' # cmd)"
    unfolding invocationArguments_def using e(2) p(5) by simp
  then show ?thesis using p(5) f e(3) by (auto simp: maxConfidentialArgumentPayloadSize_def)
qed

definition sidecar_options :: "service_plan \<Rightarrow> 'f service_sources \<Rightarrow> string list" where
  "sidecar_options p s =
     service_namespace_args p @ overlay_args 3 4 5 @
     concat (map (\<lambda>fd. [''--ro-bind-fd'', Itoa (int fd), ''/dev'']) [3, 4, 5 :: nat]) @
     [''--proc'', ''/proc'', ''--dev'', ''/dev'', ''--tmpfs'', ''/tmp'', ''--dir'', ''/run'', ''--dir'', layout_Runtime,
      ''--chmod'', ''0700'', layout_Runtime] @
     mount_args 6 (service_binds ''sidecar bind '' ''sidecar runtime directory'' p s) @
     environment_args ''/tmp'' (svcEnvironment p) @ [''--chdir'', svcWorkdir p]"

definition background_options :: "service_plan \<Rightarrow> 'f service_sources \<Rightarrow> string list" where
  "background_options p s =
     service_namespace_args p @ overlay_args 3 4 5 @
     concat (map (\<lambda>fd. [''--ro-bind-fd'', Itoa (int fd), ''/dev'']) [3, 4, 5 :: nat]) @
     [''--proc'', ''/proc'', ''--dev'', ''/dev'', ''--tmpfs'', ''/tmp'', ''--tmpfs'', ''/run'', ''--dir'', layout_Runtime,
      ''--chmod'', ''0700'', layout_Runtime] @
     mount_args 6 (service_binds ''background-service bind '' ''background-service runtime'' p s) @
     [''--remount-ro'', ''/''] @ environment_args ''/tmp'' (svcEnvironment p) @ [''--chdir'', svcWorkdir p]"

lemma RenderSidecar_Inr:
  assumes "RenderSidecar k mfd iterate plan s = Inr j"
  shows "\<exists>i. setConfidentialOptions mfd (sidecar_options (Sidecar_Canonical plan) s) (svcCommand plan) i = Inr j \<and>
     length (invExtraFiles i) = length (svcBinds plan) + (if svcRuntime plan = None then 3 else 4) \<and>
     Sidecar_Validate (Sidecar_Canonical plan) = None"
proof -
  have cmd: "svcCommand (Sidecar_Canonical plan) = svcCommand plan" "svcRuntime (Sidecar_Canonical plan) = svcRuntime plan"
    "length (svcBinds (Sidecar_Canonical plan)) = length (svcBinds plan)"
    by (simp_all add: Sidecar_Canonical_def)
  show ?thesis
    using assms unfolding RenderSidecar_def Let_def require_Inr map_error_None sidecar_options_def
    by (auto simp: attempt_Inr retain_Inr retain_binds_Inr new_invocation_def appendOverlayFDRegistrations_def cmd
        duplicates_def service_binds_def dest!: list_all2_lengthD split: option.splits)
qed

lemma RenderBackgroundService_Inr:
  assumes "RenderBackgroundService k mfd plan s = Inr j"
  shows "\<exists>i. setConfidentialOptions mfd (background_options (BackgroundService_Canonical plan) s) (svcCommand plan) i = Inr j \<and>
     length (invExtraFiles i) = length (svcBinds plan) + (if svcRuntime plan = None then 3 else 4) \<and>
     BackgroundService_Validate (BackgroundService_Canonical plan) = None"
proof -
  have cmd: "svcCommand (BackgroundService_Canonical plan) = svcCommand plan"
    "svcRuntime (BackgroundService_Canonical plan) = svcRuntime plan"
    "length (svcBinds (BackgroundService_Canonical plan)) = length (svcBinds plan)"
    by (simp_all add: BackgroundService_Canonical_def)
  show ?thesis
    using assms unfolding RenderBackgroundService_def Let_def require_Inr map_error_None background_options_def
    by (auto simp: attempt_Inr retain_Inr retain_binds_Inr new_invocation_def appendOverlayFDRegistrations_def cmd
        duplicates_def service_binds_def dest!: list_all2_lengthD split: option.splits)
qed

definition example_service :: service_plan where
  "example_service =
     \<lparr>svcID = ''b'', svcRootFS = \<lparr>rootDigest = ''sha256:'' @ replicate 64 (CHR ''a''), rootPath = ''/i''\<rparr>,
      svcOverlay = \<lparr>ovRunStorageDir = ''/s'', ovUpper = ''/s/b/upper'', ovWork = ''/s/b/work''\<rparr>,
      svcBinds = [\<lparr>bindHostPath = ''/e'', bindTarget = ''/etc/e'', bindAccess = ''read_only'', bindOptional = False\<rparr>,
        \<lparr>bindHostPath = ''/a'', bindTarget = ''/run/toby/auth.sock'', bindAccess = ''read_only'', bindOptional = False\<rparr>],
      svcRuntime = Some \<lparr>assetHostPath = ''/s/b/runtime'', assetTarget = ''/run/toby/service'', assetAccess = ''regular''\<rparr>,
      svcWorkdir = ''/'', svcEnvironment = [\<lparr>envName = ''A'', envValue = ''1''\<rparr>],
      svcIdentity = \<lparr>idHostUID = 1000, idHostGID = 1000\<rparr>, svcNetwork = ''private'', svcCommand = [''server'']\<rparr>"

lemma example_service_binds: "validateBackgroundServiceBinds (svcBinds example_service) = None"
  by (simp add: example_service_def background_binds_None service_bind_ok_def bind_ok_def bind_pair_def valid_path_def Clean_def
      IsAbs_def Access_Validate_def AccessReadOnly_def BackgroundServiceAuthSocketTarget_def layout_Runtime_def reserved_targets_def
      TargetsOverlap_def Let_def verdict_simps)

lemma example_service_hosts: "validateBackgroundServiceHostGraph example_service = None"
  by (simp add: example_service_def validateBackgroundServiceHostGraph_def validate_service_host_graph_def service_claims_def
      numbered_def hostPathsOverlap_def within_def pathIsWithin_def Rel_def Clean_def IsAbs_def Dir_def Join_def elements_def
      Let_def fail_if_def)

lemma example_service_accepted: "service_accepted example_service"
proof -
  have "list_all ascii_lower_hex (replicate 64 (CHR ''a''))"
    by (simp add: list_all_iff ascii_lower_hex_def less_eq_char_def)
  moreover have "idPattern ''b''" by (simp add: idPattern_def alnum_def ascii_letter_def less_eq_char_def)
  ultimately have "BackgroundService_Validate example_service = None"
    unfolding BackgroundService_Validate_def and_then_None example_service_binds example_service_hosts
    by (simp add: example_service_def service_descriptors_def maxBackgroundServiceSourceDescriptors_def digestPattern_def
        validateBackgroundServiceOverlay_def validateHostPath_def validateSandboxPath_def Clean_def IsAbs_def Dir_def Base_def
        Join_def Let_def fail_if_def NetworkPrivate_def validateEnvironment_None env_ok_def validateBackgroundServiceRuntime_def
        BackgroundServiceRuntimeTarget_def layout_Runtime_def AccessRegular_def)
  then show ?thesis by (simp add: service_accepted_def)
qed

theorem service_confined_witness:
  "service_accepted example_service \<and>
     sorted_wrt (\<lambda>a b. parallel (elements a) (elements b)) [''/etc/e'', ''/run/toby/auth.sock'', ''/run/toby/service'']"
  using service_confined [OF example_service_accepted] example_service_accepted
  by (simp add: service_targets_def example_service_def)

text \<open>
  C40. The options of a rendered background service or sidecar never appear in its argument
  vector: the vector is exactly the reference to the sealed file's descriptor and the public
  command. When sealed files read back what was written, the arguments Bubblewrap sees after
  expanding the reference are the options rendered from the accepted canonical plan followed by
  that command; the sealed payload is at most one mebibyte.
\<close>

theorem service_rendering_confidential:
  assumes render: "(RenderSidecar k mfd iterate plan s = Inr j \<and> options = sidecar_options (Sidecar_Canonical plan) s) \<or>
      (RenderBackgroundService k mfd plan s = Inr j \<and> options = background_options (BackgroundService_Canonical plan) s)"
    and mfd: "\<And>payload f. seal mfd payload = Some f \<Longrightarrow> unseal mfd f = Some payload"
  defines "n \<equiv> length (svcBinds plan) + (if svcRuntime plan = None then 3 else 4)"
  shows "invArgs j = [''--args'', Itoa (int (3 + n)), ''--''] @ svcCommand plan \<and>
    invocationArguments mfd j = Inr (options @ ''--'' # svcCommand plan) \<and>
    (\<exists>f payload. length (invExtraFiles j) = n + 1 \<and> last (invExtraFiles j) = f \<and> seal mfd payload = Some f \<and>
       length payload \<le> 2 ^ 20)"
proof -
  obtain i where i: "setConfidentialOptions mfd options (svcCommand plan) i = Inr j" "length (invExtraFiles i) = n"
    using render RenderSidecar_Inr [of k mfd iterate plan s j] RenderBackgroundService_Inr [of k mfd plan s j] n_def by blast
  show ?thesis using confidential_options [OF i(1) mfd] i(2) by auto
qed

section \<open>An example service\<close>

definition example_host :: "string kernel" where
  "example_host =
     \<lparr>fstat = (\<lambda>f. Some \<lparr>fiDev = 1, fiIno = of_nat (length f), fiKind = (if f = ''/a..'' then Socket else Directory), fiNlink = 1, fiSys = True\<rparr>),
      open_parent = (\<lambda>f. None), open_child = (\<lambda>f n. None), dup_fd = Some\<rparr>"

definition example_service_sources :: "string service_sources" where
  "example_service_sources =
     \<lparr>ssRootFS = Some '''', ssUpper = Some ''/'', ssWork = Some ''//'',
      ssBinds = [(''/etc/e'', Some ''/e.''), (''/run/toby/auth.sock'', Some ''/a..'')], ssRuntime = Some ''/s/b/''\<rparr>"

definition example_memfd :: "string memfd" where
  "example_memfd = \<lparr>seal = Some, unseal = Some\<rparr>"

lemma example_service_canonical: "BackgroundService_Canonical example_service = example_service"
  by (simp add: BackgroundService_Canonical_def example_service_def)

lemma example_service_sources_ok:
  "validateBackgroundServiceSources example_host example_service example_service_sources = None"
  by code_simp

lemma example_numbers: "Itoa 3 = ''3''" "Itoa 4 = ''4''" "Itoa 5 = ''5''" "Itoa 6 = ''6''" "Itoa 7 = ''7''" "Itoa 8 = ''8''"
  "Itoa 9 = ''9''" "Itoa 1000 = ''1000''"
  by code_simp+

lemma example_options:
  "list_all (\<lambda>a. NUL \<notin> set a \<and> a \<noteq> ''--'' \<and> length a < 40) (background_options example_service example_service_sources)"
  "length (background_options example_service example_service_sources) \<in> {1..<100}"
  by (simp_all add: background_options_def service_namespace_args_def namespaceArgs_def overlay_args_def childFDPath_def
      environment_args_def service_binds_def example_service_def example_service_sources_def lookup_file_def layout_Runtime_def
      example_numbers AccessReadOnly_def)

lemma example_service_rendered:
  "\<exists>j. RenderBackgroundService example_host example_memfd example_service example_service_sources = Inr j"
proof -
  let ?o = "background_options example_service example_service_sources"
  have "sum_list (map (\<lambda>a. length a + 1) ?o) \<le> sum_list (map (\<lambda>a. 40) ?o)"
    by (rule sum_list_mono) (use example_options(1) in \<open>auto simp: list_all_iff\<close>)
  then have size: "sum_list (map (\<lambda>a. length a + 1) ?o) \<le> 4000" using example_options(2) by (simp add: sum_list_triv)
  have opts: "\<exists>j. setConfidentialOptions example_memfd ?o [''server''] i = Inr j" if "invArgs i = []" "\<not> invConfidential i" for i
    by (rule setConfidentialOptions_succeeds)
      (use example_options size that in \<open>auto simp: list_all_iff example_memfd_def maxConfidentialArgumentPayloadSize_def
        maxConfidentialArgumentCount_def\<close>)
  have "validateBackgroundServiceSourceCardinality example_service example_service_sources = None"
    using example_service_sources_ok by (simp add: validateBackgroundServiceSources_def verdict_simps)
  moreover have "BackgroundService_Validate example_service = None"
    using example_service_accepted by (simp add: service_accepted_def Sidecar_Validate_def example_service_def generatedRunIDPattern_def fail_if_def)
  ultimately have "RenderBackgroundService example_host example_memfd example_service example_service_sources =
      setConfidentialOptions example_memfd ?o [''server'']
        ((new_invocation ExecutionNonInteractive)\<lparr>invExtraFiles := ['''', ''/'', ''//'', ''/e.'', ''/a..'', ''/s/b/'']\<rparr>)"
    using example_service_sources_ok
    by (simp add: RenderBackgroundService_def example_service_canonical Let_def background_options_def require_def map_error_def)
      (simp add: retain_def duplicateDescriptor_def example_host_def example_service_sources_def
        new_invocation_def service_binds_def example_service_def lookup_file_def appendFDBind_def appendOverlayFDRegistrations_def
        childExtraFileBaseFD_def AccessReadOnly_def)
  then show ?thesis using opts by (simp add: new_invocation_def)
qed

theorem service_rendering_confidential_witness:
  "\<exists>j. RenderBackgroundService example_host example_memfd example_service example_service_sources = Inr j \<and>
     invArgs j = [''--args'', ''9'', ''--'', ''server'']"
proof -
  obtain j where j: "RenderBackgroundService example_host example_memfd example_service example_service_sources = Inr j"
    using example_service_rendered by blast
  from service_rendering_confidential [OF disjI2, OF conjI [OF j refl]] have
    "invArgs j = [''--args'', Itoa 9, ''--''] @ svcCommand example_service"
    by (auto simp: example_memfd_def example_service_def)
  with j show ?thesis by (auto simp: example_numbers example_service_def)
qed

end
