(* ===== verification/HostAction.thy ===== *)
theory HostAction
  imports Approval Paths Go_Strings
begin

text \<open>
  \<open>internal/hostaction\<close>: the JSON-RPC envelope (\<open>rpc.go\<close>), the router (\<open>router.go\<close>), parameter
  decoding (\<open>decode.go\<close>), and the Git capability \<open>internal/hostaction/methods/git\<close> (\<open>contract.go\<close>,
  \<open>git.go\<close>, \<open>exec.go\<close>), which runs Git on the host for the sandbox after \<open>approval.Authorize\<close>.

  Three things are parameters. \<open>wire\<close> is \<open>encoding/json\<close> at the shapes used here, with \<open>None\<close> for
  an encoding or decoding error. \<open>host\<close> is what the operating system answers during one call: the
  descriptor behind a repository name, its kind, the capture files, and the outcome of the
  command. The clock and the random draws are those of \<open>Approval\<close>. An error response keeps the
  error value whose \<open>Error()\<close> text is its message.
\<close>

section \<open>Envelope\<close>

definition CodeInvalidRequest :: int where "CodeInvalidRequest = -32600"
definition CodeMethodNotFound :: int where "CodeMethodNotFound = -32601"
definition CodeInvalidParams :: int where "CodeInvalidParams = -32602"
definition CodeInternalError :: int where "CodeInternalError = -32603"
definition CodeProjectNotVisible :: int where "CodeProjectNotVisible = -32007"
definition CodePermissionDenied :: int where "CodePermissionDenied = -32008"
definition CodeApprovalRequired :: int where "CodeApprovalRequired = -32009"
definition CodeApprovalNotFound :: int where "CodeApprovalNotFound = -32010"

datatype errno = EINVAL | ENOSYS | ENOENT | EIO | EACCES | EAGAIN

datatype handler_error = Errno errno | ContextError | ErrMethodNotFound | BadRequest

datatype action_error =
    MissingParams
  | UnmarshalError
  | FieldRequired string
  | RebaseModes
  | NegativeTimeout
  | NotBound
  | NotConfigured
  | MethodNotFound string
  | InvalidRequest
  | EncodeError
  | NoResponse "handler_error option"
  | ErrnoError errno
  | ErrPermissionDenied approval_error
  | ErrProjectNotVisible
  | ApprovalFailed approval_error

record approval_required =
  ardApprovalID :: string
  ardName :: string
  ardMessage :: string

record git_result =
  grRepository :: string
  grExitCode :: int
  grStdout :: string
  grStderr :: string

record pending_approval =
  paApprovalID :: string
  paAction :: string
  paName :: string
  paMessage :: string
  paCreatedUnixMS :: int

record decide_result =
  drApprovalID :: string
  drStatus :: string
  drChanged :: bool
  drName :: string
  drMessage :: string

record wait_reply =
  wrApprovalID :: string
  wrStatus :: string
  wrAction :: string
  wrResponse :: bytes

datatype rpc_result =
    GitResult git_result
  | ListResult "pending_approval list"
  | DecideResult decide_result
  | WaitResult wait_reply

record rpc_error =
  rpcCode :: int
  rpcCause :: action_error
  rpcData :: "approval_required option"

record rpc_request =
  rpcVersion :: string
  rpcID :: bytes
  rpcMethod :: string
  rpcParams :: bytes

record rpc_response =
  respID :: bytes
  respResult :: "rpc_result option"
  respError :: "rpc_error option"

record commit_params =
  cpRepository :: string
  cpMessage :: string
  cpAmend :: bool

record push_params =
  ppRepository :: string
  ppBranch :: string
  ppOrigin :: string
  ppTags :: bool

record rebase_params =
  rpRepository :: string
  rpBase :: string
  rpContinue :: bool
  rpAbort :: bool

record tag_params =
  tpRepository :: string
  tpTag :: string
  tpMessage :: string
  tpTarget :: string

record decide_params =
  dpApprovalID :: string
  dpApprove :: bool

record wait_params =
  wpApprovalID :: string
  wpTimeoutMS :: "64 word"

record wire =
  marshal_response :: "rpc_response \<Rightarrow> bytes option"
  unmarshal_request :: "bytes \<Rightarrow> rpc_request option"
  unmarshal_repository :: "bytes \<Rightarrow> string option"
  unmarshal_commit :: "bytes \<Rightarrow> commit_params option"
  unmarshal_push :: "bytes \<Rightarrow> push_params option"
  unmarshal_rebase :: "bytes \<Rightarrow> rebase_params option"
  unmarshal_tag :: "bytes \<Rightarrow> tag_params option"
  unmarshal_decide :: "bytes \<Rightarrow> decide_params option"
  unmarshal_wait :: "bytes \<Rightarrow> wait_params option"

text \<open>The bytes of \<open>null\<close>, and of the response of last resort.\<close>

definition ascii_bytes :: "string \<Rightarrow> bytes" where
  "ascii_bytes s = map (\<lambda>c. of_nat (of_char c)) s"

definition cloneID :: "bytes \<Rightarrow> bytes" where
  "cloneID i = (if i = [] then ascii_bytes ''null'' else i)"

definition last_resort :: bytes where
  "last_resort =
     ascii_bytes (''{\"jsonrpc\":\"2.0\",\"id\":null,\"error\":{\"code\":-32603,\"message\":'' @
       ''\"encode host-action error response\"}}'' @ [CHR 0x0A])"

definition ResponseError :: "wire \<Rightarrow> bytes \<Rightarrow> int \<Rightarrow> action_error \<Rightarrow> approval_required option \<Rightarrow> bytes" where
  "ResponseError w i code cause data =
     (let encode = (\<lambda>e. marshal_response w \<lparr>respID = cloneID i, respResult = None, respError = Some e\<rparr>) in
      case encode \<lparr>rpcCode = code, rpcCause = cause, rpcData = data\<rparr> of
        Some encoded \<Rightarrow> encoded @ [10]
      | None \<Rightarrow>
          (case encode \<lparr>rpcCode = CodeInternalError, rpcCause = EncodeError, rpcData = None\<rparr> of
             Some encoded \<Rightarrow> encoded @ [10]
           | None \<Rightarrow> last_resort))"

definition ResponseOK :: "wire \<Rightarrow> bytes \<Rightarrow> rpc_result \<Rightarrow> bytes" where
  "ResponseOK w i result =
     (case marshal_response w \<lparr>respID = cloneID i, respResult = Some result, respError = None\<rparr> of
        Some encoded \<Rightarrow> encoded @ [10]
      | None \<Rightarrow> ResponseError w i CodeInternalError EncodeError None)"

definition JSONRPCVersion :: string where
  "JSONRPCVersion = ''2.0''"

definition DecodeRequest :: "wire \<Rightarrow> bytes \<Rightarrow> action_error + rpc_request" where
  "DecodeRequest w payload =
     (case unmarshal_request w payload of
        None \<Rightarrow> Inl UnmarshalError
      | Some req \<Rightarrow>
          if rpcVersion req \<noteq> JSONRPCVersion \<or> rpcID req = [] \<or> rpcMethod req = ''''
          then Inl InvalidRequest else Inr req)"

section \<open>Router\<close>

text \<open>A method binds a name to a handler; \<open>None\<close> is a nil handler. A nil capability is skipped.\<close>

type_synonym 'h methods = "(string \<times> 'h option) list"

datatype router_error = MethodUnnamed | MethodWithoutHandler string | DuplicateMethod string

fun add_methods :: "'h methods \<Rightarrow> (string \<times> 'h) list \<Rightarrow> router_error + (string \<times> 'h) list" where
  "add_methods [] router = Inr router"
| "add_methods ((name, handle) # ms) router =
     (if name = '''' then Inl MethodUnnamed
      else (case handle of
              None \<Rightarrow> Inl (MethodWithoutHandler name)
            | Some h \<Rightarrow>
                if map_of router name \<noteq> None then Inl (DuplicateMethod name)
                else add_methods ms ((name, h) # router)))"

fun add_capabilities :: "'h methods option list \<Rightarrow> (string \<times> 'h) list \<Rightarrow> router_error + (string \<times> 'h) list" where
  "add_capabilities [] router = Inr router"
| "add_capabilities (None # cs) router = add_capabilities cs router"
| "add_capabilities (Some ms # cs) router = attempt (add_methods ms router) (add_capabilities cs)"

definition NewRouter :: "'h methods option list \<Rightarrow> router_error + (string \<times> 'h) list" where
  "NewRouter capabilities = add_capabilities capabilities []"

text \<open>\<open>Handle\<close>: the handler to run, or the error response.\<close>

definition route :: "(string \<times> 'h) list option \<Rightarrow> rpc_request \<Rightarrow> (int \<times> action_error) + 'h" where
  "route router req =
     (case router of
        None \<Rightarrow> Inl (CodeInternalError, NotConfigured)
      | Some ms \<Rightarrow>
          (case map_of ms (rpcMethod req) of
             None \<Rightarrow> Inl (CodeMethodNotFound, MethodNotFound (rpcMethod req))
           | Some h \<Rightarrow> Inr h))"

section \<open>Parameters of the Git methods\<close>

definition MethodCommit :: string where "MethodCommit = ''git.commit''"
definition MethodFetch :: string where "MethodFetch = ''git.fetch''"
definition MethodPush :: string where "MethodPush = ''git.push''"
definition MethodRebase :: string where "MethodRebase = ''git.rebase''"
definition MethodTag :: string where "MethodTag = ''git.tag''"

definition DecodeParams :: "(bytes \<Rightarrow> 'p option) \<Rightarrow> bytes \<Rightarrow> action_error + 'p" where
  "DecodeParams unmarshal raw =
     (if raw = [] then Inl MissingParams
      else case unmarshal raw of None \<Rightarrow> Inl UnmarshalError | Some p \<Rightarrow> Inr p)"

definition DecodeRepositoryParams :: "wire \<Rightarrow> bytes \<Rightarrow> action_error + string" where
  "DecodeRepositoryParams w raw =
     attempt (DecodeParams (unmarshal_repository w) raw) (\<lambda>repository.
       require (fail_if (repository = '''') (FieldRequired ''repository'')) (Inr repository))"

definition DecodeCommitParams :: "wire \<Rightarrow> bytes \<Rightarrow> action_error + commit_params" where
  "DecodeCommitParams w raw =
     attempt (DecodeParams (unmarshal_commit w) raw) (\<lambda>p.
       require (and_then (fail_if (cpRepository p = '''') (FieldRequired ''repository''))
                         (fail_if (cpMessage p = '''') (FieldRequired ''message'')))
         (Inr p))"

definition DecodePushParams :: "wire \<Rightarrow> bytes \<Rightarrow> action_error + push_params" where
  "DecodePushParams w raw =
     attempt (DecodeParams (unmarshal_push w) raw) (\<lambda>p.
       require (and_then (fail_if (ppRepository p = '''') (FieldRequired ''repository''))
                         (fail_if (ppBranch p = '''') (FieldRequired ''branch'')))
         (Inr p))"

definition DecodeRebaseParams :: "wire \<Rightarrow> bytes \<Rightarrow> action_error + rebase_params" where
  "DecodeRebaseParams w raw =
     attempt (DecodeParams (unmarshal_rebase w) raw) (\<lambda>p.
       let modes = (if rpBase p \<noteq> '''' then 1 else 0) + (if rpContinue p then 1 else 0) + (if rpAbort p then 1 else 0 :: nat) in
       require (and_then (fail_if (rpRepository p = '''') (FieldRequired ''repository''))
                         (fail_if (modes \<noteq> 1) RebaseModes))
         (Inr p))"

definition DecodeTagParams :: "wire \<Rightarrow> bytes \<Rightarrow> action_error + tag_params" where
  "DecodeTagParams w raw =
     attempt (DecodeParams (unmarshal_tag w) raw) (\<lambda>p.
       require (and_then (fail_if (tpRepository p = '''') (FieldRequired ''repository''))
               (and_then (fail_if (tpTag p = '''') (FieldRequired ''tag''))
                         (fail_if (tpMessage p = '''') (FieldRequired ''message''))))
         (Inr p))"

section \<open>Validation and error codes\<close>

definition validateRepositoryName :: "string \<Rightarrow> action_error + string" where
  "validateRepositoryName repository =
     (let repository = TrimSpace repository in
      if repository = '''' \<or> IsAbs repository \<or> NUL \<in> set repository then Inl (ErrnoError EINVAL)
      else
        let segments = split_slash repository in
        if list_ex (\<lambda>s. s = '''' \<or> s = ''.'' \<or> s = ''..'') segments then Inl (ErrnoError EINVAL)
        else Inr (join_slash segments))"

definition validateGitArgument :: "string \<Rightarrow> action_error + string" where
  "validateGitArgument value =
     (let value = TrimSpace value in
      if value = '''' \<or> prefix ''-'' value \<or> NUL \<in> set value then Inl (ErrnoError EINVAL) else Inr value)"

definition validate_message :: "string \<Rightarrow> action_error verdict" where
  "validate_message message = fail_if (TrimSpace message = '''' \<or> NUL \<in> set message) (ErrnoError EINVAL)"

fun errnoFor :: "action_error \<Rightarrow> errno" where
  "errnoFor (ApprovalFailed (PendingError i n m)) = EAGAIN"
| "errnoFor ErrProjectNotVisible = EACCES"
| "errnoFor (ErrPermissionDenied e) = EACCES"
| "errnoFor (ErrnoError e) = e"
| "errnoFor _ = EIO"

fun rpcErrorCode :: "action_error \<Rightarrow> int" where
  "rpcErrorCode (ApprovalFailed (PendingError i n m)) = CodeApprovalRequired"
| "rpcErrorCode (ErrPermissionDenied e) = CodePermissionDenied"
| "rpcErrorCode ErrProjectNotVisible = CodeProjectNotVisible"
| "rpcErrorCode (ErrnoError EINVAL) = CodeInvalidParams"
| "rpcErrorCode _ = CodeInternalError"

fun rpcErrorData :: "action_error \<Rightarrow> approval_required option" where
  "rpcErrorData (ApprovalFailed (PendingError i n m)) = Some \<lparr>ardApprovalID = i, ardName = n, ardMessage = m\<rparr>"
| "rpcErrorData _ = None"

section \<open>Running Git\<close>

text \<open>
  An error of running the command: what \<open>errors.Is\<close> finds in it, and its text. \<open>errors.Join\<close> of
  non-nil errors is their list, the empty list being the nil error.
\<close>

datatype run_kind = NotExist | Permission | OtherError

type_synonym run_errors = "(run_kind \<times> string) list"

fun joined_text :: "run_errors \<Rightarrow> string" where
  "joined_text [] = ''''"
| "joined_text [e] = snd e"
| "joined_text (e # es) = snd e @ [CHR 0x0A] @ joined_text es"

text \<open>
  The operating system during one call. \<open>open_visible\<close> is the resolver (\<open>Some None\<close> a nil
  directory), \<open>is_directory\<close> its \<open>Stat\<close>, \<open>new_capture\<close> the creation of the capture file of a
  stream (an error text, or \<open>None\<close>), \<open>run_command\<close> the supervised command with its exit code, its
  error (at most one), and what the two captures read back (\<open>Inl\<close> the text of a failed read), and \<open>cancelled\<close> whether the
  context of the call is cancelled when the command has returned.
\<close>

record outcome_of_run =
  runCode :: int
  runError :: "(run_kind \<times> string) option"
  runStdout :: "string + string"
  runStderr :: "string + string"

record 'd host =
  open_visible :: "string \<Rightarrow> 'd option option"
  is_directory :: "'d \<Rightarrow> bool option"
  new_capture :: "string \<Rightarrow> string option"
  run_command :: "'d \<Rightarrow> string list \<Rightarrow> outcome_of_run"
  cancelled :: bool

definition read_capture :: "string + string \<Rightarrow> run_errors \<times> string" where
  "read_capture r = (case r of Inl text \<Rightarrow> ([(OtherError, text)], '''') | Inr output \<Rightarrow> ([], output))"

definition exit_code :: "bool \<Rightarrow> run_errors \<Rightarrow> int \<Rightarrow> int" where
  "exit_code cancel errs code =
     (if cancel then 130
      else if NotExist \<in> fst ` set errs then 127
      else if Permission \<in> fst ` set errs then 126
      else if errs \<noteq> [] \<and> code = 0 then 1
      else if code < 0 \<or> code > 255 then 1
      else code)"

text \<open>Besides its result, a call yields the command it ran, if any: the directory and the arguments.\<close>

type_synonym 'd command_trace = "('d \<times> string list) option"

definition runGit :: "'d host \<Rightarrow> string \<Rightarrow> 'd \<Rightarrow> string list \<Rightarrow> git_result \<times> 'd command_trace" where
  "runGit h repository dir args =
     (let failed = (\<lambda>text. (\<lparr>grRepository = repository, grExitCode = 1, grStdout = '''', grStderr = text\<rparr>, None)) in
      case new_capture h ''stdout'' of
        Some text \<Rightarrow> failed text
      | None \<Rightarrow>
          (case new_capture h ''stderr'' of
             Some text \<Rightarrow> failed text
           | None \<Rightarrow>
               (let command = ''git'' # args;
                    outcome = run_command h dir command;
                    (readOut, stdout) = read_capture (runStdout outcome);
                    (readErr, stderr) = read_capture (runStderr outcome);
                    errs = (case runError outcome of None \<Rightarrow> [] | Some e \<Rightarrow> [e]) @ readOut @ readErr
                in (\<lparr>grRepository = repository,
                     grExitCode = exit_code (cancelled h) errs (runCode outcome),
                     grStdout = stdout,
                     grStderr = (if errs \<noteq> [] \<and> stderr = '''' then joined_text errs else stderr)\<rparr>,
                    Some (dir, command)))))"

record git_service =
  gitResolver :: bool
  gitApprover :: bool
  gitRunner :: bool

definition runVisibleGit ::
  "'d host \<Rightarrow> git_service \<Rightarrow> string \<Rightarrow> string list \<Rightarrow> (action_error + git_result) \<times> 'd command_trace"
where
  "runVisibleGit h s repository args =
     (if \<not> gitResolver s \<or> \<not> gitRunner s then (Inl (ErrnoError ENOSYS), None)
      else case open_visible h repository of
        None \<Rightarrow> (Inl ErrProjectNotVisible, None)
      | Some None \<Rightarrow> (Inl ErrProjectNotVisible, None)
      | Some (Some dir) \<Rightarrow>
          (case is_directory h dir of
             None \<Rightarrow> (Inl ErrProjectNotVisible, None)
           | Some False \<Rightarrow> (Inl ErrProjectNotVisible, None)
           | Some True \<Rightarrow> (let (result, trace) = runGit h repository dir args in (Inr result, trace))))"

definition visible ::
  "'d host \<Rightarrow> git_service \<Rightarrow> action_error + (string \<times> string list) \<Rightarrow> (action_error + git_result) \<times> 'd command_trace"
where
  "visible h s r = (case r of Inl e \<Rightarrow> (Inl e, None) | Inr (repository, args) \<Rightarrow> runVisibleGit h s repository args)"

text \<open>The command of each operation: the validated repository name and the arguments of Git.\<close>

definition commit_command :: "commit_params \<Rightarrow> action_error + (string \<times> string list)" where
  "commit_command p =
     attempt (validateRepositoryName (cpRepository p)) (\<lambda>repository.
     require (validate_message (cpMessage p))
       (Inr (repository, [''commit''] @ (if cpAmend p then [''--amend''] else []) @ [''-m'', cpMessage p])))"

definition fetch_command :: "string \<Rightarrow> action_error + (string \<times> string list)" where
  "fetch_command r = attempt (validateRepositoryName r) (\<lambda>repository. Inr (repository, [''fetch'']))"

definition push_command :: "push_params \<Rightarrow> action_error + (string \<times> string list)" where
  "push_command p =
     attempt (validateRepositoryName (ppRepository p)) (\<lambda>repository.
     attempt (validateGitArgument (ppBranch p)) (\<lambda>branch.
     attempt (if TrimSpace (ppOrigin p) = '''' then Inr ''origin'' else validateGitArgument (ppOrigin p)) (\<lambda>origin.
       Inr (repository, [''push''] @ (if ppTags p then [''--tags''] else []) @ [origin, branch]))))"

definition rebase_command :: "rebase_params \<Rightarrow> action_error + (string \<times> string list)" where
  "rebase_command p =
     attempt (validateRepositoryName (rpRepository p)) (\<lambda>repository.
       if rpContinue p then Inr (repository, [''-c'', ''core.editor=true'', ''rebase'', ''--continue''])
       else if rpAbort p then Inr (repository, [''rebase'', ''--abort''])
       else attempt (validateGitArgument (rpBase p)) (\<lambda>base. Inr (repository, [''rebase'', base])))"

definition tag_command :: "tag_params \<Rightarrow> action_error + (string \<times> string list)" where
  "tag_command p =
     attempt (validateRepositoryName (tpRepository p)) (\<lambda>repository.
     attempt (validateGitArgument (tpTag p)) (\<lambda>tag.
     require (validate_message (tpMessage p))
       (if TrimSpace (tpTarget p) \<noteq> '''' then
          attempt (validateGitArgument (tpTarget p)) (\<lambda>target.
            Inr (repository, [''tag'', ''-a'', tag, ''-m'', tpMessage p, target]))
        else Inr (repository, [''tag'', ''-a'', tag, ''-m'', tpMessage p]))))"

section \<open>Git handlers\<close>

datatype git_method = GitCommit | GitFetch | GitPush | GitRebase | GitTag

fun git_method_name :: "git_method \<Rightarrow> string" where
  "git_method_name GitCommit = MethodCommit"
| "git_method_name GitFetch = MethodFetch"
| "git_method_name GitPush = MethodPush"
| "git_method_name GitRebase = MethodRebase"
| "git_method_name GitTag = MethodTag"

fun git_default :: "git_method \<Rightarrow> rule" where
  "git_default GitPush = RuleAsk"
| "git_default _ = RuleAllow"

record call_context =
  callGrant :: grant_context
  callNow :: instant
  callDraws :: "bytes option list"

definition approve ::
  "git_service \<Rightarrow> approval_config \<Rightarrow> registry \<Rightarrow> call_context \<Rightarrow> rpc_request \<Rightarrow> string \<Rightarrow> string \<Rightarrow> string \<Rightarrow> rule \<Rightarrow>
    (registry \<times> action_error verdict) option"
where
  "approve s cfg g ctx req action name message def =
     (if \<not> gitApprover s then Some (g, None)
      else map_option (\<lambda>(g', v). (g', case v of
                None \<Rightarrow> None
              | Some e \<Rightarrow> Some (if e = ErrDenied then ErrPermissionDenied e else ApprovalFailed e)))
             (Authorize cfg g (callGrant ctx)
                \<lparr>reqAction = action, reqName = name, reqMessage = message, reqDefault = def,
                 reqRequestID = rpcID req, reqParams = rpcParams req\<rparr> (callNow ctx) (callDraws ctx)))"

text \<open>
  The part the five handlers have in common: decoded parameters, the text shown for approval,
  and the command. \<open>None\<close> is the identifier loop still drawing.
\<close>

type_synonym 'd handled = "registry \<times> (bytes \<times> handler_error option) \<times> 'd command_trace"

definition handle_git ::
  "wire \<Rightarrow> 'd host \<Rightarrow> git_service \<Rightarrow> approval_config \<Rightarrow> registry \<Rightarrow> call_context \<Rightarrow> rpc_request \<Rightarrow> git_method \<Rightarrow>
    action_error + (string \<times> string \<times> (action_error + (string \<times> string list))) \<Rightarrow> 'd handled option"
where
  "handle_git w h s cfg g ctx req method decoded =
     (case decoded of
        Inl e \<Rightarrow> Some (g, (ResponseError w (rpcID req) CodeInvalidParams e None, Some (Errno EINVAL)), None)
      | Inr (name, message, command) \<Rightarrow>
          (case approve s cfg g ctx req (git_method_name method) name message (git_default method) of
             None \<Rightarrow> None
           | Some (g', Some e) \<Rightarrow>
               Some (g', (ResponseError w (rpcID req) (rpcErrorCode e) e (rpcErrorData e), Some (Errno (errnoFor e))), None)
           | Some (g', None) \<Rightarrow>
               (case visible h s command of
                  (Inl e, trace) \<Rightarrow> Some (g', (ResponseError w (rpcID req) (rpcErrorCode e) e None, Some (Errno (errnoFor e))), trace)
                | (Inr result, trace) \<Rightarrow> Some (g', (ResponseOK w (rpcID req) (GitResult result), None), trace))))"

fun git_decoded ::
  "wire \<Rightarrow> git_method \<Rightarrow> bytes \<Rightarrow> action_error + (string \<times> string \<times> (action_error + (string \<times> string list)))"
where
  "git_decoded w GitCommit raw =
     attempt (DecodeCommitParams w raw) (\<lambda>p. Inr (''Git commit'', ''Commit in '' @ cpRepository p, commit_command p))"
| "git_decoded w GitFetch raw =
     attempt (DecodeRepositoryParams w raw) (\<lambda>r. Inr (''Git fetch'', ''Fetch in '' @ r, fetch_command r))"
| "git_decoded w GitPush raw =
     attempt (DecodePushParams w raw) (\<lambda>p.
       Inr (''Git push'', ''Push '' @ ppBranch p @ '' to '' @ (if TrimSpace (ppOrigin p) = '''' then ''origin'' else ppOrigin p) @
              '' in '' @ ppRepository p, push_command p))"
| "git_decoded w GitRebase raw =
     attempt (DecodeRebaseParams w raw) (\<lambda>p. Inr (''Git rebase'', ''Rebase in '' @ rpRepository p, rebase_command p))"
| "git_decoded w GitTag raw =
     attempt (DecodeTagParams w raw) (\<lambda>p. Inr (''Git tag'', ''Tag '' @ tpTag p @ '' in '' @ tpRepository p, tag_command p))"

definition handleGit ::
  "wire \<Rightarrow> 'd host \<Rightarrow> git_service \<Rightarrow> approval_config \<Rightarrow> registry \<Rightarrow> call_context \<Rightarrow> git_method \<Rightarrow> rpc_request \<Rightarrow> 'd handled option"
where
  "handleGit w h s cfg g ctx method req = handle_git w h s cfg g ctx req method (git_decoded w method (rpcParams req))"

end
