(* ===== verification/HostAction_Service.thy ===== *)
theory HostAction_Service
  imports HostAction
begin

text \<open>
  \<open>internal/hostaction/methods/approvals\<close> (\<open>contract.go\<close>, \<open>types.go\<close>, \<open>service.go\<close>): listing, deciding
  and awaiting approvals, and the executor that re-dispatches an approved request through the
  router under its grant; \<open>nativeHostActionHandler\<close> and the teardown order of
  \<open>internal/session/run\<close>. The whole is one step relation over the registry, the bound flag of the
  service and the executions in flight.
\<close>

section \<open>Parameters and wire status\<close>

definition MethodList :: string where "MethodList = ''approvals.list''"
definition MethodDecide :: string where "MethodDecide = ''approvals.decide''"
definition MethodWait :: string where "MethodWait = ''approvals.wait''"

definition DecodeDecideParams :: "wire \<Rightarrow> bytes \<Rightarrow> action_error + decide_params" where
  "DecodeDecideParams w raw =
     attempt (DecodeParams (unmarshal_decide w) raw) (\<lambda>p.
       require (fail_if (dpApprovalID p = '''') (FieldRequired ''approval_id'')) (Inr p))"

definition DecodeWaitParams :: "wire \<Rightarrow> bytes \<Rightarrow> action_error + wait_params" where
  "DecodeWaitParams w raw =
     attempt (DecodeParams (unmarshal_wait w) raw) (\<lambda>p.
       require (and_then (fail_if (wpApprovalID p = '''') (FieldRequired ''approval_id''))
                         (fail_if (sint (wpTimeoutMS p) < 0) NegativeTimeout))
         (Inr p))"

fun wireStatus :: "status \<Rightarrow> string" where
  "wireStatus StatusExecuting = ''approved''"
| "wireStatus StatusCompleted = ''approved''"
| "wireStatus StatusDenied = ''denied''"
| "wireStatus StatusPending = ''pending''"

section \<open>Handlers\<close>

text \<open>
  \<open>bound\<close> is whether \<open>current()\<close> found the registry. \<open>UnixMilli\<close> counts from the Unix epoch,
  62135596800 seconds after Go's zero time.
\<close>

definition UnixMilli :: "instant \<Rightarrow> int" where
  "UnixMilli t = t div 1000000 - 62135596800000"

definition not_bound :: "wire \<Rightarrow> rpc_request \<Rightarrow> bytes \<times> handler_error option" where
  "not_bound w req = (ResponseError w (rpcID req) CodeInternalError NotBound None, Some (Errno ENOSYS))"

definition handleList :: "wire \<Rightarrow> bool \<Rightarrow> registry \<Rightarrow> rpc_request \<Rightarrow> bytes \<times> handler_error option" where
  "handleList w bound g req =
     (if \<not> bound then not_bound w req
      else (ResponseOK w (rpcID req) (ListResult (map (\<lambda>r.
              \<lparr>paApprovalID = recID r, paAction = recAction r, paName = recName r, paMessage = recMessage r,
               paCreatedUnixMS = UnixMilli (recCreated r)\<rparr>) (Pending g))), None))"

text \<open>The third component is the record whose execution is started.\<close>

definition handleDecide ::
  "wire \<Rightarrow> bool \<Rightarrow> registry \<Rightarrow> rpc_request \<Rightarrow> (registry \<times> (bytes \<times> handler_error option) \<times> approval_record option) option"
where
  "handleDecide w bound g req =
     (case DecodeDecideParams w (rpcParams req) of
        Inl e \<Rightarrow> Some (g, (ResponseError w (rpcID req) CodeInvalidParams e None, Some (Errno EINVAL)), None)
      | Inr p \<Rightarrow>
          if \<not> bound then Some (g, not_bound w req, None)
          else
            (case (if dpApprove p then Approve g (dpApprovalID p) else Deny_record g (dpApprovalID p)) of
               None \<Rightarrow> None
             | Some (g', Inl e) \<Rightarrow>
                 Some (g', if e = ErrNotFound
                           then (ResponseError w (rpcID req) CodeApprovalNotFound (ApprovalFailed e) None, Some (Errno ENOENT))
                           else (ResponseError w (rpcID req) CodeInternalError (ApprovalFailed e) None, Some (Errno EIO)), None)
             | Some (g', Inr (r, status, changed)) \<Rightarrow>
                 Some (g', (ResponseOK w (rpcID req) (DecideResult
                              \<lparr>drApprovalID = recID r, drStatus = wireStatus status, drChanged = changed,
                               drName = recName r, drMessage = recMessage r\<rparr>), None),
                       if dpApprove p \<and> changed then Some r else None)))"

text \<open>\<open>time.Duration\<close> is an \<open>int64\<close> of nanoseconds: the product wraps.\<close>

definition defaultWaitTimeout :: "64 word" where "defaultWaitTimeout = 300000000000"
definition maxWaitTimeout :: "64 word" where "maxWaitTimeout = 1800000000000"

definition wait_timeout :: "64 word \<Rightarrow> 64 word" where
  "wait_timeout ms =
     (if sint ms > 0 then
        (let t = ms * 1000000 in if sint t \<le> sint maxWaitTimeout then t else maxWaitTimeout)
      else defaultWaitTimeout)"

text \<open>
  \<open>before\<close>, \<open>wake\<close> and \<open>after\<close> are those of \<open>Approval.Wait\<close>; a timer of at most zero is due at once.
\<close>

definition handleWait ::
  "wire \<Rightarrow> bool \<Rightarrow> registry \<Rightarrow> wake \<Rightarrow> registry \<Rightarrow> rpc_request \<Rightarrow> bytes \<times> handler_error option"
where
  "handleWait w bound before wake after req =
     (case DecodeWaitParams w (rpcParams req) of
        Inl e \<Rightarrow> (ResponseError w (rpcID req) CodeInvalidParams e None, Some (Errno EINVAL))
      | Inr p \<Rightarrow>
          if \<not> bound then not_bound w req
          else
            (case Wait before (wpApprovalID p) wake after of
               Inl e \<Rightarrow>
                 if e = ErrNotFound
                 then (ResponseError w (rpcID req) CodeApprovalNotFound (ApprovalFailed e) None, Some (Errno ENOENT))
                 else (ResponseError w (rpcID req) CodeInternalError (ApprovalFailed e) None, Some ContextError)
             | Inr (r, status, response) \<Rightarrow>
                 (ResponseOK w (rpcID req) (WaitResult
                    \<lparr>wrApprovalID = wpApprovalID p, wrStatus = wireStatus status, wrAction = recAction r,
                     wrResponse = response\<rparr>), None)))"

text \<open>The held request an execution dispatches, and the response it saves.\<close>

definition held_request :: "approval_record \<Rightarrow> rpc_request" where
  "held_request r = \<lparr>rpcVersion = JSONRPCVersion, rpcID = recRequestID r, rpcMethod = recAction r, rpcParams = recParams r\<rparr>"

definition dispatchHeld :: "wire \<Rightarrow> bool \<Rightarrow> approval_record \<Rightarrow> bytes \<times> handler_error option \<Rightarrow> bytes" where
  "dispatchHeld w bound r dispatched =
     (if \<not> bound then ResponseError w (recRequestID r) CodeInternalError NotBound None
      else if fst dispatched = [] then ResponseError w (recRequestID r) CodeInternalError (NoResponse (snd dispatched)) None
      else fst dispatched)"

section \<open>The router of a launch\<close>

datatype handler = Git git_method | ApprovalsList | ApprovalsDecide | ApprovalsWait

definition git_methods :: "handler methods" where
  "git_methods = map (\<lambda>m. (git_method_name m, Some (Git m))) [GitCommit, GitFetch, GitPush, GitRebase, GitTag]"

definition approvals_methods :: "handler methods" where
  "approvals_methods =
     [(MethodList, Some ApprovalsList), (MethodDecide, Some ApprovalsDecide), (MethodWait, Some ApprovalsWait)]"

definition launch_router :: "router_error + (string \<times> handler) list" where
  "launch_router = NewRouter [Some git_methods, Some approvals_methods]"

definition route_error :: "wire \<Rightarrow> rpc_request \<Rightarrow> int \<times> action_error \<Rightarrow> bytes \<times> handler_error option" where
  "route_error w req e = (ResponseError w (rpcID req) (fst e) (snd e) None, Some ErrMethodNotFound)"

text \<open>
  \<open>nativeHostActionHandler.Handle\<close>: the handler to run with its request, or the reply; \<open>Inl None\<close>
  is the error of a handler whose router is not set yet.
\<close>

definition native_Handle ::
  "wire \<Rightarrow> (string \<times> handler) list option \<Rightarrow> bytes \<Rightarrow> (bytes \<times> handler_error option) option + (handler \<times> rpc_request)"
where
  "native_Handle w router payload =
     (case router of
        None \<Rightarrow> Inl None
      | Some ms \<Rightarrow>
          (case DecodeRequest w payload of
             Inl e \<Rightarrow> Inl (Some (ResponseError w [] CodeInvalidRequest e None, Some BadRequest))
           | Inr req \<Rightarrow>
               (case route (Some ms) req of
                  Inl e \<Rightarrow> Inl (Some (route_error w req e))
                | Inr handle \<Rightarrow> Inr (handle, req))))"

section \<open>A launch\<close>

text \<open>
  An execution goes through three stages. \<open>Started\<close>: the decision is made and the goroutine is
  about to read the service. \<open>Dispatching b\<close>: it is counted in \<open>executions\<close> and found the service
  bound or not. \<open>Saving b response\<close>: the dispatch returned. \<open>Close\<close> unbinds the service and waits for the counted
  executions; then the runner denies what is left.
\<close>

datatype stage = Started | Dispatching bool | Saving bool bytes

datatype teardown = Serving | Closing | Joined | Swept

record launch =
  lauRegistry :: registry
  lauBound :: bool
  lauExecutions :: "(approval_record \<times> stage) list"
  lauTeardown :: teardown

definition new_launch :: launch where
  "new_launch = \<lparr>lauRegistry = NewRegistry, lauBound = True, lauExecutions = [], lauTeardown = Serving\<rparr>"

definition counted :: "stage \<Rightarrow> bool" where
  "counted st \<longleftrightarrow> st \<noteq> Started"

definition replace_at :: "nat \<Rightarrow> approval_record \<times> stage \<Rightarrow> launch \<Rightarrow> launch" where
  "replace_at n x s = s\<lparr>lauExecutions := (lauExecutions s)[n := x]\<rparr>"

definition remove_at :: "nat \<Rightarrow> launch \<Rightarrow> launch" where
  "remove_at n s = s\<lparr>lauExecutions := take n (lauExecutions s) @ drop (Suc n) (lauExecutions s)\<rparr>"

datatype 'd launch_event =
    LGit git_method grant_context rpc_request "bytes \<times> handler_error option" "'d command_trace"
  | LUnrouted approval_record "bytes \<times> handler_error option"
  | LDecide rpc_request "bytes \<times> handler_error option" "approval_record option"
  | LCapture approval_record bool
  | LDetached approval_record
  | LSave approval_record bytes "approval_error verdict"
  | LDropped approval_record
  | LClose
  | LJoin
  | LDenyAll

definition drawn :: "bytes option list \<Rightarrow> bool" where
  "drawn draws \<longleftrightarrow> list_all (\<lambda>d. case d of None \<Rightarrow> True | Some raw \<Rightarrow> length raw = approvalIDBytes) draws"

text \<open>
  One atomic step of a launch. Requests of the sandbox carry no grant; listing and waiting change
  nothing. A decision may have read the service long before it reaches the registry, hence any
  \<open>seen\<close>. A handler reads the approver before the resolver, and the runner clears the resolver
  before the approver, so a call that finds a resolver has found the approver.
  \<open>rand.Read\<close> fills its buffer of \<open>approvalIDBytes\<close> bytes.
\<close>

inductive launch_step ::
  "wire \<Rightarrow> approval_config \<Rightarrow> (string \<times> handler) list \<Rightarrow> launch \<Rightarrow> 'd launch_event \<Rightarrow> launch \<Rightarrow> bool"
  for w :: wire and cfg :: approval_config and router :: "(string \<times> handler) list"
where
  git_request: "native_Handle w (Some router) payload = Inr (Git m, req) \<Longrightarrow> (gitResolver svc \<longrightarrow> gitApprover svc) \<Longrightarrow> drawn draws \<Longrightarrow>
    handleGit w h svc cfg (lauRegistry s) \<lparr>callGrant = None, callNow = now, callDraws = draws\<rparr> m req = Some (g', reply, trace) \<Longrightarrow>
    launch_step w cfg router s (LGit m None req reply trace) (s\<lparr>lauRegistry := g'\<rparr>)"
| decide_request: "native_Handle w (Some router) payload = Inr (ApprovalsDecide, req) \<Longrightarrow>
    handleDecide w seen (lauRegistry s) req = Some (g', reply, exec) \<Longrightarrow>
    launch_step w cfg router s (LDecide req reply exec)
      (s\<lparr>lauRegistry := g', lauExecutions := lauExecutions s @ (case exec of None \<Rightarrow> [] | Some r \<Rightarrow> [(r, Started)])\<rparr>)"
| capture: "n < length (lauExecutions s) \<Longrightarrow> lauExecutions s ! n = (r, Started) \<Longrightarrow>
    launch_step w cfg router s (LCapture r (lauBound s)) (replace_at n (r, Dispatching (lauBound s)) s)"
| dispatch_detached: "n < length (lauExecutions s) \<Longrightarrow> lauExecutions s ! n = (r, Dispatching False) \<Longrightarrow>
    launch_step w cfg router s (LDetached r) (replace_at n (r, Saving False (dispatchHeld w False r undefined)) s)"
| dispatch_git: "n < length (lauExecutions s) \<Longrightarrow> lauExecutions s ! n = (r, Dispatching True) \<Longrightarrow>
    route (Some router) (held_request r) = Inr (Git m) \<Longrightarrow> (gitResolver svc \<longrightarrow> gitApprover svc) \<Longrightarrow> drawn draws \<Longrightarrow>
    handleGit w h svc cfg (lauRegistry s) \<lparr>callGrant = WithGrant None (recID r), callNow = now, callDraws = draws\<rparr> m (held_request r) =
      Some (g', reply, trace) \<Longrightarrow>
    launch_step w cfg router s (LGit m (WithGrant None (recID r)) (held_request r) reply trace)
      (replace_at n (r, Saving True (dispatchHeld w True r reply)) (s\<lparr>lauRegistry := g'\<rparr>))"
| dispatch_unrouted: "n < length (lauExecutions s) \<Longrightarrow> lauExecutions s ! n = (r, Dispatching True) \<Longrightarrow>
    route (Some router) (held_request r) = Inl e \<Longrightarrow> reply = route_error w (held_request r) e \<Longrightarrow>
    launch_step w cfg router s (LUnrouted r reply) (replace_at n (r, Saving True (dispatchHeld w True r reply)) s)"
| save: "n < length (lauExecutions s) \<Longrightarrow> lauExecutions s ! n = (r, Saving True response) \<Longrightarrow>
    SaveResponse (lauRegistry s) (recID r) response = Some (g', v) \<Longrightarrow>
    launch_step w cfg router s (LSave r response v) (remove_at n (s\<lparr>lauRegistry := g'\<rparr>))"
| save_detached: "n < length (lauExecutions s) \<Longrightarrow> lauExecutions s ! n = (r, Saving False response) \<Longrightarrow>
    launch_step w cfg router s (LDropped r) (remove_at n s)"
| close: "lauTeardown s = Serving \<Longrightarrow> launch_step w cfg router s LClose (s\<lparr>lauBound := False, lauTeardown := Closing\<rparr>)"
| join: "lauTeardown s = Closing \<Longrightarrow> list_all (\<lambda>(r, st). \<not> counted st) (lauExecutions s) \<Longrightarrow>
    launch_step w cfg router s LJoin (s\<lparr>lauTeardown := Joined\<rparr>)"
| sweep: "lauTeardown s = Joined \<Longrightarrow> DenyAll (lauRegistry s) = Some g' \<Longrightarrow>
    launch_step w cfg router s LDenyAll (s\<lparr>lauRegistry := g', lauTeardown := Swept\<rparr>)"

end
