(* ===== verification/HostAction_Runs.thy ===== *)
theory HostAction_Runs
  imports HostAction_Service Approval_Runs
begin

text \<open>
  The invariant of a launch over arbitrary interleavings of sandbox requests, decisions,
  executions and teardown, and what it says about host commands.
\<close>

section \<open>What a Git handler does\<close>

lemma visible_trace:
  assumes "visible h s command = (r, Some (dir, argv))"
  obtains repository args where "command = Inr (repository, args)" "argv = ''git'' # args"
    "open_visible h repository = Some (Some dir)" "gitResolver s"
  using assms
  by (auto simp: visible_def runVisibleGit_def runGit_def Let_def split_beta
      split: sum.splits option.splits if_splits bool.splits)

definition git_approval :: "git_method \<Rightarrow> string \<Rightarrow> string \<Rightarrow> rpc_request \<Rightarrow> approval_request" where
  "git_approval m name message req =
     \<lparr>reqAction = git_method_name m, reqName = name, reqMessage = message, reqDefault = git_default m,
      reqRequestID = rpcID req, reqParams = rpcParams req\<rparr>"

lemma git_approval_simps [simp]:
  "reqAction (git_approval m name message req) = git_method_name m"
  "reqDefault (git_approval m name message req) = git_default m"
  "reqParams (git_approval m name message req) = rpcParams req"
  by (simp_all add: git_approval_def)

lemma handleGit_cases:
  assumes "handleGit w h svc cfg g ctx m req = Some (g', reply, trace)" and "gitResolver svc \<longrightarrow> gitApprover svc"
  obtains (quiet) "g' = g" "trace = None"
  | (authorized) name message v where
      "Authorize cfg g (callGrant ctx) (git_approval m name message req) (callNow ctx) (callDraws ctx) = Some (g', v)"
      "v \<noteq> None \<Longrightarrow> trace = None"
proof (cases "git_decoded w m (rpcParams req)")
  case (Inl e)
  with assms(1) show ?thesis using quiet by (simp add: handleGit_def handle_git_def)
next
  case (Inr d)
  obtain name message command where d: "d = (name, message, command)" by (cases d)
  show ?thesis
  proof (cases "gitApprover svc")
    case False
    then have "trace = None \<or> False" "g' = g"
      using assms Inr d visible_trace [of h svc command]
      by (auto simp: handleGit_def handle_git_def approve_def visible_def runVisibleGit_def split: sum.splits prod.splits)
    then show ?thesis using quiet by blast
  next
    case True
    then obtain v where "Authorize cfg g (callGrant ctx) (git_approval m name message req) (callNow ctx) (callDraws ctx) = Some (g', v)"
        "v \<noteq> None \<longrightarrow> trace = None"
      using assms(1) Inr d
      by (auto simp: handleGit_def handle_git_def approve_def git_approval_def split: option.splits sum.splits prod.splits)
    then show ?thesis using authorized by blast
  qed
qed

text \<open>Without a grant a request either runs under the policy, leaving the registry, or may create a record.\<close>

lemma Authorize_request:
  assumes "Authorize cfg g None req now draws = Some (g', v)"
  obtains (allowed) "g' = g" "v = None"
      "Resolve (PermissionRule (cfgActions cfg) (reqAction req)) (reqDefault req) (cfgYolo cfg) = Allow"
  | (refused) "g' = g" "v \<noteq> None"
  | (asked) res where "Create g req now draws = Some (g', res)" "v \<noteq> None"
  using assms by (auto simp: Authorize_def grantFrom_def split: outcome.splits option.splits)

lemma Authorize_grant:
  "i \<noteq> '''' \<Longrightarrow> Authorize cfg g (Some i) req now draws = Some (g', v) \<longleftrightarrow> RedeemGrant g i (reqAction req) = (g', v)"
  by (simp add: Authorize_def grantFrom_def)

lemma newIDLocked_nonempty: "newIDLocked recs draws = Some (Inr i) \<Longrightarrow> drawn draws \<Longrightarrow> i \<noteq> ''''"
proof (induction recs draws rule: newIDLocked.induct)
  case (3 recs raw ds)
  have "raw \<noteq> []" using 3(3) by (auto simp: drawn_def approvalIDBytes_def)
  then have "hex_EncodeToString raw \<noteq> ''''" by (cases raw) (auto simp: hex_EncodeToString_def)
  then show ?case using 3 by (auto simp: drawn_def Let_def split: if_splits)
qed auto

lemma Create_new_id:
  assumes "Create g req now draws = Some (g', res)" "drawn draws"
    "records g' = (i, r) # records g"
  shows "i \<noteq> ''''"
proof -
  have "g' = g \<or> (\<exists>j. newIDLocked (records g) draws = Some (Inr j) \<and> records g' = (j, new_record j req now) # records g)"
    using assms(1) by (auto simp: Create_def Let_def split: option.splits sum.splits if_splits prod.splits)
  then show ?thesis using assms(2,3) newIDLocked_nonempty by auto
qed

section \<open>The invariant\<close>

fun stage_status :: "teardown \<Rightarrow> stage \<Rightarrow> held_record \<Rightarrow> bool" where
  "stage_status td Started h = (\<not> recRedeemed h \<and> (recStatus h = StatusExecuting \<or> (td = Swept \<and> recStatus h = StatusDenied)))"
| "stage_status td (Dispatching True) h = (\<not> recRedeemed h \<and> recStatus h = StatusExecuting \<and> td \<in> {Serving, Closing})"
| "stage_status td (Saving True response) h = (recStatus h = StatusExecuting \<and> td \<in> {Serving, Closing})"
| "stage_status td (Dispatching False) h = (recStatus h \<noteq> StatusPending)"
| "stage_status td (Saving False response) h = (recStatus h \<noteq> StatusPending)"

lemma stage_status_not_pending: "stage_status td st h \<Longrightarrow> recStatus h \<noteq> StatusPending"
  by (cases "(td, st, h)" rule: stage_status.cases) auto

definition execution_ok :: "launch \<Rightarrow> approval_record \<times> stage \<Rightarrow> bool" where
  "execution_ok s x \<longleftrightarrow>
     (\<exists>h. lookup_record (lauRegistry s) (recID (fst x)) = Some h \<and> Record h = fst x \<and> stage_status (lauTeardown s) (snd x) h)"

definition git_record :: "string \<Rightarrow> held_record \<Rightarrow> bool" where
  "git_record i h \<longleftrightarrow> i \<noteq> '''' \<and> recAction h \<in> range git_method_name"

definition launch_inv :: "launch \<Rightarrow> bool" where
  "launch_inv s \<longleftrightarrow>
     approval_inv (lauRegistry s) \<and>
     (\<forall>i h. lookup_record (lauRegistry s) i = Some h \<longrightarrow> git_record i h) \<and>
     distinct (map (recID \<circ> fst) (lauExecutions s)) \<and>
     list_all (execution_ok s) (lauExecutions s) \<and>
     lauBound s = (lauTeardown s = Serving)"

lemma launch_inv_new: "launch_inv new_launch"
  using approval_inv_New by (simp add: launch_inv_def new_launch_def NewRegistry_def)

lemma launch_invI:
  assumes "approval_inv (lauRegistry t)" "\<And>i h. lookup_record (lauRegistry t) i = Some h \<Longrightarrow> git_record i h"
    "distinct (map (recID \<circ> fst) (lauExecutions t))" "\<And>x. x \<in> set (lauExecutions t) \<Longrightarrow> execution_ok t x"
    "lauBound t = (lauTeardown t = Serving)"
  shows "launch_inv t"
  using assms by (auto simp: launch_inv_def list_all_iff)

lemma launch_invD:
  assumes "launch_inv s"
  shows "approval_inv (lauRegistry s)" "lookup_record (lauRegistry s) i = Some h \<Longrightarrow> git_record i h"
    "distinct (map (recID \<circ> fst) (lauExecutions s))" "x \<in> set (lauExecutions s) \<Longrightarrow> execution_ok s x"
    "lauBound s = (lauTeardown s = Serving)"
  using assms by (auto simp: launch_inv_def list_all_iff)

text \<open>Changing the record of one execution leaves the others alone.\<close>

lemma other_execution:
  assumes "distinct (map (recID \<circ> fst) xs)" "n < length xs" "m < length xs" "m \<noteq> n"
  shows "recID (fst (xs ! m)) \<noteq> recID (fst (xs ! n))"
  using assms by (auto simp: distinct_conv_nth)

lemma execution_ok_cong:
  assumes "execution_ok s x" "lookup_record (lauRegistry t) (recID (fst x)) = lookup_record (lauRegistry s) (recID (fst x))"
    "lauTeardown t = lauTeardown s"
  shows "execution_ok t x"
  using assms by (auto simp: execution_ok_def)

section \<open>Preservation\<close>

text \<open>A step that adds at most one fresh pending record keeps every execution.\<close>

lemma git_request_inv:
  assumes inv: "launch_inv s" and "drawn draws" and svc: "gitResolver svc \<longrightarrow> gitApprover svc"
    and handled: "handleGit w h svc cfg (lauRegistry s) \<lparr>callGrant = None, callNow = now, callDraws = draws\<rparr> m req = Some (g', reply, trace)"
  shows "launch_inv (s\<lparr>lauRegistry := g'\<rparr>) \<and>
    (trace \<noteq> None \<longrightarrow> Resolve (PermissionRule (cfgActions cfg) (git_method_name m)) (git_default m) (cfgYolo cfg) = Allow) \<and>
    (\<forall>i. lookup_record (lauRegistry s) i \<noteq> None \<longrightarrow> lookup_record g' i = lookup_record (lauRegistry s) i)"
  using handled svc
proof (cases rule: handleGit_cases)
  case quiet
  then show ?thesis using inv by simp
next
  case (authorized name message v)
  let ?req = "git_approval m name message req"
  from authorized(1) have "Authorize cfg (lauRegistry s) None ?req now draws = Some (g', v)" by simp
  then show ?thesis
  proof (cases rule: Authorize_request)
    case allowed
    then show ?thesis using inv by simp
  next
    case refused
    then show ?thesis using inv authorized(2) by simp
  next
    case (asked res)
    note reg = launch_invD(1) [OF inv]
    have g': "approval_inv g'" using Create_inv [OF reg asked(1)] .
    from asked(1) reg show ?thesis
    proof (cases rule: Create_cases)
      case (created i)
      have i: "i \<noteq> ''''" using Create_new_id [OF asked(1) assms(2)] created(4) by simp
      have keep: "lookup_record g' j = lookup_record (lauRegistry s) j" if "lookup_record (lauRegistry s) j \<noteq> None" for j
        using that created(1,4) by auto
      have "launch_inv (s\<lparr>lauRegistry := g'\<rparr>)"
      proof (rule launch_invI)
        fix j hr assume "lookup_record (lauRegistry (s\<lparr>lauRegistry := g'\<rparr>)) j = Some hr"
        then show "git_record j hr"
          using launch_invD(2) [OF inv, of j hr] i by (auto simp: created(4) git_record_def split: if_splits)
      next
        fix x assume "x \<in> set (lauExecutions (s\<lparr>lauRegistry := g'\<rparr>))"
        then have "execution_ok s x" using launch_invD(4) [OF inv] by simp
        then show "execution_ok (s\<lparr>lauRegistry := g'\<rparr>) x"
          using keep by (auto simp: execution_ok_def)
      qed (use inv g' in \<open>auto simp: launch_inv_def\<close>)
      then show ?thesis using asked(2) authorized(2) keep by blast
    qed (use inv asked(2) authorized(2) in auto)
  qed
qed

lemma handleDecide_cases:
  assumes "handleDecide w seen g req = Some (g', reply, exec)"
  obtains (same) "g' = g" "exec = None"
  | (approved) i h where "lookup_record g i = Some h" "recStatus h = StatusPending" "exec = Some (Record h)"
      "g' = put_record g i (h\<lparr>recStatus := StatusExecuting\<rparr>)"
      "unmarshal_decide w (rpcParams req) = Some \<lparr>dpApprovalID = i, dpApprove = True\<rparr>"
  | (denied) i h where "lookup_record g i = Some h" "recStatus h = StatusPending" "exec = None"
      "g' = put_record g i (h\<lparr>recStatus := StatusDenied, recDecided := True\<rparr>)"
proof (cases "DecodeDecideParams w (rpcParams req)")
  case (Inl e)
  then show ?thesis using assms same by (simp add: handleDecide_def)
next
  case (Inr p)
  then have p: "unmarshal_decide w (rpcParams req) = Some p"
    by (auto simp: DecodeDecideParams_def DecodeParams_def attempt_Inr require_Inr split: if_splits option.splits)
  show ?thesis
  proof (cases seen)
    case False
    then show ?thesis using assms Inr same by (simp add: handleDecide_def)
  next
    case True
    note h = assms [unfolded handleDecide_def Inr sum.case]
    show ?thesis
    proof (cases "dpApprove p")
      case True
      then obtain res where "decide g (dpApprovalID p) StatusExecuting = Some (g', res)"
        and exec: "exec = (case res of Inl e \<Rightarrow> None | Inr (r, st, changed) \<Rightarrow> if changed then Some r else None)"
        using h \<open>seen\<close> by (auto simp: Approve_def split: option.splits sum.splits prod.splits if_splits)
      then show ?thesis
        by (cases rule: decide_Executing_cases) (use True p same approved [of "dpApprovalID p"] in \<open>auto\<close>)
    next
      case False
      then obtain res where "decide g (dpApprovalID p) StatusDenied = Some (g', res)" "exec = None"
        using h \<open>seen\<close> by (auto simp: Deny_record_def split: option.splits sum.splits prod.splits if_splits)
      then show ?thesis
        by (cases rule: decide_Denied_cases) (use False same denied [of "dpApprovalID p"] in \<open>auto\<close>)
    qed
  qed
qed

lemma recID_Record [simp]: "recID (Record h) = recID h" "recAction (Record h) = recAction h" "recParams (Record h) = recParams h"
  by (simp_all add: approval_record.truncate_def)

lemma Record_updates [simp]:
  "Record (h\<lparr>recStatus := a\<rparr>) = Record h" "Record (h\<lparr>recRedeemed := b\<rparr>) = Record h"
  "Record (h\<lparr>recResponse := c\<rparr>) = Record h" "Record (h\<lparr>recDecided := b\<rparr>) = Record h"
  by (simp_all add: approval_record.truncate_def)

lemma execution_not_pending:
  assumes "launch_inv s" "x \<in> set (lauExecutions s)" "lookup_record (lauRegistry s) (recID (fst x)) = Some h"
  shows "recStatus h \<noteq> StatusPending"
  using launch_invD(4) [OF assms(1,2)] assms(3) stage_status_not_pending by (auto simp: execution_ok_def)

text \<open>One record changes, and at most its own execution with it.\<close>

lemma put_inv:
  assumes inv: "launch_inv s" and h: "lookup_record (lauRegistry s) i = Some h" and action: "recAction h' = recAction h"
    and g': "approval_inv (put_record (lauRegistry s) i h')"
    and xs: "distinct (map (recID \<circ> fst) xs)" "\<And>x. x \<in> set xs \<Longrightarrow> x \<in> set (lauExecutions s) \<and> recID (fst x) \<noteq> i \<or>
        recID (fst x) = i \<and> fst x = Record h' \<and> stage_status (lauTeardown s) (snd x) h'"
  shows "launch_inv (s\<lparr>lauRegistry := put_record (lauRegistry s) i h', lauExecutions := xs\<rparr>)" (is "launch_inv ?t")
proof (rule launch_invI)
  fix j hr assume "lookup_record (lauRegistry ?t) j = Some hr"
  then show "git_record j hr"
    using launch_invD(2) [OF inv, of j hr] launch_invD(2) [OF inv h] action by (auto simp: git_record_def split: if_splits)
next
  fix x assume "x \<in> set (lauExecutions ?t)"
  then have "x \<in> set xs" by simp
  from xs(2) [OF this] consider "x \<in> set (lauExecutions s)" "recID (fst x) \<noteq> i"
    | "recID (fst x) = i" "fst x = Record h'" "stage_status (lauTeardown s) (snd x) h'"
    by blast
  then show "execution_ok ?t x"
  proof cases
    case 1
    then show ?thesis using launch_invD(4) [OF inv, of x] by (auto simp: execution_ok_def)
  qed (auto simp: execution_ok_def)
qed (use inv g' xs(1) in \<open>auto simp: launch_inv_def\<close>)

lemma decide_inv:
  assumes inv: "launch_inv s" and "handleDecide w seen (lauRegistry s) req = Some (g', reply, exec)"
  shows "launch_inv (s\<lparr>lauRegistry := g', lauExecutions := lauExecutions s @ (case exec of None \<Rightarrow> [] | Some r \<Rightarrow> [(r, Started)])\<rparr>)"
  using assms(2)
proof (cases rule: handleDecide_cases)
  case same
  then show ?thesis using inv by simp
next
  case (approved i h)
  note ok = approval_inv_record [OF launch_invD(1) [OF inv] approved(1)]
  have fresh: "recID (fst x) \<noteq> i" if "x \<in> set (lauExecutions s)" for x
    using execution_not_pending [OF inv that] approved(1,2) by auto
  have "approval_inv g'" using decide_Executing_inv [OF launch_invD(1) [OF inv], of i] approved(1,2,4) by (simp add: decide_def)
  moreover have "recRedeemed h \<longrightarrow> False" using ok approved(2) by (simp add: record_ok_def)
  moreover have "recID h = i" using ok by (simp add: record_ok_def)
  ultimately have "launch_inv (s\<lparr>lauRegistry := put_record (lauRegistry s) i (h\<lparr>recStatus := StatusExecuting\<rparr>),
      lauExecutions := lauExecutions s @ [(Record h, Started)]\<rparr>)"
    by (intro put_inv [OF inv approved(1)]) (use launch_invD(3) [OF inv] approved(4) in \<open>auto dest: fresh\<close>)
  then show ?thesis using approved(3,4) by simp
next
  case (denied i h)
  have fresh: "recID (fst x) \<noteq> i" if "x \<in> set (lauExecutions s)" for x
    using execution_not_pending [OF inv that] denied(1,2) by auto
  have "approval_inv g'"
    using decide_Denied_inv [OF launch_invD(1) [OF inv], of i] approval_inv_record [OF launch_invD(1) [OF inv] denied(1)] denied(1,2,4)
    by (auto simp: decide_def record_ok_def)
  then show ?thesis
    using put_inv [OF inv denied(1), of "h\<lparr>recStatus := StatusDenied, recDecided := True\<rparr>" "lauExecutions s"]
      launch_invD(3) [OF inv] fresh denied(3,4)
    by auto
qed

text \<open>One execution moves to another stage, or ends, and the registry keeps the other records.\<close>

lemma replace_distinct:
  assumes "distinct (map (recID \<circ> fst) xs)" "n < length xs" "xs ! n = (r, st)"
  shows "distinct (map (recID \<circ> fst) (xs[n := (r, st')]))"
    "x \<in> set (xs[n := (r, st')]) \<Longrightarrow> x = (r, st') \<or> x \<in> set xs \<and> recID (fst x) \<noteq> recID r"
proof -
  have "map (recID \<circ> fst) (xs[n := (r, st')]) = map (recID \<circ> fst) xs"
    using assms(2,3) by (simp add: map_update list_update_same_conv)
  then show "distinct (map (recID \<circ> fst) (xs[n := (r, st')]))" using assms(1) by simp
  assume "x \<in> set (xs[n := (r, st')])"
  then obtain m where m: "m < length xs" "x = xs[n := (r, st')] ! m" by (auto simp: in_set_conv_nth)
  then show "x = (r, st') \<or> x \<in> set xs \<and> recID (fst x) \<noteq> recID r"
    using other_execution [OF assms(1,2) m(1)] assms(2,3) by (cases "m = n") auto
qed

lemma remove_distinct:
  assumes "distinct (map (recID \<circ> fst) xs)" "n < length xs" "xs ! n = (r, st)"
  shows "distinct (map (recID \<circ> fst) (take n xs @ drop (Suc n) xs))"
    "x \<in> set (take n xs @ drop (Suc n) xs) \<Longrightarrow> x \<in> set xs \<and> recID (fst x) \<noteq> recID r"
proof -
  have xs: "xs = take n xs @ (r, st) # drop (Suc n) xs" using id_take_nth_drop [OF assms(2)] assms(3) by simp
  have "distinct (map (recID \<circ> fst) (take n xs @ (r, st) # drop (Suc n) xs))" using assms(1) xs by simp
  then show "distinct (map (recID \<circ> fst) (take n xs @ drop (Suc n) xs))"
    "x \<in> set (take n xs @ drop (Suc n) xs) \<Longrightarrow> x \<in> set xs \<and> recID (fst x) \<noteq> recID r"
    by (auto simp: image_iff dest: in_set_takeD in_set_dropD)
qed

lemma restage_inv:
  assumes inv: "launch_inv s" and n: "n < length (lauExecutions s)" "lauExecutions s ! n = (r, st)"
    and ok: "\<And>h. lookup_record (lauRegistry s) (recID r) = Some h \<Longrightarrow> stage_status (lauTeardown s) st h \<Longrightarrow> stage_status (lauTeardown s) st' h"
  shows "launch_inv (replace_at n (r, st') s)"
proof (rule launch_invI)
  note d = replace_distinct [OF launch_invD(3) [OF inv] n, where st' = st']
  show "distinct (map (recID \<circ> fst) (lauExecutions (replace_at n (r, st') s)))" using d(1) by (simp add: replace_at_def)
  have "execution_ok s (r, st)" using launch_invD(4) [OF inv] n nth_mem by metis
  then have "execution_ok s (r, st')" using ok by (auto simp: execution_ok_def)
  moreover fix x assume "x \<in> set (lauExecutions (replace_at n (r, st') s))"
  ultimately have "execution_ok s x" using d(2) [of x] launch_invD(4) [OF inv, of x] by (auto simp: replace_at_def)
  then show "execution_ok (replace_at n (r, st') s) x" by (simp add: execution_ok_def replace_at_def)
qed (use inv in \<open>auto simp: launch_inv_def replace_at_def\<close>)

lemma remove_inv:
  assumes inv: "launch_inv s" and n: "n < length (lauExecutions s)" "lauExecutions s ! n = (r, st)"
  shows "launch_inv (remove_at n s)"
proof (rule launch_invI)
  note d = remove_distinct [OF launch_invD(3) [OF inv] n]
  show "distinct (map (recID \<circ> fst) (lauExecutions (remove_at n s)))" using d(1) by (simp add: remove_at_def)
  fix x assume "x \<in> set (lauExecutions (remove_at n s))"
  then have "execution_ok s x" using d(2) [of x] launch_invD(4) [OF inv, of x] by (auto simp: remove_at_def)
  then show "execution_ok (remove_at n s) x" by (simp add: execution_ok_def remove_at_def)
qed (use inv in \<open>auto simp: launch_inv_def remove_at_def\<close>)

text \<open>
  The dispatch of a held request: its record is still executing and unredeemed, so the grant is
  redeemed, exactly when the handler gets as far as asking.
\<close>

lemma dispatch_git_inv:
  assumes inv: "launch_inv s" and n: "n < length (lauExecutions s)" "lauExecutions s ! n = (r, Dispatching True)"
    and route: "route (Some router) (held_request r) = Inr (Git m)" and m: "git_method_name m = recAction r"
    and svc: "gitResolver svc \<longrightarrow> gitApprover svc"
    and handled: "handleGit w h svc cfg (lauRegistry s) \<lparr>callGrant = WithGrant None (recID r), callNow = now, callDraws = draws\<rparr> m (held_request r) =
      Some (g', reply, trace)"
  shows "launch_inv (replace_at n (r, Saving True response) (s\<lparr>lauRegistry := g'\<rparr>)) \<and>
    (g' = lauRegistry s \<and> trace = None \<or> RedeemGrant (lauRegistry s) (recID r) (recAction r) = (g', None))"
proof -
  have "execution_ok s (r, Dispatching True)" using launch_invD(4) [OF inv] n nth_mem by metis
  then obtain hr where hr: "lookup_record (lauRegistry s) (recID r) = Some hr" "Record hr = r" "\<not> recRedeemed hr"
      "recStatus hr = StatusExecuting" "lauTeardown s \<in> {Serving, Closing}"
    by (auto simp: execution_ok_def)
  have act: "recAction hr = recAction r" and i: "recID r \<noteq> ''''"
    using hr(2) launch_invD(2) [OF inv hr(1)] by (auto simp: git_record_def)
  from handled svc show ?thesis
  proof (cases rule: handleGit_cases)
    case quiet
    then show ?thesis using restage_inv [OF inv n, of "Saving True response"] hr by auto
  next
    case (authorized name message v)
    then have redeem: "RedeemGrant (lauRegistry s) (recID r) (recAction r) = (g', v)"
      using Authorize_grant [OF i] m by (simp add: WithGrant_def)
    then have g': "g' = put_record (lauRegistry s) (recID r) (hr\<lparr>recRedeemed := True\<rparr>)" "v = None"
      using hr act by (auto simp: RedeemGrant_def)
    note d = replace_distinct [OF launch_invD(3) [OF inv] n, where st' = "Saving True response"]
    have xs: "x \<in> set (lauExecutions s) \<and> recID (fst x) \<noteq> recID r \<or> recID (fst x) = recID r \<and>
        fst x = Record (hr\<lparr>recRedeemed := True\<rparr>) \<and> stage_status (lauTeardown s) (snd x) (hr\<lparr>recRedeemed := True\<rparr>)"
      if "x \<in> set ((lauExecutions s)[n := (r, Saving True response)])" for x
      using d(2) [OF that] hr by auto
    have "approval_inv g'" using RedeemGrant_inv [OF launch_invD(1) [OF inv] redeem] .
    then have "launch_inv (s\<lparr>lauRegistry := put_record (lauRegistry s) (recID r) (hr\<lparr>recRedeemed := True\<rparr>),
        lauExecutions := (lauExecutions s)[n := (r, Saving True response)]\<rparr>)"
      using g'(1) by (intro put_inv [OF inv hr(1) _ _ d(1) xs]) auto
    then show ?thesis using g' redeem by (simp add: replace_at_def)
  qed
qed

lemma save_inv:
  assumes inv: "launch_inv s" and n: "n < length (lauExecutions s)" "lauExecutions s ! n = (r, Saving True response)"
    and save: "SaveResponse (lauRegistry s) (recID r) response = Some (g', v)"
  shows "launch_inv (remove_at n (s\<lparr>lauRegistry := g'\<rparr>)) \<and> v = None \<and>
    (\<exists>hr. lookup_record g' (recID r) = Some hr \<and> Record hr = r \<and> recStatus hr = StatusCompleted \<and> recResponse hr = response)"
proof -
  have "execution_ok s (r, Saving True response)" using launch_invD(4) [OF inv] n nth_mem by metis
  then obtain hr where hr: "lookup_record (lauRegistry s) (recID r) = Some hr" "Record hr = r" "recStatus hr = StatusExecuting"
    by (auto simp: execution_ok_def)
  let ?h = "hr\<lparr>recStatus := StatusCompleted, recResponse := response, recDecided := True\<rparr>"
  have g': "g' = put_record (lauRegistry s) (recID r) ?h" "v = None"
    using save hr by (auto simp: SaveResponse_def close_chan_def split: option.splits if_splits)
  have "approval_inv g'" using SaveResponse_inv [OF launch_invD(1) [OF inv] save] .
  then have "launch_inv (s\<lparr>lauRegistry := put_record (lauRegistry s) (recID r) ?h,
      lauExecutions := take n (lauExecutions s) @ drop (Suc n) (lauExecutions s)\<rparr>)"
    using remove_distinct [OF launch_invD(3) [OF inv] n] hr g'(1) by (intro put_inv [OF inv hr(1)]) auto
  then show ?thesis using g' hr(2) by (simp add: remove_at_def)
qed

lemma sweep_inv:
  assumes inv: "launch_inv s" and td: "lauTeardown s = Joined" and "DenyAll (lauRegistry s) = Some g'"
  shows "launch_inv (s\<lparr>lauRegistry := g', lauTeardown := Swept\<rparr>)" (is "launch_inv ?t")
proof -
  note reg = launch_invD(1) [OF inv]
  have g': "lookup_record g' i = map_option deny_record (lookup_record (lauRegistry s) i)" for i
    using assms(3) DenyAll_eq [OF reg] by (auto simp: map_of_map_ran)
  show ?thesis
  proof (rule launch_invI)
    fix i hr assume "lookup_record (lauRegistry ?t) i = Some hr"
    then show "git_record i hr" using launch_invD(2) [OF inv, of i] g' by (auto simp: git_record_def)
  next
    fix x assume "x \<in> set (lauExecutions ?t)"
    then obtain h where h: "lookup_record (lauRegistry s) (recID (fst x)) = Some h" "Record h = fst x" "stage_status Joined (snd x) h"
      using launch_invD(4) [OF inv, of x] td by (auto simp: execution_ok_def)
    then have "stage_status Swept (snd x) (deny_record h)"
      by (cases "(Joined, snd x, h)" rule: stage_status.cases) (auto simp: deny_record_def)
    then show "execution_ok ?t x" using h g' by (auto simp: execution_ok_def)
  qed (use inv DenyAll_inv [OF reg assms(3)] td in \<open>auto simp: launch_inv_def\<close>)
qed

lemma teardown_inv:
  assumes inv: "launch_inv s"
  shows "lauTeardown s = Serving \<Longrightarrow> launch_inv (s\<lparr>lauBound := False, lauTeardown := Closing\<rparr>)"
    "lauTeardown s = Closing \<Longrightarrow> list_all (\<lambda>(r, st). \<not> counted st) (lauExecutions s) \<Longrightarrow> launch_inv (s\<lparr>lauTeardown := Joined\<rparr>)"
proof -
  have "stage_status Closing st h" if "stage_status Serving st h" for st h
    using that by (cases "(Serving, st, h)" rule: stage_status.cases) auto
  then show "lauTeardown s = Serving \<Longrightarrow> launch_inv (s\<lparr>lauBound := False, lauTeardown := Closing\<rparr>)"
    using inv by (fastforce simp: launch_inv_def list_all_iff execution_ok_def)
  show "lauTeardown s = Closing \<Longrightarrow> list_all (\<lambda>(r, st). \<not> counted st) (lauExecutions s) \<Longrightarrow> launch_inv (s\<lparr>lauTeardown := Joined\<rparr>)"
    using inv by (fastforce simp: launch_inv_def list_all_iff execution_ok_def counted_def)
qed

section \<open>The steps of a launch\<close>

definition launch_methods :: "(string \<times> handler) list" where
  "launch_methods =
     [(MethodWait, ApprovalsWait), (MethodDecide, ApprovalsDecide), (MethodList, ApprovalsList), (MethodTag, Git GitTag),
      (MethodRebase, Git GitRebase), (MethodPush, Git GitPush), (MethodFetch, Git GitFetch), (MethodCommit, Git GitCommit)]"

lemmas method_names = MethodCommit_def MethodFetch_def MethodPush_def MethodRebase_def MethodTag_def
  MethodList_def MethodDecide_def MethodWait_def

lemma launch_router_ok: "launch_router = Inr launch_methods"
  by (simp add: launch_router_def NewRouter_def git_methods_def approvals_methods_def launch_methods_def method_names)

lemma route_git: "route (Some launch_methods) req = Inr (Git m) \<longleftrightarrow> rpcMethod req = git_method_name m"
  by (cases m) (auto simp: route_def launch_methods_def method_names split: option.splits if_splits)

lemma native_git: "native_Handle w (Some launch_methods) payload = Inr (Git m, req) \<Longrightarrow> rpcMethod req = git_method_name m"
  using route_git [of req m] by (auto simp: native_Handle_def split: sum.splits)

abbreviation launches :: "wire \<Rightarrow> approval_config \<Rightarrow> launch \<Rightarrow> 'd launch_event \<Rightarrow> launch \<Rightarrow> bool" where
  "launches w cfg \<equiv> launch_step w cfg launch_methods"

lemma held_git:
  assumes "route (Some launch_methods) (held_request r) = Inr (Git m)" shows "git_method_name m = recAction r"
  using assms route_git by (auto simp: held_request_def)

text \<open>A held request always has a Git method, so it is always routed.\<close>

lemma held_routed:
  assumes "launch_inv s" "x \<in> set (lauExecutions s)"
  shows "\<exists>m. route (Some launch_methods) (held_request (fst x)) = Inr (Git m)"
proof -
  obtain h where h: "lookup_record (lauRegistry s) (recID (fst x)) = Some h" "Record h = fst x"
    using launch_invD(4) [OF assms] by (auto simp: execution_ok_def)
  then have "recAction (fst x) \<in> range git_method_name"
    using launch_invD(2) [OF assms(1) h(1)] by (metis git_record_def recID_Record(2))
  then show ?thesis using route_git [of "held_request (fst x)"] by (auto simp: held_request_def)
qed

lemma capture_inv:
  assumes inv: "launch_inv s" and n: "n < length (lauExecutions s)" "lauExecutions s ! n = (r, Started)"
  shows "launch_inv (replace_at n (r, Dispatching (lauBound s)) s)"
  using launch_invD(5) [OF inv] by (intro restage_inv [OF inv n]) (cases "lauBound s"; auto)

lemma launch_step_inv:
  assumes inv: "launch_inv s" and step: "launches w cfg s e t" shows "launch_inv t"
  using step
proof cases
  case (git_request payload m req svc draws h now g' reply trace)
  then show ?thesis using git_request_inv [OF inv] by blast
next
  case (dispatch_git n r m svc draws h now g' reply trace)
  then show ?thesis using dispatch_git_inv [OF inv dispatch_git(3,4,5) held_git [OF dispatch_git(5)]] by blast
next
  case (dispatch_unrouted n r e' reply)
  then show ?thesis using held_routed [OF inv, of "(r, Dispatching True)"] nth_mem by fastforce
next
  case (dispatch_detached n r)
  then show ?thesis using restage_inv [OF inv dispatch_detached(3,4)] by simp
qed (use decide_inv [OF inv] capture_inv [OF inv] save_inv [OF inv] remove_inv [OF inv] teardown_inv [OF inv] sweep_inv [OF inv] in auto)

interpretation launch_system: step_invariant "launches w cfg" launch_inv for w cfg
  by unfold_locales (rule launch_step_inv)

lemma launch_step_evolves:
  assumes inv: "launch_inv s" and step: "launches w cfg s e t"
  shows "registry_evolves (lauRegistry s) (lauRegistry t)"
proof -
  note reg = launch_invD(1) [OF inv] and evolves = approval_step_evolves [OF launch_invD(1) [OF inv]]
  from step show ?thesis
  proof cases
    case (git_request payload m req svc draws h now g' reply trace)
    then show ?thesis using git_request_inv [OF inv git_request(5,4,6)] by (auto simp: registry_evolves_def)
  next
    case (decide_request payload req seen g' reply exec)
    from decide_request(4) show ?thesis
    proof (cases rule: handleDecide_cases)
      case (approved i h)
      then show ?thesis using decide_request(2) registry_evolves_put [of "lauRegistry s" i h] by (simp add: record_evolves_def)
    next
      case (denied i h)
      then show ?thesis using decide_request(2) registry_evolves_put [of "lauRegistry s" i h] by (simp add: record_evolves_def)
    qed (use decide_request(2) registry_evolves_refl in simp)
  next
    case (dispatch_git n r m svc draws h now g' reply trace)
    have "g' = lauRegistry s \<or> RedeemGrant (lauRegistry s) (recID r) (recAction r) = (g', None)"
      using dispatch_git_inv [OF inv dispatch_git(3,4,5) held_git [OF dispatch_git(5)] dispatch_git(6,8)] by blast
    then have "registry_evolves (lauRegistry s) g'"
      using evolves [OF step_redeem] registry_evolves_refl by blast
    then show ?thesis using dispatch_git(2) by (simp add: replace_at_def)
  next
    case (save n r response g' v)
    then show ?thesis using evolves [OF step_save] by (simp add: remove_at_def)
  next
    case (sweep g')
    then show ?thesis using evolves [OF step_deny_all] by simp
  qed (simp_all add: replace_at_def remove_at_def registry_evolves_refl)
qed

section \<open>Commands under a grant\<close>

fun runs_granted :: "string \<Rightarrow> 'd launch_event \<Rightarrow> bool" where
  "runs_granted i (LGit m ctx req reply trace) = (ctx = Some i \<and> trace \<noteq> None)"
| "runs_granted i _ = False"

definition grant_redeemed :: "string \<Rightarrow> launch \<Rightarrow> bool" where
  "grant_redeemed i s = grant_spent i (lauRegistry s)"

lemma evolves_spent: "registry_evolves g g' \<Longrightarrow> grant_spent i g \<Longrightarrow> grant_spent i g'"
  by (fastforce simp: grant_spent_def registry_evolves_def record_evolves_def)

inductive_cases granted_step: "launches w cfg s (LGit m (Some i) req reply trace) t"

text \<open>A command under a grant comes from the execution of the record the grant names.\<close>

lemma granted_dispatch:
  assumes inv: "launch_inv s" and "launches w cfg s (LGit m (Some i) req reply (Some c)) t"
  shows "\<exists>n r. n < length (lauExecutions s) \<and> lauExecutions s ! n = (r, Dispatching True) \<and> recID r = i \<and>
    req = held_request r \<and> git_method_name m = recAction r \<and>
    RedeemGrant (lauRegistry s) i (recAction r) = (lauRegistry t, None)"
  using assms(2)
proof (rule granted_step)
  fix n r svc draws h now g'
  assume t: "t = replace_at n (r, Saving True (dispatchHeld w True r reply)) (s\<lparr>lauRegistry := g'\<rparr>)"
    and n: "n < length (lauExecutions s)" "lauExecutions s ! n = (r, Dispatching True)"
    and route: "route (Some launch_methods) (held_request r) = Inr (Git m)" and svc: "gitResolver svc \<longrightarrow> gitApprover svc"
    and run: "handleGit w h svc cfg (lauRegistry s) \<lparr>callGrant = WithGrant None (recID r), callNow = now, callDraws = draws\<rparr> m
        (held_request r) = Some (g', reply, Some c)"
    and "Some i = WithGrant None (recID r)" "req = held_request r"
  moreover have "RedeemGrant (lauRegistry s) (recID r) (recAction r) = (g', None)"
    using dispatch_git_inv [OF inv n route held_git [OF route] svc run] by blast
  ultimately show ?thesis using held_git [OF route] by (auto simp: WithGrant_def replace_at_def)
qed

interpretation launch_grant: one_shot "launches w cfg" launch_inv "runs_granted i" "grant_redeemed i" for w cfg i
proof unfold_locales
  fix s :: launch and l :: "'b launch_event" and t
  assume inv: "launch_inv s" and step: "launches w cfg s l t"
  show "grant_redeemed i t" if "grant_redeemed i s"
    using that evolves_spent [OF launch_step_evolves [OF inv step]] by (simp add: grant_redeemed_def)
  assume "runs_granted i l"
  then obtain m req reply c where l: "l = LGit m (Some i) req reply (Some c)" by (cases "(i, l)" rule: runs_granted.cases) auto
  obtain r :: approval_record where "RedeemGrant (lauRegistry s) i (recAction r) = (lauRegistry t, None)"
    using granted_dispatch [OF inv step [unfolded l]] by blast
  then have "\<not> grant_spent i (lauRegistry s) \<and> grant_spent i (lauRegistry t)"
    by (cases rule: RedeemGrant_cases) (auto simp: grant_spent_def)
  then show "\<not> grant_redeemed i s \<and> grant_redeemed i t" by (simp add: grant_redeemed_def)
qed

definition approved_in :: "launch \<Rightarrow> approval_record \<Rightarrow> bool" where
  "approved_in s r \<longleftrightarrow> under_execution (lauRegistry s) (recID r, r)"

definition approves :: "wire \<Rightarrow> approval_record \<Rightarrow> 'd launch_event \<Rightarrow> bool" where
  "approves w r e \<longleftrightarrow> (\<exists>req reply. e = LDecide req reply (Some r) \<and>
     unmarshal_decide w (rpcParams req) = Some \<lparr>dpApprovalID = recID r, dpApprove = True\<rparr>)"

lemma approved_lookup_same:
  assumes "approved_in t r" "lookup_record (lauRegistry t) (recID r) = lookup_record (lauRegistry s) (recID r)"
  shows "approved_in s r"
  using assms by (simp add: approved_in_def under_execution_def)

text \<open>The records under execution have all been approved by a decision.\<close>

lemma approved_put:
  assumes "approved_in t r" "lauRegistry t = put_record (lauRegistry s) i h'" "lookup_record (lauRegistry s) i = Some h" "Record h' = Record h"
    "recStatus h' \<in> {StatusExecuting, StatusCompleted} \<Longrightarrow> recStatus h \<in> {StatusExecuting, StatusCompleted}"
  shows "approved_in s r"
  using assms by (auto simp: approved_in_def under_execution_def split: if_splits)

interpretation launch_approvals: explained "launches w cfg" launch_inv approved_in "approves w" for w cfg
proof unfold_locales
  fix s :: launch and l :: "'b launch_event" and t r
  assume inv: "launch_inv s" and step: "launches w cfg s l t" and now: "approved_in t r"
  note reg = launch_invD(1) [OF inv]
  from step show "approved_in s r \<or> approves w r l"
  proof cases
    case (git_request payload m req svc draws h now' g' reply trace)
    have "approved_in (s\<lparr>lauRegistry := g'\<rparr>) r" using now git_request(2) by simp
    from git_request(6,4) show ?thesis
    proof (cases rule: handleGit_cases)
      case quiet
      then show ?thesis using now git_request(2) by simp
    next
      case (authorized name message v)
      from authorized(1) have "Authorize cfg (lauRegistry s) None (git_approval m name message req) now' draws = Some (g', v)" by simp
      then show ?thesis
      proof (cases rule: Authorize_request)
        case (asked res)
        from asked(1) reg show ?thesis
          by (cases rule: Create_cases)
            (use now git_request(2) in \<open>auto simp: approved_in_def under_execution_def split: if_splits\<close>)
      qed (use now git_request(2) in simp_all)
    qed
  next
    case (decide_request payload req seen g' reply exec)
    from decide_request(4) show ?thesis
    proof (cases rule: handleDecide_cases)
      case same
      then show ?thesis using now decide_request(2) by (simp add: approved_in_def)
    next
      case (approved i h)
      have "recID h = i" using approval_inv_record [OF reg approved(1)] by (simp add: record_ok_def)
      then show ?thesis
        using now decide_request(1,2) approved
        by (cases "recID r = i") (auto simp: approved_in_def under_execution_def approves_def)
    next
      case (denied i h)
      then show ?thesis using approved_put [OF now, of s i "h\<lparr>recStatus := StatusDenied, recDecided := True\<rparr>" h] decide_request(2) by simp
    qed
  next
    case (dispatch_git n q m svc draws h now' g' reply trace)
    have "g' = lauRegistry s \<or> RedeemGrant (lauRegistry s) (recID q) (recAction q) = (g', None)"
      using dispatch_git_inv [OF inv dispatch_git(3,4,5) held_git [OF dispatch_git(5)] dispatch_git(6,8)] by blast
    then show ?thesis
    proof
      assume "g' = lauRegistry s"
      then show ?thesis using now dispatch_git(2) by (simp add: approved_in_def replace_at_def)
    next
      assume "RedeemGrant (lauRegistry s) (recID q) (recAction q) = (g', None)"
      then show ?thesis
        by (cases rule: RedeemGrant_cases) (use approved_put [OF now, of s] dispatch_git(2) in \<open>simp add: replace_at_def\<close>)+
    qed
  next
    case (save n q response g' v)
    from save(5) show ?thesis
    proof (cases rule: SaveResponse_cases)
      case refused
      then show ?thesis using now save(2) by (simp add: approved_in_def remove_at_def)
    next
      case (saved h)
      then show ?thesis using approved_put [OF now, of s "recID q" _ h] save(2) by (simp add: remove_at_def)
    qed
  next
    case (sweep g')
    then show ?thesis
      using now DenyAll_eq [OF reg] by (auto simp: approved_in_def under_execution_def map_of_map_ran deny_record_def split: if_splits)
  qed (use now in \<open>auto simp: approved_in_def replace_at_def remove_at_def\<close>)
qed

text \<open>What one event of a granted command says of the state before it.\<close>

lemma granted_execution:
  assumes inv: "launch_inv s" and "launches w cfg s (LGit m (Some i) req reply (Some c)) t"
  shows "\<exists>r. approved_in s r \<and> recID r = i \<and> req = held_request r \<and> rpcMethod req = git_method_name m"
proof -
  obtain n r where r: "n < length (lauExecutions s)" "lauExecutions s ! n = (r, Dispatching True)" "recID r = i"
      "req = held_request r" "git_method_name m = recAction r"
    using granted_dispatch [OF assms] by blast
  have "execution_ok s (r, Dispatching True)" using launch_invD(4) [OF inv] r(1,2) nth_mem by metis
  then have "approved_in s r" by (auto simp: execution_ok_def approved_in_def under_execution_def)
  with r show ?thesis by (auto simp: held_request_def)
qed

lemma granted_contexts:
  assumes "launches w cfg s (LGit m None req reply (Some c)) t" and "launch_inv s"
  shows "Resolve (PermissionRule (cfgActions cfg) (git_method_name m)) (git_default m) (cfgYolo cfg) = Allow \<and>
    rpcMethod req = git_method_name m"
  using assms(1)
proof cases
  case (git_request payload svc draws h now g')
  then show ?thesis using git_request_inv [OF assms(2) git_request(4,3,5)] native_git by blast
qed (simp add: WithGrant_def)

end
