(* ===== verification/HostAction_Properties.thy ===== *)
theory HostAction_Properties
  imports HostAction_Runs
begin

text \<open>
  The properties of host actions: what commands Git is ever run with, who authorized them, how
  an approved request finishes across teardown, and the timeout of a wait.
\<close>

section \<open>Commands\<close>

definition git_argument :: "string \<Rightarrow> bool" where
  "git_argument v \<longleftrightarrow> v \<noteq> '''' \<and> \<not> prefix ''-'' v \<and> NUL \<notin> set v"

definition git_message :: "string \<Rightarrow> bool" where
  "git_message v \<longleftrightarrow> TrimSpace v \<noteq> '''' \<and> NUL \<notin> set v"

definition plain_repository :: "string \<Rightarrow> bool" where
  "plain_repository name \<longleftrightarrow> name \<noteq> '''' \<and> NUL \<notin> set name \<and> list_all (\<lambda>s. s \<notin> {'''', ''.'', ''..''}) (split_slash name)"

fun git_form :: "git_method \<Rightarrow> string list \<Rightarrow> bool" where
  "git_form GitCommit args \<longleftrightarrow> (\<exists>amend \<in> {[], [''--amend'']}. \<exists>message. git_message message \<and> args = [''commit''] @ amend @ [''-m'', message])"
| "git_form GitFetch args \<longleftrightarrow> args = [''fetch'']"
| "git_form GitPush args \<longleftrightarrow> (\<exists>tags \<in> {[], [''--tags'']}. \<exists>origin branch. git_argument origin \<and> git_argument branch \<and>
     args = [''push''] @ tags @ [origin, branch])"
| "git_form GitRebase args \<longleftrightarrow> args = [''-c'', ''core.editor=true'', ''rebase'', ''--continue''] \<or> args = [''rebase'', ''--abort''] \<or>
     (\<exists>base. git_argument base \<and> args = [''rebase'', base])"
| "git_form GitTag args \<longleftrightarrow> (\<exists>tag message target. git_argument tag \<and> git_message message \<and> length target \<le> 1 \<and> list_all git_argument target \<and>
     args = [''tag'', ''-a'', tag, ''-m'', message] @ target)"

lemma validateGitArgument_Inr: "validateGitArgument v = Inr u \<Longrightarrow> git_argument u"
  by (auto simp: validateGitArgument_def git_argument_def Let_def split: if_splits)

lemma validateRepositoryName_Inr: "validateRepositoryName v = Inr u \<Longrightarrow> plain_repository u"
  by (auto simp: validateRepositoryName_def plain_repository_def Let_def list_ex_iff list_all_iff split: if_splits)

lemma validate_message_None: "validate_message v = None \<Longrightarrow> git_message v"
  by (auto simp: validate_message_def git_message_def fail_if_def split: if_splits)

lemma git_decoded_form:
  assumes "git_decoded w m raw = Inr (name, message, Inr (repository, args))"
  shows "plain_repository repository \<and> git_form m args"
  using assms
  by (cases m)
    (auto simp: attempt_Inr require_Inr commit_command_def fetch_command_def push_command_def rebase_command_def tag_command_def
      git_argument_def [of "''origin''"] dest!: validateGitArgument_Inr validateRepositoryName_Inr validate_message_None split: if_splits)

lemma exit_code_range: "0 \<le> exit_code cancel errs code \<and> exit_code cancel errs code \<le> 255"
  by (auto simp: exit_code_def)

section \<open>A concrete launch\<close>

definition push_id :: string where
  "push_id = ''0102030405ff''"

text \<open>A push that asks, is approved, executed, answered, and then the teardown.\<close>

definition ex_push :: rpc_request where
  "ex_push = \<lparr>rpcVersion = ''2.0'', rpcID = [49], rpcMethod = ''git.push'', rpcParams = [123, 125]\<rparr>"

definition ex_decide :: rpc_request where
  "ex_decide = \<lparr>rpcVersion = ''2.0'', rpcID = [50], rpcMethod = ''approvals.decide'', rpcParams = [123]\<rparr>"

definition ex_wire :: wire where
  "ex_wire =
     \<lparr>marshal_response = (\<lambda>r. Some [123]),
      unmarshal_request = (\<lambda>payload. Some (if payload = [1] then ex_push else ex_decide)),
      unmarshal_repository = (\<lambda>b. None), unmarshal_commit = (\<lambda>b. None),
      unmarshal_push = (\<lambda>b. Some \<lparr>ppRepository = ''app'', ppBranch = ''main'', ppOrigin = '''', ppTags = False\<rparr>),
      unmarshal_rebase = (\<lambda>b. None), unmarshal_tag = (\<lambda>b. None),
      unmarshal_decide = (\<lambda>b. Some \<lparr>dpApprovalID = push_id, dpApprove = True\<rparr>), unmarshal_wait = (\<lambda>b. None)\<rparr>"

definition ex_host :: "string host" where
  "ex_host =
     \<lparr>open_visible = (\<lambda>n. Some (Some (''/src/'' @ n))), is_directory = (\<lambda>d. Some True), new_capture = (\<lambda>s. None),
      run_command = (\<lambda>d a. \<lparr>runCode = 0, runError = None, runStdout = Inr '''', runStderr = Inr ''''\<rparr>), cancelled = False\<rparr>"

definition ex_service :: git_service where
  "ex_service = \<lparr>gitResolver = True, gitApprover = True, gitRunner = True\<rparr>"

definition ex_config :: approval_config where
  "ex_config = \<lparr>cfgActions = [], cfgYolo = False\<rparr>"

lemma ex_words: "TrimSpace ''app'' = ''app''" "TrimSpace ''main'' = ''main''" "TrimSpace '''' = ''''"
  "split_slash ''app'' = [''app'']" "\<not> IsAbs ''app''"
  by code_simp+

lemma ex_push_decoded:
  "git_decoded ex_wire GitPush [123, 125] =
     Inr (''Git push'', ''Push main to origin in app'', Inr (''app'', [''push'', ''origin'', ''main'']))"
  by (simp add: ex_wire_def DecodePushParams_def DecodeParams_def push_command_def validateRepositoryName_def validateGitArgument_def
      ex_words fail_if_def Let_def)

definition ex_held :: held_record where
  "ex_held = new_record push_id (git_approval GitPush ''Git push'' ''Push main to origin in app'' ex_push) 7"

abbreviation ex_record :: approval_record where
  "ex_record \<equiv> Record ex_held"

definition held_registry :: "held_record \<Rightarrow> registry" where
  "held_registry h = \<lparr>records = [(push_id, h)]\<rparr>"

lemma ex_held_simps [simp]: "recStatus ex_held = StatusPending" "recID ex_held = push_id" "recAction ex_held = ''git.push''"
  "recParams ex_held = [123, 125]" "recRedeemed ex_held = False" "recDecided ex_held = False" "held_request ex_record = ex_push"
  by (simp_all add: ex_held_def held_request_def git_approval_def ex_push_def MethodPush_def JSONRPCVersion_def
      new_record_def approval_record.truncate_def)

definition ask_reply :: "bytes \<times> handler_error option" where
  "ask_reply = ([123, 10], Some (Errno EAGAIN))"

definition ok_reply :: "bytes \<times> handler_error option" where
  "ok_reply = ([123, 10], None)"

lemma ex_replies [simp]: "ResponseOK ex_wire i r = [123, 10]" "ResponseError ex_wire i c e d = [123, 10]"
  by (simp_all add: ResponseOK_def ResponseError_def ex_wire_def)

lemma ex_native [simp]: "native_Handle ex_wire (Some launch_methods) [1] = Inr (Git GitPush, ex_push)"
  "native_Handle ex_wire (Some launch_methods) [2] = Inr (ApprovalsDecide, ex_decide)"
  by (simp_all add: native_Handle_def DecodeRequest_def route_def launch_methods_def method_names ex_wire_def ex_push_def ex_decide_def
      JSONRPCVersion_def)

lemma ex_ask:
  "handleGit ex_wire ex_host ex_service ex_config NewRegistry
     \<lparr>callGrant = None, callNow = 7, callDraws = [Some [1, 2, 3, 4, 5, 255]]\<rparr> GitPush ex_push =
   Some (held_registry ex_held, ask_reply, None)"
proof -
  have "Create NewRegistry (git_approval GitPush ''Git push'' ''Push main to origin in app'' ex_push) 7 [Some [1, 2, 3, 4, 5, 255]] =
      Some (held_registry ex_held, Inr ex_record)"
    by (simp add: Create_def NewRegistry_def maxLiveRecords_def hex_EncodeToString_def hex_digit_def ex_held_def held_registry_def push_id_def Let_def)
  then have "approve ex_service ex_config NewRegistry \<lparr>callGrant = None, callNow = 7, callDraws = [Some [1, 2, 3, 4, 5, 255]]\<rparr>
      ex_push MethodPush ''Git push'' ''Push main to origin in app'' RuleAsk =
      Some (held_registry ex_held, Some (ApprovalFailed (PendingError push_id (recName ex_record) (recMessage ex_record))))"
    by (simp add: approve_def ex_service_def Authorize_def grantFrom_def ex_config_def PermissionRule_def Resolve_def git_approval_def)
  moreover have "rpcParams ex_push = [123, 125]" by (simp add: ex_push_def)
  ultimately show ?thesis by (simp add: handleGit_def handle_git_def ex_push_decoded ask_reply_def del: git_decoded.simps)
qed

lemma ex_approve:
  "handleDecide ex_wire True (held_registry ex_held) ex_decide =
     Some (held_registry (ex_held\<lparr>recStatus := StatusExecuting\<rparr>), ok_reply, Some ex_record)"
proof -
  have "DecodeDecideParams ex_wire [123] = Inr \<lparr>dpApprovalID = push_id, dpApprove = True\<rparr>"
    by (simp add: DecodeDecideParams_def DecodeParams_def ex_wire_def push_id_def)
  then show ?thesis
    by (simp add: handleDecide_def ex_decide_def held_registry_def Approve_def decide_def put_record_def ok_reply_def)
qed

lemma ex_execute:
  "handleGit ex_wire ex_host ex_service ex_config (held_registry (ex_held\<lparr>recStatus := StatusExecuting\<rparr>))
     \<lparr>callGrant = Some push_id, callNow = 8, callDraws = []\<rparr> GitPush ex_push =
   Some (held_registry (ex_held\<lparr>recStatus := StatusExecuting, recRedeemed := True\<rparr>), ok_reply,
     Some (''/src/app'', [''git'', ''push'', ''origin'', ''main'']))"
proof -
  have "approve ex_service ex_config (held_registry (ex_held\<lparr>recStatus := StatusExecuting\<rparr>))
      \<lparr>callGrant = Some push_id, callNow = 8, callDraws = []\<rparr> ex_push MethodPush ''Git push'' ''Push main to origin in app'' RuleAsk =
      Some (held_registry (ex_held\<lparr>recStatus := StatusExecuting, recRedeemed := True\<rparr>), None)"
    by (simp add: approve_def ex_service_def Authorize_def grantFrom_def RedeemGrant_def held_registry_def put_record_def MethodPush_def)
      (simp add: push_id_def)
  moreover have "rpcParams ex_push = [123, 125]" by (simp add: ex_push_def)
  ultimately show ?thesis
    by (simp add: handleGit_def handle_git_def ex_push_decoded ok_reply_def del: git_decoded.simps)
      (simp add: visible_def runVisibleGit_def ex_service_def ex_host_def runGit_def read_capture_def ok_reply_def exit_code_def)
qed

definition ex_launch :: "held_record \<Rightarrow> (approval_record \<times> stage) list \<Rightarrow> teardown \<Rightarrow> launch" where
  "ex_launch h xs td = \<lparr>lauRegistry = held_registry h, lauBound = (td = Serving), lauExecutions = xs, lauTeardown = td\<rparr>"

definition ex_command :: "string command_trace" where
  "ex_command = Some (''/src/app'', [''git'', ''push'', ''origin'', ''main''])"

definition ex_done :: held_record where
  "ex_done = ex_held\<lparr>recStatus := StatusCompleted, recRedeemed := True, recResponse := [123, 10], recDecided := True\<rparr>"

lemma ex_run_asked:
  "launches ex_wire ex_config new_launch (LGit GitPush None ex_push ask_reply (None :: string command_trace)) (ex_launch ex_held [] Serving)"
  using git_request [of ex_wire launch_methods "[1]" GitPush ex_push ex_service "[Some [1, 2, 3, 4, 5, 255]]" ex_host ex_config new_launch 7] ex_ask
  by (simp add: new_launch_def ex_launch_def drawn_def approvalIDBytes_def ex_service_def)

lemma ex_run_decided:
  "launches ex_wire ex_config (ex_launch ex_held [] Serving) (LDecide ex_decide ok_reply (Some ex_record) :: string launch_event)
     (ex_launch (ex_held\<lparr>recStatus := StatusExecuting\<rparr>) [(ex_record, Started)] Serving)"
proof -
  let ?s = "ex_launch ex_held [] Serving"
  have "launches ex_wire ex_config ?s (LDecide ex_decide ok_reply (Some ex_record) :: string launch_event)
      (?s\<lparr>lauRegistry := held_registry (ex_held\<lparr>recStatus := StatusExecuting\<rparr>),
          lauExecutions := lauExecutions ?s @ (case Some ex_record of None \<Rightarrow> [] | Some r \<Rightarrow> [(r, Started)])\<rparr>)"
    by (rule decide_request [OF ex_native(2), where seen = True]) (simp add: ex_launch_def ex_approve)
  then show ?thesis by (simp add: ex_launch_def)
qed

lemma ex_run_captured:
  "launches ex_wire ex_config (ex_launch (ex_held\<lparr>recStatus := StatusExecuting\<rparr>) [(ex_record, Started)] Serving)
     (LCapture ex_record True :: string launch_event)
     (ex_launch (ex_held\<lparr>recStatus := StatusExecuting\<rparr>) [(ex_record, Dispatching True)] Serving)"
  using capture [of 0 "ex_launch (ex_held\<lparr>recStatus := StatusExecuting\<rparr>) [(ex_record, Started)] Serving" ex_record ex_wire ex_config launch_methods]
  by (simp add: ex_launch_def replace_at_def)

lemma ex_run_executed:
  "launches ex_wire ex_config (ex_launch (ex_held\<lparr>recStatus := StatusExecuting\<rparr>) [(ex_record, Dispatching True)] Serving)
     (LGit GitPush (Some push_id) ex_push ok_reply ex_command)
     (ex_launch (ex_held\<lparr>recStatus := StatusExecuting, recRedeemed := True\<rparr>) [(ex_record, Saving True [123, 10])] Serving)"
proof -
  have "route (Some launch_methods) (held_request ex_record) = Inr (Git GitPush)"
    by (simp add: route_git) (simp add: ex_push_def MethodPush_def)
  then show ?thesis
    using dispatch_git [of 0 "ex_launch (ex_held\<lparr>recStatus := StatusExecuting\<rparr>) [(ex_record, Dispatching True)] Serving" ex_record
        launch_methods GitPush ex_service "[]" ex_wire ex_host ex_config 8] ex_execute
    by (simp add: ex_launch_def replace_at_def WithGrant_def ex_service_def drawn_def dispatchHeld_def ok_reply_def ex_command_def)
qed

lemma ex_run_saved:
  "launches ex_wire ex_config (ex_launch (ex_held\<lparr>recStatus := StatusExecuting, recRedeemed := True\<rparr>) [(ex_record, Saving True [123, 10])] Serving)
     (LSave ex_record [123, 10] None :: string launch_event) (ex_launch ex_done [] Serving)"
proof -
  let ?s = "ex_launch (ex_held\<lparr>recStatus := StatusExecuting, recRedeemed := True\<rparr>) [(ex_record, Saving True [123, 10])] Serving"
  have "launches ex_wire ex_config ?s (LSave ex_record [123, 10] None :: string launch_event)
      (remove_at 0 (?s\<lparr>lauRegistry := held_registry ex_done\<rparr>))"
    by (rule save) (simp_all add: ex_launch_def SaveResponse_def held_registry_def put_record_def ex_done_def)
  then show ?thesis by (simp add: ex_launch_def remove_at_def)
qed

definition ex_events :: "string launch_event list" where
  "ex_events =
     [LGit GitPush None ex_push ask_reply None, LDecide ex_decide ok_reply (Some ex_record), LCapture ex_record True]"

lemma ex_run:
  "run (launches ex_wire ex_config) new_launch (ex_events @ LGit GitPush (Some push_id) ex_push ok_reply ex_command # [LSave ex_record [123, 10] None])
     (ex_launch ex_done [] Serving)"
  unfolding ex_events_def append_Cons append_Nil
  by (rule run_cons, rule ex_run_asked, rule run_cons, rule ex_run_decided, rule run_cons, rule ex_run_captured,
      rule run_cons, rule ex_run_executed, rule run_cons, rule ex_run_saved, rule run_nil)




section \<open>Executions finish\<close>









section \<open>Properties\<close>

text \<open>
  C1. Git runs on the host only for an authorized request. In every interleaving of sandbox
  requests, decisions, executions and teardown of a launch, a command that ran was either
  allowed outright by the policy for its method, or belongs to an approval: a decision before it
  approved a record, the request that ran is the held request of that very record with its
  method and parameters, and under that approval nothing else ever runs.
\<close>

theorem host_commands_authorized:
  assumes router: "launch_router = Inr router"
    and run: "run (launch_step w cfg router) new_launch (pre @ LGit m ctx req reply (Some c) # post) s"
  shows "rpcMethod req = git_method_name m \<and>
    (case ctx of
       None \<Rightarrow> Resolve (PermissionRule (cfgActions cfg) (git_method_name m)) (git_default m) (cfgYolo cfg) = Allow
     | Some i \<Rightarrow>
         (\<exists>r dreq dreply. LDecide dreq dreply (Some r) \<in> set pre \<and>
            unmarshal_decide w (rpcParams dreq) = Some \<lparr>dpApprovalID = i, dpApprove = True\<rparr> \<and>
            recID r = i \<and> req = held_request r) \<and>
         filter (runs_granted i) (pre @ LGit m ctx req reply (Some c) # post) = [LGit m ctx req reply (Some c)])"
proof -
  have eq: "router = launch_methods" using router unfolding launch_router_ok by simp
  note run = run [unfolded eq]
  obtain t where t: "run (launches w cfg) new_launch pre t" "run (launches w cfg) t (LGit m ctx req reply (Some c) # post) s"
    using run_split [OF run] by blast
  then obtain u where u: "launches w cfg t (LGit m ctx req reply (Some c)) u" by (auto simp: run_Cons_iff)
  have inv: "launch_inv t" using launch_system.run_inv [OF t(1) launch_inv_new] .
  show ?thesis
  proof (cases ctx)
    case None
    then show ?thesis using granted_contexts [OF u [unfolded None] inv] by simp
  next
    case (Some i)
    obtain r where r: "approved_in t r" "recID r = i" "req = held_request r" "rpcMethod req = git_method_name m"
      using granted_execution [OF inv u [unfolded Some]] by blast
    have "\<not> approved_in new_launch r" by (simp add: approved_in_def under_execution_def new_launch_def NewRegistry_def)
    then obtain e where e: "e \<in> set pre" "approves w r e"
      using launch_approvals.run_explained [OF t(1) launch_inv_new r(1)] by blast
    have "length (filter (runs_granted i) (pre @ LGit m ctx req reply (Some c) # post)) \<le> 1"
      using launch_grant.fires_at_most_once [OF run launch_inv_new, of i]
      by (simp add: grant_redeemed_def grant_spent_def new_launch_def NewRegistry_def)
    then have "filter (runs_granted i) (pre @ LGit m ctx req reply (Some c) # post) = [LGit m ctx req reply (Some c)]"
      using Some by auto
    then show ?thesis using Some r e by (auto simp: approves_def)
  qed
qed

theorem host_commands_authorized_witness:
  "\<exists>r dreq dreply. LDecide dreq dreply (Some r) \<in> set ex_events \<and>
     unmarshal_decide ex_wire (rpcParams dreq) = Some \<lparr>dpApprovalID = push_id, dpApprove = True\<rparr> \<and>
     recID r = push_id \<and> ex_push = held_request r"
  using host_commands_authorized [OF launch_router_ok ex_run [unfolded ex_command_def]] by simp



text \<open>
  C6. What a handled request can make Git do. The directory is the one the resolver opened for a
  repository name that is relative and free of empty, dot and dot-dot segments; the arguments
  have the fixed shape of the method, every branch, remote, base, tag and target being non-empty,
  without NUL and never an option; and the reply reports an exit code of a process.
\<close>

theorem git_command_form:
  assumes "handleGit w h svc cfg g ctx m req = Some (g', reply, Some (dir, argv))"
  shows "\<exists>repository args result. argv = ''git'' # args \<and> git_form m args \<and>
    plain_repository repository \<and> open_visible h repository = Some (Some dir) \<and> is_directory h dir = Some True \<and>
    reply = (ResponseOK w (rpcID req) (GitResult result), None) \<and>
    grRepository result = repository \<and> 0 \<le> grExitCode result \<and> grExitCode result \<le> 255"
proof -
  obtain name message command where d: "git_decoded w m (rpcParams req) = Inr (name, message, command)"
    using assms by (auto simp: handleGit_def handle_git_def split: sum.splits prod.splits)
  have "\<exists>r. visible h svc command = (r, Some (dir, argv)) \<and> (case r of
      Inl e \<Rightarrow> True | Inr result \<Rightarrow> reply = (ResponseOK w (rpcID req) (GitResult result), None))"
    using assms by (auto simp: handleGit_def handle_git_def d split: option.splits sum.splits prod.splits)
  then obtain r where r: "visible h svc command = (r, Some (dir, argv))"
      "case r of Inl e \<Rightarrow> True | Inr result \<Rightarrow> reply = (ResponseOK w (rpcID req) (GitResult result), None)"
    by blast
  obtain repository args where c: "command = Inr (repository, args)" "argv = ''git'' # args"
      "open_visible h repository = Some (Some dir)" "gitResolver svc"
    using visible_trace [OF r(1)] by blast
  obtain result where res: "r = Inr result" "grRepository result = repository" "0 \<le> grExitCode result" "grExitCode result \<le> 255"
      "is_directory h dir = Some True"
    using r(1) c exit_code_range
    by (auto simp: visible_def runVisibleGit_def runGit_def Let_def split_beta split: option.splits if_splits bool.splits)
  show ?thesis using git_decoded_form [OF d [unfolded c(1)]] c res r(2) by auto
qed

theorem git_command_form_witness:
  "\<exists>repository args. [''git'', ''push'', ''origin'', ''main''] = ''git'' # args \<and> git_form GitPush args \<and>
     open_visible ex_host repository = Some (Some ''/src/app'')"
  using git_command_form [OF ex_execute] by blast

text \<open>
  The timeout of a wait. A non-positive request waits five minutes; any other waits the
  requested milliseconds but at most thirty minutes, as long as the product fits an
  \<open>int64\<close>. Beyond 9223372036854 milliseconds the product wraps, and a request for the
  longest wait can turn into a timer that is due at once.
\<close>

theorem wait_timeout_bounds:
  "sint (wait_timeout ms) =
     (if sint ms \<le> 0 then 300000000000
      else min (signed_take_bit 63 (sint ms * 1000000)) 1800000000000) \<and>
   (if 0 < sint ms \<and> sint ms \<le> 9223372036854
    then sint (wait_timeout ms) = min (sint ms * 1000000) 1800000000000 else True) \<and>
   sint (wait_timeout 9223372036855) = -9223372036854551616"
proof -
  have prod: "sint (ms * 1000000) = signed_take_bit 63 (sint ms * 1000000)"
    by (simp add: sint_word_ariths)
  have fits: "signed_take_bit 63 (sint ms * 1000000) = sint ms * 1000000" if "0 < sint ms" "sint ms \<le> 9223372036854"
    using that by (intro signed_take_bit_int_eq_self) auto
  have gen: "sint (wait_timeout ms) =
      (if sint ms \<le> 0 then 300000000000 else min (signed_take_bit 63 (sint ms * 1000000)) 1800000000000)"
    by (auto simp: wait_timeout_def defaultWaitTimeout_def maxWaitTimeout_def Let_def prod min_def)
  have "sint (wait_timeout 9223372036855) = -9223372036854551616"
    by (simp add: wait_timeout_def defaultWaitTimeout_def maxWaitTimeout_def)
  then show ?thesis using gen fits by auto
qed

end
