(* ===== verification/Config_Patch.thy ===== *)
theory Config_Patch
  imports Paths Go_Strings
begin

text \<open>
  \<open>internal/configpatch\<close>: edits of a JSON or TOML document. A patch holds raw RFC 6902 operations
  and the intents that a value be a member, or not be one, at a JSON Pointer; intents are compiled
  into operations against the live document (\<open>compile.go\<close>) and applied (\<open>apply.go\<close>).

  Documents and values are in the form \<open>json.go\<close> normalises them to. An object is a Go map: the
  list of its entries sorted by key, so that equal maps are equal lists. Numbers are \<open>int64\<close>, or a
  float that is not integral, kept as its text. On these values encoding and decoding again is
  the identity. Applying operations is a third-party package and a parameter.
\<close>

section \<open>Documents\<close>

datatype json =
    JNull
  | JBool bool
  | JInt int
  | JFloat string
  | JString string
  | JArray "json list"
  | JObject "(string \<times> json) list"

fun obj_put :: "string \<Rightarrow> json \<Rightarrow> (string \<times> json) list \<Rightarrow> (string \<times> json) list" where
  "obj_put k v [] = [(k, v)]"
| "obj_put k v ((k', v') # m) =
     (if k = k' then (k, v) # m else if k < k' then (k, v) # (k', v') # m else (k', v') # obj_put k v m)"

definition obj_delete :: "string \<Rightarrow> (string \<times> json) list \<Rightarrow> (string \<times> json) list" where
  "obj_delete k m = filter (\<lambda>(k', v). k' \<noteq> k) m"

fun well_formed :: "json \<Rightarrow> bool" where
  "well_formed (JArray xs) = list_all well_formed xs"
| "well_formed (JObject m) = (sorted_wrt (<) (map fst m) \<and> list_all (\<lambda>(k, v). well_formed v) m)"
| "well_formed _ = True"

section \<open>JSON Pointers\<close>

text \<open>\<open>strings.ReplaceAll\<close> with a non-empty first argument.\<close>

function ReplaceAll :: "string \<Rightarrow> string \<Rightarrow> string \<Rightarrow> string" where
  "ReplaceAll old new s =
     (if old \<noteq> [] \<and> prefix old s then new @ ReplaceAll old new (drop (length old) s)
      else case s of [] \<Rightarrow> [] | c # cs \<Rightarrow> c # ReplaceAll old new cs)"
  by pat_completeness auto
termination
  by (relation "measure (\<lambda>(old, new, s). length s)") (auto simp: prefix_def)

declare ReplaceAll.simps [simp del]

datatype patch_error =
    PointerStart string
  | IndexInvalid string
  | EnsureFailed string patch_error
  | RemoveFailed string patch_error
  | LookupFailed string patch_error
  | CannotDescend json
  | EnsureInvalid nat patch_error
  | RemoveInvalid nat patch_error
  | OperationInvalid nat patch_error
  | EnsureAndRemove string
  | UnsupportedOp string
  | FromRequired string
  | FromInvalid patch_error
  | ApplyFailed
  | RootNotObject
  | DecodeFailed
  | EncodeFailed

definition unescape :: "string \<Rightarrow> string" where
  "unescape token = ReplaceAll ''~0'' ''~'' (ReplaceAll ''~1'' ''/'' token)"

definition escape :: "string \<Rightarrow> string" where
  "escape token = ReplaceAll ''/'' ''~1'' (ReplaceAll ''~'' ''~0'' token)"

definition parsePointer :: "string \<Rightarrow> patch_error + string list" where
  "parsePointer pointer =
     (if pointer = '''' \<or> hd pointer \<noteq> slash then Inl (PointerStart pointer)
      else if pointer = ''/'' then Inr [''''] else Inr (map unescape (split_slash (tl pointer))))"

definition formatPointer :: "string list \<Rightarrow> string" where
  "formatPointer tokens = concat (map (\<lambda>token. slash # escape token) tokens)"

definition parseArrayIndex :: "string \<Rightarrow> nat \<Rightarrow> patch_error + nat" where
  "parseArrayIndex token len =
     (if token = ''-'' then Inl (IndexInvalid token)
      else if token = '''' \<or> (length token > 1 \<and> hd token = CHR ''0'') then Inl (IndexInvalid token)
      else if \<not> list_all ascii_digit token then Inl (IndexInvalid token)
      else if read_digits token \<ge> len then Inl (IndexInvalid token)
      else Inr (read_digits token))"

section \<open>Patches\<close>

record patch_value =
  pvPath :: string
  pvValue :: json

record patch_operation =
  opOp :: string
  opPath :: string
  opFrom :: string
  opValue :: json

record config_patch =
  patchEnsure :: "patch_value list"
  patchRemove :: "patch_value list"
  patchOperations :: "patch_operation list"

definition Patch_Empty :: "config_patch \<Rightarrow> bool" where
  "Patch_Empty p \<longleftrightarrow> patchEnsure p = [] \<and> patchRemove p = [] \<and> patchOperations p = []"

definition pointer_error :: "string \<Rightarrow> patch_error verdict" where
  "pointer_error path = (case parsePointer path of Inl e \<Rightarrow> Some e | Inr tokens \<Rightarrow> None)"

definition validateIntent :: "patch_value \<Rightarrow> patch_error verdict" where
  "validateIntent item = pointer_error (pvPath item)"

definition validateOperation :: "patch_operation \<Rightarrow> patch_error verdict" where
  "validateOperation p =
     and_then (fail_if (opOp p \<notin> {''add'', ''remove'', ''replace'', ''move'', ''copy'', ''test''}) (UnsupportedOp (opOp p)))
    (and_then (if opPath p \<noteq> '''' then pointer_error (opPath p) else None)
    (and_then (fail_if ((opOp p = ''move'' \<or> opOp p = ''copy'') \<and> opFrom p = '''') (FromRequired (opOp p)))
              (if opFrom p \<noteq> '''' then map_option FromInvalid (pointer_error (opFrom p)) else None)))"

definition Patch_Validate :: "config_patch \<Rightarrow> patch_error verdict" where
  "Patch_Validate p =
     and_then (each (\<lambda>(index, item). map_option (EnsureInvalid index) (validateIntent item)) (enumerate 0 (patchEnsure p)))
    (and_then (each (\<lambda>(index, item). map_option (RemoveInvalid index) (validateIntent item)) (enumerate 0 (patchRemove p)))
    (and_then (each (\<lambda>ensure. each (\<lambda>remove.
                  fail_if (pvPath ensure = pvPath remove \<and> pvValue ensure = pvValue remove) (EnsureAndRemove (pvPath ensure)))
                (patchRemove p)) (patchEnsure p))
              (each (\<lambda>(index, p). map_option (OperationInvalid index) (validateOperation p)) (enumerate 0 (patchOperations p)))))"

section \<open>Applying operations\<close>

text \<open>The package: the operations and the document, or an error.\<close>

type_synonym patch_package = "patch_operation list \<Rightarrow> json \<Rightarrow> json option"

definition applyOperations :: "patch_package \<Rightarrow> json \<Rightarrow> patch_operation list \<Rightarrow> patch_error + json" where
  "applyOperations lib document ops =
     (if ops = [] then Inr document
      else case lib ops document of
        None \<Rightarrow> Inl ApplyFailed
      | Some (JObject m) \<Rightarrow> Inr (JObject m)
      | Some _ \<Rightarrow> Inl RootNotObject)"

section \<open>Compiling intents\<close>

definition add_op :: "string \<Rightarrow> json \<Rightarrow> patch_operation" where
  "add_op path v = \<lparr>opOp = ''add'', opPath = path, opFrom = '''', opValue = v\<rparr>"

definition replace_op :: "string \<Rightarrow> json \<Rightarrow> patch_operation" where
  "replace_op path v = \<lparr>opOp = ''replace'', opPath = path, opFrom = '''', opValue = v\<rparr>"

definition remove_op :: "string \<Rightarrow> patch_operation" where
  "remove_op path = \<lparr>opOp = ''remove'', opPath = path, opFrom = '''', opValue = JNull\<rparr>"

fun newEnsureNode :: "json \<Rightarrow> json" where
  "newEnsureNode (JObject m) = JObject m"
| "newEnsureNode (JArray xs) = JArray xs"
| "newEnsureNode want = JArray [want]"

definition ensureExisting :: "string \<Rightarrow> json \<Rightarrow> json \<Rightarrow> patch_operation list" where
  "ensureExisting pointer current want =
     (case current of
        JArray xs \<Rightarrow> if list_ex (\<lambda>item. item = want) xs then [] else [add_op (pointer @ ''/-'') want]
      | _ \<Rightarrow> if current = want then [] else [replace_op pointer want])"

text \<open>The loop of \<open>compileEnsure\<close>: \<open>seen\<close> are the tokens already walked.\<close>

fun ensure_loop ::
  "json \<Rightarrow> string list \<Rightarrow> string list \<Rightarrow> json \<Rightarrow> patch_operation list \<Rightarrow> patch_error + patch_operation list"
where
  "ensure_loop want seen [] current ops = Inr ops"
| "ensure_loop want seen (token # rest) current ops =
     (let pointer = formatPointer (seen @ [token]); last = (rest = []) in
      case current of
        JObject m \<Rightarrow>
          (case map_of m token of
             None \<Rightarrow>
               if \<not> last then ensure_loop want (seen @ [token]) rest (JObject []) (ops @ [add_op pointer (JObject [])])
               else Inr (ops @ [add_op pointer (newEnsureNode want)])
           | Some child \<Rightarrow>
               if last then Inr (ops @ ensureExisting pointer child want)
               else ensure_loop want (seen @ [token]) rest child ops)
      | JArray xs \<Rightarrow>
          (case parseArrayIndex token (length xs) of
             Inl e \<Rightarrow> Inl (EnsureFailed pointer e)
           | Inr i \<Rightarrow>
               if last then Inr (ops @ ensureExisting pointer (xs ! i) want)
               else ensure_loop want (seen @ [token]) rest (xs ! i) ops)
      | _ \<Rightarrow> Inl (EnsureFailed pointer (CannotDescend current)))"

definition compileEnsure :: "json \<Rightarrow> patch_value \<Rightarrow> patch_error + patch_operation list" where
  "compileEnsure document item =
     attempt (parsePointer (pvPath item)) (\<lambda>tokens. ensure_loop (pvValue item) [] tokens document [])"

text \<open>\<open>lookup\<close>: \<open>Inr None\<close> is \<open>missingValue\<close>.\<close>

fun lookup_loop :: "string list \<Rightarrow> string list \<Rightarrow> json \<Rightarrow> patch_error + json option" where
  "lookup_loop seen [] current = Inr (Some current)"
| "lookup_loop seen (token # rest) current =
     (case current of
        JObject m \<Rightarrow> (case map_of m token of None \<Rightarrow> Inr None | Some child \<Rightarrow> lookup_loop (seen @ [token]) rest child)
      | JArray xs \<Rightarrow>
          (case parseArrayIndex token (length xs) of
             Inl e \<Rightarrow> Inl (LookupFailed (formatPointer (seen @ [token])) e)
           | Inr i \<Rightarrow> lookup_loop (seen @ [token]) rest (xs ! i))
      | _ \<Rightarrow> Inl (CannotDescend current))"

definition compileRemove :: "json \<Rightarrow> patch_value \<Rightarrow> patch_error + patch_operation list" where
  "compileRemove document item =
     attempt (parsePointer (pvPath item)) (\<lambda>tokens.
       case lookup_loop [] tokens document of
         Inl e \<Rightarrow> Inl (RemoveFailed (pvPath item) e)
       | Inr None \<Rightarrow> Inr []
       | Inr (Some (JArray xs)) \<Rightarrow>
           Inr (map (\<lambda>index. remove_op (formatPointer (tokens @ [Itoa (int index)])))
                  (filter (\<lambda>index. xs ! index = pvValue item) (rev [0..<length xs])))
       | Inr (Some current) \<Rightarrow> Inr (if current = pvValue item then [remove_op (pvPath item)] else []))"

text \<open>Both loops of \<open>compileIntents\<close>: compile against the current document, then apply to it.\<close>

fun compile_loop ::
  "patch_package \<Rightarrow> (json \<Rightarrow> patch_value \<Rightarrow> patch_error + patch_operation list) \<Rightarrow> patch_value list \<Rightarrow>
    json \<times> patch_operation list \<Rightarrow> patch_error + (json \<times> patch_operation list)"
where
  "compile_loop lib compile [] (current, compiled) = Inr (current, compiled)"
| "compile_loop lib compile (item # items) (current, compiled) =
     attempt (compile current item) (\<lambda>ops.
     attempt (applyOperations lib current ops) (\<lambda>current.
       compile_loop lib compile items (current, compiled @ ops)))"

definition compileIntents :: "patch_package \<Rightarrow> json \<Rightarrow> config_patch \<Rightarrow> patch_error + patch_operation list" where
  "compileIntents lib document p =
     attempt (compile_loop lib compileRemove (patchRemove p) (document, [])) (\<lambda>st.
     attempt (compile_loop lib compileEnsure (patchEnsure p) st) (\<lambda>(current, compiled). Inr compiled))"

definition apply_patch :: "patch_package \<Rightarrow> json \<Rightarrow> config_patch \<Rightarrow> patch_error + json" where
  "apply_patch lib document p =
     require (Patch_Validate p)
       (attempt (if patchOperations p \<noteq> [] then applyOperations lib document (patchOperations p) else Inr document) (\<lambda>current.
        attempt (compileIntents lib current p) (\<lambda>ops. applyOperations lib current ops)))"

text \<open>
  The document codecs: \<open>decode\<close> reads a value and \<open>encode\<close> prints one (\<open>encoding/json\<close> with
  \<open>normalizeValue\<close>, or the TOML package).
\<close>

definition decode_document :: "(string \<Rightarrow> json option) \<Rightarrow> string \<Rightarrow> patch_error + json" where
  "decode_document decode document =
     (let document = TrimSpace document in
      if document = '''' then Inr (JObject [])
      else case decode document of
        None \<Rightarrow> Inl DecodeFailed
      | Some (JObject m) \<Rightarrow> Inr (JObject m)
      | Some _ \<Rightarrow> Inl RootNotObject)"

definition apply_document ::
  "patch_package \<Rightarrow> (string \<Rightarrow> json option) \<Rightarrow> (json \<Rightarrow> string option) \<Rightarrow> string \<Rightarrow> config_patch \<Rightarrow> patch_error + string"
where
  "apply_document lib decode encode document p =
     attempt (decode_document decode document) (\<lambda>object.
     attempt (apply_patch lib object p) (\<lambda>object.
       case encode object of None \<Rightarrow> Inl EncodeFailed | Some text \<Rightarrow> Inr text))"

end
