(* ===== verification/Config_Patch_Spec.thy ===== *)
theory Config_Patch_Spec
  imports Config_Patch
begin

text \<open>
  What a patch means: addressing of nodes, the operations of RFC 6902 the compiler emits, and a
  direct recursive specification of an intent, with the proof that compiling and applying an
  intent is that recursion. JSON Pointers print and parse back.
\<close>

section \<open>Escaping\<close>

lemma ReplaceAll_Nil [simp]: "old \<noteq> [] \<Longrightarrow> ReplaceAll old new [] = []"
  by (subst ReplaceAll.simps) (auto simp: prefix_def)

lemma ReplaceAll_hit: "old \<noteq> [] \<Longrightarrow> ReplaceAll old new (old @ s) = new @ ReplaceAll old new s"
  by (subst ReplaceAll.simps) simp

lemma ReplaceAll_miss: "\<not> prefix old (c # s) \<Longrightarrow> ReplaceAll old new (c # s) = c # ReplaceAll old new s"
  by (subst ReplaceAll.simps) simp

lemma ReplaceAll_char: "ReplaceAll [a] new s = concat (map (\<lambda>c. if c = a then new else [c]) s)"
proof (induction s)
  case (Cons c s)
  show ?case
  proof (cases "c = a")
    case True
    then show ?thesis using ReplaceAll_hit [of "[a]" new s] Cons by simp
  next
    case False
    then show ?thesis using ReplaceAll_miss [of "[a]" c s new] Cons by simp
  qed
qed simp

fun escape_char :: "char \<Rightarrow> string" where
  "escape_char c = (if c = CHR ''~'' then ''~0'' else if c = slash then ''~1'' else [c])"

lemma escape_char_cases:
  "escape_char (CHR ''~'') = ''~0''" "escape_char slash = ''~1''" "c \<noteq> CHR ''~'' \<Longrightarrow> c \<noteq> slash \<Longrightarrow> escape_char c = [c]"
  by simp_all

declare escape_char.simps [simp del]

lemma escape_chars: "escape t = concat (map escape_char t)"
  by (induction t) (auto simp: escape_def ReplaceAll_char escape_char.simps)

lemma unescape_slash:
  "ReplaceAll ''~1'' ''/'' (concat (map escape_char t)) = concat (map (\<lambda>c. if c = CHR ''~'' then ''~0'' else [c]) t)"
proof (induction t)
  case (Cons c t)
  let ?s = "concat (map escape_char t)"
  consider "c = CHR ''~''" | "c = slash" | "c \<noteq> CHR ''~''" "c \<noteq> slash" by blast
  then show ?case
  proof cases
    case 1
    then show ?thesis using ReplaceAll_miss [of "''~1''" "CHR ''~''" "CHR ''0'' # ?s"] ReplaceAll_miss [of "''~1''" "CHR ''0''" ?s] Cons by (simp add: escape_char_cases)
  next
    case 2
    then show ?thesis using ReplaceAll_hit [of "''~1''" "''/''" ?s] Cons by (simp add: escape_char_cases)
  next
    case 3
    then show ?thesis using ReplaceAll_miss [of "''~1''" c ?s] Cons by (simp add: escape_char_cases)
  qed
qed simp

lemma unescape_tilde: "ReplaceAll ''~0'' ''~'' (concat (map (\<lambda>c. if c = CHR ''~'' then ''~0'' else [c]) t)) = t"
proof (induction t)
  case (Cons c t)
  let ?s = "concat (map (\<lambda>c. if c = CHR ''~'' then ''~0'' else [c]) t)"
  show ?case
    using ReplaceAll_hit [of "''~0''" "''~''" ?s] ReplaceAll_miss [of "''~0''" c ?s "''~''"] Cons by auto
qed simp

lemma unescape_escape [simp]: "unescape (escape t) = t"
  by (simp add: unescape_def escape_chars unescape_slash unescape_tilde)

lemma escape_no_slash: "slash \<notin> set (escape t)"
  by (auto simp: escape_chars escape_char.simps split: if_splits)

lemma formatPointer_join: "ts \<noteq> [] \<Longrightarrow> formatPointer ts = slash # join_slash (map escape ts)"
proof (induction ts rule: join_slash.induct)
  case (3 w v ws)
  then show ?case by (simp add: formatPointer_def)
qed (simp_all add: formatPointer_def)

lemma parse_format: "ts \<noteq> [] \<Longrightarrow> parsePointer (formatPointer ts) = Inr ts"
proof -
  assume ts: "ts \<noteq> []"
  have split: "split_slash (join_slash (map escape ts)) = map escape ts"
    using ts escape_no_slash by (intro split_join) auto
  show ?thesis
  proof (cases "join_slash (map escape ts) = []")
    case True
    then have "map escape ts = [[]]" using split by (metis split_slash.simps(1))
    then obtain t where t: "ts = [t]" "escape t = []" by auto
    have "t = unescape (escape t)" by simp
    also have "\<dots> = ''''" using t(2) by (simp add: unescape_def)
    finally show ?thesis using t by (simp add: formatPointer_join parsePointer_def)
  next
    case False
    then show ?thesis using ts split by (simp add: formatPointer_join parsePointer_def comp_def)
  qed
qed

lemma formatPointer_snoc: "formatPointer (ts @ [t]) = formatPointer ts @ slash # escape t"
  by (simp add: formatPointer_def)

lemma formatPointer_dash: "formatPointer ts @ ''/-'' = formatPointer (ts @ [''-''])"
  by (simp add: formatPointer_snoc escape_chars escape_char_cases)

lemma formatPointer_Nil [simp]: "formatPointer [] = ''''"
  by (simp add: formatPointer_def)

lemma formatPointer_not_empty [simp]: "ts \<noteq> [] \<Longrightarrow> formatPointer ts \<noteq> ''''"
  by (simp add: formatPointer_join)

text \<open>A decimal index is read back.\<close>

lemma digits_head: "hd (digits n) = CHR ''0'' \<Longrightarrow> n = 0 \<and> length (digits n) = 1"
proof (induction n rule: digits.induct)
  case (1 n)
  show ?case
  proof (cases "n < 10")
    case True
    then have "digits n = [char_of (48 + n)]" by (subst digits.simps) simp
    moreover have "n = 0" if "char_of (48 + n) = CHR ''0''"
    proof -
      have "of_char (char_of (48 + n) :: char) = (48 + n :: nat)" using True by simp
      then show ?thesis using that by simp
    qed
    ultimately show ?thesis using 1 by simp
  next
    case False
    then have d: "digits n = digits (n div 10) @ [char_of (48 + n mod 10)]" by (subst digits.simps) simp
    have "digits (n div 10) \<noteq> []" by (subst digits.simps) simp
    then have "n div 10 = 0" using 1 False d by simp
    then show ?thesis using False by simp
  qed
qed

lemma digits_nonempty [simp]: "digits n \<noteq> []"
  by (subst digits.simps) simp

lemma parseArrayIndex_Itoa: "i < n \<Longrightarrow> parseArrayIndex (Itoa (int i)) n = Inr i"
  using digits_head [of i] digits_not_minus [of i "[]"] digits_ascii [of _ i] read_digits_digits [of i]
  by (auto simp: parseArrayIndex_def Itoa_def list_all_iff simp del: read_digits.simps)

lemma parseArrayIndex_bound: "parseArrayIndex t n = Inr i \<Longrightarrow> i < n"
  by (auto simp: parseArrayIndex_def simp del: read_digits.simps split: if_splits)

lemma parseArrayIndex_dash [simp]: "parseArrayIndex ''-'' n = Inl (IndexInvalid ''-'')"
  by (simp add: parseArrayIndex_def)

section \<open>Objects\<close>

lemma map_of_put [simp]: "map_of (obj_put k v m) = (map_of m)(k \<mapsto> v)"
  by (induction k v m rule: obj_put.induct) auto

lemma put_put [simp]: "obj_put k v (obj_put k u m) = obj_put k v m"
  by (induction k v m rule: obj_put.induct) auto

lemma obj_put_same: "sorted_wrt (<) (map fst m) \<Longrightarrow> map_of m k = Some v \<Longrightarrow> obj_put k v m = m"
proof (induction k v m rule: obj_put.induct)
  case (2 k v k' v' m)
  have "k' < k" if "k \<noteq> k'"
    using 2(2,3) that by (auto dest!: map_of_in_set)
  then show ?case using 2 by (auto split: if_splits)
qed simp

lemma keys_put: "set (map fst (obj_put k v m)) = insert k (set (map fst m))"
  by (induction k v m rule: obj_put.induct) auto

lemma sorted_put: "sorted_wrt (<) (map fst m) \<Longrightarrow> sorted_wrt (<) (map fst (obj_put k v m))"
proof (induction k v m rule: obj_put.induct)
  case (2 k v k' v' m)
  have "\<forall>x \<in> set (map fst (obj_put k v m)). k' < x" if "k' < k"
    using 2(2) that keys_put [of k v m] by (auto simp: image_iff)
  then show ?case using 2 by auto
qed simp

lemma values_put: "list_all (\<lambda>(k, v). P v) m \<Longrightarrow> P v \<Longrightarrow> list_all (\<lambda>(k, v). P v) (obj_put k v m)"
  by (induction k v m rule: obj_put.induct) auto

lemma map_of_delete: "map_of (obj_delete k m) j = (if j = k then None else map_of m j)"
  by (induction m) (auto simp: obj_delete_def)

lemma well_formed_put: "well_formed (JObject m) \<Longrightarrow> well_formed v \<Longrightarrow> well_formed (JObject (obj_put k v m))"
  using values_put [of well_formed m v k] by (simp add: sorted_put)

section \<open>Addressing nodes\<close>

fun child :: "json \<Rightarrow> string \<Rightarrow> json option" where
  "child (JObject m) t = map_of m t"
| "child (JArray xs) t = (case parseArrayIndex t (length xs) of Inl e \<Rightarrow> None | Inr i \<Rightarrow> Some (xs ! i))"
| "child _ t = None"

fun set_child :: "json \<Rightarrow> string \<Rightarrow> json \<Rightarrow> json" where
  "set_child (JObject m) t v = JObject (obj_put t v m)"
| "set_child (JArray xs) t v = (case parseArrayIndex t (length xs) of Inl e \<Rightarrow> JArray xs | Inr i \<Rightarrow> JArray (xs[i := v]))"
| "set_child node t v = node"

fun node_at :: "string list \<Rightarrow> json \<Rightarrow> json option" where
  "node_at [] node = Some node"
| "node_at (t # ts) node = (case child node t of None \<Rightarrow> None | Some c \<Rightarrow> node_at ts c)"

fun put_at :: "string list \<Rightarrow> json \<Rightarrow> json \<Rightarrow> json" where
  "put_at [] v node = v"
| "put_at (t # ts) v node = (case child node t of None \<Rightarrow> set_child node t v | Some c \<Rightarrow> set_child node t (put_at ts v c))"

lemma child_set: "child node t = Some c \<Longrightarrow> child (set_child node t v) t = Some v"
  by (cases "(node, t)" rule: child.cases) (auto split: sum.splits dest: parseArrayIndex_bound)

lemma set_set: "set_child (set_child node t u) t v = set_child node t v"
  by (cases "(node, t, u)" rule: set_child.cases) (auto split: sum.splits)

lemma set_same: "well_formed node \<Longrightarrow> child node t = Some c \<Longrightarrow> set_child node t c = node"
  by (cases "(node, t)" rule: child.cases) (auto simp: obj_put_same split: sum.splits)

lemma well_formed_child: "well_formed node \<Longrightarrow> child node t = Some c \<Longrightarrow> well_formed c"
  by (cases "(node, t)" rule: child.cases)
    (auto simp: list_all_iff split: sum.splits dest!: map_of_in_set parseArrayIndex_bound)

lemma well_formed_set: "well_formed node \<Longrightarrow> well_formed v \<Longrightarrow> well_formed (set_child node t v)"
  using well_formed_put
  by (cases "(node, t, v)" rule: set_child.cases)
    (auto simp: list_all_iff split: sum.splits dest: set_update_subset_insert [THEN subsetD])

lemma node_put: "node_at ts node = Some c \<Longrightarrow> node_at ts (put_at ts v node) = Some v"
  by (induction ts node rule: node_at.induct) (auto simp: child_set split: option.splits)

lemma put_put_at: "node_at ts node = Some c \<Longrightarrow> put_at ts v (put_at ts u node) = put_at ts v node"
  by (induction ts node rule: node_at.induct) (auto simp: child_set set_set split: option.splits)

lemma put_same_at: "well_formed node \<Longrightarrow> node_at ts node = Some c \<Longrightarrow> put_at ts c node = node"
proof (induction ts node rule: node_at.induct)
  case (2 t ts node)
  then show ?case using well_formed_child [of node t] set_same [of node t] by (auto split: option.splits)
qed simp

lemma well_formed_at: "well_formed node \<Longrightarrow> node_at ts node = Some c \<Longrightarrow> well_formed c"
  by (induction ts node rule: node_at.induct) (auto dest: well_formed_child split: option.splits)

lemma well_formed_put_at: "well_formed node \<Longrightarrow> well_formed v \<Longrightarrow> node_at ts node = Some c \<Longrightarrow> well_formed (put_at ts v node)"
  by (induction ts node rule: node_at.induct) (auto intro: well_formed_set dest: well_formed_child split: option.splits)

lemma node_append: "node_at (us @ ts) node = (case node_at us node of None \<Rightarrow> None | Some c \<Rightarrow> node_at ts c)"
  by (induction us node rule: node_at.induct) (auto split: option.splits)

lemma put_append: "node_at us node = Some c \<Longrightarrow> put_at (us @ ts) v node = put_at us (put_at ts v c) node"
  by (induction us node rule: node_at.induct) (auto split: option.splits)

section \<open>RFC 6902\<close>

text \<open>The operations the compiler emits, on the parent of the addressed node.\<close>

fun rfc_add :: "json \<Rightarrow> string \<Rightarrow> json \<Rightarrow> json option" where
  "rfc_add (JObject m) t v = Some (JObject (obj_put t v m))"
| "rfc_add (JArray xs) t v =
     (if t = ''-'' then Some (JArray (xs @ [v]))
      else case parseArrayIndex t (Suc (length xs)) of Inl e \<Rightarrow> None | Inr i \<Rightarrow> Some (JArray (take i xs @ v # drop i xs)))"
| "rfc_add _ t v = None"

definition rfc_replace :: "json \<Rightarrow> string \<Rightarrow> json \<Rightarrow> json option" where
  "rfc_replace node t v = (case child node t of None \<Rightarrow> None | Some c \<Rightarrow> Some (set_child node t v))"

fun rfc_remove :: "json \<Rightarrow> string \<Rightarrow> json option" where
  "rfc_remove (JObject m) t = (if map_of m t = None then None else Some (JObject (obj_delete t m)))"
| "rfc_remove (JArray xs) t =
     (case parseArrayIndex t (length xs) of Inl e \<Rightarrow> None | Inr i \<Rightarrow> Some (JArray (take i xs @ drop (Suc i) xs)))"
| "rfc_remove _ t = None"

definition at_parent :: "(json \<Rightarrow> string \<Rightarrow> json option) \<Rightarrow> string list \<Rightarrow> json \<Rightarrow> json option" where
  "at_parent f ts document =
     (case node_at (butlast ts) document of
        None \<Rightarrow> None
      | Some parent \<Rightarrow> map_option (\<lambda>node. put_at (butlast ts) node document) (f parent (last ts)))"

definition rfc_operation :: "patch_operation \<Rightarrow> json \<Rightarrow> json option" where
  "rfc_operation p document =
     (case parsePointer (opPath p) of
        Inl e \<Rightarrow> None
      | Inr ts \<Rightarrow>
          if opOp p = ''add'' then at_parent (\<lambda>n t. rfc_add n t (opValue p)) ts document
          else if opOp p = ''replace'' then at_parent (\<lambda>n t. rfc_replace n t (opValue p)) ts document
          else at_parent rfc_remove ts document)"

fun rfc_operations :: "patch_operation list \<Rightarrow> json \<Rightarrow> json option" where
  "rfc_operations [] document = Some document"
| "rfc_operations (p # ps) document = Option.bind (rfc_operation p document) (rfc_operations ps)"

definition compiled_op :: "patch_operation \<Rightarrow> bool" where
  "compiled_op p \<longleftrightarrow> opOp p \<in> {''add'', ''replace'', ''remove''} \<and> opPath p \<noteq> ''''"

text \<open>What the code relies on the package for.\<close>

definition follows_rfc :: "patch_package \<Rightarrow> bool" where
  "follows_rfc lib \<longleftrightarrow> (\<forall>ps document. list_all compiled_op ps \<longrightarrow> lib ps document = rfc_operations ps document)"

lemma rfc_append: "rfc_operations (ps @ qs) d = Option.bind (rfc_operations ps d) (rfc_operations qs)"
  by (induction ps arbitrary: d) (auto split: bind_splits)

section \<open>The meaning of an intent\<close>

fun as_member :: "json \<Rightarrow> json \<Rightarrow> json" where
  "as_member want (JArray xs) = JArray (if want \<in> set xs then xs else xs @ [want])"
| "as_member want current = want"

definition step_error :: "string list \<Rightarrow> string \<Rightarrow> json \<Rightarrow> patch_error verdict" where
  "step_error seen t node =
     (case node of
        JObject m \<Rightarrow> None
      | JArray xs \<Rightarrow> (case parseArrayIndex t (length xs) of Inl e \<Rightarrow> Some (EnsureFailed (formatPointer (seen @ [t])) e) | Inr i \<Rightarrow> None)
      | _ \<Rightarrow> Some (EnsureFailed (formatPointer (seen @ [t])) (CannotDescend node)))"

text \<open>Ensuring: the nodes on the way are created, and what the pointer addresses gets the member.\<close>

fun ensure_at :: "json \<Rightarrow> string list \<Rightarrow> string list \<Rightarrow> json \<Rightarrow> patch_error + json" where
  "ensure_at want seen [] node = Inr node"
| "ensure_at want seen (t # ts) node =
     require (step_error seen t node)
       (attempt
          (case child node t of
             None \<Rightarrow> if ts = [] then Inr (newEnsureNode want) else ensure_at want (seen @ [t]) ts (JObject [])
           | Some c \<Rightarrow> if ts = [] then Inr (as_member want c) else ensure_at want (seen @ [t]) ts c)
          (\<lambda>c. Inr (set_child node t c)))"

lemma rfc_operation_add:
  "node_at ts d = Some n \<Longrightarrow> rfc_operation (add_op (formatPointer (ts @ [t])) v) d = map_option (\<lambda>n'. put_at ts n' d) (rfc_add n t v)"
  by (simp add: rfc_operation_def add_op_def parse_format at_parent_def)

lemma rfc_operation_replace:
  "node_at ts d = Some n \<Longrightarrow> child n t = Some c \<Longrightarrow>
   rfc_operation (replace_op (formatPointer (ts @ [t])) v) d = Some (put_at ts (set_child n t v) d)"
  by (simp add: rfc_operation_def replace_op_def parse_format at_parent_def rfc_replace_def)

lemma rfc_operation_remove:
  "node_at ts d = Some n \<Longrightarrow> rfc_operation (remove_op (formatPointer (ts @ [t]))) d = map_option (\<lambda>n'. put_at ts n' d) (rfc_remove n t)"
  by (simp add: rfc_operation_def remove_op_def parse_format at_parent_def)

definition good_op :: "patch_operation \<Rightarrow> bool" where
  "good_op p \<longleftrightarrow> compiled_op p \<and> well_formed (opValue p)"

lemma good_ops [simp]:
  "well_formed v \<Longrightarrow> ts \<noteq> [] \<Longrightarrow> good_op (add_op (formatPointer ts) v)"
  "well_formed v \<Longrightarrow> ts \<noteq> [] \<Longrightarrow> good_op (replace_op (formatPointer ts) v)"
  "ts \<noteq> [] \<Longrightarrow> good_op (remove_op (formatPointer ts))"
  by (simp_all add: good_op_def compiled_op_def add_op_def replace_op_def remove_op_def)

lemma well_formed_new: "well_formed v \<Longrightarrow> well_formed (newEnsureNode v)"
  by (cases v) auto

lemma ensureExisting_good: "well_formed want \<Longrightarrow> ts \<noteq> [] \<Longrightarrow> list_all good_op (ensureExisting (formatPointer ts) c want)"
  by (cases c) (auto simp: ensureExisting_def formatPointer_dash)

text \<open>The operations for a member of an existing node.\<close>

lemma ensureExisting_ops:
  assumes "well_formed d" "well_formed want" "node_at seen d = Some n" "child n t = Some c"
  shows "list_all good_op (ensureExisting (formatPointer (seen @ [t])) c want) \<and>
    rfc_operations (ensureExisting (formatPointer (seen @ [t])) c want) d = Some (put_at seen (set_child n t (as_member want c)) d)"
proof -
  have at: "node_at (seen @ [t]) d = Some c" using assms(3,4) by (simp add: node_append)
  have put: "put_at (seen @ [t]) v d = put_at seen (set_child n t v) d" for v
    using put_append [OF assms(3), of "[t]" v] assms(4) by simp
  have same: "put_at seen (set_child n t c) d = d"
    using put_same_at [OF assms(1) at] put by simp
  show ?thesis
  proof (cases "\<exists>xs. c = JArray xs")
    case True
    then obtain xs where xs: "c = JArray xs" by blast
    show ?thesis
    proof (cases "want \<in> set xs")
      case True
      then have "ensureExisting (formatPointer (seen @ [t])) c want = []" "as_member want c = c"
        by (auto simp: ensureExisting_def xs list_ex_iff)
      then show ?thesis using same by simp
    next
      case False
      then have "ensureExisting (formatPointer (seen @ [t])) c want = [add_op (formatPointer ((seen @ [t]) @ [''-''])) want]"
        "as_member want c = JArray (xs @ [want])"
        by (auto simp: ensureExisting_def xs list_ex_iff formatPointer_dash)
      then show ?thesis
        using rfc_operation_add [OF at, of "''-''" want] assms(2) put good_ops(1) [of want "(seen @ [t]) @ [''-'']"] by (simp add: xs)
    qed
  next
    case False
    then have "as_member want c = want" "ensureExisting (formatPointer (seen @ [t])) c want =
        (if c = want then [] else [replace_op (formatPointer (seen @ [t])) want])"
      by (cases c; simp add: ensureExisting_def)+
    then show ?thesis
      using rfc_operation_replace [OF assms(3,4), of want] same assms(2) by (cases "c = want") auto
  qed
qed

lemma step_error_child: "step_error seen t n = None \<Longrightarrow> child n t = None \<Longrightarrow> \<exists>m. n = JObject m \<and> map_of m t = None"
  by (cases n) (auto simp: step_error_def split: sum.splits)

lemma ensure_loop_spec:
  assumes "ts \<noteq> []" "well_formed want"
  shows "case ensure_at want seen ts n of
      Inl e \<Rightarrow> ensure_loop want seen ts n ops = Inl e
    | Inr n' \<Rightarrow> \<exists>more. ensure_loop want seen ts n ops = Inr (ops @ more) \<and> list_all good_op more \<and>
        (\<forall>d. well_formed d \<longrightarrow> node_at seen d = Some n \<longrightarrow> rfc_operations more d = Some (put_at seen n' d))"
  using assms(1)
proof (induction ts arbitrary: seen n ops)
  case (Cons t ts)
  let ?p = "formatPointer (seen @ [t])"
  show ?case
  proof (cases "step_error seen t n")
    case (Some e)
    then show ?thesis by (cases n) (auto simp: step_error_def Let_def split: sum.splits)
  next
    case None
    note err = None
    show ?thesis
    proof (cases "child n t")
      case None
      then obtain m where m: "n = JObject m" "map_of m t = None" using step_error_child [OF err] by blast
      have made: "rfc_operation (add_op ?p v) d = Some (put_at seen (JObject (obj_put t v m)) d)" if "node_at seen d = Some n" for v d
        using rfc_operation_add [OF that] m by simp
      show ?thesis
      proof (cases "ts = []")
        case True
        then show ?thesis
          using m made err good_ops(1) [OF well_formed_new [OF assms(2)], of "seen @ [t]"] by (simp add: Let_def)
      next
        case False
        have loop: "ensure_loop want seen (t # ts) n ops =
            ensure_loop want (seen @ [t]) ts (JObject []) (ops @ [add_op ?p (JObject [])])"
          using m False by (simp add: Let_def)
        show ?thesis
        proof (cases "ensure_at want (seen @ [t]) ts (JObject [])")
          case (Inl e)
          then show ?thesis using Cons.IH [OF False, of "seen @ [t]" "JObject []" "ops @ [add_op ?p (JObject [])]"] m False loop err by simp
        next
          case (Inr c)
          then obtain more where more: "ensure_loop want seen (t # ts) n ops = Inr ((ops @ [add_op ?p (JObject [])]) @ more)" "list_all good_op more"
              "\<And>d. well_formed d \<Longrightarrow> node_at (seen @ [t]) d = Some (JObject []) \<Longrightarrow> rfc_operations more d = Some (put_at (seen @ [t]) c d)"
            using Cons.IH [OF False, of "seen @ [t]" "JObject []" "ops @ [add_op ?p (JObject [])]"] loop by auto
          have "rfc_operations (add_op ?p (JObject []) # more) d = Some (put_at seen (set_child n t c) d)"
            if d: "well_formed d" "node_at seen d = Some n" for d
          proof -
            let ?n = "JObject (obj_put t (JObject []) m)" and ?d = "put_at seen (JObject (obj_put t (JObject []) m)) d"
            have n: "node_at seen ?d = Some ?n" using node_put [OF d(2)] by simp
            then have at: "node_at (seen @ [t]) ?d = Some (JObject [])" by (simp add: node_append)
            have wf: "well_formed ?d"
              using well_formed_put_at [OF d(1) _ d(2)] well_formed_put [of m "JObject []" t] well_formed_at [OF d] m(1) by simp
            have "put_at (seen @ [t]) c ?d = put_at seen (set_child ?n t c) ?d" using put_append [OF n, of "[t]" c] by simp
            also have "\<dots> = put_at seen (set_child n t c) d" using put_put_at [OF d(2)] m(1) by simp
            finally show ?thesis using more(3) [OF wf at] made [OF d(2)] by simp
          qed
          then show ?thesis using more(1,2) Inr err m False by auto
        qed
      qed
    next
      case (Some c)
      show ?thesis
      proof (cases "ts = []")
        case True
        have "ensure_loop want seen (t # ts) n ops = Inr (ops @ ensureExisting ?p c want)"
          using True Some err by (cases n) (auto simp: Let_def step_error_def split: sum.splits)
        then show ?thesis
          using ensureExisting_ops [OF _ assms(2) _ Some] ensureExisting_good [OF assms(2), of "seen @ [t]" c] True Some err
          by (simp del: ensure_loop.simps)
      next
        case False
        have loop: "ensure_loop want seen (t # ts) n ops = ensure_loop want (seen @ [t]) ts c ops"
          using False Some err by (cases n) (auto simp: Let_def step_error_def split: sum.splits)
        have at: "node_at (seen @ [t]) d = Some c" "put_at (seen @ [t]) v d = put_at seen (set_child n t v) d"
          if "node_at seen d = Some n" for d v
          using that Some put_append [OF that, of "[t]" v] by (simp_all add: node_append)
        show ?thesis
          using Cons.IH [OF False, of "seen @ [t]" c ops] Some err False loop at
          by (cases "ensure_at want (seen @ [t]) ts c") auto
      qed
    qed
  qed
qed simp

end
