(* ===== verification/Config_Patch_Proofs.thy ===== *)
theory Config_Patch_Proofs
  imports Config_Patch_Spec
begin

text \<open>
  Removal intents, and whole patches: compiling the intents one by one against the running
  document and applying all operations at the end is the fold of the direct specifications.
\<close>

section \<open>Removing\<close>

fun without_child :: "json \<Rightarrow> string \<Rightarrow> json" where
  "without_child (JObject m) t = JObject (obj_delete t m)"
| "without_child (JArray xs) t =
     (case parseArrayIndex t (length xs) of Inl e \<Rightarrow> JArray xs | Inr i \<Rightarrow> JArray (take i xs @ drop (Suc i) xs))"
| "without_child node t = node"

definition delete_at :: "string list \<Rightarrow> json \<Rightarrow> json" where
  "delete_at ts d = (case node_at (butlast ts) d of None \<Rightarrow> d | Some n \<Rightarrow> put_at (butlast ts) (without_child n (last ts)) d)"

definition remove_item :: "json \<Rightarrow> patch_value \<Rightarrow> patch_error + json" where
  "remove_item d item =
     attempt (parsePointer (pvPath item)) (\<lambda>ts.
       case lookup_loop [] ts d of
         Inl e \<Rightarrow> Inl (RemoveFailed (pvPath item) e)
       | Inr None \<Rightarrow> Inr d
       | Inr (Some (JArray xs)) \<Rightarrow> Inr (put_at ts (JArray (filter (\<lambda>x. x \<noteq> pvValue item) xs)) d)
       | Inr (Some c) \<Rightarrow> Inr (if c = pvValue item then delete_at ts d else d))"

definition ensure_item :: "json \<Rightarrow> patch_value \<Rightarrow> patch_error + json" where
  "ensure_item d item = attempt (parsePointer (pvPath item)) (\<lambda>ts. ensure_at (pvValue item) [] ts d)"

lemma parsePointer_nonempty: "parsePointer p = Inr ts \<Longrightarrow> ts \<noteq> []"
  by (auto simp: parsePointer_def split: if_splits)

lemma lookup_loop_node: "lookup_loop seen ts n = Inr (Some c) \<Longrightarrow> node_at ts n = Some c"
  by (induction seen ts n rule: lookup_loop.induct) (auto split: json.splits option.splits sum.splits)

lemma rfc_remove_child: "child n t = Some c \<Longrightarrow> rfc_remove n t = Some (without_child n t)"
  by (cases "(n, t)" rule: child.cases) (auto split: sum.splits)

text \<open>Array members are removed from the last to the first.\<close>

lemma remove_members:
  assumes "well_formed d" "node_at ts d = Some (JArray (ys @ rest))"
  shows "rfc_operations (map (\<lambda>i. remove_op (formatPointer (ts @ [Itoa (int i)]))) (filter (\<lambda>i. ys ! i = v) (rev [0..<length ys]))) d =
    Some (put_at ts (JArray (filter (\<lambda>x. x \<noteq> v) ys @ rest)) d)"
  using assms
proof (induction ys arbitrary: d rest rule: rev_induct)
  case Nil
  then show ?case using put_same_at [OF Nil] by simp
next
  case (snoc y ys)
  let ?n = "length ys"
  let ?ops = "map (\<lambda>i. remove_op (formatPointer (ts @ [Itoa (int i)]))) (filter (\<lambda>i. ys ! i = v) (rev [0..<?n]))"
  have "filter (\<lambda>i. (ys @ [y]) ! i = v) (rev [0..<length (ys @ [y])]) =
      (if y = v then [?n] else []) @ filter (\<lambda>i. ys ! i = v) (rev [0..<?n])"
    by (auto simp: nth_append intro: filter_cong)
  moreover have "rfc_operations ?ops d = Some (put_at ts (JArray (filter (\<lambda>x. x \<noteq> v) ys @ y # rest)) d)"
    using snoc.IH [of d "y # rest"] snoc.prems by simp
  moreover have "rfc_operations (remove_op (formatPointer (ts @ [Itoa (int ?n)])) # ?ops) d =
      Some (put_at ts (JArray (filter (\<lambda>x. x \<noteq> v) ys @ rest)) d)"
  proof -
    let ?d = "put_at ts (JArray (ys @ rest)) d"
    have rest: "rfc_remove (JArray ((ys @ [y]) @ rest)) (Itoa (int ?n)) = Some (JArray (ys @ rest))"
      by (simp add: parseArrayIndex_Itoa)
    have "well_formed (JArray (ys @ rest))" using well_formed_at [OF snoc.prems] by simp
    then have d: "well_formed ?d" "node_at ts ?d = Some (JArray (ys @ rest))"
      using well_formed_put_at [OF snoc.prems(1) _ snoc.prems(2)] node_put [OF snoc.prems(2)] by auto
    show ?thesis
      using snoc.IH [OF d] rfc_operation_remove [OF snoc.prems(2), of "Itoa (int ?n)"] rest put_put_at [OF snoc.prems(2)] by simp
  qed
  ultimately show ?case by auto
qed

lemma compileRemove_spec:
  assumes "well_formed d"
  shows "case remove_item d item of
      Inl e \<Rightarrow> compileRemove d item = Inl e
    | Inr d' \<Rightarrow> \<exists>ops. compileRemove d item = Inr ops \<and> list_all good_op ops \<and> rfc_operations ops d = Some d'"
proof (cases "parsePointer (pvPath item)")
  case (Inl e)
  then show ?thesis by (simp add: remove_item_def compileRemove_def)
next
  case (Inr ts)
  note ts = parsePointer_nonempty [OF Inr]
  show ?thesis
  proof (cases "lookup_loop [] ts d")
    case (Inl e)
    then show ?thesis using Inr by (simp add: remove_item_def compileRemove_def)
  next
    case found: (Inr r)
    show ?thesis
    proof (cases r)
      case None
      then show ?thesis using Inr found by (simp add: remove_item_def compileRemove_def)
    next
      case (Some c)
      have node: "node_at ts d = Some c" using lookup_loop_node found Some by blast
      show ?thesis
      proof (cases "\<exists>xs. c = JArray xs")
        case True
        then obtain xs where "c = JArray xs" by blast
        then show ?thesis
          using Inr found Some node remove_members [OF assms, of ts xs "[]" "pvValue item"]
          by (simp add: remove_item_def compileRemove_def list_all_iff)
      next
        case False
        have parent: "ts = butlast ts @ [last ts]" using ts by simp
        then obtain n where n: "node_at (butlast ts) d = Some n" "child n (last ts) = Some c"
          using node node_append [of "butlast ts" "[last ts]" d] by (auto split: option.splits)
        have op: "rfc_operation (remove_op (pvPath item)) d = Some (delete_at ts d)"
          using n rfc_remove_child [OF n(2)] Inr by (simp add: rfc_operation_def remove_op_def at_parent_def delete_at_def)
        have good: "good_op (remove_op (pvPath item))"
          using Inr by (auto simp: good_op_def compiled_op_def remove_op_def parsePointer_def)
        have "remove_item d item = Inr (if c = pvValue item then delete_at ts d else d)"
          "compileRemove d item = Inr (if c = pvValue item then [remove_op (pvPath item)] else [])"
          using Inr found Some False by (cases c; simp add: remove_item_def compileRemove_def)+
        then show ?thesis using op good by simp
      qed
    qed
  qed
qed

section \<open>Objects stay objects, documents stay well formed\<close>

fun is_object :: "json \<Rightarrow> bool" where
  "is_object (JObject m) = True"
| "is_object _ = False"

lemma put_object: "is_object d \<Longrightarrow> (ts = [] \<Longrightarrow> is_object v) \<Longrightarrow> is_object (put_at ts v d)"
  by (cases d; cases ts) (auto split: option.splits)

lemma ensure_at_object: "ensure_at want seen ts d = Inr d' \<Longrightarrow> is_object d \<Longrightarrow> is_object d'"
  by (cases ts; cases d) (auto simp: attempt_Inr require_Inr)

lemma delete_object: "is_object d \<Longrightarrow> is_object (delete_at ts d)"
  by (cases d) (auto simp: delete_at_def intro!: put_object split: option.splits)

lemma remove_item_cases:
  assumes "remove_item d item = Inr d'"
  obtains (kept) "d' = d"
  | (filtered) ts xs where "parsePointer (pvPath item) = Inr ts" "node_at ts d = Some (JArray xs)"
      "d' = put_at ts (JArray (filter (\<lambda>x. x \<noteq> pvValue item) xs)) d"
  | (deleted) ts where "d' = delete_at ts d"
proof -
  obtain ts where ts: "parsePointer (pvPath item) = Inr ts" using assms by (auto simp: remove_item_def attempt_Inr)
  consider "lookup_loop [] ts d = Inr None" | c where "lookup_loop [] ts d = Inr (Some c)"
    using assms ts by (cases "lookup_loop [] ts d") (auto simp: remove_item_def)
  then show ?thesis
  proof cases
    case 1
    then show ?thesis using assms ts kept by (simp add: remove_item_def)
  next
    case (2 c)
    then show ?thesis
      using assms ts lookup_loop_node [OF 2] kept filtered [OF ts] deleted by (cases c) (auto simp: remove_item_def split: if_splits)
  qed
qed

lemma remove_item_object:
  assumes "remove_item d item = Inr d'" "is_object d" shows "is_object d'"
  using assms(1)
  by (cases rule: remove_item_cases) (auto simp: assms(2) delete_object intro!: put_object dest: parsePointer_nonempty)

lemma as_member_wf: "well_formed want \<Longrightarrow> well_formed c \<Longrightarrow> well_formed (as_member want c)"
  by (cases c) auto

lemma ensure_at_wf: "ensure_at want seen ts d = Inr d' \<Longrightarrow> well_formed want \<Longrightarrow> well_formed d \<Longrightarrow> well_formed d'"
proof (induction ts arbitrary: seen d d')
  case (Cons t ts)
  then obtain c where c: "d' = set_child d t c"
      "(case child d t of None \<Rightarrow> if ts = [] then Inr (newEnsureNode want) else ensure_at want (seen @ [t]) ts (JObject [])
        | Some c \<Rightarrow> if ts = [] then Inr (as_member want c) else ensure_at want (seen @ [t]) ts c) = Inr c"
    by (auto simp: attempt_Inr require_Inr)
  have "well_formed c"
    using c(2) Cons.IH Cons.prems well_formed_new as_member_wf well_formed_child [OF Cons.prems(3), of t]
    by (auto split: option.splits if_splits)
  then show ?case using c(1) well_formed_set Cons.prems(3) by blast
qed simp

lemma sorted_filter_keys: "sorted_wrt (<) (map fst m) \<Longrightarrow> sorted_wrt (<) (map fst (filter P m))"
  by (induction m) auto

lemma without_child_wf: "well_formed n \<Longrightarrow> well_formed (without_child n t)"
  by (cases "(n, t)" rule: without_child.cases)
    (auto simp: obj_delete_def list_all_iff sorted_filter_keys split: sum.splits dest: in_set_takeD in_set_dropD)

lemma delete_wf: "well_formed d \<Longrightarrow> well_formed (delete_at ts d)"
  by (auto simp: delete_at_def without_child_wf well_formed_at intro!: well_formed_put_at split: option.splits)

lemma remove_item_wf:
  assumes "remove_item d item = Inr d'" "well_formed d" shows "well_formed d'"
  using assms(1)
proof (cases rule: remove_item_cases)
  case (filtered ts xs)
  then show ?thesis
    using well_formed_put_at [OF assms(2) _ filtered(2)] well_formed_at [OF assms(2) filtered(2)] by (simp add: list_all_iff)
qed (simp_all add: assms(2) delete_wf)

lemma ensure_item_facts:
  assumes "ensure_item d item = Inr d'"
  shows "is_object d \<Longrightarrow> is_object d'" "well_formed d \<Longrightarrow> well_formed (pvValue item) \<Longrightarrow> well_formed d'"
  using assms ensure_at_object ensure_at_wf by (auto simp: ensure_item_def attempt_Inr)

lemma compileEnsure_spec:
  assumes "well_formed d" "well_formed (pvValue item)"
  shows "case ensure_item d item of
      Inl e \<Rightarrow> compileEnsure d item = Inl e
    | Inr d' \<Rightarrow> \<exists>ops. compileEnsure d item = Inr ops \<and> list_all good_op ops \<and> rfc_operations ops d = Some d'"
proof (cases "parsePointer (pvPath item)")
  case (Inr ts)
  show ?thesis
    using ensure_loop_spec [OF parsePointer_nonempty [OF Inr] assms(2), of "[]" d "[]"] Inr assms(1)
    by (auto simp: ensure_item_def compileEnsure_def split: sum.splits)
qed (simp add: ensure_item_def compileEnsure_def)

section \<open>Whole patches\<close>

text \<open>
  What the code relies on the package for: on well-formed documents it evaluates additions,
  replacements and removals of members as RFC 6902 says, and what it returns is well formed.
\<close>

definition patch_package_ok :: "patch_package \<Rightarrow> bool" where
  "patch_package_ok lib \<longleftrightarrow>
     (\<forall>ops d. well_formed d \<longrightarrow> list_all good_op ops \<longrightarrow> lib ops d = rfc_operations ops d) \<and>
     (\<forall>ops d d'. well_formed d \<longrightarrow> lib ops d = Some d' \<longrightarrow> well_formed d')"

fun each_item :: "(json \<Rightarrow> patch_value \<Rightarrow> patch_error + json) \<Rightarrow> patch_value list \<Rightarrow> json \<Rightarrow> patch_error + json" where
  "each_item f [] d = Inr d"
| "each_item f (item # items) d = attempt (f d item) (each_item f items)"

lemma apply_good:
  assumes "patch_package_ok lib" "well_formed d" "is_object d" "list_all good_op ops" "rfc_operations ops d = Some d'" "is_object d'"
  shows "applyOperations lib d ops = Inr d'"
  using assms by (cases d'; cases "ops = []") (auto simp: applyOperations_def patch_package_ok_def)

text \<open>One of the two loops, for a compiler that meets its specification.\<close>

lemma compile_loop_spec:
  assumes lib: "patch_package_ok lib"
    and spec: "\<And>d item. item \<in> set items \<Longrightarrow> well_formed d \<Longrightarrow> case f d item of
      Inl e \<Rightarrow> compile d item = Inl e
    | Inr d' \<Rightarrow> \<exists>ops. compile d item = Inr ops \<and> list_all good_op ops \<and> rfc_operations ops d = Some d'"
    and keep: "\<And>d item d'. item \<in> set items \<Longrightarrow> f d item = Inr d' \<Longrightarrow> well_formed d \<Longrightarrow> is_object d \<Longrightarrow> well_formed d' \<and> is_object d'"
    and d: "well_formed d" "is_object d"
  shows "case each_item f items d of
      Inl e \<Rightarrow> compile_loop lib compile items (d, compiled) = Inl e
    | Inr d' \<Rightarrow> well_formed d' \<and> is_object d' \<and>
        (\<exists>ops. compile_loop lib compile items (d, compiled) = Inr (d', compiled @ ops) \<and> list_all good_op ops \<and>
           rfc_operations ops d = Some d')"
  using spec keep d
proof (induction items arbitrary: d compiled)
  case (Cons item items)
  show ?case
  proof (cases "f d item")
    case (Inl e)
    then show ?thesis using Cons.prems(1) [of item d] Cons.prems(3) by simp
  next
    case (Inr d1)
    have d1: "well_formed d1" "is_object d1" using Cons.prems(2) [of item d d1] Cons.prems(3,4) Inr by auto
    obtain ops where ops: "compile d item = Inr ops" "list_all good_op ops" "rfc_operations ops d = Some d1"
      using Cons.prems(1) [of item d] Cons.prems(3) Inr by auto
    have step: "compile_loop lib compile (item # items) (d, compiled) = compile_loop lib compile items (d1, compiled @ ops)"
      using ops(1) apply_good [OF lib Cons.prems(3,4) ops(2,3) d1(2)] by simp
    have IH: "case each_item f items d1 of
        Inl e \<Rightarrow> compile_loop lib compile items (d1, compiled @ ops) = Inl e
      | Inr d' \<Rightarrow> well_formed d' \<and> is_object d' \<and>
          (\<exists>more. compile_loop lib compile items (d1, compiled @ ops) = Inr (d', (compiled @ ops) @ more) \<and> list_all good_op more \<and>
             rfc_operations more d1 = Some d')"
      by (rule Cons.IH [OF Cons.prems(1) [OF list.set_intros(2)] Cons.prems(2) [OF list.set_intros(2)] d1])
    show ?thesis
    proof (cases "each_item f items d1")
      case (Inl e)
      then show ?thesis using IH Inr step by simp
    next
      case rest: (Inr d')
      then obtain more where "well_formed d'" "is_object d'" "compile_loop lib compile items (d1, compiled @ ops) = Inr (d', compiled @ ops @ more)"
          "list_all good_op more" "rfc_operations more d1 = Some d'"
        using IH by auto
      then show ?thesis using Inr step rest ops(2,3) by (auto simp: rfc_append intro!: exI [of _ "ops @ more"])
    qed
  qed
qed auto

end
