(* ===== verification/Config_Patch_Properties.thy ===== *)
theory Config_Patch_Properties
  imports Config_Patch_Proofs
begin

text \<open>
  The properties of configuration patches: a patch is the fold of its intents, an ensured value
  is a member afterwards, ensuring again changes nothing but for one shape of value, and JSON
  Pointers print and parse back.
\<close>

section \<open>Ensuring twice\<close>

lemma ensure_at_node:
  "ensure_at want seen ts d = Inr d' \<Longrightarrow> ts \<noteq> [] \<Longrightarrow>
   node_at ts d' = Some (case node_at ts d of None \<Rightarrow> newEnsureNode want | Some c \<Rightarrow> as_member want c)"
proof (induction ts arbitrary: seen d d')
  case (Cons t ts)
  let ?old = "child d t"
  obtain c where err: "step_error seen t d = None" and d': "d' = set_child d t c"
    and c: "(case ?old of None \<Rightarrow> if ts = [] then Inr (newEnsureNode want) else ensure_at want (seen @ [t]) ts (JObject [])
        | Some c \<Rightarrow> if ts = [] then Inr (as_member want c) else ensure_at want (seen @ [t]) ts c) = Inr c"
    using Cons.prems(1) by (auto simp: attempt_Inr require_Inr)
  have get: "child d' t = Some c"
  proof (cases ?old)
    case None
    then show ?thesis using step_error_child [OF err] d' by auto
  qed (use d' child_set in blast)
  show ?case
  proof (cases "ts = []")
    case True
    then show ?thesis using get c by (auto split: option.splits)
  next
    case False
    have missing: "node_at ts (JObject []) = None" using False by (cases ts) auto
    show ?thesis
    proof (cases ?old)
      case None
      then show ?thesis using Cons.IH [of "seen @ [t]" "JObject []" c] c False get missing by simp
    next
      case (Some o')
      then show ?thesis using Cons.IH [of "seen @ [t]" o' c] c False get by simp
    qed
  qed
qed simp

lemma ensure_again:
  "node_at ts d = Some c \<Longrightarrow> ts \<noteq> [] \<Longrightarrow> ensure_at want seen ts d = Inr (put_at ts (as_member want c) d)"
proof (induction ts arbitrary: seen d)
  case (Cons t ts)
  then obtain x where x: "child d t = Some x" "node_at ts x = Some c" by (auto split: option.splits)
  have "step_error seen t d = None" using x(1) by (cases d) (auto simp: step_error_def split: sum.splits)
  then show ?case using Cons.IH [of x "seen @ [t]"] x by (cases "ts = []") auto
qed simp

definition ensures :: "patch_value \<Rightarrow> config_patch" where
  "ensures item = \<lparr>patchEnsure = [item], patchRemove = [], patchOperations = []\<rparr>"

lemma JArray_not_member: "JArray xs \<notin> set xs"
proof
  assume "JArray xs \<in> set xs"
  then have "size (JArray xs) < size (JArray xs)" using size_list_estimation' [of "JArray xs" xs "size (JArray xs)" size] by simp
  then show False by simp
qed

lemma as_member_again:
  "as_member want (as_member want c) =
     (case want of JArray xs \<Rightarrow> (case c of JArray ys \<Rightarrow> as_member want c | _ \<Rightarrow> JArray (xs @ [want])) | _ \<Rightarrow> as_member want c)"
  "as_member want (newEnsureNode want) = (case want of JArray xs \<Rightarrow> JArray (xs @ [want]) | _ \<Rightarrow> newEnsureNode want)"
  using JArray_not_member by (cases c; cases want; auto)+

lemma rfc_add_wf:
  assumes "rfc_add n t v = Some n'" "well_formed n" "well_formed v" shows "well_formed n'"
proof (cases n)
  case (JObject m)
  then show ?thesis using assms well_formed_put [of m v t] by auto
next
  case (JArray xs)
  have "list_all well_formed (take i xs @ v # drop i xs)" if "list_all well_formed xs" for i
    using that assms(3) set_take_subset [of i xs] set_drop_subset [of i xs] by (auto simp: list_all_iff)
  then show ?thesis using assms JArray by (auto split: sum.splits if_splits)
qed (use assms in auto)

lemma rfc_remove_wf: "rfc_remove n t = Some n' \<Longrightarrow> well_formed n \<Longrightarrow> well_formed n'"
  using without_child_wf [of n t]
  by (cases "(n, t)" rule: rfc_remove.cases) (auto split: sum.splits if_splits)

lemma rfc_operations_wf: "list_all good_op ops \<Longrightarrow> rfc_operations ops d = Some d' \<Longrightarrow> well_formed d \<Longrightarrow> well_formed d'"
proof (induction ops arbitrary: d)
  case (Cons p ops)
  then obtain d1 where d1: "rfc_operation p d = Some d1" "rfc_operations ops d1 = Some d'" by (auto split: bind_splits)
  have v: "well_formed (opValue p)" using Cons.prems(1) by (simp add: good_op_def)
  have parent: "well_formed d1" if "at_parent f ts d = Some d1"
    "\<And>n t n'. f n t = Some n' \<Longrightarrow> well_formed n \<Longrightarrow> well_formed n'" for f ts
    using that well_formed_at [OF Cons.prems(3)] well_formed_put_at [OF Cons.prems(3)]
    by (fastforce simp: at_parent_def split: option.splits)
  have "well_formed d1"
    using d1(1) v rfc_add_wf rfc_remove_wf
    by (auto simp: rfc_operation_def rfc_replace_def intro: well_formed_set elim!: parent split: sum.splits if_splits option.splits)
  then show ?case using Cons d1(2) by simp
qed simp

text \<open>A package that meets the contract: RFC 6902 on the operations the compiler emits, an error otherwise.\<close>

definition member_package :: patch_package where
  "member_package ops d = (if list_all good_op ops then rfc_operations ops d else None)"

lemma member_package_ok: "patch_package_ok member_package"
  using rfc_operations_wf by (auto simp: patch_package_ok_def member_package_def)

section \<open>The specification of a patch\<close>

lemma apply_patch_spec:
  assumes lib: "patch_package_ok lib" and d: "well_formed d" "is_object d"
    and vals: "list_all (\<lambda>item. well_formed (pvValue item)) (patchEnsure p)"
  shows "apply_patch lib d p =
    require (Patch_Validate p)
      (attempt (if patchOperations p \<noteq> [] then applyOperations lib d (patchOperations p) else Inr d) (\<lambda>d.
       attempt (each_item remove_item (patchRemove p) d) (each_item ensure_item (patchEnsure p))))"
proof -
  have "attempt (compileIntents lib d p) (applyOperations lib d) =
      attempt (each_item remove_item (patchRemove p) d) (each_item ensure_item (patchEnsure p))"
    if d: "well_formed d" "is_object d" for d
  proof -
    have R: "case each_item remove_item (patchRemove p) d of
          Inl e \<Rightarrow> compile_loop lib compileRemove (patchRemove p) (d, []) = Inl e
        | Inr d' \<Rightarrow> well_formed d' \<and> is_object d' \<and>
            (\<exists>ops. compile_loop lib compileRemove (patchRemove p) (d, []) = Inr (d', [] @ ops) \<and> list_all good_op ops \<and>
               rfc_operations ops d = Some d')"
      by (rule compile_loop_spec [OF lib _ _ d]) (use compileRemove_spec remove_item_wf remove_item_object in auto)
    show ?thesis
    proof (cases "each_item remove_item (patchRemove p) d")
      case (Inl e)
      then show ?thesis using R by (simp add: compileIntents_def)
    next
      case (Inr d1)
      then obtain ops where ops: "well_formed d1" "is_object d1" "compile_loop lib compileRemove (patchRemove p) (d, []) = Inr (d1, ops)"
          "list_all good_op ops" "rfc_operations ops d = Some d1"
        using R by auto
      have E: "case each_item ensure_item (patchEnsure p) d1 of
          Inl e \<Rightarrow> compile_loop lib compileEnsure (patchEnsure p) (d1, ops) = Inl e
        | Inr d' \<Rightarrow> well_formed d' \<and> is_object d' \<and>
            (\<exists>more. compile_loop lib compileEnsure (patchEnsure p) (d1, ops) = Inr (d', ops @ more) \<and> list_all good_op more \<and>
               rfc_operations more d1 = Some d')"
        by (rule compile_loop_spec [OF lib _ _ ops(1,2)])
          (use vals compileEnsure_spec ensure_item_facts in \<open>auto simp: list_all_iff\<close>)
      show ?thesis
      proof (cases "each_item ensure_item (patchEnsure p) d1")
        case (Inl e)
        then show ?thesis using E Inr ops(3) by (simp add: compileIntents_def)
      next
        case rest: (Inr d')
        then obtain more where more: "is_object d'" "compile_loop lib compileEnsure (patchEnsure p) (d1, ops) = Inr (d', ops @ more)"
            "list_all good_op more" "rfc_operations more d1 = Some d'"
          using E by auto
        then have "applyOperations lib d (ops @ more) = Inr d'"
          using ops(4,5) by (intro apply_good [OF lib d]) (simp_all add: rfc_append)
        then show ?thesis using Inr rest ops(3) more(2) by (simp add: compileIntents_def)
      qed
    qed
  qed
  moreover have "well_formed d1 \<and> is_object d1"
    if "(if patchOperations p \<noteq> [] then applyOperations lib d (patchOperations p) else Inr d) = Inr d1" for d1
    using that d lib by (auto simp: applyOperations_def patch_package_ok_def split: if_splits option.splits json.splits)
  ultimately show ?thesis
    unfolding apply_patch_def
    by (cases "if patchOperations p \<noteq> [] then applyOperations lib d (patchOperations p) else Inr d"; cases "Patch_Validate p")
      (simp_all only: attempt_simps require_simps)
qed


section \<open>Properties\<close>

text \<open>
  C36. Applying a patch is its specification: after validation and the raw operations, each
  removal and then each ensured value acts on the document as the recursive definition of a
  set-membership intent says, in order, with the same errors. The compiled RFC 6902 operations,
  the running copy they are compiled against and the final application agree on that.
\<close>

theorem apply_patch_refines:
  assumes lib: "patch_package_ok lib" and d: "well_formed d" "is_object d"
    and vals: "list_all (\<lambda>item. well_formed (pvValue item)) (patchEnsure p)"
  shows "apply_patch lib d p =
    require (Patch_Validate p)
      (attempt (if patchOperations p \<noteq> [] then applyOperations lib d (patchOperations p) else Inr d) (\<lambda>d.
       attempt (each_item remove_item (patchRemove p) d) (each_item ensure_item (patchEnsure p))))"
  by (rule apply_patch_spec [OF assms])

text \<open>Two arrays of plugins, and the member to ensure.\<close>

definition plugins_document :: json where
  "plugins_document = JObject [(''plugins'', JObject [(''enabled'', JArray [JString ''a''])])]"

definition plugin_item :: patch_value where
  "plugin_item = \<lparr>pvPath = ''/plugins/enabled'', pvValue = JString ''b''\<rparr>"

theorem apply_patch_refines_witness:
  "apply_patch member_package plugins_document (ensures plugin_item) =
     require (Patch_Validate (ensures plugin_item)) (attempt (Inr plugins_document) (\<lambda>d.
       attempt (each_item remove_item [] d) (each_item ensure_item [plugin_item])))"
  using apply_patch_refines [OF member_package_ok, of plugins_document "ensures plugin_item"]
  by (simp add: plugins_document_def plugin_item_def ensures_def)

lemma ensures_valid: "Patch_Validate (ensures item) = map_option (EnsureInvalid 0) (pointer_error (pvPath item))"
  by (cases "pointer_error (pvPath item)") (simp_all add: Patch_Validate_def ensures_def validateIntent_def enumerate_eq_zip)

lemma apply_ensures:
  assumes "patch_package_ok lib" "well_formed d" "is_object d" "well_formed (pvValue item)"
  shows "apply_patch lib d (ensures item) =
    (case parsePointer (pvPath item) of Inl e \<Rightarrow> Inl (EnsureInvalid 0 e) | Inr ts \<Rightarrow> ensure_at (pvValue item) [] ts d)"
proof -
  have p: "patchEnsure (ensures item) = [item]" "patchRemove (ensures item) = []" "patchOperations (ensures item) = []"
    by (simp_all add: ensures_def)
  have "list_all (\<lambda>item. well_formed (pvValue item)) (patchEnsure (ensures item))" using assms(4) p by simp
  from apply_patch_spec [OF assms(1-3) this] show ?thesis
    by (cases "parsePointer (pvPath item)"; cases "ensure_at (pvValue item) [] (projr (parsePointer (pvPath item))) d")
      (simp_all add: p ensures_valid pointer_error_def ensure_item_def)
qed

text \<open>
  C39. After an ensured value is applied, the pointer addresses what \<open>newEnsureNode\<close> makes when
  there was nothing, and otherwise the array with the value as a member or the value itself. Applying it again changes
  nothing, unless the value is an array and no array was there: then the second application
  appends the array to itself.
\<close>

theorem ensured_again:
  assumes "patch_package_ok lib" "well_formed d" "is_object d" "well_formed (pvValue item)"
    and "apply_patch lib d (ensures item) = Inr d'" "parsePointer (pvPath item) = Inr ts"
  shows "node_at ts d' = Some (case node_at ts d of None \<Rightarrow> newEnsureNode (pvValue item) | Some c \<Rightarrow> as_member (pvValue item) c) \<and>
    apply_patch lib d' (ensures item) =
      (case (pvValue item, node_at ts d) of
         (JArray xs, Some (JArray ys)) \<Rightarrow> Inr d'
       | (JArray xs, _) \<Rightarrow> Inr (put_at ts (JArray (xs @ [JArray xs])) d')
       | _ \<Rightarrow> Inr d')"
proof -
  let ?v = "pvValue item"
  let ?c = "case node_at ts d of None \<Rightarrow> newEnsureNode ?v | Some c \<Rightarrow> as_member ?v c"
  note ts = parsePointer_nonempty [OF assms(6)]
  have e: "ensure_at ?v [] ts d = Inr d'" using assms(5,6) apply_ensures [OF assms(1-4)] by simp
  have node: "node_at ts d' = Some ?c" by (rule ensure_at_node [OF e ts])
  have d': "well_formed d'" "is_object d'" using ensure_at_wf [OF e assms(4,2)] ensure_at_object [OF e assms(3)] .
  have "apply_patch lib d' (ensures item) = Inr (put_at ts (as_member ?v ?c) d')"
    using apply_ensures [OF assms(1) d' assms(4)] assms(6) ensure_again [OF node ts] by simp
  moreover have "put_at ts ?c d' = d'" by (rule put_same_at [OF d'(1) node])
  ultimately show ?thesis
    using node as_member_again by (auto split: option.splits json.splits)
qed

text \<open>An array ensured where there was nothing, twice.\<close>

definition array_item :: patch_value where
  "array_item = \<lparr>pvPath = ''/x'', pvValue = JArray [JString ''b'']\<rparr>"

lemma array_item_pointer: "parsePointer ''/x'' = Inr [''x'']"
  using parse_format [of "[''x'']"] by (simp add: formatPointer_def escape_def ReplaceAll_char)

theorem ensured_again_witness:
  "apply_patch member_package (JObject [(''x'', JArray [JString ''b''])]) (ensures array_item) =
     Inr (JObject [(''x'', JArray [JString ''b'', JArray [JString ''b'']])])"
proof -
  have "apply_patch member_package (JObject []) (ensures array_item) = Inr (JObject [(''x'', JArray [JString ''b''])])"
    using apply_ensures [OF member_package_ok, of "JObject []" array_item] array_item_pointer
    by (simp add: array_item_def step_error_def)
  from ensured_again [OF member_package_ok _ _ _ this] show ?thesis
    using array_item_pointer by (simp add: array_item_def)
qed

text \<open>
  Pointers print and parse back: what \<open>formatPointer\<close> makes of any tokens but none,
  with their tildes and slashes, is parsed to the same tokens.
\<close>

theorem pointers_roundtrip: "ts \<noteq> [] \<Longrightarrow> parsePointer (formatPointer ts) = Inr ts"
  by (rule parse_format)

theorem pointers_roundtrip_witness: "parsePointer (formatPointer [''a/b'', ''~1'', '''']) = Inr [''a/b'', ''~1'', '''']"
  by (rule pointers_roundtrip) simp

end
