(* ===== verification/Host_Config.thy ===== *)
theory Host_Config
  imports Paths Go_Strings Config_Patch
begin

text \<open>
  What the host configuration is made of: the directories of \<open>internal/config\<close> (\<open>paths.go\<close>,
  \<open>runtime.go\<close>), the deep merge of generic maps of \<open>internal/config/file\<close>, and the registered
  warnings with their suppression (\<open>internal/diagnostic/warning\<close>).

  The environment is a parameter: \<open>getenv\<close> is \<open>os.Getenv\<close>, which returns the empty string for
  an unset variable, and an optional string is the home or working directory the system reports.
\<close>

section \<open>Host directories\<close>

datatype path_error =
    HomeUnknown
  | NotAbsolute string string
  | RuntimeDirRequired
  | RuntimeDirNotClean string

definition ExpandHostHome :: "string \<Rightarrow> string \<Rightarrow> string" where
  "ExpandHostHome path home =
     (if path = ''~'' then home else if prefix ''~/'' path then home @ tl path else path)"

text \<open>\<open>filepath.Join\<close> of any number of elements, and \<open>filepath.Abs\<close>.\<close>

definition Joins :: "string list \<Rightarrow> string" where
  "Joins elems = (case dropWhile (\<lambda>e. e = '''') elems of [] \<Rightarrow> '''' | es \<Rightarrow> Clean (join_slash es))"

definition Abs_path :: "string option \<Rightarrow> string \<Rightarrow> string option" where
  "Abs_path cwd path = (if IsAbs path then Some (Clean path) else map_option (\<lambda>wd. Join wd path) cwd)"

record host_paths =
  pathsHome :: string
  pathsConfigHome :: string
  pathsCacheHome :: string
  pathsDataHome :: string
  pathsRuntimeDir :: string
  pathsProjectRoot :: string

definition xdgPath :: "(string \<Rightarrow> string) \<Rightarrow> string \<Rightarrow> string \<Rightarrow> path_error + string" where
  "xdgPath getenv name fallback =
     (let value = TrimSpace (getenv name);
          value = (if value = '''' then fallback else value)
      in if \<not> IsAbs value then Inl (NotAbsolute name value) else Inr (Clean value))"

definition optionalAbsolutePath :: "(string \<Rightarrow> string) \<Rightarrow> string \<Rightarrow> path_error + string" where
  "optionalAbsolutePath getenv name =
     (let value = TrimSpace (getenv name)
      in if value = '''' then Inr ''''
         else if \<not> IsAbs value then Inl (NotAbsolute name value) else Inr (Clean value))"

definition NewPaths :: "string option \<Rightarrow> (string \<Rightarrow> string) \<Rightarrow> path_error + host_paths" where
  "NewPaths home_dir getenv =
     (case home_dir of
        None \<Rightarrow> Inl HomeUnknown
      | Some home \<Rightarrow>
          attempt (xdgPath getenv ''XDG_CONFIG_HOME'' (Joins [home, ''.config''])) (\<lambda>configHome.
          attempt (xdgPath getenv ''XDG_CACHE_HOME'' (Joins [home, ''.cache''])) (\<lambda>cacheHome.
          attempt (xdgPath getenv ''XDG_DATA_HOME'' (Joins [home, ''.local'', ''share''])) (\<lambda>dataHome.
          attempt (xdgPath getenv ''XDG_PROJECTS_DIR'' (Joins [home, ''Projects''])) (\<lambda>projectRoot.
          attempt (optionalAbsolutePath getenv ''XDG_RUNTIME_DIR'') (\<lambda>runtimeDir.
            Inr \<lparr>pathsHome = home, pathsConfigHome = configHome, pathsCacheHome = cacheHome,
                 pathsDataHome = dataHome, pathsRuntimeDir = runtimeDir, pathsProjectRoot = projectRoot\<rparr>))))))"

definition TobyConfigDir :: "host_paths \<Rightarrow> string" where
  "TobyConfigDir p = Joins [pathsConfigHome p, ''toby'']"

definition TobyDataDir :: "host_paths \<Rightarrow> string" where
  "TobyDataDir p = Joins [pathsDataHome p, ''toby'']"

definition TobyCacheDir :: "host_paths \<Rightarrow> string" where
  "TobyCacheDir p = Joins [pathsCacheHome p, ''toby'']"

definition RunStorageDir :: "host_paths \<Rightarrow> string" where
  "RunStorageDir p = Joins [TobyCacheDir p, ''runs'']"

record runtime_paths =
  runtimeRoot :: string
  runtimeRuns :: string
  runtimeCaddy :: string
  runtimeAgentSocket :: string

definition validateRuntimeDir :: "string \<Rightarrow> path_error verdict" where
  "validateRuntimeDir path =
     (if path = '''' then Some RuntimeDirRequired
      else if \<not> IsAbs path \<or> Clean path \<noteq> path then Some (RuntimeDirNotClean path) else None)"

definition ResolveRuntime :: "host_paths \<Rightarrow> path_error + runtime_paths" where
  "ResolveRuntime p =
     require (validateRuntimeDir (pathsRuntimeDir p))
       (let root = Joins [pathsRuntimeDir p, ''toby'']
        in Inr \<lparr>runtimeRoot = root, runtimeRuns = Joins [root, ''runs''], runtimeCaddy = Joins [root, ''caddy''],
                runtimeAgentSocket = Joins [root, ''agent.sock'']\<rparr>)"

section \<open>Generic maps\<close>

text \<open>
  Later maps win, except that two maps under the same key are merged; every value that is taken
  over is a clone. The source is iterated in the order of its list.
\<close>

type_synonym entries = "(string \<times> json) list"

function Merge :: "entries \<Rightarrow> entries \<Rightarrow> entries" where
  "Merge dst [] = dst"
| "Merge dst ((key, value) # src) =
     Merge (case (value, map_of dst key) of
              (JObject srcMap, Some (JObject dstMap)) \<Rightarrow> obj_put key (JObject (Merge dstMap srcMap)) dst
            | _ \<Rightarrow> obj_put key value dst) src"
  by pat_completeness auto
termination
  by (relation "measure (\<lambda>(dst, src). size_list (size_prod (\<lambda>_. 0) size) src)") auto

section \<open>Warnings\<close>

definition registeredIDs :: "string list" where
  "registeredIDs =
     [''agent.binary-version-mismatch'', ''config.fragment-ignored'', ''config.instruction-missing'',
      ''config.unknown-warning-id'', ''docker.socket-missing'', ''mcp.image-unavailable'', ''mcp.server-invalid'',
      ''models.endpoint-unavailable'', ''permission.path-invalid'', ''project.autoload-disabled'',
      ''project.duplicate'', ''project.missing'']"

definition ParseID :: "string \<Rightarrow> string + string" where
  "ParseID value = (let i = TrimSpace value in if i \<in> set registeredIDs then Inr i else Inl (TrimSpace value))"

record suppression =
  supSet :: bool
  supAll :: bool
  supIDs :: "(string \<times> bool) list"

definition no_suppression :: suppression where
  "no_suppression = \<lparr>supSet = False, supAll = False, supIDs = []\<rparr>"

text \<open>The loop of \<open>SuppressionFromList\<close>: the wildcard, the known ids and the unknown entries.\<close>

fun suppression_loop :: "string list \<Rightarrow> suppression \<times> string list \<Rightarrow> suppression \<times> string list" where
  "suppression_loop [] (result, unknown) = (result, unknown)"
| "suppression_loop (item # list) (result, unknown) =
     (if TrimSpace item = ''*'' then suppression_loop list (result\<lparr>supAll := True\<rparr>, unknown)
      else case ParseID item of
        Inl e \<Rightarrow> suppression_loop list (result, unknown @ [item])
      | Inr i \<Rightarrow> suppression_loop list (result\<lparr>supIDs := AList.update i True (supIDs result)\<rparr>, unknown))"

definition SuppressionFromList :: "string list \<Rightarrow> suppression \<times> string list" where
  "SuppressionFromList list = suppression_loop list (\<lparr>supSet = True, supAll = False, supIDs = []\<rparr>, [])"

definition Merge_suppression :: "suppression \<Rightarrow> suppression \<Rightarrow> suppression" where
  "Merge_suppression s src =
     (if \<not> supSet src then s
      else \<lparr>supSet = True, supAll = supAll s \<or> supAll src,
            supIDs = fold (\<lambda>(i, suppressed) ids. if suppressed then AList.update i True ids else ids) (supIDs src) (supIDs s)\<rparr>)"

definition Suppresses :: "suppression \<Rightarrow> string \<Rightarrow> bool" where
  "Suppresses s i \<longleftrightarrow> supAll s \<or> map_of (supIDs s) i = Some True"

definition shouldEmit :: "suppression option \<Rightarrow> string \<Rightarrow> bool" where
  "shouldEmit source i =
     (case ParseID i of
        Inl e \<Rightarrow> False
      | Inr _ \<Rightarrow> \<not> Suppresses (case source of None \<Rightarrow> no_suppression | Some s \<Rightarrow> s) i)"

text \<open>A warning: its id and the attributes its message is made of.\<close>

record warning_event =
  warnID :: string
  warnAttributes :: "string list"

definition warn :: "string \<Rightarrow> string list \<Rightarrow> warning_event" where
  "warn i attributes = \<lparr>warnID = i, warnAttributes = attributes\<rparr>"

text \<open>\<open>WarnUnknownSuppressWarnings\<close>: one warning for each unknown id.\<close>

definition WarnUnknown :: "string list \<Rightarrow> warning_event list" where
  "WarnUnknown ids = map (\<lambda>i. warn ''config.unknown-warning-id'' [i]) ids"

section \<open>Lemmas\<close>

lemma map_of_obj_put [simp]: "map_of (obj_put k v m) k' = (if k' = k then Some v else map_of m k')"
  by (induction k v m rule: obj_put.induct) auto

fun merge_value :: "json option \<Rightarrow> json \<Rightarrow> json" where
  "merge_value (Some (JObject d)) (JObject s) = JObject (Merge d s)"
| "merge_value _ v = v"

lemma Merge_Cons: "Merge dst ((key, value) # src) = Merge (obj_put key (merge_value (map_of dst key) value) dst) src"
  by (simp split: json.splits option.splits)

declare Merge.simps(2) [simp del] Merge_Cons [simp]

text \<open>What a merge holds under a key.\<close>

lemma Merge_lookup:
  "distinct (map fst src) \<Longrightarrow> map_of (Merge dst src) k =
     (case map_of src k of None \<Rightarrow> map_of dst k | Some v \<Rightarrow> Some (merge_value (map_of dst k) v))"
proof (induction src arbitrary: dst)
  case (Cons e src)
  obtain key v where e: "e = (key, v)" by (cases e)
  have "map_of src key = None" using Cons.prems e by (simp add: map_of_eq_None_iff)
  then show ?case using Cons e by (auto split: option.splits)
qed simp

lemma map_of_update: "map_of (AList.update k v al) k' = (if k' = k then Some v else map_of al k')"
  by (simp add: update_conv')

lemma merged_ids:
  "map_of (fold (\<lambda>(i, suppressed) ids. if suppressed then AList.update i True ids else ids) xs ids) k = Some True \<longleftrightarrow>
     map_of ids k = Some True \<or> (k, True) \<in> set xs"
proof (induction xs arbitrary: ids)
  case (Cons x xs)
  obtain i b where "x = (i, b)" by (cases x)
  then show ?case using Cons.IH [of "if b then AList.update i True ids else ids"] by (auto simp: map_of_update)
qed simp

lemma Suppresses_merge:
  "Suppresses (Merge_suppression s src) i \<longleftrightarrow> Suppresses s i \<or> supSet src \<and> (supAll src \<or> (i, True) \<in> set (supIDs src))"
  by (cases "supSet src") (auto simp: Suppresses_def Merge_suppression_def merged_ids)

lemma suppression_loop_spec:
  "suppression_loop list (r, us) = (r', us') \<Longrightarrow>
     supSet r' = supSet r \<and> us' = us @ filter (\<lambda>i. TrimSpace i \<noteq> ''*'' \<and> TrimSpace i \<notin> set registeredIDs) list \<and>
     (supAll r' \<longleftrightarrow> supAll r \<or> ''*'' \<in> TrimSpace ` set list) \<and>
     (\<forall>i. map_of (supIDs r') i = Some True \<longleftrightarrow>
        map_of (supIDs r) i = Some True \<or> i \<in> set registeredIDs \<and> i \<noteq> ''*'' \<and> i \<in> TrimSpace ` set list)"
proof (induction list arbitrary: r us)
  case (Cons item list)
  show ?case
  proof (cases "TrimSpace item = ''*''")
    case True
    then show ?thesis using Cons.IH [of "r\<lparr>supAll := True\<rparr>" us] Cons.prems by auto
  next
    case False
    show ?thesis
    proof (cases "TrimSpace item \<in> set registeredIDs")
      case True
      then show ?thesis
        using Cons.IH [of "r\<lparr>supIDs := AList.update (TrimSpace item) True (supIDs r)\<rparr>" us] Cons.prems False
        by (auto simp: ParseID_def map_of_update)
    next
      case unknown: False
      then show ?thesis using Cons.IH [of r "us @ [item]"] Cons.prems False by (auto simp: ParseID_def)
    qed
  qed
qed simp

end
