(* ===== verification/Config_App.thy ===== *)
theory Config_App
  imports Host_Config Permission
begin

text \<open>
  \<open>internal/config/app\<close>: the host configuration. \<open>Load\<close> merges the source files, unions the two
  list settings, sets the resources aside, and resolves the decoded schema; \<open>WithOverrides\<close>
  folds the settings of a launch in.

  Reading and decoding a file gives a generic map, and the strict decoder of the merged map into
  the schema is a parameter. A Go map is an association list in the order it is iterated.
\<close>

section \<open>Configuration\<close>

definition defaultSandboxImage :: string where
  "defaultSandboxImage = ''mcr.microsoft.com/devcontainers/javascript-node:24-bookworm''"

definition defaultProfile :: string where
  "defaultProfile = ''default''"

text \<open>\<open>imagesource.Kind\<close> and \<open>image.PullPolicy\<close> are strings with these constants.\<close>

abbreviation SourceRegistry :: string where "SourceRegistry \<equiv> ''registry''"
abbreviation SourceArchive :: string where "SourceArchive \<equiv> ''archive''"
abbreviation SourceBuild :: string where "SourceBuild \<equiv> ''build''"
abbreviation PullIfMissing :: string where "PullIfMissing \<equiv> ''if-missing''"
abbreviation PullAlways :: string where "PullAlways \<equiv> ''always''"
abbreviation PullNever :: string where "PullNever \<equiv> ''never''"

record build_config =
  buildContext :: string
  buildDockerfile :: string

abbreviation no_build :: build_config where
  "no_build \<equiv> \<lparr>buildContext = '''', buildDockerfile = ''''\<rparr>"

record sandbox_config =
  sbSource :: string
  sbImage :: string
  sbArchive :: string
  sbBuild :: build_config
  sbPull :: string

definition no_sandbox :: sandbox_config where
  "no_sandbox = \<lparr>sbSource = '''', sbImage = '''', sbArchive = '''', sbBuild = no_build, sbPull = ''''\<rparr>"

record settings_config =
  setProfile :: string
  setSuppress :: suppression
  setAutoload :: "bool option"
  setExternal :: "bool option"
  setDebug :: "bool option"
  setYolo :: "bool option"
  setUnknown :: "string list"

record app_config =
  appInstructions :: "string list"
  appPaths :: "(string \<times> string) list"
  appActions :: "(string \<times> rule) list"
  appSettings :: settings_config
  appSandbox :: sandbox_config
  appTools :: "(string \<times> string) list"

text \<open>The schema, a decode target: what a file leaves out is the zero value.\<close>

record sandbox_source =
  srcImage :: string
  srcArchive :: string
  srcBuild :: "build_config option"
  srcPull :: "string option"

record settings_schema =
  schProfile :: string
  schSuppress :: "string list option"
  schAutoload :: "bool option"
  schExternal :: "bool option"
  schDebug :: "bool option"
  schYolo :: "bool option"

record file_schema =
  fsInstructions :: "string list"
  fsSandbox :: sandbox_source
  fsPaths :: "(string \<times> string) list"
  fsActions :: "(string \<times> string) list"
  fsSettings :: settings_schema
  fsTools :: "(string \<times> string option) list"

definition empty_schema :: file_schema where
  "empty_schema =
     \<lparr>fsInstructions = [], fsSandbox = \<lparr>srcImage = '''', srcArchive = '''', srcBuild = None, srcPull = None\<rparr>,
      fsPaths = [], fsActions = [],
      fsSettings = \<lparr>schProfile = '''', schSuppress = None, schAutoload = None, schExternal = None, schDebug = None, schYolo = None\<rparr>,
      fsTools = []\<rparr>"

datatype config_error =
    StatFailed string
  | DecodeFileFailed string
  | ResourcesNotObject
  | SchemaInvalid
  | ActionRuleInvalid string permission_error
  | ToolKeyEmpty
  | SourcesExclusive
  | ArchiveInvalid
  | BuildContextInvalid
  | BuildDockerfileInvalid
  | PullUnsupported string
  | ImageEmpty
  | RegistryExtras
  | ArchiveEmpty
  | ArchiveExtras
  | BuildEmpty
  | BuildExtras
  | SourceUnsupported string
  | SubstitutionFailed string
  | GlobInvalid string
  | ReadFailed string
  | WorkingDirUnknown

section \<open>Sandbox sources\<close>

definition defaultSandboxConfig :: sandbox_config where
  "defaultSandboxConfig = no_sandbox\<lparr>sbSource := SourceRegistry, sbImage := defaultSandboxImage, sbPull := PullIfMissing\<rparr>"

definition SandboxConfig_Validate :: "sandbox_config \<Rightarrow> config_error verdict" where
  "SandboxConfig_Validate c =
     and_then (fail_if (sbPull c \<notin> {PullIfMissing, PullAlways, PullNever}) (PullUnsupported (sbPull c)))
       (if sbSource c = SourceRegistry then
          and_then (fail_if (TrimSpace (sbImage c) = '''') ImageEmpty)
            (fail_if (sbArchive c \<noteq> '''' \<or> sbBuild c \<noteq> no_build) RegistryExtras)
        else if sbSource c = SourceArchive then
          and_then (fail_if (sbArchive c = '''') ArchiveEmpty)
            (fail_if (sbImage c \<noteq> '''' \<or> sbBuild c \<noteq> no_build) ArchiveExtras)
        else if sbSource c = SourceBuild then
          and_then (fail_if (buildContext (sbBuild c) = '''' \<or> buildDockerfile (sbBuild c) = '''') BuildEmpty)
            (fail_if (sbImage c \<noteq> '''' \<or> sbArchive c \<noteq> '''') BuildExtras)
        else Some (SourceUnsupported (sbSource c)))"

definition resolveSandboxPath :: "string option \<Rightarrow> string \<Rightarrow> string \<Rightarrow> string \<Rightarrow> string option" where
  "resolveSandboxPath cwd val dir home =
     (let val = TrimSpace val in
      if val = '''' then None
      else
        (let val = ExpandHostHome val home;
             val = (if \<not> IsAbs val then Joins [dir, val] else val)
         in map_option Clean (Abs_path cwd val)))"

definition resolveSandboxBuild :: "string option \<Rightarrow> build_config \<Rightarrow> string \<Rightarrow> string \<Rightarrow> config_error + build_config" where
  "resolveSandboxBuild cwd schema dir home =
     (let contextValue = TrimSpace (buildContext schema);
          contextValue = (if contextValue = '''' then ''.'' else contextValue)
      in case resolveSandboxPath cwd contextValue dir home of
           None \<Rightarrow> Inl BuildContextInvalid
         | Some contextPath \<Rightarrow>
             (let dockerfileValue = TrimSpace (buildDockerfile schema);
                  dockerfileValue = (if dockerfileValue = '''' then ''Dockerfile'' else dockerfileValue);
                  dockerfileValue = ExpandHostHome dockerfileValue home;
                  dockerfileValue = (if \<not> IsAbs dockerfileValue then Joins [contextPath, dockerfileValue] else dockerfileValue)
              in case Abs_path cwd dockerfileValue of
                   None \<Rightarrow> Inl BuildDockerfileInvalid
                 | Some dockerfilePath \<Rightarrow> Inr \<lparr>buildContext = contextPath, buildDockerfile = Clean dockerfilePath\<rparr>))"

definition source_count :: "sandbox_source \<Rightarrow> nat" where
  "source_count source =
     (if TrimSpace (srcImage source) \<noteq> '''' then 1 else 0) + (if TrimSpace (srcArchive source) \<noteq> '''' then 1 else 0) +
     (if srcBuild source \<noteq> None then 1 else 0)"

definition ResolveSandboxSource ::
  "string option \<Rightarrow> sandbox_source \<Rightarrow> string \<Rightarrow> string \<Rightarrow> sandbox_config \<Rightarrow> config_error + sandbox_config"
where
  "ResolveSandboxSource cwd source dir home base =
     (let imageValue = TrimSpace (srcImage source); archiveValue = TrimSpace (srcArchive source) in
      if source_count source > 1 then Inl SourcesExclusive
      else attempt
        (if imageValue \<noteq> '''' then Inr (no_sandbox\<lparr>sbSource := SourceRegistry, sbImage := imageValue, sbPull := PullIfMissing\<rparr>)
         else if archiveValue \<noteq> '''' then
           (case resolveSandboxPath cwd archiveValue dir home of
              None \<Rightarrow> Inl ArchiveInvalid
            | Some path \<Rightarrow> Inr (no_sandbox\<lparr>sbSource := SourceArchive, sbArchive := path, sbPull := PullIfMissing\<rparr>))
         else case srcBuild source of
             Some schema \<Rightarrow>
               attempt (resolveSandboxBuild cwd schema dir home) (\<lambda>build.
                 Inr (no_sandbox\<lparr>sbSource := SourceBuild, sbBuild := build, sbPull := PullIfMissing\<rparr>))
           | None \<Rightarrow> Inr base)
        (\<lambda>result. Inr (case srcPull source of None \<Rightarrow> result | Some pull \<Rightarrow> result\<lparr>sbPull := pull\<rparr>)))"

section \<open>Resolution\<close>

definition settings_resolve :: "settings_schema \<Rightarrow> settings_config" where
  "settings_resolve s =
     (let (suppress, unknown) = (case schSuppress s of None \<Rightarrow> (no_suppression, []) | Some list \<Rightarrow> SuppressionFromList list)
      in \<lparr>setProfile = (if TrimSpace (schProfile s) = '''' then defaultProfile else TrimSpace (schProfile s)),
          setSuppress = suppress, setAutoload = schAutoload s, setExternal = schExternal s,
          setDebug = schDebug s, setYolo = schYolo s, setUnknown = unknown\<rparr>)"

fun resolve_paths ::
  "string \<Rightarrow> (string \<times> string) list \<Rightarrow> (string \<times> string) list \<times> warning_event list \<Rightarrow> (string \<times> string) list \<times> warning_event list"
where
  "resolve_paths home [] (paths, pending) = (paths, pending)"
| "resolve_paths home ((pattern, mode) # rest) (paths, pending) =
     (let mode = TrimSpace mode in
      if mode \<noteq> ''allow'' \<and> mode \<noteq> ''deny''
      then resolve_paths home rest (paths, pending @ [warn ''permission.path-invalid'' [pattern, mode]])
      else resolve_paths home rest (AList.update (ExpandHostHome pattern home) mode paths, pending))"

fun resolve_actions :: "(string \<times> string) list \<Rightarrow> (string \<times> rule) list \<Rightarrow> config_error + (string \<times> rule) list" where
  "resolve_actions [] actions = Inr actions"
| "resolve_actions ((action, val) # rest) actions =
     (case ParseRule val of
        Inl e \<Rightarrow> Inl (ActionRuleInvalid action e)
      | Inr r \<Rightarrow> resolve_actions rest (AList.update action r actions))"

fun resolve_tools :: "(string \<times> string option) list \<Rightarrow> (string \<times> string) list \<Rightarrow> config_error + (string \<times> string) list" where
  "resolve_tools [] tools = Inr tools"
| "resolve_tools ((name, raw) # rest) tools =
     (let name = TrimSpace name in
      if name = '''' then Inl ToolKeyEmpty
      else case raw of
        None \<Rightarrow> resolve_tools rest tools
      | Some profile \<Rightarrow>
          (let profile = TrimSpace profile in
           resolve_tools rest (if profile \<noteq> '''' then AList.update name profile tools else tools)))"

definition resolve :: "string option \<Rightarrow> file_schema \<Rightarrow> string \<Rightarrow> string \<Rightarrow> config_error + (app_config \<times> warning_event list)" where
  "resolve cwd schema dir home =
     (let (paths, pending) = resolve_paths home (fsPaths schema) ([], []) in
      attempt (resolve_actions (fsActions schema) []) (\<lambda>actions.
        let settings = settings_resolve (fsSettings schema);
            pending = pending @ WarnUnknown (setUnknown settings)
        in attempt (resolve_tools (fsTools schema) []) (\<lambda>tools.
           attempt (ResolveSandboxSource cwd (fsSandbox schema) dir home defaultSandboxConfig) (\<lambda>sandbox.
             Inr (\<lparr>appInstructions = fsInstructions schema, appPaths = paths, appActions = actions,
                   appSettings = settings, appSandbox = sandbox, appTools = tools\<rparr>, pending)))))"

section \<open>Loading\<close>

text \<open>What \<open>os.Stat\<close> and \<open>DecodeFile\<close> find at a path.\<close>

datatype source_file = SourceMissing | SourceUnreadable | SourceUndecodable | SourceMap entries

definition sourceFiles :: "string list" where
  "sourceFiles = [''config.json'', ''config.yaml'', ''config.yml'']"

definition list_at :: "string \<Rightarrow> entries \<Rightarrow> json list" where
  "list_at key m = (case map_of m key of Some (JArray xs) \<Rightarrow> xs | _ \<Rightarrow> [])"

definition object_at :: "string \<Rightarrow> entries \<Rightarrow> entries" where
  "object_at key m = (case map_of m key of Some (JObject o') \<Rightarrow> o' | _ \<Rightarrow> [])"

fun load_sources :: "(string \<Rightarrow> source_file) \<Rightarrow> string list \<Rightarrow> entries \<times> json list \<times> json list \<Rightarrow> config_error + entries \<times> json list \<times> json list" where
  "load_sources source_at [] st = Inr st"
| "load_sources source_at (path # paths) (merged, instructions, suppressWarnings) =
     (case source_at path of
        SourceMissing \<Rightarrow> load_sources source_at paths (merged, instructions, suppressWarnings)
      | SourceUnreadable \<Rightarrow> Inl (StatFailed path)
      | SourceUndecodable \<Rightarrow> Inl (DecodeFileFailed path)
      | SourceMap fileMap \<Rightarrow>
          load_sources source_at paths
            (Merge merged fileMap, instructions @ list_at ''instructions'' fileMap,
             suppressWarnings @ list_at ''suppressWarnings'' (object_at ''settings'' fileMap)))"

fun dedupe_loop :: "string set \<Rightarrow> json list \<Rightarrow> json list" where
  "dedupe_loop seen [] = []"
| "dedupe_loop seen (JString s # items) =
     (if s \<in> seen then dedupe_loop seen items else JString s # dedupe_loop (insert s seen) items)"
| "dedupe_loop seen (item # items) = item # dedupe_loop seen items"

definition dedupeList :: "json list \<Rightarrow> json list" where
  "dedupeList items = dedupe_loop {} items"

definition union_lists :: "entries \<times> json list \<times> json list \<Rightarrow> entries" where
  "union_lists st =
     (let (merged, instructions, suppressWarnings) = st;
          merged = (if instructions \<noteq> [] then obj_put ''instructions'' (JArray (dedupeList instructions)) merged else merged)
      in if suppressWarnings \<noteq> []
         then obj_put ''settings'' (JObject (obj_put ''suppressWarnings'' (JArray (dedupeList suppressWarnings)) (object_at ''settings'' merged))) merged
         else merged)"

text \<open>The loaded service.\<close>

record app_service =
  svcDir :: string
  svcHome :: string
  svcConfig :: app_config
  svcResources :: entries
  svcPending :: "warning_event list"

definition DecodeInto :: "(entries \<Rightarrow> file_schema option) \<Rightarrow> entries \<Rightarrow> config_error + file_schema" where
  "DecodeInto decode src =
     (if src = [] then Inr empty_schema else case decode src of None \<Rightarrow> Inl SchemaInvalid | Some schema \<Rightarrow> Inr schema)"

definition Load ::
  "(entries \<Rightarrow> file_schema option) \<Rightarrow> string option \<Rightarrow> (string \<Rightarrow> source_file) \<Rightarrow> string \<Rightarrow> string \<Rightarrow> config_error + app_service"
where
  "Load decode cwd source_at dir home =
     attempt (load_sources source_at (map (\<lambda>name. Joins [dir, name]) sourceFiles) ([], [], [])) (\<lambda>st.
       let merged = union_lists st in
       attempt
         (case map_of merged ''resources'' of
            None \<Rightarrow> Inr ([], merged)
          | Some (JObject raw) \<Rightarrow> Inr (raw, obj_delete ''resources'' merged)
          | Some _ \<Rightarrow> Inl ResourcesNotObject)
         (\<lambda>(rawResources, merged).
            attempt (DecodeInto decode merged) (\<lambda>schema.
            attempt (resolve cwd schema dir home) (\<lambda>(cfg, pending).
              require (SandboxConfig_Validate (appSandbox cfg))
                (Inr \<lparr>svcDir = dir, svcHome = home, svcConfig = cfg, svcResources = rawResources, svcPending = pending\<rparr>)))))"

definition emptyConfig :: app_config where
  "emptyConfig =
     \<lparr>appInstructions = [], appPaths = [], appActions = [],
      appSettings = \<lparr>setProfile = defaultProfile, setSuppress = no_suppression, setAutoload = None, setExternal = None,
                     setDebug = None, setYolo = None, setUnknown = []\<rparr>,
      appSandbox = defaultSandboxConfig, appTools = []\<rparr>"

definition NewDefaults :: "host_paths \<Rightarrow> app_service" where
  "NewDefaults p = \<lparr>svcDir = TobyConfigDir p, svcHome = pathsHome p, svcConfig = emptyConfig, svcResources = [], svcPending = []\<rparr>"

section \<open>What a launch reads\<close>

definition enabled :: "bool option \<Rightarrow> bool" where
  "enabled flag \<longleftrightarrow> flag = Some True"

definition defaultPermissionPaths :: "bool \<Rightarrow> (string \<times> string) list" where
  "defaultPermissionPaths yolo = (''/tmp'', ''allow'') # (if yolo then [(''/'', ''allow'')] else [])"

definition PermissionPaths :: "app_service \<Rightarrow> (string \<times> string) list" where
  "PermissionPaths s =
     fold (\<lambda>(pattern, mode) result. AList.update pattern mode result) (appPaths (svcConfig s))
       (defaultPermissionPaths (enabled (setYolo (appSettings (svcConfig s)))))"

definition Profile :: "app_service \<Rightarrow> string" where
  "Profile s =
     (let profile = TrimSpace (setProfile (appSettings (svcConfig s))) in if profile = '''' then defaultProfile else profile)"

definition ToolProfiles :: "app_service \<Rightarrow> (string \<times> string) list" where
  "ToolProfiles s = filter (\<lambda>(name, profile). profile \<noteq> '''') (map (\<lambda>(name, profile). (name, TrimSpace profile)) (appTools (svcConfig s)))"

definition configured_rule :: "app_service \<Rightarrow> string \<Rightarrow> rule" where
  "configured_rule s action = PermissionRule (appActions (svcConfig s)) action"

record launch_overrides =
  ovProfile :: string
  ovToolProfiles :: "(string \<times> string) list"
  ovSandbox :: "sandbox_config option"
  ovImage :: string
  ovPull :: string
  ovDebug :: "bool option"
  ovYolo :: "bool option"
  ovSuppress :: suppression

definition override_sandbox :: "sandbox_config \<Rightarrow> launch_overrides \<Rightarrow> sandbox_config" where
  "override_sandbox base ov =
     (let sandbox = (case ovSandbox ov of None \<Rightarrow> base | Some c \<Rightarrow> c);
          sandbox = (if ovImage ov \<noteq> '''' then
              no_sandbox\<lparr>sbSource := SourceRegistry, sbImage := ovImage ov,
                         sbPull := (if sbSource sandbox = SourceRegistry then sbPull sandbox else PullIfMissing)\<rparr>
            else sandbox)
      in if ovPull ov \<noteq> '''' then sandbox\<lparr>sbPull := ovPull ov\<rparr> else sandbox)"

definition override_settings :: "settings_config \<Rightarrow> launch_overrides \<Rightarrow> settings_config" where
  "override_settings base ov =
     base\<lparr>setSuppress := Merge_suppression (setSuppress base) (ovSuppress ov),
          setProfile := (if TrimSpace (ovProfile ov) \<noteq> '''' then TrimSpace (ovProfile ov) else setProfile base),
          setDebug := (case ovDebug ov of None \<Rightarrow> setDebug base | Some d \<Rightarrow> Some d),
          setYolo := (case ovYolo ov of None \<Rightarrow> setYolo base | Some y \<Rightarrow> Some y)\<rparr>"

definition override_tools :: "(string \<times> string) list \<Rightarrow> (string \<times> string) list \<Rightarrow> (string \<times> string) list" where
  "override_tools base profiles =
     fold (\<lambda>(name, profile) tools. if TrimSpace profile \<noteq> '''' then AList.update name (TrimSpace profile) tools else tools) profiles base"

definition WithOverrides :: "app_service \<Rightarrow> launch_overrides \<Rightarrow> app_service" where
  "WithOverrides s ov =
     s\<lparr>svcConfig := (svcConfig s)\<lparr>appSettings := override_settings (appSettings (svcConfig s)) ov,
                                  appTools := override_tools (appTools (svcConfig s)) (ovToolProfiles ov),
                                  appSandbox := override_sandbox (appSandbox (svcConfig s)) ov\<rparr>\<rparr>"

end
