(* ===== verification/Config_Launch.thy ===== *)
theory Config_Launch
  imports Config_App Tools
begin

text \<open>
  \<open>internal/config/launch/launch_config.go\<close>: the launch a configuration file describes. The schema
  is resolved into a launch configuration, which is completed into the launch itself
  (\<open>BuildConfiguredLaunch\<close>) or overlaid on what the command line asked for
  (\<open>BuildOverlayConfiguredLaunch\<close>); \<open>ResolveDirectLaunchProject\<close> finds the project of a launch
  without a file.

  Loading the schema is an argument here. A host is asked for the working directory, symbolic
  links and directories.
\<close>

section \<open>Launches\<close>

record project_mount =
  pmName :: string
  pmSource :: string
  pmRequireRoot :: bool

record launch_options =
  optEnv :: string
  optProject :: string
  optProjects :: "project_mount list"
  optWorkdir :: string
  optInstall :: bool
  optUpgrade :: bool
  optQuiet :: bool

record direct_launch =
  dlOptions :: launch_options
  dlOverrides :: launch_overrides
  dlExtra :: "string list"
  dlTools :: "string list"

record configured_launch = direct_launch +
  clPrimary :: string

record launch_sandbox =
  lsbConfig :: sandbox_config
  lsbSet :: bool

record launch_settings =
  lstProfile :: string
  lstUpgrade :: bool
  lstSuppress :: suppression
  lstUnknown :: "string list"
  lstDebug :: "bool option"
  lstYolo :: "bool option"

record launch_tool =
  ltName :: string
  ltLabel :: string
  ltProfile :: string
  ltParams :: "string list"
  ltPrimary :: bool

record launch_project =
  ljMount :: project_mount
  ljLabel :: string
  ljPrimary :: bool

record launch_config =
  lcName :: string
  lcSandbox :: launch_sandbox
  lcSettings :: launch_settings
  lcProjects :: "launch_project list"
  lcWorkdir :: string
  lcTools :: "launch_tool list"

text \<open>The decode target of a launch configuration file.\<close>

record project_schema =
  psPath :: "string option"
  psPrimary :: bool

record tool_schema =
  tsProfile :: string
  tsParams :: "string list"
  tsPrimary :: bool

record launch_settings_schema =
  lssProfile :: string
  lssUpgrade :: bool
  lssSuppress :: "string list option"
  lssDebug :: "bool option"
  lssYolo :: "bool option"

record launch_schema =
  lsName :: string
  lsSandbox :: sandbox_source
  lsSettings :: launch_settings_schema
  lsProjects :: "(string \<times> project_schema option) list"
  lsWorkdir :: string
  lsTools :: "(string \<times> tool_schema option) list"

datatype launch_error =
    LaunchConfigInvalid config_error
  | ProjectKeyEmpty string
  | ProjectPathEmpty string
  | ToolNameEmpty string
  | ProjectsEmpty
  | ToolsEmpty
  | ProjectPrimaryTwice
  | ProjectPrimaryMissing
  | ToolPrimaryTwice
  | ToolPrimaryMissing
  | UnknownConfiguredTool string
  | ParamsNotPrimary string
  | EnvironmentRequired
  | ProjectAbsFailed
  | ProjectMissing string
  | ProjectUnresolved string
  | ProjectNotDirectory string
  | ProjectRootUnresolved string
  | ProjectOutsideRoot string
  | ProjectNameUnderivable string
  | LaunchLoadFailed string

section \<open>Paths\<close>

definition launchConfigHome :: "string option \<Rightarrow> string \<Rightarrow> string" where
  "launchConfigHome home_dir home =
     (if home \<noteq> '''' then home else case home_dir of None \<Rightarrow> '''' | Some userHome \<Rightarrow> userHome)"

definition launchConfigPaths :: "string option \<Rightarrow> host_paths \<Rightarrow> host_paths" where
  "launchConfigPaths home_dir paths =
     (let paths = paths\<lparr>pathsHome := launchConfigHome home_dir (pathsHome paths),
                       pathsProjectRoot := TrimSpace (pathsProjectRoot paths)\<rparr>
      in if pathsProjectRoot paths \<noteq> ''''
         then paths\<lparr>pathsProjectRoot := ExpandHostHome (pathsProjectRoot paths) (pathsHome paths)\<rparr>
         else if pathsHome paths = '''' then paths\<lparr>pathsProjectRoot := ''Projects''\<rparr>
         else paths\<lparr>pathsProjectRoot := Joins [pathsHome paths, ''Projects'']\<rparr>)"

definition joinConfigRelativePath :: "string \<Rightarrow> string \<Rightarrow> string" where
  "joinConfigRelativePath dir path = (if suffix ''/'' dir then dir @ path else dir @ ''/'' @ path)"

definition resolveLaunchProjectPath :: "string \<Rightarrow> string \<Rightarrow> string \<Rightarrow> string option" where
  "resolveLaunchProjectPath path dir home =
     (let path = TrimSpace path in
      if path = '''' then None
      else
        (let path = ExpandHostHome path home in
         if IsAbs path then Some path
         else if path = ''.'' then Some dir
         else Some (joinConfigRelativePath dir path)))"

section \<open>Resolving the schema\<close>

definition launch_settings_resolve :: "launch_settings_schema \<Rightarrow> launch_settings" where
  "launch_settings_resolve s =
     (let (suppress, unknown) = (case lssSuppress s of None \<Rightarrow> (no_suppression, []) | Some list \<Rightarrow> SuppressionFromList list)
      in \<lparr>lstProfile = TrimSpace (lssProfile s), lstUpgrade = lssUpgrade s, lstSuppress = suppress, lstUnknown = unknown,
          lstDebug = lssDebug s, lstYolo = lssYolo s\<rparr>)"

definition launch_sandbox_resolve :: "string option \<Rightarrow> sandbox_source \<Rightarrow> string \<Rightarrow> string \<Rightarrow> launch_error + launch_sandbox" where
  "launch_sandbox_resolve cwd s dir home =
     (case ResolveSandboxSource cwd s dir home no_sandbox of
        Inl e \<Rightarrow> Inl (LaunchConfigInvalid e)
      | Inr resolved \<Rightarrow>
          Inr \<lparr>lsbConfig = (case srcPull s of None \<Rightarrow> resolved | Some pull \<Rightarrow> resolved\<lparr>sbPull := pull\<rparr>), lsbSet = source_count s > 0\<rparr>)"

definition resolveLaunchProject ::
  "string option \<Rightarrow> project_schema option \<Rightarrow> string \<Rightarrow> string \<Rightarrow> string \<Rightarrow> host_paths \<Rightarrow> launch_error + launch_project"
where
  "resolveLaunchProject home_dir p label name dir paths =
     (let paths = launchConfigPaths home_dir paths;
          path = (case p of None \<Rightarrow> None | Some schema \<Rightarrow> psPath schema);
          primary = (case p of None \<Rightarrow> False | Some schema \<Rightarrow> psPrimary schema);
          name = TrimSpace name
      in if name = '''' then Inl (ProjectKeyEmpty label)
         else
           (case path of
              None \<Rightarrow>
                Inr \<lparr>ljMount = \<lparr>pmName = name, pmSource = joinConfigRelativePath (pathsProjectRoot paths) name, pmRequireRoot = True\<rparr>,
                     ljLabel = label, ljPrimary = primary\<rparr>
            | Some path \<Rightarrow>
                (case resolveLaunchProjectPath path dir (pathsHome paths) of
                   None \<Rightarrow> Inl (ProjectPathEmpty label)
                 | Some source \<Rightarrow>
                     Inr \<lparr>ljMount = \<lparr>pmName = name, pmSource = source, pmRequireRoot = False\<rparr>, ljLabel = label, ljPrimary = primary\<rparr>)))"

fun resolve_all :: "('a \<Rightarrow> 'e + 'b) \<Rightarrow> 'a list \<Rightarrow> 'e + 'b list" where
  "resolve_all f [] = Inr []"
| "resolve_all f (x # xs) = attempt (f x) (\<lambda>y. attempt (resolve_all f xs) (\<lambda>ys. Inr (y # ys)))"

definition resolveLaunchProjects ::
  "string option \<Rightarrow> (string \<times> project_schema option) list \<Rightarrow> string \<Rightarrow> host_paths \<Rightarrow> launch_error + launch_project list"
where
  "resolveLaunchProjects home_dir raw dir paths =
     resolve_all (\<lambda>(name, p). resolveLaunchProject home_dir p (''projects.'' @ name) name dir (launchConfigPaths home_dir paths))
       (sort_key fst raw)"

definition resolveLaunchTool :: "tool_schema option \<Rightarrow> string \<Rightarrow> string \<Rightarrow> launch_error + launch_tool" where
  "resolveLaunchTool t label name =
     (let name = TrimSpace name in
      if name = '''' then Inl (ToolNameEmpty label)
      else case t of
        None \<Rightarrow> Inr \<lparr>ltName = name, ltLabel = label, ltProfile = '''', ltParams = [], ltPrimary = False\<rparr>
      | Some s \<Rightarrow> Inr \<lparr>ltName = name, ltLabel = label, ltProfile = TrimSpace (tsProfile s), ltParams = tsParams s, ltPrimary = tsPrimary s\<rparr>)"

definition resolveLaunchTools :: "(string \<times> tool_schema option) list \<Rightarrow> launch_error + launch_tool list" where
  "resolveLaunchTools raw = resolve_all (\<lambda>(name, t). resolveLaunchTool t (''tools.'' @ name) name) (sort_key fst raw)"

definition parseLaunchConfig :: "string option \<Rightarrow> string option \<Rightarrow> launch_schema \<Rightarrow> string \<Rightarrow> host_paths \<Rightarrow> launch_error + launch_config" where
  "parseLaunchConfig cwd home_dir schema dir paths =
     (let paths = launchConfigPaths home_dir paths in
      attempt (launch_sandbox_resolve cwd (lsSandbox schema) dir (pathsHome paths)) (\<lambda>sandbox.
      attempt (resolveLaunchProjects home_dir (lsProjects schema) dir paths) (\<lambda>projects.
      attempt (resolveLaunchTools (lsTools schema)) (\<lambda>toolConfigs.
        Inr \<lparr>lcName = TrimSpace (lsName schema), lcSandbox = sandbox, lcSettings = launch_settings_resolve (lsSettings schema),
             lcProjects = projects, lcWorkdir = lsWorkdir schema, lcTools = toolConfigs\<rparr>))))"

section \<open>Projects and tools of a launch\<close>

definition orderedProjectMounts :: "launch_project list \<Rightarrow> launch_project \<Rightarrow> project_mount list" where
  "orderedProjectMounts projects primary =
     ljMount primary # map ljMount (filter (\<lambda>project. ljLabel project \<noteq> ljLabel primary) projects)"

definition primaryConfiguredProject :: "launch_project list \<Rightarrow> launch_error + launch_project" where
  "primaryConfiguredProject projects =
     (if projects = [] then Inl ProjectsEmpty
      else if length projects = 1 then Inr (hd projects)
      else case filter ljPrimary projects of
        [] \<Rightarrow> Inl ProjectPrimaryMissing
      | [primary] \<Rightarrow> Inr primary
      | _ \<Rightarrow> Inl ProjectPrimaryTwice)"

definition resolveConfiguredTool :: "tool_registry \<Rightarrow> string \<Rightarrow> launch_error + string" where
  "resolveConfiguredTool registry name =
     (case Get_tool registry name of
        Some _ \<Rightarrow> Inr name
      | None \<Rightarrow>
          (case filter (\<lambda>item. CommandName item = name) (List.map_filter (Get_tool registry) (ToolNames registry)) of
             [] \<Rightarrow> Inl (UnknownConfiguredTool name)
           | item # _ \<Rightarrow> Inr (toolName item)))"

definition resolveConfiguredTools :: "tool_registry \<Rightarrow> launch_tool list \<Rightarrow> launch_error + string list" where
  "resolveConfiguredTools registry configured = resolve_all (\<lambda>item. resolveConfiguredTool registry (ltName item)) configured"

fun tool_profiles_loop :: "tool_registry \<Rightarrow> launch_tool list \<Rightarrow> (string \<times> string) list \<Rightarrow> launch_error + (string \<times> string) list" where
  "tool_profiles_loop registry [] profiles = Inr profiles"
| "tool_profiles_loop registry (item # rest) profiles =
     (if ltProfile item = '''' then tool_profiles_loop registry rest profiles
      else attempt (resolveConfiguredTool registry (ltName item)) (\<lambda>name.
        tool_profiles_loop registry rest (AList.update name (ltProfile item) profiles)))"

definition resolveConfiguredToolProfiles :: "tool_registry \<Rightarrow> launch_tool list \<Rightarrow> launch_error + (string \<times> string) list" where
  "resolveConfiguredToolProfiles registry configured = tool_profiles_loop registry configured []"

fun params_loop :: "tool_registry \<Rightarrow> string \<Rightarrow> launch_tool list \<Rightarrow> string list \<Rightarrow> launch_error + string list" where
  "params_loop registry primary [] params = Inr params"
| "params_loop registry primary (item # rest) params =
     attempt (resolveConfiguredTool registry (ltName item)) (\<lambda>name.
       if name = primary then params_loop registry primary rest (ltParams item)
       else if ltParams item \<noteq> [] then Inl (ParamsNotPrimary (ltLabel item))
       else params_loop registry primary rest params)"

definition configuredParamsForPrimary :: "tool_registry \<Rightarrow> launch_tool list \<Rightarrow> string \<Rightarrow> launch_error + string list" where
  "configuredParamsForPrimary registry configured primary =
     (if TrimSpace primary = '''' then Inr [] else params_loop registry primary configured [])"

text \<open>With no primary tool from the command line, as the file alone is used.\<close>

definition resolvePrimaryConfiguredTool :: "tool_registry \<Rightarrow> launch_tool list \<Rightarrow> launch_error + string \<times> launch_tool" where
  "resolvePrimaryConfiguredTool registry configured =
     (if configured = [] then Inl ToolsEmpty
      else attempt
        (if length configured = 1 then Inr (hd configured)
         else case filter ltPrimary configured of
             [] \<Rightarrow> Inl ToolPrimaryMissing
           | [primary] \<Rightarrow> Inr primary
           | _ \<Rightarrow> Inl ToolPrimaryTwice)
        (\<lambda>primary.
           attempt (resolveConfiguredTool registry (ltName primary)) (\<lambda>primaryName.
             require (each (\<lambda>item. fail_if (\<not> (ltParams item = [] \<or> ltLabel item = ltLabel primary)) (ParamsNotPrimary (ltLabel item))) configured)
               (Inr (primaryName, primary)))))"

section \<open>Building a launch\<close>

definition commandOptions :: "launch_config \<Rightarrow> launch_options" where
  "commandOptions cfg =
     \<lparr>optEnv = lcName cfg, optProject = '''', optProjects = map ljMount (lcProjects cfg), optWorkdir = lcWorkdir cfg,
      optInstall = False, optUpgrade = lstUpgrade (lcSettings cfg), optQuiet = False\<rparr>"

definition overridesFromLaunchConfig :: "launch_config \<Rightarrow> launch_overrides" where
  "overridesFromLaunchConfig cfg =
     \<lparr>ovProfile = lstProfile (lcSettings cfg), ovToolProfiles = [],
      ovSandbox = (if lsbSet (lcSandbox cfg) then Some (lsbConfig (lcSandbox cfg)) else None),
      ovImage = '''', ovPull = sbPull (lsbConfig (lcSandbox cfg)), ovDebug = lstDebug (lcSettings cfg), ovYolo = lstYolo (lcSettings cfg),
      ovSuppress = lstSuppress (lcSettings cfg)\<rparr>"

definition mergeLaunchOverrides :: "launch_overrides \<Rightarrow> launch_overrides \<Rightarrow> launch_overrides" where
  "mergeLaunchOverrides dst src =
     (let dst = (if ovProfile src \<noteq> '''' then dst\<lparr>ovProfile := ovProfile src\<rparr> else dst);
          dst = dst\<lparr>ovToolProfiles := fold (\<lambda>(name, profile) al. AList.update name profile al) (ovToolProfiles src) (ovToolProfiles dst)\<rparr>;
          dst = (if ovImage src \<noteq> '''' then dst\<lparr>ovSandbox := None, ovImage := ovImage src\<rparr> else dst);
          dst = (case ovSandbox src of None \<Rightarrow> dst | Some sandbox \<Rightarrow> dst\<lparr>ovSandbox := Some sandbox, ovImage := ''''\<rparr>);
          dst = (if ovPull src \<noteq> '''' then dst\<lparr>ovPull := ovPull src\<rparr> else dst);
          dst = (case ovDebug src of None \<Rightarrow> dst | Some debug \<Rightarrow> dst\<lparr>ovDebug := Some debug\<rparr>)
      in case ovYolo src of None \<Rightarrow> dst | Some yolo \<Rightarrow> dst\<lparr>ovYolo := Some yolo\<rparr>)"

text \<open>A result with the warnings emitted before it.\<close>

type_synonym launch_result = "warning_event list \<times> (launch_error + configured_launch)"

definition BuildConfiguredLaunch :: "tool_registry \<Rightarrow> (launch_error + launch_config) \<Rightarrow> string list \<Rightarrow> launch_result" where
  "BuildConfiguredLaunch registry loaded extra =
     (case loaded of
        Inl e \<Rightarrow> ([], Inl e)
      | Inr cfg \<Rightarrow>
          (WarnUnknown (lstUnknown (lcSettings cfg)),
           if lcProjects cfg = [] then Inl ProjectsEmpty
           else if lcTools cfg = [] then Inl ToolsEmpty
           else
             attempt (resolveConfiguredTools registry (lcTools cfg)) (\<lambda>configuredTools.
             attempt (resolveConfiguredToolProfiles registry (lcTools cfg)) (\<lambda>toolProfiles.
             attempt (resolvePrimaryConfiguredTool registry (lcTools cfg)) (\<lambda>(primaryTool, primaryToolConfig).
             attempt (primaryConfiguredProject (lcProjects cfg)) (\<lambda>primaryProject.
               Inr \<lparr>dlOptions = (commandOptions cfg)\<lparr>optProjects := orderedProjectMounts (lcProjects cfg) primaryProject\<rparr>,
                    dlOverrides = (overridesFromLaunchConfig cfg)\<lparr>ovToolProfiles := toolProfiles\<rparr>,
                    dlExtra = ltParams primaryToolConfig @ extra, dlTools = configuredTools, clPrimary = primaryTool\<rparr>))))))"

definition appendIfMissing :: "string list \<Rightarrow> string \<Rightarrow> string list" where
  "appendIfMissing vals v = (if v \<in> set vals then vals else vals @ [v])"

definition overlay_options :: "launch_options \<Rightarrow> launch_options \<Rightarrow> project_mount \<Rightarrow> launch_options" where
  "overlay_options options parsed primaryProject =
     options\<lparr>optEnv := (if optEnv options = '''' then optEnv parsed else optEnv options), optInstall := optInstall parsed,
             optUpgrade := optUpgrade options \<or> optUpgrade parsed, optQuiet := optQuiet parsed,
             optProjects := primaryProject # optProjects options\<rparr>"

definition BuildOverlayConfiguredLaunch ::
  "tool_registry \<Rightarrow> (launch_error + launch_config) \<Rightarrow> direct_launch \<Rightarrow> string \<Rightarrow> project_mount \<Rightarrow> launch_result"
where
  "BuildOverlayConfiguredLaunch registry loaded parsed primary primaryProject =
     (case loaded of
        Inl e \<Rightarrow> ([], Inl e)
      | Inr cfg \<Rightarrow>
          (WarnUnknown (lstUnknown (lcSettings cfg)),
           attempt (resolveConfiguredTools registry (lcTools cfg)) (\<lambda>configuredTools.
           attempt (resolveConfiguredToolProfiles registry (lcTools cfg)) (\<lambda>toolProfiles.
           attempt (configuredParamsForPrimary registry (lcTools cfg) primary) (\<lambda>primaryParams.
             let overrides = (overridesFromLaunchConfig cfg)\<lparr>ovToolProfiles := toolProfiles\<rparr>;
                 requested = foldl appendIfMissing (foldl appendIfMissing (appendIfMissing [] primary) (dlTools parsed)) configuredTools
             in Inr \<lparr>dlOptions = overlay_options (commandOptions cfg) (dlOptions parsed) primaryProject,
                     dlOverrides = mergeLaunchOverrides overrides (dlOverrides parsed),
                     dlExtra = primaryParams @ dlExtra parsed, dlTools = requested, clPrimary = primary\<rparr>)))))"

section \<open>Projects on the command line\<close>

datatype link_result = LinkResolved string | LinkMissing | LinkFailed

record link_host =
  hostCwd :: "string option"
  hostLinks :: "string \<Rightarrow> link_result"
  hostIsDir :: "string \<Rightarrow> bool"

definition relativeToProjectRoot :: "string option \<Rightarrow> string \<Rightarrow> string \<Rightarrow> string option" where
  "relativeToProjectRoot cwd base path =
     Option.bind (Abs_path cwd base) (\<lambda>absBase.
     Option.bind (Abs_path cwd path) (\<lambda>absPath.
     Option.bind (Rel absBase absPath) (\<lambda>rel.
       if rel = ''..'' \<or> prefix ''../'' rel then None else Some rel)))"

definition ResolveDirectLaunchProject :: "link_host \<Rightarrow> host_paths \<Rightarrow> launch_options \<Rightarrow> bool \<Rightarrow> launch_error + project_mount" where
  "ResolveDirectLaunchProject h paths opts allowExternal =
     (if TrimSpace (optEnv opts) = '''' then Inl EnvironmentRequired
      else
        (let raw =
           (if TrimSpace (optProject opts) = '''' then Joins [pathsProjectRoot paths, optEnv opts]
            else
              (let raw = ExpandHostHome (optProject opts) (pathsHome paths) in
               if \<not> IsAbs raw then Joins [pathsProjectRoot paths, raw] else raw))
         in case Abs_path (hostCwd h) raw of
              None \<Rightarrow> Inl ProjectAbsFailed
            | Some absolute \<Rightarrow>
                (case hostLinks h absolute of
                   LinkMissing \<Rightarrow> Inl (ProjectMissing raw)
                 | LinkFailed \<Rightarrow> Inl (ProjectUnresolved raw)
                 | LinkResolved resolved \<Rightarrow>
                     if \<not> hostIsDir h resolved then Inl (ProjectNotDirectory raw)
                     else require
                       (if allowExternal then None
                        else case hostLinks h (pathsProjectRoot paths) of
                          LinkResolved projectRoot \<Rightarrow>
                            (case relativeToProjectRoot (hostCwd h) projectRoot resolved of
                               None \<Rightarrow> Some (ProjectOutsideRoot (pathsProjectRoot paths))
                             | Some _ \<Rightarrow> None)
                        | _ \<Rightarrow> Some (ProjectRootUnresolved (pathsProjectRoot paths)))
                       (let name = Base resolved in
                        if name = '''' \<or> name = ''.'' \<or> name = ''..'' \<or> name = ''/'' then Inl (ProjectNameUnderivable resolved)
                        else Inr \<lparr>pmName = name, pmSource = resolved, pmRequireRoot = \<not> allowExternal\<rparr>))))"

text \<open>
  \<open>MaybeAutoloadProjectConfig\<close>: \<open>marker\<close> is \<open>projectConfigMarker\<close> and \<open>load\<close> is
  \<open>loadLaunchConfig\<close>; the result is nothing when no launch was loaded.
\<close>

definition MaybeAutoloadProjectConfig ::
  "tool_registry \<Rightarrow> link_host \<Rightarrow> host_paths \<Rightarrow> settings_config \<Rightarrow> (string \<Rightarrow> launch_error + bool) \<Rightarrow>
    (string \<Rightarrow> launch_error + launch_config) \<Rightarrow> direct_launch \<Rightarrow> string \<Rightarrow>
    warning_event list \<times> (launch_error + configured_launch option)"
where
  "MaybeAutoloadProjectConfig registry h paths settings marker load parsed primary =
     (if TrimSpace (optEnv (dlOptions parsed)) = '''' then ([], Inr None)
      else case ResolveDirectLaunchProject h paths (dlOptions parsed) (enabled (setExternal settings)) of
        Inl e \<Rightarrow> ([], Inl e)
      | Inr project \<Rightarrow>
          (let configPath = Joins [pmSource project, ''.toby/config.yaml''] in
           case marker (pmSource project) of
             Inl e \<Rightarrow> ([], Inl e)
           | Inr found \<Rightarrow>
               if \<not> found then ([], Inr None)
               else if \<not> enabled (setAutoload settings)
               then (if \<not> optQuiet (dlOptions parsed) then [warn ''project.autoload-disabled'' [configPath]] else [], Inr None)
               else
                 (let (warnings, result) = BuildOverlayConfiguredLaunch registry (load configPath) parsed primary project
                  in (warnings, attempt result (\<lambda>launch. Inr (Some launch))))))"

end
