(* ===== verification/Config_Yaml.thy ===== *)
theory Config_Yaml
  imports Config_Launch
begin

text \<open>
  \<open>internal/config/launch/config_set.go\<close>: the project configuration set. Every source is a YAML
  document that is checked, normalised (aliases and merge keys expanded under a node and depth
  budget) and checked against the launch schema; sources are merged in order.

  The YAML package parses bytes into nodes and decodes nodes into Go values; both are parameters,
  and so is the file system. A node has an annotation: in a parsed document its address, since
  aliases point to nodes and cycles are detected by address, in a normalised one nothing. The
  \<open>Content\<close> of a mapping is a list of key and value nodes.
\<close>

section \<open>Nodes\<close>

datatype 'a ynode =
    YScalar 'a string string nat
  | YMapping 'a string nat "('a ynode \<times> 'a ynode) list"
  | YSequence 'a string nat "'a ynode list"
  | YAlias 'a nat "nat option"

type_synonym 'a ypairs = "('a ynode \<times> 'a ynode) list"

fun address :: "'a ynode \<Rightarrow> 'a" where
  "address (YScalar a tag v line) = a"
| "address (YMapping a tag line kvs) = a"
| "address (YSequence a tag line xs) = a"
| "address (YAlias a line target) = a"

fun node_tag :: "'a ynode \<Rightarrow> string" where
  "node_tag (YScalar a tag v line) = tag"
| "node_tag (YMapping a tag line kvs) = tag"
| "node_tag (YSequence a tag line xs) = tag"
| "node_tag (YAlias a line target) = ''''"

fun node_value :: "'a ynode \<Rightarrow> string" where
  "node_value (YScalar a tag v line) = v"
| "node_value _ = ''''"

fun node_line :: "'a ynode \<Rightarrow> nat" where
  "node_line (YScalar a tag v line) = line"
| "node_line (YMapping a tag line kvs) = line"
| "node_line (YSequence a tag line xs) = line"
| "node_line (YAlias a line target) = line"

fun is_scalar :: "'a ynode \<Rightarrow> bool" where
  "is_scalar (YScalar a tag v line) = True"
| "is_scalar _ = False"

fun is_mapping :: "'a ynode \<Rightarrow> bool" where
  "is_mapping (YMapping a tag line kvs) = True"
| "is_mapping _ = False"

fun pairs_of :: "'a ynode \<Rightarrow> 'a ypairs" where
  "pairs_of (YMapping a tag line kvs) = kvs"
| "pairs_of _ = []"

definition yamlKeyIdentity :: "'a ynode \<Rightarrow> string" where
  "yamlKeyIdentity key = node_tag key @ NUL # node_value key"

datatype yaml_error =
    KeyNotScalar nat
  | DuplicateKey nat string
  | EmptyNode
  | SizeLimit nat
  | DepthLimit nat
  | CyclicAlias nat
  | AliasWithoutTarget nat
  | MergeElement nat
  | MergeKind nat
  | UnknownField nat string
  | WrongKind nat
  | ScalarInvalid nat
  | RootNotMapping
  | ParseFailed
  | MultipleDocuments
  | FileStatFailed string
  | FileSymlink string
  | FileNotRegular string
  | FileNotDirectory string
  | FileOpenFailed string
  | FileChanged string
  | FileReadFailed string
  | SchemaDecodeFailed

section \<open>Keys\<close>

fun check_keys :: "string set \<Rightarrow> 'a ynode list \<Rightarrow> yaml_error verdict" where
  "check_keys seen [] = None"
| "check_keys seen (key # keys) =
     (if \<not> is_scalar key then Some (KeyNotScalar (node_line key))
      else if yamlKeyIdentity key \<in> seen then Some (DuplicateKey (node_line key) (node_value key))
      else check_keys (insert (yamlKeyIdentity key) seen) keys)"

text \<open>The stack of \<open>validateLaunchYAML\<close>, its top first.\<close>

function validate_pending :: "'a ynode list \<Rightarrow> yaml_error verdict" where
  "validate_pending [] = None"
| "validate_pending (YSequence a tag line xs # pending) = validate_pending (rev xs @ pending)"
| "validate_pending (YMapping a tag line kvs # pending) =
     and_then (check_keys {} (map fst kvs)) (validate_pending (rev (map snd kvs) @ pending))"
| "validate_pending (YScalar a tag v line # pending) = validate_pending pending"
| "validate_pending (YAlias a line target # pending) = validate_pending pending"
  by pat_completeness auto

fun weight :: "'a ynode \<Rightarrow> nat" where
  "weight (YMapping a tag line kvs) = Suc (\<Sum>kv \<leftarrow> kvs. weight (snd kv))"
| "weight (YSequence a tag line xs) = Suc (\<Sum>x \<leftarrow> xs. weight x)"
| "weight _ = 1"

termination validate_pending
proof (relation "measure (\<lambda>pending. sum_list (map weight pending))")
  fix a :: 'b and tag line and kvs :: "'b ypairs" and pending
  have "(\<Sum>x \<leftarrow> rev (map snd kvs). weight x) = (\<Sum>kv \<leftarrow> kvs. weight (snd kv))"
    by (simp add: sum_list_rev rev_map [symmetric] comp_def)
  then show "(rev (map snd kvs) @ pending, YMapping a tag line kvs # pending) \<in> measure (\<lambda>pending. sum_list (map weight pending))"
    by simp
qed (auto simp: sum_list_rev rev_map [symmetric])

definition validateLaunchYAML :: "'a ynode \<Rightarrow> yaml_error verdict" where
  "validateLaunchYAML node = validate_pending [node]"

section \<open>Normalisation\<close>

definition yamlNormalizationBaseNodes :: nat where "yamlNormalizationBaseNodes = 256"
definition yamlNormalizationNodesPerByte :: nat where "yamlNormalizationNodesPerByte = 16"
definition yamlNormalizationMaxNodes :: nat where "yamlNormalizationMaxNodes = 100000"
definition yamlNormalizationMaxDepth :: nat where "yamlNormalizationMaxDepth = 100"

definition isYAMLMergeKey :: "'a ynode \<Rightarrow> bool" where
  "isYAMLMergeKey key \<longleftrightarrow>
     is_scalar key \<and> node_value key = ''<<'' \<and> node_tag key \<in> {'''', ''!'', ''!!merge'', ''tag:yaml.org,2002:merge''}"

text \<open>
  The budget of nodes is threaded through the calls. \<open>f\<close> is the recursive call: the normalisation
  of a child, with the nodes left.
\<close>

type_synonym 'a normal = "yaml_error + 'a \<times> nat"

fun thread :: "('x \<Rightarrow> nat \<Rightarrow> 'y normal) \<Rightarrow> 'x list \<Rightarrow> nat \<Rightarrow> 'y list normal" where
  "thread f [] n = Inr ([], n)"
| "thread f (x # xs) n = attempt (f x n) (\<lambda>(y, n). attempt (thread f xs n) (\<lambda>(ys, n). Inr (y # ys, n)))"

definition normalize_pair :: "(nat ynode \<Rightarrow> nat \<Rightarrow> unit ynode normal) \<Rightarrow> nat ynode \<times> nat ynode \<Rightarrow> nat \<Rightarrow> (unit ynode \<times> unit ynode) normal" where
  "normalize_pair f kv n =
     attempt (f (fst kv) n) (\<lambda>(k, n). attempt (f (snd kv) n) (\<lambda>(v, n). Inr ((k, v), n)))"

definition normalizeYAMLMerge :: "(nat ynode \<Rightarrow> nat \<Rightarrow> unit ynode normal) \<Rightarrow> nat ynode \<Rightarrow> nat \<Rightarrow> unit ypairs list normal" where
  "normalizeYAMLMerge f node n =
     attempt (f node n) (\<lambda>(normalized, n).
       case normalized of
         YMapping a tag line kvs \<Rightarrow> Inr ([kvs], n)
       | YSequence a tag line xs \<Rightarrow>
           (case filter (\<lambda>child. \<not> is_mapping child) xs of
              [] \<Rightarrow> Inr (map pairs_of xs, n)
            | child # _ \<Rightarrow> Inl (MergeElement (node_line child)))
       | _ \<Rightarrow> Inl (MergeKind (node_line normalized)))"

text \<open>The identities seen are those of the keys in the destination.\<close>

definition add_missing :: "'a ypairs \<Rightarrow> 'a ynode \<times> 'a ynode \<Rightarrow> 'a ypairs" where
  "add_missing dst kv =
     (if yamlKeyIdentity (fst kv) \<in> (\<lambda>kv. yamlKeyIdentity (fst kv)) ` set dst then dst else dst @ [kv])"

definition normalizeYAMLMapping :: "(nat ynode \<Rightarrow> nat \<Rightarrow> unit ynode normal) \<Rightarrow> nat ypairs \<Rightarrow> nat \<Rightarrow> unit ypairs normal" where
  "normalizeYAMLMapping f src n =
     attempt (thread (normalize_pair f) (filter (\<lambda>kv. \<not> isYAMLMergeKey (fst kv)) src) n) (\<lambda>(dst, n).
     attempt (thread (normalizeYAMLMerge f) (map snd (filter (\<lambda>kv. isYAMLMergeKey (fst kv)) src)) n) (\<lambda>(merges, n).
       Inr (foldl add_missing dst (concat (concat merges)), n)))"

text \<open>
  \<open>room\<close> is the depth limit less the current depth, \<open>lookup\<close> finds the node an alias points to.
\<close>

fun normalizeYAMLNode ::
  "(nat \<Rightarrow> nat ynode option) \<Rightarrow> nat \<Rightarrow> nat set \<Rightarrow> nat ynode \<Rightarrow> nat \<Rightarrow> unit ynode normal"
where
  "normalizeYAMLNode lookup 0 active node n =
     (if n = 0 then Inl (SizeLimit (node_line node)) else Inl (DepthLimit (node_line node)))"
| "normalizeYAMLNode lookup (Suc room) active node n =
     (if n = 0 then Inl (SizeLimit (node_line node))
      else if address node \<in> active then Inl (CyclicAlias (node_line node))
      else
        (let n = n - 1; f = normalizeYAMLNode lookup room (insert (address node) active) in
         case node of
           YAlias a line None \<Rightarrow> Inl (AliasWithoutTarget line)
         | YAlias a line (Some target) \<Rightarrow> (case lookup target of None \<Rightarrow> Inl EmptyNode | Some node \<Rightarrow> f node n)
         | YMapping a tag line kvs \<Rightarrow> attempt (normalizeYAMLMapping f kvs n) (\<lambda>(kvs, n). Inr (YMapping () tag line kvs, n))
         | YSequence a tag line xs \<Rightarrow> attempt (thread f xs n) (\<lambda>(xs, n). Inr (YSequence () tag line xs, n))
         | YScalar a tag v line \<Rightarrow> Inr (YScalar () tag v line, n)))"

definition nodeLimit :: "nat \<Rightarrow> nat" where
  "nodeLimit sourceBytes =
     (if sourceBytes < (yamlNormalizationMaxNodes - yamlNormalizationBaseNodes) div yamlNormalizationNodesPerByte
      then yamlNormalizationBaseNodes + sourceBytes * yamlNormalizationNodesPerByte else yamlNormalizationMaxNodes)"

definition normalizeLaunchYAML :: "(nat \<Rightarrow> nat ynode option) \<Rightarrow> nat ynode \<Rightarrow> nat \<Rightarrow> yaml_error + unit ynode" where
  "normalizeLaunchYAML lookup node sourceBytes =
     attempt (normalizeYAMLNode lookup yamlNormalizationMaxDepth {} node (nodeLimit sourceBytes)) (\<lambda>(t, n). Inr t)"

section \<open>Merging\<close>

text \<open>The index of the last key with an identity.\<close>

definition key_index :: "'a ypairs \<Rightarrow> string \<Rightarrow> nat option" where
  "key_index dst i = (case filter (\<lambda>j. yamlKeyIdentity (fst (dst ! j)) = i) (rev [0..<length dst]) of [] \<Rightarrow> None | j # _ \<Rightarrow> Some j)"

function mergeYAMLMapping :: "'a ypairs \<Rightarrow> 'a ypairs \<Rightarrow> 'a ypairs" where
  "mergeYAMLMapping dst [] = dst"
| "mergeYAMLMapping dst ((srcKey, srcValue) # src) =
     mergeYAMLMapping
       (case key_index dst (yamlKeyIdentity srcKey) of
          None \<Rightarrow> dst @ [(srcKey, srcValue)]
        | Some j \<Rightarrow>
            (case (snd (dst ! j), srcValue) of
               (YMapping a tag line d, YMapping a' tag' line' s) \<Rightarrow> dst[j := (fst (dst ! j), YMapping a tag line (mergeYAMLMapping d s))]
             | _ \<Rightarrow> dst[j := (srcKey, srcValue)])) src"
  by pat_completeness auto
termination
  by (relation "measure (\<lambda>(dst, src). size_list (size_prod size size) src)") auto

section \<open>The launch schema\<close>

text \<open>
  \<open>reflect.Type\<close>, as far as it is looked at: the fields of a struct with name, whether they are
  exported, their \<open>yaml\<close> tag and type. A scalar type is its name.
\<close>

datatype go_type =
    GoStruct "(string \<times> bool \<times> string \<times> go_type) list"
  | GoMap go_type go_type
  | GoSlice go_type
  | GoPointer go_type
  | GoInterface
  | GoScalar string

text \<open>\<open>strings.Cut\<close> at a comma, and \<open>strings.ToLower\<close> on ASCII.\<close>

definition Cut :: "string \<Rightarrow> string \<times> string" where
  "Cut s = (takeWhile (\<lambda>c. c \<noteq> CHR '','') s, drop 1 (dropWhile (\<lambda>c. c \<noteq> CHR '','') s))"

definition ascii_lower :: "char \<Rightarrow> char" where
  "ascii_lower c = (if CHR ''A'' \<le> c \<and> c \<le> CHR ''Z'' then char_of ((of_char c :: nat) + 32) else c)"

function hasYAMLOption :: "string \<Rightarrow> string \<Rightarrow> bool" where
  "hasYAMLOption options target =
     (if options = '''' then False
      else let (option, remainder) = Cut options in option = target \<or> hasYAMLOption remainder target)"
  by pat_completeness auto
termination
proof (relation "measure (\<lambda>(options, target). length options)")
  fix options target :: string and x option remainder
  assume "options \<noteq> ''''" "x = Cut options" "(option, remainder) = x"
  then have "length remainder \<le> length (dropWhile (\<lambda>c. c \<noteq> CHR '','') options) - 1" by (simp add: Cut_def)
  moreover have "length (dropWhile (\<lambda>c. c \<noteq> CHR '','') options) \<le> length options" by (rule length_dropWhile_le)
  ultimately show "((remainder, target), options, target) \<in> measure (\<lambda>(options, target). length options)"
    using \<open>options \<noteq> ''''\<close> by (cases options) auto
qed simp

declare hasYAMLOption.simps [simp del]

fun strip_pointers :: "go_type \<Rightarrow> go_type" where
  "strip_pointers (GoPointer t) = strip_pointers t"
| "strip_pointers t = t"

fun yamlStructFields :: "go_type \<Rightarrow> (string \<times> go_type) list"
  and struct_fields_loop :: "(string \<times> bool \<times> string \<times> go_type) list \<Rightarrow> (string \<times> go_type) list \<Rightarrow> (string \<times> go_type) list"
where
  "yamlStructFields (GoStruct fs) = struct_fields_loop fs []"
| "yamlStructFields (GoPointer t) = yamlStructFields t"
| "yamlStructFields _ = []"
| "struct_fields_loop [] found = found"
| "struct_fields_loop ((fieldName, exported, tag, t) # fs) found =
     (if \<not> exported then struct_fields_loop fs found
      else
        (let (name, options) = Cut tag in
         if name = ''-'' then struct_fields_loop fs found
         else if hasYAMLOption options ''inline''
         then struct_fields_loop fs (fold (\<lambda>(n, t) al. AList.update n t al) (yamlStructFields t) found)
         else struct_fields_loop fs (AList.update (if name = '''' then map ascii_lower fieldName else name) t found)))"

definition launchSandboxBuildSchema :: go_type where
  "launchSandboxBuildSchema =
     GoStruct [(''Context'', True, ''context'', GoScalar ''string''), (''Dockerfile'', True, ''dockerfile'', GoScalar ''string'')]"

definition launchSandboxSchema :: go_type where
  "launchSandboxSchema =
     GoStruct [(''Image'', True, ''image'', GoScalar ''string''), (''Archive'', True, ''archive'', GoScalar ''string''),
       (''Build'', True, ''build'', GoPointer launchSandboxBuildSchema), (''Pull'', True, ''pull'', GoPointer (GoScalar ''string''))]"

definition launchSettingsSchema :: go_type where
  "launchSettingsSchema =
     GoStruct [(''Profile'', True, ''profile'', GoScalar ''string''), (''AutoUpgrade'', True, ''autoUpgrade'', GoScalar ''bool''),
       (''SuppressWarnings'', True, ''suppressWarnings'', GoSlice (GoScalar ''string'')),
       (''Debug'', True, ''debug'', GoPointer (GoScalar ''bool'')), (''Yolo'', True, ''yolo'', GoPointer (GoScalar ''bool''))]"

definition launchProjectSchema :: go_type where
  "launchProjectSchema =
     GoStruct [(''Path'', True, ''path'', GoPointer (GoScalar ''string'')), (''Primary'', True, ''primary'', GoScalar ''bool'')]"

definition launchToolSchema :: go_type where
  "launchToolSchema =
     GoStruct [(''Profile'', True, ''profile'', GoScalar ''string''), (''Params'', True, ''params'', GoSlice (GoScalar ''string'')),
       (''Primary'', True, ''primary'', GoScalar ''bool'')]"

definition launchSchemaType :: go_type where
  "launchSchemaType =
     GoStruct [(''Name'', True, ''name'', GoScalar ''string''), (''Sandbox'', True, ''sandbox'', launchSandboxSchema),
       (''Settings'', True, ''settings'', launchSettingsSchema),
       (''Projects'', True, ''projects'', GoMap (GoScalar ''string'') (GoPointer launchProjectSchema)),
       (''Workdir'', True, ''workdir'', GoScalar ''string''),
       (''Tools'', True, ''tools'', GoMap (GoScalar ''string'') (GoPointer launchToolSchema))]"

text \<open>
  The YAML package: whether the short tag of a scalar is \<open>!!null\<close>, and whether a node decodes
  into a scalar type.
\<close>

record yaml_package =
  yamlNull :: "unit ynode \<Rightarrow> bool"
  yamlDecodes :: "string \<Rightarrow> unit ynode \<Rightarrow> bool"

definition validateYAMLScalar :: "yaml_package \<Rightarrow> unit ynode \<Rightarrow> go_type \<Rightarrow> yaml_error verdict" where
  "validateYAMLScalar y node target =
     (if \<not> is_scalar node then Some (WrongKind (node_line node))
      else case target of
        GoScalar kind \<Rightarrow> fail_if (\<not> yamlDecodes y kind node) (ScalarInvalid (node_line node))
      | _ \<Rightarrow> Some (ScalarInvalid (node_line node)))"

lemma each_cong [fundef_cong]: "xs = ys \<Longrightarrow> (\<And>x. x \<in> set ys \<Longrightarrow> f x = g x) \<Longrightarrow> each f xs = each g ys"
  by (induction xs arbitrary: ys) auto

lemma size_pair: "(k, v) \<in> set kvs \<Longrightarrow> size v < Suc (size_list (size_prod size size) kvs)"
  by (induction kvs) auto

lemma size_child: "x \<in> set xs \<Longrightarrow> size x < Suc (size_list size xs)"
  by (induction xs) auto

function validatePartialLaunchSchema :: "yaml_package \<Rightarrow> unit ynode \<Rightarrow> go_type \<Rightarrow> yaml_error verdict" where
  "validatePartialLaunchSchema y node target =
     (if is_scalar node \<and> yamlNull y node then None
      else case strip_pointers target of
        GoStruct fs \<Rightarrow>
          (case node of
             YMapping a tag line kvs \<Rightarrow>
               each (\<lambda>kv. case map_of (yamlStructFields (GoStruct fs)) (node_value (fst kv)) of
                        None \<Rightarrow> Some (UnknownField (node_line (fst kv)) (node_value (fst kv)))
                      | Some fieldType \<Rightarrow> validatePartialLaunchSchema y (snd kv) fieldType) kvs
           | _ \<Rightarrow> Some (WrongKind (node_line node)))
      | GoMap keyType elemType \<Rightarrow>
          (case node of
             YMapping a tag line kvs \<Rightarrow>
               each (\<lambda>kv. and_then (validateYAMLScalar y (fst kv) keyType) (validatePartialLaunchSchema y (snd kv) elemType)) kvs
           | _ \<Rightarrow> Some (WrongKind (node_line node)))
      | GoSlice elemType \<Rightarrow>
          (case node of
             YSequence a tag line xs \<Rightarrow> each (\<lambda>child. validatePartialLaunchSchema y child elemType) xs
           | _ \<Rightarrow> Some (WrongKind (node_line node)))
      | GoInterface \<Rightarrow> None
      | t \<Rightarrow> validateYAMLScalar y node t)"
  by pat_completeness auto
termination
  by (relation "measure (\<lambda>(y, node, target). size node)") (auto intro: size_pair size_child)

declare validatePartialLaunchSchema.simps [simp del]

end
