(* ===== verification/Config_Set.thy ===== *)
theory Config_Set
  imports Config_Yaml
begin

text \<open>
  The rest of \<open>config_set.go\<close>: the files of a project configuration set. Files and directories are
  opened beneath a rooted directory and must be the ones that were checked; the fragments of
  \<open>config.d\<close> are merged into \<open>config.yaml\<close> in the order of their names.

  What the system answers is data: \<open>Lstat\<close> before opening, whether opening works, \<open>Stat\<close> of what
  was opened, the contents. Identity of files (\<open>os.SameFile\<close>) is a number.
\<close>

section \<open>Rooted files\<close>

datatype file_stat =
    StatMissing
  | StatError
  | StatInfo (isSymlink: bool) (isDir: bool) (isRegular: bool) (fileIdent: nat)

record rooted =
  rtBefore :: file_stat
  rtOpens :: bool
  rtAfter :: file_stat

text \<open>Contents: their length and what the YAML package makes of them.\<close>

datatype yaml_parse = ParseError | ManyDocuments | NoDocument | Root "nat ynode"

record source_data =
  sdLength :: nat
  sdParsed :: yaml_parse

record rooted_file = rooted +
  rfData :: "source_data option"

definition openRootedDirectory :: "string \<Rightarrow> rooted \<Rightarrow> yaml_error verdict" where
  "openRootedDirectory path r =
     (case rtBefore r of
        StatInfo symlink dir regular i \<Rightarrow>
          and_then (fail_if symlink (FileSymlink path))
         (and_then (fail_if (\<not> dir) (FileNotDirectory path))
         (and_then (fail_if (\<not> rtOpens r) (FileOpenFailed path))
           (case rtAfter r of
              StatInfo symlink' dir' regular' j \<Rightarrow> fail_if (i \<noteq> j) (FileChanged path)
            | _ \<Rightarrow> Some (FileStatFailed path))))
      | _ \<Rightarrow> Some (FileStatFailed path))"

definition readRootedRegularFile :: "string \<Rightarrow> rooted_file \<Rightarrow> yaml_error + source_data" where
  "readRootedRegularFile path r =
     (case rtBefore r of
        StatInfo symlink dir regular i \<Rightarrow>
          require (fail_if symlink (FileSymlink path))
         (require (fail_if (\<not> regular) (FileNotRegular path))
         (require (fail_if (\<not> rtOpens r) (FileOpenFailed path))
           (case rtAfter r of
              StatInfo symlink' dir' regular' j \<Rightarrow>
                require (fail_if (\<not> regular') (FileNotRegular path))
               (require (fail_if (i \<noteq> j) (FileChanged path))
                 (case rfData r of None \<Rightarrow> Inl (FileReadFailed path) | Some d \<Rightarrow> Inr d))
            | _ \<Rightarrow> Inl (FileStatFailed path))))
      | _ \<Rightarrow> Inl (FileStatFailed path))"

section \<open>Sources\<close>

fun subnodes :: "'a ynode \<Rightarrow> 'a ynode list" where
  "subnodes (YMapping a tag line kvs) =
     YMapping a tag line kvs # concat (map (\<lambda>kv. subnodes (fst kv) @ subnodes (snd kv)) kvs)"
| "subnodes (YSequence a tag line xs) = YSequence a tag line xs # concat (map subnodes xs)"
| "subnodes node = [node]"

definition alias_target :: "nat ynode \<Rightarrow> nat \<Rightarrow> nat ynode option" where
  "alias_target root a = find (\<lambda>node. address node = a) (subnodes root)"

text \<open>\<open>Inr None\<close> is an empty source.\<close>

definition launchSourceMapping :: "'a ynode \<Rightarrow> yaml_error + 'a ynode option" where
  "launchSourceMapping root =
     (if is_scalar root \<and> node_tag root = ''!!null'' then Inr None
      else if \<not> is_mapping root then Inl RootNotMapping else Inr (Some root))"

definition parseLaunchSource :: "yaml_package \<Rightarrow> source_data \<Rightarrow> yaml_error + unit ynode option" where
  "parseLaunchSource y data =
     (case sdParsed data of
        ParseError \<Rightarrow> Inl ParseFailed
      | ManyDocuments \<Rightarrow> Inl MultipleDocuments
      | NoDocument \<Rightarrow> Inr None
      | Root root \<Rightarrow>
          attempt (launchSourceMapping root) (\<lambda>m. case m of
            None \<Rightarrow> Inr None
          | Some mapping \<Rightarrow>
              require (validateLaunchYAML mapping)
                (attempt (normalizeLaunchYAML (alias_target root) mapping (sdLength data)) (\<lambda>normalized.
                   require (validateLaunchYAML normalized)
                     (require (validatePartialLaunchSchema y normalized launchSchemaType) (Inr (Some normalized)))))))"

fun merge_into :: "unit ynode option \<Rightarrow> unit ynode \<Rightarrow> unit ynode" where
  "merge_into (Some (YMapping a tag line d)) normalized = YMapping a tag line (mergeYAMLMapping d (pairs_of normalized))"
| "merge_into _ normalized = normalized"

text \<open>What is merged so far is a mapping or nothing.\<close>

definition decodeLaunchSource :: "yaml_package \<Rightarrow> unit ynode option \<Rightarrow> source_data \<Rightarrow> yaml_error + unit ynode option" where
  "decodeLaunchSource y merged data =
     attempt (parseLaunchSource y data) (\<lambda>normalized.
       case normalized of None \<Rightarrow> Inr merged | Some normalized \<Rightarrow> Inr (Some (merge_into merged normalized)))"

section \<open>Fragments\<close>

definition Ext :: "string \<Rightarrow> string" where
  "Ext s =
     (let base = rev (takeWhile (\<lambda>c. c \<noteq> slash) (rev s)) in
      if CHR ''.'' \<in> set base then CHR ''.'' # rev (takeWhile (\<lambda>c. c \<noteq> CHR ''.'') (rev base)) else '''')"

record dir_entry =
  deName :: string
  deIsDir :: bool
  deFile :: rooted_file

record fragments_dir =
  fdStat :: file_stat
  fdRooted :: rooted
  fdEntries :: "dir_entry list option"

fun fragments_loop ::
  "yaml_package \<Rightarrow> string \<Rightarrow> dir_entry list \<Rightarrow> unit ynode option \<Rightarrow> warning_event list \<times> (yaml_error + unit ynode option)"
where
  "fragments_loop y dir [] merged = ([], Inr merged)"
| "fragments_loop y dir (entry # entries) merged =
     (let path = Joins [dir, deName entry] in
      if Ext (deName entry) \<noteq> ''.yaml''
      then
        (let (ws, r) = fragments_loop y dir entries merged
         in ((if deIsDir entry then [] else [warn ''config.fragment-ignored'' [path]]) @ ws, r))
      else
        (case attempt (readRootedRegularFile path (deFile entry)) (decodeLaunchSource y merged) of
           Inl e \<Rightarrow> ([], Inl e)
         | Inr merged \<Rightarrow> fragments_loop y dir entries merged))"

definition mergeProjectFragments ::
  "yaml_package \<Rightarrow> string \<Rightarrow> fragments_dir \<Rightarrow> unit ynode option \<Rightarrow> warning_event list \<times> (yaml_error + unit ynode option)"
where
  "mergeProjectFragments y configDirPath fd merged =
     (let path = Joins [configDirPath, ''config.d''] in
      case fdStat fd of
        StatMissing \<Rightarrow> ([], Inr merged)
      | StatError \<Rightarrow> ([], Inl (FileStatFailed path))
      | StatInfo symlink dir regular i \<Rightarrow>
          if symlink then ([], Inl (FileSymlink path))
          else if \<not> dir then ([], Inl (FileNotDirectory path))
          else
            (case openRootedDirectory path (fdRooted fd) of
               Some e \<Rightarrow> ([], Inl e)
             | None \<Rightarrow>
                 (case fdEntries fd of
                    None \<Rightarrow> ([], Inl (FileReadFailed path))
                  | Some entries \<Rightarrow> fragments_loop y path (sort_key deName entries) merged)))"

section \<open>Loading\<close>

record project_files =
  pfRootOpens :: bool
  pfDirStat :: file_stat
  pfConfigDir :: rooted
  pfMarker :: file_stat
  pfBase :: rooted_file
  pfFragments :: fragments_dir

definition projectConfigMarker :: "string \<Rightarrow> project_files \<Rightarrow> yaml_error + bool" where
  "projectConfigMarker projectRoot pf =
     (let configDirPath = Joins [projectRoot, ''.toby'']; configPath = Joins [configDirPath, ''config.yaml''] in
      if \<not> pfRootOpens pf then Inl (FileOpenFailed projectRoot)
      else case pfDirStat pf of
        StatMissing \<Rightarrow> Inr False
      | StatError \<Rightarrow> Inl (FileStatFailed configDirPath)
      | StatInfo symlink dir regular i \<Rightarrow>
          if symlink then Inl (FileSymlink configDirPath)
          else if \<not> dir then Inl (FileNotDirectory configDirPath)
          else require (openRootedDirectory configDirPath (pfConfigDir pf))
            (case pfMarker pf of
               StatMissing \<Rightarrow> Inr False
             | StatError \<Rightarrow> Inl (FileStatFailed configPath)
             | StatInfo symlink dir regular i \<Rightarrow>
                 if symlink then Inl (FileSymlink configPath)
                 else if \<not> regular then Inl (FileNotRegular configPath)
                 else Inr True))"

text \<open>
  The merged node of a project, and the schema decoded from it: \<open>decode\<close> is the strict decoder of
  the encoded node, and nothing at all is the zero schema.
\<close>

definition project_node :: "yaml_package \<Rightarrow> string \<Rightarrow> project_files \<Rightarrow> warning_event list \<times> (yaml_error + unit ynode option)" where
  "project_node y projectRoot pf =
     (let configDirPath = Joins [projectRoot, ''.toby''] in
      if \<not> pfRootOpens pf then ([], Inl (FileOpenFailed projectRoot))
      else case require (openRootedDirectory configDirPath (pfConfigDir pf))
            (attempt (readRootedRegularFile (Joins [configDirPath, ''config.yaml'']) (pfBase pf)) (decodeLaunchSource y None)) of
        Inl e \<Rightarrow> ([], Inl e)
      | Inr merged \<Rightarrow> mergeProjectFragments y configDirPath (pfFragments pf) merged)"

definition empty_launch_schema :: launch_schema where
  "empty_launch_schema =
     \<lparr>lsName = '''', lsSandbox = \<lparr>srcImage = '''', srcArchive = '''', srcBuild = None, srcPull = None\<rparr>,
      lsSettings = \<lparr>lssProfile = '''', lssUpgrade = False, lssSuppress = None, lssDebug = None, lssYolo = None\<rparr>,
      lsProjects = [], lsWorkdir = '''', lsTools = []\<rparr>"

definition loadProjectConfigSet ::
  "yaml_package \<Rightarrow> (unit ynode \<Rightarrow> launch_schema option) \<Rightarrow> string \<Rightarrow> project_files \<Rightarrow> warning_event list \<times> (yaml_error + launch_schema)"
where
  "loadProjectConfigSet y decode projectRoot pf =
     (let (ws, r) = project_node y projectRoot pf
      in (ws, attempt r (\<lambda>merged. case merged of
                None \<Rightarrow> Inr empty_launch_schema
              | Some node \<Rightarrow> (case decode node of None \<Rightarrow> Inl SchemaDecodeFailed | Some schema \<Rightarrow> Inr schema))))"

definition isCanonicalProjectConfig :: "string \<Rightarrow> bool" where
  "isCanonicalProjectConfig path \<longleftrightarrow> Base path = ''config.yaml'' \<and> Base (Dir path) = ''.toby''"

definition loadSingleLaunchConfig ::
  "yaml_package \<Rightarrow> (source_data \<Rightarrow> launch_schema option) \<Rightarrow> string \<Rightarrow> bool \<times> rooted_file \<Rightarrow> yaml_error + launch_schema"
where
  "loadSingleLaunchConfig y decode path file =
     (if \<not> fst file then Inl (FileOpenFailed (Dir path))
      else attempt (readRootedRegularFile path (snd file)) (\<lambda>data.
        attempt (parseLaunchSource y data) (\<lambda>normalized.
          case decode data of None \<Rightarrow> Inl SchemaDecodeFailed | Some schema \<Rightarrow> Inr schema)))"

text \<open>The files at a path, and the two decoders.\<close>

record config_files =
  cfProject :: "string \<Rightarrow> project_files"
  cfSingle :: "string \<Rightarrow> bool \<times> rooted_file"
  cfDecodeNode :: "unit ynode \<Rightarrow> launch_schema option"
  cfDecodeData :: "source_data \<Rightarrow> launch_schema option"

definition loadLaunchSchema :: "yaml_package \<Rightarrow> config_files \<Rightarrow> string \<Rightarrow> warning_event list \<times> (yaml_error + launch_schema) \<times> string" where
  "loadLaunchSchema y cf path =
     (if isCanonicalProjectConfig path then
        (let projectRoot = Dir (Dir path); (ws, r) = loadProjectConfigSet y (cfDecodeNode cf) projectRoot (cfProject cf projectRoot)
         in (ws, r, projectRoot))
      else ([], loadSingleLaunchConfig y (cfDecodeData cf) path (cfSingle cf path), Dir path))"

definition loadLaunchConfig ::
  "yaml_package \<Rightarrow> config_files \<Rightarrow> string option \<Rightarrow> string option \<Rightarrow> string \<Rightarrow> host_paths \<Rightarrow> warning_event list \<times> (launch_error + launch_config)"
where
  "loadLaunchConfig y cf cwd home_dir path paths =
     (let path = TrimSpace path in
      if path = '''' then ([], Inl (LaunchLoadFailed path))
      else
        (let paths = launchConfigPaths home_dir paths in
         case Abs_path cwd (ExpandHostHome path (pathsHome paths)) of
           None \<Rightarrow> ([], Inl (LaunchLoadFailed path))
         | Some absolute \<Rightarrow>
             (let (ws, r, relativeRoot) = loadLaunchSchema y cf absolute in
              (ws, case r of
                 Inl e \<Rightarrow> Inl (LaunchLoadFailed absolute)
               | Inr schema \<Rightarrow> parseLaunchConfig cwd home_dir schema relativeRoot paths))))"

end
