(* ===== verification/Config_Yaml_Proofs.thy ===== *)
theory Config_Yaml_Proofs
  imports Config_Set
begin

text \<open>
  Normalisation stays in its budget and leaves plain documents alone; merging by its lookup law;
  both keep keys unique and conformance to the schema.
\<close>

section \<open>Size and height\<close>

fun nodes :: "'a ynode \<Rightarrow> nat" where
  "nodes (YMapping a tag line kvs) = Suc (\<Sum>kv \<leftarrow> kvs. nodes (fst kv) + nodes (snd kv))"
| "nodes (YSequence a tag line xs) = Suc (\<Sum>x \<leftarrow> xs. nodes x)"
| "nodes _ = 1"

fun fits :: "nat \<Rightarrow> 'a ynode \<Rightarrow> bool" where
  "fits 0 node = False"
| "fits (Suc h) (YMapping a tag line kvs) = list_all (\<lambda>kv. fits h (fst kv) \<and> fits h (snd kv)) kvs"
| "fits (Suc h) (YSequence a tag line xs) = list_all (fits h) xs"
| "fits (Suc h) _ = True"

fun no_nul :: "'a ynode \<Rightarrow> bool" where
  "no_nul (YMapping a tag line kvs) = (NUL \<notin> set tag \<and> list_all (\<lambda>kv. no_nul (fst kv) \<and> no_nul (snd kv)) kvs)"
| "no_nul (YSequence a tag line xs) = (NUL \<notin> set tag \<and> list_all no_nul xs)"
| "no_nul (YScalar a tag v line) = (NUL \<notin> set tag)"
| "no_nul (YAlias a line target) = True"

lemma fits_mono: "fits h node \<Longrightarrow> fits (Suc h) node"
proof (induction h arbitrary: node)
  case (Suc h)
  then show ?case by (cases node) (auto simp: list_all_iff)
qed simp

abbreviation pair_nodes :: "'a ynode \<times> 'a ynode \<Rightarrow> nat" where
  "pair_nodes kv \<equiv> nodes (fst kv) + nodes (snd kv)"

section \<open>The budget\<close>

lemma thread_spec:
  assumes "\<And>x n y n'. x \<in> set xs \<Longrightarrow> f x n = Inr (y, n') \<Longrightarrow> sz y + n' \<le> n \<and> P y"
    and "thread f xs n = Inr (ys, n')"
  shows "(\<Sum>y \<leftarrow> ys. sz y) + n' \<le> (n :: nat) \<and> list_all P ys"
  using assms
proof (induction xs arbitrary: n ys)
  case (Cons x xs)
  obtain y m zs where r: "f x n = Inr (y, m)" "thread f xs m = Inr (zs, n')" "ys = y # zs"
    using Cons.prems(2) by (auto simp: attempt_Inr)
  have "sz y + m \<le> n \<and> P y" by (rule Cons.prems(1) [OF list.set_intros(1) r(1)])
  moreover have "(\<Sum>y \<leftarrow> zs. sz y) + n' \<le> m \<and> list_all P zs" by (rule Cons.IH [OF Cons.prems(1) [OF list.set_intros(2)] r(2)])
  ultimately show ?case using r(3) by simp
qed simp

lemma add_missing_set: "set (foldl add_missing dst kvs) \<subseteq> set dst \<union> set kvs"
proof (induction kvs arbitrary: dst)
  case (Cons kv kvs)
  show ?case using Cons.IH [of "add_missing dst kv"] by (auto simp: add_missing_def split: if_splits)
qed simp

lemma add_missing_sum: "(\<Sum>kv \<leftarrow> foldl add_missing dst kvs. sz kv) \<le> (\<Sum>kv \<leftarrow> dst. sz kv) + (\<Sum>kv \<leftarrow> kvs. (sz kv :: nat))"
proof (induction kvs arbitrary: dst)
  case (Cons kv kvs)
  show ?case using Cons.IH [of "add_missing dst kv"] by (auto simp: add_missing_def split: if_splits)
qed simp

lemma list_all_concat: "list_all (\<lambda>ys. list_all P (g ys)) xs \<Longrightarrow> list_all P (concat (map g xs))"
  by (induction xs) auto

lemma concat_concat: "concat (concat xss) = concat (map concat xss)"
  by (induction xss) auto

lemma list_all_subset: "list_all P ys \<Longrightarrow> set xs \<subseteq> set ys \<Longrightarrow> list_all P xs"
  by (auto simp: list_all_iff)

text \<open>What is kept of both nodes of a pair.\<close>

definition good_pair :: "nat \<Rightarrow> bool \<Rightarrow> 'a ynode \<times> 'a ynode \<Rightarrow> bool" where
  "good_pair h ok kv \<longleftrightarrow> fits h (fst kv) \<and> fits h (snd kv) \<and> (ok \<longrightarrow> no_nul (fst kv) \<and> no_nul (snd kv))"

lemma good_pairs: "fits h t \<Longrightarrow> (ok \<longrightarrow> no_nul t) \<Longrightarrow> list_all (good_pair h ok) (pairs_of t)"
  by (cases t; cases h) (auto simp: list_all_iff good_pair_def intro: fits_mono)

lemma pairs_nodes: "(\<Sum>kv \<leftarrow> pairs_of t. pair_nodes kv) \<le> nodes t"
  by (cases t) auto

text \<open>One level of normalisation, for a recursive call that stays in its budget.\<close>

lemma merge_spec:
  assumes f: "\<And>n y n'. f node n = Inr (y, n') \<Longrightarrow> nodes y + n' \<le> n \<and> fits h y \<and> (ok \<longrightarrow> no_nul y)"
    and r: "normalizeYAMLMerge f node n = Inr (ms, n')"
  shows "(\<Sum>kv \<leftarrow> concat ms. pair_nodes kv) + n' \<le> n \<and> list_all (good_pair h ok) (concat ms)"
proof -
  obtain t m where t: "f node n = Inr (t, m)" using r by (auto simp: normalizeYAMLMerge_def attempt_Inr)
  note b = f [OF t]
  show ?thesis
  proof (cases t)
    case (YMapping a tag line kvs)
    then have "ms = [pairs_of t]" "n' = m" using r t by (simp_all add: normalizeYAMLMerge_def)
    then show ?thesis using b good_pairs [of h t ok] pairs_nodes [of t] by simp
  next
    case (YSequence a tag line xs)
    have maps: "ms = map pairs_of xs" "n' = m"
      using r t YSequence by (auto simp: normalizeYAMLMerge_def split: list.splits)
    obtain h' where h': "h = Suc h'" using b by (cases h) auto
    have "(\<Sum>kv \<leftarrow> concat (map pairs_of xs). pair_nodes kv) \<le> (\<Sum>x \<leftarrow> xs. nodes x)"
      using pairs_nodes by (induction xs) (auto intro: add_mono)
    then have "(\<Sum>kv \<leftarrow> concat ms. pair_nodes kv) + n' \<le> n" using b YSequence maps by simp
    moreover have "list_all (good_pair h ok) (pairs_of x)" if "x \<in> set xs" for x
    proof (rule good_pairs)
      show "fits h x" using that b YSequence h' by (auto simp: list_all_iff intro!: fits_mono)
      show "ok \<longrightarrow> no_nul x" using that b YSequence by (auto simp: list_all_iff)
    qed
    then have "list_all (\<lambda>x. list_all (good_pair h ok) (pairs_of x)) xs" by (simp add: list_all_iff)
    then have "list_all (good_pair h ok) (concat ms)" unfolding maps by (rule list_all_concat)
    ultimately show ?thesis by simp
  qed (use r t in \<open>auto simp: normalizeYAMLMerge_def\<close>)
qed

lemma mapping_spec:
  assumes f: "\<And>node n y n'. node \<in> fst ` set src \<union> snd ` set src \<Longrightarrow> f node n = Inr (y, n') \<Longrightarrow>
      nodes y + n' \<le> n \<and> fits h y \<and> (ok \<longrightarrow> no_nul y)"
    and r: "normalizeYAMLMapping f src n = Inr (kvs, n')"
  shows "(\<Sum>kv \<leftarrow> kvs. pair_nodes kv) + n' \<le> n \<and> list_all (good_pair h ok) kvs"
proof -
  let ?P = "good_pair h ok"
  obtain dst m merges where d: "thread (normalize_pair f) (filter (\<lambda>kv. \<not> isYAMLMergeKey (fst kv)) src) n = Inr (dst, m)"
    and ms: "thread (normalizeYAMLMerge f) (map snd (filter (\<lambda>kv. isYAMLMergeKey (fst kv)) src)) m = Inr (merges, n')"
    and kvs: "kvs = foldl add_missing dst (concat (concat merges))"
    using r by (auto simp: normalizeYAMLMapping_def attempt_Inr)
  have D: "(\<Sum>kv \<leftarrow> dst. pair_nodes kv) + m \<le> n \<and> list_all ?P dst"
  proof (rule thread_spec [OF _ d])
    fix kv k y k'
    assume kv: "kv \<in> set (filter (\<lambda>kv. \<not> isYAMLMergeKey (fst kv)) src)" and n: "normalize_pair f kv k = Inr (y, k')"
    obtain k1 v1 j where s: "f (fst kv) k = Inr (k1, j)" "f (snd kv) j = Inr (v1, k')" "y = (k1, v1)"
      using n by (auto simp: normalize_pair_def attempt_Inr)
    have "fst kv \<in> fst ` set src \<union> snd ` set src" "snd kv \<in> fst ` set src \<union> snd ` set src" using kv by auto
    from f [OF this(1) s(1)] f [OF this(2) s(2)] show "pair_nodes y + k' \<le> k \<and> ?P y" using s(3) by (simp add: good_pair_def)
  qed
  have M: "(\<Sum>ms \<leftarrow> merges. (\<Sum>kv \<leftarrow> concat ms. pair_nodes kv)) + n' \<le> m \<and> list_all (\<lambda>ms. list_all ?P (concat ms)) merges"
  proof (rule thread_spec [OF _ ms])
    fix node k y k'
    assume node: "node \<in> set (map snd (filter (\<lambda>kv. isYAMLMergeKey (fst kv)) src))" and n: "normalizeYAMLMerge f node k = Inr (y, k')"
    have "node \<in> fst ` set src \<union> snd ` set src" using node by auto
    from merge_spec [OF f [OF this] n] show "(\<Sum>kv \<leftarrow> concat y. pair_nodes kv) + k' \<le> k \<and> list_all ?P (concat y)" .
  qed
  have sum: "(\<Sum>kv \<leftarrow> concat (concat merges). pair_nodes kv) = (\<Sum>ms \<leftarrow> merges. (\<Sum>kv \<leftarrow> concat ms. pair_nodes kv))"
    by (induction merges) auto
  have "(\<Sum>kv \<leftarrow> kvs. pair_nodes kv) \<le> (\<Sum>kv \<leftarrow> dst. pair_nodes kv) + (\<Sum>kv \<leftarrow> concat (concat merges). pair_nodes kv)"
    unfolding kvs by (rule add_missing_sum)
  moreover have "list_all ?P kvs" unfolding kvs
    by (rule list_all_subset [OF _ add_missing_set [unfolded set_append [symmetric]]])
      (use D M in \<open>simp add: concat_concat list_all_concat\<close>)
  ultimately show ?thesis using D M sum by linarith
qed

lemma normalize_spec:
  "normalizeYAMLNode lookup room active node n = Inr (t, n') \<Longrightarrow>
     nodes t + n' \<le> n \<and> fits room t \<and> (no_nul node \<and> (\<forall>a x. lookup a = Some x \<longrightarrow> no_nul x) \<longrightarrow> no_nul t)"
proof (induction room arbitrary: active node n t n')
  case (Suc room)
  let ?f = "normalizeYAMLNode lookup room (insert (address node) active)"
  let ?ok = "no_nul node \<and> (\<forall>a x. lookup a = Some x \<longrightarrow> no_nul x)"
  have n: "n \<noteq> 0" "address node \<notin> active" using Suc.prems by (auto split: if_splits)
  show ?case
  proof (cases node)
    case (YScalar a tag v line)
    then show ?thesis using Suc.prems n by auto
  next
    case (YMapping a tag line kvs)
    obtain kvs' where kvs': "normalizeYAMLMapping ?f kvs (n - 1) = Inr (kvs', n')" "t = YMapping () tag line kvs'"
      using Suc.prems n YMapping by (auto simp: Let_def attempt_Inr)
    have "(\<Sum>kv \<leftarrow> kvs'. pair_nodes kv) + n' \<le> n - 1 \<and>
        list_all (good_pair room ?ok) kvs'"
    proof (rule mapping_spec [OF _ kvs'(1)])
      fix x k y k'
      assume "x \<in> fst ` set kvs \<union> snd ` set kvs" "?f x k = Inr (y, k')"
      then show "nodes y + k' \<le> k \<and> fits room y \<and> (?ok \<longrightarrow> no_nul y)"
        using Suc.IH [of _ x k y k'] YMapping by (auto simp: list_all_iff)
    qed
    then show ?thesis using n(1) kvs'(2) YMapping by (auto simp: list_all_iff good_pair_def)
  next
    case (YSequence a tag line xs)
    obtain ys where ys: "thread ?f xs (n - 1) = Inr (ys, n')" "t = YSequence () tag line ys"
      using Suc.prems n YSequence by (auto simp: Let_def attempt_Inr)
    have "(\<Sum>y \<leftarrow> ys. nodes y) + n' \<le> n - 1 \<and> list_all (\<lambda>y. fits room y \<and> (?ok \<longrightarrow> no_nul y)) ys"
      by (rule thread_spec [OF _ ys(1)]) (use Suc.IH YSequence in \<open>fastforce simp: list_all_iff\<close>)
    then show ?thesis using n(1) ys(2) YSequence by (auto simp: list_all_iff)
  next
    case (YAlias a line target)
    then obtain x where "?f x (n - 1) = Inr (t, n')" "\<exists>b. lookup b = Some x"
      using Suc.prems n by (auto simp: Let_def split: option.splits)
    then show ?thesis using Suc.IH [of _ x "n - 1" t n'] fits_mono n(1) YAlias by fastforce
  qed
qed (auto split: if_splits)

lemma nodeLimit_le: "nodeLimit b \<le> yamlNormalizationMaxNodes \<and> nodeLimit b \<le> yamlNormalizationBaseNodes + b * yamlNormalizationNodesPerByte \<or>
    nodeLimit b = yamlNormalizationMaxNodes"
  by (auto simp: nodeLimit_def yamlNormalizationMaxNodes_def yamlNormalizationBaseNodes_def yamlNormalizationNodesPerByte_def)

section \<open>Plain documents\<close>

fun plain :: "nat ynode \<Rightarrow> bool" where
  "plain (YMapping a tag line kvs) = list_all (\<lambda>kv. \<not> isYAMLMergeKey (fst kv) \<and> plain (fst kv) \<and> plain (snd kv)) kvs"
| "plain (YSequence a tag line xs) = list_all plain xs"
| "plain (YScalar a tag v line) = True"
| "plain (YAlias a line target) = False"

abbreviation erase :: "'a ynode \<Rightarrow> unit ynode" where
  "erase \<equiv> map_ynode (\<lambda>_. ())"

abbreviation addresses :: "nat ynode \<Rightarrow> nat list" where
  "addresses node \<equiv> map address (subnodes node)"

lemma address_head: "addresses node = address node # tl (addresses node)"
  by (cases node) auto

lemma thread_exact:
  assumes "\<And>x n. x \<in> set xs \<Longrightarrow> sz x \<le> n \<Longrightarrow> f x n = Inr (g x, n - sz x)" "(\<Sum>x \<leftarrow> xs. sz x) \<le> (n :: nat)"
  shows "thread f xs n = Inr (map g xs, n - (\<Sum>x \<leftarrow> xs. sz x))"
  using assms
proof (induction xs arbitrary: n)
  case (Cons x xs)
  have "f x n = Inr (g x, n - sz x)" using Cons.prems by simp
  moreover have "thread f xs (n - sz x) = Inr (map g xs, n - sz x - (\<Sum>x \<leftarrow> xs. sz x))"
    by (rule Cons.IH) (use Cons.prems in auto)
  ultimately show ?case by simp
qed simp

lemma distinct_concat_member: "distinct (concat (map f xs)) \<Longrightarrow> x \<in> set xs \<Longrightarrow> distinct (f x)"
  by (induction xs) auto

lemma normalize_plain:
  "plain node \<Longrightarrow> fits room node \<Longrightarrow> nodes node \<le> n \<Longrightarrow> distinct (addresses node) \<Longrightarrow> set (addresses node) \<inter> active = {} \<Longrightarrow>
   normalizeYAMLNode lookup room active node n = Inr (erase node, n - nodes node)"
proof (induction room arbitrary: active node n)
  case (Suc room)
  let ?f = "normalizeYAMLNode lookup room (insert (address node) active)"
  have n: "n \<noteq> 0" using Suc.prems(3) by (cases node) auto
  have a: "address node \<notin> active" "address node \<notin> set (tl (addresses node))"
    using Suc.prems(4,5) address_head [of node] by (metis disjoint_iff list.set_intros(1), metis distinct.simps(2))
  have child: "?f x k = Inr (erase x, k - nodes x)"
    if "plain x" "fits room x" "nodes x \<le> k" "distinct (addresses x)" "set (addresses x) \<subseteq> set (tl (addresses node))" for x k
  proof (rule Suc.IH [OF that(1-4)])
    have "set (tl (addresses node)) \<inter> active = {}" using Suc.prems(5) address_head [of node] by (metis disjoint_iff list.set_intros(2))
    then show "set (addresses x) \<inter> insert (address node) active = {}" using that(5) a(2) by blast
  qed
  show ?case
  proof (cases node)
    case (YScalar b tag v line)
    then show ?thesis using n a(1) by simp
  next
    case (YMapping b tag line kvs)
    have d: "distinct (concat (map (\<lambda>kv. addresses (fst kv) @ addresses (snd kv)) kvs))"
      using Suc.prems(4) YMapping by (simp add: map_concat comp_def)
    have tl: "set (tl (addresses node)) = (\<Union>kv \<in> set kvs. set (addresses (fst kv)) \<union> set (addresses (snd kv)))"
      using YMapping by auto
    have pair: "normalize_pair ?f kv k = Inr ((erase (fst kv), erase (snd kv)), k - pair_nodes kv)"
      if "kv \<in> set kvs" "pair_nodes kv \<le> k" for kv k
    proof -
      have "distinct (addresses (fst kv) @ addresses (snd kv))" by (rule distinct_concat_member [OF d that(1)])
      then have dd: "distinct (addresses (fst kv))" "distinct (addresses (snd kv))" by simp_all
      have p: "plain (fst kv)" "plain (snd kv)" "fits room (fst kv)" "fits room (snd kv)"
        using that(1) Suc.prems(1,2) YMapping by (auto simp: list_all_iff)
      have sub: "set (addresses (fst kv)) \<subseteq> set (tl (addresses node))" "set (addresses (snd kv)) \<subseteq> set (tl (addresses node))"
        unfolding tl using that(1) by auto
      have "nodes (fst kv) \<le> k" "nodes (snd kv) \<le> k - nodes (fst kv)" using that(2) by simp_all
      then show ?thesis
        using child [OF p(1,3) _ dd(1) sub(1)] child [OF p(2,4) _ dd(2) sub(2)] by (simp add: normalize_pair_def)
    qed
    have none: "filter (\<lambda>kv. isYAMLMergeKey (fst kv)) kvs = []" "filter (\<lambda>kv. \<not> isYAMLMergeKey (fst kv)) kvs = kvs"
      using Suc.prems(1) YMapping by (auto simp: list_all_iff filter_empty_conv filter_id_conv)
    have "thread (normalize_pair ?f) kvs (n - 1) = Inr (map (\<lambda>kv. (erase (fst kv), erase (snd kv))) kvs, n - 1 - (\<Sum>kv \<leftarrow> kvs. pair_nodes kv))"
      by (rule thread_exact [OF pair]) (use Suc.prems(3) YMapping in auto)
    then have "normalizeYAMLMapping ?f kvs (n - 1) = Inr (map (\<lambda>kv. (erase (fst kv), erase (snd kv))) kvs, n - nodes node)"
      using none YMapping by (simp add: normalizeYAMLMapping_def)
    then show ?thesis using n a(1) YMapping by (simp add: Let_def map_prod_def case_prod_beta)
  next
    case (YSequence b tag line xs)
    have d: "distinct (concat (map addresses xs))" using Suc.prems(4) YSequence by (simp add: map_concat comp_def)
    have "?f x k = Inr (erase x, k - nodes x)" if "x \<in> set xs" "nodes x \<le> k" for x k
      using child [of x k] that distinct_concat_member [OF d that(1)] Suc.prems(1,2) YSequence by (auto simp: list_all_iff)
    then have "thread ?f xs (n - 1) = Inr (map erase xs, n - 1 - (\<Sum>x \<leftarrow> xs. nodes x))"
      by (rule thread_exact) (use Suc.prems(3) YSequence in auto)
    then show ?thesis using n a(1) YSequence by (simp add: Let_def)
  qed (use Suc.prems in simp)
qed simp

section \<open>Unique keys\<close>

abbreviation key_ids :: "'a ypairs \<Rightarrow> string list" where
  "key_ids kvs \<equiv> map (\<lambda>kv. yamlKeyIdentity (fst kv)) kvs"

fun unique_keys :: "'a ynode \<Rightarrow> bool" where
  "unique_keys (YMapping a tag line kvs) =
     (list_all (\<lambda>kv. is_scalar (fst kv)) kvs \<and> distinct (key_ids kvs) \<and> list_all (\<lambda>kv. unique_keys (snd kv)) kvs)"
| "unique_keys (YSequence a tag line xs) = list_all unique_keys xs"
| "unique_keys _ = True"

lemma check_keys_None:
  "check_keys seen keys = None \<longleftrightarrow> list_all is_scalar keys \<and> distinct (map yamlKeyIdentity keys) \<and> yamlKeyIdentity ` set keys \<inter> seen = {}"
  by (induction seen keys rule: check_keys.induct) auto

lemma validate_pending_None: "validate_pending pending = None \<longleftrightarrow> list_all unique_keys pending"
  by (induction pending rule: validate_pending.induct)
    (auto simp: check_keys_None and_then_None list_all_iff comp_def)

lemma validate_None: "validateLaunchYAML node = None \<longleftrightarrow> unique_keys node"
  by (simp add: validateLaunchYAML_def validate_pending_None)

section \<open>Merging\<close>

definition kv_lookup :: "'a ypairs \<Rightarrow> string \<Rightarrow> 'a ynode option" where
  "kv_lookup kvs i = map_of (map (\<lambda>kv. (yamlKeyIdentity (fst kv), snd kv)) kvs) i"

fun merge_nodes :: "'a ynode \<Rightarrow> 'a ynode \<Rightarrow> 'a ynode" where
  "merge_nodes (YMapping a tag line d) (YMapping a' tag' line' s) = YMapping a tag line (mergeYAMLMapping d s)"
| "merge_nodes _ v = v"

text \<open>One entry of the source; the key stays when mappings are merged.\<close>

definition merge_entry :: "'a ypairs \<Rightarrow> 'a ynode \<times> 'a ynode \<Rightarrow> 'a ypairs" where
  "merge_entry dst kv =
     (case key_index dst (yamlKeyIdentity (fst kv)) of
        None \<Rightarrow> dst @ [kv]
      | Some j \<Rightarrow>
          dst[j := (if is_mapping (snd (dst ! j)) \<and> is_mapping (snd kv) then fst (dst ! j) else fst kv, merge_nodes (snd (dst ! j)) (snd kv))])"

lemma merge_Cons: "mergeYAMLMapping dst (kv # src) = mergeYAMLMapping (merge_entry dst kv) src"
proof -
  obtain k v where kv: "kv = (k, v)" by (cases kv)
  show ?thesis
    unfolding kv mergeYAMLMapping.simps(2) merge_entry_def
    by (rule arg_cong [where f = "\<lambda>d. mergeYAMLMapping d src"]) (auto split: option.splits ynode.splits)
qed

declare mergeYAMLMapping.simps(2) [simp del] merge_Cons [simp]

lemma key_index_None: "key_index dst i = None \<longleftrightarrow> i \<notin> set (key_ids dst)"
proof -
  have "key_index dst i = None \<longleftrightarrow> filter (\<lambda>j. yamlKeyIdentity (fst (dst ! j)) = i) (rev [0..<length dst]) = []"
    by (cases "filter (\<lambda>j. yamlKeyIdentity (fst (dst ! j)) = i) (rev [0..<length dst])") (auto simp: key_index_def)
  also have "\<dots> \<longleftrightarrow> (\<forall>j < length (key_ids dst). key_ids dst ! j \<noteq> i)" by (auto simp: filter_empty_conv)
  finally show ?thesis by (auto simp only: in_set_conv_nth)
qed

lemma key_index_Some: 
  assumes "key_index dst i = Some j" shows "j < length dst \<and> yamlKeyIdentity (fst (dst ! j)) = i"
proof -
  obtain js where "filter (\<lambda>j. yamlKeyIdentity (fst (dst ! j)) = i) (rev [0..<length dst]) = j # js"
    using assms by (auto simp: key_index_def split: list.splits)
  then have "j \<in> set (filter (\<lambda>j. yamlKeyIdentity (fst (dst ! j)) = i) (rev [0..<length dst]))" by simp
  then show ?thesis by simp
qed

lemma merge_entry_ids:
  "key_ids (merge_entry dst kv) = (if yamlKeyIdentity (fst kv) \<in> set (key_ids dst) then key_ids dst else key_ids dst @ [yamlKeyIdentity (fst kv)])"
proof (cases "key_index dst (yamlKeyIdentity (fst kv))")
  case (Some j)
  note j = key_index_Some [OF Some]
  have "yamlKeyIdentity (fst kv) \<in> set (key_ids dst)" using Some key_index_None [of dst "yamlKeyIdentity (fst kv)"] by auto
  moreover have "key_ids dst ! j = yamlKeyIdentity (fst kv)" using j by simp
  then have "(key_ids dst)[j := yamlKeyIdentity (fst kv)] = key_ids dst" by (metis list_update_id)
  ultimately show ?thesis using Some j by (simp add: merge_entry_def map_update)
next
  case None
  then have "yamlKeyIdentity (fst kv) \<notin> set (key_ids dst)" using key_index_None by blast
  then show ?thesis using None by (simp add: merge_entry_def)
qed

lemma merge_ids_distinct: "distinct (key_ids dst) \<Longrightarrow> distinct (key_ids (mergeYAMLMapping dst src))"
proof (induction src arbitrary: dst)
  case (Cons kv src)
  have "distinct (key_ids (merge_entry dst kv))" using Cons.prems by (simp add: merge_entry_ids)
  then show ?case using Cons.IH by simp
qed simp

lemma lookup_index:
  assumes "distinct (key_ids dst)" "j < length dst" shows "kv_lookup dst (yamlKeyIdentity (fst (dst ! j))) = Some (snd (dst ! j))"
proof -
  have "dst ! j \<in> set dst" using assms(2) by simp
  then have "(yamlKeyIdentity (fst (dst ! j)), snd (dst ! j)) \<in> set (map (\<lambda>kv. (yamlKeyIdentity (fst kv), snd kv)) dst)" by force
  then show ?thesis using assms(1) unfolding kv_lookup_def by (intro map_of_is_SomeI) (simp_all add: comp_def)
qed

lemma lookup_Cons: "kv_lookup (kv # kvs) i = (if i = yamlKeyIdentity (fst kv) then Some (snd kv) else kv_lookup kvs i)"
  by (simp add: kv_lookup_def)

lemma lookup_update:
  "distinct (key_ids dst) \<Longrightarrow> j < length dst \<Longrightarrow> yamlKeyIdentity (fst (dst ! j)) = yamlKeyIdentity k \<Longrightarrow>
   kv_lookup (dst[j := (k, v)]) i = (if i = yamlKeyIdentity k then Some v else kv_lookup dst i)"
proof (induction dst arbitrary: j)
  case (Cons kv dst)
  show ?case
  proof (cases j)
    case 0
    then show ?thesis using Cons.prems by (simp add: lookup_Cons)
  next
    case (Suc m)
    then have m: "m < length dst" "yamlKeyIdentity (fst (dst ! m)) = yamlKeyIdentity k" using Cons.prems by simp_all
    then have "yamlKeyIdentity k \<in> set (key_ids dst)" by (metis length_map nth_map nth_mem)
    moreover have "yamlKeyIdentity (fst kv) \<notin> set (key_ids dst)" using Cons.prems(1) by simp
    ultimately have "yamlKeyIdentity k \<noteq> yamlKeyIdentity (fst kv)" by metis
    then show ?thesis using Cons.IH [OF _ m] Cons.prems(1) Suc by (auto simp: lookup_Cons)
  qed
qed simp

lemma lookup_None: "kv_lookup dst i = None \<longleftrightarrow> i \<notin> set (key_ids dst)"
  by (auto simp: kv_lookup_def map_of_eq_None_iff image_image)

definition merged_value :: "'a ynode option \<Rightarrow> 'a ynode \<Rightarrow> 'a ynode" where
  "merged_value old v = (case old of None \<Rightarrow> v | Some o' \<Rightarrow> merge_nodes o' v)"

lemma merge_entry_lookup:
  assumes "distinct (key_ids dst)"
  shows "kv_lookup (merge_entry dst kv) i =
    (if i = yamlKeyIdentity (fst kv) then Some (merged_value (kv_lookup dst i) (snd kv)) else kv_lookup dst i)"
proof (cases "key_index dst (yamlKeyIdentity (fst kv))")
  case None
  then have "kv_lookup dst (yamlKeyIdentity (fst kv)) = None" by (simp add: key_index_None lookup_None)
  then show ?thesis using None by (auto simp: merge_entry_def kv_lookup_def merged_value_def map_add_def split: option.splits)
next
  case (Some j)
  note j = key_index_Some [OF Some]
  have "kv_lookup dst (yamlKeyIdentity (fst kv)) = Some (snd (dst ! j))" using lookup_index [OF assms conjunct1 [OF j]] j by simp
  then show ?thesis
    using Some lookup_update [OF assms conjunct1 [OF j]] j by (auto simp: merge_entry_def merged_value_def)
qed

text \<open>What a merge holds under a key.\<close>

lemma merge_lookup:
  "distinct (key_ids dst) \<Longrightarrow> distinct (key_ids src) \<Longrightarrow>
   kv_lookup (mergeYAMLMapping dst src) i =
     (case kv_lookup src i of None \<Rightarrow> kv_lookup dst i | Some v \<Rightarrow> Some (merged_value (kv_lookup dst i) v))"
proof (induction src arbitrary: dst)
  case (Cons kv src)
  have d: "distinct (key_ids (merge_entry dst kv))" using Cons.prems by (simp add: merge_entry_ids)
  have new: "kv_lookup src (yamlKeyIdentity (fst kv)) = None" using Cons.prems(2) by (simp add: lookup_None)
  have "kv_lookup (kv # src) i = (if i = yamlKeyIdentity (fst kv) then Some (snd kv) else kv_lookup src i)"
    by (simp add: kv_lookup_def)
  then show ?case
    using Cons.IH [OF d] Cons.prems(2) merge_entry_lookup [OF Cons.prems(1), of kv] new by (auto split: option.splits)
qed (simp add: kv_lookup_def)

section \<open>Unique keys and the schema under merging\<close>

lemma merge_entry_mem:
  assumes "x \<in> set (merge_entry dst kv)"
  obtains "x \<in> set dst" | "x = kv"
  | a tag line d s a' tag' line' k where "(k, YMapping a tag line d) \<in> set dst" "yamlKeyIdentity k = yamlKeyIdentity (fst kv)"
      "snd kv = YMapping a' tag' line' s" "x = (k, YMapping a tag line (mergeYAMLMapping d s))"
proof (cases "key_index dst (yamlKeyIdentity (fst kv))")
  case None
  then show ?thesis using assms that(1,2) by (auto simp: merge_entry_def)
next
  case (Some j)
  note j = key_index_Some [OF Some]
  have mem: "dst ! j \<in> set dst" using j by simp
  obtain k v where kv: "dst ! j = (k, v)" by (cases "dst ! j")
  have "x \<in> set dst \<or> x = (if is_mapping v \<and> is_mapping (snd kv) then k else fst kv, merge_nodes v (snd kv))"
    using assms Some kv by (auto simp: merge_entry_def dest!: set_update_subset_insert [THEN subsetD] simp del: set_update_subset_insert)
  then show ?thesis
  proof
    assume x: "x = (if is_mapping v \<and> is_mapping (snd kv) then k else fst kv, merge_nodes v (snd kv))"
    show ?thesis
    proof (cases "is_mapping v \<and> is_mapping (snd kv)")
      case True
      then obtain a tag line d a' tag' line' s where "v = YMapping a tag line d" "snd kv = YMapping a' tag' line' s"
        by (cases v; cases "snd kv") auto
      then show ?thesis using that(3) [of k a tag line d a' tag' line' s] mem kv j x by simp
    next
      case False
      then have "x = kv" using x by (cases v; cases "snd kv"; cases kv) auto
      then show ?thesis by (rule that(2))
    qed
  qed (rule that(1))
qed

text \<open>Predicates of entries that a merge of the values keeps are kept by a merge.\<close>

lemma merge_keeps:
  assumes "\<And>kv. kv \<in> set src \<Longrightarrow> P kv" "\<And>kv. kv \<in> set dst \<Longrightarrow> P kv"
    and "\<And>k a tag line d k' a' tag' line' s. (k', YMapping a' tag' line' s) \<in> set src \<Longrightarrow> P (k, YMapping a tag line d) \<Longrightarrow>
      P (k', YMapping a' tag' line' s) \<Longrightarrow> yamlKeyIdentity k = yamlKeyIdentity k' \<Longrightarrow> P (k, YMapping a tag line (mergeYAMLMapping d s))"
    and "x \<in> set (mergeYAMLMapping dst src)"
  shows "P x"
  using assms
proof (induction src arbitrary: dst)
  case (Cons kv src)
  have entry: "P y" if "y \<in> set (merge_entry dst kv)" for y
    using that
  proof (cases rule: merge_entry_mem)
    case (3 a tag line d s a' tag' line' k)
    have "P (fst kv, YMapping a' tag' line' s)" using Cons.prems(1) [of kv] 3(3) by (metis list.set_intros(1) prod.collapse)
    moreover have "(fst kv, YMapping a' tag' line' s) \<in> set (kv # src)" using 3(3) by (metis list.set_intros(1) prod.collapse)
    ultimately show ?thesis using Cons.prems(2) 3 Cons.prems(3) by metis
  qed (use Cons.prems in auto)
  show ?case
  proof (rule Cons.IH [of "merge_entry dst kv"])
    fix k a tag line d k' a' tag' line' s
    assume "(k', YMapping a' tag' line' s) \<in> set src" "P (k, YMapping a tag line d)" "P (k', YMapping a' tag' line' s)"
      "yamlKeyIdentity k = yamlKeyIdentity k'"
    then show "P (k, YMapping a tag line (mergeYAMLMapping d s))" by (intro Cons.prems(3)) auto
  qed (use Cons.prems entry in auto)
qed simp

lemma merge_unique:
  "unique_keys (YMapping (a :: 'x) tag line d) \<Longrightarrow> unique_keys (YMapping a' tag' line' s) \<Longrightarrow> unique_keys (YMapping a tag line (mergeYAMLMapping d s))"
proof (induction "YMapping a' tag' line' s" arbitrary: a tag line d a' tag' line' s rule: measure_induct_rule [where f = size])
  case (less s d)
  let ?P = "\<lambda>kv. is_scalar (fst kv) \<and> unique_keys (snd kv)"
  have "?P x" if "x \<in> set (mergeYAMLMapping d s)" for x
  proof (rule merge_keeps [OF _ _ _ that, where P = ?P])
    fix k k' :: "'x ynode" and a a' :: 'x and tag tag' line line' and d s' :: "'x ypairs"
    assume m: "(k', YMapping a' tag' line' s') \<in> set s" "?P (k, YMapping a tag line d)" "?P (k', YMapping a' tag' line' s')"
    have "size (YMapping a' tag' line' s') < Suc (size_list (size_prod size size) s)" by (rule size_pair [OF m(1)])
    then show "?P (k, YMapping a tag line (mergeYAMLMapping d s'))"
      using less.hyps [of a' tag' line' s' a tag line d] m by simp
  qed (use less.prems in \<open>auto simp: list_all_iff\<close>)
  moreover have "distinct (key_ids (mergeYAMLMapping d s))" using less.prems by (intro merge_ids_distinct) simp
  ultimately show ?case by (auto simp: list_all_iff)
qed

definition conforms :: "yaml_package \<Rightarrow> unit ynode \<Rightarrow> go_type \<Rightarrow> bool" where
  "conforms y node target \<longleftrightarrow> validatePartialLaunchSchema y node target = None"

fun entry_ok :: "yaml_package \<Rightarrow> go_type \<Rightarrow> unit ynode \<times> unit ynode \<Rightarrow> bool" where
  "entry_ok y (GoStruct fs) kv =
     (case map_of (yamlStructFields (GoStruct fs)) (node_value (fst kv)) of None \<Rightarrow> False | Some t \<Rightarrow> conforms y (snd kv) t)"
| "entry_ok y (GoMap kt et) kv = (validateYAMLScalar y (fst kv) kt = None \<and> conforms y (snd kv) et)"
| "entry_ok y GoInterface kv = True"
| "entry_ok y _ kv = False"

lemma conforms_mapping:
  "conforms y (YMapping a tag line kvs) target \<longleftrightarrow>
     (case strip_pointers target of GoSlice t \<Rightarrow> False | GoScalar k \<Rightarrow> False | t \<Rightarrow> list_all (entry_ok y t) kvs)"
proof -
  have "strip_pointers t \<noteq> GoPointer u" for t u by (induction t rule: strip_pointers.induct) auto
  then show ?thesis
    unfolding conforms_def validatePartialLaunchSchema.simps [of y "YMapping a tag line kvs" target]
    by (cases "strip_pointers target")
      (auto simp: each_None and_then_None list_all_iff validateYAMLScalar_def conforms_def split: option.splits)
qed

lemma identity_value: "NUL \<notin> set (node_tag k) \<Longrightarrow> NUL \<notin> set (node_tag k') \<Longrightarrow> yamlKeyIdentity k = yamlKeyIdentity k' \<Longrightarrow> node_value k = node_value k'"
proof -
  assume a: "NUL \<notin> set (node_tag k)" "NUL \<notin> set (node_tag k')" "yamlKeyIdentity k = yamlKeyIdentity k'"
  have "dropWhile (\<lambda>c. c \<noteq> NUL) (yamlKeyIdentity n) = NUL # node_value n" if "NUL \<notin> set (node_tag n)" for n :: "'x ynode"
    unfolding yamlKeyIdentity_def using that by (subst dropWhile_append2) auto
  then show ?thesis using a by (metis list.inject)
qed

lemma no_nul_tag: "no_nul node \<Longrightarrow> NUL \<notin> set (node_tag node)"
  by (cases node) auto

lemma merge_conforms:
  "no_nul (YMapping a tag line d) \<Longrightarrow> no_nul (YMapping a' tag' line' s) \<Longrightarrow> conforms y (YMapping a tag line d) target \<Longrightarrow>
   conforms y (YMapping a' tag' line' s) target \<Longrightarrow>
   no_nul (YMapping a tag line (mergeYAMLMapping d s)) \<and> conforms y (YMapping a tag line (mergeYAMLMapping d s)) target"
proof (induction "YMapping a' tag' line' s" arbitrary: a tag line d a' tag' line' s target rule: measure_induct_rule [where f = size])
  case (less s d)
  let ?P = "\<lambda>kv. no_nul (fst kv) \<and> no_nul (snd kv) \<and> entry_ok y (strip_pointers target) kv"
  have "?P x" if "x \<in> set (mergeYAMLMapping d s)" for x
  proof (rule merge_keeps [OF _ _ _ that, where P = ?P])
    fix k k' :: "unit ynode" and a a' :: unit and tag tag' line line' and d s' :: "unit ypairs"
    assume m: "(k', YMapping a' tag' line' s') \<in> set s" "?P (k, YMapping a tag line d)" "?P (k', YMapping a' tag' line' s')"
      "yamlKeyIdentity k = yamlKeyIdentity k'"
    have size: "size (YMapping a' tag' line' s') < Suc (size_list (size_prod size size) s)" by (rule size_pair [OF m(1)])
    have val: "node_value k = node_value k'" using identity_value [OF _ _ m(4)] m(2,3) no_nul_tag by auto
    have IH: "conforms y (YMapping a tag line d) t \<Longrightarrow> conforms y (YMapping a' tag' line' s') t \<Longrightarrow>
        no_nul (YMapping a tag line (mergeYAMLMapping d s')) \<and> conforms y (YMapping a tag line (mergeYAMLMapping d s')) t" for t
      using less.hyps [of a' tag' line' s' a tag line d t] size m by simp
    show "?P (k, YMapping a tag line (mergeYAMLMapping d s'))"
    proof (cases "strip_pointers target")
      case (GoStruct fs)
      then obtain t where t: "map_of (yamlStructFields (GoStruct fs)) (node_value k') = Some t"
        using m(3) by (auto simp del: yamlStructFields.simps split: option.splits)
      then show ?thesis using IH [of t] m(2,3) val GoStruct by (simp del: yamlStructFields.simps no_nul.simps)
    next
      case (GoMap kt et)
      then show ?thesis using IH [of et] m(2,3) by (simp del: no_nul.simps)
    next
      case GoInterface
      have "list_all (entry_ok y GoInterface) xs" for xs by (induction xs) auto
      then show ?thesis using IH [of GoInterface] m(2,3) GoInterface by (simp add: conforms_mapping del: no_nul.simps)
    qed (use m(2) in auto)
  qed (use less.prems in \<open>auto simp: list_all_iff conforms_mapping split: go_type.splits\<close>)
  then show ?case using less.prems by (auto simp: list_all_iff conforms_mapping split: go_type.splits)
qed

end
