(* ===== verification/Config_Set_Properties.thy ===== *)
theory Config_Set_Properties
  imports Config_Yaml_Proofs
begin

text \<open>
  Properties of project configuration sets: normalisation is bounded and leaves plain documents
  alone, merging follows its lookup law, and a set that loads has only valid sources, in order,
  and a valid merge.
\<close>

section \<open>Sources\<close>

lemma subnodes_no_nul: "no_nul root \<Longrightarrow> x \<in> set (subnodes root) \<Longrightarrow> no_nul x"
  by (induction root rule: subnodes.induct) (fastforce simp: list_all_iff)+

lemma alias_target_mem: "alias_target root a = Some x \<Longrightarrow> x \<in> set (subnodes root)"
  by (auto simp: alias_target_def find_Some_iff)

definition clean_source :: "source_data \<Rightarrow> bool" where
  "clean_source data = (case sdParsed data of Root root \<Rightarrow> no_nul root | _ \<Rightarrow> True)"

lemma parse_spec:
  assumes "parseLaunchSource y data = Inr (Some t)"
  shows "is_mapping t" "unique_keys t" "conforms y t launchSchemaType" "clean_source data \<Longrightarrow> no_nul t"
    "nodes t \<le> nodeLimit (sdLength data)" "fits yamlNormalizationMaxDepth t"
proof -
  obtain root n where r: "sdParsed data = Root root" "is_mapping root"
      "normalizeYAMLNode (alias_target root) yamlNormalizationMaxDepth {} root (nodeLimit (sdLength data)) = Inr (t, n)"
      "validateLaunchYAML t = None" "validatePartialLaunchSchema y t launchSchemaType = None"
    using assms
    by (auto simp: parseLaunchSource_def launchSourceMapping_def normalizeLaunchYAML_def attempt_Inr require_Inr
        split: yaml_parse.splits option.splits if_splits)
  note s = normalize_spec [OF r(3)]
  show "unique_keys t" "conforms y t launchSchemaType" using r(4,5) by (simp_all add: validate_None conforms_def)
  show "nodes t \<le> nodeLimit (sdLength data)" "fits yamlNormalizationMaxDepth t" using s by auto
  show "no_nul t" if "clean_source data" using s that r(1) subnodes_no_nul alias_target_mem by (fastforce simp: clean_source_def)
  show "is_mapping t"
    using r(2,3) by (cases root) (auto simp: yamlNormalizationMaxDepth_def numeral_eq_Suc Let_def attempt_Inr split: if_splits)
qed

definition merged_ok :: "yaml_package \<Rightarrow> unit ynode \<Rightarrow> bool" where
  "merged_ok y t \<longleftrightarrow> is_mapping t \<and> unique_keys t \<and> no_nul t \<and> conforms y t launchSchemaType"

lemma merge_into_ok: "merged_ok y t \<Longrightarrow> case m of None \<Rightarrow> True | Some u \<Rightarrow> merged_ok y u \<Longrightarrow> merged_ok y (merge_into m t)"
proof (cases m)
  case (Some u)
  assume t: "merged_ok y t" and m: "case m of None \<Rightarrow> True | Some u \<Rightarrow> merged_ok y u"
  then obtain a tag line d a' tag' line' s where "u = YMapping a tag line d" "t = YMapping a' tag' line' s"
    using Some by (cases u; cases t) (auto simp: merged_ok_def)
  then show ?thesis
    using t m Some merge_unique [of a tag line d a' tag' line' s] merge_conforms [of a tag line d a' tag' line' s y launchSchemaType]
    by (simp add: merged_ok_def del: no_nul.simps unique_keys.simps)
qed simp

section \<open>The sources of a project\<close>

text \<open>The files that are read, in order.\<close>

definition fragment_files :: "fragments_dir \<Rightarrow> rooted_file list" where
  "fragment_files fd =
     (if fdStat fd = StatMissing then []
      else case fdEntries fd of
        None \<Rightarrow> []
      | Some entries \<Rightarrow> map deFile (filter (\<lambda>entry. Ext (deName entry) = ''.yaml'') (sort_key deName entries)))"

definition project_sources :: "project_files \<Rightarrow> rooted_file list" where
  "project_sources pf = pfBase pf # fragment_files (pfFragments pf)"

definition source_of_file :: "rooted_file \<Rightarrow> source_data option" where
  "source_of_file r = (case readRootedRegularFile '''' r of Inl e \<Rightarrow> None | Inr d \<Rightarrow> Some d)"

lemma read_path: "readRootedRegularFile path r = Inr d \<Longrightarrow> source_of_file r = Some d"
  by (auto simp: source_of_file_def readRootedRegularFile_def require_Inr fail_if_None split: file_stat.splits option.splits)

abbreviation merge_step :: "unit ynode option \<Rightarrow> unit ynode option \<Rightarrow> unit ynode option" where
  "merge_step m t \<equiv> (case t of None \<Rightarrow> m | Some t \<Rightarrow> Some (merge_into m t))"

text \<open>Sources that all read and parse, and their merge.\<close>

definition all_parse :: "yaml_package \<Rightarrow> rooted_file list \<Rightarrow> unit ynode option list \<Rightarrow> bool" where
  "all_parse y files ts = list_all2 (\<lambda>r t. \<exists>d. source_of_file r = Some d \<and> parseLaunchSource y d = Inr t) files ts"

lemma fragments_loop_spec:
  "fragments_loop y dir entries m = (ws, Inr m') \<Longrightarrow>
     \<exists>ts. all_parse y (map deFile (filter (\<lambda>entry. Ext (deName entry) = ''.yaml'') entries)) ts \<and> m' = foldl merge_step m ts"
proof (induction entries arbitrary: m ws)
  case Nil
  then show ?case by (auto simp: all_parse_def intro!: exI [of _ "[]"])
next
  case (Cons entry entries)
  show ?case
  proof (cases "Ext (deName entry) = ''.yaml''")
    case False
    then obtain ws' where "fragments_loop y dir entries m = (ws', Inr m')" using Cons.prems by (auto simp: Let_def split: prod.splits)
    from Cons.IH [OF this] show ?thesis using False by simp
  next
    case True
    then obtain d t where r: "readRootedRegularFile (Joins [dir, deName entry]) (deFile entry) = Inr d" "parseLaunchSource y d = Inr t"
        "fragments_loop y dir entries (merge_step m t) = (ws, Inr m')"
      using Cons.prems by (auto simp: Let_def decodeLaunchSource_def attempt_def split: sum.splits option.splits)
    obtain ts where "all_parse y (map deFile (filter (\<lambda>entry. Ext (deName entry) = ''.yaml'') entries)) ts" "m' = foldl merge_step (merge_step m t) ts"
      using Cons.IH [OF r(3)] by blast
    then show ?thesis using True r(2) read_path [OF r(1)] by (intro exI [of _ "t # ts"]) (simp add: all_parse_def)
  qed
qed

lemma project_node_spec:
  assumes "project_node y projectRoot pf = (ws, Inr merged)"
  shows "\<exists>ts. all_parse y (project_sources pf) ts \<and> merged = foldl merge_step None ts"
proof -
  obtain d t where b: "readRootedRegularFile (Joins [Joins [projectRoot, ''.toby''], ''config.yaml'']) (pfBase pf) = Inr d" "parseLaunchSource y d = Inr t"
      "mergeProjectFragments y (Joins [projectRoot, ''.toby'']) (pfFragments pf) (merge_step None t) = (ws, Inr merged)"
    using assms
    by (auto simp: project_node_def Let_def decodeLaunchSource_def require_def attempt_def split: if_splits sum.splits option.splits)
  have "\<exists>ts. all_parse y (fragment_files (pfFragments pf)) ts \<and> merged = foldl merge_step (merge_step None t) ts"
    using b(3) fragments_loop_spec
    by (fastforce simp: mergeProjectFragments_def Let_def fragment_files_def all_parse_def intro: exI [of _ "[]"]
        split: file_stat.splits if_splits option.splits)
  then obtain ts where "all_parse y (fragment_files (pfFragments pf)) ts" "merged = foldl merge_step (merge_step None t) ts" by blast
  then show ?thesis using b(2) read_path [OF b(1)] by (cases t; intro exI [of _ "t # ts"]) (simp_all add: all_parse_def project_sources_def)
qed

lemma merged_sources_ok:
  "all_parse y files ts \<Longrightarrow> list_all (\<lambda>r. case source_of_file r of None \<Rightarrow> True | Some d \<Rightarrow> clean_source d) files \<Longrightarrow>
   case m of None \<Rightarrow> True | Some u \<Rightarrow> merged_ok y u \<Longrightarrow>
   case foldl merge_step m ts of None \<Rightarrow> True | Some u \<Rightarrow> merged_ok y u"
proof (induction ts arbitrary: files m)
  case (Cons t ts)
  obtain r rs d where f: "files = r # rs" "source_of_file r = Some d" "parseLaunchSource y d = Inr t" "all_parse y rs ts"
    using Cons.prems(1) by (auto simp: all_parse_def list_all2_Cons2)
  have "case merge_step m t of None \<Rightarrow> True | Some u \<Rightarrow> merged_ok y u"
  proof (cases t)
    case (Some u)
    then have "merged_ok y u" using parse_spec [of y d u] f Cons.prems(2) by (simp add: merged_ok_def)
    then show ?thesis using merge_into_ok [OF _ Cons.prems(3)] Some by simp
  qed (use Cons.prems(3) in simp)
  then show ?case using Cons.IH [OF f(4)] Cons.prems(2) f(1) by simp
qed simp

section \<open>Properties\<close>

text \<open>
  C10. Normalising a source of \<open>n\<close> bytes gives a tree of at most \<open>256 + 16 n\<close> nodes or the hard
  limit of 100000, whichever the limit is, and of depth at most 100, however aliases and merge keys
  expand: alias bombs are errors.
\<close>

theorem normalization_bounded:
  assumes "normalizeLaunchYAML lookup node sourceBytes = Inr t"
  shows "fits 100 t \<and> nodes t \<le> 100000 \<and> (sourceBytes < 6234 \<longrightarrow> nodes t \<le> 256 + 16 * sourceBytes)"
proof -
  obtain n where "normalizeYAMLNode lookup yamlNormalizationMaxDepth {} node (nodeLimit sourceBytes) = Inr (t, n)"
    using assms by (auto simp: normalizeLaunchYAML_def attempt_Inr)
  from normalize_spec [OF this] show ?thesis
    by (auto simp: nodeLimit_def yamlNormalizationMaxDepth_def yamlNormalizationMaxNodes_def yamlNormalizationBaseNodes_def
        yamlNormalizationNodesPerByte_def split: if_splits)
qed

text \<open>An alias to a list, and a mapping that merges another.\<close>

definition ex_list :: "nat ynode" where
  "ex_list = YSequence 2 ''!!seq'' 1 [YScalar 3 ''!!str'' ''x'' 1]"

definition ex_document :: "nat ynode" where
  "ex_document = YMapping 0 ''!!map'' 1 [(YScalar 1 ''!!str'' ''a'' 1, ex_list), (YScalar 4 ''!!str'' ''b'' 2, YAlias 5 2 (Some 2))]"

definition ex_tree :: "unit ynode" where
  "ex_tree = YMapping () ''!!map'' 1
     [(YScalar () ''!!str'' ''a'' 1, YSequence () ''!!seq'' 1 [YScalar () ''!!str'' ''x'' 1]),
      (YScalar () ''!!str'' ''b'' 2, YSequence () ''!!seq'' 1 [YScalar () ''!!str'' ''x'' 1])]"

lemma ex_target: "alias_target ex_document 2 = Some ex_list"
  by (simp add: alias_target_def ex_document_def ex_list_def)

lemma ex_walk:
  "normalizeYAMLNode (alias_target ex_document) (Suc (Suc (Suc (Suc r)))) {} ex_document (Suc (Suc (Suc (Suc (Suc (Suc (Suc (Suc n)))))))) =
     Inr (ex_tree, n)"
  using ex_target
  by (simp add: ex_document_def ex_list_def ex_tree_def normalizeYAMLMapping_def normalize_pair_def isYAMLMergeKey_def Let_def)

lemma ex_normalized: "normalizeLaunchYAML (alias_target ex_document) ex_document 10 = Inr ex_tree"
  using ex_walk [of 96 408]
  by (simp add: normalizeLaunchYAML_def yamlNormalizationMaxDepth_def nodeLimit_def yamlNormalizationMaxNodes_def
      yamlNormalizationBaseNodes_def yamlNormalizationNodesPerByte_def)

theorem normalization_bounded_witness: "nodes ex_tree \<le> 416"
  using normalization_bounded [OF ex_normalized] by simp

text \<open>
  A document without aliases and merge keys that fits the budget is normalised to itself.
\<close>

theorem normalization_plain:
  assumes "plain node" "fits yamlNormalizationMaxDepth node" "nodes node \<le> nodeLimit sourceBytes" "distinct (addresses node)"
  shows "normalizeLaunchYAML lookup node sourceBytes = Inr (erase node)"
  using normalize_plain [OF assms, of "{}" lookup] by (simp add: normalizeLaunchYAML_def)

theorem normalization_plain_witness:
  "normalizeLaunchYAML (\<lambda>a. None) ex_list 0 = Inr (YSequence () ''!!seq'' 1 [YScalar () ''!!str'' ''x'' 1])"
proof -
  have "fits (Suc (Suc 98)) ex_list" unfolding ex_list_def by (simp only: fits.simps list.pred_inject)
  then have "fits yamlNormalizationMaxDepth ex_list" by (simp add: yamlNormalizationMaxDepth_def)
  then show ?thesis
    using normalization_plain [of ex_list 0 "\<lambda>a. None"]
    by (simp add: ex_list_def nodeLimit_def yamlNormalizationMaxNodes_def yamlNormalizationBaseNodes_def yamlNormalizationNodesPerByte_def)
qed

text \<open>
  C38. Merging two mappings with unique keys: under a key of both, mappings are merged and
  otherwise the later value is taken; under a key of one, its value; keys stay unique.
\<close>

theorem yaml_merge_lookup:
  assumes "unique_keys (YMapping a tag line d)" "unique_keys (YMapping a' tag' line' s)"
  shows "kv_lookup (mergeYAMLMapping d s) i =
      (case (kv_lookup d i, kv_lookup s i) of
         (old, None) \<Rightarrow> old
       | (Some (YMapping b t l d'), Some (YMapping b' t' l' s')) \<Rightarrow> Some (YMapping b t l (mergeYAMLMapping d' s'))
       | (_, Some v) \<Rightarrow> Some v) \<and>
    unique_keys (YMapping a tag line (mergeYAMLMapping d s))"
  using merge_lookup [of d s i] merge_unique [OF assms] assms
  by (auto simp: merged_value_def split: option.splits ynode.splits)

theorem yaml_merge_lookup_witness:
  "kv_lookup (mergeYAMLMapping (pairs_of ex_tree) [(YScalar () ''!!str'' ''a'' 9, YScalar () ''!!str'' ''y'' 9)]) (''!!str'' @ NUL # ''a'') =
     Some (YScalar () ''!!str'' ''y'' 9)"
proof -
  have "unique_keys ex_tree" by (simp add: ex_tree_def yamlKeyIdentity_def)
  then show ?thesis
    using yaml_merge_lookup [of "()" "''!!map''" 1 "pairs_of ex_tree" "()" "''!!map''" 1 "[(YScalar () ''!!str'' ''a'' 9, YScalar () ''!!str'' ''y'' 9)]" "''!!str'' @ NUL # ''a''"]
    by (simp add: ex_tree_def kv_lookup_def yamlKeyIdentity_def)
qed

text \<open>
  C9. A project configuration set that loads: every file, the base and each \<open>.yaml\<close> fragment, was
  read and is valid by itself, so that no later fragment hides an error of an earlier one; what
  they merge to, in the order of their names, has unique keys and conforms to the launch schema.
\<close>

theorem project_sources_checked:
  assumes "snd (project_node y projectRoot pf) = Inr merged"
    and "list_all (\<lambda>r. case source_of_file r of None \<Rightarrow> True | Some d \<Rightarrow> clean_source d) (project_sources pf)"
  shows "\<exists>ts. all_parse y (project_sources pf) ts \<and> merged = foldl merge_step None ts \<and>
    (case merged of None \<Rightarrow> True | Some t \<Rightarrow>
       is_mapping t \<and> validateLaunchYAML t = None \<and> validatePartialLaunchSchema y t launchSchemaType = None)"
proof -
  obtain ws where "project_node y projectRoot pf = (ws, Inr merged)" using assms(1) by (cases "project_node y projectRoot pf") auto
  then obtain ts where ts: "all_parse y (project_sources pf) ts" "merged = foldl merge_step None ts" using project_node_spec by blast
  have "case merged of None \<Rightarrow> True | Some u \<Rightarrow> merged_ok y u" using merged_sources_ok [OF ts(1) assms(2), of None] ts(2) by simp
  then show ?thesis using ts by (intro exI [of _ ts]) (auto simp: merged_ok_def validate_None conforms_def split: option.splits)
qed

text \<open>A project with a base file that names the launch, and no fragments.\<close>

definition ex_package :: yaml_package where
  "ex_package = \<lparr>yamlNull = (\<lambda>node. False), yamlDecodes = (\<lambda>kind node. True)\<rparr>"

definition ex_base :: source_data where
  "ex_base = \<lparr>sdLength = 8, sdParsed = Root (YMapping 0 ''!!map'' 1 [(YScalar 1 ''!!str'' ''name'' 1, YScalar 2 ''!!str'' ''a'' 1)])\<rparr>"

definition ex_node :: "unit ynode" where
  "ex_node = YMapping () ''!!map'' 1 [(YScalar () ''!!str'' ''name'' 1, YScalar () ''!!str'' ''a'' 1)]"

definition ex_project :: project_files where
  "ex_project =
     \<lparr>pfRootOpens = True, pfDirStat = StatInfo False True False 1,
      pfConfigDir = \<lparr>rtBefore = StatInfo False True False 1, rtOpens = True, rtAfter = StatInfo False True False 1\<rparr>,
      pfMarker = StatInfo False False True 2,
      pfBase = \<lparr>rtBefore = StatInfo False False True 2, rtOpens = True, rtAfter = StatInfo False False True 2, rfData = Some ex_base\<rparr>,
      pfFragments = \<lparr>fdStat = StatMissing, fdRooted = \<lparr>rtBefore = StatMissing, rtOpens = False, rtAfter = StatMissing\<rparr>, fdEntries = None\<rparr>\<rparr>"

lemma ex_fields: "map_of (yamlStructFields launchSchemaType) ''name'' = Some (GoScalar ''string'')"
  by code_simp

lemma ex_node_valid: "validatePartialLaunchSchema ex_package ex_node launchSchemaType = None"
proof -
  have "strip_pointers launchSchemaType = launchSchemaType" by (simp add: launchSchemaType_def)
  then have "conforms ex_package ex_node launchSchemaType"
    using ex_fields unfolding ex_node_def conforms_mapping
    by (simp add: launchSchemaType_def conforms_def validatePartialLaunchSchema.simps ex_package_def validateYAMLScalar_def
        del: yamlStructFields.simps)
  then show ?thesis by (simp add: conforms_def)
qed

lemma ex_base_parse: "parseLaunchSource ex_package ex_base = Inr (Some ex_node)"
proof -
  let ?root = "YMapping 0 ''!!map'' 1 [(YScalar 1 ''!!str'' ''name'' 1, YScalar 2 ''!!str'' ''a'' 1)] :: nat ynode"
  have "fits (Suc (Suc 98)) ?root" by (simp only: fits.simps list.pred_inject fst_conv snd_conv simp_thms)
  then have "normalizeLaunchYAML (alias_target ?root) ?root 8 = Inr ex_node"
    using normalize_plain [of ?root 100 384 "{}" "alias_target ?root"]
    by (simp add: normalizeLaunchYAML_def yamlNormalizationMaxDepth_def nodeLimit_def yamlNormalizationMaxNodes_def
        yamlNormalizationBaseNodes_def yamlNormalizationNodesPerByte_def isYAMLMergeKey_def ex_node_def)
  moreover have "validateLaunchYAML ?root = None" "validateLaunchYAML ex_node = None"
    by (simp_all add: validate_None ex_node_def)
  ultimately show ?thesis using ex_node_valid by (simp add: parseLaunchSource_def ex_base_def launchSourceMapping_def)
qed

lemma ex_project_node: "snd (project_node ex_package ''/p'' ex_project) = Inr (Some ex_node)"
  using ex_base_parse
  by (simp add: project_node_def ex_project_def openRootedDirectory_def readRootedRegularFile_def decodeLaunchSource_def
      mergeProjectFragments_def Let_def)

theorem project_sources_checked_witness:
  "validateLaunchYAML ex_node = None \<and> validatePartialLaunchSchema ex_package ex_node launchSchemaType = None"
  using project_sources_checked [OF ex_project_node]
  by (auto simp: project_sources_def fragment_files_def ex_project_def source_of_file_def readRootedRegularFile_def clean_source_def ex_base_def)

end
