(* ===== verification/Config_App_Properties.thy ===== *)
theory Config_App_Properties
  imports Config_App
begin

text \<open>
  Properties of the host configuration: what the merged map of the source files holds, which
  permission path wins, that a loaded sandbox source is valid and stays valid under overrides, and
  how overrides show in what a launch reads.
\<close>

section \<open>Merging the sources\<close>

definition source_maps :: "(string \<Rightarrow> source_file) \<Rightarrow> string list \<Rightarrow> entries list" where
  "source_maps source_at paths = concat (map (\<lambda>path. case source_at path of SourceMap m \<Rightarrow> [m] | _ \<Rightarrow> []) paths)"

abbreviation file_instructions :: "entries list \<Rightarrow> json list" where
  "file_instructions maps \<equiv> concat (map (list_at ''instructions'') maps)"

abbreviation file_suppressions :: "entries list \<Rightarrow> json list" where
  "file_suppressions maps \<equiv> concat (map (\<lambda>m. list_at ''suppressWarnings'' (object_at ''settings'' m)) maps)"

lemma load_sources_spec:
  "load_sources source_at paths (m, ins, sups) = Inr st \<Longrightarrow>
     st = (foldl Merge m (source_maps source_at paths), ins @ file_instructions (source_maps source_at paths),
           sups @ file_suppressions (source_maps source_at paths))"
proof (induction paths arbitrary: m ins sups)
  case (Cons path paths)
  show ?case
  proof (cases "source_at path")
    case (SourceMap m')
    then show ?thesis
      using Cons.IH [of "Merge m m'" "ins @ list_at ''instructions'' m'" "sups @ list_at ''suppressWarnings'' (object_at ''settings'' m')"]
        Cons.prems by (simp add: source_maps_def)
  qed (use Cons in \<open>auto simp: source_maps_def\<close>)
qed (simp add: source_maps_def)





lemma obj_delete_absent: "map_of m k = None \<Longrightarrow> obj_delete k m = m"
  by (force simp: obj_delete_def filter_id_conv map_of_eq_None_iff)

lemma Load_cases:
  assumes "Load decode cwd source_at dir home = Inr s"
  obtains maps merged schema where "maps = source_maps source_at (map (\<lambda>name. Joins [dir, name]) sourceFiles)"
    "merged = union_lists (foldl Merge [] maps, file_instructions maps, file_suppressions maps)"
    "DecodeInto decode (obj_delete ''resources'' merged) = Inr schema"
    "resolve cwd schema dir home = Inr (svcConfig s, svcPending s)" "svcResources s = object_at ''resources'' merged"
    "SandboxConfig_Validate (appSandbox (svcConfig s)) = None" "svcDir s = dir" "svcHome s = home"
proof -
  let ?paths = "map (\<lambda>name. Joins [dir, name]) sourceFiles"
  obtain st where st: "load_sources source_at ?paths ([], [], []) = Inr st"
    using assms by (auto simp: Load_def attempt_Inr)
  define maps where "maps = source_maps source_at ?paths"
  define merged where "merged = union_lists (foldl Merge [] maps, file_instructions maps, file_suppressions maps)"
  have u: "union_lists st = merged" using load_sources_spec [OF st] by (simp add: merged_def maps_def)
  have "\<exists>schema. DecodeInto decode (obj_delete ''resources'' merged) = Inr schema \<and>
      resolve cwd schema dir home = Inr (svcConfig s, svcPending s) \<and> svcResources s = object_at ''resources'' merged \<and>
      SandboxConfig_Validate (appSandbox (svcConfig s)) = None \<and> svcDir s = dir \<and> svcHome s = home"
  proof (cases "map_of merged ''resources''")
    case None
    then show ?thesis
      using assms u by (auto simp: Load_def st attempt_Inr require_Inr obj_delete_absent object_at_def)
  next
    case (Some r)
    then show ?thesis
      using assms u by (cases r) (auto simp: Load_def st attempt_Inr require_Inr object_at_def)
  qed
  then show ?thesis using that [OF maps_def merged_def] by blast
qed

section \<open>Permission paths\<close>

definition valid_mode :: "string \<Rightarrow> bool" where
  "valid_mode mode \<longleftrightarrow> TrimSpace mode \<in> {''allow'', ''deny''}"

lemma resolve_paths_spec:
  "resolve_paths home ps (paths, pending) = (paths', pending') \<Longrightarrow>
     map_of paths' = map_of paths ++ map_of (rev (map (\<lambda>(p, m). (ExpandHostHome p home, TrimSpace m)) (filter (\<lambda>(p, m). valid_mode m) ps))) \<and>
     pending' = pending @ map (\<lambda>(p, m). warn ''permission.path-invalid'' [p, TrimSpace m]) (filter (\<lambda>(p, m). \<not> valid_mode m) ps)"
proof (induction ps arbitrary: paths pending)
  case (Cons e ps)
  obtain p m where e: "e = (p, m)" by (cases e)
  show ?case
  proof (cases "valid_mode m")
    case True
    then have "resolve_paths home ps (AList.update (ExpandHostHome p home) (TrimSpace m) paths, pending) = (paths', pending')"
      using Cons.prems by (auto simp: e valid_mode_def Let_def)
    from Cons.IH [OF this] show ?thesis using True by (auto simp: e map_of_update map_add_def fun_eq_iff split: option.splits)
  next
    case False
    then have "resolve_paths home ps (paths, pending @ [warn ''permission.path-invalid'' [p, TrimSpace m]]) = (paths', pending')"
      using Cons.prems by (auto simp: e valid_mode_def Let_def)
    from Cons.IH [OF this] show ?thesis using False by (simp add: e)
  qed
qed simp

section \<open>Sandbox sources\<close>

lemma leading_trimmed: "leading encs (trim_left encs s) = 0"
  by (induction encs s rule: trim_left.induct) (subst trim_left.simps, auto)

lemma trim_left_id: "leading encs s = 0 \<Longrightarrow> trim_left encs s = s"
  by (subst trim_left.simps) simp

lemma leading_zero: "leading encs s = 0 \<longleftrightarrow> (\<forall>e \<in> set encs. e \<noteq> [] \<longrightarrow> \<not> prefix e s)"
proof
  assume z: "leading encs s = 0"
  show "\<forall>e \<in> set encs. e \<noteq> [] \<longrightarrow> \<not> prefix e s"
  proof (rule ccontr)
    assume "\<not> ?thesis"
    then have "filter (\<lambda>e. e \<noteq> [] \<and> prefix e s) encs \<noteq> []" by (auto simp: filter_empty_conv)
    then obtain e es where f: "filter (\<lambda>e. e \<noteq> [] \<and> prefix e s) encs = e # es" by (cases "filter (\<lambda>e. e \<noteq> [] \<and> prefix e s) encs") auto
    then have "e \<in> set (filter (\<lambda>e. e \<noteq> [] \<and> prefix e s) encs)" by simp
    then have "e \<noteq> []" by simp
    then show False using z f by (simp add: leading_def)
  qed
next
  assume "\<forall>e \<in> set encs. e \<noteq> [] \<longrightarrow> \<not> prefix e s"
  then have "filter (\<lambda>e. e \<noteq> [] \<and> prefix e s) encs = []" by (auto simp: filter_empty_conv)
  then show "leading encs s = 0" by (simp add: leading_def)
qed

lemma trim_left_suffix: "suffix (trim_left encs s) s"
proof (induction encs s rule: trim_left.induct)
  case (1 encs s)
  then show ?case
    by (subst trim_left.simps) (auto intro: suffix_order.trans [OF _ suffix_drop])
qed

lemma TrimSpace_idem: "TrimSpace (TrimSpace s) = TrimSpace s"
proof -
  define encs :: "string list" where "encs = map (map char_of) space_encodings"
  define a where "a = trim_left encs s"
  define b where "b = trim_left (map rev encs) (rev a)"
  have T: "TrimSpace s = rev b" by (simp add: TrimSpace_def encs_def a_def b_def)
  have "suffix b (rev a)" by (simp add: b_def trim_left_suffix)
  then have "prefix (rev b) a" by (simp add: suffix_to_prefix)
  moreover have "leading encs a = 0" by (simp add: a_def leading_trimmed)
  ultimately have "leading encs (rev b) = 0" by (auto simp: leading_zero dest: prefix_order.trans)
  then have "trim_left encs (rev b) = rev b" by (rule trim_left_id)
  moreover have "trim_left (map rev encs) b = b" by (rule trim_left_id) (simp add: b_def leading_trimmed)
  ultimately have "TrimSpace (rev b) = rev b" by (simp add: TrimSpace_def encs_def)
  then show ?thesis by (simp add: T)
qed

lemma Clean_nonempty: "Clean s \<noteq> ''''"
  by (simp add: Clean_def Let_def)

lemma resolveSandboxPath_nonempty: "resolveSandboxPath cwd val dir home = Some p \<Longrightarrow> p \<noteq> ''''"
  by (auto simp: resolveSandboxPath_def Let_def Clean_nonempty split: if_splits)

abbreviation known_pull :: "string \<Rightarrow> bool" where
  "known_pull pull \<equiv> pull \<in> {PullIfMissing, PullAlways, PullNever}"

lemma valid_pull: "SandboxConfig_Validate c = None \<Longrightarrow> known_pull pull \<Longrightarrow> SandboxConfig_Validate (c\<lparr>sbPull := pull\<rparr>) = None"
  by (auto simp: SandboxConfig_Validate_def verdict_simps split: if_splits)

lemma default_valid: "SandboxConfig_Validate defaultSandboxConfig = None"
proof -
  have "TrimSpace defaultSandboxImage \<noteq> ''''" by code_simp
  then show ?thesis by (simp add: SandboxConfig_Validate_def defaultSandboxConfig_def no_sandbox_def)
qed

lemma registry_valid:
  "TrimSpace i \<noteq> '''' \<Longrightarrow> known_pull pull \<Longrightarrow> SandboxConfig_Validate (no_sandbox\<lparr>sbSource := SourceRegistry, sbImage := i, sbPull := pull\<rparr>) = None"
  by (auto simp: SandboxConfig_Validate_def no_sandbox_def)

lemma archive_valid:
  "p \<noteq> '''' \<Longrightarrow> SandboxConfig_Validate (no_sandbox\<lparr>sbSource := SourceArchive, sbArchive := p, sbPull := PullIfMissing\<rparr>) = None"
  by (auto simp: SandboxConfig_Validate_def no_sandbox_def)

lemma resolved_source_valid:
  assumes r: "ResolveSandboxSource cwd source dir home base = Inr c"
    and base: "SandboxConfig_Validate base = None \<or> source_count source \<noteq> 0"
    and pull: "\<forall>pull. srcPull source = Some pull \<longrightarrow> known_pull pull"
  shows "SandboxConfig_Validate c = None"
proof -
  obtain c' where c': "c = (case srcPull source of None \<Rightarrow> c' | Some pull \<Rightarrow> c'\<lparr>sbPull := pull\<rparr>)" "SandboxConfig_Validate c' = None"
  proof (cases "TrimSpace (srcImage source) = ''''")
    case False
    then show ?thesis
      using that registry_valid [of "TrimSpace (srcImage source)" PullIfMissing] r
      by (auto simp: ResolveSandboxSource_def Let_def TrimSpace_idem split: if_splits)
  next
    case image: True
    show ?thesis
    proof (cases "TrimSpace (srcArchive source) = ''''")
      case False
      then show ?thesis
        using r image archive_valid [OF resolveSandboxPath_nonempty]
        by (intro that [of "no_sandbox\<lparr>sbSource := SourceArchive, sbArchive := sbArchive c, sbPull := PullIfMissing\<rparr>"])
          (auto simp: ResolveSandboxSource_def Let_def attempt_Inr split: if_splits option.splits)
    next
      case archive: True
      show ?thesis
      proof (cases "srcBuild source")
        case None
        then show ?thesis using that r image archive base by (auto simp: ResolveSandboxSource_def Let_def source_count_def)
      next
        case (Some b)
        then obtain b' where b': "resolveSandboxBuild cwd b dir home = Inr b'"
            "c = (case srcPull source of None \<Rightarrow> no_sandbox\<lparr>sbSource := SourceBuild, sbBuild := b', sbPull := PullIfMissing\<rparr>
              | Some pull \<Rightarrow> no_sandbox\<lparr>sbSource := SourceBuild, sbBuild := b', sbPull := pull\<rparr>)"
          using r image archive by (auto simp: ResolveSandboxSource_def Let_def attempt_Inr split: if_splits option.splits)
        have "buildContext b' \<noteq> '''' \<and> buildDockerfile b' \<noteq> ''''"
          using b'(1) resolveSandboxPath_nonempty
          by (auto simp: resolveSandboxBuild_def Let_def Clean_nonempty split: option.splits if_splits)
        then show ?thesis using that b'(2)
          by (intro that [of "no_sandbox\<lparr>sbSource := SourceBuild, sbBuild := b', sbPull := PullIfMissing\<rparr>"])
            (auto simp: SandboxConfig_Validate_def no_sandbox_def split: option.splits)
      qed
    qed
  qed
  then show ?thesis using valid_pull pull by (auto split: option.splits)
qed

text \<open>Overrides that name a valid sandbox, an image and a known pull policy.\<close>

definition overrides_ok :: "launch_overrides \<Rightarrow> bool" where
  "overrides_ok ov \<longleftrightarrow>
     (case ovSandbox ov of None \<Rightarrow> True | Some c \<Rightarrow> SandboxConfig_Validate c = None) \<and>
     (ovImage ov = '''' \<or> TrimSpace (ovImage ov) \<noteq> '''') \<and> (ovPull ov = '''' \<or> known_pull (ovPull ov))"

lemma override_sandbox_valid:
  assumes "SandboxConfig_Validate base = None" "overrides_ok ov"
  shows "SandboxConfig_Validate (override_sandbox base ov) = None"
proof -
  define c where "c = (case ovSandbox ov of None \<Rightarrow> base | Some c \<Rightarrow> c)"
  have c: "SandboxConfig_Validate c = None" using assms by (auto simp: c_def overrides_ok_def split: option.splits)
  then have pull: "known_pull (sbPull c)" by (auto simp: SandboxConfig_Validate_def verdict_simps)
  define d where "d = (if ovImage ov \<noteq> '''' then no_sandbox\<lparr>sbSource := SourceRegistry, sbImage := ovImage ov,
      sbPull := (if sbSource c = SourceRegistry then sbPull c else PullIfMissing)\<rparr> else c)"
  have "SandboxConfig_Validate d = None"
    using c pull assms(2) by (auto simp: d_def overrides_ok_def intro!: registry_valid)
  then have "SandboxConfig_Validate (if ovPull ov \<noteq> '''' then d\<lparr>sbPull := ovPull ov\<rparr> else d) = None"
    using assms(2) valid_pull by (auto simp: overrides_ok_def)
  then show ?thesis unfolding override_sandbox_def Let_def c_def [symmetric] d_def [symmetric] .
qed

section \<open>Reading an overridden service\<close>

lemma map_of_rev_distinct: "distinct (map fst al) \<Longrightarrow> map_of (rev al) k = map_of al k"
  by (rule option.expand [of "map_of (rev al) k" "map_of al k"])
    (auto simp: map_of_eq_None_iff distinct_map_of_iff rev_map [symmetric] dest!: option.collapse [THEN sym])

lemma fold_update_lookup:
  "map_of (fold (\<lambda>(k, v) al. AList.update k v al) xs al) k = (case map_of (rev xs) k of None \<Rightarrow> map_of al k | Some v \<Rightarrow> Some v)"
  by (induction xs arbitrary: al) (auto simp: update_conv' map_add_def split: option.splits)

lemma PermissionPaths_lookup:
  assumes "distinct (map fst (appPaths (svcConfig s)))"
  shows "map_of (PermissionPaths s) p =
    (case map_of (appPaths (svcConfig s)) p of
       Some m \<Rightarrow> Some m
     | None \<Rightarrow> if p = ''/tmp'' \<or> p = ''/'' \<and> enabled (setYolo (appSettings (svcConfig s))) then Some ''allow'' else None)"
proof -
  have "map_of (rev (appPaths (svcConfig s))) = map_of (appPaths (svcConfig s))" using assms by (auto simp: fun_eq_iff map_of_rev_distinct)
  then show ?thesis
    by (auto simp: PermissionPaths_def fold_update_lookup defaultPermissionPaths_def split: option.splits)
qed

section \<open>Properties\<close>


definition ex_map :: entries where
  "ex_map = [(''instructions'', JArray [JString ''a'', JString ''a''])]"

lemma app_words [simp]: "TrimSpace '''' = ''''"
  by code_simp

lemma ex_load:
  "Load (\<lambda>m. Some empty_schema) cwd (\<lambda>path. SourceMap ex_map) dir home =
     Inr \<lparr>svcDir = dir, svcHome = home, svcConfig = emptyConfig, svcResources = [], svcPending = []\<rparr>"
  by (simp add: Load_def sourceFiles_def ex_map_def list_at_def object_at_def union_lists_def DecodeInto_def Let_def
      empty_schema_def resolve_def settings_resolve_def WarnUnknown_def ResolveSandboxSource_def source_count_def
      default_valid emptyConfig_def)


text \<open>
  A loaded configuration has a valid sandbox source, and folding the overrides of a launch in
  keeps it valid: whatever combination of a source, an image and a pull policy the launch names.
\<close>

theorem sandbox_stays_valid:
  assumes "Load decode cwd source_at dir home = Inr s" "overrides_ok ov"
  shows "SandboxConfig_Validate (appSandbox (svcConfig (WithOverrides s ov))) = None"
proof -
  have "SandboxConfig_Validate (appSandbox (svcConfig s)) = None" using assms(1) by (rule Load_cases)
  then show ?thesis using override_sandbox_valid [OF _ assms(2)] by (simp add: WithOverrides_def)
qed

definition ex_overrides :: launch_overrides where
  "ex_overrides = \<lparr>ovProfile = ''work'', ovToolProfiles = [], ovSandbox = Some (no_sandbox\<lparr>sbSource := SourceArchive, sbArchive := ''/a.tar'', sbPull := PullNever\<rparr>),
     ovImage = ''alpine'', ovPull = '''', ovDebug = None, ovYolo = Some True, ovSuppress = no_suppression\<rparr>"

lemma ex_overrides_ok: "overrides_ok ex_overrides"
proof -
  have "TrimSpace ''alpine'' \<noteq> ''''" by code_simp
  then show ?thesis by (simp add: overrides_ok_def ex_overrides_def SandboxConfig_Validate_def no_sandbox_def)
qed

theorem sandbox_stays_valid_witness:
  "SandboxConfig_Validate (no_sandbox\<lparr>sbSource := SourceRegistry, sbImage := ''alpine'', sbPull := PullIfMissing\<rparr>) = None"
  using sandbox_stays_valid [OF ex_load ex_overrides_ok]
  by (simp add: WithOverrides_def override_sandbox_def ex_overrides_def emptyConfig_def no_sandbox_def)

text \<open>
  Resolving permission paths: an expanded path has the mode of the last entry iterated whose
  mode is \<open>allow\<close> or \<open>deny\<close>, and every other entry is one warning. When no two valid entries
  expand to the same path, the order of the map does not show in the result.
\<close>

definition valid_paths :: "string \<Rightarrow> (string \<times> string) list \<Rightarrow> (string \<times> string) list" where
  "valid_paths home ps = map (\<lambda>(p, m). (ExpandHostHome p home, TrimSpace m)) (filter (\<lambda>(p, m). valid_mode m) ps)"

lemma resolved_paths:
  "map_of (fst (resolve_paths home ps ([], []))) = map_of (rev (valid_paths home ps))"
  "snd (resolve_paths home ps ([], [])) = map (\<lambda>(p, m). warn ''permission.path-invalid'' [p, TrimSpace m]) (filter (\<lambda>(p, m). \<not> valid_mode m) ps)"
  using resolve_paths_spec [of home ps "[]" "[]"] by (auto simp: valid_paths_def prod_eq_iff)

theorem permission_paths_resolved:
  assumes "mset qs = mset ps"
  shows "map_of (fst (resolve_paths home ps ([], []))) p = map_of (rev (valid_paths home ps)) p \<and>
    snd (resolve_paths home ps ([], [])) =
      map (\<lambda>(p, m). warn ''permission.path-invalid'' [p, TrimSpace m]) (filter (\<lambda>(p, m). \<not> valid_mode m) ps) \<and>
    (if distinct (map fst (valid_paths home ps))
     then map_of (fst (resolve_paths home qs ([], []))) p = map_of (fst (resolve_paths home ps ([], []))) p else True)"
proof -
  have m: "mset (valid_paths home qs) = mset (valid_paths home ps)" by (simp add: valid_paths_def assms mset_filter)
  have "map_of (rev (valid_paths home qs)) p = map_of (rev (valid_paths home ps)) p"
    if d: "distinct (map fst (valid_paths home ps))"
  proof -
    have "mset (map fst (valid_paths home qs)) = mset (map fst (valid_paths home ps))" using m by (metis mset_map)
    then have d': "distinct (map fst (valid_paths home qs))" using d mset_eq_imp_distinct_iff by blast
    have "set (valid_paths home qs) = set (valid_paths home ps)" using m mset_eq_setD by blast
    then show ?thesis
      using map_of_rev_distinct [OF d] map_of_rev_distinct [OF d'] distinct_map_of_iff [OF d] distinct_map_of_iff [OF d']
      by (metis not_None_eq)
  qed
  then show ?thesis by (simp add: resolved_paths)
qed

theorem permission_paths_resolved_witness:
  "map_of (fst (resolve_paths ''/h'' [(''/d'', ''allow''), (''~'', ''deny'')] ([], []))) ''/h'' = Some ''deny''"
proof -
  have "TrimSpace ''deny'' = ''deny''" "TrimSpace ''allow'' = ''allow''" by code_simp+
  then have v: "valid_paths ''/h'' [(''~'', ''deny''), (''/d'', ''allow'')] = [(''/h'', ''deny''), (''/d'', ''allow'')]"
    by (simp add: valid_paths_def valid_mode_def ExpandHostHome_def)
  show ?thesis
    using permission_paths_resolved [of "[(''/d'', ''allow''), (''~'', ''deny'')]" "[(''~'', ''deny''), (''/d'', ''allow'')]" "''/h''" "''/h''"]
    unfolding v by simp
qed

text \<open>Two entries that expand to one path: the order of the map decides.\<close>

theorem permission_paths_collide:
  "ExpandHostHome a home = ExpandHostHome b home \<Longrightarrow> valid_mode m \<Longrightarrow> valid_mode n \<Longrightarrow> TrimSpace m \<noteq> TrimSpace n \<Longrightarrow>
   map_of (fst (resolve_paths home [(a, m), (b, n)] ([], []))) (ExpandHostHome a home) \<noteq>
   map_of (fst (resolve_paths home [(b, n), (a, m)] ([], []))) (ExpandHostHome a home)"
  unfolding resolved_paths by (simp add: valid_paths_def)

text \<open>
  What a launch reads of an overridden service: a path the user configured keeps its mode,
  \<open>/tmp\<close> and, under yolo, the root are allowed by default; yolo is the override's if it has one;
  warnings suppressed by either are suppressed; a profile that is not blank replaces the base.
\<close>

theorem overridden_launch:
  assumes "distinct (map fst (appPaths (svcConfig s)))"
  shows "let t = WithOverrides s ov; yolo = enabled (case ovYolo ov of None \<Rightarrow> setYolo (appSettings (svcConfig s)) | Some y \<Rightarrow> Some y)
    in map_of (PermissionPaths t) p =
        (case map_of (appPaths (svcConfig s)) p of
           Some m \<Rightarrow> Some m
         | None \<Rightarrow> if p = ''/tmp'' \<or> p = ''/'' \<and> yolo then Some ''allow'' else None) \<and>
      (Suppresses (setSuppress (appSettings (svcConfig t))) w \<longleftrightarrow>
        Suppresses (setSuppress (appSettings (svcConfig s))) w \<or>
        supSet (ovSuppress ov) \<and> (supAll (ovSuppress ov) \<or> (w, True) \<in> set (supIDs (ovSuppress ov)))) \<and>
      Profile t = (if TrimSpace (ovProfile ov) \<noteq> '''' then TrimSpace (ovProfile ov) else Profile s) \<and>
      configured_rule t action = configured_rule s action"
  using PermissionPaths_lookup [of "WithOverrides s ov" p] assms
  by (simp add: Let_def WithOverrides_def override_settings_def Suppresses_merge Profile_def TrimSpace_idem configured_rule_def
      split: option.splits)

definition ex_app_service :: app_service where
  "ex_app_service = \<lparr>svcDir = ''/c'', svcHome = ''/h'', svcConfig = emptyConfig\<lparr>appPaths := [(''/tmp'', ''deny'')]\<rparr>, svcResources = [], svcPending = []\<rparr>"

theorem overridden_launch_witness:
  "map_of (PermissionPaths (WithOverrides ex_app_service ex_overrides)) ''/'' = Some ''allow'' \<and>
   map_of (PermissionPaths (WithOverrides ex_app_service ex_overrides)) ''/tmp'' = Some ''deny''"
  using overridden_launch [of ex_app_service ex_overrides "''/''"] overridden_launch [of ex_app_service ex_overrides "''/tmp''"]
  by (simp add: Let_def ex_app_service_def emptyConfig_def ex_overrides_def enabled_def)

end
