(* ===== verification/Config_Launch_Properties.thy ===== *)
theory Config_Launch_Properties
  imports Config_Launch Config_App_Properties Tools_Properties
begin

text \<open>
  Properties of launch configurations: a launch from a file has one primary project and only
  registered tools; overlaying a file on a command line follows the precedence of command line,
  file and host configuration; a project found on the command line lies inside the project root.
\<close>

section \<open>Resolving lists\<close>

lemma resolve_all_Inr: "resolve_all f xs = Inr ys \<longleftrightarrow> list_all2 (\<lambda>x y. f x = Inr y) xs ys"
  by (induction xs arbitrary: ys) (auto simp: attempt_Inr list_all2_Cons1)

lemma resolveLaunchProject_label: "resolveLaunchProject home_dir p label name dir paths = Inr j \<Longrightarrow> ljLabel j = label"
  by (auto simp: resolveLaunchProject_def Let_def split: if_splits option.splits)

lemma resolveLaunchProjects_labels:
  assumes "resolveLaunchProjects home_dir raw dir paths = Inr js"
  shows "map ljLabel js = map (\<lambda>n. ''projects.'' @ n) (map fst (sort_key fst raw))"
proof -
  have "list_all2 (\<lambda>(name, p) j. ljLabel j = ''projects.'' @ name) (sort_key fst raw) js"
    using assms unfolding resolveLaunchProjects_def resolve_all_Inr
    by (rule list_all2_mono) (auto dest: resolveLaunchProject_label)
  then show ?thesis by (induction rule: list_all2_induct) auto
qed

lemma distinct_labels:
  assumes "resolveLaunchProjects home_dir raw dir paths = Inr js" "distinct (map fst raw)"
  shows "distinct (map ljLabel js)"
proof -
  have "mset (map fst (sort_key fst raw)) = mset (map fst raw)" by simp
  then have "distinct (map fst (sort_key fst raw))" using assms(2) mset_eq_imp_distinct_iff by blast
  then show ?thesis
    unfolding resolveLaunchProjects_labels [OF assms(1)] by (simp add: distinct_map inj_on_def)
qed

section \<open>Primary project\<close>

lemma primary_mem: "primaryConfiguredProject js = Inr j \<Longrightarrow> j \<in> set js"
  by (auto simp: primaryConfiguredProject_def split: if_splits list.splits dest: filter_eq_ConsD)

lemma ordered_mounts_perm:
  assumes "distinct (map ljLabel js)" "j \<in> set js"
  shows "mset (orderedProjectMounts js j) = mset (map ljMount js)"
proof -
  have "mset (filter (\<lambda>k. ljLabel k \<noteq> ljLabel j) js) + {#j#} = mset js"
    using assms
  proof (induction js)
    case (Cons a js)
    show ?case
    proof (cases "a = j")
      case True
      then have "filter (\<lambda>k. ljLabel k \<noteq> ljLabel j) js = js" using Cons.prems(1) by (auto simp: filter_id_conv) (metis imageI)
      then show ?thesis using True by simp
    next
      case False
      then have "ljLabel a \<noteq> ljLabel j" using Cons.prems by auto
      then show ?thesis using Cons False by simp
    qed
  qed simp
  then have "mset (map ljMount js) = mset (map ljMount (filter (\<lambda>k. ljLabel k \<noteq> ljLabel j) js)) + {#ljMount j#}"
    by (metis image_mset_add_mset image_mset_empty image_mset_union mset_map union_mset_add_mset_right add.right_neutral)
  then show ?thesis by (simp add: orderedProjectMounts_def)
qed

section \<open>Tools\<close>

text \<open>A registry whose tools are registered under their own names.\<close>

definition own_names :: "tool_registry \<Rightarrow> bool" where
  "own_names registry \<longleftrightarrow> list_all (\<lambda>(n, t). toolName t = n) (regTools registry)"

lemma own_names_Get: "own_names registry \<Longrightarrow> Get_tool registry n = Some t \<Longrightarrow> toolName t = n"
  by (auto simp: own_names_def Get_tool_def list_all_iff dest!: map_of_in_set)

lemma resolveConfiguredTool_registered:
  assumes "own_names registry" "resolveConfiguredTool registry name = Inr n"
  shows "\<exists>t. Get_tool registry n = Some t \<and> (n = name \<or> CommandName t = name \<and> Get_tool registry name = None)"
proof (cases "Get_tool registry name")
  case None
  then obtain item rest where f: "filter (\<lambda>item. CommandName item = name) (List.map_filter (Get_tool registry) (ToolNames registry)) = item # rest"
      "n = toolName item"
    using assms(2) by (auto simp: resolveConfiguredTool_def split: list.splits)
  then have "item \<in> set (filter (\<lambda>item. CommandName item = name) (List.map_filter (Get_tool registry) (ToolNames registry)))" by simp
  then obtain m where "Get_tool registry m = Some item" "CommandName item = name"
    by (auto simp: List.map_filter_def)
  then show ?thesis using own_names_Get [OF assms(1)] f(2) None by auto
qed (use assms(2) in \<open>auto simp: resolveConfiguredTool_def\<close>)

lemma registry_own_names: "NewToolRegistry ts = Inr registry \<Longrightarrow> own_names registry"
  by (auto simp: own_names_def list_all_iff NewToolRegistry_ok(4))

section \<open>Overrides\<close>







lemma configured_tools_registered:
  assumes "own_names registry" "resolveConfiguredTools registry configured = Inr names"
  shows "list_all (\<lambda>n. Get_tool registry n \<noteq> None) names"
proof -
  have "list_all2 (\<lambda>item n. Get_tool registry n \<noteq> None) configured names"
    using assms(2) unfolding resolveConfiguredTools_def resolve_all_Inr
    by (rule list_all2_mono) (use resolveConfiguredTool_registered [OF assms(1)] in blast)
  then show ?thesis by (induction rule: list_all2_induct) auto
qed

lemma primary_tool_shape:
  assumes "resolvePrimaryConfiguredTool registry configured = Inr (n, primary)"
  shows "primary \<in> set configured" "resolveConfiguredTool registry (ltName primary) = Inr n"
    "item \<in> set configured \<Longrightarrow> ltParams item = [] \<or> ltLabel item = ltLabel primary"
  using assms
  by (auto simp: resolvePrimaryConfiguredTool_def attempt_Inr require_Inr each_None fail_if_None
      split: if_splits list.splits dest: filter_eq_ConsD)

lemma BuildOverlay_loaded:
  assumes "snd (BuildOverlayConfiguredLaunch registry loaded parsed primary project) = Inr l"
  obtains cfg where "loaded = Inr cfg" "snd (BuildOverlayConfiguredLaunch registry (Inr cfg) parsed primary project) = Inr l"
  using assms by (cases loaded) (auto simp: BuildOverlayConfiguredLaunch_def)

section \<open>An example launch\<close>

definition ex_paths :: host_paths where
  "ex_paths = \<lparr>pathsHome = ''/h'', pathsConfigHome = '''', pathsCacheHome = '''', pathsDataHome = '''', pathsRuntimeDir = '''', pathsProjectRoot = ''/p''\<rparr>"

definition ex_launch_schema :: launch_schema where
  "ex_launch_schema =
     \<lparr>lsName = ''a'', lsSandbox = \<lparr>srcImage = '''', srcArchive = '''', srcBuild = None, srcPull = Some PullNever\<rparr>,
      lsSettings = \<lparr>lssProfile = '''', lssUpgrade = True, lssSuppress = None, lssDebug = None, lssYolo = Some True\<rparr>,
      lsProjects = [(''a'', None)], lsWorkdir = '''',
      lsTools = [(''codex'', Some \<lparr>tsProfile = '''', tsParams = [''-v''], tsPrimary = False\<rparr>)]\<rparr>"

definition ex_launch_config :: launch_config where
  "ex_launch_config =
     \<lparr>lcName = ''a'', lcSandbox = \<lparr>lsbConfig = no_sandbox\<lparr>sbPull := PullNever\<rparr>, lsbSet = False\<rparr>,
      lcSettings = \<lparr>lstProfile = '''', lstUpgrade = True, lstSuppress = no_suppression, lstUnknown = [], lstDebug = None, lstYolo = Some True\<rparr>,
      lcProjects = [\<lparr>ljMount = \<lparr>pmName = ''a'', pmSource = ''/p/a'', pmRequireRoot = True\<rparr>, ljLabel = ''projects.a'', ljPrimary = False\<rparr>],
      lcWorkdir = '''',
      lcTools = [\<lparr>ltName = ''codex'', ltLabel = ''tools.codex'', ltProfile = '''', ltParams = [''-v''], ltPrimary = False\<rparr>]\<rparr>"

lemma ex_trims [simp]: "TrimSpace ''a'' = ''a''" "TrimSpace ''/p'' = ''/p''" "TrimSpace ''codex'' = ''codex''"
  by code_simp+

lemma ex_parse: "parseLaunchConfig cwd home_dir ex_launch_schema dir ex_paths = Inr ex_launch_config"
  by (simp add: parseLaunchConfig_def ex_launch_schema_def ex_paths_def ex_launch_config_def launch_sandbox_resolve_def
      ResolveSandboxSource_def source_count_def launchConfigPaths_def launchConfigHome_def ExpandHostHome_def
      resolveLaunchProjects_def resolveLaunchProject_def joinConfigRelativePath_def resolveLaunchTools_def resolveLaunchTool_def
      launch_settings_resolve_def Let_def suffix_def no_sandbox_def)

lemma ex_codex: "NewToolRegistry example_tools = Inr r \<Longrightarrow> Get_tool r ''codex'' \<noteq> None"
  by (auto simp: Get_tool_def NewToolRegistry_ok(4) example_tools_def)

lemma ex_tools:
  assumes "NewToolRegistry example_tools = Inr r"
  shows "resolveConfiguredTool r ''codex'' = Inr ''codex''"
  using ex_codex [OF assms] by (auto simp: resolveConfiguredTool_def)

definition ex_direct :: direct_launch where
  "ex_direct =
     \<lparr>dlOptions = \<lparr>optEnv = ''a'', optProject = '''', optProjects = [], optWorkdir = '''', optInstall = False, optUpgrade = False, optQuiet = False\<rparr>,
      dlOverrides = ex_overrides, dlExtra = [''x''], dlTools = [''npm'']\<rparr>"

section \<open>Properties\<close>

text \<open>
  A launch from a configuration file alone: its projects are those of the file with the
  primary one first, its tools are registered, the primary tool is one of them, parameters belong
  to the primary tool only and come before the arguments of the command line.
\<close>

theorem file_launch_shape:
  assumes "NewToolRegistry ts = Inr registry" "parseLaunchConfig cwd home_dir schema dir paths = Inr cfg"
    and "distinct (map fst (lsProjects schema))" "snd (BuildConfiguredLaunch registry (Inr cfg) extra) = Inr l"
  shows "\<exists>project \<in> set (lcProjects cfg). \<exists>tool \<in> set (lcTools cfg).
    mset (optProjects (dlOptions l)) = mset (map ljMount (lcProjects cfg)) \<and> hd (optProjects (dlOptions l)) = ljMount project \<and>
    (length (lcProjects cfg) = 1 \<or> filter ljPrimary (lcProjects cfg) = [project]) \<and>
    list_all (\<lambda>n. Get_tool registry n \<noteq> None) (dlTools l) \<and> clPrimary l \<in> set (dlTools l) \<and>
    resolveConfiguredTool registry (ltName tool) = Inr (clPrimary l) \<and> dlExtra l = ltParams tool @ extra \<and>
    list_all (\<lambda>item. ltParams item = [] \<or> ltLabel item = ltLabel tool) (lcTools cfg)"
proof -
  obtain names profiles n tool project where r:
      "resolveConfiguredTools registry (lcTools cfg) = Inr names"
      "resolvePrimaryConfiguredTool registry (lcTools cfg) = Inr (n, tool)"
      "primaryConfiguredProject (lcProjects cfg) = Inr project"
      "l = \<lparr>dlOptions = (commandOptions cfg)\<lparr>optProjects := orderedProjectMounts (lcProjects cfg) project\<rparr>,
            dlOverrides = (overridesFromLaunchConfig cfg)\<lparr>ovToolProfiles := profiles\<rparr>,
            dlExtra = ltParams tool @ extra, dlTools = names, clPrimary = n\<rparr>"
    using assms(4) by (auto simp: BuildConfiguredLaunch_def attempt_Inr split: if_splits)
  obtain dir' paths' where "resolveLaunchProjects home_dir (lsProjects schema) dir' paths' = Inr (lcProjects cfg)"
    using assms(2) by (auto simp: parseLaunchConfig_def Let_def attempt_Inr)
  note labels = distinct_labels [OF this assms(3)]
  note own = registry_own_names [OF assms(1)]
  note tool = primary_tool_shape [OF r(2)]
  have "n \<in> set names"
  proof -
    obtain i where i: "i < length (lcTools cfg)" "lcTools cfg ! i = tool" using tool(1) by (auto simp: in_set_conv_nth)
    then have "names ! i = n" "i < length names"
      using r(1) tool(2) by (auto simp: resolveConfiguredTools_def resolve_all_Inr list_all2_conv_all_nth)
    then show ?thesis by auto
  qed
  moreover have "length (lcProjects cfg) = 1 \<or> filter ljPrimary (lcProjects cfg) = [project]"
    using r(3) by (auto simp: primaryConfiguredProject_def split: if_splits list.splits)
  ultimately show ?thesis
    using ordered_mounts_perm [OF labels primary_mem [OF r(3)]] configured_tools_registered [OF own r(1)] tool
      primary_mem [OF r(3)] r(4)
    by (intro bexI [of _ project] bexI [of _ tool]) (auto simp: orderedProjectMounts_def list_all_iff)
qed

theorem file_launch_shape_witness:
  "\<exists>r l. NewToolRegistry example_tools = Inr r \<and> snd (BuildConfiguredLaunch r (Inr ex_launch_config) [''x'']) = Inr l \<and>
     dlExtra l = [''-v'', ''x''] \<and> dlTools l \<noteq> []"
proof -
  obtain r where r: "NewToolRegistry example_tools = Inr r" using example_registry by blast
  have "\<exists>l. snd (BuildConfiguredLaunch r (Inr ex_launch_config) [''x'']) = Inr l"
    by (simp add: BuildConfiguredLaunch_def ex_launch_config_def resolveConfiguredTools_def ex_tools [OF r] resolveConfiguredToolProfiles_def
        resolvePrimaryConfiguredTool_def primaryConfiguredProject_def)
  then obtain l where l: "snd (BuildConfiguredLaunch r (Inr ex_launch_config) [''x'']) = Inr l" by blast
  have d: "distinct (map fst (lsProjects ex_launch_schema))" by (simp add: ex_launch_schema_def)
  show ?thesis
    using file_launch_shape [OF r ex_parse d l] r l by (auto simp: ex_launch_config_def)
qed


lemma ex_overlay:
  assumes "NewToolRegistry example_tools = Inr r"
  shows "\<exists>l. snd (BuildOverlayConfiguredLaunch r (Inr ex_launch_config) ex_direct ''codex'' m) = Inr l"
  by (simp add: BuildOverlayConfiguredLaunch_def ex_launch_config_def resolveConfiguredTools_def ex_tools [OF assms] resolveConfiguredToolProfiles_def
      configuredParamsForPrimary_def Let_def)




section \<open>Projects from the command line\<close>

text \<open>Resolved links are clean absolute paths.\<close>

definition links_canonical :: "link_host \<Rightarrow> bool" where
  "links_canonical h \<longleftrightarrow> (\<forall>p q. hostLinks h p = LinkResolved q \<longrightarrow> (\<exists>ws. good_elements ws \<and> q = abs_path ws))"

definition ex_links :: link_host where
  "ex_links = \<lparr>hostCwd = None, hostLinks = (\<lambda>p. if p = ''/p/a'' then LinkResolved (abs_path [''p'', ''a'']) else if p = ''/p'' then LinkResolved (abs_path [''p'']) else LinkMissing),
     hostIsDir = (\<lambda>p. True)\<rparr>"

lemma ex_links_canonical: "links_canonical ex_links"
proof -
  have g: "good_elements [''p'', ''a'']" "good_elements [''p'']" by (simp_all add: good_element_def)
  show ?thesis
    unfolding links_canonical_def ex_links_def
    using exI [of "\<lambda>ws. good_elements ws \<and> abs_path [''p'', ''a''] = abs_path ws", OF conjI [OF g(1) refl]]
      exI [of "\<lambda>ws. good_elements ws \<and> abs_path [''p''] = abs_path ws", OF conjI [OF g(2) refl]]
    by (simp split: if_splits)
qed

lemma ex_resolved:
  "ResolveDirectLaunchProject ex_links ex_paths (dlOptions ex_direct) False = Inr \<lparr>pmName = ''a'', pmSource = ''/p/a'', pmRequireRoot = True\<rparr>"
proof -
  have "Joins [''/p'', ''a''] = ''/p/a''" "Clean ''/p/a'' = ''/p/a''" "IsAbs ''/p/a''" "Base ''/p/a'' = ''a''"
      "relativeToProjectRoot None ''/p'' ''/p/a'' = Some ''a''"
    by code_simp+
  then show ?thesis
    by (simp add: ResolveDirectLaunchProject_def ex_links_def ex_paths_def ex_direct_def Abs_path_def Let_def abs_path_def)
qed

lemma direct_project:
  assumes h: "links_canonical h" and m: "ResolveDirectLaunchProject h paths opts allowExternal = Inr m"
  obtains ws us where "good_elements (ws @ [pmName m])" "pmSource m = abs_path (ws @ [pmName m])" "hostIsDir h (pmSource m)"
    "pmRequireRoot m \<longleftrightarrow> \<not> allowExternal"
    "\<not> allowExternal \<Longrightarrow> hostLinks h (pathsProjectRoot paths) = LinkResolved (abs_path us) \<and> prefix us (ws @ [pmName m])"
proof -
  obtain absolute where r: "hostLinks h absolute = LinkResolved (pmSource m)" "hostIsDir h (pmSource m)"
      "pmName m = Base (pmSource m)" "pmName m \<notin> {'''', ''.'', ''..'', ''/''}" "pmRequireRoot m \<longleftrightarrow> \<not> allowExternal"
      "\<not> allowExternal \<Longrightarrow> \<exists>root. hostLinks h (pathsProjectRoot paths) = LinkResolved root \<and> relativeToProjectRoot (hostCwd h) root (pmSource m) \<noteq> None"
    using m by (auto simp: ResolveDirectLaunchProject_def Let_def require_Inr split: if_splits option.splits link_result.splits)
  obtain vs where vs: "good_elements vs" "pmSource m = abs_path vs" using h r(1) by (auto simp: links_canonical_def)
  have "vs \<noteq> []"
  proof
    assume "vs = []"
    then have "pmName m = Base ''/''" using r(3) vs(2) by (simp add: abs_path_def)
    then show False using r(4) by (simp add: Base_def Let_def)
  qed
  then obtain ws w where ws: "vs = ws @ [w]" by (cases vs rule: rev_cases) auto
  then have w: "pmName m = w" using r(3) vs Base_abs_path [of w ws] by simp
  show ?thesis
  proof (cases allowExternal)
    case True
    then show ?thesis using that [of ws "[]"] vs ws w r by simp
  next
    case False
    then obtain root where root: "hostLinks h (pathsProjectRoot paths) = LinkResolved root"
        "relativeToProjectRoot (hostCwd h) root (pmSource m) \<noteq> None" using r(6) by blast
    then obtain us where us: "good_elements us" "root = abs_path us" using h by (auto simp: links_canonical_def)
    obtain rel where rel: "Rel (abs_path us) (abs_path vs) = Some rel" "\<not> (rel = ''..'' \<or> prefix ''../'' rel)"
      using root(2) us vs by (auto simp: relativeToProjectRoot_def Abs_path_def Clean_abs_path split: bind_splits if_splits)
    have "prefix us vs" using Rel_abs_path [OF us(1) vs(1)] rel by (metis option.inject)
    then show ?thesis using that [of ws us] vs ws w r root us by simp
  qed
qed

text \<open>
  C8. A project resolved from the command line is an existing directory named by its last
  component, and unless external projects are allowed it is the resolved project root or lies
  below it, after symbolic links are followed.
\<close>

theorem direct_project_contained:
  assumes "links_canonical h" "ResolveDirectLaunchProject h paths opts allowExternal = Inr m"
  shows "\<exists>ws us. good_elements (ws @ [pmName m]) \<and> pmSource m = abs_path (ws @ [pmName m]) \<and> hostIsDir h (pmSource m) \<and>
    pmRequireRoot m = (\<not> allowExternal) \<and>
    (if allowExternal then True
     else hostLinks h (pathsProjectRoot paths) = LinkResolved (abs_path us) \<and> prefix us (ws @ [pmName m]))"
  using assms by (rule direct_project) auto

theorem direct_project_contained_witness:
  "\<exists>ws us. abs_path (ws @ [''a'']) = ''/p/a'' \<and> hostLinks ex_links ''/p'' = LinkResolved (abs_path us) \<and> prefix us (ws @ [''a''])"
  using direct_project_contained [OF ex_links_canonical ex_resolved] by (auto simp: ex_paths_def)

text \<open>
  A project configuration is loaded on its own only when the host enables it and the marker
  is there; it is that of the project of the launch, which stays the first mount and, unless
  external projects are allowed, lies in the project root.
\<close>

theorem autoload_guarded:
  assumes "links_canonical h"
    and "snd (MaybeAutoloadProjectConfig registry h paths settings marker load parsed primary) = Inr (Some l)"
  shows "enabled (setAutoload settings) \<and> TrimSpace (optEnv (dlOptions parsed)) \<noteq> '''' \<and>
    (\<exists>ws us name rest. let source = abs_path (ws @ [name]) in
       marker source = Inr True \<and> (\<exists>cfg. load (Joins [source, ''.toby/config.yaml'']) = Inr cfg) \<and>
       optProjects (dlOptions l) = \<lparr>pmName = name, pmSource = source, pmRequireRoot = \<not> enabled (setExternal settings)\<rparr> # rest \<and>
       (if enabled (setExternal settings) then True
        else hostLinks h (pathsProjectRoot paths) = LinkResolved (abs_path us) \<and> prefix us (ws @ [name])))"
proof -
  obtain project where r1: "enabled (setAutoload settings)" "TrimSpace (optEnv (dlOptions parsed)) \<noteq> ''''"
      "ResolveDirectLaunchProject h paths (dlOptions parsed) (enabled (setExternal settings)) = Inr project"
      "marker (pmSource project) = Inr True"
      "snd (BuildOverlayConfiguredLaunch registry (load (Joins [pmSource project, ''.toby/config.yaml''])) parsed primary project) = Inr l"
    using assms(2)
    by (auto simp: MaybeAutoloadProjectConfig_def Let_def attempt_Inr split: if_splits sum.splits prod.splits)
  obtain cfg where r2: "load (Joins [pmSource project, ''.toby/config.yaml'']) = Inr cfg"
      "snd (BuildOverlayConfiguredLaunch registry (Inr cfg) parsed primary project) = Inr l"
    using r1(5) by (rule BuildOverlay_loaded)
  note r = r1(1-4) r2
  obtain ws us where c: "pmSource project = abs_path (ws @ [pmName project])" "pmRequireRoot project \<longleftrightarrow> \<not> enabled (setExternal settings)"
      "\<not> enabled (setExternal settings) \<Longrightarrow> hostLinks h (pathsProjectRoot paths) = LinkResolved (abs_path us) \<and> prefix us (ws @ [pmName project])"
    by (rule direct_project [OF assms(1) r(3)]) blast
  have "optProjects (dlOptions l) = project # map ljMount (lcProjects cfg)"
    using r(6) by (auto simp: BuildOverlayConfiguredLaunch_def attempt_Inr Let_def overlay_options_def commandOptions_def)
  then show ?thesis using r c
    by (intro conjI exI [of _ ws] exI [of _ us] exI [of _ "pmName project"] exI [of _ "map ljMount (lcProjects cfg)"])
      (auto simp: Let_def intro: project_mount.equality)
qed

theorem autoload_guarded_witness:
  "\<exists>r l settings. enabled (setAutoload settings) \<and>
     snd (MaybeAutoloadProjectConfig r ex_links ex_paths settings (\<lambda>p. Inr True) (\<lambda>p. Inr ex_launch_config) ex_direct ''codex'') = Inr (Some l)"
proof -
  obtain r where r: "NewToolRegistry example_tools = Inr r" using example_registry by blast
  obtain l where l: "snd (BuildOverlayConfiguredLaunch r (Inr ex_launch_config) ex_direct ''codex'' \<lparr>pmName = ''a'', pmSource = ''/p/a'', pmRequireRoot = True\<rparr>) = Inr l"
    using ex_overlay [OF r] by blast
  define settings where "settings = (appSettings emptyConfig)\<lparr>setAutoload := Some True\<rparr>"
  have "snd (MaybeAutoloadProjectConfig r ex_links ex_paths settings (\<lambda>p. Inr True) (\<lambda>p. Inr ex_launch_config) ex_direct ''codex'') = Inr (Some l)"
    using l ex_resolved
    by (simp add: MaybeAutoloadProjectConfig_def settings_def emptyConfig_def enabled_def ex_direct_def split_beta)
  with autoload_guarded [OF ex_links_canonical this] show ?thesis by blast
qed

end
