(* ===== verification/Go_Text.thy ===== *)
theory Go_Text
  imports Go_Strings
begin

text \<open>
  Go's UTF-8: \<open>utf8.ValidString\<close>, the number of runes of a valid string and \<open>unicode.IsControl\<close> on
  its runes, all on the bytes of the string; HTTP header names and values as byte classes, and
  \<open>http.CanonicalHeaderKey\<close>; the parts of \<open>net/url\<close> the validators look at.
\<close>

section \<open>UTF-8\<close>

text \<open>The ranges of the bytes that have to follow a first byte of a sequence of several bytes.\<close>

definition utf8_rest :: "nat \<Rightarrow> (nat \<times> nat) list option" where
  "utf8_rest b =
     (if 0xC2 \<le> b \<and> b \<le> 0xDF then Some [(0x80, 0xBF)]
      else if b = 0xE0 then Some [(0xA0, 0xBF), (0x80, 0xBF)]
      else if b = 0xED then Some [(0x80, 0x9F), (0x80, 0xBF)]
      else if 0xE1 \<le> b \<and> b \<le> 0xEF then Some [(0x80, 0xBF), (0x80, 0xBF)]
      else if b = 0xF0 then Some [(0x90, 0xBF), (0x80, 0xBF), (0x80, 0xBF)]
      else if 0xF1 \<le> b \<and> b \<le> 0xF3 then Some [(0x80, 0xBF), (0x80, 0xBF), (0x80, 0xBF)]
      else if b = 0xF4 then Some [(0x80, 0x8F), (0x80, 0xBF), (0x80, 0xBF)]
      else None)"

fun utf8_from :: "(nat \<times> nat) list \<Rightarrow> nat list \<Rightarrow> bool" where
  "utf8_from [] [] = True"
| "utf8_from (r # rs) [] = False"
| "utf8_from ((lo, hi) # rs) (b # s) = (lo \<le> b \<and> b \<le> hi \<and> utf8_from rs s)"
| "utf8_from [] (b # s) =
     (if b < 0x80 then utf8_from [] s else case utf8_rest b of None \<Rightarrow> False | Some rs \<Rightarrow> utf8_from rs s)"

definition ValidString :: "string \<Rightarrow> bool" where
  "ValidString s \<longleftrightarrow> utf8_from [] (map of_char s)"

text \<open>The number of runes of a valid string: its bytes that do not continue a sequence.\<close>

definition rune_count :: "string \<Rightarrow> nat" where
  "rune_count s = length (filter (\<lambda>b. \<not> (0x80 \<le> b \<and> b < 0xC0)) (map of_char s :: nat list))"

text \<open>Some rune of a valid string is a control character: below space, or \<open>U+007F\<close> to \<open>U+009F\<close>.\<close>

fun has_control :: "nat list \<Rightarrow> bool" where
  "has_control [] = False"
| "has_control [b] = (b < 0x20 \<or> b = 0x7F)"
| "has_control (b # b' # s) = (b < 0x20 \<or> b = 0x7F \<or> (b = 0xC2 \<and> 0x80 \<le> b' \<and> b' \<le> 0x9F) \<or> has_control (b' # s))"

definition IsControl_any :: "string \<Rightarrow> bool" where
  "IsControl_any s \<longleftrightarrow> has_control (map of_char s)"

section \<open>HTTP headers\<close>

definition header_char :: "char \<Rightarrow> bool" where
  "header_char c \<longleftrightarrow> ascii_letter c \<or> ascii_digit c \<or> c \<in> set ''!#$%&'' \<or> c = CHR 0x27 \<or> c \<in> set ''*+-.^_`|~''"

definition valid_header_name :: "string \<Rightarrow> bool" where
  "valid_header_name name \<longleftrightarrow> name \<noteq> '''' \<and> list_all header_char name"

definition valid_header_value :: "string \<Rightarrow> bool" where
  "valid_header_value value \<longleftrightarrow>
     list_all (\<lambda>c. c = CHR 0x09 \<or> \<not> ((of_char c :: nat) < 0x20 \<or> c = CHR 0x7F)) value"

definition ascii_to_lower :: "char \<Rightarrow> char" where
  "ascii_to_lower c = (if CHR ''A'' \<le> c \<and> c \<le> CHR ''Z'' then char_of ((of_char c :: nat) + 32) else c)"

definition ascii_to_upper :: "char \<Rightarrow> char" where
  "ascii_to_upper c = (if CHR ''a'' \<le> c \<and> c \<le> CHR ''z'' then char_of ((of_char c :: nat) - 32) else c)"

fun canonical_from :: "bool \<Rightarrow> string \<Rightarrow> string" where
  "canonical_from upper [] = []"
| "canonical_from upper (c # s) =
     (if upper then ascii_to_upper c else ascii_to_lower c) # canonical_from (c = CHR ''-'') s"

text \<open>\<open>http.CanonicalHeaderKey\<close>: a key with a byte no header name has is left as it is.\<close>

definition CanonicalHeaderKey :: "string \<Rightarrow> string" where
  "CanonicalHeaderKey name = (if valid_header_name name then canonical_from True name else name)"

section \<open>URLs\<close>

record parsed_url =
  urlScheme :: string
  urlOpaque :: string
  urlUser :: bool
  urlHost :: string
  urlHostname :: string
  urlPort :: string
  urlPath :: string
  urlForceQuery :: bool
  urlRawQuery :: string
  urlFragment :: string

text \<open>\<open>net/url\<close>: what its two parsers return, \<open>None\<close> for an error.\<close>

record url_package =
  url_Parse :: "string \<Rightarrow> parsed_url option"
  url_ParseRequestURI :: "string \<Rightarrow> parsed_url option"

section \<open>Lemmas\<close>

lemma utf8_ascii: "list_all (\<lambda>b. b < 0x80) s \<Longrightarrow> utf8_from [] s"
  by (induction s) auto

lemma ValidString_ascii: "list_all (\<lambda>c. (of_char c :: nat) < 0x80) s \<Longrightarrow> ValidString s"
  unfolding ValidString_def by (rule utf8_ascii) (simp add: list_all_iff)

end
