(* ===== verification/Config_MCP.thy ===== *)
theory Config_MCP
  imports Go_Text Mount Resource_Types Host_Config
begin

text \<open>
  \<open>internal/config/mcp\<close>: the configured MCP servers (\<open>config.go\<close>), their strict decoding with
  substitutions (\<open>decode.go\<close>, \<open>schema.go\<close>, \<open>substitution.go\<close>) and validation (\<open>validation.go\<close>, with
  the request paths and headers of \<open>internal/mcpgateway/httpbridge\<close>).

  A Go map of strings is a list of its entries. Decoding a block into the schema is a parameter
  (\<open>None\<close> is a decoding error), as are the URL parsers; \<open>resolve\<close> resolves the substitutions of one
  value.
\<close>

section \<open>Servers\<close>

type_synonym string_map = "(string \<times> string) list"

definition DefaultIdleTimeout :: duration where "DefaultIdleTimeout = 600000000000"
definition maxServers :: nat where "maxServers = 128"
definition ServerLocal :: string where "ServerLocal = ''local''"
definition ServerRemote :: string where "ServerRemote = ''remote''"
definition TransportStdio :: string where "TransportStdio = ''stdio''"
definition TransportHTTP :: string where "TransportHTTP = ''http''"
definition EndpointUnix :: string where "EndpointUnix = ''unix''"
definition ResourceNetworkHost :: string where "ResourceNetworkHost = ''host''"
definition ResourceNetworkPrivate :: string where "ResourceNetworkPrivate = ''private''"
definition builtinServerName :: string where "builtinServerName = ''toby''"

lemmas mcp_words = ServerLocal_def ServerRemote_def TransportStdio_def TransportHTTP_def EndpointUnix_def
  ResourceNetworkHost_def ResourceNetworkPrivate_def builtinServerName_def

record mcp_endpoint =
  epKind :: string
  epSocket :: string
  epPath :: string

record mcp_mount =
  mmSource :: string
  mmTarget :: string
  mmAccess :: string
  mmScope :: string

record mcp_server =
  msvType :: string
  msvTransport :: string
  msvURL :: string
  msvHeaders :: string_map
  msvImage :: string
  msvCommand :: "string list"
  msvEnvironment :: string_map
  msvEndpoint :: "mcp_endpoint option"
  msvMounts :: "mcp_mount list"
  msvScope :: string
  msvNetwork :: string
  msvIdleTimeout :: duration

type_synonym mcp_servers = "(string \<times> mcp_server) list"

text \<open>\<open>serverSchema\<close>: the idle timeout is a pointer, everything else has the type of a server's field.\<close>

record server_schema =
  ssType :: string
  ssTransport :: string
  ssURL :: string
  ssHeaders :: string_map
  ssImage :: string
  ssCommand :: "string list"
  ssEnvironment :: string_map
  ssEndpoint :: "mcp_endpoint option"
  ssMounts :: "mcp_mount list"
  ssScope :: string
  ssNetwork :: string
  ssIdleTimeout :: "duration option"

definition schema_server :: "server_schema \<Rightarrow> mcp_server" where
  "schema_server s =
     \<lparr>msvType = ssType s, msvTransport = ssTransport s, msvURL = ssURL s, msvHeaders = ssHeaders s,
      msvImage = ssImage s, msvCommand = ssCommand s, msvEnvironment = ssEnvironment s,
      msvEndpoint = ssEndpoint s, msvMounts = ssMounts s, msvScope = ssScope s, msvNetwork = ssNetwork s,
      msvIdleTimeout = (case ssIdleTimeout s of None \<Rightarrow> 0 | Some d \<Rightarrow> d)\<rparr>"

definition Server_EffectiveScope :: "mcp_server \<Rightarrow> scope_error + string" where
  "Server_EffectiveScope s =
     EffectiveScope (msvScope s)
       (map (\<lambda>m. \<lparr>rmSource = mmSource m, rmSourceIdentity = \<lparr>msDevice = 0, msInode = 0, msFileType = 0\<rparr>,
                  rmTarget = mmTarget m, rmAccess = mmAccess m, rmScope = mmScope m\<rparr>) (msvMounts s))
       RunAuthorityAbsent"

section \<open>Errors\<close>

datatype header_error =
    HeaderUtf8 string
  | HeaderNameInvalid
  | HeaderReserved string
  | HeaderDuplicate string
  | HeaderValueInvalid string

datatype url_error = UrlText | UrlParse | UrlScheme | UrlParts

datatype env_entry_error = EnvName string | EnvUtf8 string | EnvNul string | EnvControlled string

datatype endpoint_error =
    PathText
  | PathQuery
  | PathNotClean
  | PathParse
  | PathNotOnly
  | SocketNotClean
  | SocketOutside
  | EndpointKindUnknown string

datatype server_mount_error =
    MountSource nat
  | MountTargetUtf8 nat
  | MountTarget nat mount_error
  | MountReserved nat string
  | MountAccess nat string
  | MountScopeUnknown nat string
  | MountOverlap nat string nat string

datatype mcp_error =
    ServerCount
  | ServerReserved
  | ServerName string
  | ServerNotObject string
  | RemoteWithLocal string string
  | LocalWithRemote string string
  | StdioWith string string
  | ServerDecode string
  | IdleTimeoutNotPositive string
  | TypeUnsupported string string
  | RemoteTransport string
  | RemoteURL string url_error
  | RemoteHeaders string header_error
  | RemoteLocalFields string
  | LocalRemoteFields string
  | LocalImage string
  | LocalCommand string
  | LocalArgument string nat
  | LocalEnvironment string env_entry_error
  | LocalMounts string server_mount_error
  | ScopeRequired string
  | ScopeInvalid string scope_error
  | NetworkUnsupported string string
  | StdioEndpoint string
  | StdioIdleTimeout string
  | EndpointRequired string
  | EndpointInvalid string endpoint_error
  | IdleTimeoutNegative string
  | TransportUnsupported string string

section \<open>Validation\<close>

definition validateServerName :: "string \<Rightarrow> mcp_error verdict" where
  "validateServerName name =
     and_then (fail_if (name = '''' \<or> length name > 256 \<or> \<not> ValidString name) (ServerName name))
       (each (\<lambda>c. fail_if (\<not> (ascii_letter c \<or> ascii_digit c \<or> c \<in> set ''._-:'')) (ServerName name)) name)"

definition validateRemoteURL :: "url_package \<Rightarrow> string \<Rightarrow> url_error verdict" where
  "validateRemoteURL u value =
     and_then (fail_if (value = '''' \<or> \<not> ValidString value \<or> TrimSpace value \<noteq> value) UrlText)
       (case url_Parse u value of
          None \<Rightarrow> Some UrlParse
        | Some parsed \<Rightarrow>
            and_then (fail_if (urlScheme parsed \<noteq> ''https'' \<and> urlScheme parsed \<noteq> ''http'') UrlScheme)
              (fail_if (urlHost parsed = '''' \<or> urlUser parsed \<or> urlFragment parsed \<noteq> '''') UrlParts))"

definition forbiddenConfiguredHeaders :: "string list" where
  "forbiddenConfiguredHeaders =
     [''Accept'', ''Connection'', ''Content-Length'', ''Content-Type'', ''Host'', ''Keep-Alive'', ''Last-Event-Id'',
      ''Mcp-Protocol-Version'', ''Mcp-Session-Id'', ''Proxy-Authorization'', ''Proxy-Connection'', ''Te'',
      ''Trailer'', ''Transfer-Encoding'', ''Upgrade'']"

text \<open>
  \<open>cloneHeaders\<close> ranges over a map: which error it returns depends on the order, whether it
  returns one does not. The entries are given in the order they are visited.
\<close>

fun cloneHeaders :: "(string \<times> string list) list \<Rightarrow> (string \<times> string list) list \<Rightarrow> header_error + (string \<times> string list) list" where
  "cloneHeaders [] cloned = Inr cloned"
| "cloneHeaders ((name, vals) # headers) cloned =
     (if name \<noteq> TrimSpace name \<or> \<not> valid_header_name name then Inl HeaderNameInvalid
      else let canonical = CanonicalHeaderKey name in
        if canonical \<in> set forbiddenConfiguredHeaders then Inl (HeaderReserved canonical)
        else if map_of cloned canonical \<noteq> None then Inl (HeaderDuplicate canonical)
        else if \<not> list_all valid_header_value vals then Inl (HeaderValueInvalid canonical)
        else cloneHeaders headers (cloned @ [(canonical, vals)]))"

definition ValidateConfiguredHeaders :: "(string \<times> string list) list \<Rightarrow> header_error verdict" where
  "ValidateConfiguredHeaders headers = (case cloneHeaders headers [] of Inl e \<Rightarrow> Some e | Inr c \<Rightarrow> None)"

definition mcp_validateHeaders :: "string_map \<Rightarrow> header_error verdict" where
  "mcp_validateHeaders headers =
     and_then
       (each (\<lambda>(name, value). fail_if (\<not> ValidString name \<or> \<not> ValidString value) (HeaderUtf8 name)) (sort_key fst headers))
       (ValidateConfiguredHeaders (map (\<lambda>(name, value). (name, [value])) headers))"

definition environment_name :: "string \<Rightarrow> bool" where
  "environment_name name \<longleftrightarrow>
     (case name of
        [] \<Rightarrow> False
      | c # s \<Rightarrow> (ascii_letter c \<or> c = CHR ''_'') \<and> list_all (\<lambda>c. ascii_letter c \<or> ascii_digit c \<or> c = CHR ''_'') s)"

definition validateEnvironment_mcp :: "string_map \<Rightarrow> env_entry_error verdict" where
  "validateEnvironment_mcp environment =
     each (\<lambda>(name, value).
       and_then (fail_if (\<not> environment_name name) (EnvName name))
      (and_then (fail_if (\<not> ValidString value) (EnvUtf8 name))
      (and_then (fail_if (NUL \<in> set value) (EnvNul name))
                (fail_if (name = ''HOME'' \<or> name = ''TOBY_SANDBOX'') (EnvControlled name)))))
       (sort_key fst environment)"

definition ValidateRequestPath :: "url_package \<Rightarrow> string \<Rightarrow> endpoint_error verdict" where
  "ValidateRequestPath u value =
     and_then (fail_if (value = '''' \<or> \<not> ValidString value) PathText)
    (and_then (fail_if (CHR 0x3F \<in> set value \<or> CHR 0x23 \<in> set value) PathQuery)
    (and_then (fail_if (\<not> IsAbs value \<or> Clean value \<noteq> value) PathNotClean)
       (case url_ParseRequestURI u value of
          None \<Rightarrow> Some PathParse
        | Some parsed \<Rightarrow>
            fail_if (urlScheme parsed \<noteq> '''' \<or> urlHost parsed \<noteq> '''' \<or> urlRawQuery parsed \<noteq> '''' \<or> urlForceQuery parsed)
              PathNotOnly)))"

definition Endpoint_validate :: "url_package \<Rightarrow> mcp_endpoint \<Rightarrow> endpoint_error verdict" where
  "Endpoint_validate u e =
     and_then (ValidateRequestPath u (epPath e))
       (if epKind e = EndpointUnix then
          and_then (fail_if (epSocket e = '''' \<or> \<not> ValidString (epSocket e) \<or> NUL \<in> set (epSocket e) \<or>
                       \<not> IsAbs (epSocket e) \<or> Clean (epSocket e) \<noteq> epSocket e) SocketNotClean)
            (fail_if (Dir (epSocket e) \<noteq> layout_Runtime \<or> Base (epSocket e) = ''.'') SocketOutside)
        else Some (EndpointKindUnknown (epKind e)))"

definition reserved_mount_paths :: "string list" where
  "reserved_mount_paths = [''/proc'', ''/dev'', ''/tmp'', ''/run'']"

definition validate_mount :: "mcp_mount list \<Rightarrow> nat \<Rightarrow> server_mount_error verdict" where
  "validate_mount mounts i =
     (let item = mounts ! i in
      and_then (fail_if (mmSource item = '''' \<or> \<not> ValidString (mmSource item) \<or> \<not> IsAbs (mmSource item) \<or>
                   Clean (mmSource item) \<noteq> mmSource item \<or> NUL \<in> set (mmSource item)) (MountSource i))
     (and_then (fail_if (\<not> ValidString (mmTarget item)) (MountTargetUtf8 i))
     (and_then (map_error (MountTarget i) (ValidateTarget (mmTarget item)))
     (and_then (each (\<lambda>reserved. fail_if (TargetsOverlap (mmTarget item) reserved) (MountReserved i reserved)) reserved_mount_paths)
     (and_then (fail_if (mmAccess item \<noteq> AccessRegular \<and> mmAccess item \<noteq> AccessReadOnly) (MountAccess i (mmAccess item)))
     (and_then (fail_if (mmScope item \<noteq> ScopeHome \<and> mmScope item \<noteq> ScopeProject) (MountScopeUnknown i (mmScope item)))
               (each (\<lambda>prior. fail_if (TargetsOverlap (mmTarget (mounts ! prior)) (mmTarget item))
                        (MountOverlap i (mmTarget item) prior (mmTarget (mounts ! prior)))) [0..<i])))))))"

definition validateMounts_mcp :: "mcp_mount list \<Rightarrow> server_mount_error verdict" where
  "validateMounts_mcp mounts = each (validate_mount mounts) [0..<length mounts]"

definition validateRemote :: "url_package \<Rightarrow> mcp_server \<Rightarrow> string \<Rightarrow> mcp_error verdict" where
  "validateRemote u s name =
     and_then (fail_if (msvTransport s \<noteq> TransportHTTP) (RemoteTransport name))
    (and_then (map_error (RemoteURL name) (validateRemoteURL u (msvURL s)))
    (and_then (map_error (RemoteHeaders name) (mcp_validateHeaders (msvHeaders s)))
              (fail_if (msvImage s \<noteq> '''' \<or> msvCommand s \<noteq> [] \<or> msvEnvironment s \<noteq> [] \<or> msvEndpoint s \<noteq> None \<or>
                 msvMounts s \<noteq> [] \<or> msvScope s \<noteq> '''' \<or> msvNetwork s \<noteq> '''' \<or> msvIdleTimeout s \<noteq> 0)
                 (RemoteLocalFields name))))"

definition validate_transport :: "url_package \<Rightarrow> mcp_server \<Rightarrow> string \<Rightarrow> mcp_error verdict" where
  "validate_transport u s name =
     (if msvTransport s = TransportStdio then
        and_then (fail_if (msvEndpoint s \<noteq> None) (StdioEndpoint name))
          (fail_if (msvIdleTimeout s \<noteq> 0) (StdioIdleTimeout name))
      else if msvTransport s = TransportHTTP then
        (case msvEndpoint s of
           None \<Rightarrow> Some (EndpointRequired name)
         | Some e \<Rightarrow>
             and_then (map_error (EndpointInvalid name) (Endpoint_validate u e))
               (fail_if (msvIdleTimeout s < 0) (IdleTimeoutNegative name)))
      else Some (TransportUnsupported name (msvTransport s)))"

definition validateLocal :: "url_package \<Rightarrow> mcp_server \<Rightarrow> string \<Rightarrow> mcp_error verdict" where
  "validateLocal u s name =
     and_then (fail_if (msvURL s \<noteq> '''' \<or> msvHeaders s \<noteq> []) (LocalRemoteFields name))
    (and_then (fail_if (TrimSpace (msvImage s) = '''' \<or> \<not> ValidString (msvImage s) \<or>
                  TrimSpace (msvImage s) \<noteq> msvImage s \<or> NUL \<in> set (msvImage s)) (LocalImage name))
    (and_then (fail_if (case msvCommand s of [] \<Rightarrow> True | executable # _ \<Rightarrow> TrimSpace executable = '''') (LocalCommand name))
    (and_then (each (\<lambda>(i, argument). fail_if (\<not> ValidString argument \<or> NUL \<in> set argument) (LocalArgument name i))
                 (enumerate 0 (msvCommand s)))
    (and_then (map_error (LocalEnvironment name) (validateEnvironment_mcp (msvEnvironment s)))
    (and_then (map_error (LocalMounts name) (validateMounts_mcp (msvMounts s)))
    (and_then (fail_if (msvScope s = '''') (ScopeRequired name))
    (and_then (case Server_EffectiveScope s of Inl e \<Rightarrow> Some (ScopeInvalid name e) | Inr sc \<Rightarrow> None)
    (and_then (fail_if (msvNetwork s \<noteq> ResourceNetworkHost \<and> msvNetwork s \<noteq> ResourceNetworkPrivate) (NetworkUnsupported name (msvNetwork s)))
              (validate_transport u s name)))))))))"

definition Server_validate :: "url_package \<Rightarrow> mcp_server \<Rightarrow> string \<Rightarrow> mcp_error verdict" where
  "Server_validate u s name =
     (if msvType s = ServerRemote then validateRemote u s name
      else if msvType s = ServerLocal then validateLocal u s name
      else Some (TypeUnsupported name (msvType s)))"

definition Config_Validate :: "url_package \<Rightarrow> mcp_servers \<Rightarrow> mcp_error verdict" where
  "Config_Validate u servers =
     and_then (fail_if (length servers > maxServers) ServerCount)
    (and_then (fail_if (map_of servers builtinServerName \<noteq> None) ServerReserved)
              (each (\<lambda>(name, s). and_then (validateServerName name) (Server_validate u s name)) (sort_key fst servers)))"

definition default_idle :: "mcp_server \<Rightarrow> mcp_server" where
  "default_idle s =
     (if msvType s = ServerLocal \<and> msvTransport s = TransportHTTP \<and> msvIdleTimeout s = 0
      then s\<lparr>msvIdleTimeout := DefaultIdleTimeout\<rparr> else s)"

definition NormalizeServer :: "url_package \<Rightarrow> mcp_server \<Rightarrow> mcp_error + mcp_server" where
  "NormalizeServer u server =
     (let server = default_idle server in
      case Config_Validate u [(''resource'', server)] of Some e \<Rightarrow> Inl e | None \<Rightarrow> Inr server)"

section \<open>Substitutions\<close>

text \<open>A failed substitution: server, field and the error of the resolver.\<close>

datatype 'e substitution_error = SubstitutionError string string 'e

type_synonym 'e resolver = "string \<Rightarrow> 'e + string"

text \<open>The values of a map in the order of its names, each replaced by what it resolves to.\<close>

fun resolve_entries ::
  "'e resolver \<Rightarrow> string \<Rightarrow> (string \<Rightarrow> string) \<Rightarrow> string_map \<Rightarrow> 'e substitution_error + string_map"
where
  "resolve_entries resolve name field [] = Inr []"
| "resolve_entries resolve name field ((k, raw) # kvs) =
     (case resolve raw of
        Inl e \<Rightarrow> Inl (SubstitutionError name (field k) e)
      | Inr value \<Rightarrow> attempt (resolve_entries resolve name field kvs) (\<lambda>kvs. Inr ((k, value) # kvs)))"

definition resolve_command :: "'e resolver \<Rightarrow> string \<Rightarrow> string list \<Rightarrow> 'e substitution_error + string list" where
  "resolve_command resolve name command =
     attempt (resolve_entries resolve name (\<lambda>i. ''command['' @ i @ '']'')
                (map (\<lambda>(i, raw). (Itoa (int i), raw)) (enumerate 0 command)))
       (\<lambda>kvs. Inr (map snd kvs))"

definition resolveServerSubstitutions ::
  "string \<Rightarrow> mcp_server \<Rightarrow> 'e resolver \<Rightarrow> 'e substitution_error + mcp_server"
where
  "resolveServerSubstitutions name server resolve =
     (case resolve (msvURL server) of
        Inl e \<Rightarrow> Inl (SubstitutionError name ''url'' e)
      | Inr url \<Rightarrow>
          attempt (resolve_entries resolve name (\<lambda>k. ''headers.'' @ k) (sort_key fst (msvHeaders server))) (\<lambda>headers.
          attempt (resolve_command resolve name (msvCommand server)) (\<lambda>command.
          attempt (resolve_entries resolve name (\<lambda>k. ''environment.'' @ k) (sort_key fst (msvEnvironment server))) (\<lambda>environment.
            Inr (server\<lparr>msvURL := url, msvHeaders := headers, msvCommand := command, msvEnvironment := environment\<rparr>)))))"

section \<open>Decoding\<close>

definition raw_string :: "(string \<times> json) list \<Rightarrow> string \<Rightarrow> string" where
  "raw_string server field = (case map_of server field of Some (JString s) \<Rightarrow> s | _ \<Rightarrow> '''')"

definition validateServerRawFields :: "string \<Rightarrow> (string \<times> json) list \<Rightarrow> mcp_error verdict" where
  "validateServerRawFields name server =
     (let typ = raw_string server ''type''; transport = raw_string server ''transport'';
          present = (\<lambda>e field. fail_if (map_of server field \<noteq> None) (e field))
      in and_then (if typ = ServerRemote then
              each (present (RemoteWithLocal name))
                [''image'', ''command'', ''environment'', ''endpoint'', ''mounts'', ''scope'', ''network'', ''idleTimeout'']
            else None)
        (and_then (if typ = ServerLocal then each (present (LocalWithRemote name)) [''url'', ''headers''] else None)
           (if transport = TransportStdio then each (present (StdioWith name)) [''endpoint'', ''idleTimeout''] else None)))"

text \<open>The two ways a server fails: by itself, or in a substitution, which fails the whole block.\<close>

datatype 'e decode_failure = InvalidServer mcp_error | FailedSubstitution "'e substitution_error"

definition empty_server_schema :: server_schema where
  "empty_server_schema =
     \<lparr>ssType = '''', ssTransport = '''', ssURL = '''', ssHeaders = [], ssImage = '''', ssCommand = [], ssEnvironment = [],
      ssEndpoint = None, ssMounts = [], ssScope = '''', ssNetwork = '''', ssIdleTimeout = None\<rparr>"

definition decode_schema :: "((string \<times> json) list \<Rightarrow> server_schema option) \<Rightarrow> (string \<times> json) list \<Rightarrow> server_schema option" where
  "decode_schema decode serverMap = (if serverMap = [] then Some empty_server_schema else decode serverMap)"

text \<open>What is decoded of a server before its substitutions.\<close>

definition declared_server ::
  "((string \<times> json) list \<Rightarrow> server_schema option) \<Rightarrow> string \<Rightarrow> json \<Rightarrow> mcp_error + mcp_server"
where
  "declared_server decode name raw =
     (case raw of
        JObject serverMap \<Rightarrow>
          require (validateServerRawFields name serverMap)
            (case decode_schema decode serverMap of
               None \<Rightarrow> Inl (ServerDecode name)
             | Some schema \<Rightarrow>
                 require (case ssIdleTimeout schema of None \<Rightarrow> None | Some d \<Rightarrow> fail_if (d \<le> 0) (IdleTimeoutNotPositive name))
                   (Inr (default_idle (schema_server schema))))
      | _ \<Rightarrow> Inl (ServerNotObject name))"

definition decodeServer ::
  "url_package \<Rightarrow> ((string \<times> json) list \<Rightarrow> server_schema option) \<Rightarrow> string \<Rightarrow> json \<Rightarrow> 'e resolver \<Rightarrow> 'e decode_failure + mcp_server"
where
  "decodeServer u decode name raw resolve =
     (case declared_server decode name raw of
        Inl e \<Rightarrow> Inl (InvalidServer e)
      | Inr server \<Rightarrow>
          (case resolveServerSubstitutions name server resolve of
             Inl e \<Rightarrow> Inl (FailedSubstitution e)
           | Inr resolved \<Rightarrow>
               (case Server_validate u resolved name of
                  Some e \<Rightarrow> Inl (InvalidServer e)
                | None \<Rightarrow> Inr resolved)))"

fun decode_servers ::
  "url_package \<Rightarrow> ((string \<times> json) list \<Rightarrow> server_schema option) \<Rightarrow> 'e resolver \<Rightarrow> (string \<times> json) list \<Rightarrow>
    mcp_servers \<Rightarrow> (string \<times> mcp_error) list \<Rightarrow> 'e substitution_error + (mcp_servers \<times> (string \<times> mcp_error) list)"
where
  "decode_servers u decode resolve [] result skipped = Inr (result, skipped)"
| "decode_servers u decode resolve ((name, raw) # block) result skipped =
     (case validateServerName name of
        Some e \<Rightarrow> decode_servers u decode resolve block result (skipped @ [(name, e)])
      | None \<Rightarrow>
          (case decodeServer u decode name raw resolve of
             Inl (FailedSubstitution e) \<Rightarrow> Inl e
           | Inl (InvalidServer e) \<Rightarrow> decode_servers u decode resolve block result (skipped @ [(name, e)])
           | Inr server \<Rightarrow> decode_servers u decode resolve block (result @ [(name, server)]) skipped))"

datatype 'e block_error = BlockInvalid mcp_error | BlockSubstitution "'e substitution_error"

definition DecodeWithSubstitutions ::
  "url_package \<Rightarrow> ((string \<times> json) list \<Rightarrow> server_schema option) \<Rightarrow> (string \<times> json) list \<Rightarrow> 'e resolver \<Rightarrow>
    'e block_error + (mcp_servers \<times> (string \<times> mcp_error) list)"
where
  "DecodeWithSubstitutions u decode block resolve =
     (if length block > maxServers then Inl (BlockInvalid ServerCount)
      else if map_of block builtinServerName \<noteq> None then Inl (BlockInvalid ServerReserved)
      else (case decode_servers u decode resolve (sort_key fst block) [] [] of
              Inl e \<Rightarrow> Inl (BlockSubstitution e)
            | Inr r \<Rightarrow> Inr r))"

end
