(* ===== verification/Config_Models.thy ===== *)
theory Config_Models
  imports Go_Text Prelude
begin

text \<open>
  \<open>internal/config/models\<close>: one models API resource, its normalisation and its validation. The URL
  parser is the one of \<open>net/url\<close>, a parameter.
\<close>

definition maxDisplayNameRunes :: nat where "maxDisplayNameRunes = 256"
definition maxURLBytes :: nat where "maxURLBytes = 4096"
definition maxHeaders :: nat where "maxHeaders = 64"
definition maxHeaderNameBytes :: nat where "maxHeaderNameBytes = 128"
definition maxHeaderValueBytes :: nat where "maxHeaderValueBytes = 8192"
definition maxHeaderBytes :: nat where "maxHeaderBytes = 65536"

definition reservedHeaders :: "string list" where
  "reservedHeaders =
     [''Connection'', ''Content-Length'', ''Forwarded'', ''Host'', ''Keep-Alive'', ''Proxy-Authenticate'', ''Proxy-Authorization'',
      ''Proxy-Connection'', ''Te'', ''Trailer'', ''Transfer-Encoding'', ''Upgrade'', ''Via'']"

definition ProtocolAnthropic :: string where "ProtocolAnthropic = ''anthropic''"
definition ProtocolOpenAI :: string where "ProtocolOpenAI = ''openai''"

record model_config =
  mcProtocol :: string
  mcName :: string
  mcURL :: string
  mcHeaders :: "(string \<times> string) list"

datatype model_url_error = ModelURLText | ModelURLParse | ModelURLScheme | ModelURLParts | ModelURLPath | ModelURLPort

datatype model_header_error =
    ModelHeaderCount
  | ModelHeaderName
  | ModelHeaderDuplicate string
  | ModelHeaderReserved string
  | ModelHeaderValue string
  | ModelHeaderTotal

datatype model_error =
    ModelProtocolRequired
  | ModelProtocolUnsupported string
  | ModelNameInvalid
  | ModelURL model_url_error
  | ModelHeaders model_header_error

text \<open>\<open>strconv.Atoi\<close> on a 64-bit system.\<close>

definition Atoi :: "string \<Rightarrow> int option" where
  "Atoi s =
     (let negative = (s \<noteq> '''' \<and> hd s = CHR ''-''); ds = (if s \<noteq> '''' \<and> hd s \<in> {CHR ''-'', CHR ''+''} then tl s else s);
          n = (if negative then - int (read_digits ds) else int (read_digits ds))
      in if ds = '''' \<or> \<not> list_all ascii_digit ds \<or> n < - (2 ^ 63) \<or> 2 ^ 63 \<le> n then None else Some n)"

definition validateName_model :: "string \<Rightarrow> model_error verdict" where
  "validateName_model name =
     (if name = '''' then None
      else fail_if (\<not> ValidString name \<or> rune_count name > maxDisplayNameRunes \<or> name \<noteq> TrimSpace name \<or> IsControl_any name)
             ModelNameInvalid)"

definition validateURL_model :: "url_package \<Rightarrow> string \<Rightarrow> model_url_error verdict" where
  "validateURL_model u value =
     and_then (fail_if (value = '''' \<or> length value > maxURLBytes \<or> value \<noteq> TrimSpace value \<or> \<not> ValidString value) ModelURLText)
       (case url_Parse u value of
          None \<Rightarrow> Some ModelURLParse
        | Some parsed \<Rightarrow>
            and_then (fail_if (urlScheme parsed \<noteq> ''http'' \<and> urlScheme parsed \<noteq> ''https'') ModelURLScheme)
           (and_then (fail_if (urlHost parsed = '''' \<or> urlHostname parsed = '''' \<or> urlUser parsed \<or> urlFragment parsed \<noteq> '''' \<or>
                        urlRawQuery parsed \<noteq> '''' \<or> urlOpaque parsed \<noteq> '''') ModelURLParts)
           (and_then (fail_if (urlPath parsed \<noteq> '''' \<and> (\<not> prefix ''/'' (urlPath parsed) \<or> NUL \<in> set (urlPath parsed))) ModelURLPath)
              (if urlPort parsed = '''' then None
               else fail_if (case Atoi (urlPort parsed) of None \<Rightarrow> True | Some n \<Rightarrow> n < 1 \<or> n > 65535) ModelURLPort))))"

text \<open>
  The loop of \<open>validateHeaders\<close> over a map, in the order its entries are visited: the lower-case
  names seen and the bytes counted so far.
\<close>

fun validate_headers_loop :: "(string \<times> string) list \<Rightarrow> string list \<Rightarrow> nat \<Rightarrow> model_header_error verdict" where
  "validate_headers_loop [] canonical tot = None"
| "validate_headers_loop ((name, value) # headers) canonical tot =
     (if name = '''' \<or> length name > maxHeaderNameBytes \<or> name \<noteq> TrimSpace name \<or> \<not> valid_header_name name
      then Some ModelHeaderName
      else let name = CanonicalHeaderKey name; lowerName = map ascii_to_lower name in
        if lowerName \<in> set canonical then Some (ModelHeaderDuplicate name)
        else if name \<in> set reservedHeaders \<or> prefix ''x-forwarded-'' lowerName \<or> prefix ''x-toby-'' lowerName
        then Some (ModelHeaderReserved name)
        else if length value > maxHeaderValueBytes \<or> \<not> ValidString value \<or> \<not> valid_header_value value
        then Some (ModelHeaderValue name)
        else if tot + (length name + length value) > maxHeaderBytes then Some ModelHeaderTotal
        else validate_headers_loop headers (lowerName # canonical) (tot + (length name + length value)))"

definition validateHeaders_model :: "(string \<times> string) list \<Rightarrow> model_header_error verdict" where
  "validateHeaders_model headers =
     and_then (fail_if (length headers > maxHeaders) ModelHeaderCount) (validate_headers_loop headers [] 0)"

definition Model_Validate :: "url_package \<Rightarrow> model_config \<Rightarrow> model_error verdict" where
  "Model_Validate u c =
     and_then (if mcProtocol c = ProtocolAnthropic \<or> mcProtocol c = ProtocolOpenAI then None
               else if mcProtocol c = '''' then Some ModelProtocolRequired else Some (ModelProtocolUnsupported (mcProtocol c)))
    (and_then (validateName_model (mcName c))
    (and_then (map_option ModelURL (validateURL_model u (mcURL c)))
              (map_option ModelHeaders (validateHeaders_model (mcHeaders c)))))"

definition Normalize :: "url_package \<Rightarrow> model_config \<Rightarrow> model_error + model_config" where
  "Normalize u input =
     (let result = input\<lparr>mcProtocol := TrimSpace (mcProtocol input), mcURL := TrimSpace (mcURL input)\<rparr>
      in require (Model_Validate u result) (Inr result))"

section \<open>Which headers are accepted\<close>

definition header_ok :: "string \<times> string \<Rightarrow> bool" where
  "header_ok = (\<lambda>(name, value).
     length name \<le> maxHeaderNameBytes \<and> name = TrimSpace name \<and> valid_header_name name \<and>
     CanonicalHeaderKey name \<notin> set reservedHeaders \<and>
     \<not> prefix ''x-forwarded-'' (map ascii_to_lower (CanonicalHeaderKey name)) \<and>
     \<not> prefix ''x-toby-'' (map ascii_to_lower (CanonicalHeaderKey name)) \<and>
     length value \<le> maxHeaderValueBytes \<and> ValidString value \<and> valid_header_value value)"

definition header_key :: "string \<times> string \<Rightarrow> string" where
  "header_key h = map ascii_to_lower (CanonicalHeaderKey (fst h))"

definition header_size :: "string \<times> string \<Rightarrow> nat" where
  "header_size h = length (CanonicalHeaderKey (fst h)) + length (snd h)"

lemma validate_headers_loop_iff:
  assumes "tot \<le> maxHeaderBytes"
  shows "validate_headers_loop headers canonical tot = None \<longleftrightarrow>
    list_all header_ok headers \<and> distinct (map header_key headers) \<and>
    set (map header_key headers) \<inter> set canonical = {} \<and> tot + sum_list (map header_size headers) \<le> maxHeaderBytes"
  using assms
proof (induction headers arbitrary: canonical tot)
  case (Cons h headers)
  obtain name v where h: "h = (name, v)" by (cases h)
  have named: "valid_header_name name \<Longrightarrow> name \<noteq> ''''" by (simp add: valid_header_name_def)
  show ?case
  proof (cases "header_ok h \<and> header_key h \<notin> set canonical \<and> tot + header_size h \<le> maxHeaderBytes")
    case True
    then have "validate_headers_loop (h # headers) canonical tot =
        validate_headers_loop headers (header_key h # canonical) (tot + header_size h)"
      using named by (simp add: h header_ok_def header_key_def header_size_def Let_def)
    then show ?thesis using Cons.IH [of "tot + header_size h" "header_key h # canonical"] True by (auto simp: add.assoc)
  next
    case False
    then have "validate_headers_loop (h # headers) canonical tot \<noteq> None"
      by (auto simp: h header_ok_def header_key_def header_size_def Let_def)
    moreover have "\<not> (list_all header_ok (h # headers) \<and> distinct (map header_key (h # headers)) \<and>
        set (map header_key (h # headers)) \<inter> set canonical = {} \<and> tot + sum_list (map header_size (h # headers)) \<le> maxHeaderBytes)"
      using False by auto
    ultimately show ?thesis by blast
  qed
qed simp

lemma validateHeaders_iff:
  "validateHeaders_model headers = None \<longleftrightarrow>
    length headers \<le> maxHeaders \<and> list_all header_ok headers \<and> distinct (map header_key headers) \<and>
    sum_list (map header_size headers) \<le> maxHeaderBytes"
  using validate_headers_loop_iff [of 0 headers "[]"] by (auto simp: validateHeaders_model_def verdict_simps)

text \<open>Go visits the entries of a map in any order.\<close>

lemma validateHeaders_perm:
  assumes "mset hs = mset hs'"
  shows "(validateHeaders_model hs = None) = (validateHeaders_model hs' = None)"
proof -
  have "size (mset hs) = size (mset hs')" "set_mset (mset hs) = set_mset (mset hs')" "mset (map header_key hs) = mset (map header_key hs')"
    "sum_mset (image_mset header_size (mset hs)) = sum_mset (image_mset header_size (mset hs'))"
    using assms by simp_all
  moreover have "distinct (map header_key hs) = distinct (map header_key hs')"
    using calculation(3) by (metis mset_eq_imp_distinct_iff)
  ultimately show ?thesis by (simp add: validateHeaders_iff list_all_iff sum_mset_sum_list [symmetric])
qed

end
