(* ===== verification/Config_Resources.thy ===== *)
theory Config_Resources
  imports Config_App Config_MCP Config_Models
begin

text \<open>
  The resources of a launch (\<open>internal/config/app\<close>): substitutions and instruction files
  (\<open>config.go\<close>), MCP servers and models (\<open>resources.go\<close>).

  The host is a record: the environment, the files and the patterns it resolves. Decoding a map
  into a schema is a parameter, \<open>None\<close> for an error.
\<close>

section \<open>The host\<close>

datatype file_read = FileData string | FileMissing | FileFailed

record config_host =
  chGetenv :: "string \<Rightarrow> string"
  chHomeDir :: "string option"
  chReadFile :: "string \<Rightarrow> file_read"
  chGlob :: "string \<Rightarrow> string list option"
  chCwd :: "string option"

datatype read_error = ReadMissing string | ReadFailed string

definition read_file :: "config_host \<Rightarrow> string \<Rightarrow> read_error + string" where
  "read_file h path =
     (case chReadFile h path of FileData d \<Rightarrow> Inr d | FileMissing \<Rightarrow> Inl (ReadMissing path) | FileFailed \<Rightarrow> Inl (ReadFailed path))"

section \<open>Substitutions\<close>

text \<open>
  A match of the pattern at the start of a string: the kind, the target and the rest. The run of
  characters other than a closing brace is taken whole, and must be non-empty.
\<close>

definition match_target :: "string \<Rightarrow> (string \<times> string) option" where
  "match_target s =
     (let target = takeWhile (\<lambda>c. c \<noteq> CHR 0x7D) s; rest = dropWhile (\<lambda>c. c \<noteq> CHR 0x7D) s
      in if target = '''' \<or> rest = '''' then None else Some (target, tl rest))"

definition match_substitution :: "string \<Rightarrow> (string \<times> string \<times> string) option" where
  "match_substitution s =
     (if prefix (CHR 0x7B # ''env:'') s
      then map_option (\<lambda>(target, rest). (''env'', target, rest)) (match_target (drop 5 s))
      else if prefix (CHR 0x7B # ''file:'') s
      then map_option (\<lambda>(target, rest). (''file'', target, rest)) (match_target (drop 6 s))
      else None)"

lemma match_target_shorter: "match_target s = Some (target, rest) \<Longrightarrow> length rest < length s"
proof -
  assume "match_target s = Some (target, rest)"
  then have "rest = tl (dropWhile (\<lambda>c. c \<noteq> CHR 0x7D) s)" "dropWhile (\<lambda>c. c \<noteq> CHR 0x7D) s \<noteq> []"
    by (auto simp: match_target_def Let_def split: if_splits)
  then show "length rest < length s"
    using length_dropWhile_le [of "\<lambda>c. c \<noteq> CHR 0x7D" s] by (cases "dropWhile (\<lambda>c. c \<noteq> CHR 0x7D) s") auto
qed

lemma match_substitution_shorter: "match_substitution s = Some (kind, target, rest) \<Longrightarrow> length rest < length s"
  by (auto simp: match_substitution_def split: if_splits dest!: match_target_shorter)

text \<open>\<open>readSubstitutionFile\<close>: the directories are tried in order until one holds the file.\<close>

fun read_in_dirs :: "config_host \<Rightarrow> string \<Rightarrow> string list \<Rightarrow> read_error option \<Rightarrow> read_error + string" where
  "read_in_dirs h path [] firstErr = (case firstErr of Some e \<Rightarrow> Inl e | None \<Rightarrow> read_file h path)"
| "read_in_dirs h path (dir # configDirs) firstErr =
     (if dir = '''' then read_in_dirs h path configDirs firstErr
      else case read_file h (Joins [dir, path]) of
        Inr data \<Rightarrow> Inr data
      | Inl (ReadMissing p) \<Rightarrow>
          read_in_dirs h path configDirs (case firstErr of None \<Rightarrow> Some (ReadMissing p) | Some e \<Rightarrow> Some e)
      | Inl e \<Rightarrow> Inl e)"

definition readSubstitutionFile :: "config_host \<Rightarrow> string \<Rightarrow> string list \<Rightarrow> read_error + string" where
  "readSubstitutionFile h path configDirs = (if IsAbs path then read_file h path else read_in_dirs h path configDirs None)"

text \<open>What one match is replaced by; the error names the target.\<close>

definition substitute :: "config_host \<Rightarrow> string list \<Rightarrow> string \<Rightarrow> string \<Rightarrow> string \<Rightarrow> (string \<times> read_error) + string" where
  "substitute h configDirs home kind target =
     (let target = TrimSpace target in
      if kind = ''env'' then Inr (chGetenv h target)
      else case readSubstitutionFile h (ExpandHostHome target home) configDirs of
        Inl e \<Rightarrow> Inl (target, e)
      | Inr data \<Rightarrow> Inr (TrimSpace data))"

text \<open>
  \<open>ReplaceAllStringFunc\<close> with the closure of \<open>resolveString\<close>: matches are found from the left in
  the original value, and the first error is returned instead of the result.
\<close>

function resolveString :: "config_host \<Rightarrow> string list \<Rightarrow> string \<Rightarrow> string \<Rightarrow> (string \<times> read_error) + string" where
  "resolveString h configDirs home [] = Inr []"
| "resolveString h configDirs home (c # s) =
     (case match_substitution (c # s) of
        None \<Rightarrow> attempt (resolveString h configDirs home s) (\<lambda>r. Inr (c # r))
      | Some (kind, target, rest) \<Rightarrow>
          attempt (substitute h configDirs home kind target) (\<lambda>v.
          attempt (resolveString h configDirs home rest) (\<lambda>r. Inr (v @ r))))"
  by pat_completeness auto
termination
  by (relation "measure (\<lambda>(h, ds, home, s). length s)") (auto dest!: match_substitution_shorter)

definition resolutionContext :: "config_host \<Rightarrow> app_service \<Rightarrow> string list \<times> string" where
  "resolutionContext h s =
     (if svcDir s \<noteq> '''' then [svcDir s] else [],
      if svcHome s = '''' then (case chHomeDir h of Some home \<Rightarrow> home | None \<Rightarrow> '''') else svcHome s)"

definition service_resolver :: "config_host \<Rightarrow> app_service \<Rightarrow> (string \<times> read_error) resolver" where
  "service_resolver h s raw = (let (configDirs, home) = resolutionContext h s in resolveString h configDirs home raw)"

section \<open>Instructions\<close>

definition hasGlobMeta :: "string \<Rightarrow> bool" where
  "hasGlobMeta path \<longleftrightarrow> list_ex (\<lambda>c. c \<in> {CHR ''*'', CHR 0x3F, CHR 0x5B}) path"

datatype instruction_error = PatternInvalid string | WorkingDirectory | InstructionRead string

definition warnInstructionMissing :: "string \<Rightarrow> warning_event" where
  "warnInstructionMissing source = warn ''config.instruction-missing'' [source]"

definition cleanInstructionPaths :: "config_host \<Rightarrow> string list \<Rightarrow> instruction_error + string list" where
  "cleanInstructionPaths h paths =
     (if list_all (\<lambda>p. Abs_path (chCwd h) p \<noteq> None) paths then Inr (map (\<lambda>p. the (Abs_path (chCwd h) p)) paths)
      else Inl WorkingDirectory)"

definition resolveInstructionPattern ::
  "config_host \<Rightarrow> app_service \<Rightarrow> string \<Rightarrow> warning_event list \<times> (instruction_error + string list)"
where
  "resolveInstructionPattern h s pattern =
     (let pattern = TrimSpace pattern in
      if pattern = '''' then ([], Inr [])
      else
        (let path = ExpandHostHome pattern (svcHome s);
             path = (if IsAbs path then path else Joins [svcDir s, path])
         in if hasGlobMeta path
            then (case chGlob h path of
                    None \<Rightarrow> ([], Inl (PatternInvalid pattern))
                  | Some matches \<Rightarrow>
                      if matches = [] then ([warnInstructionMissing pattern], Inr [])
                      else ([], cleanInstructionPaths h (sort matches)))
            else ([], cleanInstructionPaths h [path])))"

fun host_paths_loop ::
  "config_host \<Rightarrow> app_service \<Rightarrow> string list \<Rightarrow> string list \<Rightarrow> warning_event list \<times> (instruction_error + string list)"
where
  "host_paths_loop h s [] paths = ([], Inr paths)"
| "host_paths_loop h s (pattern # patterns) paths =
     (case resolveInstructionPattern h s pattern of
        (ws, Inl e) \<Rightarrow> (ws, Inl e)
      | (ws, Inr matches) \<Rightarrow>
          (let (ws', r) = host_paths_loop h s patterns
                 (foldl (\<lambda>paths m. if m \<in> set paths then paths else paths @ [m]) paths matches)
           in (ws @ ws', r)))"

definition instructionHostPaths :: "config_host \<Rightarrow> app_service \<Rightarrow> warning_event list \<times> (instruction_error + string list)" where
  "instructionHostPaths h s = host_paths_loop h s (appInstructions (svcConfig s)) []"

record instruction_text =
  riSource :: string
  riContents :: string

fun read_instructions :: "config_host \<Rightarrow> string list \<Rightarrow> warning_event list \<times> (instruction_error + instruction_text list)" where
  "read_instructions h [] = ([], Inr [])"
| "read_instructions h (hostPath # hostPaths) =
     (case chReadFile h hostPath of
        FileFailed \<Rightarrow> ([], Inl (InstructionRead hostPath))
      | FileMissing \<Rightarrow> (let (ws, r) = read_instructions h hostPaths in (warnInstructionMissing hostPath # ws, r))
      | FileData data \<Rightarrow>
          (let (ws, r) = read_instructions h hostPaths
           in (ws, attempt r (\<lambda>rest. Inr (\<lparr>riSource = hostPath, riContents = data\<rparr> # rest)))))"

definition ResolveInstructions :: "config_host \<Rightarrow> app_service \<Rightarrow> warning_event list \<times> (instruction_error + instruction_text list)" where
  "ResolveInstructions h s =
     (case instructionHostPaths h s of
        (ws, Inl e) \<Rightarrow> (ws, Inl e)
      | (ws, Inr hostPaths) \<Rightarrow> (let (ws', r) = read_instructions h hostPaths in (ws @ ws', r)))"

section \<open>Models\<close>

record model_schema =
  mdProtocol :: string
  mdName :: string
  mdURL :: string
  mdHeaders :: "(string \<times> string) list"

definition empty_model_schema :: model_schema where
  "empty_model_schema = \<lparr>mdProtocol = '''', mdName = '''', mdURL = '''', mdHeaders = []\<rparr>"

datatype model_failure =
    ModelNotObject string
  | ModelDecode
  | ModelNoProtocol string
  | ModelBadProtocol string
  | ModelNoURL string
  | ModelInvalid model_error

definition modelProtocolSupported :: "string \<Rightarrow> bool" where
  "modelProtocolSupported protocol \<longleftrightarrow> protocol = ProtocolAnthropic \<or> protocol = ProtocolOpenAI"

definition model_resolve :: "url_package \<Rightarrow> model_schema \<Rightarrow> string \<Rightarrow> model_failure + model_config" where
  "model_resolve u m name =
     (let result = \<lparr>mcProtocol = TrimSpace (mdProtocol m), mcName = mdName m, mcURL = TrimSpace (mdURL m), mcHeaders = mdHeaders m\<rparr>
      in if mcProtocol result = '''' then Inl (ModelNoProtocol name)
         else if \<not> modelProtocolSupported (mcProtocol result) then Inl (ModelBadProtocol name)
         else if mcURL result = '''' then Inl (ModelNoURL name)
         else case Normalize u result of Inl e \<Rightarrow> Inl (ModelInvalid e) | Inr c \<Rightarrow> Inr c)"

definition model_entry ::
  "url_package \<Rightarrow> (entries \<Rightarrow> model_schema option) \<Rightarrow> string \<Rightarrow> json \<Rightarrow> model_failure + model_config"
where
  "model_entry u decode name v =
     (case v of
        JObject m \<Rightarrow>
          (case (if m = [] then Some empty_model_schema else decode m) of
             None \<Rightarrow> Inl ModelDecode
           | Some model \<Rightarrow> model_resolve u model name)
      | _ \<Rightarrow> Inl (ModelNotObject name))"

text \<open>The endpoints in the order of their names; an invalid one is left out with a warning.\<close>

fun resolve_models ::
  "url_package \<Rightarrow> (entries \<Rightarrow> model_schema option) \<Rightarrow> entries \<Rightarrow> warning_event list \<times> (string \<times> model_config) list"
where
  "resolve_models u decode [] = ([], [])"
| "resolve_models u decode ((name, v) # raw) =
     (let (ws, result) = resolve_models u decode raw in
      case model_entry u decode name v of
        Inl e \<Rightarrow> (warn ''models.endpoint-unavailable'' [name] # ws, result)
      | Inr effective \<Rightarrow> (ws, (name, effective) # result))"

definition resolveModels ::
  "url_package \<Rightarrow> (entries \<Rightarrow> model_schema option) \<Rightarrow> entries \<Rightarrow> warning_event list \<times> (string \<times> model_config) list"
where
  "resolveModels u decode raw = resolve_models u decode (sort_key fst raw)"

text \<open>\<open>http.Header.Set\<close> keeps one value for each canonical name.\<close>

fun resolve_header_values ::
  "config_host \<Rightarrow> app_service \<Rightarrow> string \<Rightarrow> (string \<times> string) list \<Rightarrow> (string \<times> string) list \<Rightarrow>
    (string \<times> string \<times> (string \<times> read_error)) + (string \<times> string) list"
where
  "resolve_header_values h s name [] headers = Inr headers"
| "resolve_header_values h s name ((key, v) # kvs) headers =
     (case service_resolver h s v of
        Inl e \<Rightarrow> Inl (name, key, e)
      | Inr resolved \<Rightarrow> resolve_header_values h s name kvs (AList.update (CanonicalHeaderKey key) resolved headers))"

definition ResolveModelHeaders ::
  "config_host \<Rightarrow> app_service \<Rightarrow> string \<Rightarrow> model_config \<Rightarrow>
    (string \<times> string \<times> (string \<times> read_error)) + (string \<times> string) list"
where
  "ResolveModelHeaders h s name model = resolve_header_values h s name (mcHeaders model) []"

section \<open>Resources\<close>

record resource_schema =
  rsMCPs :: entries
  rsModels :: entries

record resources_config =
  rcMCPs :: mcp_servers
  rcModels :: "(string \<times> model_config) list"

text \<open>The decoders of the three schemas.\<close>

record decoders =
  decResources :: "entries \<Rightarrow> resource_schema option"
  decServer :: "entries \<Rightarrow> server_schema option"
  decModel :: "entries \<Rightarrow> model_schema option"

datatype resources_error =
    ResourceNotObject string
  | ResourcesDecode
  | ResourcesMCP "(string \<times> read_error) block_error"

definition not_objects :: "entries \<Rightarrow> string list \<Rightarrow> string list" where
  "not_objects raw names =
     filter (\<lambda>name. case map_of raw name of None \<Rightarrow> False | Some (JObject m) \<Rightarrow> False | Some v \<Rightarrow> True) names"

definition ResolveResources ::
  "config_host \<Rightarrow> url_package \<Rightarrow> decoders \<Rightarrow> app_service \<Rightarrow> warning_event list \<times> (resources_error + resources_config)"
where
  "ResolveResources h u d s =
     (let rawResources = svcResources s in
      case not_objects rawResources [''mcps'', ''models''] of
        name # names \<Rightarrow> ([], Inl (ResourceNotObject name))
      | [] \<Rightarrow>
          (case (if rawResources = [] then Some \<lparr>rsMCPs = [], rsModels = []\<rparr> else decResources d rawResources) of
             None \<Rightarrow> ([], Inl ResourcesDecode)
           | Some schema \<Rightarrow>
               (case DecodeWithSubstitutions u (decServer d) (rsMCPs schema) (service_resolver h s) of
                  Inl e \<Rightarrow> ([], Inl (ResourcesMCP e))
                | Inr (servers, skipped) \<Rightarrow>
                    (let (ws, models) = resolveModels u (decModel d) (rsModels schema)
                     in (map (\<lambda>(name, e). warn ''mcp.server-invalid'' [name]) skipped @ ws,
                         Inr \<lparr>rcMCPs = servers, rcModels = models\<rparr>)))))"

end
