(* ===== verification/Config_MCP_Properties.thy ===== *)
theory Config_MCP_Properties
  imports Config_MCP
begin

text \<open>
  What loading a block of MCP servers guarantees: which servers are accepted, when the whole block
  is refused, and how a local server's mounts and socket are confined.
\<close>

section \<open>Decoding a server\<close>

definition http_idle_ok :: "mcp_server \<Rightarrow> bool" where
  "http_idle_ok s \<longleftrightarrow> \<not> (msvType s = ServerLocal \<and> msvTransport s = TransportHTTP) \<or> 0 < msvIdleTimeout s"

text \<open>The values substitutions are resolved in, in order.\<close>

definition substituted :: "mcp_server \<Rightarrow> string list" where
  "substituted s = msvURL s # map snd (sort_key fst (msvHeaders s)) @ msvCommand s @ map snd (sort_key fst (msvEnvironment s))"

lemma declared_idle: "declared_server decode name raw = Inr s \<Longrightarrow> http_idle_ok s"
  by (auto simp: declared_server_def default_idle_def schema_server_def http_idle_ok_def DefaultIdleTimeout_def verdict_simps
      split: json.splits option.splits if_splits)

lemma attempt_fails:
  "(\<And>x. (\<exists>e. f x = Inl e) \<longleftrightarrow> P) \<Longrightarrow> (\<exists>e. attempt r f = Inl e) \<longleftrightarrow> (\<exists>e. r = Inl e) \<or> P"
  by (cases r) auto

lemma resolve_entries_fails:
  "(\<exists>e. resolve_entries resolve name field kvs = Inl e) \<longleftrightarrow> list_ex (\<lambda>v. \<exists>e. resolve v = Inl e) (map snd kvs)"
proof (induction kvs)
  case (Cons kv kvs)
  obtain k raw where kv: "kv = (k, raw)" by (cases kv)
  show ?case
  proof (cases "resolve raw")
    case (Inr v)
    then show ?thesis using Cons kv by (cases "resolve_entries resolve name field kvs") auto
  qed (simp add: kv)
qed simp

lemma resolve_command_fails:
  "(\<exists>e. resolve_command resolve name command = Inl e) \<longleftrightarrow> list_ex (\<lambda>v. \<exists>e. resolve v = Inl e) command"
proof -
  let ?kvs = "map (\<lambda>(i, raw). (Itoa (int i), raw)) (enumerate 0 command)"
  have "map snd ?kvs = map snd (enumerate 0 command)" by (simp add: comp_def case_prod_beta)
  then have raw: "map snd ?kvs = command" by simp
  show ?thesis unfolding resolve_command_def
    by (subst attempt_fails [where P = False]) (simp_all only: resolve_entries_fails raw, simp_all)
qed

lemma substitutions_fail:
  "(\<exists>e. resolveServerSubstitutions name s resolve = Inl e) \<longleftrightarrow> list_ex (\<lambda>v. \<exists>e. resolve v = Inl e) (substituted s)"
proof (cases "resolve (msvURL s)")
  case (Inr url)
  let ?fail = "list_ex (\<lambda>v. \<exists>e. resolve v = Inl e)"
  let ?e = "\<lambda>h c. attempt (resolve_entries resolve name (\<lambda>k. ''environment.'' @ k) (sort_key fst (msvEnvironment s)))
    (\<lambda>environment. Inr (s\<lparr>msvURL := url, msvHeaders := h, msvCommand := c, msvEnvironment := environment\<rparr>))"
  have env: "(\<exists>e. ?e h c = Inl e) \<longleftrightarrow> ?fail (map snd (sort_key fst (msvEnvironment s)))" for h c
    by (subst attempt_fails [where P = False]) (simp, simp only: resolve_entries_fails, simp)
  have command: "(\<exists>e. attempt (resolve_command resolve name (msvCommand s)) (?e h) = Inl e) \<longleftrightarrow>
      ?fail (msvCommand s) \<or> ?fail (map snd (sort_key fst (msvEnvironment s)))" for h
    by (subst attempt_fails [OF env]) (simp only: resolve_command_fails)
  have "(\<exists>e. resolveServerSubstitutions name s resolve = Inl e) \<longleftrightarrow>
      ?fail (map snd (sort_key fst (msvHeaders s))) \<or> ?fail (msvCommand s) \<or> ?fail (map snd (sort_key fst (msvEnvironment s)))"
    unfolding resolveServerSubstitutions_def Inr sum.case by (subst attempt_fails [OF command]) (simp only: resolve_entries_fails)
  then show ?thesis using Inr by (simp add: substituted_def)
qed (simp add: resolveServerSubstitutions_def substituted_def)

lemma substitutions_idle:
  "resolveServerSubstitutions name s resolve = Inr r \<Longrightarrow> http_idle_ok s \<Longrightarrow> http_idle_ok r"
  by (auto simp: resolveServerSubstitutions_def http_idle_ok_def verdict_simps split: sum.splits)

lemma decodeServer_Inr:
  assumes "decodeServer u decode name raw resolve = Inr s"
  shows "Server_validate u s name = None" "http_idle_ok s"
  using assms by (auto simp: decodeServer_def split: sum.splits option.splits dest: declared_idle substitutions_idle)

section \<open>Decoding a block\<close>

text \<open>A well-named server that is declared as it should be and has a substitution that fails.\<close>

definition substitution_fails ::
  "((string \<times> json) list \<Rightarrow> server_schema option) \<Rightarrow> 'e resolver \<Rightarrow> string \<times> json \<Rightarrow> bool"
where
  "substitution_fails decode resolve = (\<lambda>(name, raw). validateServerName name = None \<and>
     (case declared_server decode name raw of Inl e \<Rightarrow> False | Inr s \<Rightarrow> list_ex (\<lambda>v. \<exists>e. resolve v = Inl e) (substituted s)))"

lemma decode_servers_fails:
  "(\<exists>e. decode_servers u decode resolve block result skipped = Inl e) \<longleftrightarrow> list_ex (substitution_fails decode resolve) block"
proof (induction block arbitrary: result skipped)
  case (Cons entry block)
  obtain name raw where entry: "entry = (name, raw)" by (cases entry)
  show ?case
  proof (cases "validateServerName name")
    case None
    show ?thesis
    proof (cases "declared_server decode name raw")
      case (Inl e)
      then show ?thesis using Cons None entry by (simp add: decodeServer_def substitution_fails_def)
    next
      case declared: (Inr s)
      show ?thesis
      proof (cases "resolveServerSubstitutions name s resolve")
        case (Inl e)
        then show ?thesis using substitutions_fail [of name s resolve] None declared entry
          by (simp add: decodeServer_def substitution_fails_def)
      next
        case (Inr r)
        then have "\<not> substitution_fails decode resolve entry"
          using substitutions_fail [of name s resolve] declared entry by (simp add: substitution_fails_def)
        then show ?thesis using Cons None declared entry Inr by (cases "Server_validate u r name") (simp_all add: decodeServer_def)
      qed
    qed
  next
    case (Some e)
    then show ?thesis using Cons entry by (simp add: substitution_fails_def)
  qed
qed simp

lemma decode_servers_spec:
  assumes "decode_servers u decode resolve block result skipped = Inr (servers, skips)"
  shows "mset (map fst servers) + mset (map fst skips) = mset (map fst result) + mset (map fst skipped) + mset (map fst block) \<and>
    (\<forall>(name, s) \<in> set servers - set result. validateServerName name = None \<and> Server_validate u s name = None \<and> http_idle_ok s)"
  using assms
proof (induction block arbitrary: result skipped)
  case (Cons entry block)
  obtain name raw where entry: "entry = (name, raw)" by (cases entry)
  have skip: ?case if "decode_servers u decode resolve block result (skipped @ [(name, e)]) = Inr (servers, skips)" for e
    using Cons.IH [OF that] entry by (auto simp: ac_simps)
  show ?case
  proof (cases "validateServerName name")
    case None
    show ?thesis
    proof (cases "decodeServer u decode name raw resolve")
      case (Inl e)
      then show ?thesis using Cons.prems entry None skip by (cases e) auto
    next
      case (Inr s)
      then have "decode_servers u decode resolve block (result @ [(name, s)]) skipped = Inr (servers, skips)"
        using Cons.prems entry None by simp
      from Cons.IH [OF this] show ?thesis using decodeServer_Inr [OF Inr] None entry by (auto simp: ac_simps)
    qed
  next
    case (Some e)
    then show ?thesis using Cons.prems entry skip by auto
  qed
qed simp

lemma map_of_names: "(map_of kvs k \<noteq> None) = (k \<in> set (map fst kvs))"
  by (simp add: map_of_eq_None_iff)

text \<open>What a block that decodes returns.\<close>

lemma decoded_servers:
  assumes "DecodeWithSubstitutions u decode block resolve = Inr (servers, skipped)"
  shows "Config_Validate u servers = None \<and>
    mset (map fst servers) + mset (map fst skipped) = mset (map fst block) \<and>
    list_all (\<lambda>(name, s). http_idle_ok s) servers"
proof -
  have ok: "length block \<le> maxServers" "builtinServerName \<notin> set (map fst block)"
    and run: "decode_servers u decode resolve (sort_key fst block) [] [] = Inr (servers, skipped)"
    using assms by (auto simp: DecodeWithSubstitutions_def map_of_eq_None_iff split: if_splits sum.splits)
  note spec = decode_servers_spec [OF run, simplified]
  have names: "mset (map fst servers) + mset (map fst skipped) = mset (map fst block)" using spec by simp
  then have "size (mset (map fst servers)) \<le> size (mset (map fst block))" by (metis mset_subset_eq_add_left size_mset_mono)
  moreover have "set (map fst servers) \<subseteq> set (map fst block)"
    using names by (metis mset_subset_eq_add_left set_mset_mono set_mset_mset)
  ultimately have "Config_Validate u servers = None"
    using ok spec by (auto simp: Config_Validate_def verdict_simps map_of_eq_None_iff)
  then show ?thesis using names spec by (auto simp: list_all_iff)
qed

section \<open>Properties\<close>

text \<open>
  C11. Every server of a block that decodes is either returned or reported as skipped, once. What is
  returned satisfies the contract of \<open>Validate\<close> as a whole, with substitutions resolved, and
  every local HTTP server has a positive idle timeout.
\<close>

theorem mcp_servers_checked:
  assumes "DecodeWithSubstitutions u decode block resolve = Inr (servers, skipped)"
  shows "Config_Validate u servers = None \<and>
    mset (map fst servers) + mset (map fst skipped) = mset (map fst block) \<and>
    list_all (\<lambda>(name, s). http_idle_ok s) servers"
  using assms by (rule decoded_servers)

text \<open>
  C12. A block of servers is refused as a whole exactly when it has more than 128 entries, uses the
  reserved name, or some well-named and well-declared server has a substitution that fails in its
  URL, a header, an argument or an environment variable. Any other fault of a server only skips it.
\<close>

theorem mcp_block_refused_iff:
  "(case DecodeWithSubstitutions u decode block resolve of Inl e \<Rightarrow> True | Inr r \<Rightarrow> False) \<longleftrightarrow>
     length block > 128 \<or> ''toby'' \<in> set (map fst block) \<or> list_ex (substitution_fails decode resolve) block"
proof -
  have "list_ex P (sort_key fst block) = list_ex P block" for P by (simp add: list_ex_iff)
  then show ?thesis using decode_servers_fails [of u decode resolve "sort_key fst block" "[]" "[]"]
    by (auto simp: DecodeWithSubstitutions_def map_of_eq_None_iff maxServers_def builtinServerName_def split: sum.splits)
qed

section \<open>Local servers\<close>

lemma reserved_paths_valid: "list_all valid_path reserved_mount_paths"
  by (simp add: reserved_mount_paths_def valid_path_def IsAbs_def Clean_def)

lemma validateMounts_targets:
  assumes "validateMounts_mcp mounts = None" "i < length mounts"
  shows "valid_path (mmTarget (mounts ! i))" "valid_path (mmSource (mounts ! i))"
    "\<forall>r \<in> set reserved_mount_paths. parallel (elements (mmTarget (mounts ! i))) (elements r)"
    "\<forall>j < i. parallel (elements (mmTarget (mounts ! j))) (elements (mmTarget (mounts ! i)))"
proof -
  have ok: "validate_mount mounts k = None" if "k < length mounts" for k
    using assms(1) that by (auto simp: validateMounts_mcp_def verdict_simps)
  have valid: "valid_path (mmTarget (mounts ! k))" if "k < length mounts" for k
    using ok [OF that] by (simp add: validate_mount_def Let_def ValidateTarget_def verdict_simps)
  show "valid_path (mmTarget (mounts ! i))" by (rule valid [OF assms(2)])
  show "valid_path (mmSource (mounts ! i))"
    using ok [OF assms(2)] by (simp add: validate_mount_def Let_def valid_path_def verdict_simps)
  show "\<forall>r \<in> set reserved_mount_paths. parallel (elements (mmTarget (mounts ! i))) (elements r)"
  proof
    fix r assume r: "r \<in> set reserved_mount_paths"
    then have "valid_path r" using reserved_paths_valid by (simp add: list_all_iff)
    moreover have "\<not> TargetsOverlap (mmTarget (mounts ! i)) r"
      using ok [OF assms(2)] r by (simp add: validate_mount_def Let_def verdict_simps)
    ultimately show "parallel (elements (mmTarget (mounts ! i))) (elements r)"
      using TargetsOverlap_elements valid [OF assms(2)] by blast
  qed
  show "\<forall>j < i. parallel (elements (mmTarget (mounts ! j))) (elements (mmTarget (mounts ! i)))"
  proof (intro allI impI)
    fix j assume j: "j < i"
    then have "\<not> TargetsOverlap (mmTarget (mounts ! j)) (mmTarget (mounts ! i))"
      using ok [OF assms(2)] by (simp add: validate_mount_def Let_def verdict_simps)
    then show "parallel (elements (mmTarget (mounts ! j))) (elements (mmTarget (mounts ! i)))"
      using TargetsOverlap_elements valid assms(2) j by (meson order.strict_trans)
  qed
qed

lemma socket_shape:
  assumes "valid_path p" "Dir p = layout_Runtime"
  shows "\<exists>w. good_element w \<and> p = ''/run/toby/'' @ w"
proof -
  obtain ws where ws: "good_elements ws" "p = abs_path ws" using assms(1) by (rule valid_path_cases)
  have "Dir (abs_path []) = ''/''" by (simp add: abs_path_def Dir_def Clean_def IsAbs_def)
  then have "ws \<noteq> []" using assms(2) ws by (auto simp: layout_Runtime_def)
  then obtain us w where w: "ws = us @ [w]" by (cases ws rule: rev_cases) auto
  then have good: "good_elements us" "good_element w" using ws(1) by auto
  then have "abs_path us = layout_Runtime" using assms(2) ws(2) w Dir_abs_path by simp
  moreover have "us \<noteq> []" using calculation by (auto simp: layout_Runtime_def abs_path_def)
  ultimately show ?thesis using good(2) ws(2) w by (auto simp: abs_path_snoc layout_Runtime_def)
qed

lemma narrowed_scope:
  assumes "Server_EffectiveScope s = Inr sc"
  shows "scope_order (msvScope s) \<le> scope_order sc" "m \<in> set (msvMounts s) \<Longrightarrow> scope_order (mmScope m) \<le> scope_order sc"
proof -
  let ?f = "\<lambda>m. \<lparr>rmSource = mmSource m, rmSourceIdentity = \<lparr>msDevice = 0, msInode = 0, msFileType = 0\<rparr>,
                  rmTarget = mmTarget m, rmAccess = mmAccess m, rmScope = mmScope m\<rparr>"
  obtain n where n: "scope_rank (msvScope s) = Inr n" and run: "narrow_by_mounts n (msvScope s) (map ?f (msvMounts s)) = Inr sc"
    using assms by (auto simp: Server_EffectiveScope_def EffectiveScope_def split: sum.splits if_splits)
  let ?S = "insert n ((\<lambda>m. scope_order (rmScope m)) ` set (map ?f (msvMounts s)))"
  have top: "scope_order sc = Max ?S" using narrow_by_mounts_spec [OF run n] by (simp add: scope_order_def)
  have le: "x \<le> Max ?S" if "x \<in> ?S" for x by (rule Max_ge [OF _ that]) simp
  show "scope_order (msvScope s) \<le> scope_order sc" using le [of n] n unfolding top by (simp add: scope_order_def)
  assume "m \<in> set (msvMounts s)"
  then have "scope_order (mmScope m) \<in> ?S" by force
  then show "scope_order (mmScope m) \<le> scope_order sc" using le top by simp
qed

text \<open>
  C13. An accepted local server cannot reach beyond what it declares: its mount targets are not
  nested in each other nor in \<open>/proc\<close>, \<open>/dev\<close>, \<open>/tmp\<close> or \<open>/run\<close>, it is shared no more widely than it
  asks for and than any of its mounts allows, and its socket is a name directly in the runtime
  directory.
\<close>

theorem mcp_local_confined:
  assumes "Server_validate u s name = None" "msvType s = ServerLocal"
  shows "sorted_wrt (\<lambda>a b. parallel (elements (mmTarget a)) (elements (mmTarget b))) (msvMounts s) \<and>
    list_all (\<lambda>m. valid_path (mmSource m) \<and>
      list_all (\<lambda>r. parallel (elements (mmTarget m)) [r]) [''proc'', ''dev'', ''tmp'', ''run'']) (msvMounts s) \<and>
    (case Server_EffectiveScope s of Inl e \<Rightarrow> False
     | Inr sc \<Rightarrow> list_all (\<lambda>scope. scope_order scope \<le> scope_order sc) (msvScope s # map mmScope (msvMounts s))) \<and>
    (case msvEndpoint s of None \<Rightarrow> True | Some e \<Rightarrow> \<exists>w. good_element w \<and> epSocket e = ''/run/toby/'' @ w)"
proof -
  have local: "validateLocal u s name = None" using assms by (simp add: Server_validate_def mcp_words)
  then have mounts: "validateMounts_mcp (msvMounts s) = None"
    and scope: "\<exists>sc. Server_EffectiveScope s = Inr sc"
    and transport: "validate_transport u s name = None"
    by (auto simp: validateLocal_def verdict_simps split: sum.splits)
  have "elements ''/proc'' = [''proc'']" "elements ''/dev'' = [''dev'']" "elements ''/tmp'' = [''tmp'']" "elements ''/run'' = [''run'']"
    by (simp_all add: elements_def)
  then have "valid_path (mmSource m) \<and> list_all (\<lambda>r. parallel (elements (mmTarget m)) [r]) [''proc'', ''dev'', ''tmp'', ''run'']"
    if "m \<in> set (msvMounts s)" for m
    using validateMounts_targets(2,3) [OF mounts] that by (auto simp: in_set_conv_nth reserved_mount_paths_def)
  moreover have "sorted_wrt (\<lambda>a b. parallel (elements (mmTarget a)) (elements (mmTarget b))) (msvMounts s)"
    using validateMounts_targets(4) [OF mounts] by (auto simp: sorted_wrt_iff_nth_less)
  moreover have "case msvEndpoint s of None \<Rightarrow> True | Some e \<Rightarrow> \<exists>w. good_element w \<and> epSocket e = ''/run/toby/'' @ w"
    using transport socket_shape
    by (auto simp: validate_transport_def Endpoint_validate_def verdict_simps valid_path_def split: option.splits if_splits)
  ultimately show ?thesis using scope narrowed_scope [of s] by (auto simp: list_all_iff)
qed

section \<open>Examples\<close>

definition ex_mcp_urls :: url_package where
  "ex_mcp_urls =
     (let root = \<lparr>urlScheme = '''', urlOpaque = '''', urlUser = False, urlHost = '''', urlHostname = '''', urlPort = '''',
                  urlPath = ''/'', urlForceQuery = False, urlRawQuery = '''', urlFragment = ''''\<rparr>
      in \<lparr>url_Parse = (\<lambda>s. None), url_ParseRequestURI = (\<lambda>s. if s = ''/'' then Some root else None)\<rparr>)"

definition ex_mcp_schema :: server_schema where
  "ex_mcp_schema =
     \<lparr>ssType = ''local'', ssTransport = ''http'', ssURL = '''', ssHeaders = [], ssImage = ''i'', ssCommand = [''c''],
      ssEnvironment = [(''K'', ''$'')], ssEndpoint = Some \<lparr>epKind = ''unix'', epSocket = ''/run/toby/m'', epPath = ''/''\<rparr>,
      ssMounts = [\<lparr>mmSource = ''/s'', mmTarget = ''/t'', mmAccess = ''regular'', mmScope = ''home''\<rparr>],
      ssScope = ''user'', ssNetwork = ''private'', ssIdleTimeout = None\<rparr>"

definition ex_mcp_server :: mcp_server where
  "ex_mcp_server = (default_idle (schema_server ex_mcp_schema))\<lparr>msvEnvironment := [(''K'', ''v'')]\<rparr>"

definition ex_resolver :: "unit resolver" where
  "ex_resolver v = (if v = ''!'' then Inl () else if v = ''$'' then Inr ''v'' else Inr v)"

definition ex_mcp_block :: "(string \<times> json) list" where
  "ex_mcp_block = [(''b'', JNull), (''a'', JObject [(''type'', JString ''local'')])]"

lemma ex_mcp_texts:
  "TrimSpace ''i'' = ''i''" "TrimSpace ''c'' = ''c''" "ValidString ''i''" "ValidString ''c''" "ValidString ''v''" "ValidString ''/''"
  "ValidString ''/s''" "ValidString ''/t''" "ValidString ''/run/toby/m''"
  "validateServerName ''a'' = None" "validateServerName ''b'' = None"
  by (simp_all add: TrimSpace_component component_char_def validateServerName_def ValidString_def ascii_letter_def)

lemma ex_mcp_paths:
  "Clean ''/'' = ''/''" "Clean ''/s'' = ''/s''" "Clean ''/t'' = ''/t''" "Clean ''/run/toby/m'' = ''/run/toby/m''"
  "Clean ''/proc'' = ''/proc''" "Clean ''/dev'' = ''/dev''" "Clean ''/tmp'' = ''/tmp''" "Clean ''/run'' = ''/run''"
  by (simp_all add: Clean_def IsAbs_def)

lemma ex_mcp_socket: "Dir ''/run/toby/m'' = layout_Runtime" "Base ''/run/toby/m'' = ''m''"
  by code_simp+

lemma ex_mcp_server_eq:
  "ex_mcp_server =
     \<lparr>msvType = ''local'', msvTransport = ''http'', msvURL = '''', msvHeaders = [], msvImage = ''i'', msvCommand = [''c''],
      msvEnvironment = [(''K'', ''v'')],
      msvEndpoint = Some \<lparr>epKind = ''unix'', epSocket = ''/run/toby/m'', epPath = ''/''\<rparr>,
      msvMounts = [\<lparr>mmSource = ''/s'', mmTarget = ''/t'', mmAccess = ''regular'', mmScope = ''home''\<rparr>],
      msvScope = ''user'', msvNetwork = ''private'', msvIdleTimeout = DefaultIdleTimeout\<rparr>"
  by (simp add: ex_mcp_server_def ex_mcp_schema_def schema_server_def default_idle_def mcp_words)

lemma ex_mcp_valid: "Server_validate ex_mcp_urls ex_mcp_server ''a'' = None"
  by (simp add: ex_mcp_server_eq Server_validate_def validateLocal_def mcp_words ex_mcp_texts enumerate_eq_zip
      validateEnvironment_mcp_def environment_name_def ascii_letter_def validateMounts_mcp_def validate_mount_def
      ex_mcp_paths IsAbs_def ValidateTarget_def validateSandboxPath_mount_def reserved_mount_paths_def TargetsOverlap_def
      AccessRegular_def scope_defs Server_EffectiveScope_def EffectiveScope_def scope_rank_def validate_transport_def
      Endpoint_validate_def ValidateRequestPath_def ex_mcp_urls_def ex_mcp_socket DefaultIdleTimeout_def map_error_def)

lemma ex_mcp_type: "msvType ex_mcp_server = ServerLocal"
  by (simp add: ex_mcp_server_eq mcp_words)

lemma ex_mcp_decoded:
  "DecodeWithSubstitutions ex_mcp_urls (\<lambda>m. Some ex_mcp_schema) ex_mcp_block ex_resolver =
     Inr ([(''a'', ex_mcp_server)], [(''b'', ServerNotObject ''b'')])"
proof -
  have "declared_server (\<lambda>m. Some ex_mcp_schema) ''a'' (JObject [(''type'', JString ''local'')]) =
      Inr (ex_mcp_server\<lparr>msvEnvironment := [(''K'', ''$'')]\<rparr>)"
    by (simp add: declared_server_def validateServerRawFields_def raw_string_def decode_schema_def mcp_words
        ex_mcp_schema_def schema_server_def default_idle_def ex_mcp_server_eq)
  moreover have "resolveServerSubstitutions ''a'' (ex_mcp_server\<lparr>msvEnvironment := [(''K'', ''$'')]\<rparr>) ex_resolver = Inr ex_mcp_server"
    by (simp add: resolveServerSubstitutions_def ex_resolver_def ex_mcp_server_eq resolve_command_def enumerate_eq_zip)
  ultimately have "decodeServer ex_mcp_urls (\<lambda>m. Some ex_mcp_schema) ''a'' (JObject [(''type'', JString ''local'')]) ex_resolver =
      Inr ex_mcp_server"
    by (simp add: decodeServer_def ex_mcp_valid)
  moreover have "sort_key fst ex_mcp_block = rev ex_mcp_block" by (simp add: ex_mcp_block_def)
  ultimately show ?thesis
    by (simp add: DecodeWithSubstitutions_def ex_mcp_block_def maxServers_def builtinServerName_def ex_mcp_texts
        decodeServer_def declared_server_def)
qed

theorem mcp_servers_checked_witness:
  "Config_Validate ex_mcp_urls [(''a'', ex_mcp_server)] = None \<and> http_idle_ok ex_mcp_server"
  using mcp_servers_checked [OF ex_mcp_decoded] by simp

theorem mcp_local_confined_witness:
  "parallel (elements (mmTarget (msvMounts ex_mcp_server ! 0))) [''run''] \<and>
     (\<exists>w. good_element w \<and> ''/run/toby/m'' = ''/run/toby/'' @ w)"
  using mcp_local_confined [OF ex_mcp_valid ex_mcp_type]
  by (simp add: ex_mcp_server_eq)

end
