(* ===== verification/Config_Resources_Properties.thy ===== *)
theory Config_Resources_Properties
  imports Config_Resources Config_MCP_Properties
begin

text \<open>
  Substitutions are made once, from the left; instruction files are read once each; what the
  resources of a launch resolve to is checked, and what is left out is warned of.
\<close>

section \<open>Substitutions\<close>

abbreviation (input) open_brace :: char where
  "open_brace \<equiv> CHR 0x7B"

abbreviation (input) close_brace :: char where
  "close_brace \<equiv> CHR 0x7D"

lemma no_match: "open_brace \<noteq> c \<Longrightarrow> match_substitution (c # s) = None"
  by (auto simp: match_substitution_def)

lemma resolve_literal:
  "open_brace \<notin> set lit \<Longrightarrow>
    resolveString h ds home (lit @ s) = attempt (resolveString h ds home s) (\<lambda>r. Inr (lit @ r))"
proof (induction lit)
  case Nil
  then show ?case by (cases "resolveString h ds home s") simp_all
next
  case (Cons c lit)
  then show ?case by (cases "resolveString h ds home s") (simp_all add: no_match)
qed

lemma match_target_eq:
  assumes "target \<noteq> ''''" "close_brace \<notin> set target"
  shows "match_target (target @ close_brace # rest) = Some (target, rest)"
proof -
  have "\<forall>c \<in> set target. c \<noteq> close_brace" using assms(2) by auto
  then show ?thesis using assms(1) by (simp add: match_target_def takeWhile_append dropWhile_append)
qed

lemma resolve_match:
  assumes "target \<noteq> ''''" "close_brace \<notin> set target" "kind = ''env'' \<or> kind = ''file''"
  shows "resolveString h ds home (open_brace # kind @ CHR '':'' # target @ close_brace # rest) =
    attempt (substitute h ds home kind target) (\<lambda>v. attempt (resolveString h ds home rest) (\<lambda>r. Inr (v @ r)))"
  using assms(3) match_target_eq [OF assms(1,2), of rest] by (auto simp: match_substitution_def)

text \<open>
  C14. Text without an opening brace is kept, a reference to an environment variable is replaced by
  its value and a reference to a file by its trimmed contents, and resolution goes on after the
  reference: what was inserted is never looked at again.
\<close>

theorem substitution_single_pass:
  assumes "open_brace \<notin> set lit" "target \<noteq> ''''" "close_brace \<notin> set target"
  shows "resolveString h ds home lit = Inr lit \<and>
    resolveString h ds home (lit @ open_brace # ''env:'' @ target @ close_brace # rest) =
      attempt (resolveString h ds home rest) (\<lambda>r. Inr (lit @ chGetenv h (TrimSpace target) @ r)) \<and>
    resolveString h ds home (lit @ open_brace # ''file:'' @ target @ close_brace # rest) =
      (case readSubstitutionFile h (ExpandHostHome (TrimSpace target) home) ds of
         Inl e \<Rightarrow> Inl (TrimSpace target, e)
       | Inr data \<Rightarrow> attempt (resolveString h ds home rest) (\<lambda>r. Inr (lit @ TrimSpace data @ r)))"
proof (intro conjI)
  show "resolveString h ds home lit = Inr lit" using resolve_literal [OF assms(1), of h ds home "[]"] by simp
  show "resolveString h ds home (lit @ open_brace # ''env:'' @ target @ close_brace # rest) =
      attempt (resolveString h ds home rest) (\<lambda>r. Inr (lit @ chGetenv h (TrimSpace target) @ r))"
    using resolve_match [OF assms(2,3), of "''env''"]
    by (cases "resolveString h ds home rest") (simp_all add: resolve_literal [OF assms(1)] substitute_def Let_def)
  show "resolveString h ds home (lit @ open_brace # ''file:'' @ target @ close_brace # rest) =
      (case readSubstitutionFile h (ExpandHostHome (TrimSpace target) home) ds of
         Inl e \<Rightarrow> Inl (TrimSpace target, e)
       | Inr data \<Rightarrow> attempt (resolveString h ds home rest) (\<lambda>r. Inr (lit @ TrimSpace data @ r)))"
    using resolve_match [OF assms(2,3), of "''file''"]
    by (cases "readSubstitutionFile h (ExpandHostHome (TrimSpace target) home) ds"; cases "resolveString h ds home rest")
      (simp_all add: resolve_literal [OF assms(1)] substitute_def Let_def)
qed

section \<open>Instruction files\<close>

lemma add_new_distinct:
  "distinct paths \<Longrightarrow> distinct (foldl (\<lambda>paths m. if m \<in> set paths then paths else paths @ [m]) paths ms)"
  by (induction ms arbitrary: paths) auto

lemma host_paths_distinct:
  "host_paths_loop h s patterns paths = (ws, Inr r) \<Longrightarrow> distinct paths \<Longrightarrow> distinct r"
proof (induction patterns arbitrary: paths ws)
  case (Cons pattern patterns)
  then show ?case by (auto split: prod.splits sum.splits dest: add_new_distinct)
qed simp

lemma read_instructions_Inr:
  "read_instructions h paths = (ws, Inr ts) \<Longrightarrow>
    map riSource ts = filter (\<lambda>p. chReadFile h p \<noteq> FileMissing) paths \<and>
    ws = map warnInstructionMissing (filter (\<lambda>p. chReadFile h p = FileMissing) paths) \<and>
    list_all (\<lambda>t. chReadFile h (riSource t) = FileData (riContents t)) ts"
proof (induction paths arbitrary: ws ts)
  case (Cons p paths)
  then show ?case by (auto simp: verdict_simps split: prod.splits file_read.splits)
qed simp

text \<open>
  The instructions of a launch are the files the configured patterns resolve to, each read
  once, in the order of its first occurrence; a file that is missing is left out with a warning.
\<close>

theorem instructions_read_once:
  assumes "ResolveInstructions h s = (ws, Inr ts)"
  shows "distinct (map riSource ts) \<and>
    list_all (\<lambda>t. chReadFile h (riSource t) = FileData (riContents t)) ts \<and>
    (\<exists>ws' paths. instructionHostPaths h s = (ws', Inr paths) \<and> distinct paths \<and>
       map riSource ts = filter (\<lambda>p. chReadFile h p \<noteq> FileMissing) paths \<and>
       ws = ws' @ map warnInstructionMissing (filter (\<lambda>p. chReadFile h p = FileMissing) paths))"
proof -
  obtain ws1 paths ws2 where p: "instructionHostPaths h s = (ws1, Inr paths)" "read_instructions h paths = (ws2, Inr ts)" "ws = ws1 @ ws2"
    using assms by (auto simp: ResolveInstructions_def split: prod.splits sum.splits)
  have "distinct paths" using host_paths_distinct p(1) by (fastforce simp: instructionHostPaths_def)
  then show ?thesis using p read_instructions_Inr [OF p(2)] by auto
qed

section \<open>Resources\<close>

lemma Normalize_valid: "Normalize u c = Inr c' \<Longrightarrow> Model_Validate u c' = None"
  by (auto simp: Normalize_def Let_def verdict_simps)

lemma model_entry_valid: "model_entry u decode name v = Inr c \<Longrightarrow> Model_Validate u c = None"
  by (auto simp: model_entry_def model_resolve_def Let_def split: json.splits option.splits if_splits sum.splits dest: Normalize_valid)

lemma resolve_models_spec:
  "resolve_models u decode raw = (ws, models) \<Longrightarrow>
    mset (map fst models) + mset (concat (map warnAttributes ws)) = mset (map fst raw) \<and>
    (\<forall>(name, c) \<in> set models. Model_Validate u c = None)"
proof (induction raw arbitrary: ws models)
  case (Cons entry raw)
  obtain name v where entry: "entry = (name, v)" by (cases entry)
  obtain ws' models' where rest: "resolve_models u decode raw = (ws', models')" by (cases "resolve_models u decode raw")
  show ?case
    using Cons.prems Cons.IH [OF rest] model_entry_valid [of u decode name v]
    by (auto simp: entry rest warn_def split: sum.splits)
qed simp

definition declared_resources :: "decoders \<Rightarrow> app_service \<Rightarrow> resource_schema" where
  "declared_resources d s =
     (if svcResources s = [] then \<lparr>rsMCPs = [], rsModels = []\<rparr>
      else case decResources d (svcResources s) of None \<Rightarrow> \<lparr>rsMCPs = [], rsModels = []\<rparr> | Some schema \<Rightarrow> schema)"

text \<open>
  C15. Every MCP server and every models endpoint of the resources of a launch has passed its
  validation, and each declared one that is not among them is named in exactly one warning.
\<close>

theorem resources_resolved:
  assumes "ResolveResources h u d s = (ws, Inr r)"
  shows "Config_Validate u (rcMCPs r) = None \<and> list_all (\<lambda>(name, c). Model_Validate u c = None) (rcModels r) \<and>
    mset (map fst (rcMCPs r)) + mset (map fst (rcModels r)) + mset (concat (map warnAttributes ws)) =
      mset (map fst (rsMCPs (declared_resources d s))) + mset (map fst (rsModels (declared_resources d s)))"
proof -
  let ?schema = "declared_resources d s"
  obtain servers skipped ws' models where
    mcps: "DecodeWithSubstitutions u (decServer d) (rsMCPs ?schema) (service_resolver h s) = Inr (servers, skipped)" and
    models: "resolveModels u (decModel d) (rsModels ?schema) = (ws', models)" and
    r: "r = \<lparr>rcMCPs = servers, rcModels = models\<rparr>" "ws = map (\<lambda>(name, e). warn ''mcp.server-invalid'' [name]) skipped @ ws'"
    using assms
    by (auto simp: ResolveResources_def declared_resources_def Let_def split: list.splits option.splits sum.splits prod.splits if_splits)
  have names: "concat (map (\<lambda>x. warnAttributes (case x of (name, e) \<Rightarrow> warn ''mcp.server-invalid'' [name])) skipped) = map fst skipped"
    by (induction skipped) (auto simp: warn_def)
  note m = resolve_models_spec [OF models [unfolded resolveModels_def]]
  have "Config_Validate u servers = None \<and> mset (map fst servers) + mset (map fst skipped) = mset (map fst (rsMCPs ?schema))"
    using decoded_servers [OF mcps] by blast
  then show ?thesis using m by (auto simp: r names comp_def list_all_iff ac_simps)
qed

section \<open>Examples\<close>

definition ex_config_host :: config_host where
  "ex_config_host =
     \<lparr>chGetenv = (\<lambda>name. if name = ''K'' then open_brace # ''env:K'' @ [close_brace] else ''''),
      chHomeDir = None, chReadFile = (\<lambda>p. if p = ''/i'' then FileData ''t'' else FileMissing),
      chGlob = (\<lambda>p. None), chCwd = None\<rparr>"

theorem substitution_single_pass_witness:
  "resolveString ex_config_host [] '''' (''a'' @ open_brace # ''env:'' @ ''K'' @ close_brace # ''b'') =
     Inr (''a'' @ (open_brace # ''env:K'' @ [close_brace]) @ ''b'')"
  using substitution_single_pass [of "''a''" "''K''" ex_config_host "[]" "''''" "''b''"]
    resolve_literal [of "''b''" ex_config_host "[]" "''''" "[]"]
  by (simp add: ex_config_host_def TrimSpace_component component_char_def ascii_letter_def)

definition ex_resource_service :: app_service where
  "ex_resource_service =
     \<lparr>svcDir = ''/d'', svcHome = ''/h'', svcConfig = emptyConfig\<lparr>appInstructions := [''/i'', ''/j'', ''/i'']\<rparr>,
      svcResources = [(''mcps'', JObject [(''b'', JNull)]), (''models'', JObject [(''m'', JNull)])], svcPending = []\<rparr>"

lemma ex_instruction_trims: "TrimSpace ''/i'' = ''/i''" "TrimSpace ''/j'' = ''/j''"
  by code_simp+

lemma ex_instructions:
  "ResolveInstructions ex_config_host ex_resource_service =
     ([warnInstructionMissing ''/j''], Inr [\<lparr>riSource = ''/i'', riContents = ''t''\<rparr>])"
  by (simp add: ResolveInstructions_def instructionHostPaths_def ex_resource_service_def resolveInstructionPattern_def
      ex_instruction_trims ExpandHostHome_def IsAbs_def hasGlobMeta_def cleanInstructionPaths_def Abs_path_def Clean_def
      ex_config_host_def Let_def)

theorem instructions_read_once_witness:
  "list_all (\<lambda>t. chReadFile ex_config_host (riSource t) = FileData (riContents t)) [\<lparr>riSource = ''/i'', riContents = ''t''\<rparr>]"
  using instructions_read_once [OF ex_instructions] by blast

definition ex_decoders :: decoders where
  "ex_decoders =
     \<lparr>decResources = (\<lambda>m. Some \<lparr>rsMCPs = [(''b'', JNull)], rsModels = [(''m'', JNull)]\<rparr>),
      decServer = (\<lambda>m. None), decModel = (\<lambda>m. None)\<rparr>"

lemma ex_resources:
  "ResolveResources ex_config_host ex_mcp_urls ex_decoders ex_resource_service =
     ([warn ''mcp.server-invalid'' [''b''], warn ''models.endpoint-unavailable'' [''m'']], Inr \<lparr>rcMCPs = [], rcModels = []\<rparr>)"
  by (simp add: ResolveResources_def ex_resource_service_def not_objects_def ex_decoders_def DecodeWithSubstitutions_def
      maxServers_def builtinServerName_def ex_mcp_texts decodeServer_def declared_server_def resolveModels_def model_entry_def Let_def)

theorem resources_resolved_witness:
  "Config_Validate ex_mcp_urls [] = None"
  using resources_resolved [OF ex_resources] by simp

end
