(* ===== verification/Lease_Registry.thy ===== *)
theory Lease_Registry
  imports Prelude
begin

text \<open>
  \<open>internal/agent/resourcelease\<close>: the agent's registry of effective resource configurations and
  their leases (\<open>service.go\<close>, \<open>lease.go\<close>, \<open>types.go\<close>).

  Entries and leases are objects that several maps and the clients share, so they live in two
  stores and a pointer is a position; the four maps of the service hold pointers. Every critical
  section of the service mutex is one function, and one rule of the step relation. The
  notifications of the openers are sent after the mutex is released: they are pending until they
  are delivered. A caller (the authority of a launch) is a number, a configuration any value with a
  JSON document.
\<close>

section \<open>State\<close>

type_synonym caller = nat

definition ResourceOCI :: string where "ResourceOCI = ''resource.oci''"
definition ResourceMCP :: string where "ResourceMCP = ''resource.mcp''"
definition ResourceModels :: string where "ResourceModels = ''resource.models''"

definition Kind_Validate :: "string \<Rightarrow> bool" where
  "Kind_Validate k \<longleftrightarrow> k = ResourceOCI \<or> k = ResourceMCP \<or> k = ResourceModels"

record 'c resolved =
  rvID :: string
  rvDigest :: bytes
  rvKind :: string
  rvConfig :: "'c option"

record 'c lease_entry =
  leResolved :: "'c resolved"
  leLeases :: "(string \<times> nat) list"

record registry_lease =
  rlResourceID :: string
  rlLeaseID :: string
  rlCaller :: "caller option"
  rlDone :: bool
  rlClosed :: bool

record 'c lease_service =
  lsEntries :: "'c lease_entry list"
  lsObjects :: "registry_lease list"
  lsByDigest :: "(bytes \<times> nat) list"
  lsByID :: "(string \<times> nat) list"
  lsDigests :: "(string \<times> bytes) list"
  lsLeases :: "(string \<times> nat) list"
  lsClosing :: bool
  lsPending :: "(bool \<times> 'c resolved) list"

definition new_lease_service :: "'c lease_service" where
  "new_lease_service =
     \<lparr>lsEntries = [], lsObjects = [], lsByDigest = [], lsByID = [], lsDigests = [], lsLeases = [], lsClosing = False, lsPending = []\<rparr>"

datatype lease_error =
    KindUnknown string
  | KindDuplicate string
  | KindNotConfigured string
  | ResolveFailed
  | ResolvedKind string
  | ResolvedNoID
  | ResolvedNoDigest
  | ResolvedNoConfiguration
  | LeaseIDFailed
  | LeaseClosing
  | LeaseDuplicate
  | UUIDCollision string
  | IdentityCollision string
  | LeaseUnavailable
  | ResourceUnavailable
  | KindMismatch string
  | NoOpener string
  | NotModels

text \<open>\<open>NewService\<close>: the kinds of the resolvers, or of the openers, are known and registered once.\<close>

fun register_kinds :: "string list \<Rightarrow> string list \<Rightarrow> lease_error verdict" where
  "register_kinds [] byKind = None"
| "register_kinds (kind # kinds) byKind =
     (if \<not> Kind_Validate kind then Some (KindUnknown kind)
      else if kind \<in> set byKind then Some (KindDuplicate kind)
      else register_kinds kinds (kind # byKind))"

section \<open>Acquiring\<close>

definition validateResolved :: "string \<Rightarrow> 'c resolved \<Rightarrow> lease_error verdict" where
  "validateResolved requested r =
     and_then (fail_if (rvKind r \<noteq> requested) (ResolvedKind (rvKind r)))
    (and_then (fail_if (rvID r = '''') ResolvedNoID)
    (and_then (fail_if (rvDigest r = replicate 64 0) ResolvedNoDigest)
              (fail_if (rvConfig r = None) ResolvedNoConfiguration)))"

text \<open>\<open>marshal\<close> is \<open>json.Marshal\<close>; the nil configuration has the document \<open>null\<close>.\<close>

definition sameConfiguration :: "('c option \<Rightarrow> string option) \<Rightarrow> 'c option \<Rightarrow> 'c option \<Rightarrow> bool" where
  "sameConfiguration marshal left right =
     (case (marshal left, marshal right) of (Some l, Some r) \<Rightarrow> l = r | _ \<Rightarrow> False)"

definition same_identity :: "('c option \<Rightarrow> string option) \<Rightarrow> 'c resolved \<Rightarrow> 'c resolved \<Rightarrow> bool" where
  "same_identity marshal r r' \<longleftrightarrow>
     rvID r = rvID r' \<and> rvKind r = rvKind r' \<and> sameConfiguration marshal (rvConfig r) (rvConfig r')"

text \<open>The lease recorded for an entry.\<close>

definition record_lease :: "'c lease_service \<Rightarrow> nat \<Rightarrow> string \<Rightarrow> string \<Rightarrow> caller \<Rightarrow> 'c lease_service" where
  "record_lease s p resourceID leaseID c =
     (let q = length (lsObjects s); e = lsEntries s ! p in
      s\<lparr>lsObjects := lsObjects s @ [\<lparr>rlResourceID = resourceID, rlLeaseID = leaseID, rlCaller = Some c, rlDone = False, rlClosed = False\<rparr>],
        lsEntries := (lsEntries s)[p := e\<lparr>leLeases := AList.update leaseID q (leLeases e)\<rparr>],
        lsLeases := AList.update leaseID q (lsLeases s)\<rparr>)"

definition add_entry :: "'c lease_service \<Rightarrow> 'c resolved \<Rightarrow> 'c lease_service" where
  "add_entry s r =
     (let p = length (lsEntries s) in
      s\<lparr>lsEntries := lsEntries s @ [\<lparr>leResolved = r, leLeases = []\<rparr>],
        lsByDigest := AList.update (rvDigest r) p (lsByDigest s),
        lsByID := AList.update (rvID r) p (lsByID s),
        lsDigests := AList.update (rvID r) (rvDigest r) (lsDigests s)\<rparr>)"

text \<open>The critical section of \<open>AcquireResource\<close>, with the notification that follows it.\<close>

definition acquire_locked ::
  "('c option \<Rightarrow> string option) \<Rightarrow> 'c lease_service \<Rightarrow> 'c resolved \<Rightarrow> string \<Rightarrow> caller \<Rightarrow> lease_error + 'c lease_service"
where
  "acquire_locked marshal s r leaseID c =
     (if lsClosing s then Inl LeaseClosing
      else if map_of (lsLeases s) leaseID \<noteq> None then Inl LeaseDuplicate
      else case map_of (lsByDigest s) (rvDigest r) of
        None \<Rightarrow>
          (if (case map_of (lsDigests s) (rvID r) of None \<Rightarrow> False | Some known \<Rightarrow> known \<noteq> rvDigest r)
           then Inl (UUIDCollision (rvID r))
           else Inr (record_lease (add_entry s r) (length (lsEntries s)) (rvID r) leaseID c
                  \<lparr>lsPending := lsPending s @ [(True, r)]\<rparr>))
      | Some p \<Rightarrow>
          (if \<not> same_identity marshal (leResolved (lsEntries s ! p)) r then Inl (IdentityCollision (rvID r))
           else Inr (record_lease s p (rvID r) leaseID c\<lparr>lsPending := lsPending s @ [(True, r)]\<rparr>)))"

text \<open>
  The resolvers by kind and the kinds that have an opener. A resolver returns \<open>None\<close> when it
  refuses the configuration.
\<close>

record ('raw, 'c) lease_config =
  lcResolvers :: "(string \<times> ('raw \<Rightarrow> 'c resolved option)) list"
  lcOpeners :: "string list"
  lcMarshal :: "'c option \<Rightarrow> string option"

definition NewLeaseService :: "('raw, 'c) lease_config \<Rightarrow> lease_error + 'c lease_service" where
  "NewLeaseService cfg =
     require (and_then (register_kinds (map fst (lcResolvers cfg)) []) (register_kinds (lcOpeners cfg) [])) (Inr new_lease_service)"

definition resolve_request :: "('raw, 'c) lease_config \<Rightarrow> string \<Rightarrow> 'raw \<Rightarrow> lease_error + 'c resolved" where
  "resolve_request cfg kind raw =
     (case map_of (lcResolvers cfg) kind of
        None \<Rightarrow> Inl (KindNotConfigured kind)
      | Some resolver \<Rightarrow>
          (case resolver raw of
             None \<Rightarrow> Inl ResolveFailed
           | Some r \<Rightarrow> require (validateResolved kind r) (Inr r)))"

definition AcquireResource ::
  "('raw, 'c) lease_config \<Rightarrow> 'c lease_service \<Rightarrow> string \<Rightarrow> 'raw \<Rightarrow> caller \<Rightarrow> string option \<Rightarrow> lease_error + 'c lease_service"
where
  "AcquireResource cfg s kind raw c newID =
     attempt (resolve_request cfg kind raw) (\<lambda>r.
       case newID of
         None \<Rightarrow> Inl LeaseIDFailed
       | Some leaseID \<Rightarrow> acquire_locked (lcMarshal cfg) s r leaseID c)"

section \<open>Releasing\<close>

definition close_lease :: "registry_lease \<Rightarrow> registry_lease" where
  "close_lease l = l\<lparr>rlClosed := True, rlCaller := None, rlDone := True\<rparr>"

definition release :: "'c lease_service \<Rightarrow> nat \<Rightarrow> 'c lease_service" where
  "release s q =
     (let lease = lsObjects s ! q in
      if rlClosed lease then s
      else
        (let s = s\<lparr>lsObjects := (lsObjects s)[q := close_lease lease], lsLeases := AList.delete (rlLeaseID lease) (lsLeases s)\<rparr> in
         case map_of (lsByID s) (rlResourceID lease) of
           None \<Rightarrow> s
         | Some p \<Rightarrow>
             (let e = lsEntries s ! p; e' = e\<lparr>leLeases := AList.delete (rlLeaseID lease) (leLeases e)\<rparr>;
                  s = s\<lparr>lsEntries := (lsEntries s)[p := e']\<rparr>;
                  s = (if leLeases e' = []
                       then s\<lparr>lsByDigest := AList.delete (rvDigest (leResolved e)) (lsByDigest s),
                              lsByID := AList.delete (rlResourceID lease) (lsByID s)\<rparr>
                       else s)
              in if rvConfig (leResolved e) \<noteq> None then s\<lparr>lsPending := lsPending s @ [(False, leResolved e)]\<rparr> else s)))"

text \<open>The critical section of \<open>Shutdown\<close>; a second shutdown does nothing.\<close>

definition lease_shutdown :: "'c lease_service \<Rightarrow> 'c lease_service" where
  "lease_shutdown s =
     (if lsClosing s then s
      else s\<lparr>lsClosing := True,
             lsObjects := foldl (\<lambda>objs (leaseID, q). objs[q := close_lease (objs ! q)]) (lsObjects s) (lsLeases s),
             lsLeases := [], lsByDigest := [], lsByID := [], lsDigests := []\<rparr>)"

section \<open>Looking up\<close>

definition lookupStream :: "'c lease_service \<Rightarrow> string \<Rightarrow> string \<Rightarrow> lease_error + ('c resolved \<times> caller option)" where
  "lookupStream s resourceID leaseID =
     (case map_of (lsLeases s) leaseID of
        None \<Rightarrow> Inl LeaseUnavailable
      | Some q \<Rightarrow>
          (let lease = lsObjects s ! q in
           if rlResourceID lease \<noteq> resourceID \<or> rlClosed lease then Inl LeaseUnavailable
           else case map_of (lsByID s) resourceID of
             None \<Rightarrow> Inl ResourceUnavailable
           | Some p \<Rightarrow> Inr (leResolved (lsEntries s ! p), rlCaller lease)))"

definition lookupLease :: "'c lease_service \<Rightarrow> string \<Rightarrow> lease_error + ('c resolved \<times> caller option)" where
  "lookupLease s leaseID =
     (case map_of (lsLeases s) leaseID of
        None \<Rightarrow> Inl LeaseUnavailable
      | Some q \<Rightarrow>
          (let lease = lsObjects s ! q in
           if rlClosed lease then Inl LeaseUnavailable
           else case map_of (lsByID s) (rlResourceID lease) of
             None \<Rightarrow> Inl ResourceUnavailable
           | Some p \<Rightarrow> Inr (leResolved (lsEntries s ! p), rlCaller lease)))"

text \<open>What \<open>OpenResource\<close> asks the opener of the kind for.\<close>

definition open_request ::
  "('raw, 'c) lease_config \<Rightarrow> 'c lease_service \<Rightarrow> string \<Rightarrow> string \<Rightarrow> string \<Rightarrow> lease_error + ('c resolved \<times> caller option)"
where
  "open_request cfg s kind resourceID leaseID =
     (if \<not> Kind_Validate kind then Inl (KindUnknown kind)
      else attempt (lookupStream s resourceID leaseID) (\<lambda>(r, c).
        if rvKind r \<noteq> kind then Inl (KindMismatch (rvKind r))
        else if kind \<notin> set (lcOpeners cfg) then Inl (NoOpener kind)
        else Inr (r, c)))"

text \<open>What \<open>ListModels\<close> and \<open>FlushModelsCache\<close> ask the models operator for.\<close>

definition models_request :: "'c lease_service \<Rightarrow> string \<Rightarrow> lease_error + ('c resolved \<times> caller option)" where
  "models_request s leaseID =
     attempt (lookupLease s leaseID) (\<lambda>(r, c). if rvKind r \<noteq> ResourceModels then Inl NotModels else Inr (r, c))"

section \<open>Items\<close>

record resource_item =
  riID :: string
  riKind :: string
  riActiveLeases :: nat

definition registered_items :: "'c lease_service \<Rightarrow> (string \<times> resource_item) list" where
  "registered_items s =
     map (\<lambda>(i, p). let e = lsEntries s ! p in
            (rvID (leResolved e), \<lparr>riID = rvID (leResolved e), riKind = rvKind (leResolved e), riActiveLeases = length (leLeases e)\<rparr>))
       (lsByID s)"

text \<open>\<open>running\<close>: what the openers list as running, by kind, in the order the openers are visited.\<close>

definition snapshotItems :: "'c lease_service \<Rightarrow> (string \<times> string list) list \<Rightarrow> (string \<times> resource_item) list \<times> nat" where
  "snapshotItems s running =
     (fold (\<lambda>(kind, ids) byID.
        fold (\<lambda>i byID. if i = '''' \<or> map_of byID i \<noteq> None then byID
                     else byID @ [(i, \<lparr>riID = i, riKind = kind, riActiveLeases = 0\<rparr>)]) ids byID)
        running (registered_items s),
      length (lsLeases s))"

definition ResourceItems :: "'c lease_service \<Rightarrow> (string \<times> string list) list \<Rightarrow> resource_item list" where
  "ResourceItems s running = sort_key (\<lambda>i. (riKind i, riID i)) (map snd (fst (snapshotItems s running)))"

section \<open>Steps\<close>

text \<open>
  The observations: a lease acquired for the resource an entry already holds or for a new one, a
  refused acquisition, a release, a request granted to an opener, a delivered notification and the
  shutdown.
\<close>

datatype 'c lease_event =
    EvAcquired "'c resolved" "'c resolved" string caller
  | EvRefused "'c resolved" string lease_error
  | EvReleased string
  | EvReleasedAgain
  | EvOpened string string string "'c resolved" caller
  | EvModels string "'c resolved" caller
  | EvNotified bool "'c resolved"
  | EvShutdown

inductive lease_step :: "('raw, 'c) lease_config \<Rightarrow> 'c lease_service \<Rightarrow> 'c lease_event \<Rightarrow> 'c lease_service \<Rightarrow> bool"
  for cfg :: "('raw, 'c) lease_config"
where
  acquired:
    "resolve_request cfg kind raw = Inr r \<Longrightarrow> AcquireResource cfg s kind raw c (Some leaseID) = Inr s' \<Longrightarrow>
     map_of (lsByID s') (rvID r) = Some p \<Longrightarrow>
     lease_step cfg s (EvAcquired r (leResolved (lsEntries s' ! p)) leaseID c) s'"
| refused:
    "resolve_request cfg kind raw = Inr r \<Longrightarrow> AcquireResource cfg s kind raw c (Some leaseID) = Inl e \<Longrightarrow>
     lease_step cfg s (EvRefused r leaseID e) s"
| released:
    "q < length (lsObjects s) \<Longrightarrow> \<not> rlClosed (lsObjects s ! q) \<Longrightarrow>
     lease_step cfg s (EvReleased (rlLeaseID (lsObjects s ! q))) (release s q)"
| released_again:
    "q < length (lsObjects s) \<Longrightarrow> rlClosed (lsObjects s ! q) \<Longrightarrow> lease_step cfg s EvReleasedAgain (release s q)"
| opened:
    "open_request cfg s kind resourceID leaseID = Inr (r, Some c) \<Longrightarrow> lease_step cfg s (EvOpened kind resourceID leaseID r c) s"
| models:
    "models_request s leaseID = Inr (r, Some c) \<Longrightarrow> lease_step cfg s (EvModels leaseID r c) s"
| notified:
    "lsPending s = us @ (acq, r) # vs \<Longrightarrow> lease_step cfg s (EvNotified acq r) (s\<lparr>lsPending := us @ vs\<rparr>)"
| shut:
    "\<not> lsClosing s \<Longrightarrow> lease_step cfg s EvShutdown (lease_shutdown s)"

end
