(* ===== verification/Lease_Spec.thy ===== *)
theory Lease_Spec
  imports Lease_Registry
begin

text \<open>
  What the lease registry promises: a finite map from live leases to the resource and the launch
  they belong to, the digests ever recorded for resource identifiers, and whether it is closing.
  The registry with its stores and four maps refines it.
\<close>

section \<open>The specification\<close>

record 'c lease_spec =
  spLive :: "string \<Rightarrow> ('c resolved \<times> caller) option"
  spKnown :: "string \<Rightarrow> bytes option"
  spClosing :: bool

definition new_lease_spec :: "'c lease_spec" where
  "new_lease_spec = \<lparr>spLive = Map.empty, spKnown = Map.empty, spClosing = False\<rparr>"

definition digest_live :: "'c lease_spec \<Rightarrow> bytes \<Rightarrow> bool" where
  "digest_live a d \<longleftrightarrow> (\<exists>l r c. spLive a l = Some (r, c) \<and> rvDigest r = d)"

text \<open>Why an acquisition is refused.\<close>

definition refusal :: "('c option \<Rightarrow> string option) \<Rightarrow> 'c lease_spec \<Rightarrow> 'c resolved \<Rightarrow> string \<Rightarrow> lease_error \<Rightarrow> bool" where
  "refusal marshal a r leaseID e \<longleftrightarrow>
     (case e of
        LeaseClosing \<Rightarrow> spClosing a
      | LeaseDuplicate \<Rightarrow> spLive a leaseID \<noteq> None
      | UUIDCollision i \<Rightarrow> i = rvID r \<and> \<not> digest_live a (rvDigest r) \<and> (\<exists>d. spKnown a i = Some d \<and> d \<noteq> rvDigest r)
      | IdentityCollision i \<Rightarrow> i = rvID r \<and>
          (\<exists>l r' c. spLive a l = Some (r', c) \<and> rvDigest r' = rvDigest r \<and> \<not> same_identity marshal r' r)
      | _ \<Rightarrow> False)"

inductive spec_step :: "('c option \<Rightarrow> string option) \<Rightarrow> 'c lease_spec \<Rightarrow> 'c lease_event \<Rightarrow> 'c lease_spec \<Rightarrow> bool"
  for marshal :: "'c option \<Rightarrow> string option"
where
  sp_first:
    "\<not> spClosing a \<Longrightarrow> spLive a l = None \<Longrightarrow> \<not> digest_live a (rvDigest r) \<Longrightarrow>
     spKnown a (rvID r) \<in> {None, Some (rvDigest r)} \<Longrightarrow>
     spec_step marshal a (EvAcquired r r l c)
       (a\<lparr>spLive := (spLive a)(l \<mapsto> (r, c)), spKnown := (spKnown a)(rvID r \<mapsto> rvDigest r)\<rparr>)"
| sp_shared:
    "\<not> spClosing a \<Longrightarrow> spLive a l = None \<Longrightarrow> spLive a l' = Some (r', c') \<Longrightarrow> rvDigest r' = rvDigest r \<Longrightarrow>
     same_identity marshal r' r \<Longrightarrow>
     spec_step marshal a (EvAcquired r r' l c) (a\<lparr>spLive := (spLive a)(l \<mapsto> (r', c))\<rparr>)"
| sp_refused: "refusal marshal a r l e \<Longrightarrow> spec_step marshal a (EvRefused r l e) a"
| sp_released: "spLive a l \<noteq> None \<Longrightarrow> spec_step marshal a (EvReleased l) (a\<lparr>spLive := (spLive a)(l := None)\<rparr>)"
| sp_released_again: "spec_step marshal a EvReleasedAgain a"
| sp_opened:
    "spLive a l = Some (r, c) \<Longrightarrow> rvID r = i \<Longrightarrow> rvKind r = kind \<Longrightarrow> spec_step marshal a (EvOpened kind i l r c) a"
| sp_models: "spLive a l = Some (r, c) \<Longrightarrow> rvKind r = ResourceModels \<Longrightarrow> spec_step marshal a (EvModels l r c) a"
| sp_notified: "spec_step marshal a (EvNotified acq r) a"
| sp_shut:
    "\<not> spClosing a \<Longrightarrow> spec_step marshal a EvShutdown (a\<lparr>spLive := Map.empty, spKnown := Map.empty, spClosing := True\<rparr>)"

section \<open>Simulation\<close>

text \<open>A step relation whose steps are steps of another under an abstraction function.\<close>

locale step_simulation = step_invariant +
  fixes abstract_step :: "'c \<Rightarrow> 'b \<Rightarrow> 'c \<Rightarrow> bool"
    and abstraction :: "'a \<Rightarrow> 'c"
  assumes simulates: "inv s \<Longrightarrow> step s l t \<Longrightarrow> abstract_step (abstraction s) l (abstraction t)"
begin

lemma run_simulates: "run step s ls t \<Longrightarrow> inv s \<Longrightarrow> run abstract_step (abstraction s) ls (abstraction t)"
  by (induction rule: run.induct) (auto intro: run.intros simulates step_inv)

end

section \<open>The abstraction and the invariant\<close>

definition lease_resolved :: "'c lease_service \<Rightarrow> nat \<Rightarrow> 'c resolved" where
  "lease_resolved s q = leResolved (lsEntries s ! the (map_of (lsByID s) (rlResourceID (lsObjects s ! q))))"

definition lease_abs :: "'c lease_service \<Rightarrow> 'c lease_spec" where
  "lease_abs s =
     \<lparr>spLive = (\<lambda>l. map_option (\<lambda>q. (lease_resolved s q, the (rlCaller (lsObjects s ! q)))) (map_of (lsLeases s) l)),
      spKnown = map_of (lsDigests s), spClosing = lsClosing s\<rparr>"

definition leased_entry_ok :: "'c lease_service \<Rightarrow> string \<Rightarrow> nat \<Rightarrow> bool" where
  "leased_entry_ok s i p \<longleftrightarrow>
     p < length (lsEntries s) \<and> rvID (leResolved (lsEntries s ! p)) = i \<and> rvConfig (leResolved (lsEntries s ! p)) \<noteq> None \<and>
     map_of (lsByDigest s) (rvDigest (leResolved (lsEntries s ! p))) = Some p \<and>
     map_of (lsDigests s) i = Some (rvDigest (leResolved (lsEntries s ! p))) \<and>
     leLeases (lsEntries s ! p) \<noteq> [] \<and> distinct (map fst (leLeases (lsEntries s ! p))) \<and>
     (\<forall>l q. map_of (leLeases (lsEntries s ! p)) l = Some q \<longrightarrow>
        map_of (lsLeases s) l = Some q \<and> rlResourceID (lsObjects s ! q) = i)"

definition lease_object_ok :: "'c lease_service \<Rightarrow> string \<Rightarrow> nat \<Rightarrow> bool" where
  "lease_object_ok s l q \<longleftrightarrow>
     q < length (lsObjects s) \<and> rlLeaseID (lsObjects s ! q) = l \<and> \<not> rlClosed (lsObjects s ! q) \<and>
     rlCaller (lsObjects s ! q) \<noteq> None \<and> \<not> rlDone (lsObjects s ! q) \<and>
     (\<exists>p. map_of (lsByID s) (rlResourceID (lsObjects s ! q)) = Some p \<and> map_of (leLeases (lsEntries s ! p)) l = Some q)"

definition lease_inv :: "'c lease_service \<Rightarrow> bool" where
  "lease_inv s \<longleftrightarrow>
     distinct (map fst (lsByDigest s)) \<and> distinct (map fst (lsByID s)) \<and> distinct (map fst (lsLeases s)) \<and>
     (\<forall>d p. map_of (lsByDigest s) d = Some p \<longrightarrow>
        rvDigest (leResolved (lsEntries s ! p)) = d \<and> map_of (lsByID s) (rvID (leResolved (lsEntries s ! p))) = Some p) \<and>
     (\<forall>i p. map_of (lsByID s) i = Some p \<longrightarrow> leased_entry_ok s i p) \<and>
     (\<forall>l q. map_of (lsLeases s) l = Some q \<longrightarrow> lease_object_ok s l q) \<and>
     (\<forall>q < length (lsObjects s). if rlClosed (lsObjects s ! q) then rlCaller (lsObjects s ! q) = None \<and> rlDone (lsObjects s ! q)
        else map_of (lsLeases s) (rlLeaseID (lsObjects s ! q)) = Some q) \<and>
     (lsClosing s \<longrightarrow> lsByDigest s = [] \<and> lsByID s = [] \<and> lsDigests s = [] \<and> lsLeases s = [])"

lemma lease_inv_new: "lease_inv new_lease_service"
  by (simp add: lease_inv_def new_lease_service_def)

lemma lease_abs_new: "lease_abs new_lease_service = new_lease_spec"
  by (simp add: lease_abs_def new_lease_service_def new_lease_spec_def fun_eq_iff)

lemmas alist_conv = update_conv' delete_conv'

text \<open>What the invariant says of one entry and one lease.\<close>

lemma inv_entryD: "lease_inv s \<Longrightarrow> map_of (lsByID s) i = Some p \<Longrightarrow> leased_entry_ok s i p"
  by (simp add: lease_inv_def)

lemma inv_leaseD: "lease_inv s \<Longrightarrow> map_of (lsLeases s) l = Some q \<Longrightarrow> lease_object_ok s l q"
  by (simp add: lease_inv_def)

lemma inv_digestD:
  "lease_inv s \<Longrightarrow> map_of (lsByDigest s) d = Some p \<Longrightarrow>
    rvDigest (leResolved (lsEntries s ! p)) = d \<and> map_of (lsByID s) (rvID (leResolved (lsEntries s ! p))) = Some p"
  by (simp add: lease_inv_def)

lemma inv_openD:
  "lease_inv s \<Longrightarrow> q < length (lsObjects s) \<Longrightarrow> \<not> rlClosed (lsObjects s ! q) \<Longrightarrow>
    map_of (lsLeases s) (rlLeaseID (lsObjects s ! q)) = Some q"
  by (auto simp: lease_inv_def)

lemma map_of_nonempty: "m \<noteq> [] \<Longrightarrow> \<exists>k v. map_of m k = Some v"
  by (cases m) auto

lemma live_entry:
  assumes "lease_inv s" "map_of (lsByDigest s) d = Some p"
  shows "\<exists>l c. spLive (lease_abs s) l = Some (leResolved (lsEntries s ! p), c)"
proof -
  let ?r = "leResolved (lsEntries s ! p)"
  have e: "leased_entry_ok s (rvID ?r) p" and i: "map_of (lsByID s) (rvID ?r) = Some p"
    using inv_digestD [OF assms] inv_entryD [OF assms(1)] by auto
  then obtain l q where "map_of (leLeases (lsEntries s ! p)) l = Some q"
    using map_of_nonempty unfolding leased_entry_ok_def by blast
  then have "map_of (lsLeases s) l = Some q" "rlResourceID (lsObjects s ! q) = rvID ?r" using e by (auto simp: leased_entry_ok_def)
  then have "spLive (lease_abs s) l = Some (?r, the (rlCaller (lsObjects s ! q)))" using i
    by (simp add: lease_abs_def lease_resolved_def)
  then show ?thesis by blast
qed

text \<open>The live leases of a digest are those of its entry.\<close>

lemma live_digest:
  assumes "lease_inv s" "spLive (lease_abs s) l = Some (r, c)"
  shows "\<exists>p. map_of (lsByDigest s) (rvDigest r) = Some p \<and> leResolved (lsEntries s ! p) = r"
proof -
  obtain q where q: "map_of (lsLeases s) l = Some q" "lease_resolved s q = r"
    using assms(2) by (auto simp: lease_abs_def)
  from inv_leaseD [OF assms(1) q(1)] obtain p where p: "map_of (lsByID s) (rlResourceID (lsObjects s ! q)) = Some p"
    by (auto simp: lease_object_ok_def)
  from inv_entryD [OF assms(1) p] q(2) p show ?thesis by (auto simp: leased_entry_ok_def lease_resolved_def)
qed

lemma digest_live_abs:
  assumes "lease_inv s"
  shows "digest_live (lease_abs s) d \<longleftrightarrow> map_of (lsByDigest s) d \<noteq> None"
proof
  assume "digest_live (lease_abs s) d"
  then show "map_of (lsByDigest s) d \<noteq> None" using live_digest [OF assms] unfolding digest_live_def by fastforce
next
  assume "map_of (lsByDigest s) d \<noteq> None"
  then obtain p where p: "map_of (lsByDigest s) d = Some p" by auto
  then show "digest_live (lease_abs s) d" using live_entry [OF assms p] inv_digestD [OF assms p] unfolding digest_live_def by blast
qed

end
