(* ===== verification/Lease_Proofs.thy ===== *)
theory Lease_Proofs
  imports Lease_Spec
begin

text \<open>The invariant of the lease registry is preserved and every step is a step of the specification.\<close>

lemma leaseI:
  assumes "distinct (map fst (lsByDigest s))" "distinct (map fst (lsByID s))" "distinct (map fst (lsLeases s))"
    and "\<And>d p. map_of (lsByDigest s) d = Some p \<Longrightarrow>
        rvDigest (leResolved (lsEntries s ! p)) = d \<and> map_of (lsByID s) (rvID (leResolved (lsEntries s ! p))) = Some p"
    and "\<And>i p. map_of (lsByID s) i = Some p \<Longrightarrow> leased_entry_ok s i p"
    and "\<And>l q. map_of (lsLeases s) l = Some q \<Longrightarrow> lease_object_ok s l q"
    and "\<And>q. q < length (lsObjects s) \<Longrightarrow> if rlClosed (lsObjects s ! q) then rlCaller (lsObjects s ! q) = None \<and> rlDone (lsObjects s ! q)
        else map_of (lsLeases s) (rlLeaseID (lsObjects s ! q)) = Some q"
    and "lsClosing s \<Longrightarrow> lsByDigest s = [] \<and> lsByID s = [] \<and> lsDigests s = [] \<and> lsLeases s = []"
  shows "lease_inv s"
  using assms by (simp add: lease_inv_def)

lemma inv_distinct:
  "lease_inv s \<Longrightarrow> distinct (map fst (lsByDigest s)) \<and> distinct (map fst (lsByID s)) \<and> distinct (map fst (lsLeases s))"
  by (simp add: lease_inv_def)

lemma inv_object:
  "lease_inv s \<Longrightarrow> q < length (lsObjects s) \<Longrightarrow>
    if rlClosed (lsObjects s ! q) then rlCaller (lsObjects s ! q) = None \<and> rlDone (lsObjects s ! q)
    else map_of (lsLeases s) (rlLeaseID (lsObjects s ! q)) = Some q"
  by (simp add: lease_inv_def)

lemma inv_bounds:
  assumes "lease_inv s"
  shows "map_of (lsByID s) i = Some p \<Longrightarrow> p < length (lsEntries s)"
    "map_of (lsByDigest s) d = Some p \<Longrightarrow> p < length (lsEntries s)"
    "map_of (lsLeases s) l = Some q \<Longrightarrow> q < length (lsObjects s)"
  using inv_entryD [OF assms] inv_digestD [OF assms] inv_leaseD [OF assms] by (fastforce simp: leased_entry_ok_def lease_object_ok_def)+

section \<open>A first lease\<close>

lemma first_lease:
  fixes c :: caller
  assumes inv: "lease_inv s" and open_: "\<not> lsClosing s" and fresh: "map_of (lsLeases s) l = None"
    and new: "map_of (lsByDigest s) (rvDigest r) = None" and known: "map_of (lsDigests s) (rvID r) \<in> {None, Some (rvDigest r)}"
    and cfg: "rvConfig r \<noteq> None"
  defines "s' \<equiv> record_lease (add_entry s r) (length (lsEntries s)) (rvID r) l c"
  shows "lease_inv s'" and "map_of (lsByID s') (rvID r) = Some (length (lsEntries s))"
    and "leResolved (lsEntries s' ! length (lsEntries s)) = r"
    and "lease_abs s' = (lease_abs s)
      \<lparr>spLive := (spLive (lease_abs s))(l \<mapsto> (r, c)), spKnown := (spKnown (lease_abs s))(rvID r \<mapsto> rvDigest r)\<rparr>"
proof -
  let ?p = "length (lsEntries s)" and ?q = "length (lsObjects s)"
  let ?lease = "\<lparr>rlResourceID = rvID r, rlLeaseID = l, rlCaller = Some c, rlDone = False, rlClosed = False\<rparr>"
  have f: "lsEntries s' = lsEntries s @ [\<lparr>leResolved = r, leLeases = [(l, ?q)]\<rparr>]" "lsObjects s' = lsObjects s @ [?lease]"
    "lsByDigest s' = AList.update (rvDigest r) ?p (lsByDigest s)" "lsByID s' = AList.update (rvID r) ?p (lsByID s)"
    "lsDigests s' = AList.update (rvID r) (rvDigest r) (lsDigests s)" "lsLeases s' = AList.update l ?q (lsLeases s)"
    "lsClosing s' = lsClosing s"
    by (simp_all add: s'_def record_lease_def add_entry_def Let_def)
  have noID: "map_of (lsByID s) (rvID r) = None"
  proof (rule ccontr)
    assume "map_of (lsByID s) (rvID r) \<noteq> None"
    then obtain p where "map_of (lsByID s) (rvID r) = Some p" by auto
    from inv_entryD [OF inv this] show False using known new by (auto simp: leased_entry_ok_def)
  qed
  have old: "p \<noteq> ?p" "lsEntries s' ! p = lsEntries s ! p" if "map_of (lsByID s) i = Some p" for i p
    using inv_bounds(1) [OF inv that] by (simp_all add: f nth_append)
  have oldq: "q \<noteq> ?q" "lsObjects s' ! q = lsObjects s ! q" if "map_of (lsLeases s) k = Some q" for k q
    using inv_bounds(3) [OF inv that] by (simp_all add: f nth_append)
  have oldd: "lsEntries s' ! p = lsEntries s ! p" if "map_of (lsByDigest s) d = Some p" for d p
    using inv_bounds(2) [OF inv that] by (simp add: f nth_append)
  have entry: "leased_entry_ok s' i p" if p: "map_of (lsByID s) i = Some p" for i p
  proof -
    from inv_entryD [OF inv p] have e: "leased_entry_ok s i p" .
    then have "i \<noteq> rvID r" "rvDigest (leResolved (lsEntries s ! p)) \<noteq> rvDigest r" using p noID new by (auto simp: leased_entry_ok_def)
    moreover have "map_of (leLeases (lsEntries s ! p)) k = Some q \<Longrightarrow> k \<noteq> l \<and> lsObjects s' ! q = lsObjects s ! q" for k q
      using e fresh oldq(2) by (auto simp: leased_entry_ok_def)
    ultimately show ?thesis using e old(2) [OF p] by (simp add: leased_entry_ok_def f alist_conv)
  qed
  show "lease_inv s'"
  proof (rule leaseI)
    show "distinct (map fst (lsByDigest s'))" "distinct (map fst (lsByID s'))" "distinct (map fst (lsLeases s'))"
      using inv_distinct [OF inv] by (simp_all add: f distinct_update)
    show "rvDigest (leResolved (lsEntries s' ! p)) = d \<and> map_of (lsByID s') (rvID (leResolved (lsEntries s' ! p))) = Some p"
      if "map_of (lsByDigest s') d = Some p" for d p
    proof (cases "d = rvDigest r")
      case True
      then have p: "p = ?p" using that by (simp add: f alist_conv)
      show ?thesis using True unfolding p by (simp add: f alist_conv)
    next
      case False
      then have p: "map_of (lsByDigest s) d = Some p" using that by (simp add: f alist_conv)
      then have "rvID (leResolved (lsEntries s ! p)) \<noteq> rvID r" using inv_digestD [OF inv p] noID by auto
      then show ?thesis using inv_digestD [OF inv p] oldd [OF p] by (simp add: f(4) alist_conv)
    qed
    show "leased_entry_ok s' i p" if "map_of (lsByID s') i = Some p" for i p
    proof (cases "i = rvID r")
      case True
      then have "p = ?p" using that by (simp add: f alist_conv)
      then show ?thesis using cfg True by (simp add: leased_entry_ok_def f alist_conv)
    next
      case False
      then show ?thesis using that entry by (simp add: f(4) alist_conv)
    qed
    show "lease_object_ok s' k q" if "map_of (lsLeases s') k = Some q" for k q
    proof (cases "k = l")
      case True
      then have "q = ?q" using that by (simp add: f alist_conv)
      then show ?thesis using True by (simp add: lease_object_ok_def f alist_conv)
    next
      case False
      then have q: "map_of (lsLeases s) k = Some q" using that by (simp add: f alist_conv)
      from inv_leaseD [OF inv q] obtain p where p: "map_of (lsByID s) (rlResourceID (lsObjects s ! q)) = Some p"
        "map_of (leLeases (lsEntries s ! p)) k = Some q" by (auto simp: lease_object_ok_def)
      then have "rlResourceID (lsObjects s ! q) \<noteq> rvID r" using noID by auto
      then show ?thesis using inv_leaseD [OF inv q] p old(2) [OF p(1)] oldq [OF q]
        by (auto simp: lease_object_ok_def f(4) alist_conv) (simp_all add: f)
    qed
    show "if rlClosed (lsObjects s' ! q) then rlCaller (lsObjects s' ! q) = None \<and> rlDone (lsObjects s' ! q)
        else map_of (lsLeases s') (rlLeaseID (lsObjects s' ! q)) = Some q" if "q < length (lsObjects s')" for q
    proof (cases "q = ?q")
      case True
      then show ?thesis by (simp add: f alist_conv)
    next
      case False
      then have q: "q < length (lsObjects s)" using that by (simp add: f)
      then show ?thesis using inv_object [OF inv q] fresh by (auto simp: f nth_append alist_conv split: if_splits)
    qed
    show "lsClosing s' \<Longrightarrow> lsByDigest s' = [] \<and> lsByID s' = [] \<and> lsDigests s' = [] \<and> lsLeases s' = []"
      using open_ by (simp add: f)
  qed
  show "map_of (lsByID s') (rvID r) = Some ?p" by (simp add: f alist_conv)
  show "leResolved (lsEntries s' ! ?p) = r" by (simp add: f)
  have same: "lease_resolved s' q = lease_resolved s q \<and> lsObjects s' ! q = lsObjects s ! q" if q: "map_of (lsLeases s) k = Some q" for k q
  proof -
    from inv_leaseD [OF inv q] obtain p where p: "map_of (lsByID s) (rlResourceID (lsObjects s ! q)) = Some p"
      by (auto simp: lease_object_ok_def)
    then have "rlResourceID (lsObjects s ! q) \<noteq> rvID r" using noID by auto
    then show ?thesis using p old(2) [OF p] oldq(2) [OF q] by (simp add: lease_resolved_def f(4) alist_conv)
  qed
  have "lease_resolved s' ?q = r" by (simp add: lease_resolved_def f alist_conv)
  moreover have "lsObjects s' ! ?q = ?lease" by (simp add: f)
  ultimately show "lease_abs s' = (lease_abs s)
      \<lparr>spLive := (spLive (lease_abs s))(l \<mapsto> (r, c)), spKnown := (spKnown (lease_abs s))(rvID r \<mapsto> rvDigest r)\<rparr>"
    using same by (auto simp: lease_abs_def f(5,6,7) alist_conv fun_eq_iff split: option.splits intro!: map_option_cong)
qed

section \<open>A further lease\<close>

lemma shared_lease:
  fixes c :: caller
  assumes inv: "lease_inv s" and open_: "\<not> lsClosing s" and fresh: "map_of (lsLeases s) l = None"
    and found: "map_of (lsByDigest s) (rvDigest r) = Some p" and same_id: "rvID (leResolved (lsEntries s ! p)) = rvID r"
  defines "s' \<equiv> record_lease s p (rvID r) l c"
  shows "lease_inv s'" and "map_of (lsByID s') (rvID r) = Some p"
    and "leResolved (lsEntries s' ! p) = leResolved (lsEntries s ! p)"
    and "lease_abs s' = (lease_abs s)\<lparr>spLive := (spLive (lease_abs s))(l \<mapsto> (leResolved (lsEntries s ! p), c))\<rparr>"
proof -
  let ?q = "length (lsObjects s)" and ?e = "lsEntries s ! p"
  let ?lease = "\<lparr>rlResourceID = rvID r, rlLeaseID = l, rlCaller = Some c, rlDone = False, rlClosed = False\<rparr>"
  have f: "lsEntries s' = (lsEntries s)[p := ?e\<lparr>leLeases := AList.update l ?q (leLeases ?e)\<rparr>]" "lsObjects s' = lsObjects s @ [?lease]"
    "lsByDigest s' = lsByDigest s" "lsByID s' = lsByID s" "lsDigests s' = lsDigests s" "lsLeases s' = AList.update l ?q (lsLeases s)"
    "lsClosing s' = lsClosing s"
    by (simp_all add: s'_def record_lease_def Let_def)
  have p: "p < length (lsEntries s)" "map_of (lsByID s) (rvID r) = Some p"
    using inv_bounds(2) [OF inv found] inv_digestD [OF inv found] same_id by auto
  have res: "leResolved (lsEntries s' ! p') = leResolved (lsEntries s ! p')" if "p' < length (lsEntries s)" for p'
    using that by (cases "p' = p") (simp_all add: f)
  have oldq: "q \<noteq> ?q" "lsObjects s' ! q = lsObjects s ! q" if "map_of (lsLeases s) k = Some q" for k q
    using inv_bounds(3) [OF inv that] by (simp_all add: f nth_append)
  have oldid: "leResolved (lsEntries s' ! p') = leResolved (lsEntries s ! p')" if "map_of (lsByID s) i = Some p'" for i p'
    using res inv_bounds(1) [OF inv that] .
  show "lease_inv s'"
  proof (rule leaseI)
    show "distinct (map fst (lsByDigest s'))" "distinct (map fst (lsByID s'))" "distinct (map fst (lsLeases s'))"
      using inv_distinct [OF inv] by (simp_all add: f distinct_update)
    show "rvDigest (leResolved (lsEntries s' ! p')) = d \<and> map_of (lsByID s') (rvID (leResolved (lsEntries s' ! p'))) = Some p'"
      if "map_of (lsByDigest s') d = Some p'" for d p'
      using that inv_digestD [OF inv] inv_bounds(2) [OF inv] res by (simp add: f(3,4))
    show "leased_entry_ok s' i p'" if i: "map_of (lsByID s') i = Some p'" for i p'
    proof -
      have i: "map_of (lsByID s) i = Some p'" using that by (simp add: f)
      from inv_entryD [OF inv i] have e: "leased_entry_ok s i p'" .
      have kept: "map_of (leLeases (lsEntries s ! p')) k = Some q \<Longrightarrow> k \<noteq> l \<and> lsObjects s' ! q = lsObjects s ! q" for k q
        using e fresh oldq(2) by (auto simp: leased_entry_ok_def)
      show ?thesis
      proof (cases "p' = p")
        case True
        then have "i = rvID r" using e same_id by (simp add: leased_entry_ok_def)
        then show ?thesis using e kept True p
          by (auto simp: leased_entry_ok_def f alist_conv distinct_update split: if_splits)
      next
        case False
        then have "lsEntries s' ! p' = lsEntries s ! p'" by (simp add: f)
        then show ?thesis using e kept by (simp add: leased_entry_ok_def f alist_conv)
      qed
    qed
    show "lease_object_ok s' k q" if "map_of (lsLeases s') k = Some q" for k q
    proof (cases "k = l")
      case True
      then have "q = ?q" using that by (simp add: f alist_conv)
      then show ?thesis using True p by (simp add: lease_object_ok_def f alist_conv)
    next
      case False
      then have q: "map_of (lsLeases s) k = Some q" using that by (simp add: f alist_conv)
      from inv_leaseD [OF inv q] obtain p' where p': "map_of (lsByID s) (rlResourceID (lsObjects s ! q)) = Some p'"
        "map_of (leLeases (lsEntries s ! p')) k = Some q" by (auto simp: lease_object_ok_def)
      then have "map_of (leLeases (lsEntries s' ! p')) k = Some q"
        using False p(1) by (cases "p' = p") (simp_all add: f alist_conv)
      then show ?thesis using inv_leaseD [OF inv q] p' oldq [OF q] by (auto simp: lease_object_ok_def f(4)) (simp add: f)
    qed
    show "if rlClosed (lsObjects s' ! q) then rlCaller (lsObjects s' ! q) = None \<and> rlDone (lsObjects s' ! q)
        else map_of (lsLeases s') (rlLeaseID (lsObjects s' ! q)) = Some q" if "q < length (lsObjects s')" for q
    proof (cases "q = ?q")
      case True
      then show ?thesis by (simp add: f alist_conv)
    next
      case False
      then have q: "q < length (lsObjects s)" using that by (simp add: f)
      then show ?thesis using inv_object [OF inv q] fresh by (auto simp: f nth_append alist_conv split: if_splits)
    qed
    show "lsClosing s' \<Longrightarrow> lsByDigest s' = [] \<and> lsByID s' = [] \<and> lsDigests s' = [] \<and> lsLeases s' = []"
      using open_ by (simp add: f)
  qed
  show "map_of (lsByID s') (rvID r) = Some p" using p by (simp add: f)
  show "leResolved (lsEntries s' ! p) = leResolved (lsEntries s ! p)" using res p(1) by simp
  have same: "lease_resolved s' q = lease_resolved s q \<and> lsObjects s' ! q = lsObjects s ! q" if q: "map_of (lsLeases s) k = Some q" for k q
  proof -
    from inv_leaseD [OF inv q] obtain p' where "map_of (lsByID s) (rlResourceID (lsObjects s ! q)) = Some p'"
      by (auto simp: lease_object_ok_def)
    then show ?thesis using oldid oldq(2) [OF q] by (simp add: lease_resolved_def f(4))
  qed
  have "lease_resolved s' ?q = leResolved ?e" using p by (simp add: lease_resolved_def f)
  moreover have "lsObjects s' ! ?q = ?lease" by (simp add: f)
  ultimately show "lease_abs s' = (lease_abs s)\<lparr>spLive := (spLive (lease_abs s))(l \<mapsto> (leResolved ?e, c))\<rparr>"
    using same by (auto simp: lease_abs_def f(5,6,7) alist_conv fun_eq_iff split: option.splits intro!: map_option_cong)
qed

section \<open>Releasing\<close>

lemma release_again: "rlClosed (lsObjects s ! q) \<Longrightarrow> release s q = s"
  by (simp add: release_def Let_def)

lemma release_lease:
  assumes inv: "lease_inv s" and q: "q < length (lsObjects s)" "\<not> rlClosed (lsObjects s ! q)"
  defines "l \<equiv> rlLeaseID (lsObjects s ! q)" and "s' \<equiv> release s q"
  shows "lease_inv s'" and "lease_abs s' = (lease_abs s)\<lparr>spLive := (spLive (lease_abs s))(l := None)\<rparr>"
    and "lsPending s' = lsPending s @ [(False, lease_resolved s q)]"
proof -
  let ?i = "rlResourceID (lsObjects s ! q)"
  have live: "map_of (lsLeases s) l = Some q" unfolding l_def by (rule inv_openD [OF inv q])
  from inv_leaseD [OF inv live] obtain p where p: "map_of (lsByID s) ?i = Some p" "map_of (leLeases (lsEntries s ! p)) l = Some q"
    by (auto simp: lease_object_ok_def)
  let ?e = "lsEntries s ! p"
  let ?left = "AList.delete l (leLeases ?e)"
  from inv_entryD [OF inv p(1)] have e: "leased_entry_ok s ?i p" .
  then have pl: "p < length (lsEntries s)" "rvID (leResolved ?e) = ?i" "rvConfig (leResolved ?e) \<noteq> None"
    "map_of (lsByDigest s) (rvDigest (leResolved ?e)) = Some p" by (auto simp: leased_entry_ok_def)
  have f: "lsEntries s' = (lsEntries s)[p := ?e\<lparr>leLeases := ?left\<rparr>]" "lsObjects s' = (lsObjects s)[q := close_lease (lsObjects s ! q)]"
    "lsByDigest s' = (if ?left = [] then AList.delete (rvDigest (leResolved ?e)) (lsByDigest s) else lsByDigest s)"
    "lsByID s' = (if ?left = [] then AList.delete ?i (lsByID s) else lsByID s)" "lsDigests s' = lsDigests s"
    "lsLeases s' = AList.delete l (lsLeases s)" "lsClosing s' = lsClosing s"
    "lsPending s' = lsPending s @ [(False, leResolved ?e)]"
    using q(2) p(1) pl(3) by (auto simp: s'_def release_def Let_def l_def)
  show "lsPending s' = lsPending s @ [(False, lease_resolved s q)]" using p(1) by (simp add: f lease_resolved_def)
  have res: "leResolved (lsEntries s' ! p') = leResolved (lsEntries s ! p')" if "p' < length (lsEntries s)" for p'
    using that by (cases "p' = p") (simp_all add: f)
  have other: "q' \<noteq> q \<and> lsObjects s' ! q' = lsObjects s ! q'" if "map_of (lsLeases s) k = Some q'" "k \<noteq> l" for k q'
  proof
    show "q' \<noteq> q" using inv_leaseD [OF inv that(1)] that(2) by (auto simp: lease_object_ok_def l_def)
    then show "lsObjects s' ! q' = lsObjects s ! q'" by (simp add: f)
  qed
  have obj: "rlResourceID (lsObjects s' ! q') = rlResourceID (lsObjects s ! q')" for q'
    by (cases "q' = q") (simp_all add: f close_lease_def q)
  have same_entry: "i' = ?i" if "map_of (lsByID s) i' = Some p" for i'
    using inv_entryD [OF inv that] pl(2) by (simp add: leased_entry_ok_def)
  have same_digest: "d = rvDigest (leResolved ?e)" if "map_of (lsByDigest s) d = Some p" for d
    using inv_digestD [OF inv that] by simp
  have keepID: "map_of (lsByID s') i' = Some p'" if "map_of (lsByID s) i' = Some p'" "p' \<noteq> p \<or> ?left \<noteq> []" for i' p'
    using that p(1) by (auto simp: f(4) alist_conv)
  have keepD: "map_of (lsByDigest s') d = Some p'" if "map_of (lsByDigest s) d = Some p'" "p' \<noteq> p \<or> ?left \<noteq> []" for d p'
    using that pl(4) by (auto simp: f(3) alist_conv)
  have fromID: "map_of (lsByID s) i' = Some p' \<and> (p' \<noteq> p \<or> ?left \<noteq> [])" if "map_of (lsByID s') i' = Some p'" for i' p'
    using that same_entry by (auto simp: f(4) alist_conv split: if_splits)
  have fromD: "map_of (lsByDigest s) d = Some p' \<and> (p' \<noteq> p \<or> ?left \<noteq> [])" if "map_of (lsByDigest s') d = Some p'" for d p'
    using that same_digest by (auto simp: f(3) alist_conv split: if_splits)
  have stays: "map_of (lsByID s') (rlResourceID (lsObjects s ! q')) = map_of (lsByID s) (rlResourceID (lsObjects s ! q'))"
    if k: "map_of (lsLeases s) k = Some q'" "k \<noteq> l" for k q'
  proof -
    from inv_leaseD [OF inv k(1)] obtain p' where p': "map_of (lsByID s) (rlResourceID (lsObjects s ! q')) = Some p'"
      "map_of (leLeases (lsEntries s ! p')) k = Some q'" by (auto simp: lease_object_ok_def)
    have "p' \<noteq> p \<or> ?left \<noteq> []"
    proof (rule disjCI)
      assume "\<not> ?left \<noteq> []"
      then have "map_of ?left k = None" by simp
      then show "p' \<noteq> p" using p'(2) k(2) by (auto simp: alist_conv)
    qed
    then show ?thesis using keepID [OF p'(1)] p'(1) by simp
  qed
  show "lease_inv s'"
  proof (rule leaseI)
    show "distinct (map fst (lsByDigest s'))" "distinct (map fst (lsByID s'))" "distinct (map fst (lsLeases s'))"
      using inv_distinct [OF inv] by (simp_all add: f distinct_delete)
    show "rvDigest (leResolved (lsEntries s' ! p')) = d \<and> map_of (lsByID s') (rvID (leResolved (lsEntries s' ! p'))) = Some p'"
      if "map_of (lsByDigest s') d = Some p'" for d p'
    proof -
      from fromD [OF that] have d: "map_of (lsByDigest s) d = Some p'" "p' \<noteq> p \<or> ?left \<noteq> []" by simp_all
      then show ?thesis using inv_digestD [OF inv d(1)] keepID [OF _ d(2)] res inv_bounds(2) [OF inv d(1)] by simp
    qed
    show "leased_entry_ok s' i' p'" if "map_of (lsByID s') i' = Some p'" for i' p'
    proof -
      from fromID [OF that] have i: "map_of (lsByID s) i' = Some p'" "p' \<noteq> p \<or> ?left \<noteq> []" by simp_all
      from inv_entryD [OF inv i(1)] have e': "leased_entry_ok s i' p'" .
      then have digest: "map_of (lsByDigest s') (rvDigest (leResolved (lsEntries s ! p'))) = Some p'"
        using keepD [OF _ i(2)] by (simp add: leased_entry_ok_def)
      show ?thesis
      proof (cases "p' = p")
        case True
        then have "leLeases (lsEntries s' ! p') = ?left" using pl(1) by (simp add: f)
        then show ?thesis using e' digest True i(2) pl(1) obj
          by (auto simp: leased_entry_ok_def f(1,5,6) alist_conv distinct_delete split: if_splits)
      next
        case False
        then have same: "lsEntries s' ! p' = lsEntries s ! p'" by (simp add: f)
        have "k \<noteq> l" if "map_of (leLeases (lsEntries s ! p')) k = Some q'" for k q'
        proof
          assume "k = l"
          then have "q' = q" using that e' live by (auto simp: leased_entry_ok_def)
          then have "i' = ?i" using that e' by (auto simp: leased_entry_ok_def)
          then show False using i(1) p(1) False by simp
        qed
        then show ?thesis using e' digest same obj by (auto simp: leased_entry_ok_def f(1,5,6) alist_conv)
      qed
    qed
    show "lease_object_ok s' k q'" if "map_of (lsLeases s') k = Some q'" for k q'
    proof -
      have k: "k \<noteq> l" "map_of (lsLeases s) k = Some q'" using that by (auto simp: f alist_conv split: if_splits)
      from inv_leaseD [OF inv k(2)] obtain p' where p': "map_of (lsByID s) (rlResourceID (lsObjects s ! q')) = Some p'"
        "map_of (leLeases (lsEntries s ! p')) k = Some q'" by (auto simp: lease_object_ok_def)
      then have "map_of (leLeases (lsEntries s' ! p')) k = Some q'"
        using k(1) pl(1) by (cases "p' = p") (simp_all add: f alist_conv)
      then show ?thesis using inv_leaseD [OF inv k(2)] p' other [OF k(2,1)] stays [OF k(2,1)]
        by (auto simp: lease_object_ok_def) (simp add: f)
    qed
    show "if rlClosed (lsObjects s' ! q') then rlCaller (lsObjects s' ! q') = None \<and> rlDone (lsObjects s' ! q')
        else map_of (lsLeases s') (rlLeaseID (lsObjects s' ! q')) = Some q'" if "q' < length (lsObjects s')" for q'
    proof (cases "q' = q")
      case True
      then show ?thesis using q by (simp add: f close_lease_def)
    next
      case False
      then have same: "lsObjects s' ! q' = lsObjects s ! q'" "q' < length (lsObjects s)" using that by (simp_all add: f)
      then show ?thesis using inv_object [OF inv same(2)] live False by (auto simp: f(6) alist_conv split: if_splits)
    qed
    show "lsClosing s' \<Longrightarrow> lsByDigest s' = [] \<and> lsByID s' = [] \<and> lsDigests s' = [] \<and> lsLeases s' = []"
      using inv p(1) by (auto simp: f lease_inv_def)
  qed
  have "map_option (\<lambda>q. (lease_resolved s' q, the (rlCaller (lsObjects s' ! q)))) (map_of (lsLeases s') k) =
      (if k = l then None else map_option (\<lambda>q. (lease_resolved s q, the (rlCaller (lsObjects s ! q)))) (map_of (lsLeases s) k))" for k
  proof (cases "k = l \<or> map_of (lsLeases s) k = None")
    case True
    then show ?thesis by (auto simp: f(6) alist_conv)
  next
    case False
    then obtain q' where q': "map_of (lsLeases s) k = Some q'" "k \<noteq> l" by auto
    from inv_leaseD [OF inv q'(1)] obtain p' where "map_of (lsByID s) (rlResourceID (lsObjects s ! q')) = Some p'"
      by (auto simp: lease_object_ok_def)
    then have "lease_resolved s' q' = lease_resolved s q'"
      using stays [OF q'] obj res inv_bounds(1) [OF inv] by (simp add: lease_resolved_def)
    then show ?thesis using q' other [OF q'] by (simp add: f(6) alist_conv)
  qed
  then show "lease_abs s' = (lease_abs s)\<lparr>spLive := (spLive (lease_abs s))(l := None)\<rparr>"
    by (simp add: lease_abs_def f(5,7) fun_eq_iff)
qed

section \<open>Shutting down\<close>

lemma close_all:
  fixes objs :: "registry_lease list"
  defines "closed \<equiv> \<lambda>ms objs. foldl (\<lambda>objs (l :: string, q). objs[q := close_lease (objs ! q)]) objs ms"
  shows "length (closed ms objs) = length objs"
    and "q < length objs \<Longrightarrow> closed ms objs ! q = (if q \<in> snd ` set ms then close_lease (objs ! q) else objs ! q)"
proof -
  show len: "length (closed ms objs) = length objs"
    unfolding closed_def by (induction ms arbitrary: objs) auto
  have idem: "close_lease (close_lease x) = close_lease x" for x by (simp add: close_lease_def)
  show "q < length objs \<Longrightarrow> closed ms objs ! q = (if q \<in> snd ` set ms then close_lease (objs ! q) else objs ! q)"
    unfolding closed_def
  proof (induction ms arbitrary: objs)
    case (Cons m ms)
    obtain l q' where m: "m = (l, q')" by (cases m)
    show ?case using Cons.IH [of "objs[q' := close_lease (objs ! q')]"] Cons.prems
      by (cases "q' = q") (auto simp: m idem)
  qed simp
qed

lemma shutdown_leases:
  assumes inv: "lease_inv s" and "\<not> lsClosing s"
  shows "lease_inv (lease_shutdown s)"
    and "lease_abs (lease_shutdown s) = (lease_abs s)\<lparr>spLive := Map.empty, spKnown := Map.empty, spClosing := True\<rparr>"
    and "q < length (lsObjects s) \<Longrightarrow> rlClosed (lsObjects (lease_shutdown s) ! q)"
proof -
  have obj: "rlClosed (lsObjects (lease_shutdown s) ! q) \<and> rlCaller (lsObjects (lease_shutdown s) ! q) = None \<and>
      rlDone (lsObjects (lease_shutdown s) ! q)" if q: "q < length (lsObjects s)" for q
  proof (cases "q \<in> snd ` set (lsLeases s)")
    case True
    then have "lsObjects (lease_shutdown s) ! q = close_lease (lsObjects s ! q)"
      using assms(2) q by (simp add: lease_shutdown_def close_all)
    then show ?thesis by (simp add: close_lease_def)
  next
    case False
    then have "map_of (lsLeases s) (rlLeaseID (lsObjects s ! q)) \<noteq> Some q"
      by (metis map_of_in_set image_eqI snd_conv)
    then have "rlClosed (lsObjects s ! q) \<and> rlCaller (lsObjects s ! q) = None \<and> rlDone (lsObjects s ! q)"
      using inv_object [OF inv q] by (auto split: if_splits)
    then show ?thesis using assms(2) q False by (simp add: lease_shutdown_def close_all)
  qed
  then show "q < length (lsObjects s) \<Longrightarrow> rlClosed (lsObjects (lease_shutdown s) ! q)" by simp
  have "length (lsObjects (lease_shutdown s)) = length (lsObjects s)" using assms(2) by (simp add: lease_shutdown_def close_all)
  then show "lease_inv (lease_shutdown s)"
    using obj assms(2) by (intro leaseI) (simp_all add: lease_shutdown_def)
  show "lease_abs (lease_shutdown s) = (lease_abs s)\<lparr>spLive := Map.empty, spKnown := Map.empty, spClosing := True\<rparr>"
    using assms(2) by (simp add: lease_abs_def lease_shutdown_def fun_eq_iff)
qed

section \<open>Every step\<close>

lemma pending_only:
  "lease_inv (s\<lparr>lsPending := ps\<rparr>) = lease_inv s" "lease_abs (s\<lparr>lsPending := ps\<rparr>) = lease_abs s"
  by (simp_all add: lease_inv_def lease_abs_def lease_resolved_def leased_entry_ok_def lease_object_ok_def)

lemma resolve_request_config: "resolve_request cfg kind raw = Inr r \<Longrightarrow> rvConfig r \<noteq> None"
  by (auto simp: resolve_request_def validateResolved_def verdict_simps split: option.splits)

lemma Acquire_locked:
  "resolve_request cfg kind raw = Inr r \<Longrightarrow>
    AcquireResource cfg s kind raw c (Some l) = acquire_locked (lcMarshal cfg) s r l c"
  by (simp add: AcquireResource_def)

lemma acquire_spec:
  assumes inv: "lease_inv s" and cfg: "rvConfig r \<noteq> None" and acq: "acquire_locked marshal s r l c = Inr s'"
    and p: "map_of (lsByID s') (rvID r) = Some p"
  shows "lease_inv s'" "spec_step marshal (lease_abs s) (EvAcquired r (leResolved (lsEntries s' ! p)) l c) (lease_abs s')"
proof -
  have a: "\<not> lsClosing s" "map_of (lsLeases s) l = None"
    using acq by (auto simp: acquire_locked_def split: if_splits)
  then have sp: "\<not> spClosing (lease_abs s)" "spLive (lease_abs s) l = None" by (simp_all add: lease_abs_def)
  have "lease_inv s' \<and> spec_step marshal (lease_abs s) (EvAcquired r (leResolved (lsEntries s' ! p)) l c) (lease_abs s')"
  proof (cases "map_of (lsByDigest s) (rvDigest r)")
    case None
    then have known: "map_of (lsDigests s) (rvID r) \<in> {None, Some (rvDigest r)}"
      and s': "s' = record_lease (add_entry s r) (length (lsEntries s)) (rvID r) l c\<lparr>lsPending := lsPending s @ [(True, r)]\<rparr>"
      using acq a by (auto simp: acquire_locked_def split: if_splits option.splits)
    note first = first_lease [OF inv a None known cfg, where c = c]
    have "p = length (lsEntries s)" using first(2) p by (simp add: s')
    then have entry: "leResolved (lsEntries s' ! p) = r" using first(3) by (simp add: s')
    have abs: "lease_abs s' = (lease_abs s)
        \<lparr>spLive := (spLive (lease_abs s))(l \<mapsto> (r, c)), spKnown := (spKnown (lease_abs s))(rvID r \<mapsto> rvDigest r)\<rparr>"
      unfolding s' pending_only by (rule first(4))
    have "\<not> digest_live (lease_abs s) (rvDigest r)" using None by (simp add: digest_live_abs [OF inv])
    moreover have "spKnown (lease_abs s) (rvID r) \<in> {None, Some (rvDigest r)}" using known by (simp add: lease_abs_def)
    ultimately show ?thesis using sp first(1) unfolding entry abs by (auto simp: s' pending_only intro: sp_first)
  next
    case (Some e)
    then have same: "same_identity marshal (leResolved (lsEntries s ! e)) r"
      and s': "s' = record_lease s e (rvID r) l c\<lparr>lsPending := lsPending s @ [(True, r)]\<rparr>"
      using acq a by (auto simp: acquire_locked_def split: if_splits)
    then have "rvID (leResolved (lsEntries s ! e)) = rvID r" by (simp add: same_identity_def)
    note shared = shared_lease [OF inv a Some this, where c = c]
    have "p = e" using shared(2) p by (simp add: s')
    then have entry: "leResolved (lsEntries s' ! p) = leResolved (lsEntries s ! e)" using shared(3) by (simp add: s')
    have abs: "lease_abs s' = (lease_abs s)\<lparr>spLive := (spLive (lease_abs s))(l \<mapsto> (leResolved (lsEntries s ! e), c))\<rparr>"
      unfolding s' pending_only by (rule shared(4))
    obtain l' c' where "spLive (lease_abs s) l' = Some (leResolved (lsEntries s ! e), c')" using live_entry [OF inv Some] by auto
    moreover have "rvDigest (leResolved (lsEntries s ! e)) = rvDigest r" using inv_digestD [OF inv Some] by simp
    ultimately show ?thesis using sp same shared(1) unfolding entry abs by (auto simp: s' pending_only intro: sp_shared)
  qed
  then show "lease_inv s'" "spec_step marshal (lease_abs s) (EvAcquired r (leResolved (lsEntries s' ! p)) l c) (lease_abs s')"
    by simp_all
qed

lemma refused_spec:
  assumes inv: "lease_inv s" and acq: "acquire_locked marshal s r l c = Inl e"
  shows "refusal marshal (lease_abs s) r l e"
proof (cases "lsClosing s \<or> map_of (lsLeases s) l \<noteq> None")
  case True
  then show ?thesis using acq by (auto simp: acquire_locked_def refusal_def lease_abs_def split: if_splits)
next
  case False
  show ?thesis
  proof (cases "map_of (lsByDigest s) (rvDigest r)")
    case None
    then have "e = UUIDCollision (rvID r)" "\<exists>d. map_of (lsDigests s) (rvID r) = Some d \<and> d \<noteq> rvDigest r"
      using acq False by (auto simp: acquire_locked_def split: if_splits option.splits)
    moreover have "\<not> digest_live (lease_abs s) (rvDigest r)" using None by (simp add: digest_live_abs [OF inv])
    ultimately show ?thesis by (auto simp: refusal_def lease_abs_def)
  next
    case (Some p)
    then have "e = IdentityCollision (rvID r)" "\<not> same_identity marshal (leResolved (lsEntries s ! p)) r"
      using acq False by (auto simp: acquire_locked_def split: if_splits)
    moreover have "rvDigest (leResolved (lsEntries s ! p)) = rvDigest r" using inv_digestD [OF inv Some] by simp
    ultimately show ?thesis using live_entry [OF inv Some] by (auto simp: refusal_def)
  qed
qed

lemma lookup_abs:
  assumes inv: "lease_inv s" and "map_of (lsLeases s) l = Some q" "map_of (lsByID s) (rlResourceID (lsObjects s ! q)) = Some p"
    and "rlCaller (lsObjects s ! q) = Some c"
  shows "spLive (lease_abs s) l = Some (leResolved (lsEntries s ! p), c) \<and> rvID (leResolved (lsEntries s ! p)) = rlResourceID (lsObjects s ! q)"
  using assms inv_entryD [OF inv assms(3)] by (simp add: lease_abs_def lease_resolved_def leased_entry_ok_def)

lemma opened_spec:
  assumes "lease_inv s" "open_request cfg s kind i l = Inr (r, Some c)"
  shows "spLive (lease_abs s) l = Some (r, c)" "rvID r = i" "rvKind r = kind"
  using assms lookup_abs [OF assms(1), of l]
  by (auto simp: open_request_def lookupStream_def Let_def verdict_simps split: option.splits if_splits)

lemma models_spec:
  assumes "lease_inv s" "models_request s l = Inr (r, Some c)"
  shows "spLive (lease_abs s) l = Some (r, c)" "rvKind r = ResourceModels"
  using assms lookup_abs [OF assms(1), of l]
  by (auto simp: models_request_def lookupLease_def Let_def verdict_simps split: option.splits if_splits)

lemma lease_step_spec:
  assumes "lease_inv s" "lease_step cfg s ev t"
  shows "lease_inv t \<and> spec_step (lcMarshal cfg) (lease_abs s) ev (lease_abs t)"
  using assms(2)
proof cases
  case (acquired kind raw r c l p)
  then show ?thesis using acquire_spec [OF assms(1) resolve_request_config] Acquire_locked by metis
next
  case (refused kind raw r c l e)
  then show ?thesis using refused_spec [OF assms(1)] Acquire_locked assms(1) by (metis sp_refused)
next
  case (released q)
  moreover have "spLive (lease_abs s) (rlLeaseID (lsObjects s ! q)) \<noteq> None"
    using inv_openD [OF assms(1) released(3,4)] by (simp add: lease_abs_def)
  ultimately show ?thesis using release_lease(1,2) [OF assms(1) released(3,4)] by (auto intro: sp_released)
next
  case (released_again q)
  then show ?thesis using assms(1) by (simp add: release_again sp_released_again)
next
  case (opened kind i l r c)
  then show ?thesis using opened_spec [OF assms(1) opened(3)] assms(1) by (auto intro: sp_opened)
next
  case (models l r c)
  then show ?thesis using models_spec [OF assms(1) models(3)] assms(1) by (auto intro: sp_models)
next
  case (notified us acq r vs)
  then show ?thesis using assms(1) by (simp add: pending_only sp_notified)
next
  case shut
  then show ?thesis using shutdown_leases(1,2) [OF assms(1)] sp_shut [of "lease_abs s"] by (simp add: lease_abs_def)
qed

interpretation leases: step_simulation "lease_step cfg" lease_inv "spec_step (lcMarshal cfg)" lease_abs for cfg
  by unfold_locales (use lease_step_spec in blast)+

end
