(* ===== verification/Lease_Properties.thy ===== *)
theory Lease_Properties
  imports Lease_Proofs
begin

text \<open>
  What the lease registry of the agent guarantees on every run: it refines a map of live leases,
  a stream is opened only for a live lease of the launch that acquired it, the openers are told of
  exactly the leases there are, and nothing is left after shutdown.
\<close>

section \<open>Runs of the specification\<close>


lemma run_snoc: "run step s (ls @ [l]) u \<longleftrightarrow> (\<exists>t. run step s ls t \<and> step t l u)"
proof
  assume "run step s (ls @ [l]) u"
  then show "\<exists>t. run step s ls t \<and> step t l u" using run_split by (fastforce simp: run_Cons_iff)
next
  assume "\<exists>t. run step s ls t \<and> step t l u"
  then show "run step s (ls @ [l]) u" by (auto intro: run_append run.intros)
qed

inductive_cases spec_stepE: "spec_step marshal a ev b"



text \<open>Reachable states.\<close>

lemma reachable:
  assumes "run (lease_step cfg) new_lease_service evs s"
  shows "lease_inv s" "run (spec_step (lcMarshal cfg)) new_lease_spec evs (lease_abs s)"
  using leases.run_inv [OF assms lease_inv_new] leases.run_simulates [OF assms lease_inv_new] by (simp_all add: lease_abs_new)

section \<open>Properties\<close>

text \<open>
  C21. The registry of resources and leases, with its shared entries, its lease objects and its
  maps by digest, identifier and lease, behaves like one finite map from the live leases to their
  resource and launch: every run has the same observations as a run of that map, from acquisition
  with its collisions to shutdown.
\<close>

theorem lease_registry_refines:
  assumes "run (lease_step cfg) new_lease_service evs s"
  shows "run (spec_step (lcMarshal cfg)) new_lease_spec evs (lease_abs s)"
  by (rule reachable(2) [OF assms])


section \<open>Notifications\<close>

definition live_leases :: "'c lease_spec \<Rightarrow> bytes \<Rightarrow> string set" where
  "live_leases a d = {l. \<exists>r c. spLive a l = Some (r, c) \<and> rvDigest r = d}"

definition announced :: "bool \<Rightarrow> bytes \<Rightarrow> (bool \<times> 'c resolved) list \<Rightarrow> nat" where
  "announced acq d ns = length (filter (\<lambda>(b, r). b = acq \<and> rvDigest r = d) ns)"

definition notifications :: "'c lease_event list \<Rightarrow> (bool \<times> 'c resolved) list" where
  "notifications evs = List.map_filter (\<lambda>ev. case ev of EvNotified acq r \<Rightarrow> Some (acq, r) | _ \<Rightarrow> None) evs"

lemma notifications_simps [simp]:
  "notifications [] = []"
  "notifications (evs @ [ev]) = notifications evs @ (case ev of EvNotified acq r \<Rightarrow> [(acq, r)] | _ \<Rightarrow> [])"
  by (auto simp: notifications_def List.map_filter_def split: lease_event.splits)

lemma announced_simps [simp]:
  "announced acq d [] = 0"
  "announced acq d (ns @ ms) = announced acq d ns + announced acq d ms"
  "announced acq d ((b, r) # ns) = (if b = acq \<and> rvDigest r = d then 1 else 0) + announced acq d ns"
  by (auto simp: announced_def)

lemma live_leases_finite: "finite (live_leases (lease_abs s) d)"
proof -
  have "live_leases (lease_abs s) d \<subseteq> dom (map_of (lsLeases s))" by (auto simp: live_leases_def lease_abs_def)
  then show ?thesis using finite_dom_map_of finite_subset by blast
qed

lemma live_add:
  "spLive a l = None \<Longrightarrow> finite (live_leases a d) \<Longrightarrow>
    card (live_leases (a\<lparr>spLive := (spLive a)(l \<mapsto> (r, c))\<rparr>) d) = card (live_leases a d) + (if rvDigest r = d then 1 else 0)"
proof -
  assume l: "spLive a l = None" and fin: "finite (live_leases a d)"
  have "live_leases (a\<lparr>spLive := (spLive a)(l \<mapsto> (r, c))\<rparr>) d = (if rvDigest r = d then insert l (live_leases a d) else live_leases a d)"
    using l by (auto simp: live_leases_def)
  moreover have "l \<notin> live_leases a d" using l by (simp add: live_leases_def)
  ultimately show ?thesis using fin by simp
qed

lemma live_remove:
  "spLive a l = Some (r, c) \<Longrightarrow> finite (live_leases a d) \<Longrightarrow>
    card (live_leases a d) = card (live_leases (a\<lparr>spLive := (spLive a)(l := None)\<rparr>) d) + (if rvDigest r = d then 1 else 0)"
proof -
  assume l: "spLive a l = Some (r, c)" and fin: "finite (live_leases a d)"
  have eq: "live_leases (a\<lparr>spLive := (spLive a)(l := None)\<rparr>) d = live_leases a d - {l}" by (auto simp: live_leases_def)
  show ?thesis
  proof (cases "rvDigest r = d")
    case True
    then have "l \<in> live_leases a d" using l by (auto simp: live_leases_def)
    then show ?thesis using True fin card_Suc_Diff1 [of "live_leases a d" l] by (simp add: eq)
  next
    case False
    then have "l \<notin> live_leases a d" using l by (auto simp: live_leases_def)
    then show ?thesis using False by (simp add: eq)
  qed
qed

lemma live_known: "live_leases (a\<lparr>spLive := m, spKnown := k\<rparr>) d = live_leases (a\<lparr>spLive := m\<rparr>) d"
  by (simp add: live_leases_def)

text \<open>What a step adds to the leases and the pending notifications of a digest.\<close>

lemma acquire_pending: "acquire_locked marshal s r l c = Inr s' \<Longrightarrow> lsPending s' = lsPending s @ [(True, r)] \<and> \<not> lsClosing s"
  by (auto simp: acquire_locked_def split: if_splits option.splits)

lemma demand_step:
  assumes inv: "lease_inv s" and step: "lease_step cfg s ev t" and running: "\<not> lsClosing t"
    and balance: "announced True d (ns @ lsPending s) = announced False d (ns @ lsPending s) + card (live_leases (lease_abs s) d)"
  shows "announced True d (notifications [ev] @ ns @ lsPending t) =
    announced False d (notifications [ev] @ ns @ lsPending t) + card (live_leases (lease_abs t) d)"
  using step
proof cases
  case (acquired kind raw r c l p)
  have locked: "acquire_locked (lcMarshal cfg) s r l c = Inr t" using acquired(2,3) Acquire_locked by metis
  let ?r = "leResolved (lsEntries t ! p)"
  have "spec_step (lcMarshal cfg) (lease_abs s) (EvAcquired r ?r l c) (lease_abs t)"
    using acquire_spec [OF inv resolve_request_config [OF acquired(2)] locked acquired(4)] by simp
  then have "card (live_leases (lease_abs t) d) = card (live_leases (lease_abs s) d) + (if rvDigest r = d then 1 else 0)"
    by (cases rule: spec_step.cases) (simp_all add: live_known live_add live_leases_finite)
  then show ?thesis using balance acquire_pending [OF locked] acquired(1) by (simp add: notifications_def List.map_filter_def)
next
  case (released q)
  have "spLive (lease_abs s) (rlLeaseID (lsObjects s ! q)) = Some (lease_resolved s q, the (rlCaller (lsObjects s ! q)))"
    using inv_openD [OF inv released(3,4)] by (simp add: lease_abs_def)
  then have "card (live_leases (lease_abs s) d) =
      card (live_leases (lease_abs t) d) + (if rvDigest (lease_resolved s q) = d then 1 else 0)"
    using live_remove live_leases_finite release_lease(2) [OF inv released(3,4)] released(2) by metis
  then show ?thesis using balance release_lease(3) [OF inv released(3,4)] released(1,2)
    by (simp add: notifications_def List.map_filter_def)
next
  case (notified us acq r vs)
  then show ?thesis using balance by (simp add: pending_only notifications_def List.map_filter_def)
next
  case shut
  then show ?thesis using running by (simp add: lease_shutdown_def)
qed (use balance in \<open>simp_all add: release_again notifications_def List.map_filter_def\<close>)

lemma closing_stays: "lease_step cfg s ev t \<Longrightarrow> lsClosing s \<Longrightarrow> lsClosing t"
  by (erule lease_step.cases)
    (auto simp: AcquireResource_def acquire_locked_def release_def lease_shutdown_def Let_def verdict_simps split: if_splits option.splits)

text \<open>
  C23. What the openers learn of demand is exact: as long as the service runs, the leases announced
  as acquired for a resource are those announced as released and those that are live, where the
  announcements still to be delivered count. Once none is outstanding, an opener knows the number
  of live leases.
\<close>

theorem lease_demand_balanced:
  assumes "run (lease_step cfg) new_lease_service evs s" "\<not> lsClosing s"
  shows "announced True d (notifications evs @ lsPending s) =
      announced False d (notifications evs @ lsPending s) + card (live_leases (lease_abs s) d) \<and>
    (if lsPending s = [] then announced True d (notifications evs) - announced False d (notifications evs) = card (live_leases (lease_abs s) d)
     else True)"
proof -
  have "announced True d (notifications evs @ lsPending s) =
      announced False d (notifications evs @ lsPending s) + card (live_leases (lease_abs s) d)"
    using assms
  proof (induction evs arbitrary: s rule: rev_induct)
    case Nil
    then show ?case by (simp add: new_lease_service_def live_leases_def lease_abs_def)
  next
    case (snoc ev evs)
    from snoc.prems(1) obtain t where t: "run (lease_step cfg) new_lease_service evs t" "lease_step cfg t ev s"
      by (auto simp: run_snoc)
    then have "\<not> lsClosing t" using closing_stays snoc.prems(2) by blast
    from demand_step [OF reachable(1) [OF t(1)] t(2) snoc.prems(2) snoc.IH [OF t(1) this]]
    show ?case using notifications_simps(2) [of "[]" ev] by simp
  qed
  then show ?thesis by auto
qed

text \<open>
  After the shutdown every lease is closed, its lifetime is over and its launch is forgotten;
  the registry lists no resource and refuses every acquisition and every stream.
\<close>

theorem lease_shutdown_final:
  assumes "run (lease_step cfg) new_lease_service evs s" "lsClosing s"
  shows "list_all (\<lambda>l. rlClosed l \<and> rlDone l \<and> rlCaller l = None) (lsObjects s) \<and> ResourceItems s [] = [] \<and>
    (case AcquireResource cfg s kind raw c newID of Inl e \<Rightarrow> True | Inr t \<Rightarrow> False) \<and>
    (case open_request cfg s kind i l of Inl e \<Rightarrow> True | Inr req \<Rightarrow> False)"
proof -
  have inv: "lease_inv s" by (rule reachable(1) [OF assms(1)])
  then have empty: "lsByID s = []" "lsLeases s = []" using assms(2) by (simp_all add: lease_inv_def)
  have "rlClosed x \<and> rlDone x \<and> rlCaller x = None" if "x \<in> set (lsObjects s)" for x
  proof -
    from that [unfolded in_set_conv_nth] obtain q where q: "q < length (lsObjects s)" "x = lsObjects s ! q" by blast
    then show ?thesis using inv_object [OF inv q(1)] empty by (auto split: if_splits)
  qed
  moreover have "ResourceItems s [] = []" by (simp add: ResourceItems_def snapshotItems_def registered_items_def empty)
  moreover have "case AcquireResource cfg s kind raw c newID of Inl e \<Rightarrow> True | Inr t \<Rightarrow> False"
    using assms(2) by (cases "resolve_request cfg kind raw") (auto simp: AcquireResource_def acquire_locked_def split: option.splits)
  moreover have "case open_request cfg s kind i l of Inl e \<Rightarrow> True | Inr req \<Rightarrow> False"
    by (simp add: open_request_def lookupStream_def empty)
  ultimately show ?thesis by (simp add: list_all_iff)
qed

section \<open>Examples\<close>

definition ex_leased :: "unit resolved" where
  "ex_leased = \<lparr>rvID = ''i'', rvDigest = [1], rvKind = ResourceModels, rvConfig = Some ()\<rparr>"

definition ex_lease_config :: "(unit, unit) lease_config" where
  "ex_lease_config =
     \<lparr>lcResolvers = [(ResourceModels, \<lambda>raw. Some ex_leased)], lcOpeners = [ResourceModels], lcMarshal = (\<lambda>c. Some '''')\<rparr>"

definition ex_lease_one :: "unit lease_service" where
  "ex_lease_one =
     \<lparr>lsEntries = [\<lparr>leResolved = ex_leased, leLeases = [(''l'', 0)]\<rparr>],
      lsObjects = [\<lparr>rlResourceID = ''i'', rlLeaseID = ''l'', rlCaller = Some 7, rlDone = False, rlClosed = False\<rparr>],
      lsByDigest = [([1], 0)], lsByID = [(''i'', 0)], lsDigests = [(''i'', [1])], lsLeases = [(''l'', 0)], lsClosing = False,
      lsPending = [(True, ex_leased)]\<rparr>"

definition ex_lease_two :: "unit lease_service" where
  "ex_lease_two =
     \<lparr>lsEntries = [\<lparr>leResolved = ex_leased, leLeases = [(''l'', 0), (''m'', 1)]\<rparr>],
      lsObjects = [\<lparr>rlResourceID = ''i'', rlLeaseID = ''l'', rlCaller = Some 7, rlDone = False, rlClosed = False\<rparr>,
                   \<lparr>rlResourceID = ''i'', rlLeaseID = ''m'', rlCaller = Some 8, rlDone = False, rlClosed = False\<rparr>],
      lsByDigest = [([1], 0)], lsByID = [(''i'', 0)], lsDigests = [(''i'', [1])], lsLeases = [(''l'', 0), (''m'', 1)],
      lsClosing = False, lsPending = [(True, ex_leased), (True, ex_leased)]\<rparr>"

lemma ex_lease_request: "resolve_request ex_lease_config ResourceModels () = Inr ex_leased"
proof -
  have "[1 :: 8 word] \<noteq> replicate 64 0" by (auto dest: arg_cong [of _ _ length])
  then show ?thesis by (simp add: resolve_request_def ex_lease_config_def validateResolved_def ex_leased_def)
qed

lemma ex_first: "lease_step ex_lease_config new_lease_service (EvAcquired ex_leased ex_leased ''l'' 7) ex_lease_one"
proof -
  have "AcquireResource ex_lease_config new_lease_service ResourceModels () 7 (Some ''l'') = Inr ex_lease_one"
    by (simp add: AcquireResource_def ex_lease_request acquire_locked_def new_lease_service_def record_lease_def add_entry_def
        ex_lease_one_def ex_leased_def)
  from lease_step.acquired [OF ex_lease_request this, of 0] show ?thesis by (simp add: ex_lease_one_def ex_leased_def)
qed

lemma ex_second: "lease_step ex_lease_config ex_lease_one (EvAcquired ex_leased ex_leased ''m'' 8) ex_lease_two"
proof -
  have "AcquireResource ex_lease_config ex_lease_one ResourceModels () 8 (Some ''m'') = Inr ex_lease_two"
    unfolding Acquire_locked [OF ex_lease_request]
    by (simp add: acquire_locked_def record_lease_def same_identity_def sameConfiguration_def
        ex_lease_one_def ex_lease_two_def ex_lease_config_def ex_leased_def)
  from lease_step.acquired [OF ex_lease_request this, of 0] show ?thesis by (simp add: ex_lease_two_def ex_leased_def)
qed


lemma ex_run_acquired:
  "run (lease_step ex_lease_config) new_lease_service [EvAcquired ex_leased ex_leased ''l'' 7, EvAcquired ex_leased ex_leased ''m'' 8] ex_lease_two"
  by (blast intro: run.intros ex_first ex_second)


lemma ex_run_shutdown:
  "run (lease_step ex_lease_config) new_lease_service [EvAcquired ex_leased ex_leased ''l'' 7, EvShutdown] (lease_shutdown ex_lease_one)"
proof -
  have "lease_step ex_lease_config ex_lease_one EvShutdown (lease_shutdown ex_lease_one)"
    by (rule lease_step.shut) (simp add: ex_lease_one_def)
  then show ?thesis by (blast intro: run.intros ex_first)
qed

theorem lease_registry_refines_witness:
  "run (spec_step (lcMarshal ex_lease_config)) new_lease_spec
     [EvAcquired ex_leased ex_leased ''l'' 7, EvAcquired ex_leased ex_leased ''m'' 8] (lease_abs ex_lease_two)"
  by (rule lease_registry_refines [OF ex_run_acquired])


theorem lease_demand_balanced_witness:
  "announced True [1] (lsPending ex_lease_two) = card (live_leases (lease_abs ex_lease_two) [1]) \<and> announced True [1] (lsPending ex_lease_two) = 2"
  using lease_demand_balanced [OF ex_run_acquired, of "[1]"]
  by (simp add: ex_lease_two_def notifications_def List.map_filter_def ex_leased_def)

theorem lease_shutdown_final_witness:
  "ResourceItems (lease_shutdown ex_lease_one) [] = [] \<and> list_all rlClosed (lsObjects (lease_shutdown ex_lease_one))"
  using lease_shutdown_final [OF ex_run_shutdown] by (simp add: lease_shutdown_def ex_lease_one_def)

end
