(* ===== verification/Resource_Builder.thy ===== *)
theory Resource_Builder
  imports Go_Text Paths Resource_Types
begin

text \<open>
  \<open>internal/agent/resource/builder.go\<close>: the canonical identity of a reusable resource. A launch
  specification is validated, its environment and mounts are put in a canonical order, sensitive
  values are replaced by keyed fingerprints, and the digest of the canonical document is the key.

  HMAC-SHA256, SHA-256 and the JSON encoding of the canonical document are parameters.
\<close>

section \<open>Specifications\<close>

definition KindMCPStdio :: string where "KindMCPStdio = ''mcp-stdio''"
definition KindMCPHTTP :: string where "KindMCPHTTP = ''mcp-http''"
definition KindCaddy :: string where "KindCaddy = ''caddy''"

record resource_endpoint =
  reKind :: string
  rePort :: "16 word"
  reSocket :: string
  rePath :: string

record env_variable =
  evName :: string
  evValue :: string
  evSensitive :: bool

record resource_spec =
  spKind :: string
  spTransport :: string
  spManifestDigest :: string
  spRootFSDigest :: string
  spArgv :: "string list"
  spWorkdir :: string
  spUID :: int
  spGID :: int
  spEnvironment :: "env_variable list"
  spEndpoint :: resource_endpoint
  spMounts :: "resource_mount list"
  spNetwork :: string
  spIdleTimeout :: duration
  spBridgeVersion :: string
  spProtocolVersion :: string
  spRequestedScope :: string
  spRunAuthority :: string
  spScopeIdentity :: string

record canonical_environment =
  ceName :: string
  ceValue :: string
  ceFingerprint :: string

record canonical_spec =
  csSchemaVersion :: int
  csKind :: string
  csTransport :: string
  csManifestDigest :: string
  csRootFSDigest :: string
  csArgv :: "string list"
  csWorkdir :: string
  csUID :: int
  csGID :: int
  csEnvironment :: "canonical_environment list"
  csEndpoint :: resource_endpoint
  csMounts :: "resource_mount list"
  csNetwork :: string
  csIdleTimeoutNS :: int
  csBridgeVersion :: string
  csProtocolVersion :: string
  csRunAuthority :: string
  csScope :: string
  csScopeIdentity :: string

datatype builder_error =
    HMACKeyShort
  | SpecUtf8 string
  | SpecUtf8At string nat string
  | InvalidKind string
  | UnsupportedKind string
  | InvalidTransport string
  | UnsupportedTransport string
  | IncompatibleTransport string string
  | InvalidManifestDigest string
  | InvalidRootFSDigest string
  | ArgvEmpty
  | ArgvNUL nat
  | WorkdirNotClean string
  | NegativeIdentity
  | VersionsRequired
  | InvalidResourceNetwork string
  | NegativeIdleTimeout
  | EndpointNoneFields
  | EndpointNoneHTTP
  | EndpointTCPPort
  | EndpointTCPSocket
  | EndpointTCPPath
  | EndpointUnixPort
  | EndpointUnixSocket
  | EndpointUnixPath
  | EndpointUnknown string
  | BuilderEnvName string
  | BuilderEnvNUL string
  | BuilderEnvDuplicate string
  | BuilderMountSource string
  | BuilderMountTarget string
  | BuilderMountAccess string
  | BuilderMountScope string scope_error
  | BuilderMountDuplicate string
  | BuilderScope scope_error
  | ScopeIdentityUser
  | ScopeIdentityRequired string
  | ScopeIdentityNUL

section \<open>Validation\<close>

definition lower_letter :: "char \<Rightarrow> bool" where
  "lower_letter c \<longleftrightarrow> CHR ''a'' \<le> c \<and> c \<le> CHR ''z''"

definition componentPattern :: "string \<Rightarrow> bool" where
  "componentPattern s \<longleftrightarrow>
     (case s of [] \<Rightarrow> False | c # cs \<Rightarrow> lower_letter c \<and> list_all (\<lambda>c. lower_letter c \<or> ascii_digit c \<or> c \<in> set ''._-'') cs)"

definition resource_digest :: "string \<Rightarrow> bool" where
  "resource_digest s \<longleftrightarrow>
     (let algorithm = takeWhile (\<lambda>c. c \<noteq> CHR '':'') s; rest = dropWhile (\<lambda>c. c \<noteq> CHR '':'') s in
      (case algorithm of
         [] \<Rightarrow> False
       | c # cs \<Rightarrow> (lower_letter c \<or> ascii_digit c) \<and> list_all (\<lambda>c. lower_letter c \<or> ascii_digit c \<or> c \<in> set ''+._-'') cs) \<and>
      rest \<noteq> '''' \<and> tl rest \<noteq> '''' \<and> list_all ascii_lower_hex (tl rest))"

definition resource_env_name :: "string \<Rightarrow> bool" where
  "resource_env_name s \<longleftrightarrow>
     (case s of
        [] \<Rightarrow> False
      | c # cs \<Rightarrow> (ascii_letter c \<or> c = CHR ''_'') \<and> list_all (\<lambda>c. ascii_letter c \<or> ascii_digit c \<or> c = CHR ''_'') cs)"

definition validateUTF8 :: "resource_spec \<Rightarrow> builder_error verdict" where
  "validateUTF8 spec =
     and_then
       (each (\<lambda>(name, v). fail_if (\<not> ValidString v) (SpecUtf8 name))
          [(''kind'', spKind spec), (''transport'', spTransport spec), (''manifest digest'', spManifestDigest spec),
           (''rootfs digest'', spRootFSDigest spec), (''workdir'', spWorkdir spec), (''endpoint kind'', reKind (spEndpoint spec)),
           (''endpoint socket'', reSocket (spEndpoint spec)), (''endpoint path'', rePath (spEndpoint spec)),
           (''network'', spNetwork spec), (''bridge version'', spBridgeVersion spec),
           (''protocol version'', spProtocolVersion spec), (''requested scope'', spRequestedScope spec),
           (''run authority'', spRunAuthority spec), (''scope identity'', spScopeIdentity spec)])
    (and_then
       (each (\<lambda>(i, arg). fail_if (\<not> ValidString arg) (SpecUtf8At ''argv'' i '''')) (enumerate 0 (spArgv spec)))
    (and_then
       (each (\<lambda>(i, v). and_then (fail_if (\<not> ValidString (evName v)) (SpecUtf8At ''environment'' i ''name''))
                         (fail_if (\<not> ValidString (evValue v)) (SpecUtf8At ''environment'' i ''value'')))
          (enumerate 0 (spEnvironment spec)))
       (each (\<lambda>(i, m). each (\<lambda>(name, v). fail_if (\<not> ValidString v) (SpecUtf8At ''mount'' i name))
                [(''source'', rmSource m), (''target'', rmTarget m), (''access'', rmAccess m), (''scope'', rmScope m)])
          (enumerate 0 (spMounts spec)))))"

definition canonicalEndpoint :: "resource_endpoint \<Rightarrow> string \<Rightarrow> builder_error verdict" where
  "canonicalEndpoint e transport =
     (if reKind e = ''none'' then
        and_then (fail_if (rePort e \<noteq> 0 \<or> reSocket e \<noteq> '''' \<or> rePath e \<noteq> '''') EndpointNoneFields)
          (fail_if (transport = ''http'') EndpointNoneHTTP)
      else if reKind e = ''tcp'' then
        and_then (fail_if (rePort e = 0) EndpointTCPPort)
       (and_then (fail_if (reSocket e \<noteq> '''') EndpointTCPSocket)
                 (fail_if (\<not> prefix ''/'' (rePath e)) EndpointTCPPath))
      else if reKind e = ''unix'' then
        and_then (fail_if (rePort e \<noteq> 0) EndpointUnixPort)
       (and_then (fail_if (\<not> IsAbs (reSocket e) \<or> Clean (reSocket e) \<noteq> reSocket e) EndpointUnixSocket)
                 (fail_if (\<not> prefix ''/'' (rePath e)) EndpointUnixPath))
      else Some (EndpointUnknown (reKind e)))"

text \<open>The check of adjacent entries after sorting.\<close>

fun adjacent :: "('a \<Rightarrow> string) \<Rightarrow> (string \<Rightarrow> builder_error) \<Rightarrow> 'a list \<Rightarrow> builder_error verdict" where
  "adjacent key e (x # y # xs) = and_then (fail_if (key y = key x) (e (key y))) (adjacent key e (y # xs))"
| "adjacent key e _ = None"

definition canonical_variable :: "(string \<Rightarrow> string) \<Rightarrow> env_variable \<Rightarrow> canonical_environment" where
  "canonical_variable fingerprint v =
     (if evSensitive v then \<lparr>ceName = evName v, ceValue = '''', ceFingerprint = fingerprint (evValue v)\<rparr>
      else \<lparr>ceName = evName v, ceValue = evValue v, ceFingerprint = ''''\<rparr>)"

definition check_variable :: "env_variable \<Rightarrow> builder_error verdict" where
  "check_variable v =
     and_then (fail_if (\<not> resource_env_name (evName v)) (BuilderEnvName (evName v)))
       (fail_if (NUL \<in> set (evValue v)) (BuilderEnvNUL (evName v)))"

text \<open>\<open>fingerprint\<close> is the hexadecimal HMAC-SHA256 under the key of the builder.\<close>

definition canonicalizeEnvironment ::
  "(string \<Rightarrow> string) \<Rightarrow> env_variable list \<Rightarrow> builder_error + canonical_environment list"
where
  "canonicalizeEnvironment fingerprint environment =
     require (each check_variable environment)
       (let result = sort_key ceName (map (canonical_variable fingerprint) environment)
        in require (adjacent ceName BuilderEnvDuplicate result) (Inr result))"

definition mount_order :: "resource_mount \<Rightarrow> string \<times> string \<times> nat \<times> nat \<times> nat \<times> string \<times> string" where
  "mount_order m =
     (rmTarget m, rmSource m, unat (msDevice (rmSourceIdentity m)), unat (msInode (rmSourceIdentity m)),
      unat (msFileType (rmSourceIdentity m)), rmAccess m, rmScope m)"

definition check_mount :: "resource_mount \<Rightarrow> builder_error verdict" where
  "check_mount m =
     and_then (fail_if (\<not> IsAbs (rmSource m) \<or> Clean (rmSource m) \<noteq> rmSource m) (BuilderMountSource (rmSource m)))
    (and_then (fail_if (\<not> IsAbs (rmTarget m) \<or> Clean (rmTarget m) \<noteq> rmTarget m) (BuilderMountTarget (rmTarget m)))
    (and_then (fail_if (rmAccess m \<noteq> ''regular'' \<and> rmAccess m \<noteq> ''read_only'' \<and> rmAccess m \<noteq> ''dev'')
                 (BuilderMountAccess (rmAccess m)))
              (case scope_rank (rmScope m) of Inl e \<Rightarrow> Some (BuilderMountScope (rmTarget m) e) | Inr n \<Rightarrow> None)))"

definition canonicalizeMounts :: "resource_mount list \<Rightarrow> builder_error + resource_mount list" where
  "canonicalizeMounts mounts =
     require (each check_mount mounts)
       (let result = sort_key mount_order mounts
        in require (adjacent rmTarget BuilderMountDuplicate result) (Inr result))"

text \<open>The checks that do not depend on the environment, the mounts and the scope.\<close>

definition validate_spec :: "resource_spec \<Rightarrow> builder_error verdict" where
  "validate_spec spec =
     and_then (validateUTF8 spec)
    (and_then (fail_if (\<not> componentPattern (spKind spec)) (InvalidKind (spKind spec)))
    (and_then (fail_if (spKind spec \<noteq> KindMCPStdio \<and> spKind spec \<noteq> KindMCPHTTP \<and> spKind spec \<noteq> KindCaddy) (UnsupportedKind (spKind spec)))
    (and_then (fail_if (\<not> componentPattern (spTransport spec)) (InvalidTransport (spTransport spec)))
    (and_then (fail_if (spTransport spec \<noteq> ''stdio'' \<and> spTransport spec \<noteq> ''http'') (UnsupportedTransport (spTransport spec)))
    (and_then (fail_if ((spKind spec = KindMCPStdio) \<noteq> (spTransport spec = ''stdio'')) (IncompatibleTransport (spKind spec) (spTransport spec)))
    (and_then (fail_if (\<not> resource_digest (spManifestDigest spec)) (InvalidManifestDigest (spManifestDigest spec)))
    (and_then (fail_if (\<not> resource_digest (spRootFSDigest spec)) (InvalidRootFSDigest (spRootFSDigest spec)))
    (and_then (fail_if (case spArgv spec of [] \<Rightarrow> True | executable # _ \<Rightarrow> TrimSpace executable = '''') ArgvEmpty)
    (and_then (each (\<lambda>(i, arg). fail_if (NUL \<in> set arg) (ArgvNUL i)) (enumerate 0 (spArgv spec)))
    (and_then (fail_if (\<not> IsAbs (spWorkdir spec) \<or> Clean (spWorkdir spec) \<noteq> spWorkdir spec) (WorkdirNotClean (spWorkdir spec)))
    (and_then (fail_if (spUID spec < 0 \<or> spGID spec < 0) NegativeIdentity)
    (and_then (fail_if (spBridgeVersion spec = '''' \<or> spProtocolVersion spec = '''') VersionsRequired)
    (and_then (fail_if (spNetwork spec \<noteq> ''host'' \<and> spNetwork spec \<noteq> ''private'') (InvalidResourceNetwork (spNetwork spec)))
    (and_then (fail_if (spIdleTimeout spec < 0) NegativeIdleTimeout)
              (canonicalEndpoint (spEndpoint spec) (spTransport spec))))))))))))))))"

definition validate_scope_identity :: "string \<Rightarrow> string \<Rightarrow> builder_error verdict" where
  "validate_scope_identity effective identity =
     (case scope_rank effective of
        Inl e \<Rightarrow> Some (BuilderScope e)
      | Inr rank \<Rightarrow>
          and_then (fail_if (rank = 0 \<and> identity \<noteq> '''') ScopeIdentityUser)
         (and_then (fail_if (rank > 0 \<and> TrimSpace identity = '''') (ScopeIdentityRequired effective))
                   (fail_if (NUL \<in> set identity) ScopeIdentityNUL)))"

definition canonicalize :: "(string \<Rightarrow> string) \<Rightarrow> resource_spec \<Rightarrow> builder_error + canonical_spec" where
  "canonicalize fingerprint spec =
     require (validate_spec spec)
       (attempt (canonicalizeEnvironment fingerprint (spEnvironment spec)) (\<lambda>environment.
        attempt (canonicalizeMounts (spMounts spec)) (\<lambda>mounts.
        case EffectiveScope (spRequestedScope spec) mounts (spRunAuthority spec) of
          Inl e \<Rightarrow> Inl (BuilderScope e)
        | Inr effectiveScope \<Rightarrow>
            require (validate_scope_identity effectiveScope (spScopeIdentity spec))
              (Inr \<lparr>csSchemaVersion = 1, csKind = spKind spec, csTransport = spTransport spec,
                    csManifestDigest = spManifestDigest spec, csRootFSDigest = spRootFSDigest spec, csArgv = spArgv spec,
                    csWorkdir = spWorkdir spec, csUID = spUID spec, csGID = spGID spec, csEnvironment = environment,
                    csEndpoint = spEndpoint spec, csMounts = mounts, csNetwork = spNetwork spec,
                    csIdleTimeoutNS = spIdleTimeout spec, csBridgeVersion = spBridgeVersion spec,
                    csProtocolVersion = spProtocolVersion spec, csRunAuthority = spRunAuthority spec,
                    csScope = effectiveScope, csScopeIdentity = spScopeIdentity spec\<rparr>))))"

text \<open>
  A builder: the HMAC with its key, and the digest of the JSON document of a canonical
  specification.
\<close>

record resource_builder =
  rbFingerprint :: "string \<Rightarrow> string"
  rbDigest :: "canonical_spec \<Rightarrow> bytes"

definition minimumHMACKeyBytes :: nat where "minimumHMACKeyBytes = 32"

definition NewBuilder :: "(bytes \<Rightarrow> string \<Rightarrow> string) \<Rightarrow> (canonical_spec \<Rightarrow> bytes) \<Rightarrow> bytes \<Rightarrow> builder_error + resource_builder" where
  "NewBuilder hmac digest key =
     (if length key < minimumHMACKeyBytes then Inl HMACKeyShort else Inr \<lparr>rbFingerprint = hmac key, rbDigest = digest\<rparr>)"

definition BuildKey :: "resource_builder \<Rightarrow> resource_spec \<Rightarrow> builder_error + resource_key" where
  "BuildKey b spec =
     attempt (canonicalize (rbFingerprint b) spec) (\<lambda>canonical.
       Inr \<lparr>keyDigest = rbDigest b canonical, keyKind = csKind canonical, keyTransport = csTransport canonical, keyScope = csScope canonical\<rparr>)"

end
