(* ===== verification/Resource_Builder_Properties.thy ===== *)
theory Resource_Builder_Properties
  imports Resource_Builder Mount
begin

text \<open>
  The key of a reusable resource identifies what is launched: it does not depend on the order of
  the environment and the mounts, and equal keys mean equal launches.
\<close>

section \<open>Canonical orders\<close>

lemma adjacent_distinct:
  "sorted (map key xs) \<Longrightarrow> adjacent key e xs = None \<longleftrightarrow> distinct (map key xs)"
proof (induction key e xs rule: adjacent.induct)
  case (1 key e x y xs)
  have "key x \<notin> set (map key (y # xs)) \<longleftrightarrow> key y \<noteq> key x"
    using 1(2) by (auto dest: antisym)
  then show ?case using 1 by (auto simp: verdict_simps)
qed simp_all

lemma sorted_first_component: "sorted (map (\<lambda>x. (k x, r x)) xs) \<Longrightarrow> sorted (map k xs)"
  by (induction xs) (auto simp: less_eq_prod_def order.strict_iff_order)

text \<open>Sorting entries with distinct keys does not depend on their order.\<close>

lemma sort_key_perm:
  assumes "mset xs = mset ys" "distinct (map key ys)" "\<And>x y. f x = f y \<Longrightarrow> key x = key y"
  shows "sort_key f xs = sort_key f ys"
proof (rule sort_key_inj_key_eq)
  show "mset xs = mset (sort_key f ys)" using assms(1) by simp
  have "set xs = set ys" using assms(1) by (rule mset_eq_setD)
  then have inj: "inj_on key (set xs)" using assms(2) by (simp add: distinct_map)
  show "inj_on f (set xs)"
  proof (rule inj_onI)
    fix x y assume "x \<in> set xs" "y \<in> set xs" "f x = f y"
    then show "x = y" using inj_onD [OF inj assms(3)] by blast
  qed
  show "sorted (map f (sort_key f ys))" by simp
qed

lemma distinct_sort_key: "distinct (map k (sort_key f xs)) = distinct (map k xs)"
  by (rule mset_eq_imp_distinct_iff) simp

lemma each_perm: "mset xs = mset ys \<Longrightarrow> (each f xs = None) = (each f ys = None)"
  using mset_eq_setD [of xs ys] by (simp add: verdict_simps)

lemma each_enumerate: "each (\<lambda>(i, x). f i x) (enumerate 0 xs) = None \<longleftrightarrow> (\<forall>i < length xs. f i (xs ! i) = None)"
  by (simp add: each_None all_set_conv_all_nth nth_enumerate_eq)

text \<open>What the two canonical lists are.\<close>

lemma canonicalizeEnvironment_Inr:
  "canonicalizeEnvironment f env = Inr ce \<longleftrightarrow>
     each check_variable env = None \<and>
     distinct (map evName env) \<and> ce = sort_key ceName (map (canonical_variable f) env)"
proof -
  have "map ceName (map (canonical_variable f) env) = map evName env" by (simp add: canonical_variable_def)
  then have "distinct (map ceName (sort_key ceName (map (canonical_variable f) env))) = distinct (map evName env)"
    using distinct_sort_key by metis
  then show ?thesis
    using adjacent_distinct [of ceName "sort_key ceName (map (canonical_variable f) env)" BuilderEnvDuplicate]
    by (auto simp: canonicalizeEnvironment_def Let_def require_Inr)
qed

lemma canonicalizeMounts_Inr:
  "canonicalizeMounts mounts = Inr cm \<longleftrightarrow>
     each check_mount mounts = None \<and> distinct (map rmTarget mounts) \<and> cm = sort_key mount_order mounts"
proof -
  have "adjacent rmTarget BuilderMountDuplicate (sort_key mount_order mounts) = None \<longleftrightarrow> distinct (map rmTarget mounts)" for mounts
  proof -
    have "sorted (map mount_order (sort_key mount_order mounts))" by simp
    then have "sorted (map rmTarget (sort_key mount_order mounts))"
      unfolding mount_order_def by (rule sorted_first_component)
    then show ?thesis using adjacent_distinct distinct_sort_key by blast
  qed
  then show ?thesis by (auto simp: canonicalizeMounts_def Let_def require_Inr)
qed

lemma environment_perm:
  assumes "mset env = mset env'"
  shows "canonicalizeEnvironment f env = Inr ce \<longleftrightarrow> canonicalizeEnvironment f env' = Inr ce"
proof -
  have m: "mset (map (canonical_variable f) env) = mset (map (canonical_variable f) env')" "mset (map evName env) = mset (map evName env')"
    using assms by simp_all
  have d: "distinct (map evName env) = distinct (map evName env')" using m(2) by (rule mset_eq_imp_distinct_iff)
  have "sort_key ceName (map (canonical_variable f) env) = sort_key ceName (map (canonical_variable f) env')"
    if "distinct (map evName env')"
    by (rule sort_key_perm [OF m(1), of ceName]) (use that in \<open>simp_all add: canonical_variable_def comp_def if_distrib cong: if_cong\<close>)
  then show ?thesis unfolding canonicalizeEnvironment_Inr using each_perm [OF assms] d by auto
qed

lemma mounts_perm:
  assumes "mset ms = mset ms'"
  shows "canonicalizeMounts ms = Inr cm \<longleftrightarrow> canonicalizeMounts ms' = Inr cm"
proof -
  have "mset (map rmTarget ms) = mset (map rmTarget ms')" using assms by simp
  then have d: "distinct (map rmTarget ms) = distinct (map rmTarget ms')" by (rule mset_eq_imp_distinct_iff)
  have "sort_key mount_order ms = sort_key mount_order ms'" if "distinct (map rmTarget ms')"
    by (rule sort_key_perm [OF assms that]) (simp add: mount_order_def)
  then show ?thesis unfolding canonicalizeMounts_Inr using each_perm [OF assms] d by auto
qed

lemma validateUTF8_None:
  "validateUTF8 spec = None \<longleftrightarrow>
     list_all ValidString [spKind spec, spTransport spec, spManifestDigest spec, spRootFSDigest spec, spWorkdir spec, reKind (spEndpoint spec),
       reSocket (spEndpoint spec), rePath (spEndpoint spec), spNetwork spec, spBridgeVersion spec, spProtocolVersion spec,
       spRequestedScope spec, spRunAuthority spec, spScopeIdentity spec] \<and>
     list_all ValidString (spArgv spec) \<and>
     list_all (\<lambda>v. ValidString (evName v) \<and> ValidString (evValue v)) (spEnvironment spec) \<and>
     list_all (\<lambda>m. list_all ValidString [rmSource m, rmTarget m, rmAccess m, rmScope m]) (spMounts spec)"
  unfolding validateUTF8_def and_then_None each_enumerate list_all_length [of _ "spArgv spec"] list_all_length [of _ "spEnvironment spec"]
    list_all_length [of _ "spMounts spec"]
  by (simp add: and_then_None fail_if_None)

lemma utf8_perm:
  assumes "mset env = mset (spEnvironment spec)" "mset ms = mset (spMounts spec)"
  shows "validateUTF8 (spec\<lparr>spEnvironment := env, spMounts := ms\<rparr>) = None \<longleftrightarrow> validateUTF8 spec = None"
proof -
  have "set env = set (spEnvironment spec)" "set ms = set (spMounts spec)" using assms by (auto dest: mset_eq_setD)
  then have "list_all P env = list_all P (spEnvironment spec)" "list_all Q ms = list_all Q (spMounts spec)" for P Q
    by (simp_all add: list_all_iff)
  then show ?thesis by (simp add: validateUTF8_None)
qed

lemma validate_spec_perm:
  assumes "mset env = mset (spEnvironment spec)" "mset ms = mset (spMounts spec)"
  shows "validate_spec (spec\<lparr>spEnvironment := env, spMounts := ms\<rparr>) = None \<longleftrightarrow> validate_spec spec = None"
  using utf8_perm [OF assms] by (simp add: validate_spec_def and_then_None)

lemma case_Inr: "(case v of Inl e \<Rightarrow> Inl (g e) | Inr x \<Rightarrow> h x) = Inr y \<longleftrightarrow> (\<exists>x. v = Inr x \<and> h x = Inr y)"
  by (cases v) simp_all

lemma canonicalize_Inr:
  "canonicalize f spec = Inr c \<longleftrightarrow> validate_spec spec = None \<and>
    (\<exists>ce cm sc. canonicalizeEnvironment f (spEnvironment spec) = Inr ce \<and> canonicalizeMounts (spMounts spec) = Inr cm \<and>
       EffectiveScope (spRequestedScope spec) cm (spRunAuthority spec) = Inr sc \<and>
       validate_scope_identity sc (spScopeIdentity spec) = None \<and>
       c = \<lparr>csSchemaVersion = 1, csKind = spKind spec, csTransport = spTransport spec,
            csManifestDigest = spManifestDigest spec, csRootFSDigest = spRootFSDigest spec, csArgv = spArgv spec,
            csWorkdir = spWorkdir spec, csUID = spUID spec, csGID = spGID spec, csEnvironment = ce,
            csEndpoint = spEndpoint spec, csMounts = cm, csNetwork = spNetwork spec,
            csIdleTimeoutNS = spIdleTimeout spec, csBridgeVersion = spBridgeVersion spec,
            csProtocolVersion = spProtocolVersion spec, csRunAuthority = spRunAuthority spec,
            csScope = sc, csScopeIdentity = spScopeIdentity spec\<rparr>)"
  unfolding canonicalize_def require_Inr attempt_Inr case_Inr by blast

lemma canonicalize_fields:
  assumes "canonicalize f spec = Inr c"
  shows "(csKind c, csTransport c, csManifestDigest c, csRootFSDigest c, csArgv c, csWorkdir c, csUID c, csGID c) =
      (spKind spec, spTransport spec, spManifestDigest spec, spRootFSDigest spec, spArgv spec, spWorkdir spec, spUID spec, spGID spec)"
    and "(csEndpoint c, csNetwork c, csIdleTimeoutNS c, csBridgeVersion c, csProtocolVersion c, csRunAuthority c, csScopeIdentity c) =
      (spEndpoint spec, spNetwork spec, spIdleTimeout spec, spBridgeVersion spec, spProtocolVersion spec, spRunAuthority spec, spScopeIdentity spec)"
    and "EffectiveScope (spRequestedScope spec) (csMounts c) (spRunAuthority spec) = Inr (csScope c)"
    and "csEnvironment c = sort_key ceName (map (canonical_variable f) (spEnvironment spec))"
    and "csMounts c = sort_key mount_order (spMounts spec)"
  using assms by (auto simp: canonicalize_Inr canonicalizeEnvironment_Inr canonicalizeMounts_Inr)

section \<open>Properties\<close>

text \<open>
  C28. The order in which environment variables and mounts are listed does not matter: two
  specifications that differ only in it are both refused or have the same key.
\<close>

theorem key_order_independent:
  assumes "mset env = mset (spEnvironment spec)" "mset ms = mset (spMounts spec)"
  shows "case (BuildKey b spec, BuildKey b (spec\<lparr>spEnvironment := env, spMounts := ms\<rparr>)) of
      (Inr k, Inr k') \<Rightarrow> k = k' | (Inl e, Inl e') \<Rightarrow> True | _ \<Rightarrow> False"
proof -
  let ?f = "rbFingerprint b" and ?spec = "spec\<lparr>spEnvironment := env, spMounts := ms\<rparr>"
  have same: "canonicalize ?f spec = Inr c \<longleftrightarrow> canonicalize ?f ?spec = Inr c" for c
    unfolding canonicalize_Inr validate_spec_perm [OF assms] using environment_perm [OF assms(1)] mounts_perm [OF assms(2)] by simp
  show ?thesis
  proof (cases "canonicalize ?f spec")
    case (Inl e)
    then obtain e' where "canonicalize ?f ?spec = Inl e'" using same by (cases "canonicalize ?f ?spec") auto
    then show ?thesis using Inl by (simp add: BuildKey_def)
  next
    case (Inr c)
    then show ?thesis using same [of c] by (simp add: BuildKey_def)
  qed
qed

text \<open>
  C27. Two specifications with the same key are the same launch, unless their canonical documents
  collide in the digest: the same command, root file system, identity, endpoint, network, timeout,
  authority and scope, the same mounts, and the same environment, where sensitive values are
  compared by their fingerprints and never stand in the document themselves.
\<close>

theorem same_key_same_launch:
  assumes "BuildKey b spec = Inr k" "BuildKey b spec' = Inr k"
  shows "case (canonicalize (rbFingerprint b) spec, canonicalize (rbFingerprint b) spec') of
      (Inr c, Inr c') \<Rightarrow>
        list_all (\<lambda>v. if evSensitive v then \<lparr>ceName = evName v, ceValue = '''', ceFingerprint = rbFingerprint b (evValue v)\<rparr> \<in> set (csEnvironment c)
          else \<lparr>ceName = evName v, ceValue = evValue v, ceFingerprint = ''''\<rparr> \<in> set (csEnvironment c)) (spEnvironment spec) \<and>
        length (csEnvironment c) = length (spEnvironment spec) \<and>
        (if c \<noteq> c' then rbDigest b c = rbDigest b c'
         else (spKind spec, spTransport spec, spManifestDigest spec, spRootFSDigest spec, spArgv spec, spWorkdir spec, spUID spec, spGID spec) =
              (spKind spec', spTransport spec', spManifestDigest spec', spRootFSDigest spec', spArgv spec', spWorkdir spec', spUID spec', spGID spec') \<and>
              (spEndpoint spec, spNetwork spec, spIdleTimeout spec, spBridgeVersion spec, spProtocolVersion spec, spRunAuthority spec, spScopeIdentity spec) =
              (spEndpoint spec', spNetwork spec', spIdleTimeout spec', spBridgeVersion spec', spProtocolVersion spec', spRunAuthority spec', spScopeIdentity spec') \<and>
              mset (spMounts spec) = mset (spMounts spec') \<and>
              mset (map (canonical_variable (rbFingerprint b)) (spEnvironment spec)) =
                mset (map (canonical_variable (rbFingerprint b)) (spEnvironment spec')) \<and>
              EffectiveScope (spRequestedScope spec) (csMounts c) (spRunAuthority spec) =
                EffectiveScope (spRequestedScope spec') (csMounts c) (spRunAuthority spec'))
    | _ \<Rightarrow> False"
proof -
  let ?f = "rbFingerprint b"
  obtain c c' where c: "canonicalize ?f spec = Inr c" "canonicalize ?f spec' = Inr c'" "rbDigest b c = rbDigest b c'"
    using assms by (auto simp: BuildKey_def verdict_simps)
  note parts = canonicalize_fields [OF c(1)] and parts' = canonicalize_fields [OF c(2)]
  have env: "list_all (\<lambda>v. canonical_variable ?f v \<in> set (csEnvironment c)) (spEnvironment spec)"
    "length (csEnvironment c) = length (spEnvironment spec)"
    by (simp_all add: parts(4) list_all_iff)
  have named: "list_all (\<lambda>v. if evSensitive v then \<lparr>ceName = evName v, ceValue = '''', ceFingerprint = ?f (evValue v)\<rparr> \<in> set (csEnvironment c)
          else \<lparr>ceName = evName v, ceValue = evValue v, ceFingerprint = ''''\<rparr> \<in> set (csEnvironment c)) (spEnvironment spec)"
    using env(1) by (auto simp: list_all_iff canonical_variable_def split: if_splits)
  show ?thesis
  proof (cases "c = c'")
    case True
    have "mset (spMounts spec) = mset (spMounts spec')" using parts(5) parts'(5) True by (metis mset_sort)
    moreover have "mset (map (canonical_variable ?f) (spEnvironment spec)) = mset (map (canonical_variable ?f) (spEnvironment spec'))"
      using parts(4) parts'(4) True by (metis mset_sort)
    ultimately show ?thesis
      using c(1,2) True env(2) named parts(1-3) parts'(1-3) by (simp only: sum.case prod.case if_False simp_thms)
  next
    case False
    then show ?thesis using c env(2) named by (simp only: sum.case prod.case if_True simp_thms)
  qed
qed

section \<open>Examples\<close>

definition ex_spec :: resource_spec where
  "ex_spec =
     \<lparr>spKind = ''mcp-stdio'', spTransport = ''stdio'', spManifestDigest = ''a:0'', spRootFSDigest = ''a:1'', spArgv = [''c''], spWorkdir = ''/'',
      spUID = 0, spGID = 0,
      spEnvironment = [\<lparr>evName = ''K'', evValue = ''s'', evSensitive = True\<rparr>, \<lparr>evName = ''A'', evValue = ''v'', evSensitive = False\<rparr>],
      spEndpoint = \<lparr>reKind = ''none'', rePort = 0, reSocket = '''', rePath = ''''\<rparr>, spMounts = [], spNetwork = ''host'', spIdleTimeout = 0,
      spBridgeVersion = ''1'', spProtocolVersion = ''1'', spRequestedScope = ''user'', spRunAuthority = ''absent'', spScopeIdentity = ''''\<rparr>"

definition ex_builder :: resource_builder where
  "ex_builder = \<lparr>rbFingerprint = (\<lambda>s. ''f'' @ s), rbDigest = (\<lambda>c. [of_nat (length (csEnvironment c))])\<rparr>"

lemma ex_spec_valid: "validate_spec ex_spec = None"
  by (simp add: validate_spec_def validateUTF8_def ex_spec_def ValidString_def enumerate_eq_zip componentPattern_def lower_letter_def
      KindMCPStdio_def resource_digest_def ascii_digit_def ascii_lower_hex_def TrimSpace_component component_char_def ascii_letter_def
      IsAbs_def Clean_def canonicalEndpoint_def)

lemma ex_key: "BuildKey ex_builder ex_spec = Inr \<lparr>keyDigest = [2], keyKind = ''mcp-stdio'', keyTransport = ''stdio'', keyScope = ''user''\<rparr>"
proof -
  have env: "canonicalizeEnvironment (rbFingerprint ex_builder) (spEnvironment ex_spec) =
      Inr [\<lparr>ceName = ''A'', ceValue = ''v'', ceFingerprint = ''''\<rparr>, \<lparr>ceName = ''K'', ceValue = '''', ceFingerprint = ''fs''\<rparr>]"
    by (simp add: canonicalizeEnvironment_def check_variable_def ex_spec_def ex_builder_def resource_env_name_def ascii_letter_def canonical_variable_def)
  have rest: "spMounts ex_spec = []" "spRequestedScope ex_spec = ''user''" "spRunAuthority ex_spec = ''absent''" "spScopeIdentity ex_spec = ''''"
    "spKind ex_spec = ''mcp-stdio''" "spTransport ex_spec = ''stdio''"
    by (simp_all add: ex_spec_def)
  show ?thesis
    by (simp add: BuildKey_def canonicalize_def ex_spec_valid env rest canonicalizeMounts_def EffectiveScope_def scope_defs scope_rank_def
        validate_scope_identity_def) (simp add: ex_builder_def)
qed

theorem key_order_independent_witness:
  "case (BuildKey ex_builder ex_spec, BuildKey ex_builder (ex_spec\<lparr>spEnvironment := rev (spEnvironment ex_spec), spMounts := []\<rparr>)) of
     (Inr k, Inr k') \<Rightarrow> k = k' | (Inl e, Inl e') \<Rightarrow> True | _ \<Rightarrow> False"
  by (rule key_order_independent) (simp_all add: ex_spec_def)

theorem same_key_same_launch_witness:
  "case canonicalize (rbFingerprint ex_builder) ex_spec of Inl e \<Rightarrow> False
   | Inr c \<Rightarrow> length (csEnvironment c) = length (spEnvironment ex_spec)"
  using same_key_same_launch [OF ex_key ex_key] by (auto split: sum.splits)

end
