(* ===== verification/Provider_Routes.thy ===== *)
theory Provider_Routes
  imports Config_Models
begin

text \<open>
  \<open>internal/providergateway\<close>: the routes of the models gateway. What a request for providers must
  satisfy (\<open>types.go\<close>, \<open>validation.go\<close>), how its routes get their capabilities
  (\<open>route.go\<close>, \<open>route_factory.go\<close>), and the store of routes (\<open>routes.go\<close>), which grants or denies
  every proxied request.

  Capabilities come from a sequence of random draws, \<open>None\<close> being a failing source. The store is
  protected by one mutex, so each of its methods is one function.
\<close>

section \<open>Requests\<close>

definition maxProviders :: nat where "maxProviders = 64"
definition maxProviderIDBytes :: nat where "maxProviderIDBytes = 64"
definition maxCredentialBytes :: nat where "maxCredentialBytes = 256"

definition ProviderOpenAI :: string where "ProviderOpenAI = ''openai''"
definition ProviderAnthropic :: string where "ProviderAnthropic = ''anthropic''"

record provider_spec =
  psID :: string
  psType :: string
  psName :: string
  psURL :: string
  psHeaders :: "(string \<times> string) list"

datatype provider_error =
    ProviderIDInvalid
  | ProviderTypeUnsupported string
  | ProviderNameInvalid
  | ProviderURL model_url_error
  | ProviderHeaders model_header_error
  | ProvidersNil
  | ProvidersMany
  | ProviderDuplicate nat
  | RouteIDInvalid
  | RouteCapabilityInvalid
  | RouteCredentialInvalid
  | TokenFailed
  | TokenInvalid
  | TokenExhausted
  | RoutesEmpty
  | RoutesMany
  | RouteInvalid nat provider_error
  | RouteIDCollision
  | RouteCapabilityCollision
  | RevisionsExhausted
  | RouteNotDesired
  | GenerationTokenInvalid
  | CapabilityURLInvalid
  | DescriptorCredentialInvalid
  | DescriptorsEmpty
  | DescriptorTooLarge
  | RenderToken
  | RenderURL
  | RenderHost
  | RenderTooLarge

definition provider_id :: "string \<Rightarrow> bool" where
  "provider_id s \<longleftrightarrow>
     (case s of
        [] \<Rightarrow> False
      | c # cs \<Rightarrow> (CHR ''a'' \<le> c \<and> c \<le> CHR ''z'') \<and>
          list_all (\<lambda>c. (CHR ''a'' \<le> c \<and> c \<le> CHR ''z'') \<or> ascii_digit c \<or> c \<in> set ''._-'') cs)"

definition validateProviderID :: "string \<Rightarrow> provider_error verdict" where
  "validateProviderID s = fail_if (s = '''' \<or> length s > maxProviderIDBytes \<or> \<not> provider_id s) ProviderIDInvalid"

definition validateProviderIdentity :: "string \<Rightarrow> string \<Rightarrow> string \<Rightarrow> provider_error verdict" where
  "validateProviderIdentity i providerType name =
     and_then (validateProviderID i)
    (and_then (fail_if (providerType \<noteq> ProviderOpenAI \<and> providerType \<noteq> ProviderAnthropic) (ProviderTypeUnsupported providerType))
              (fail_if (name = '''' \<or> \<not> ValidString name \<or> rune_count name > maxDisplayNameRunes \<or> name \<noteq> TrimSpace name \<or> IsControl_any name)
                 ProviderNameInvalid))"

text \<open>The URL and the headers are checked by the same statements as those of a models resource.\<close>

definition validateUpstreamURL :: "url_package \<Rightarrow> string \<Rightarrow> model_url_error verdict" where
  "validateUpstreamURL u v = validateURL_model u v"

definition validateProviderHeaders :: "(string \<times> string) list \<Rightarrow> model_header_error verdict" where
  "validateProviderHeaders headers = validateHeaders_model headers"

definition Provider_validate :: "url_package \<Rightarrow> provider_spec \<Rightarrow> provider_error verdict" where
  "Provider_validate u p =
     and_then (validateProviderIdentity (psID p) (psType p) (psName p))
    (and_then (map_option ProviderURL (validateUpstreamURL u (psURL p)))
              (map_option ProviderHeaders (validateProviderHeaders (psHeaders p))))"

fun validate_providers :: "url_package \<Rightarrow> provider_spec list \<Rightarrow> nat \<Rightarrow> string list \<Rightarrow> provider_error verdict" where
  "validate_providers u [] index ids = None"
| "validate_providers u (p # ps) index ids =
     and_then (Provider_validate u p)
    (and_then (fail_if (psID p \<in> set ids) (ProviderDuplicate index))
              (validate_providers u ps (Suc index) (psID p # ids)))"

text \<open>A request with no array of providers is \<open>None\<close>.\<close>

definition Request_validate :: "url_package \<Rightarrow> provider_spec list option \<Rightarrow> provider_error verdict" where
  "Request_validate u spec =
     (case spec of
        None \<Rightarrow> Some ProvidersNil
      | Some ps \<Rightarrow> and_then (fail_if (length ps > maxProviders) ProvidersMany) (validate_providers u ps 0 []))"

section \<open>Routes\<close>

definition validCapabilityToken :: "string \<Rightarrow> nat \<Rightarrow> bool" where
  "validCapabilityToken v maximum \<longleftrightarrow>
     v \<noteq> '''' \<and> length v \<le> maximum \<and> list_all (\<lambda>c. ascii_letter c \<or> ascii_digit c \<or> c = CHR ''-'' \<or> c = CHR ''_'') v"

record provider_route =
  rtID :: string
  rtCapability :: string
  rtCredential :: string
  rtProvider :: provider_spec

definition Route_validate :: "url_package \<Rightarrow> provider_route \<Rightarrow> provider_error verdict" where
  "Route_validate u r =
     and_then (fail_if (\<not> validCapabilityToken (rtID r) maxCredentialBytes) RouteIDInvalid)
    (and_then (fail_if (\<not> validCapabilityToken (rtCapability r) maxCredentialBytes) RouteCapabilityInvalid)
    (and_then (fail_if (\<not> validCapabilityToken (rtCredential r) maxCredentialBytes) RouteCredentialInvalid)
              (Provider_validate u (rtProvider r))))"

definition credentialHeader :: "provider_route \<Rightarrow> string \<times> string" where
  "credentialHeader r =
     (if psType (rtProvider r) = ProviderOpenAI then (''Authorization'', ''Bearer '' @ rtCredential r)
      else if psType (rtProvider r) = ProviderAnthropic then (''X-Api-Key'', rtCredential r)
      else ('''', ''''))"

definition routePrefix :: "provider_route \<Rightarrow> string" where
  "routePrefix r = ''/'' @ rtCapability r @ ''/'' @ psID (rtProvider r)"

definition authPath :: "provider_route \<Rightarrow> string" where
  "authPath r = ''/authorize/'' @ rtID r"

section \<open>Generating routes\<close>

type_synonym draws = "nat \<Rightarrow> string option"

definition routeGenerationAttempts :: nat where "routeGenerationAttempts = 8"

text \<open>One capability: the used tokens and the position of the next draw.\<close>

fun draw_token :: "draws \<Rightarrow> nat \<Rightarrow> string list \<Rightarrow> nat \<Rightarrow> provider_error + (string \<times> nat)" where
  "draw_token draws 0 used n = Inl TokenExhausted"
| "draw_token draws (Suc attempts) used n =
     (case draws n of
        None \<Rightarrow> Inl TokenFailed
      | Some candidate \<Rightarrow>
          (if \<not> validCapabilityToken candidate maxCredentialBytes then Inl TokenInvalid
           else if candidate \<in> set used then draw_token draws attempts used (Suc n)
           else Inr (candidate, Suc n)))"

fun build_routes :: "draws \<Rightarrow> provider_spec list \<Rightarrow> string list \<Rightarrow> nat \<Rightarrow> provider_error + (provider_route list \<times> nat)" where
  "build_routes draws [] used n = Inr ([], n)"
| "build_routes draws (p # ps) used n =
     attempt (draw_token draws routeGenerationAttempts used n) (\<lambda>(i, n).
     attempt (draw_token draws routeGenerationAttempts (i # used) n) (\<lambda>(capability, n).
     attempt (draw_token draws routeGenerationAttempts (capability # i # used) n) (\<lambda>(credential, n).
     attempt (build_routes draws ps (credential # capability # i # used) n) (\<lambda>(routes, n).
       Inr (\<lparr>rtID = i, rtCapability = capability, rtCredential = credential, rtProvider = p\<rparr> # routes, n)))))"

definition buildRoutes :: "url_package \<Rightarrow> draws \<Rightarrow> provider_spec list option \<Rightarrow> nat \<Rightarrow> provider_error + (provider_route list \<times> nat)" where
  "buildRoutes u draws spec n =
     require (Request_validate u spec) (build_routes draws (case spec of Some ps \<Rightarrow> ps | None \<Rightarrow> []) [] n)"

section \<open>The route store\<close>

definition maxGatewayRoutes :: nat where "maxGatewayRoutes = 4096"

record stored_route =
  srRoute :: provider_route
  srDesired :: bool
  srActive :: bool
  srRemoval :: "64 word"

record route_store =
  rsRevision :: "64 word"
  rsConfirmed :: "64 word"
  rsToken :: string
  rsRoutes :: "(string \<times> stored_route) list"
  rsCapabilities :: "(string \<times> string) list"

definition newRouteStore :: route_store where
  "newRouteStore = \<lparr>rsRevision = 0, rsConfirmed = 0, rsToken = '''', rsRoutes = [], rsCapabilities = []\<rparr>"

definition MaxRevision :: "64 word" where "MaxRevision = - 1"

definition nextRevisionLocked :: "route_store \<Rightarrow> route_store option" where
  "nextRevisionLocked s = (if rsRevision s = MaxRevision then None else Some (s\<lparr>rsRevision := rsRevision s + 1\<rparr>))"

text \<open>The checks of \<open>add\<close>: the routes checked so far by identity and capability.\<close>

fun check_added :: "url_package \<Rightarrow> route_store \<Rightarrow> provider_route list \<Rightarrow> nat \<Rightarrow> string list \<Rightarrow> string list \<Rightarrow> provider_error verdict" where
  "check_added u s [] index ids capabilities = None"
| "check_added u s (r # rs) index ids capabilities =
     and_then (map_option (RouteInvalid index) (Route_validate u r))
    (and_then (fail_if (map_of (rsRoutes s) (rtID r) \<noteq> None \<or> rtID r \<in> set ids) RouteIDCollision)
    (and_then (fail_if (map_of (rsCapabilities s) (rtCapability r) \<noteq> None \<or> rtCapability r \<in> set capabilities) RouteCapabilityCollision)
              (check_added u s rs (Suc index) (rtID r # ids) (rtCapability r # capabilities))))"

definition put_route :: "provider_route \<Rightarrow> route_store \<Rightarrow> route_store" where
  "put_route r s =
     s\<lparr>rsRoutes := AList.update (rtID r) \<lparr>srRoute = r, srDesired = True, srActive = False, srRemoval = 0\<rparr> (rsRoutes s),
       rsCapabilities := AList.update (rtCapability r) (rtID r) (rsCapabilities s)\<rparr>"

definition store_add :: "url_package \<Rightarrow> route_store \<Rightarrow> provider_route list \<Rightarrow> provider_error + (route_store \<times> 64 word)" where
  "store_add u s routes =
     (if routes = [] then Inl RoutesEmpty
      else if length (rsRoutes s) + length routes > maxGatewayRoutes then Inl RoutesMany
      else require (check_added u s routes 0 [] [])
        (case nextRevisionLocked s of
           None \<Rightarrow> Inl RevisionsExhausted
         | Some s \<Rightarrow> Inr (fold put_route routes s, rsRevision s)))"

definition store_activate :: "route_store \<Rightarrow> string list \<Rightarrow> provider_error + route_store" where
  "store_activate s ids =
     (if list_all (\<lambda>i. case map_of (rsRoutes s) i of None \<Rightarrow> False | Some r \<Rightarrow> srDesired r) ids
      then Inr (s\<lparr>rsRoutes := map (\<lambda>(i, r). (i, if i \<in> set ids then r\<lparr>srActive := True\<rparr> else r)) (rsRoutes s)\<rparr>)
      else Inl RouteNotDesired)"

definition withdraw :: "64 word \<Rightarrow> stored_route \<Rightarrow> stored_route" where
  "withdraw revision r = r\<lparr>srActive := False, srDesired := False, srRemoval := revision\<rparr>"

definition store_revoke :: "route_store \<Rightarrow> string list \<Rightarrow> route_store \<times> 64 word" where
  "store_revoke s ids =
     (if ids = [] then (s, 0)
      else if \<not> list_ex (\<lambda>i. case map_of (rsRoutes s) i of None \<Rightarrow> False | Some r \<Rightarrow> srDesired r) ids then (s, rsRevision s)
      else case nextRevisionLocked s of
        None \<Rightarrow>
          (s\<lparr>rsRoutes := map (\<lambda>(i, r). (i, if i \<in> set ids then withdraw MaxRevision r else r)) (rsRoutes s)\<rparr>, MaxRevision)
      | Some s \<Rightarrow>
          (s\<lparr>rsRoutes := map (\<lambda>(i, r). (i, if i \<in> set ids \<and> srDesired r then withdraw (rsRevision s) r else r)) (rsRoutes s)\<rparr>,
           rsRevision s))"

record route_snapshot =
  rsnRevision :: "64 word"
  rsnRoutes :: "provider_route list"

definition store_snapshot :: "route_store \<Rightarrow> route_snapshot" where
  "store_snapshot s =
     \<lparr>rsnRevision = rsRevision s, rsnRoutes = sort_key rtID (map srRoute (filter srDesired (map snd (rsRoutes s))))\<rparr>"

text \<open>A tombstone whose removal is confirmed is deleted, with its capability.\<close>

definition removable :: "64 word \<Rightarrow> stored_route \<Rightarrow> bool" where
  "removable revision r \<longleftrightarrow> \<not> (srDesired r \<or> srRemoval r = 0 \<or> srRemoval r > revision)"

definition store_confirm :: "route_store \<Rightarrow> 64 word \<Rightarrow> route_store" where
  "store_confirm s revision =
     (if revision \<le> rsConfirmed s \<or> revision > rsRevision s then s
      else
        (let removed = map (rtCapability \<circ> srRoute \<circ> snd) (filter (\<lambda>(i, r). removable revision r) (rsRoutes s)) in
         s\<lparr>rsConfirmed := revision,
           rsRoutes := filter (\<lambda>(i, r). \<not> removable revision r) (rsRoutes s),
           rsCapabilities := filter (\<lambda>(capability, i). capability \<notin> set removed) (rsCapabilities s)\<rparr>))"

definition setGenerationToken :: "route_store \<Rightarrow> string \<Rightarrow> provider_error + route_store" where
  "setGenerationToken s token =
     (if \<not> validCapabilityToken token maxCredentialBytes then Inl GenerationTokenInvalid else Inr (s\<lparr>rsToken := token\<rparr>))"

section \<open>Authorization\<close>

text \<open>A request of the proxy: its method, path and query, and the values of every header.\<close>

record auth_request =
  aqMethod :: string
  aqURL :: "(string \<times> string) option"
  aqHeader :: "(string \<times> string list) list"

definition header_values :: "(string \<times> string list) list \<Rightarrow> string \<Rightarrow> string list" where
  "header_values header name = (case map_of header (CanonicalHeaderKey name) of None \<Rightarrow> [] | Some vs \<Rightarrow> vs)"

definition singleHeaderEquals :: "(string \<times> string list) list \<Rightarrow> string \<Rightarrow> string \<Rightarrow> bool" where
  "singleHeaderEquals header name expected \<longleftrightarrow> expected \<noteq> '''' \<and> header_values header name = [expected]"

definition matchesCredential :: "provider_route \<Rightarrow> (string \<times> string list) list \<Rightarrow> bool" where
  "matchesCredential r header \<longleftrightarrow>
     (let (name, expected) = credentialHeader r in name \<noteq> '''' \<and> header_values header name = [expected])"

definition requested_route :: "auth_request \<Rightarrow> string option" where
  "requested_route q =
     (case aqURL q of
        None \<Rightarrow> None
      | Some (path, rawQuery) \<Rightarrow>
          (if aqMethod q \<noteq> ''GET'' \<or> rawQuery \<noteq> '''' \<or> length path \<le> length ''/authorize/'' \<or> \<not> prefix ''/authorize/'' path then None
           else let i = drop (length ''/authorize/'') path in
             if validCapabilityToken i maxCredentialBytes then Some i else None))"

definition authorize :: "route_store \<Rightarrow> auth_request \<Rightarrow> bool" where
  "authorize s q =
     (case requested_route q of
        None \<Rightarrow> False
      | Some i \<Rightarrow>
          (case map_of (rsRoutes s) i of
             None \<Rightarrow> False
           | Some stored \<Rightarrow>
               srDesired stored \<and> srActive stored \<and>
               singleHeaderEquals (aqHeader q) ''X-Toby-Gateway-Token'' (rsToken s) \<and>
               singleHeaderEquals (aqHeader q) ''X-Toby-Capability'' (rtCapability (srRoute stored)) \<and>
               matchesCredential (srRoute stored) (aqHeader q)))"

end
