(* ===== verification/Provider_Render.thy ===== *)
theory Provider_Render
  imports Provider_Routes Config_Patch
begin

text \<open>
  \<open>internal/providergateway/render.go\<close>: the Caddy configuration of a snapshot of routes, and the
  descriptors a sandbox gets for them (\<open>descriptor.go\<close>). The escaped path of a URL
  and the length of a JSON document are those of \<open>net/url\<close> and \<open>encoding/json\<close>.
\<close>

record render_package =
  rpURL :: url_package
  rpEscapedPath :: "string \<Rightarrow> string"
  rpLength :: "json \<Rightarrow> nat"

definition jobj :: "(string \<times> json) list \<Rightarrow> json" where
  "jobj kvs = JObject (fold (\<lambda>(k, v). obj_put k v) kvs [])"

definition jstrings :: "string list \<Rightarrow> json" where
  "jstrings ss = JArray (map JString ss)"

section \<open>Fixed parts\<close>

definition caddyAdminSocket :: string where "caddyAdminSocket = ''/run/toby/service/admin.sock''"
definition caddyDataSocket :: string where "caddyDataSocket = ''/run/toby/service/data.sock''"
definition caddyAuthSocket :: string where "caddyAuthSocket = ''/run/toby/auth.sock''"
definition caddySocketMode :: string where "caddySocketMode = ''0600''"
definition maxCaddyConfigBytes :: nat where "maxCaddyConfigBytes = 16777216"

definition upstreamDeletedHeaders :: "string list" where
  "upstreamDeletedHeaders =
     [''Authorization'', ''Cookie'', ''Forwarded'', ''Origin'', ''Proxy-Authorization'', ''Proxy-Connection'', ''Referer'', ''Via'',
      ''X-Api-Key'', ''X-Forwarded-*'', ''X-Toby-*'']"

definition upstreamDeletedResponseHeaders :: "string list" where
  "upstreamDeletedResponseHeaders = [''Location'', ''Server'', ''Via'', ''X-Forwarded-*'']"

definition unixSocketAddress :: "string \<Rightarrow> string \<Rightarrow> string" where
  "unixSocketAddress path mode = ''unix/'' @ path @ (if mode \<noteq> '''' then ''|'' @ mode else '''')"

definition staticResponseRoute :: "int \<Rightarrow> json" where
  "staticResponseRoute status =
     jobj [(''handle'', JArray [jobj [(''handler'', JString ''static_response''), (''status_code'', JInt status)]])]"

definition genericErrorRoutes :: json where
  "genericErrorRoutes =
     jobj [(''routes'', JArray [jobj [(''handle'', JArray
       [jobj [(''handler'', JString ''subroute''), (''routes'', JArray [staticResponseRoute 502])]])]])]"

section \<open>One route\<close>

definition renderAuthHandler :: "provider_route \<Rightarrow> string \<Rightarrow> json" where
  "renderAuthHandler r generationToken =
     jobj
       [(''handler'', JString ''reverse_proxy''),
        (''rewrite'', jobj [(''method'', JString ''GET''), (''uri'', JString (authPath r @ ''?''))]),
        (''headers'', jobj [(''request'', jobj
           [(''delete'', jstrings [''*'']),
            (''set'', jobj
               [(''X-Toby-Capability'', jstrings [rtCapability r]),
                (''X-Toby-Gateway-Token'', jstrings [generationToken]),
                (fst (credentialHeader r), jstrings [snd (credentialHeader r)])])])]),
        (''upstreams'', JArray [jobj [(''dial'', JString (unixSocketAddress caddyAuthSocket ''''))]]),
        (''handle_response'', JArray [jobj
           [(''match'', jobj [(''status_code'', JArray [JInt 2])]),
            (''routes'', JArray [jobj [(''handle'', JArray [jobj [(''handler'', JString ''vars'')]])]])]])]"

definition JoinHostPort :: "string \<Rightarrow> string \<Rightarrow> string" where
  "JoinHostPort host port = (if CHR '':'' \<in> set host then ''['' @ host @ '']:'' @ port else host @ '':'' @ port)"

definition upstreamDialAddress :: "parsed_url \<Rightarrow> string option" where
  "upstreamDialAddress upstream =
     (if urlHostname upstream = '''' then None
      else if urlPort upstream \<noteq> '''' then Some (JoinHostPort (urlHostname upstream) (urlPort upstream))
      else if urlScheme upstream = ''http'' then Some (JoinHostPort (urlHostname upstream) ''80'')
      else if urlScheme upstream = ''https'' then Some (JoinHostPort (urlHostname upstream) ''443'')
      else None)"

definition upstreamBasePath :: "string \<Rightarrow> string" where
  "upstreamBasePath escapedPath = rev (dropWhile (\<lambda>c. c = CHR ''/'') (rev escapedPath))"

definition literalRegexpReplacement :: "string \<Rightarrow> string" where
  "literalRegexpReplacement v = ReplaceAll ''$'' ''$$'' v"

definition removeHeaderName :: "string list \<Rightarrow> string \<Rightarrow> string list" where
  "removeHeaderName names removed = filter (\<lambda>name. map ascii_to_lower name \<noteq> map ascii_to_lower removed) names"

text \<open>The headers of the provider replace those of the client, which are deleted otherwise.\<close>

definition renderUpstreamProxy :: "provider_route \<Rightarrow> parsed_url \<Rightarrow> provider_error + json" where
  "renderUpstreamProxy r upstream =
     (case upstreamDialAddress upstream of
        None \<Rightarrow> Inl RenderHost
      | Some address \<Rightarrow>
          (let headers = psHeaders (rtProvider r);
               deleted = sort (foldl (\<lambda>names (name, v). removeHeaderName names (CanonicalHeaderKey name)) upstreamDeletedHeaders headers);
               added = map (\<lambda>(name, v). (CanonicalHeaderKey name, jstrings [v])) headers @ [(''Host'', jstrings [urlHost upstream])]
           in Inr (jobj
                ([(''handler'', JString ''reverse_proxy''),
                  (''upstreams'', JArray [jobj [(''dial'', JString address)]]),
                  (''headers'', jobj
                     [(''request'', jobj [(''delete'', jstrings deleted), (''set'', jobj added)]),
                      (''response'', jobj [(''delete'', jstrings upstreamDeletedResponseHeaders)])]),
                  (''stream_close_delay'', JInt 300000000000),
                  (''handle_response'', JArray [jobj
                     [(''match'', jobj [(''status_code'', JArray [JInt 3])]), (''routes'', JArray [staticResponseRoute 502])]])] @
                 (if urlScheme upstream = ''https''
                  then [(''transport'', jobj [(''protocol'', JString ''http''), (''tls'', jobj [(''server_name'', JString (urlHostname upstream))])])]
                  else [])))))"

definition renderProviderRoute :: "render_package \<Rightarrow> string \<Rightarrow> provider_route \<Rightarrow> provider_error + json" where
  "renderProviderRoute pkg generationToken r =
     (case url_Parse (rpURL pkg) (psURL (rtProvider r)) of
        None \<Rightarrow> Inl RenderURL
      | Some upstream \<Rightarrow>
          (let basePath = upstreamBasePath (rpEscapedPath pkg (psURL (rtProvider r))) in
           attempt (renderUpstreamProxy r upstream) (\<lambda>proxy.
             Inr (jobj
               [(''match'', JArray [jobj
                   [(''path'', jstrings [routePrefix r, routePrefix r @ ''/*'']),
                    (''header'', jobj [(fst (credentialHeader r), jstrings [snd (credentialHeader r)])])]]),
                (''handle'', JArray
                   ([renderAuthHandler r generationToken,
                     jobj [(''handler'', JString ''rewrite''), (''strip_path_prefix'', JString (routePrefix r))]] @
                    (if basePath \<noteq> ''''
                     then [jobj [(''handler'', JString ''rewrite''),
                             (''path_regexp'', JArray [jobj [(''find'', JString ''^''), (''replace'', JString (literalRegexpReplacement basePath))]])]]
                     else []) @
                    [proxy]))]))))"

section \<open>The configuration\<close>

fun render_routes :: "render_package \<Rightarrow> string \<Rightarrow> provider_route list \<Rightarrow> nat \<Rightarrow> provider_error + json list" where
  "render_routes pkg generationToken [] index = Inr []"
| "render_routes pkg generationToken (r # rs) index =
     require (map_option (RouteInvalid index) (Route_validate (rpURL pkg) r))
       (attempt (renderProviderRoute pkg generationToken r) (\<lambda>rendered.
        attempt (render_routes pkg generationToken rs (Suc index)) (\<lambda>rest. Inr (rendered # rest))))"

definition caddy_document :: "json list \<Rightarrow> json" where
  "caddy_document renderedRoutes =
     jobj
       [(''admin'', jobj
           [(''listen'', JString (unixSocketAddress caddyAdminSocket caddySocketMode)), (''config'', jobj [(''persist'', JBool False)])]),
        (''logging'', jobj [(''logs'', jobj [(''default'', jobj [(''writer'', jobj [(''output'', JString ''discard'')])])])]),
        (''apps'', jobj [(''http'', jobj [(''servers'', jobj [(''providers'', jobj
           [(''listen'', jstrings [unixSocketAddress caddyDataSocket caddySocketMode]),
            (''protocols'', jstrings [''h1'']),
            (''read_header_timeout'', JInt 5000000000),
            (''idle_timeout'', JInt 30000000000),
            (''max_header_bytes'', JInt 65536),
            (''routes'', JArray (renderedRoutes @ [staticResponseRoute 404])),
            (''errors'', genericErrorRoutes)])])])])]"

definition renderCaddyConfig :: "render_package \<Rightarrow> provider_route list \<Rightarrow> string \<Rightarrow> provider_error + json" where
  "renderCaddyConfig pkg snapshotRoutes generationToken =
     (if \<not> validCapabilityToken generationToken maxCredentialBytes then Inl RenderToken
      else attempt (render_routes pkg generationToken (sort_key rtID snapshotRoutes) 0) (\<lambda>renderedRoutes.
        let config = caddy_document renderedRoutes in
        if rpLength pkg config > maxCaddyConfigBytes then Inl RenderTooLarge else Inr config))"

section \<open>Descriptors\<close>

text \<open>The descriptor of a route before its models are discovered: the object of models is empty.\<close>

record provider_descriptor =
  pdID :: string
  pdType :: string
  pdName :: string
  pdURL :: string
  pdCredential :: string

definition MaxConfigurationBytes :: nat where "MaxConfigurationBytes = 262144"

definition validateCapabilityURL :: "render_package \<Rightarrow> string \<Rightarrow> string \<Rightarrow> bool" where
  "validateCapabilityURL pkg v providerID \<longleftrightarrow>
     length v \<le> maxURLBytes \<and> v = TrimSpace v \<and>
     (case url_Parse (rpURL pkg) v of
        None \<Rightarrow> False
      | Some parsed \<Rightarrow>
          urlScheme parsed = ''http'' \<and> urlHostname parsed = ''127.0.0.1'' \<and> urlPort parsed \<noteq> '''' \<and> \<not> urlUser parsed \<and>
          urlRawQuery parsed = '''' \<and> urlFragment parsed = '''' \<and>
          (case Atoi (urlPort parsed) of None \<Rightarrow> False | Some n \<Rightarrow> 1 \<le> n \<and> n \<le> 65535) \<and>
          (let path = rpEscapedPath pkg v;
               segments = split_slash (if prefix ''/'' path then tl path else path)
           in length segments = 2 \<and> validCapabilityToken (segments ! 0) maxCredentialBytes \<and> segments ! 1 = providerID))"

definition Descriptor_validate :: "render_package \<Rightarrow> provider_descriptor \<Rightarrow> provider_error verdict" where
  "Descriptor_validate pkg d =
     and_then (validateProviderIdentity (pdID d) (pdType d) (pdName d))
    (and_then (fail_if (\<not> validateCapabilityURL pkg (pdURL d) (pdID d)) CapabilityURLInvalid)
              (fail_if (\<not> validCapabilityToken (pdCredential d) maxCredentialBytes) DescriptorCredentialInvalid))"

definition route_descriptor :: "string \<Rightarrow> provider_route \<Rightarrow> provider_descriptor" where
  "route_descriptor baseURL r =
     \<lparr>pdID = psID (rtProvider r), pdType = psType (rtProvider r), pdName = psName (rtProvider r),
      pdURL = baseURL @ routePrefix r, pdCredential = rtCredential r\<rparr>"

fun validate_descriptors :: "render_package \<Rightarrow> provider_descriptor list \<Rightarrow> nat \<Rightarrow> string list \<Rightarrow> provider_error verdict" where
  "validate_descriptors pkg [] index ids = None"
| "validate_descriptors pkg (d # ds) index ids =
     and_then (Descriptor_validate pkg d)
    (and_then (fail_if (pdID d \<in> set ids) (ProviderDuplicate index))
              (validate_descriptors pkg ds (Suc index) (pdID d # ids)))"

definition descriptor_json :: "provider_descriptor list \<Rightarrow> json" where
  "descriptor_json ds =
     jobj [(''providers'', JArray (map (\<lambda>d. jobj
       [(''id'', JString (pdID d)), (''type'', JString (pdType d)), (''name'', JString (pdName d)), (''url'', JString (pdURL d)),
        (''credential'', JString (pdCredential d)), (''models'', jobj [])]) ds))]"

definition encodeProviderDescriptorConfig :: "render_package \<Rightarrow> provider_descriptor list \<Rightarrow> provider_error verdict" where
  "encodeProviderDescriptorConfig pkg ds =
     and_then (fail_if (ds = []) DescriptorsEmpty)
    (and_then (fail_if (length ds > maxProviders) ProvidersMany)
    (and_then (validate_descriptors pkg ds 0 [])
              (fail_if (rpLength pkg (descriptor_json ds) > MaxConfigurationBytes) DescriptorTooLarge)))"

end
