(* ===== verification/Provider_Gateway.thy ===== *)
theory Provider_Gateway
  imports Provider_Render
begin

text \<open>
  \<open>internal/providergateway\<close>: the gateway (\<open>gateway.go\<close>, \<open>acquired.go\<close>), its reconciling
  goroutine (\<open>reconcile.go\<close>) and the target of its relay (\<open>relay.go\<close>).

  Three mutexes are involved: that of the route store, that of the gateway and that of the relay.
  A step is at most one critical section of one of them, or one call across an interface of the
  Caddy pool. The goroutine is a program counter with its local variables; every acquisition is a
  program counter of its own, with the call that opens it, \<open>Revoke\<close> and \<open>Release\<close>. Waiting
  may end at any time, as timers and contexts do.

  Of a Caddy generation only the last configuration it may be running is known: the one of a
  successful load, and after a failed load that or the one before.
\<close>

section \<open>State\<close>

record gateway_config =
  gcRender :: render_package
  gcBaseURL :: string
  gcDraws :: draws

datatype acquisition_stage =
    AqBuilding
  | AqRefused
  | AqWaiting
  | AqActivating
  | AqRegistering
  | AqRolling bool
  | AqUndone
  | AqHeld
  | AqRevoked
  | AqEnded

record acquisition =
  aqSpec :: "provider_spec list option"
  aqRoutes :: "provider_route list"
  aqRevision :: "64 word"
  aqRemoval :: "64 word"
  aqStage :: acquisition_stage

datatype reconcile_pc =
    PcTop
  | PcSnapshot
  | PcCheck route_snapshot
  | PcPlan route_snapshot
  | PcAcquire route_snapshot
  | PcToken route_snapshot
  | PcLoad route_snapshot
  | PcPublish route_snapshot
  | PcConfirm route_snapshot
  | PcApplied route_snapshot
  | PcClear
  | PcWait
  | PcExit
  | PcDone

record gateway =
  gwStore :: route_store
  gwApplied :: "64 word"
  gwFailed :: "64 word"
  gwReconcileErr :: bool
  gwTerminal :: bool
  gwClosing :: bool
  gwCancelled :: bool
  gwAcquisitions :: "acquisition list"
  gwPC :: reconcile_pc
  gwGeneration :: "nat option"
  gwToken :: string
  gwLoaded :: nat
  gwCaddy :: "nat \<Rightarrow> provider_route list"
  gwExited :: "nat list"
  gwTarget :: nat
  gwRelayClosed :: bool

text \<open>Generation numbers start at one; the target \<open>0\<close> is the empty relay target.\<close>

definition new_gateway :: gateway where
  "new_gateway =
     \<lparr>gwStore = newRouteStore, gwApplied = 0, gwFailed = 0, gwReconcileErr = False, gwTerminal = False, gwClosing = False,
      gwCancelled = False, gwAcquisitions = [], gwPC = PcTop, gwGeneration = None, gwToken = '''', gwLoaded = 0,
      gwCaddy = (\<lambda>g. []), gwExited = [], gwTarget = 0, gwRelayClosed = False\<rparr>"

section \<open>The relay\<close>

definition relay_publish :: "gateway \<Rightarrow> nat \<Rightarrow> gateway option" where
  "relay_publish s g = (if g = 0 \<or> gwRelayClosed s \<or> gwTarget s > g then None else Some (s\<lparr>gwTarget := g\<rparr>))"

definition relay_unpublish :: "gateway \<Rightarrow> nat \<Rightarrow> gateway" where
  "relay_unpublish s g = (if g \<noteq> 0 \<and> gwTarget s = g then s\<lparr>gwTarget := 0\<rparr> else s)"

definition relay_close :: "gateway \<Rightarrow> gateway" where
  "relay_close s = s\<lparr>gwRelayClosed := True, gwTarget := 0\<rparr>"

section \<open>Reconciliation\<close>

text \<open>The local variables of the goroutine when it has given its generation up.\<close>

definition drop_generation :: "gateway \<Rightarrow> gateway" where
  "drop_generation s = s\<lparr>gwGeneration := None, gwToken := '''', gwLoaded := 0\<rparr>"

definition leave_generation :: "gateway \<Rightarrow> gateway" where
  "leave_generation s =
     (case gwGeneration s of None \<Rightarrow> s | Some g \<Rightarrow> drop_generation (relay_unpublish s g))"

definition revisionFailed :: "gateway \<Rightarrow> 64 word \<Rightarrow> bool" where
  "revisionFailed s revision \<longleftrightarrow> gwFailed s = revision \<and> gwReconcileErr s"

definition recordReconcileFailure :: "gateway \<Rightarrow> 64 word \<Rightarrow> gateway" where
  "recordReconcileFailure s revision =
     (if revision \<ge> gwFailed s then s\<lparr>gwFailed := revision, gwReconcileErr := True\<rparr> else s)"

text \<open>The second critical section of \<open>confirm\<close>; the first is that of the store.\<close>

definition gateway_confirm :: "gateway \<Rightarrow> 64 word \<Rightarrow> gateway" where
  "gateway_confirm s revision =
     (let s = (if revision > gwApplied s then s\<lparr>gwApplied := revision\<rparr> else s) in
      if gwFailed s \<le> revision then s\<lparr>gwFailed := 0, gwReconcileErr := False\<rparr> else s)"

definition reconcile_top :: "gateway \<Rightarrow> gateway" where
  "reconcile_top s =
     (if gwCancelled s then s\<lparr>gwPC := PcExit\<rparr>
      else case gwGeneration s of
        None \<Rightarrow> s\<lparr>gwPC := PcSnapshot\<rparr>
      | Some g \<Rightarrow> (if g \<in> set (gwExited s) then (leave_generation s)\<lparr>gwPC := PcSnapshot\<rparr> else s\<lparr>gwPC := PcSnapshot\<rparr>))"

definition reconcile_check :: "gateway \<Rightarrow> route_snapshot \<Rightarrow> gateway" where
  "reconcile_check s snap = s\<lparr>gwPC := (if revisionFailed s (rsnRevision snap) then PcWait else PcPlan snap)\<rparr>"

definition reconcile_plan :: "gateway \<Rightarrow> route_snapshot \<Rightarrow> gateway" where
  "reconcile_plan s snap =
     s\<lparr>gwPC :=
       (case gwGeneration s of
          None \<Rightarrow> (if rsnRoutes snap = [] then PcConfirm snap else PcAcquire snap)
        | Some g \<Rightarrow>
            (if rsnRevision snap > gwApplied s \<or> gwLoaded s \<noteq> g
             then (if rsnRoutes snap = [] \<and> gwToken s = '''' then PcToken snap else PcLoad snap)
             else if rsnRoutes snap = [] then PcConfirm snap else PcWait))\<rparr>"

text \<open>
  \<open>pool.Acquire\<close>: \<open>None\<close> for an error, otherwise the number of the generation, \<open>0\<close> for an invalid
  one.
\<close>

definition reconcile_acquired :: "gateway \<Rightarrow> route_snapshot \<Rightarrow> nat option \<Rightarrow> gateway" where
  "reconcile_acquired s snap result =
     (case result of
        None \<Rightarrow> s\<lparr>gwPC := PcWait\<rparr>
      | Some g \<Rightarrow>
          (if g = 0 then (recordReconcileFailure s (rsnRevision snap))\<lparr>gwPC := PcWait\<rparr>
           else s\<lparr>gwGeneration := Some g, gwPC := PcToken snap\<rparr>))"

text \<open>
  A token for the generation, from \<open>NewToken\<close>. When the snapshot is empty the generation was held
  before, otherwise it has just been acquired and is released again when there is no token.
\<close>

definition reconcile_token :: "gateway \<Rightarrow> route_snapshot \<Rightarrow> string option \<Rightarrow> gateway" where
  "reconcile_token s snap result =
     (let failed = recordReconcileFailure s (rsnRevision snap) in
      if rsnRoutes snap = [] then
        (case result of
           None \<Rightarrow> failed\<lparr>gwPC := PcWait\<rparr>
         | Some token \<Rightarrow>
             (case setGenerationToken (gwStore s) token of
                Inl e \<Rightarrow> failed\<lparr>gwToken := token, gwPC := PcExit\<rparr>
              | Inr store \<Rightarrow> s\<lparr>gwStore := store, gwToken := token, gwPC := PcLoad snap\<rparr>))
      else
        (case result of
           None \<Rightarrow> failed\<lparr>gwGeneration := None, gwPC := PcTop\<rparr>
         | Some token \<Rightarrow>
             (case setGenerationToken (gwStore s) token of
                Inl e \<Rightarrow> failed\<lparr>gwGeneration := None, gwPC := PcTop\<rparr>
              | Inr store \<Rightarrow> s\<lparr>gwStore := store, gwToken := token, gwLoaded := 0, gwPC := PcLoad snap\<rparr>)))"

datatype load_result = Loaded | LoadRejected | LoadFailed

text \<open>
  Rendering and loading the snapshot; \<open>taken\<close> says whether a load that failed took effect. A load
  is only tried when the snapshot can be rendered.
\<close>

definition render_refused :: "gateway_config \<Rightarrow> gateway \<Rightarrow> route_snapshot \<Rightarrow> bool" where
  "render_refused cfg s snap \<longleftrightarrow> (case renderCaddyConfig (gcRender cfg) (rsnRoutes snap) (gwToken s) of Inl e \<Rightarrow> True | Inr doc \<Rightarrow> False)"

definition reconcile_load :: "gateway_config \<Rightarrow> gateway \<Rightarrow> route_snapshot \<Rightarrow> load_result \<Rightarrow> bool \<Rightarrow> gateway" where
  "reconcile_load cfg s snap result taken =
     (case gwGeneration s of
        None \<Rightarrow> s
      | Some g \<Rightarrow>
          (let failed = recordReconcileFailure s (rsnRevision snap);
               caddy = (gwCaddy s)(g := rsnRoutes snap) in
           if render_refused cfg s snap then failed\<lparr>gwPC := PcWait\<rparr>
           else case result of
             Loaded \<Rightarrow>
               s\<lparr>gwCaddy := caddy,
                 gwPC := (if rsnRoutes snap = [] \<or> gwLoaded s = g then PcConfirm snap else PcPublish snap)\<rparr>
           | LoadRejected \<Rightarrow> failed\<lparr>gwCaddy := (if taken then caddy else gwCaddy s), gwPC := PcWait\<rparr>
           | LoadFailed \<Rightarrow>
               (let s = s\<lparr>gwCaddy := (if taken then caddy else gwCaddy s)\<rparr> in
                if rsnRoutes snap \<noteq> [] \<and> gwLoaded s \<noteq> g then (leave_generation s)\<lparr>gwPC := PcWait\<rparr>
                else s\<lparr>gwPC := PcWait\<rparr>)))"

definition reconcile_publish :: "gateway \<Rightarrow> route_snapshot \<Rightarrow> gateway" where
  "reconcile_publish s snap =
     (case gwGeneration s of
        None \<Rightarrow> s
      | Some g \<Rightarrow>
          (case relay_publish s g of
             None \<Rightarrow> (recordReconcileFailure (drop_generation s) (rsnRevision snap))\<lparr>gwPC := PcTop\<rparr>
           | Some t \<Rightarrow> t\<lparr>gwLoaded := g, gwPC := PcConfirm snap\<rparr>))"

section \<open>Acquisitions\<close>

text \<open>What a waiter for a revision finds: \<open>Some True\<close> when it is applied, \<open>Some False\<close> on an error.\<close>

definition waitRevision :: "gateway \<Rightarrow> 64 word \<Rightarrow> bool option" where
  "waitRevision s revision =
     (if revision = 0 \<or> gwApplied s \<ge> revision then Some True
      else if gwTerminal s \<or> gwFailed s = revision \<and> gwReconcileErr s \<or> gwClosing s then Some False
      else None)"

definition routeIDs :: "provider_route list \<Rightarrow> string list" where
  "routeIDs = map rtID"

text \<open>The part of \<open>acquire\<close> up to the addition of its routes, with the position of the next draw.\<close>

definition acquire_routes ::
  "gateway_config \<Rightarrow> route_store \<Rightarrow> provider_spec list option \<Rightarrow> nat \<Rightarrow> provider_error + (provider_route list \<times> route_store \<times> 64 word \<times> nat)"
where
  "acquire_routes cfg store spec n =
     attempt (buildRoutes (rpURL (gcRender cfg)) (gcDraws cfg) spec n) (\<lambda>(routes, n).
       if routes = [] then Inl RoutesEmpty
       else
         (let descriptors = map (route_descriptor (gcBaseURL cfg)) routes in
          require (each (Descriptor_validate (gcRender cfg)) descriptors)
         (require (encodeProviderDescriptorConfig (gcRender cfg) descriptors)
         (attempt (store_add (rpURL (gcRender cfg)) store routes) (\<lambda>(store, revision).
           Inr (routes, store, revision, n))))))"

definition set_stage :: "nat \<Rightarrow> acquisition_stage \<Rightarrow> gateway \<Rightarrow> gateway" where
  "set_stage k stage s = s\<lparr>gwAcquisitions := (gwAcquisitions s)[k := (gwAcquisitions s ! k)\<lparr>aqStage := stage\<rparr>]\<rparr>"

definition gateway_revoke :: "nat \<Rightarrow> acquisition_stage \<Rightarrow> gateway \<Rightarrow> gateway" where
  "gateway_revoke k stage s =
     (let a = gwAcquisitions s ! k; (store, revision) = store_revoke (gwStore s) (routeIDs (aqRoutes a)) in
      s\<lparr>gwStore := store, gwAcquisitions := (gwAcquisitions s)[k := a\<lparr>aqRemoval := revision, aqStage := stage\<rparr>]\<rparr>)"

text \<open>\<open>waitRemoval\<close> forgets the failure of its own revision, so that it is tried again.\<close>

definition retry_removal :: "gateway \<Rightarrow> gateway" where
  "retry_removal s = s\<lparr>gwFailed := 0, gwReconcileErr := False\<rparr>"

section \<open>Steps\<close>

text \<open>
  What can be observed: how an acquisition proceeds, by its number, a successful load of a
  configuration, the answers to the proxy's requests, and the configuration a connection to the
  relay reaches.
\<close>

datatype gateway_event =
    EvRequested nat
  | EvRoutesRefused nat provider_error
  | EvAdded nat "provider_route list"
  | EvApplied nat
  | EvActivated nat
  | EvAcquired nat "provider_descriptor list"
  | EvRollback nat
  | EvRevoked nat
  | EvRemoved nat
  | EvGivenUp nat
  | EvLoaded nat "provider_route list"
  | EvAllowed auth_request
  | EvDenied auth_request
  | EvRelayed nat "provider_route list"
  | EvInternal

inductive reconcile_step :: "gateway_config \<Rightarrow> gateway \<Rightarrow> gateway_event \<Rightarrow> gateway \<Rightarrow> bool" for cfg :: gateway_config where
  top: "gwPC s = PcTop \<Longrightarrow> reconcile_step cfg s EvInternal (reconcile_top s)"
| snapshot: "gwPC s = PcSnapshot \<Longrightarrow> reconcile_step cfg s EvInternal (s\<lparr>gwPC := PcCheck (store_snapshot (gwStore s))\<rparr>)"
| check: "gwPC s = PcCheck snap \<Longrightarrow> reconcile_step cfg s EvInternal (reconcile_check s snap)"
| plan: "gwPC s = PcPlan snap \<Longrightarrow> reconcile_step cfg s EvInternal (reconcile_plan s snap)"
| acquire: "gwPC s = PcAcquire snap \<Longrightarrow> reconcile_step cfg s EvInternal (reconcile_acquired s snap result)"
| token: "gwPC s = PcToken snap \<Longrightarrow> reconcile_step cfg s EvInternal (reconcile_token s snap drawn)"
| loaded:
    "gwPC s = PcLoad snap \<Longrightarrow> gwGeneration s = Some g \<Longrightarrow> \<not> render_refused cfg s snap \<Longrightarrow>
     reconcile_step cfg s (EvLoaded g (rsnRoutes snap)) (reconcile_load cfg s snap Loaded taken)"
| not_loaded:
    "gwPC s = PcLoad snap \<Longrightarrow> render_refused cfg s snap \<or> outcome \<noteq> Loaded \<Longrightarrow>
     reconcile_step cfg s EvInternal (reconcile_load cfg s snap outcome taken)"
| publish: "gwPC s = PcPublish snap \<Longrightarrow> reconcile_step cfg s EvInternal (reconcile_publish s snap)"
| confirm:
    "gwPC s = PcConfirm snap \<Longrightarrow>
     reconcile_step cfg s EvInternal (s\<lparr>gwStore := store_confirm (gwStore s) (rsnRevision snap), gwPC := PcApplied snap\<rparr>)"
| applied:
    "gwPC s = PcApplied snap \<Longrightarrow>
     reconcile_step cfg s EvInternal
       ((gateway_confirm s (rsnRevision snap))\<lparr>gwPC := (if rsnRoutes snap = [] then PcClear else PcWait)\<rparr>)"
| clear: "gwPC s = PcClear \<Longrightarrow> reconcile_step cfg s EvInternal ((leave_generation s)\<lparr>gwPC := PcWait\<rparr>)"
| wait: "gwPC s = PcWait \<Longrightarrow> reconcile_step cfg s EvInternal (s\<lparr>gwPC := (if gwCancelled s then PcExit else PcTop)\<rparr>)"
| exit: "gwPC s = PcExit \<Longrightarrow> reconcile_step cfg s EvInternal ((leave_generation s)\<lparr>gwPC := PcDone\<rparr>)"

abbreviation aq_stage :: "gateway \<Rightarrow> nat \<Rightarrow> acquisition_stage" where
  "aq_stage s k \<equiv> aqStage (gwAcquisitions s ! k)"

inductive acquisition_step :: "gateway_config \<Rightarrow> nat \<Rightarrow> gateway \<Rightarrow> gateway_event \<Rightarrow> gateway \<Rightarrow> bool" for cfg :: gateway_config and k :: nat where
  refused:
    "aq_stage s k = AqBuilding \<Longrightarrow> acquire_routes cfg (gwStore s) (aqSpec (gwAcquisitions s ! k)) n = Inl e \<Longrightarrow>
     acquisition_step cfg k s (EvRoutesRefused k e) (set_stage k AqRefused s)"
| added:
    "aq_stage s k = AqBuilding \<Longrightarrow>
     acquire_routes cfg (gwStore s) (aqSpec (gwAcquisitions s ! k)) n = Inr (routes, store, revision, n') \<Longrightarrow>
     acquisition_step cfg k s (EvAdded k routes)
       (s\<lparr>gwStore := store,
          gwAcquisitions := (gwAcquisitions s)[k := (gwAcquisitions s ! k)\<lparr>aqRoutes := routes, aqRevision := revision, aqStage := AqWaiting\<rparr>]\<rparr>)"
| routes_applied:
    "aq_stage s k = AqWaiting \<Longrightarrow> waitRevision s (aqRevision (gwAcquisitions s ! k)) = Some True \<Longrightarrow>
     acquisition_step cfg k s (EvApplied k) (set_stage k AqActivating s)"
| not_applied: "aq_stage s k = AqWaiting \<Longrightarrow> acquisition_step cfg k s (EvRollback k) (set_stage k (AqRolling False) s)"
| activated:
    "aq_stage s k = AqActivating \<Longrightarrow> store_activate (gwStore s) (routeIDs (aqRoutes (gwAcquisitions s ! k))) = Inr store \<Longrightarrow>
     acquisition_step cfg k s (EvActivated k) (set_stage k AqRegistering (s\<lparr>gwStore := store\<rparr>))"
| not_activated:
    "aq_stage s k = AqActivating \<Longrightarrow> store_activate (gwStore s) (routeIDs (aqRoutes (gwAcquisitions s ! k))) = Inl e \<Longrightarrow>
     acquisition_step cfg k s (EvRollback k) (set_stage k (AqRolling False) s)"
| registered:
    "aq_stage s k = AqRegistering \<Longrightarrow> \<not> gwClosing s \<Longrightarrow>
     acquisition_step cfg k s (EvAcquired k (map (route_descriptor (gcBaseURL cfg)) (aqRoutes (gwAcquisitions s ! k)))) (set_stage k AqHeld s)"
| not_registered:
    "aq_stage s k = AqRegistering \<Longrightarrow> gwClosing s \<Longrightarrow> acquisition_step cfg k s (EvRollback k) (set_stage k (AqRolling True) s)"
| rolled_back: "aq_stage s k = AqRolling b \<Longrightarrow> acquisition_step cfg k s (EvRevoked k) (gateway_revoke k AqUndone s)"
| revoked: "aq_stage s k = AqHeld \<Longrightarrow> acquisition_step cfg k s (EvRevoked k) (gateway_revoke k AqRevoked s)"
| removed:
    "aq_stage s k \<in> {AqUndone, AqRevoked} \<Longrightarrow> waitRevision s (aqRemoval (gwAcquisitions s ! k)) = Some True \<Longrightarrow>
     acquisition_step cfg k s (EvRemoved k) (set_stage k AqEnded s)"
| given_up: "aq_stage s k \<in> {AqUndone, AqRevoked} \<Longrightarrow> acquisition_step cfg k s (EvGivenUp k) (set_stage k AqEnded s)"
| retried:
    "aq_stage s k \<in> {AqUndone, AqRevoked} \<Longrightarrow> \<not> gwClosing s \<Longrightarrow> \<not> gwTerminal s \<Longrightarrow> gwFailed s = aqRemoval (gwAcquisitions s ! k) \<Longrightarrow>
     acquisition_step cfg k s EvInternal (retry_removal s)"

text \<open>
  The whole gateway. \<open>Shutdown\<close> makes it closing, revokes what is held (as its holders may at any
  time), cancels the lifetime of the goroutine and closes the relay; a lost endpoint makes it
  closing with a terminal error.
\<close>

inductive gateway_step :: "gateway_config \<Rightarrow> gateway \<Rightarrow> gateway_event \<Rightarrow> gateway \<Rightarrow> bool" for cfg :: gateway_config where
  reconcile: "reconcile_step cfg s ev t \<Longrightarrow> gateway_step cfg s ev t"
| acquisition: "k < length (gwAcquisitions s) \<Longrightarrow> acquisition_step cfg k s ev t \<Longrightarrow> gateway_step cfg s ev t"
| requested:
    "\<not> gwClosing s \<Longrightarrow>
     gateway_step cfg s (EvRequested (length (gwAcquisitions s)))
       (s\<lparr>gwAcquisitions := gwAcquisitions s @ [\<lparr>aqSpec = spec, aqRoutes = [], aqRevision = 0, aqRemoval = 0, aqStage = AqBuilding\<rparr>]\<rparr>)"
| allowed: "authorize (gwStore s) q \<Longrightarrow> gateway_step cfg s (EvAllowed q) s"
| denied: "\<not> authorize (gwStore s) q \<Longrightarrow> gateway_step cfg s (EvDenied q) s"
| relayed: "gwTarget s = g \<Longrightarrow> g \<noteq> 0 \<Longrightarrow> gateway_step cfg s (EvRelayed g (gwCaddy s g)) s"
| closing: "gateway_step cfg s EvInternal (s\<lparr>gwClosing := True\<rparr>)"
| endpoint_lost: "\<not> gwClosing s \<Longrightarrow> gateway_step cfg s EvInternal (s\<lparr>gwClosing := True, gwTerminal := True\<rparr>)"
| cancelled: "gwClosing s \<Longrightarrow> gateway_step cfg s EvInternal (s\<lparr>gwCancelled := True\<rparr>)"
| relay_closed: "gwCancelled s \<Longrightarrow> gateway_step cfg s EvInternal (relay_close s)"
| exited: "gateway_step cfg s EvInternal (s\<lparr>gwExited := g # gwExited s\<rparr>)"

end
