(* ===== verification/Provider_Inv.thy ===== *)
theory Provider_Inv
  imports Provider_Gateway
begin

text \<open>
  Every route in the store belongs to an acquisition, and its state there is the stage of that
  acquisition: the ownership invariant of the gateway, kept by every operation of the store.
\<close>

section \<open>The store as a map\<close>

abbreviation stored :: "route_store \<Rightarrow> string \<Rightarrow> stored_route option" where
  "stored s \<equiv> map_of (rsRoutes s)"

definition store_ok :: "route_store \<Rightarrow> bool" where
  "store_ok s \<longleftrightarrow> distinct (map fst (rsRoutes s))"

definition fresh_route :: "provider_route \<Rightarrow> stored_route" where
  "fresh_route r = \<lparr>srRoute = r, srDesired = True, srActive = False, srRemoval = 0\<rparr>"

definition added_routes :: "provider_route list \<Rightarrow> (string \<Rightarrow> stored_route option) \<Rightarrow> string \<Rightarrow> stored_route option" where
  "added_routes rs m i = (case map_of (map (\<lambda>r. (rtID r, r)) rs) i of None \<Rightarrow> m i | Some r \<Rightarrow> Some (fresh_route r))"

lemma map_of_mapped: "map_of (map (\<lambda>(i, r). (i, f i r)) al) i = map_option (f i) (map_of al i)"
  by (induction al) auto

lemma map_of_filtered:
  "distinct (map fst al) \<Longrightarrow>
    map_of (filter (\<lambda>(i, r). P r) al) i = (case map_of al i of None \<Rightarrow> None | Some r \<Rightarrow> if P r then Some r else None)"
proof (induction al)
  case (Cons x al)
  obtain j y where x: "x = (j, y)" by (cases x)
  show ?case
  proof (cases "j = i")
    case True
    then have "i \<notin> fst ` set al" using Cons.prems x by simp
    then have "map_of al i = None" "map_of (filter (\<lambda>(i, r). P r) al) i = None" by (auto simp: map_of_eq_None_iff)
    then show ?thesis using x True by simp
  next
    case False
    then show ?thesis using Cons x by simp
  qed
qed simp

lemma check_added_None:
  "check_added u s rs index ids capabilities = None \<Longrightarrow>
    distinct (map rtID rs) \<and> (\<forall>r \<in> set rs. stored s (rtID r) = None \<and> rtID r \<notin> set ids \<and> Route_validate u r = None)"
  by (induction rs arbitrary: index ids capabilities) (force simp: verdict_simps)+

lemma put_routes_stored:
  "distinct (map rtID rs) \<Longrightarrow> stored (fold put_route rs s) i = added_routes rs (stored s) i"
proof (induction rs arbitrary: s)
  case Nil
  then show ?case by (simp add: added_routes_def)
next
  case (Cons r rs)
  have new: "rtID r \<notin> set (map rtID rs)" using Cons.prems by simp
  then have "map_of (map (\<lambda>r. (rtID r, r)) rs) (rtID r) = None" by (auto simp: map_of_eq_None_iff)
  then show ?case using Cons by (auto simp: added_routes_def put_route_def fresh_route_def update_conv split: option.splits)
qed

lemma put_routes_fields:
  "store_ok s \<Longrightarrow> store_ok (fold put_route rs s)"
  "rsRevision (fold put_route rs s) = rsRevision s" "rsConfirmed (fold put_route rs s) = rsConfirmed s"
  by (induction rs arbitrary: s) (auto simp: put_route_def store_ok_def distinct_update)

lemma store_add_Inr:
  assumes "store_add u s rs = Inr (t, revision)" "store_ok s"
  shows "stored t = added_routes rs (stored s)" "store_ok t" "rs \<noteq> []" "distinct (map rtID rs)" "\<And>r. r \<in> set rs \<Longrightarrow> stored s (rtID r) = None"
    "rsRevision t = revision" "revision = rsRevision s + 1" "rsRevision s \<noteq> MaxRevision" "rsConfirmed t = rsConfirmed s"
proof -
  from assms(1) have ok: "rs \<noteq> []" "check_added u s rs 0 [] [] = None" "rsRevision s \<noteq> MaxRevision"
    "t = fold put_route rs (s\<lparr>rsRevision := rsRevision s + 1\<rparr>)" "revision = rsRevision s + 1"
    by (auto simp: store_add_def verdict_simps nextRevisionLocked_def split: if_splits option.splits)
  note checked = check_added_None [OF ok(2)]
  show "stored t = added_routes rs (stored s)" using checked put_routes_stored ok(4) by auto
  show "store_ok t" using assms(2) put_routes_fields(1) ok(4) by (simp add: store_ok_def)
  show "rs \<noteq> []" "distinct (map rtID rs)" "\<And>r. r \<in> set rs \<Longrightarrow> stored s (rtID r) = None" "rsRevision s \<noteq> MaxRevision"
    "rsRevision t = revision" "revision = rsRevision s + 1" "rsConfirmed t = rsConfirmed s"
    using ok checked put_routes_fields by auto
qed

lemma store_activate_Inr:
  assumes "store_activate s ids = Inr t"
  shows "stored t i = map_option (\<lambda>r. if i \<in> set ids then r\<lparr>srActive := True\<rparr> else r) (stored s i)"
    "store_ok s \<Longrightarrow> store_ok t" "rsRevision t = rsRevision s" "rsConfirmed t = rsConfirmed s"
  using assms map_of_mapped [of "\<lambda>i r. if i \<in> set ids then r\<lparr>srActive := True\<rparr> else r" "rsRoutes s" i]
  by (auto simp: store_activate_def store_ok_def o_def case_prod_beta split: if_splits)

text \<open>Revoking routes that are all desired.\<close>

lemma store_revoke_desired:
  assumes "store_revoke s ids = (t, revision)" "ids \<noteq> []" "\<And>i. i \<in> set ids \<Longrightarrow> \<exists>r. stored s i = Some r \<and> srDesired r"
  shows "stored t i = map_option (\<lambda>r. if i \<in> set ids then withdraw revision r else r) (stored s i)"
    "store_ok s \<Longrightarrow> store_ok t" "rsRevision t = (if rsRevision s = MaxRevision then MaxRevision else rsRevision s + 1)"
    "revision = rsRevision t" "rsConfirmed t = rsConfirmed s"
proof -
  have some: "list_ex (\<lambda>i. case stored s i of None \<Rightarrow> False | Some r \<Rightarrow> srDesired r) ids"
    using assms(2,3) by (cases ids) fastforce+
  have same: "stored s i = Some r \<Longrightarrow> i \<in> set ids \<Longrightarrow> srDesired r" for i r using assms(3) by fastforce
  show "stored t i = map_option (\<lambda>r. if i \<in> set ids then withdraw revision r else r) (stored s i)"
  proof (cases "rsRevision s = MaxRevision")
    case True
    then show ?thesis using assms(1,2) some by (auto simp: store_revoke_def nextRevisionLocked_def map_of_mapped)
  next
    case False
    then have "stored t i = map_option (\<lambda>r. if i \<in> set ids \<and> srDesired r then withdraw revision r else r) (stored s i)"
      using assms(1,2) some by (cases "stored s i") (auto simp: store_revoke_def nextRevisionLocked_def map_of_mapped)
    then show ?thesis using same by (cases "stored s i") auto
  qed
  show "store_ok s \<Longrightarrow> store_ok t" "rsRevision t = (if rsRevision s = MaxRevision then MaxRevision else rsRevision s + 1)"
    "revision = rsRevision t" "rsConfirmed t = rsConfirmed s"
    using assms(1,2) some by (auto simp: store_revoke_def nextRevisionLocked_def store_ok_def o_def case_prod_beta split: if_splits)
qed

lemma store_confirm_stored:
  assumes "store_ok s"
  shows "stored (store_confirm s revision) i =
      (case stored s i of
         None \<Rightarrow> None
       | Some r \<Rightarrow> if rsConfirmed s < revision \<and> revision \<le> rsRevision s \<and> removable revision r then None else Some r)"
    "store_ok (store_confirm s revision)" "rsRevision (store_confirm s revision) = rsRevision s"
    "rsConfirmed (store_confirm s revision) = (if rsConfirmed s < revision \<and> revision \<le> rsRevision s then revision else rsConfirmed s)"
  using assms map_of_filtered [OF assms [unfolded store_ok_def], of "\<lambda>r. \<not> removable revision r" i]
  by (auto simp: store_confirm_def store_ok_def Let_def distinct_map inj_on_def split: option.splits if_splits)

lemma setGenerationToken_Inr:
  "setGenerationToken s token = Inr t \<Longrightarrow> t = s\<lparr>rsToken := token\<rparr>"
  by (simp add: setGenerationToken_def split: if_splits)

section \<open>Ownership\<close>

definition live_stage :: "acquisition_stage \<Rightarrow> bool" where
  "live_stage stage \<longleftrightarrow> stage \<in> {AqWaiting, AqActivating, AqRegistering, AqRolling False, AqRolling True, AqHeld}"

definition active_stage :: "acquisition_stage \<Rightarrow> bool" where
  "active_stage stage \<longleftrightarrow> stage \<in> {AqRegistering, AqRolling True, AqHeld}"

definition withdrawn_stage :: "acquisition_stage \<Rightarrow> bool" where
  "withdrawn_stage stage \<longleftrightarrow> stage \<in> {AqUndone, AqRevoked, AqEnded}"

definition owns :: "acquisition \<Rightarrow> stored_route \<Rightarrow> bool" where
  "owns a r \<longleftrightarrow>
     srRoute r \<in> set (aqRoutes a) \<and>
     (if srDesired r then live_stage (aqStage a) \<and> (srActive r \<longrightarrow> active_stage (aqStage a))
      else withdrawn_stage (aqStage a) \<and> aqRemoval a = srRemoval r \<and> \<not> srActive r)"

definition has_routes :: "(string \<Rightarrow> stored_route option) \<Rightarrow> acquisition \<Rightarrow> bool" where
  "has_routes m a \<longleftrightarrow>
     aqRoutes a \<noteq> [] \<and> (\<forall>r \<in> set (aqRoutes a). \<exists>x. m (rtID r) = Some x \<and> srRoute x = r \<and> srDesired x)"

lemma has_routes_map:
  assumes "has_routes m a" "\<And>i x. m i = Some x \<Longrightarrow> srDesired x \<Longrightarrow> \<exists>y. m' i = Some y \<and> srRoute y = srRoute x \<and> srDesired y"
  shows "has_routes m' a"
  using assms unfolding has_routes_def by metis

definition own_inv :: "(string \<Rightarrow> stored_route option) \<Rightarrow> acquisition list \<Rightarrow> bool" where
  "own_inv m acqs \<longleftrightarrow>
     (\<forall>i x. m i = Some x \<longrightarrow> rtID (srRoute x) = i \<and> (\<exists>k < length acqs. owns (acqs ! k) x)) \<and>
     (\<forall>k < length acqs. live_stage (aqStage (acqs ! k)) \<longrightarrow> has_routes m (acqs ! k)) \<and>
     (\<forall>k < length acqs. \<forall>k' < length acqs. k \<noteq> k' \<longrightarrow> live_stage (aqStage (acqs ! k)) \<longrightarrow> live_stage (aqStage (acqs ! k')) \<longrightarrow>
        rtID ` set (aqRoutes (acqs ! k)) \<inter> rtID ` set (aqRoutes (acqs ! k')) = {})"

lemma own_invD:
  assumes "own_inv m acqs"
  shows "\<And>i x. m i = Some x \<Longrightarrow> rtID (srRoute x) = i" "\<And>i x. m i = Some x \<Longrightarrow> \<exists>k < length acqs. owns (acqs ! k) x"
    "\<And>k. k < length acqs \<Longrightarrow> live_stage (aqStage (acqs ! k)) \<Longrightarrow> has_routes m (acqs ! k)"
    "\<And>k k'. k < length acqs \<Longrightarrow> k' < length acqs \<Longrightarrow> k \<noteq> k' \<Longrightarrow> live_stage (aqStage (acqs ! k)) \<Longrightarrow> live_stage (aqStage (acqs ! k')) \<Longrightarrow>
       rtID ` set (aqRoutes (acqs ! k)) \<inter> rtID ` set (aqRoutes (acqs ! k')) = {}"
  using assms by (simp_all add: own_inv_def)

lemma own_invI:
  assumes "\<And>i x. m i = Some x \<Longrightarrow> rtID (srRoute x) = i" "\<And>i x. m i = Some x \<Longrightarrow> \<exists>k < length acqs. owns (acqs ! k) x"
    "\<And>k. k < length acqs \<Longrightarrow> live_stage (aqStage (acqs ! k)) \<Longrightarrow> has_routes m (acqs ! k)"
    "\<And>k k'. k < length acqs \<Longrightarrow> k' < length acqs \<Longrightarrow> k \<noteq> k' \<Longrightarrow> live_stage (aqStage (acqs ! k)) \<Longrightarrow> live_stage (aqStage (acqs ! k')) \<Longrightarrow>
       rtID ` set (aqRoutes (acqs ! k)) \<inter> rtID ` set (aqRoutes (acqs ! k')) = {}"
  shows "own_inv m acqs"
  using assms unfolding own_inv_def by blast

text \<open>A stage that changes without its class.\<close>

lemma own_stage:
  assumes inv: "own_inv m acqs"
    and same_kind: "live_stage stage = live_stage (aqStage (acqs ! k))" "withdrawn_stage stage = withdrawn_stage (aqStage (acqs ! k))"
      "active_stage (aqStage (acqs ! k)) \<Longrightarrow> active_stage stage"
  shows "own_inv m (acqs[k := (acqs ! k)\<lparr>aqStage := stage\<rparr>])"
proof (cases "k < length acqs")
  case True
  let ?acqs = "acqs[k := (acqs ! k)\<lparr>aqStage := stage\<rparr>]"
  have same: "aqRoutes (?acqs ! j) = aqRoutes (acqs ! j)" "live_stage (aqStage (?acqs ! j)) = live_stage (aqStage (acqs ! j))"
    "has_routes m (?acqs ! j) = has_routes m (acqs ! j)" for j
    using same_kind(1) True by (cases "j = k"; simp add: has_routes_def)+
  have "owns (acqs ! j) x \<Longrightarrow> owns (?acqs ! j) x" for j x using same_kind True by (cases "j = k") (auto simp: owns_def)
  note owned = this
  show ?thesis
  proof (rule own_invI)
    fix i x assume "m i = Some x"
    then show "rtID (srRoute x) = i" "\<exists>k < length ?acqs. owns (?acqs ! k) x"
      using own_invD(1,2) [OF inv] owned by (auto simp only: length_list_update) blast+
  qed (use own_invD(3,4) [OF inv] in \<open>simp_all only: same length_list_update\<close>)
qed (use inv in \<open>simp add: list_update_beyond\<close>)

lemma own_add:
  assumes inv: "own_inv m acqs" and k: "k < length acqs" "aqStage (acqs ! k) = AqBuilding"
    and new: "rs \<noteq> []" "distinct (map rtID rs)" "\<And>r. r \<in> set rs \<Longrightarrow> m (rtID r) = None"
  shows "own_inv (added_routes rs m) (acqs[k := (acqs ! k)\<lparr>aqRoutes := rs, aqRevision := revision, aqStage := AqWaiting\<rparr>])"
proof -
  let ?acqs = "acqs[k := (acqs ! k)\<lparr>aqRoutes := rs, aqRevision := revision, aqStage := AqWaiting\<rparr>]"
  have found: "added_routes rs m (rtID r) = Some (fresh_route r)" if "r \<in> set rs" for r
  proof -
    have "map_of (map (\<lambda>r. (rtID r, r)) rs) (rtID r) = Some r"
      using that new(2) by (intro map_of_is_SomeI) (auto simp: o_def)
    then show ?thesis by (simp add: added_routes_def)
  qed
  have kept: "added_routes rs m i = m i" if "\<And>r. r \<in> set rs \<Longrightarrow> rtID r \<noteq> i" for i
  proof -
    have "map_of (map (\<lambda>r. (rtID r, r)) rs) i = None" by (auto simp: map_of_eq_None_iff dest: that)
    then show ?thesis by (simp add: added_routes_def)
  qed
  have old: "added_routes rs m i = Some x" if "m i = Some x" for i x
    using kept [of i] new(3) that by force
  have split_new: "(\<exists>r \<in> set rs. x = fresh_route r \<and> rtID r = i) \<or> m i = Some x" if "added_routes rs m i = Some x" for i x
    using that found kept [of i] by (metis option.inject)
  have others: "j \<noteq> k" if "live_stage (aqStage (acqs ! j)) \<or> withdrawn_stage (aqStage (acqs ! j))" for j
    using that k(2) by (auto simp: live_stage_def withdrawn_stage_def)
  show ?thesis
  proof (rule own_invI)
    fix i x assume x: "added_routes rs m i = Some x"
    show "rtID (srRoute x) = i" using split_new [OF x] own_invD(1) [OF inv] by (auto simp: fresh_route_def)
    show "\<exists>j < length ?acqs. owns (?acqs ! j) x"
      using split_new [OF x]
    proof
      assume "\<exists>r \<in> set rs. x = fresh_route r \<and> rtID r = i"
      then have "owns (?acqs ! k) x" using k by (auto simp: owns_def fresh_route_def live_stage_def)
      then show ?thesis using k by auto
    next
      assume "m i = Some x"
      then obtain j where j: "j < length acqs" "owns (acqs ! j) x" using own_invD(2) [OF inv] by blast
      then have "j \<noteq> k" using others by (auto simp: owns_def split: if_splits)
      then show ?thesis using j by auto
    qed
  next
    fix j assume j: "j < length ?acqs" "live_stage (aqStage (?acqs ! j))"
    show "has_routes (added_routes rs m) (?acqs ! j)"
    proof (cases "j = k")
      case True
      then show ?thesis using k new(1) found by (auto simp: has_routes_def fresh_route_def)
    next
      case False
      then have "has_routes m (acqs ! j)" using own_invD(3) [OF inv] j by simp
      then show ?thesis using False old by (auto simp: has_routes_def)
    qed
  next
    have disjoint: "rtID ` set rs \<inter> rtID ` set (aqRoutes (acqs ! j)) = {}" if "j < length acqs" "live_stage (aqStage (acqs ! j))" for j
      using own_invD(3) [OF inv that] new(3) by (force simp: has_routes_def)
    fix j j' assume "j < length ?acqs" "j' < length ?acqs" "j \<noteq> j'" "live_stage (aqStage (?acqs ! j))" "live_stage (aqStage (?acqs ! j'))"
    then show "rtID ` set (aqRoutes (?acqs ! j)) \<inter> rtID ` set (aqRoutes (?acqs ! j')) = {}"
      using own_invD(4) [OF inv, of j j'] disjoint [of j] disjoint [of j'] k(1) by (cases "j = k"; cases "j' = k") auto
  qed
qed

lemma own_activate:
  assumes inv: "own_inv m acqs" and k: "k < length acqs" "aqStage (acqs ! k) = AqActivating"
    and upd: "\<And>i. m' i = map_option (\<lambda>r. if i \<in> rtID ` set (aqRoutes (acqs ! k)) then r\<lparr>srActive := True\<rparr> else r) (m i)"
  shows "own_inv m' (acqs[k := (acqs ! k)\<lparr>aqStage := AqRegistering\<rparr>])"
proof -
  let ?acqs = "acqs[k := (acqs ! k)\<lparr>aqStage := AqRegistering\<rparr>]" and ?ids = "rtID ` set (aqRoutes (acqs ! k))"
  have stage: "own_inv m ?acqs"
    by (rule own_stage [OF inv]) (simp_all add: k live_stage_def active_stage_def withdrawn_stage_def)
  have live: "live_stage (aqStage (acqs ! k))" by (simp add: k live_stage_def)
  show ?thesis
  proof (rule own_invI)
    fix i x assume "m' i = Some x"
    then obtain y where y: "m i = Some y" "x = (if i \<in> ?ids then y\<lparr>srActive := True\<rparr> else y)" by (auto simp: upd)
    show "rtID (srRoute x) = i" using own_invD(1) [OF inv y(1)] y(2) by simp
    show "\<exists>j < length ?acqs. owns (?acqs ! j) x"
    proof (cases "i \<in> ?ids")
      case True
      then obtain r where r: "r \<in> set (aqRoutes (acqs ! k))" "rtID r = i" by blast
      then have "srRoute y = r" "srDesired y" using own_invD(3) [OF inv k(1) live] y(1) by (auto simp: has_routes_def)
      then have "owns (?acqs ! k) x" using k r(1) y(2) True by (simp add: owns_def live_stage_def active_stage_def)
      then show ?thesis using k(1) by auto
    next
      case False
      then show ?thesis using own_invD(2) [OF stage y(1)] y(2) by simp
    qed
  next
    fix j assume "j < length ?acqs" "live_stage (aqStage (?acqs ! j))"
    from own_invD(3) [OF stage this] show "has_routes m' (?acqs ! j)" by (rule has_routes_map) (simp add: upd)
  qed (rule own_invD(4) [OF stage])
qed

lemma own_revoke:
  assumes inv: "own_inv m acqs" and k: "k < length acqs" "live_stage (aqStage (acqs ! k))" and stage: "withdrawn_stage stage"
    and upd: "\<And>i. m' i = map_option (\<lambda>r. if i \<in> rtID ` set (aqRoutes (acqs ! k)) then withdraw revision r else r) (m i)"
  shows "own_inv m' (acqs[k := (acqs ! k)\<lparr>aqRemoval := revision, aqStage := stage\<rparr>])"
proof -
  let ?acqs = "acqs[k := (acqs ! k)\<lparr>aqRemoval := revision, aqStage := stage\<rparr>]" and ?ids = "rtID ` set (aqRoutes (acqs ! k))"
  have dead: "\<not> live_stage stage" using stage by (auto simp: live_stage_def withdrawn_stage_def)
  have mine: "\<exists>y. m i = Some y \<and> srRoute y \<in> set (aqRoutes (acqs ! k)) \<and> srDesired y" if "i \<in> ?ids" for i
    using own_invD(3) [OF inv k] that by (auto simp: has_routes_def)
  show ?thesis
  proof (rule own_invI)
    fix i x assume "m' i = Some x"
    then obtain y where y: "m i = Some y" "x = (if i \<in> ?ids then withdraw revision y else y)" by (auto simp: upd)
    show "rtID (srRoute x) = i" using own_invD(1) [OF inv y(1)] y(2) by (simp add: withdraw_def)
    show "\<exists>j < length ?acqs. owns (?acqs ! j) x"
    proof (cases "i \<in> ?ids")
      case True
      then have "owns (?acqs ! k) x" using mine [OF True] y k(1) stage by (simp add: owns_def withdraw_def)
      then show ?thesis using k(1) by auto
    next
      case False
      obtain j where j: "j < length acqs" "owns (acqs ! j) y" using own_invD(2) [OF inv y(1)] by blast
      then have "rtID (srRoute y) \<in> rtID ` set (aqRoutes (acqs ! j))" by (simp add: owns_def)
      then have "j \<noteq> k" using False own_invD(1) [OF inv y(1)] by auto
      then show ?thesis using j y(2) False by auto
    qed
  next
    fix j assume j: "j < length ?acqs" "live_stage (aqStage (?acqs ! j))"
    then have "j \<noteq> k" using dead k(1) by auto
    then have live: "j < length acqs" "live_stage (aqStage (acqs ! j))" "?acqs ! j = acqs ! j" using j by simp_all
    have "i \<notin> ?ids" if "i \<in> rtID ` set (aqRoutes (acqs ! j))" for i
      using own_invD(4) [OF inv live(1) k(1) \<open>j \<noteq> k\<close> live(2) k(2)] that by blast
    then show "has_routes m' (?acqs ! j)" using own_invD(3) [OF inv live(1,2)] live(3) by (auto simp: has_routes_def upd)
  next
    fix j j' assume "j < length ?acqs" "j' < length ?acqs" "j \<noteq> j'" "live_stage (aqStage (?acqs ! j))" "live_stage (aqStage (?acqs ! j'))"
    then show "rtID ` set (aqRoutes (?acqs ! j)) \<inter> rtID ` set (aqRoutes (?acqs ! j')) = {}"
      using own_invD(4) [OF inv, of j j'] dead k(1) by (cases "j = k"; cases "j' = k") auto
  qed
qed

text \<open>What is deleted was not desired.\<close>

lemma own_sub:
  assumes inv: "own_inv m acqs" and sub: "\<And>i x. m' i = Some x \<Longrightarrow> m i = Some x"
    and kept: "\<And>i x. m i = Some x \<Longrightarrow> srDesired x \<Longrightarrow> m' i = Some x"
  shows "own_inv m' acqs"
proof (rule own_invI)
  fix i x assume "m' i = Some x"
  then show "rtID (srRoute x) = i" "\<exists>j < length acqs. owns (acqs ! j) x" using own_invD(1,2) [OF inv] sub by blast+
next
  fix j assume "j < length acqs" "live_stage (aqStage (acqs ! j))"
  from own_invD(3) [OF inv this] show "has_routes m' (acqs ! j)" by (rule has_routes_map) (blast dest: kept)
qed (rule own_invD(4) [OF inv])

lemma own_request:
  assumes inv: "own_inv m acqs" and a: "aqStage a = AqBuilding"
  shows "own_inv m (acqs @ [a])"
proof -
  have live: "j < length acqs" if "j < length (acqs @ [a])" "live_stage (aqStage ((acqs @ [a]) ! j))" for j
    using that a by (auto simp: nth_append live_stage_def split: if_splits)
  show ?thesis
  proof (rule own_invI)
    fix i x assume x: "m i = Some x"
    show "rtID (srRoute x) = i" by (rule own_invD(1) [OF inv x])
    obtain j where "j < length acqs" "owns (acqs ! j) x" using own_invD(2) [OF inv x] by blast
    then have "j < length (acqs @ [a]) \<and> owns ((acqs @ [a]) ! j) x" by (simp add: nth_append)
    then show "\<exists>j < length (acqs @ [a]). owns ((acqs @ [a]) ! j) x" by blast
  next
    fix j assume "j < length (acqs @ [a])" "live_stage (aqStage ((acqs @ [a]) ! j))"
    moreover from this have "j < length acqs" by (rule live)
    ultimately show "has_routes m ((acqs @ [a]) ! j)" using own_invD(3) [OF inv, of j] by (simp add: nth_append)
  next
    fix j j' assume h: "j < length (acqs @ [a])" "j' < length (acqs @ [a])" "j \<noteq> j'"
      "live_stage (aqStage ((acqs @ [a]) ! j))" "live_stage (aqStage ((acqs @ [a]) ! j'))"
    then have "j < length acqs" "j' < length acqs" using live by blast+
    then show "rtID ` set (aqRoutes ((acqs @ [a]) ! j)) \<inter> rtID ` set (aqRoutes ((acqs @ [a]) ! j')) = {}"
      using own_invD(4) [OF inv, of j j'] h by (simp add: nth_append)
  qed
qed

end
