(* ===== verification/Provider_Proofs.thy ===== *)
theory Provider_Proofs
  imports Provider_Inv
begin

text \<open>
  The invariants of the gateway: ownership of the stored routes, which configuration the relay
  reaches, and which routes have been loaded, each kept by every step.
\<close>

section \<open>Invariants\<close>

fun pc_snapshot :: "reconcile_pc \<Rightarrow> route_snapshot option" where
  "pc_snapshot (PcCheck snap) = Some snap"
| "pc_snapshot (PcPlan snap) = Some snap"
| "pc_snapshot (PcAcquire snap) = Some snap"
| "pc_snapshot (PcToken snap) = Some snap"
| "pc_snapshot (PcLoad snap) = Some snap"
| "pc_snapshot (PcPublish snap) = Some snap"
| "pc_snapshot (PcConfirm snap) = Some snap"
| "pc_snapshot (PcApplied snap) = Some snap"
| "pc_snapshot pc = None"

definition gateway_own :: "gateway \<Rightarrow> bool" where
  "gateway_own s \<longleftrightarrow> store_ok (gwStore s) \<and> own_inv (stored (gwStore s)) (gwAcquisitions s)"

abbreviation revision_of :: "gateway \<Rightarrow> 64 word" where
  "revision_of s \<equiv> rsRevision (gwStore s)"

text \<open>The routes of a snapshot, and of the configuration the relay reaches, are still stored.\<close>

definition kept_route :: "route_store \<Rightarrow> 64 word \<Rightarrow> provider_route \<Rightarrow> bool" where
  "kept_route s revision r \<longleftrightarrow> (\<exists>x. stored s (rtID r) = Some x \<and> srRoute x = r \<and> (srDesired x \<or> revision < srRemoval x))"

definition tombs_ok :: "route_store \<Rightarrow> bool" where
  "tombs_ok s \<longleftrightarrow> (\<forall>i x. stored s i = Some x \<longrightarrow> srDesired x \<or> rsConfirmed s < srRemoval x)"

definition store_track :: "gateway \<Rightarrow> bool" where
  "store_track s \<longleftrightarrow>
     gwApplied s \<le> rsConfirmed (gwStore s) \<and> rsConfirmed (gwStore s) \<le> revision_of s \<and>
     tombs_ok (gwStore s)"

definition snapshot_track :: "gateway \<Rightarrow> bool" where
  "snapshot_track s \<longleftrightarrow>
     (case pc_snapshot (gwPC s) of
        None \<Rightarrow> True
      | Some snap \<Rightarrow> rsnRevision snap \<le> revision_of s \<and> list_all (kept_route (gwStore s) (rsnRevision snap)) (rsnRoutes snap)) \<and>
     (\<forall>snap. gwPC s = PcApplied snap \<longrightarrow> rsnRevision snap \<le> rsConfirmed (gwStore s))"

definition target_track :: "gateway \<Rightarrow> bool" where
  "target_track s \<longleftrightarrow>
     (gwTarget s \<noteq> 0 \<longrightarrow> list_all (kept_route (gwStore s) (rsConfirmed (gwStore s))) (gwCaddy s (gwTarget s)))"

definition loop_inv :: "gateway \<Rightarrow> bool" where
  "loop_inv s \<longleftrightarrow>
     gwGeneration s \<noteq> Some 0 \<and>
     (gwTarget s \<noteq> 0 \<longrightarrow> gwGeneration s = Some (gwTarget s) \<and> gwLoaded s = gwTarget s) \<and>
     (case gwPC s of
        PcConfirm snap \<Rightarrow> gwTarget s \<noteq> 0 \<longrightarrow> gwCaddy s (gwTarget s) = rsnRoutes snap \<or> rsnRevision snap \<le> gwApplied s
      | PcPublish snap \<Rightarrow> gwTarget s = 0 \<and> (\<exists>g. gwGeneration s = Some g \<and> gwCaddy s g = rsnRoutes snap)
      | PcToken snap \<Rightarrow> rsnRoutes snap = [] \<or> gwTarget s = 0
      | PcAcquire snap \<Rightarrow> gwTarget s = 0
      | _ \<Rightarrow> True)"

definition track_inv :: "gateway \<Rightarrow> bool" where
  "track_inv s \<longleftrightarrow> revision_of s = MaxRevision \<or> store_track s \<and> snapshot_track s \<and> target_track s"

section \<open>The loop\<close>

lemma recordReconcileFailure_fields [simp]:
  "gwStore (recordReconcileFailure s r) = gwStore s" "gwApplied (recordReconcileFailure s r) = gwApplied s"
  "gwAcquisitions (recordReconcileFailure s r) = gwAcquisitions s" "gwPC (recordReconcileFailure s r) = gwPC s"
  "gwGeneration (recordReconcileFailure s r) = gwGeneration s" "gwLoaded (recordReconcileFailure s r) = gwLoaded s"
  "gwCaddy (recordReconcileFailure s r) = gwCaddy s" "gwTarget (recordReconcileFailure s r) = gwTarget s"
  by (simp_all add: recordReconcileFailure_def)

lemma gateway_confirm_fields [simp]:
  "gwStore (gateway_confirm s r) = gwStore s" "gwApplied (gateway_confirm s r) = (if r > gwApplied s then r else gwApplied s)"
  "gwAcquisitions (gateway_confirm s r) = gwAcquisitions s" "gwPC (gateway_confirm s r) = gwPC s"
  "gwGeneration (gateway_confirm s r) = gwGeneration s" "gwLoaded (gateway_confirm s r) = gwLoaded s"
  "gwCaddy (gateway_confirm s r) = gwCaddy s" "gwTarget (gateway_confirm s r) = gwTarget s"
  by (simp_all add: gateway_confirm_def Let_def)

lemma leave_generation_fields [simp]:
  "gwStore (leave_generation s) = gwStore s" "gwApplied (leave_generation s) = gwApplied s"
  "gwAcquisitions (leave_generation s) = gwAcquisitions s" "gwPC (leave_generation s) = gwPC s"
  "gwGeneration (leave_generation s) = None" "gwCaddy (leave_generation s) = gwCaddy s"
  by (simp_all add: leave_generation_def drop_generation_def relay_unpublish_def split: option.split)

lemma leave_generation_target:
  "loop_inv s \<Longrightarrow> gwTarget (leave_generation s) = 0"
  by (auto simp: loop_inv_def leave_generation_def drop_generation_def relay_unpublish_def split: option.split)

lemmas reconcile_defs = reconcile_top_def reconcile_check_def reconcile_plan_def reconcile_acquired_def reconcile_token_def
  reconcile_publish_def drop_generation_def relay_publish_def

text \<open>A step of the loop, by the parts it changes besides its program counter.\<close>

lemma reconcile_load_fields:
  assumes "gwPC s = PcLoad snap" "loop_inv s" "t = reconcile_load cfg s snap outcome taken"
  shows "gwStore t = gwStore s \<and> gwApplied t = gwApplied s \<and> gwAcquisitions t = gwAcquisitions s \<and>
    (t = s \<or> gwPC t = PcWait \<or> (\<exists>g. gwGeneration s = Some g \<and> outcome = Loaded \<and> \<not> render_refused cfg s snap \<and>
       gwPC t = (if rsnRoutes snap = [] \<or> gwLoaded s = g then PcConfirm snap else PcPublish snap) \<and> gwCaddy t = (gwCaddy s)(g := rsnRoutes snap))) \<and>
    (gwCaddy t = gwCaddy s \<or> (\<exists>g. gwGeneration s = Some g \<and> gwCaddy t = (gwCaddy s)(g := rsnRoutes snap))) \<and>
    (gwTarget t = 0 \<and> gwGeneration t = None \<or>
     gwTarget t = gwTarget s \<and> gwGeneration t = gwGeneration s \<and> gwLoaded t = gwLoaded s)"
proof (cases "gwGeneration s")
  case None
  then show ?thesis using assms by (simp add: reconcile_load_def)
next
  case (Some g)
  have left: "gwTarget (leave_generation (s\<lparr>gwCaddy := c\<rparr>)) = 0" for c
    by (rule leave_generation_target) (use assms(1,2) in \<open>simp add: loop_inv_def\<close>)
  show ?thesis
  proof (cases "render_refused cfg s snap")
    case True
    then show ?thesis using assms Some by (simp add: reconcile_load_def Let_def)
  next
    case False
    then show ?thesis using assms(1,3) Some left by (cases outcome) (auto simp: reconcile_load_def Let_def)
  qed
qed

lemma reconcile_loop_inv:
  assumes inv: "loop_inv s" and step: "reconcile_step cfg s ev t"
  shows "loop_inv t"
  using step
proof cases
  case (loaded snap g taken)
  have "gwPC t = (if rsnRoutes snap = [] \<or> gwLoaded s = g then PcConfirm snap else PcPublish snap)"
    "gwCaddy t = (gwCaddy s)(g := rsnRoutes snap)" "gwGeneration t = Some g" "gwTarget t = gwTarget s" "gwLoaded t = gwLoaded s"
    using loaded by (simp_all add: reconcile_load_def)
  then show ?thesis using inv loaded(4) by (auto simp: loop_inv_def)
next
  case (not_loaded snap outcome taken)
  from reconcile_load_fields [OF not_loaded(3) inv not_loaded(2)] show ?thesis
    using inv not_loaded(3,4) by (auto simp: loop_inv_def)
next
  case (confirm snap)
  then show ?thesis using inv by (auto simp: loop_inv_def store_confirm_def Let_def)
next
  case clear
  then show ?thesis using inv leave_generation_target [OF inv] by (simp add: loop_inv_def)
next
  case exit
  then show ?thesis using inv leave_generation_target [OF inv] by (simp add: loop_inv_def)
next
  case top
  then show ?thesis using inv leave_generation_target [OF inv] by (auto simp: loop_inv_def reconcile_top_def split: option.splits)
qed (use inv in \<open>auto simp: loop_inv_def reconcile_defs Let_def split: option.splits sum.splits\<close>)

lemma kept_route_token [simp]: "kept_route (s\<lparr>rsToken := token\<rparr>) = kept_route s"
  by (simp add: kept_route_def fun_eq_iff)

lemma tombs_ok_token [simp]: "tombs_ok (s\<lparr>rsToken := token\<rparr>) = tombs_ok s"
  by (simp add: tombs_ok_def)

lemma reconcile_store:
  assumes "loop_inv s" "reconcile_step cfg s ev t"
  shows "gwAcquisitions t = gwAcquisitions s \<and>
    ((\<exists>token. gwStore t = (gwStore s)\<lparr>rsToken := token\<rparr>) \<or>
     (\<exists>snap. gwPC s = PcConfirm snap \<and> t = s\<lparr>gwStore := store_confirm (gwStore s) (rsnRevision snap), gwPC := PcApplied snap\<rparr>))"
  using assms(2)
proof cases
  case (loaded snap g taken)
  from reconcile_load_fields [OF loaded(3) assms(1) loaded(2)] show ?thesis by (auto intro!: exI [of _ "rsToken (gwStore s)"])
next
  case (not_loaded snap outcome taken)
  from reconcile_load_fields [OF not_loaded(3) assms(1) not_loaded(2)] show ?thesis by (auto intro!: exI [of _ "rsToken (gwStore s)"])
next
  case (token snap drawn)
  have same: "\<exists>token. gwStore s = (gwStore s)\<lparr>rsToken := token\<rparr>" by (rule exI [of _ "rsToken (gwStore s)"]) simp
  then show ?thesis using token setGenerationToken_Inr
    by (auto simp: reconcile_token_def Let_def split: option.splits sum.splits)
next
  case (confirm snap)
  then show ?thesis by auto
qed (auto simp: reconcile_defs Let_def split: option.splits intro!: exI [of _ "rsToken (gwStore s)"])

lemma reconcile_own:
  assumes "gateway_own s" "loop_inv s" "reconcile_step cfg s ev t"
  shows "gateway_own t"
  using reconcile_store [OF assms(2,3)]
proof (elim conjE disjE exE)
  fix token assume same: "gwAcquisitions t = gwAcquisitions s" "gwStore t = (gwStore s)\<lparr>rsToken := token\<rparr>"
  then show ?thesis using assms(1) by (simp add: gateway_own_def store_ok_def)
next
  fix snap assume t: "t = s\<lparr>gwStore := store_confirm (gwStore s) (rsnRevision snap), gwPC := PcApplied snap\<rparr>"
  have ok: "store_ok (gwStore s)" using assms(1) by (simp add: gateway_own_def)
  have "own_inv (stored (store_confirm (gwStore s) (rsnRevision snap))) (gwAcquisitions s)"
    by (rule own_sub [where m = "stored (gwStore s)"])
      (use assms(1) in \<open>auto simp: gateway_own_def store_confirm_stored(1) [OF ok] removable_def split: option.splits if_splits\<close>)
  then show ?thesis using store_confirm_stored(2) [OF ok] t by (simp add: gateway_own_def)
qed

text \<open>Confirming a revision keeps what was not withdrawn by then.\<close>

lemma kept_confirm:
  assumes "store_ok s" "kept_route s revision r" "revision' \<le> revision"
  shows "kept_route (store_confirm s revision') revision r"
  using assms(2,3) by (auto simp: kept_route_def store_confirm_stored(1) [OF assms(1)] removable_def dest: le_less_trans)

lemma kept_confirmed:
  "store_track s \<Longrightarrow> kept_route (gwStore s) revision r \<Longrightarrow> kept_route (gwStore s) (rsConfirmed (gwStore s)) r"
  by (auto simp: store_track_def tombs_ok_def kept_route_def)

lemma reconcile_track:
  assumes inv: "gateway_own s" "loop_inv s" "track_inv s" and step: "reconcile_step cfg s ev t" and room: "revision_of t \<noteq> MaxRevision"
  shows "track_inv t"
proof -
  have ok: "store_ok (gwStore s)" using inv(1) by (simp add: gateway_own_def)
  have "revision_of t = revision_of s"
    using reconcile_store [OF inv(2) step] store_confirm_stored(3) [OF ok] by auto
  then have tracks: "store_track s" "snapshot_track s" "target_track s" using inv(3) room by (simp_all add: track_inv_def)
  have confirmed: "list_all (kept_route (gwStore s) revision) rs \<Longrightarrow> list_all (kept_route (gwStore s) (rsConfirmed (gwStore s))) rs"
    for revision rs
    unfolding list_all_iff using kept_confirmed [OF tracks(1)] by blast
  have "store_track t \<and> snapshot_track t \<and> target_track t"
    using step
  proof cases
    case (snapshot)
    have "kept_route (gwStore s) (revision_of s) r" if "r \<in> set (rsnRoutes (store_snapshot (gwStore s)))" for r
    proof -
      from that obtain i x where x: "(i, x) \<in> set (rsRoutes (gwStore s))" "srDesired x" "srRoute x = r" by (auto simp: store_snapshot_def)
      then have "stored (gwStore s) i = Some x" using ok by (simp add: store_ok_def distinct_map_of_iff)
      moreover from this have "rtID r = i" using own_invD(1) inv(1) x(3) by (auto simp: gateway_own_def)
      ultimately show ?thesis using x by (simp add: kept_route_def)
    qed
    then show ?thesis using snapshot tracks
      by (auto simp: store_track_def snapshot_track_def target_track_def list_all_iff store_snapshot_def)
  next
    case (loaded snap g taken)
    have fields: "gwStore t = gwStore s" "gwApplied t = gwApplied s" "gwTarget t = gwTarget s" "pc_snapshot (gwPC t) = Some snap" "\<And>x. gwPC t \<noteq> PcApplied x"
      "gwCaddy t = (gwCaddy s)(g := rsnRoutes snap)"
      using loaded by (simp_all add: reconcile_load_def)
    have "list_all (kept_route (gwStore s) (rsnRevision snap)) (rsnRoutes snap)" using tracks(2) loaded(3) by (simp add: snapshot_track_def)
    moreover from this have "list_all (kept_route (gwStore s) (rsConfirmed (gwStore s))) (rsnRoutes snap)"
      by (rule confirmed)
    ultimately show ?thesis using fields tracks loaded(3) by (simp add: store_track_def snapshot_track_def target_track_def)
  next
    case (not_loaded snap outcome taken)
    have "list_all (kept_route (gwStore s) (rsConfirmed (gwStore s))) (rsnRoutes snap)"
      using confirmed [of "rsnRevision snap" "rsnRoutes snap"] tracks(2) not_loaded(3) by (simp add: snapshot_track_def)
    moreover have "gwPC t = PcWait \<or> t = s" using reconcile_load_fields [OF not_loaded(3) inv(2) not_loaded(2)] not_loaded(4) by auto
    ultimately show ?thesis using reconcile_load_fields [OF not_loaded(3) inv(2) not_loaded(2)] tracks
      by (auto simp: store_track_def snapshot_track_def target_track_def)
  next
    case (publish snap)
    obtain g where g: "gwGeneration s = Some g" "gwCaddy s g = rsnRoutes snap" "gwTarget s = 0"
      using inv(2) publish(3) by (auto simp: loop_inv_def)
    have "list_all (kept_route (gwStore s) (rsConfirmed (gwStore s))) (rsnRoutes snap)"
      using confirmed [of "rsnRevision snap" "rsnRoutes snap"] tracks(2) publish(3) by (simp add: snapshot_track_def)
    then show ?thesis using g publish tracks
      by (auto simp: store_track_def snapshot_track_def target_track_def reconcile_defs)
  next
    case (confirm snap)
    note after = store_confirm_stored [OF ok, of "rsnRevision snap"]
    have snap: "rsnRevision snap \<le> revision_of s" "list_all (kept_route (gwStore s) (rsnRevision snap)) (rsnRoutes snap)"
      using tracks(2) confirm(3) by (simp_all add: snapshot_track_def)
    have tomb: "srDesired x \<or> srRemoval x \<noteq> 0" if "stored (gwStore s) i = Some x" for i x
    proof -
      have "srDesired x \<or> rsConfirmed (gwStore s) < srRemoval x" using tracks(1) that unfolding store_track_def tombs_ok_def by blast
      then show ?thesis by auto
    qed
    have "store_track t"
      using tracks(1) snap(1) confirm(2)
      by (auto simp: store_track_def tombs_ok_def after removable_def split: option.splits if_splits dest: tomb)
    moreover have "snapshot_track t"
      using snap confirm(2) kept_confirm [OF ok] by (auto simp: snapshot_track_def after(3,4) list_all_iff)
    moreover have "list_all (kept_route (gwStore t) (rsConfirmed (gwStore t))) (gwCaddy s (gwTarget s))" if "gwTarget s \<noteq> 0"
    proof (cases "rsnRevision snap \<le> gwApplied s")
      case True
      then have "gwStore t = gwStore s" using tracks(1) confirm(2) by (auto simp: store_track_def store_confirm_def dest: order_trans)
      then show ?thesis using tracks(3) that by (simp add: target_track_def)
    next
      case False
      then have same: "gwCaddy s (gwTarget s) = rsnRoutes snap" using inv(2) confirm(3) that by (auto simp: loop_inv_def)
      have "kept_route (gwStore t) (rsnRevision snap) r" if "r \<in> set (rsnRoutes snap)" for r
        using snap(2) that kept_confirm [OF ok] confirm(2) by (simp add: list_all_iff)
      then have "kept_route (gwStore t) (rsConfirmed (gwStore t)) r" if "r \<in> set (rsnRoutes snap)" for r
        using kept_confirmed [OF \<open>store_track t\<close>] that by blast
      then show ?thesis by (simp add: same list_all_iff)
    qed
    moreover from this have "target_track t" using confirm(2) by (simp add: target_track_def)
    ultimately show ?thesis by blast
  next
    case (applied snap)
    then show ?thesis using tracks inv(2) by (auto simp: store_track_def snapshot_track_def target_track_def loop_inv_def)
  next
    case (token snap drawn)
    then show ?thesis using tracks
      by (auto simp: store_track_def snapshot_track_def target_track_def reconcile_token_def Let_def
          dest!: setGenerationToken_Inr split: option.splits sum.splits)
  next
    case top
    then show ?thesis using tracks leave_generation_target [OF inv(2)]
      by (auto simp: store_track_def snapshot_track_def target_track_def reconcile_top_def split: option.splits)
  next
    case clear
    then show ?thesis using tracks leave_generation_target [OF inv(2)]
      by (auto simp: store_track_def snapshot_track_def target_track_def)
  next
    case exit
    then show ?thesis using tracks leave_generation_target [OF inv(2)]
      by (auto simp: store_track_def snapshot_track_def target_track_def)
  qed (use tracks in \<open>auto simp: store_track_def snapshot_track_def target_track_def reconcile_defs Let_def split: option.splits\<close>)
  then show ?thesis by (simp add: track_inv_def)
qed

section \<open>Acquisitions\<close>

lemma next_revision: "r \<noteq> MaxRevision \<Longrightarrow> r < r + 1"
proof -
  assume "r \<noteq> MaxRevision"
  then have "1 + r \<noteq> 0" by (auto simp: MaxRevision_def eq_neg_iff_add_eq_0 add.commute)
  then show "r < r + 1" using unatSuc [of r] by (simp add: word_less_nat_alt add.commute)
qed

text \<open>What adding, activating and revoking do to the store, as far as the loop is concerned.\<close>

definition evolves :: "route_store \<Rightarrow> route_store \<Rightarrow> bool" where
  "evolves s t \<longleftrightarrow>
     rsRevision s \<le> rsRevision t \<and> rsConfirmed t = rsConfirmed s \<and>
     (\<forall>i x. stored s i = Some x \<longrightarrow> (\<exists>y. stored t i = Some y \<and> srRoute y = srRoute x \<and>
        (srDesired y \<or> rsRevision s < srRemoval y \<or> \<not> srDesired x \<and> srRemoval y = srRemoval x))) \<and>
     (\<forall>i y. stored t i = Some y \<longrightarrow> srDesired y \<or> rsRevision s < srRemoval y \<or>
        (\<exists>x. stored s i = Some x \<and> \<not> srDesired x \<and> srRemoval y = srRemoval x))"

lemma evolves_refl: "evolves s s"
  by (auto simp: evolves_def)

lemma evolves_kept:
  assumes "evolves s t" "kept_route s revision r" "revision \<le> rsRevision s"
  shows "kept_route t revision r"
proof -
  from assms(2) obtain x where x: "stored s (rtID r) = Some x" "srRoute x = r" "srDesired x \<or> revision < srRemoval x"
    by (auto simp: kept_route_def)
  then obtain y where "stored t (rtID r) = Some y" "srRoute y = r"
    "srDesired y \<or> rsRevision s < srRemoval y \<or> \<not> srDesired x \<and> srRemoval y = srRemoval x"
    using assms(1) by (fastforce simp: evolves_def)
  then show ?thesis using x(3) assms(3) by (auto simp: kept_route_def)
qed

lemma evolves_tombs:
  assumes "evolves s t" "tombs_ok s" "rsConfirmed s \<le> rsRevision s"
  shows "tombs_ok t"
  unfolding tombs_ok_def
proof (intro allI impI)
  fix i y assume y: "stored t i = Some y"
  have "rsConfirmed t = rsConfirmed s" using assms(1) by (simp add: evolves_def)
  moreover have "srDesired y \<or> rsRevision s < srRemoval y \<or> (\<exists>x. stored s i = Some x \<and> \<not> srDesired x \<and> srRemoval y = srRemoval x)"
    using assms(1) y unfolding evolves_def by blast
  moreover have "srDesired x \<or> rsConfirmed s < srRemoval x" if "stored s i = Some x" for x
    using assms(2) that unfolding tombs_ok_def by blast
  ultimately show "srDesired y \<or> rsConfirmed t < srRemoval y" using assms(3) by (metis le_less_trans)
qed

lemma evolves_track:
  assumes "track_inv s" "evolves (gwStore s) (gwStore t)" "revision_of t = MaxRevision \<or> revision_of s \<noteq> MaxRevision"
    "gwApplied t = gwApplied s" "gwPC t = gwPC s" "gwCaddy t = gwCaddy s" "gwTarget t = gwTarget s \<or> gwTarget t = 0"
  shows "track_inv t"
proof (cases "revision_of t = MaxRevision")
  case False
  then have tracks: "store_track s" "snapshot_track s" "target_track s" using assms(1,3) by (simp_all add: track_inv_def)
  have revs: "rsConfirmed (gwStore s) \<le> revision_of s" "rsConfirmed (gwStore t) = rsConfirmed (gwStore s)" "revision_of s \<le> revision_of t"
    using tracks(1) assms(2) by (simp_all add: store_track_def evolves_def)
  note kept = evolves_kept [OF assms(2)]
  have "store_track t" using tracks(1) evolves_tombs [OF assms(2)] revs assms(4) by (auto simp: store_track_def)
  moreover have "snapshot_track t"
    using tracks(2) revs kept by (auto simp: snapshot_track_def assms(5) list_all_iff split: option.splits)
  moreover have "target_track t"
    using tracks(3) revs kept assms(6,7) by (auto simp: target_track_def list_all_iff)
  ultimately show ?thesis by (simp add: track_inv_def)
qed (simp add: track_inv_def)

lemma add_evolves:
  assumes "store_add u s rs = Inr (t, revision)" "store_ok s"
  shows "evolves s t"
proof -
  note a = store_add_Inr [OF assms]
  have old: "stored t i = Some x" if "stored s i = Some x" for i x
  proof -
    have other: "rtID r \<noteq> i" if "r \<in> set rs" for r using a(5) [OF that] \<open>stored s i = Some x\<close> by auto
    have "map_of (map (\<lambda>r. (rtID r, r)) rs) i = None" by (auto simp: map_of_eq_None_iff dest: other)
    then show ?thesis using that by (simp add: a(1) added_routes_def)
  qed
  have new: "srDesired y \<or> stored s i = Some y" if "stored t i = Some y" for i y
    using that by (auto simp: a(1) added_routes_def fresh_route_def split: option.splits)
  have "rsRevision s \<le> rsRevision t" using a(6,7) next_revision [OF a(8)] by simp
  then show ?thesis using old new a(9) unfolding evolves_def by blast
qed

lemma activate_evolves:
  assumes "store_activate s ids = Inr t"
  shows "evolves s t"
  using store_activate_Inr(3,4) [OF assms]
  by (auto simp: evolves_def store_activate_Inr(1) [OF assms] split: if_splits)

lemma revoke_evolves:
  assumes "store_revoke s ids = (t, revision)" "ids \<noteq> []" "\<And>i. i \<in> set ids \<Longrightarrow> \<exists>r. stored s i = Some r \<and> srDesired r"
    "rsRevision s \<noteq> MaxRevision"
  shows "evolves s t"
proof -
  note r = store_revoke_desired [OF assms(1,2,3), simplified]
  have "rsRevision s < revision" "rsRevision t = revision" using r(3,4) next_revision assms(4) by simp_all
  then show ?thesis using r(5) by (auto simp: evolves_def r(1) withdraw_def split: if_splits)
qed

inductive_cases acquisition_stepE: "acquisition_step cfg k s ev t"

lemma acquisition_frame:
  assumes "acquisition_step cfg k s ev t"
  shows "gwApplied t = gwApplied s" "gwPC t = gwPC s" "gwCaddy t = gwCaddy s" "gwTarget t = gwTarget s"
    "gwGeneration t = gwGeneration s" "gwLoaded t = gwLoaded s" "length (gwAcquisitions t) = length (gwAcquisitions s)"
    "j \<noteq> k \<Longrightarrow> gwAcquisitions t ! j = gwAcquisitions s ! j"
  using assms by (cases rule: acquisition_step.cases; simp add: set_stage_def gateway_revoke_def retry_removal_def Let_def case_prod_beta)+

lemma acquire_routes_Inr:
  assumes "acquire_routes cfg store spec n = Inr (routes, store', revision, n')"
  shows "store_add (rpURL (gcRender cfg)) store routes = Inr (store', revision)"
  using assms by (auto simp: acquire_routes_def Let_def verdict_simps split: if_splits prod.splits)

text \<open>The routes of a live acquisition are all revoked at once.\<close>

lemma gateway_revoke_live:
  assumes own: "gateway_own s" and k: "k < length (gwAcquisitions s)" "live_stage (aq_stage s k)"
    and t: "t = gateway_revoke k stage s"
  obtains store revision where
    "store_revoke (gwStore s) (routeIDs (aqRoutes (gwAcquisitions s ! k))) = (store, revision)"
    "t = s\<lparr>gwStore := store, gwAcquisitions := (gwAcquisitions s)[k := (gwAcquisitions s ! k)\<lparr>aqRemoval := revision, aqStage := stage\<rparr>]\<rparr>"
    "routeIDs (aqRoutes (gwAcquisitions s ! k)) \<noteq> []"
    "\<And>i. i \<in> set (routeIDs (aqRoutes (gwAcquisitions s ! k))) \<Longrightarrow> \<exists>r. stored (gwStore s) i = Some r \<and> srDesired r"
proof -
  obtain store revision where r: "store_revoke (gwStore s) (routeIDs (aqRoutes (gwAcquisitions s ! k))) = (store, revision)" by fastforce
  have has: "has_routes (stored (gwStore s)) (gwAcquisitions s ! k)"
    using own_invD(3) own k by (simp add: gateway_own_def)
  show thesis
    by (rule that [OF r]) (use has t r in \<open>auto simp: gateway_revoke_def has_routes_def routeIDs_def\<close>)
qed

lemma acquisition_own:
  assumes own: "gateway_own s" and k: "k < length (gwAcquisitions s)" and step: "acquisition_step cfg k s ev t"
  shows "gateway_own t"
proof -
  have inv: "own_inv (stored (gwStore s)) (gwAcquisitions s)" and ok: "store_ok (gwStore s)"
    using own by (simp_all add: gateway_own_def)
  have stage: "gateway_own (set_stage k stage s)"
    if "live_stage stage = live_stage (aq_stage s k)" "withdrawn_stage stage = withdrawn_stage (aq_stage s k)"
      "active_stage (aq_stage s k) \<Longrightarrow> active_stage stage" for stage
    using own_stage [OF inv that] ok by (simp add: gateway_own_def set_stage_def)
  have revoke: "gateway_own (gateway_revoke k stage s)" if "live_stage (aq_stage s k)" "withdrawn_stage stage" for stage
  proof (rule gateway_revoke_live [OF own k that(1) refl, of stage])
    fix store revision
    assume r: "store_revoke (gwStore s) (routeIDs (aqRoutes (gwAcquisitions s ! k))) = (store, revision)"
      "gateway_revoke k stage s = s\<lparr>gwStore := store, gwAcquisitions := (gwAcquisitions s)[k := (gwAcquisitions s ! k)\<lparr>aqRemoval := revision, aqStage := stage\<rparr>]\<rparr>"
      "routeIDs (aqRoutes (gwAcquisitions s ! k)) \<noteq> []"
      "\<And>i. i \<in> set (routeIDs (aqRoutes (gwAcquisitions s ! k))) \<Longrightarrow> \<exists>r. stored (gwStore s) i = Some r \<and> srDesired r"
    note d = store_revoke_desired [OF r(1,3,4), simplified]
    show ?thesis using own_revoke [OF inv k that] d(1,2) ok by (simp add: gateway_own_def r(2) routeIDs_def)
  qed
  show ?thesis
    using step
  proof cases
    case (added n routes store revision n')
    note a = store_add_Inr [OF acquire_routes_Inr [OF added(4)] ok]
    show ?thesis using own_add [OF inv k added(3) a(3,4,5)] a(1,2) added(2) by (simp add: gateway_own_def)
  next
    case (activated store)
    note a = store_activate_Inr [OF activated(4)]
    have "own_inv (stored store) ((gwAcquisitions s)[k := (gwAcquisitions s ! k)\<lparr>aqStage := AqRegistering\<rparr>])"
      by (rule own_activate [OF inv k activated(3)]) (simp add: a(1) routeIDs_def)
    then show ?thesis using activated(2) a(2) ok by (simp add: gateway_own_def set_stage_def)
  next
    case (rolled_back b)
    then show ?thesis using revoke by (cases b) (simp_all add: live_stage_def withdrawn_stage_def)
  next
    case revoked
    then show ?thesis using revoke by (simp add: live_stage_def withdrawn_stage_def)
  next
    case retried
    then show ?thesis using own by (simp add: gateway_own_def retry_removal_def)
  qed (auto intro!: stage simp: live_stage_def active_stage_def withdrawn_stage_def)
qed

lemma acquisition_evolves:
  assumes own: "gateway_own s" and k: "k < length (gwAcquisitions s)" and step: "acquisition_step cfg k s ev t"
    and room: "revision_of t \<noteq> MaxRevision"
  shows "evolves (gwStore s) (gwStore t) \<and> revision_of s \<noteq> MaxRevision"
proof -
  have ok: "store_ok (gwStore s)" using own by (simp add: gateway_own_def)
  have revoke: ?thesis if "live_stage (aq_stage s k)" "t = gateway_revoke k stage s" for stage
  proof (rule gateway_revoke_live [OF own k that])
    fix store revision
    assume r: "store_revoke (gwStore s) (routeIDs (aqRoutes (gwAcquisitions s ! k))) = (store, revision)"
      "t = s\<lparr>gwStore := store, gwAcquisitions := (gwAcquisitions s)[k := (gwAcquisitions s ! k)\<lparr>aqRemoval := revision, aqStage := stage\<rparr>]\<rparr>"
      "routeIDs (aqRoutes (gwAcquisitions s ! k)) \<noteq> []"
      "\<And>i. i \<in> set (routeIDs (aqRoutes (gwAcquisitions s ! k))) \<Longrightarrow> \<exists>r. stored (gwStore s) i = Some r \<and> srDesired r"
    then have "revision_of s \<noteq> MaxRevision" using store_revoke_desired(3) [OF r(1,3,4)] room by auto
    then show ?thesis using revoke_evolves [OF r(1,3,4)] r(2) by simp
  qed
  show ?thesis
    using step
  proof cases
    case (added n routes store revision n')
    then show ?thesis using add_evolves [OF acquire_routes_Inr [OF added(4)] ok] store_add_Inr(8) [OF acquire_routes_Inr [OF added(4)] ok]
      by simp
  next
    case (activated store)
    then show ?thesis using activate_evolves [OF activated(4)] store_activate_Inr(3) [OF activated(4)] room by (simp add: set_stage_def)
  next
    case (rolled_back b)
    then show ?thesis using revoke by (cases b) (simp_all add: live_stage_def)
  next
    case revoked
    then show ?thesis using revoke by (simp add: live_stage_def)
  qed (use room in \<open>simp_all add: set_stage_def retry_removal_def evolves_refl\<close>)
qed

end
