(* ===== verification/Provider_History.thy ===== *)
theory Provider_History
  imports Provider_Proofs
begin

text \<open>
  What has happened before a state is reached: how each acquisition got where it is, and that the
  routes of an applied revision have been loaded.
\<close>

section \<open>Histories\<close>

text \<open>A relation between the events so far and the state, kept by every step from an invariant state.\<close>

locale step_history = step_invariant +
  fixes hist :: "'b set \<Rightarrow> 'a \<Rightarrow> bool"
  assumes hist_step: "inv s \<Longrightarrow> hist E s \<Longrightarrow> step s l t \<Longrightarrow> hist (insert l E) t"
begin

lemma run_hist: "run step s ls t \<Longrightarrow> inv s \<Longrightarrow> hist E s \<Longrightarrow> hist (E \<union> set ls) t"
proof (induction arbitrary: E rule: run.induct)
  case (run_cons s l t ls u)
  have "hist (insert l E \<union> set ls) u"
    by (rule run_cons.IH) (use run_cons step_inv hist_step in blast)+
  then show ?case by simp
qed simp

end

section \<open>The invariant over steps\<close>

definition gateway_inv :: "gateway \<Rightarrow> bool" where
  "gateway_inv s \<longleftrightarrow> gateway_own s \<and> loop_inv s \<and> track_inv s"

inductive_cases gateway_stepE: "gateway_step cfg s ev t"

lemma gateway_step_inv:
  assumes inv: "gateway_inv s" and step: "gateway_step cfg s ev t"
  shows "gateway_inv t"
proof -
  have parts: "gateway_own s" "loop_inv s" "track_inv s" using inv by (simp_all add: gateway_inv_def)
  have frame: "gateway_inv t" if "gwStore t = gwStore s" "gwAcquisitions t = gwAcquisitions s" "gwApplied t = gwApplied s" "gwPC t = gwPC s"
    "gwCaddy t = gwCaddy s" "gwTarget t = gwTarget s \<or> gwTarget t = 0" "gwGeneration t = gwGeneration s" "gwLoaded t = gwLoaded s" for t
  proof -
    have "loop_inv t" using parts(2) that by (auto simp: loop_inv_def split: reconcile_pc.splits)
    moreover have "track_inv t" by (rule evolves_track [OF parts(3)]) (use that in \<open>simp_all add: evolves_refl\<close>)
    ultimately show ?thesis using parts(1) that(1,2) by (simp add: gateway_inv_def gateway_own_def)
  qed
  show ?thesis
    using step
  proof cases
    case reconcile
    then show ?thesis using reconcile_own reconcile_loop_inv reconcile_track parts
      by (metis gateway_inv_def track_inv_def)
  next
    case (acquisition k)
    note same = acquisition_frame [OF acquisition(2)]
    have "loop_inv t" using parts(2) same by (auto simp: loop_inv_def split: reconcile_pc.splits)
    moreover have "track_inv t"
    proof (cases "revision_of t = MaxRevision")
      case False
      show ?thesis
        by (rule evolves_track [OF parts(3)]) (use acquisition_evolves [OF parts(1) acquisition False] same in simp_all)
    qed (simp add: track_inv_def)
    ultimately show ?thesis using acquisition_own [OF parts(1) acquisition] by (simp add: gateway_inv_def)
  next
    case (requested spec)
    have "gateway_own t"
      using own_request parts(1) requested(2) by (simp add: gateway_own_def)
    moreover have "loop_inv t" using parts(2) requested(2) by (auto simp: loop_inv_def split: reconcile_pc.splits)
    moreover have "track_inv t" by (rule evolves_track [OF parts(3)]) (simp_all add: requested(2) evolves_refl)
    ultimately show ?thesis by (simp add: gateway_inv_def)
  qed (use frame inv in \<open>auto simp: relay_close_def\<close>)
qed

lemma gateway_inv_new: "gateway_inv new_gateway"
  by (simp add: gateway_inv_def gateway_own_def loop_inv_def track_inv_def store_track_def snapshot_track_def target_track_def tombs_ok_def
      store_ok_def own_inv_def new_gateway_def newRouteStore_def MaxRevision_def)

section \<open>What an acquisition has been through\<close>

definition loaded_routes :: "gateway_event set \<Rightarrow> provider_route list \<Rightarrow> bool" where
  "loaded_routes E rs \<longleftrightarrow> (\<exists>g rs'. EvLoaded g rs' \<in> E \<and> set rs \<subseteq> set rs')"

definition acq_history :: "gateway_event set \<Rightarrow> 64 word \<Rightarrow> nat \<Rightarrow> acquisition \<Rightarrow> bool" where
  "acq_history E applied k a \<longleftrightarrow>
     (aqStage a \<notin> {AqBuilding, AqRefused} \<longrightarrow> EvAdded k (aqRoutes a) \<in> E) \<and>
     (active_stage (aqStage a) \<longrightarrow> EvActivated k \<in> E) \<and>
     (\<not> withdrawn_stage (aqStage a) \<longrightarrow> EvRevoked k \<notin> E \<and> EvRemoved k \<notin> E) \<and>
     (EvRemoved k \<in> E \<longrightarrow> aqRemoval a \<le> applied) \<and>
     (live_stage (aqStage a) \<longrightarrow> aqRevision a \<noteq> 0) \<and>
     (aqStage a = AqActivating \<or> active_stage (aqStage a) \<longrightarrow> aqRevision a \<le> applied) \<and>
     (live_stage (aqStage a) \<longrightarrow> aqRevision a \<le> applied \<longrightarrow> loaded_routes E (aqRoutes a))"

definition snapshot_history :: "gateway \<Rightarrow> route_snapshot \<Rightarrow> bool" where
  "snapshot_history s snap \<longleftrightarrow>
     rsnRevision snap \<le> revision_of s \<and>
     (\<forall>k < length (gwAcquisitions s). live_stage (aq_stage s k) \<longrightarrow> aqRevision (gwAcquisitions s ! k) \<le> rsnRevision snap \<longrightarrow>
        set (aqRoutes (gwAcquisitions s ! k)) \<subseteq> set (rsnRoutes snap))"

fun loaded_snapshot :: "reconcile_pc \<Rightarrow> provider_route list" where
  "loaded_snapshot (PcPublish snap) = rsnRoutes snap"
| "loaded_snapshot (PcConfirm snap) = rsnRoutes snap"
| "loaded_snapshot (PcApplied snap) = rsnRoutes snap"
| "loaded_snapshot pc = []"

definition gateway_history :: "gateway_event set \<Rightarrow> gateway \<Rightarrow> bool" where
  "gateway_history E s \<longleftrightarrow>
     gwApplied s \<le> revision_of s \<and>
     (\<forall>k < length (gwAcquisitions s). acq_history E (gwApplied s) k (gwAcquisitions s ! k)) \<and>
     (\<forall>k \<ge> length (gwAcquisitions s). EvRevoked k \<notin> E \<and> EvRemoved k \<notin> E) \<and>
     (\<forall>snap. pc_snapshot (gwPC s) = Some snap \<longrightarrow> snapshot_history s snap) \<and>
     (loaded_snapshot (gwPC s) \<noteq> [] \<longrightarrow> (\<exists>g. EvLoaded g (loaded_snapshot (gwPC s)) \<in> E))"

lemma acq_history_mono:
  assumes "acq_history E applied k a" "E \<subseteq> E'" "EvRevoked k \<in> E' \<Longrightarrow> EvRevoked k \<in> E" "EvRemoved k \<in> E' \<Longrightarrow> EvRemoved k \<in> E"
    "applied \<le> applied'" "live_stage (aqStage a) \<Longrightarrow> aqRevision a \<le> applied' \<Longrightarrow> aqRevision a \<le> applied \<or> loaded_routes E' (aqRoutes a)"
  shows "acq_history E' applied' k a"
proof -
  have "loaded_routes E rs \<Longrightarrow> loaded_routes E' rs" for rs using assms(2) unfolding loaded_routes_def by blast
  then show ?thesis using assms unfolding acq_history_def by (meson order_trans subsetD)
qed

lemma acq_history_insert:
  assumes "acq_history E applied k a" "ev \<noteq> EvRevoked k" "ev \<noteq> EvRemoved k"
  shows "acq_history (insert ev E) applied k a"
  by (rule acq_history_mono [OF assms(1)]) (use assms(2,3) in blast)+

text \<open>A step of the loop.\<close>

lemma reconcile_events: "reconcile_step cfg s ev t \<Longrightarrow> ev = EvInternal \<or> (\<exists>g rs. ev = EvLoaded g rs)"
  by (erule reconcile_step.cases) auto

lemma reconcile_pc_snapshot:
  assumes "loop_inv s" "reconcile_step cfg s ev t"
  shows "pc_snapshot (gwPC t) = Some snap \<Longrightarrow> pc_snapshot (gwPC s) = Some snap \<or> snap = store_snapshot (gwStore s)"
    "gwApplied t \<noteq> gwApplied s \<Longrightarrow> \<exists>snap. gwPC s = PcApplied snap \<and> gwApplied t = rsnRevision snap \<and> gwApplied s < gwApplied t"
    "loaded_snapshot (gwPC t) \<noteq> [] \<Longrightarrow> loaded_snapshot (gwPC t) = loaded_snapshot (gwPC s) \<or> (\<exists>g. ev = EvLoaded g (loaded_snapshot (gwPC t)))"
proof -
  have "(pc_snapshot (gwPC t) = Some snap \<longrightarrow> pc_snapshot (gwPC s) = Some snap \<or> snap = store_snapshot (gwStore s)) \<and>
    (gwApplied t \<noteq> gwApplied s \<longrightarrow> (\<exists>snap. gwPC s = PcApplied snap \<and> gwApplied t = rsnRevision snap \<and> gwApplied s < gwApplied t)) \<and>
    (loaded_snapshot (gwPC t) \<noteq> [] \<longrightarrow> loaded_snapshot (gwPC t) = loaded_snapshot (gwPC s) \<or> (\<exists>g. ev = EvLoaded g (loaded_snapshot (gwPC t))))"
    using assms(2)
  proof cases
    case (loaded snap g taken)
    then show ?thesis by (auto simp: reconcile_load_def)
  next
    case (not_loaded snap outcome taken)
    have "gwPC t = PcWait \<or> t = s" "gwApplied t = gwApplied s"
      using reconcile_load_fields [OF not_loaded(3) assms(1) not_loaded(2)] not_loaded(4) by auto
    then show ?thesis by auto
  qed (auto simp: reconcile_defs Let_def split: option.splits sum.splits if_splits)
  then show "pc_snapshot (gwPC t) = Some snap \<Longrightarrow> pc_snapshot (gwPC s) = Some snap \<or> snap = store_snapshot (gwStore s)"
    "gwApplied t \<noteq> gwApplied s \<Longrightarrow> \<exists>snap. gwPC s = PcApplied snap \<and> gwApplied t = rsnRevision snap \<and> gwApplied s < gwApplied t"
    "loaded_snapshot (gwPC t) \<noteq> [] \<Longrightarrow> loaded_snapshot (gwPC t) = loaded_snapshot (gwPC s) \<or> (\<exists>g. ev = EvLoaded g (loaded_snapshot (gwPC t)))"
    by blast+
qed

lemma snapshot_has_live:
  assumes "gateway_own s" "k < length (gwAcquisitions s)" "live_stage (aq_stage s k)"
  shows "set (aqRoutes (gwAcquisitions s ! k)) \<subseteq> set (rsnRoutes (store_snapshot (gwStore s)))"
proof
  fix r assume r: "r \<in> set (aqRoutes (gwAcquisitions s ! k))"
  have "has_routes (stored (gwStore s)) (gwAcquisitions s ! k)" using own_invD(3) assms by (simp add: gateway_own_def)
  then obtain x where "stored (gwStore s) (rtID r) = Some x" "srRoute x = r" "srDesired x" using r by (auto simp: has_routes_def)
  then show "r \<in> set (rsnRoutes (store_snapshot (gwStore s)))"
    by (force simp: store_snapshot_def dest: map_of_SomeD)
qed

lemma reconcile_history:
  assumes inv: "gateway_inv s" and hist: "gateway_history E s" and step: "reconcile_step cfg s ev t"
  shows "gateway_history (insert ev E) t"
proof -
  have parts: "gateway_own s" "loop_inv s" using inv by (simp_all add: gateway_inv_def)
  note pc = reconcile_pc_snapshot [OF parts(2) step]
  have ok: "store_ok (gwStore s)" using parts(1) by (simp add: gateway_own_def)
  have same: "gwAcquisitions t = gwAcquisitions s" "revision_of t = revision_of s"
    using reconcile_store [OF parts(2) step] store_confirm_stored(3) [OF ok] by auto
  have ev: "EvRevoked k \<in> insert ev E \<longleftrightarrow> EvRevoked k \<in> E" "EvRemoved k \<in> insert ev E \<longleftrightarrow> EvRemoved k \<in> E" for k
    using reconcile_events [OF step] by auto
  have old: "gwApplied s \<le> revision_of s" "\<And>k. k < length (gwAcquisitions s) \<Longrightarrow> acq_history E (gwApplied s) k (gwAcquisitions s ! k)"
    "\<And>snap. pc_snapshot (gwPC s) = Some snap \<Longrightarrow> snapshot_history s snap"
    "loaded_snapshot (gwPC s) \<noteq> [] \<Longrightarrow> \<exists>g. EvLoaded g (loaded_snapshot (gwPC s)) \<in> E"
    using hist by (auto simp: gateway_history_def)
  have applied: "gwApplied s \<le> gwApplied t \<and> gwApplied t \<le> revision_of s \<and>
    (live_stage (aq_stage s k) \<longrightarrow> aqRevision (gwAcquisitions s ! k) \<le> gwApplied t \<longrightarrow>
       aqRevision (gwAcquisitions s ! k) \<le> gwApplied s \<or> loaded_routes (insert ev E) (aqRoutes (gwAcquisitions s ! k)))"
    if k: "k < length (gwAcquisitions s)" for k
  proof (cases "gwApplied t = gwApplied s")
    case False
    then obtain snap where snap: "gwPC s = PcApplied snap" "gwApplied t = rsnRevision snap" "gwApplied s < gwApplied t" using pc(2) by blast
    have h: "snapshot_history s snap" using old(3) snap(1) by simp
    have "loaded_routes (insert ev E) (aqRoutes (gwAcquisitions s ! k))"
      if live: "live_stage (aq_stage s k)" "aqRevision (gwAcquisitions s ! k) \<le> gwApplied t"
    proof -
      have sub: "set (aqRoutes (gwAcquisitions s ! k)) \<subseteq> set (rsnRoutes snap)" using h k live snap(2) by (simp add: snapshot_history_def)
      have "has_routes (stored (gwStore s)) (gwAcquisitions s ! k)" using own_invD(3) parts(1) k live(1) by (simp add: gateway_own_def)
      then have "rsnRoutes snap \<noteq> []" using sub by (auto simp: has_routes_def)
      then show ?thesis using old(4) snap(1) sub by (auto simp: loaded_routes_def)
    qed
    then show ?thesis using h snap by (auto simp: snapshot_history_def)
  qed (use old(1) in simp)
  have acqs: "acq_history (insert ev E) (gwApplied t) k (gwAcquisitions t ! k)" if "k < length (gwAcquisitions t)" for k
    unfolding same(1) by (rule acq_history_mono [OF old(2)]) (use that applied same ev in auto)
  have snaps: "snapshot_history t snap" if "pc_snapshot (gwPC t) = Some snap" for snap
    using pc(1) [OF that]
  proof
    assume "pc_snapshot (gwPC s) = Some snap"
    then show ?thesis using old(3) same by (simp add: snapshot_history_def)
  next
    assume "snap = store_snapshot (gwStore s)"
    then show ?thesis using snapshot_has_live [OF parts(1)] same by (auto simp: snapshot_history_def store_snapshot_def)
  qed
  have le: "gwApplied t \<le> revision_of s"
    using old(1,3) pc(2) by (cases "gwApplied t = gwApplied s") (auto simp: snapshot_history_def)
  have "\<exists>g. EvLoaded g (loaded_snapshot (gwPC t)) \<in> insert ev E" if "loaded_snapshot (gwPC t) \<noteq> []"
    using pc(3) [OF that] old(4) that by auto
  moreover have "\<forall>k \<ge> length (gwAcquisitions s). EvRevoked k \<notin> insert ev E \<and> EvRemoved k \<notin> insert ev E"
    using hist ev unfolding gateway_history_def by blast
  ultimately show ?thesis using acqs snaps le same unfolding gateway_history_def by simp
qed

text \<open>A step of an acquisition.\<close>

lemma acquisition_events:
  "acquisition_step cfg k s ev t \<Longrightarrow> ev \<noteq> EvRevoked j \<and> ev \<noteq> EvRemoved j \<or> j = k"
  by (erule acquisition_step.cases) auto

lemma acquisition_history_own:
  assumes inv: "gateway_inv s" and k: "k < length (gwAcquisitions s)" and hist: "acq_history E (gwApplied s) k (gwAcquisitions s ! k)"
    and le: "gwApplied s \<le> revision_of s" and step: "acquisition_step cfg k s ev t"
  shows "acq_history (insert ev E) (gwApplied t) k (gwAcquisitions t ! k)"
  using step
proof cases
  case (added n routes store revision n')
  have own: "gateway_own s" using inv by (simp add: gateway_inv_def)
  then have "revision = revision_of s + 1" "revision_of s \<noteq> MaxRevision"
    using store_add_Inr(7,8) [OF acquire_routes_Inr [OF added(4)]] by (simp_all add: gateway_own_def)
  then have "revision_of s < revision" using next_revision by simp
  then have "\<not> revision \<le> gwApplied s" "revision \<noteq> 0" using le by auto
  then show ?thesis using added hist k
    by (simp add: acq_history_def active_stage_def withdrawn_stage_def live_stage_def)
next
  case (rolled_back b)
  then show ?thesis using hist k
    by (cases b) (simp_all add: acq_history_def active_stage_def withdrawn_stage_def live_stage_def gateway_revoke_def Let_def case_prod_beta)
next
  case revoked
  then show ?thesis using hist k
    by (simp add: acq_history_def active_stage_def withdrawn_stage_def live_stage_def gateway_revoke_def Let_def case_prod_beta)
next
  case routes_applied
  then have "aqRevision (gwAcquisitions s ! k) \<le> gwApplied s"
    using hist by (auto simp: waitRevision_def acq_history_def live_stage_def split: if_splits)
  then show ?thesis using routes_applied hist k
    by (auto simp: set_stage_def acq_history_def active_stage_def withdrawn_stage_def live_stage_def loaded_routes_def)
next
  case removed
  then have "aqRemoval (gwAcquisitions s ! k) \<le> gwApplied s" by (auto simp: waitRevision_def split: if_splits)
  moreover have "EvAdded k (aqRoutes (gwAcquisitions s ! k)) \<in> E"
    using hist removed(3) by (elim insertE emptyE) (simp_all add: acq_history_def)
  moreover have "gwAcquisitions t ! k = (gwAcquisitions s ! k)\<lparr>aqStage := AqEnded\<rparr>" "gwApplied t = gwApplied s"
    using removed(2) k by (simp_all add: set_stage_def)
  ultimately show ?thesis by (simp add: acq_history_def active_stage_def withdrawn_stage_def live_stage_def)
next
  case given_up
  have "EvAdded k (aqRoutes (gwAcquisitions s ! k)) \<in> E" "EvRemoved k \<in> E \<longrightarrow> aqRemoval (gwAcquisitions s ! k) \<le> gwApplied s"
    using hist given_up(3) by (elim insertE emptyE; simp add: acq_history_def)+
  moreover have "gwAcquisitions t ! k = (gwAcquisitions s ! k)\<lparr>aqStage := AqEnded\<rparr>" "gwApplied t = gwApplied s" "ev = EvGivenUp k"
    using given_up(1,2) k by (simp_all add: set_stage_def)
  ultimately show ?thesis by (simp add: acq_history_def active_stage_def withdrawn_stage_def live_stage_def)
next
  case retried
  then show ?thesis using hist k by (auto simp: retry_removal_def acq_history_def loaded_routes_def)
qed (use hist k in \<open>auto simp: set_stage_def acq_history_def active_stage_def withdrawn_stage_def live_stage_def loaded_routes_def\<close>)

lemma store_revoke_revision: "rsRevision s \<le> rsRevision (fst (store_revoke s ids))"
proof (cases "rsRevision s = MaxRevision")
  case False
  then have "rsRevision s \<le> rsRevision s + 1" using next_revision by (simp add: less_imp_le)
  then show ?thesis using False by (simp add: store_revoke_def nextRevisionLocked_def)
qed (simp add: store_revoke_def nextRevisionLocked_def)

lemma acquisition_revision:
  assumes inv: "gateway_inv s" and k: "k < length (gwAcquisitions s)" and step: "acquisition_step cfg k s ev t"
  shows "revision_of s \<le> revision_of t \<and>
    (live_stage (aq_stage t k) \<longrightarrow>
       live_stage (aq_stage s k) \<and> aqRoutes (gwAcquisitions t ! k) = aqRoutes (gwAcquisitions s ! k) \<and>
         aqRevision (gwAcquisitions t ! k) = aqRevision (gwAcquisitions s ! k) \<or>
       revision_of s < aqRevision (gwAcquisitions t ! k))"
  using step
proof cases
  case (added n routes store revision n')
  have "store_ok (gwStore s)" using inv by (simp add: gateway_inv_def gateway_own_def)
  from store_add_Inr(6-8) [OF acquire_routes_Inr [OF added(4)] this] have "revision_of s < revision" "rsRevision store = revision"
    using next_revision by simp_all
  then show ?thesis using added k by simp
next
  case (activated store)
  then show ?thesis using store_activate_Inr(3) [OF activated(4)] k by (simp add: set_stage_def live_stage_def)
next
  case (rolled_back b)
  then show ?thesis using store_revoke_revision [of "gwStore s"] k
    by (simp add: gateway_revoke_def Let_def case_prod_beta live_stage_def)
next
  case revoked
  then show ?thesis using store_revoke_revision [of "gwStore s"] k
    by (simp add: gateway_revoke_def Let_def case_prod_beta live_stage_def)
qed (use k in \<open>auto simp: set_stage_def retry_removal_def live_stage_def\<close>)

lemma acquisition_history:
  assumes inv: "gateway_inv s" and hist: "gateway_history E s" and k: "k < length (gwAcquisitions s)"
    and step: "acquisition_step cfg k s ev t"
  shows "gateway_history (insert ev E) t"
proof -
  have own: "gateway_own s" using inv by (simp add: gateway_inv_def)
  note same = acquisition_frame [OF step]
  have old: "gwApplied s \<le> revision_of s" "\<And>k. k < length (gwAcquisitions s) \<Longrightarrow> acq_history E (gwApplied s) k (gwAcquisitions s ! k)"
    "\<And>snap. pc_snapshot (gwPC s) = Some snap \<Longrightarrow> snapshot_history s snap"
    using hist by (auto simp: gateway_history_def)
  note revs = acquisition_revision [OF inv k step]
  have acqs: "acq_history (insert ev E) (gwApplied t) j (gwAcquisitions t ! j)" if j: "j < length (gwAcquisitions t)" for j
  proof (cases "j = k")
    case True
    then show ?thesis using acquisition_history_own [OF inv k old(2) [OF k] old(1) step] by simp
  next
    case False
    then have "gwAcquisitions t ! j = gwAcquisitions s ! j" using same(8) by blast
    then show ?thesis using acq_history_mono [OF old(2), of j "insert ev E" "gwApplied t"] j same acquisition_events [OF step, of j] False
      by auto
  qed
  have snaps: "snapshot_history t snap" if "pc_snapshot (gwPC t) = Some snap" for snap
  proof -
    have h: "snapshot_history s snap" using old(3) that same(2) by simp
    have "set (aqRoutes (gwAcquisitions t ! j)) \<subseteq> set (rsnRoutes snap)"
      if j: "j < length (gwAcquisitions t)" "live_stage (aq_stage t j)" "aqRevision (gwAcquisitions t ! j) \<le> rsnRevision snap" for j
    proof (cases "j = k")
      case True
      have "\<not> revision_of s < aqRevision (gwAcquisitions t ! k)" using j(3) True h by (auto simp: snapshot_history_def)
      then show ?thesis using revs j True h same(7) by (auto simp: snapshot_history_def)
    next
      case False
      then show ?thesis using same(7,8) j h by (simp add: snapshot_history_def)
    qed
    then show ?thesis using h revs by (auto simp: snapshot_history_def)
  qed
  have "\<forall>j \<ge> length (gwAcquisitions t). EvRevoked j \<notin> insert ev E \<and> EvRemoved j \<notin> insert ev E"
    using hist acquisition_events [OF step] k same(7) unfolding gateway_history_def by (metis insert_iff not_le)
  moreover have "gwApplied t \<le> revision_of t" using old(1) revs same(1) by (metis order_trans)
  moreover have "loaded_snapshot (gwPC t) \<noteq> [] \<longrightarrow> (\<exists>g. EvLoaded g (loaded_snapshot (gwPC t)) \<in> insert ev E)"
    using hist same(2) by (auto simp: gateway_history_def)
  ultimately show ?thesis using acqs snaps unfolding gateway_history_def by blast
qed

lemma gateway_step_history:
  assumes inv: "gateway_inv s" and hist: "gateway_history E s" and step: "gateway_step cfg s ev t"
  shows "gateway_history (insert ev E) t"
proof -
  have frame: "gateway_history (insert ev E) t"
    if "gwStore t = gwStore s" "gwAcquisitions t = gwAcquisitions s" "gwApplied t = gwApplied s" "gwPC t = gwPC s"
      "\<And>k. ev \<noteq> EvRevoked k \<and> ev \<noteq> EvRemoved k" for t
  proof -
    have "acq_history (insert ev E) (gwApplied s) k (gwAcquisitions s ! k)" if "k < length (gwAcquisitions s)" for k
      using hist that \<open>\<And>k. ev \<noteq> EvRevoked k \<and> ev \<noteq> EvRemoved k\<close> by (intro acq_history_insert) (simp_all add: gateway_history_def)
    then show ?thesis using hist that by (auto simp: gateway_history_def snapshot_history_def)
  qed
  show ?thesis
    using step
  proof cases
    case reconcile
    then show ?thesis using reconcile_history [OF inv hist] by blast
  next
    case (acquisition k)
    then show ?thesis using acquisition_history [OF inv hist] by blast
  next
    case (requested spec)
    have "acq_history (insert ev E) (gwApplied s) k (gwAcquisitions t ! k)" if k: "k < length (gwAcquisitions t)" for k
    proof (cases "k < length (gwAcquisitions s)")
      case True
      then have "acq_history (insert ev E) (gwApplied s) k (gwAcquisitions s ! k)"
        using hist requested(1) by (intro acq_history_insert) (simp_all add: gateway_history_def)
      then show ?thesis using True requested(2) by (simp add: nth_append)
    next
      case False
      then show ?thesis using hist requested k
        by (auto simp: acq_history_def gateway_history_def nth_append active_stage_def live_stage_def withdrawn_stage_def)
    qed
    moreover have "snapshot_history t snap" if "pc_snapshot (gwPC s) = Some snap" for snap
    proof -
      have h: "snapshot_history s snap" using hist that by (simp add: gateway_history_def)
      have old: "k < length (gwAcquisitions s) \<and> gwAcquisitions t ! k = gwAcquisitions s ! k"
        if "k < length (gwAcquisitions t)" "live_stage (aq_stage t k)" for k
        using that requested(2) by (cases "k = length (gwAcquisitions s)") (auto simp: nth_append live_stage_def)
      show ?thesis
        unfolding snapshot_history_def
      proof (intro conjI allI impI)
        show "rsnRevision snap \<le> revision_of t" using h requested(2) by (simp add: snapshot_history_def)
        fix k assume k: "k < length (gwAcquisitions t)" "live_stage (aq_stage t k)" "aqRevision (gwAcquisitions t ! k) \<le> rsnRevision snap"
        from old [OF k(1,2)] show "set (aqRoutes (gwAcquisitions t ! k)) \<subseteq> set (rsnRoutes snap)"
          using h k(2,3) by (simp add: snapshot_history_def)
      qed
    qed
    ultimately show ?thesis using hist requested(1,2) by (auto simp: gateway_history_def)
  qed (use frame in \<open>simp_all add: relay_close_def\<close>)
qed

lemma gateway_history_new: "gateway_history {} new_gateway"
  by (simp add: gateway_history_def new_gateway_def newRouteStore_def)

interpretation gateways: step_history "gateway_step cfg" gateway_inv gateway_history for cfg
  by unfold_locales (erule (1) gateway_step_inv, erule (2) gateway_step_history)

lemma gateway_reachable:
  assumes "run (gateway_step cfg) new_gateway evs s"
  shows "gateway_inv s" "gateway_history (set evs) s"
  using gateways.run_inv [OF assms gateway_inv_new] gateways.run_hist [OF assms gateway_inv_new gateway_history_new] by simp_all

text \<open>The revisions are not exhausted before they are in the end.\<close>

lemma room_before:
  assumes inv: "gateway_inv s" and step: "gateway_step cfg s ev t" and room: "revision_of t \<noteq> MaxRevision"
  shows "revision_of s \<noteq> MaxRevision"
  using step
proof cases
  case reconcile
  have "store_ok (gwStore s)" "loop_inv s" using inv by (simp_all add: gateway_inv_def gateway_own_def)
  then show ?thesis using reconcile_store [OF _ reconcile] store_confirm_stored(3) room by auto
next
  case (acquisition k)
  then show ?thesis using acquisition_evolves inv room by (simp add: gateway_inv_def)
qed (use room in \<open>simp_all add: relay_close_def\<close>)

lemma room_throughout:
  "run (gateway_step cfg) s evs t \<Longrightarrow> gateway_inv s \<Longrightarrow> revision_of t \<noteq> MaxRevision \<Longrightarrow> revision_of s \<noteq> MaxRevision"
proof (induction rule: run.induct)
  case (run_cons s l t ls u)
  then show ?case using room_before gateway_step_inv by blast
qed simp

end
