(* ===== verification/Provider_Properties.thy ===== *)
theory Provider_Properties
  imports Provider_History Mount
begin

text \<open>
  What the models gateway guarantees in every interleaving of acquisitions, releases, failing and
  restarting Caddy generations, shutdown and proxied requests.
\<close>

section \<open>Properties\<close>

text \<open>
  C24. A request of the proxy is allowed only for a route that an acquisition has added and activated
  and that has not been revoked since, and only with the capability and the credential of that
  route: when revoking returns, no later decision allows the route any more.
\<close>

theorem allowed_only_while_granted:
  assumes "run (gateway_step cfg) new_gateway (pre @ EvAllowed q # post) s"
  shows "\<exists>k routes r. EvAdded k routes \<in> set pre \<and> r \<in> set routes \<and> EvActivated k \<in> set pre \<and> EvRevoked k \<notin> set pre \<and>
    requested_route q = Some (rtID r) \<and> header_values (aqHeader q) ''X-Toby-Capability'' = [rtCapability r] \<and>
    matchesCredential r (aqHeader q)"
proof -
  obtain t u where t: "run (gateway_step cfg) new_gateway pre t" "gateway_step cfg t (EvAllowed q) u"
    using run_split [OF assms] by (auto simp: run_Cons_iff)
  have "authorize (gwStore t) q"
    using t(2) by (cases rule: gateway_step.cases) (auto elim: reconcile_step.cases acquisition_step.cases)
  then obtain i x where x: "requested_route q = Some i" "stored (gwStore t) i = Some x" "srDesired x" "srActive x"
    "header_values (aqHeader q) ''X-Toby-Capability'' = [rtCapability (srRoute x)]" "matchesCredential (srRoute x) (aqHeader q)"
    by (auto simp: authorize_def singleHeaderEquals_def split: option.splits)
  note reached = gateway_reachable [OF t(1)]
  have own: "own_inv (stored (gwStore t)) (gwAcquisitions t)" using reached(1) by (simp add: gateway_inv_def gateway_own_def)
  from own_invD(2) [OF own x(2)] obtain k where k: "k < length (gwAcquisitions t)" "owns (gwAcquisitions t ! k) x" by blast
  then have h: "acq_history (set pre) (gwApplied t) k (gwAcquisitions t ! k)" using reached(2) by (simp add: gateway_history_def)
  have active: "active_stage (aq_stage t k)" using k(2) x(3,4) by (simp add: owns_def)
  then have "\<not> withdrawn_stage (aq_stage t k) \<and> aq_stage t k \<notin> {AqBuilding, AqRefused}" by (auto simp: active_stage_def withdrawn_stage_def)
  then have "EvAdded k (aqRoutes (gwAcquisitions t ! k)) \<in> set pre" "EvActivated k \<in> set pre" "EvRevoked k \<notin> set pre"
    using h active by (simp_all add: acq_history_def)
  moreover have "rtID (srRoute x) = i" by (rule own_invD(1) [OF own x(2)])
  moreover have "srRoute x \<in> set (aqRoutes (gwAcquisitions t ! k))" using k(2) by (simp add: owns_def)
  ultimately show ?thesis
    using x(1,5,6) by (intro exI [of _ k] exI [of _ "aqRoutes (gwAcquisitions t ! k)"] exI [of _ "srRoute x"]) simp
qed

text \<open>
  C25. What a connection to the relay can reach is a configuration whose routes all belong to
  acquisitions that have not been released yet: when a release has waited for its removal, its
  upstream secrets are gone from the published Caddy configuration, whatever loads failed, timed
  out or were repeated meanwhile.
\<close>

theorem released_routes_unpublished:
  assumes "run (gateway_step cfg) new_gateway (pre @ EvRelayed g rs # post) s" "rsRevision (gwStore s) \<noteq> MaxRevision"
  shows "list_all (\<lambda>r. \<exists>k routes. EvAdded k routes \<in> set pre \<and> r \<in> set routes \<and> EvRemoved k \<notin> set pre) rs"
proof -
  obtain t u where t: "run (gateway_step cfg) new_gateway pre t" "gateway_step cfg t (EvRelayed g rs) u" "run (gateway_step cfg) u post s"
    using run_split [OF assms(1)] by (auto simp: run_Cons_iff)
  note reached = gateway_reachable [OF t(1)]
  have target: "gwTarget t \<noteq> 0" "rs = gwCaddy t (gwTarget t)"
    using t(2) by (cases rule: gateway_step.cases; auto elim: reconcile_step.cases acquisition_step.cases)+
  have "revision_of t \<noteq> MaxRevision"
    using room_before [OF reached(1) t(2)] room_throughout [OF t(3) _ assms(2)] gateway_step_inv [OF reached(1) t(2)] by blast
  then have tracks: "store_track t" "target_track t" and own: "own_inv (stored (gwStore t)) (gwAcquisitions t)"
    using reached(1) by (simp_all add: gateway_inv_def track_inv_def gateway_own_def)
  have "\<exists>k routes. EvAdded k routes \<in> set pre \<and> r \<in> set routes \<and> EvRemoved k \<notin> set pre" if "r \<in> set rs" for r
  proof -
    have "kept_route (gwStore t) (rsConfirmed (gwStore t)) r" using tracks(2) target that by (simp add: target_track_def list_all_iff)
    then obtain x where x: "stored (gwStore t) (rtID r) = Some x" "srRoute x = r" "srDesired x \<or> rsConfirmed (gwStore t) < srRemoval x"
      by (auto simp: kept_route_def)
    from own_invD(2) [OF own x(1)] obtain k where k: "k < length (gwAcquisitions t)" "owns (gwAcquisitions t ! k) x" by blast
    then have h: "acq_history (set pre) (gwApplied t) k (gwAcquisitions t ! k)" using reached(2) by (simp add: gateway_history_def)
    have "EvRemoved k \<notin> set pre"
    proof (cases "srDesired x")
      case True
      then have "\<not> withdrawn_stage (aq_stage t k)" using k(2) by (auto simp: owns_def live_stage_def withdrawn_stage_def)
      then show ?thesis using h by (simp add: acq_history_def)
    next
      case False
      then have "gwApplied t < aqRemoval (gwAcquisitions t ! k)" using k(2) x(3) tracks(1) by (auto simp: owns_def store_track_def)
      then show ?thesis using h by (auto simp: acq_history_def)
    qed
    moreover have "aq_stage t k \<notin> {AqBuilding, AqRefused}" "r \<in> set (aqRoutes (gwAcquisitions t ! k))"
      using k(2) x(2) by (auto simp: owns_def live_stage_def withdrawn_stage_def split: if_splits)
    moreover from this h have "EvAdded k (aqRoutes (gwAcquisitions t ! k)) \<in> set pre" by (simp add: acq_history_def)
    ultimately show ?thesis by blast
  qed
  then show ?thesis by (simp add: list_all_iff)
qed

text \<open>
  C26. An acquisition returns descriptors only for the routes it added, and only after a Caddy
  generation has successfully loaded a configuration with all of them.
\<close>

theorem acquired_routes_loaded:
  assumes "run (gateway_step cfg) new_gateway (pre @ EvAcquired k ds # post) s"
  shows "\<exists>routes g rs. EvAdded k routes \<in> set pre \<and> ds = map (route_descriptor (gcBaseURL cfg)) routes \<and>
    EvLoaded g rs \<in> set pre \<and> set routes \<subseteq> set rs"
proof -
  obtain t u where t: "run (gateway_step cfg) new_gateway pre t" "gateway_step cfg t (EvAcquired k ds) u"
    using run_split [OF assms] by (auto simp: run_Cons_iff)
  have stage: "k < length (gwAcquisitions t)" "aq_stage t k = AqRegistering"
    "ds = map (route_descriptor (gcBaseURL cfg)) (aqRoutes (gwAcquisitions t ! k))"
    using t(2) by (cases rule: gateway_step.cases; auto elim: reconcile_step.cases acquisition_step.cases)+
  then have "acq_history (set pre) (gwApplied t) k (gwAcquisitions t ! k)"
    using gateway_reachable(2) [OF t(1)] by (simp add: gateway_history_def)
  then have "EvAdded k (aqRoutes (gwAcquisitions t ! k)) \<in> set pre" "loaded_routes (set pre) (aqRoutes (gwAcquisitions t ! k))"
    using stage(2) by (simp_all add: acq_history_def active_stage_def live_stage_def)
  then show ?thesis using stage(3) by (auto simp: loaded_routes_def)
qed

section \<open>An example\<close>

definition ex_render :: render_package where
  "ex_render =
     \<lparr>rpURL = \<lparr>url_Parse = (\<lambda>v. Some \<lparr>urlScheme = ''http'', urlOpaque = '''', urlUser = False, urlHost = ''127.0.0.1:1'',
                 urlHostname = ''127.0.0.1'', urlPort = ''1'', urlPath = '''', urlForceQuery = False, urlRawQuery = '''', urlFragment = ''''\<rparr>),
               url_ParseRequestURI = (\<lambda>v. None)\<rparr>,
      rpEscapedPath = (\<lambda>v. ''/c/p''), rpLength = (\<lambda>doc. 0)\<rparr>"

definition ex_gateway_config :: gateway_config where
  "ex_gateway_config =
     \<lparr>gcRender = ex_render, gcBaseURL = '''', gcDraws = (\<lambda>n. Some (if n = 0 then ''i'' else if n = 1 then ''c'' else ''k''))\<rparr>"

definition ex_provider :: provider_spec where
  "ex_provider = \<lparr>psID = ''p'', psType = ''openai'', psName = ''P'', psURL = ''u'', psHeaders = []\<rparr>"

definition ex_route :: provider_route where
  "ex_route = \<lparr>rtID = ''i'', rtCapability = ''c'', rtCredential = ''k'', rtProvider = ex_provider\<rparr>"

definition ex_store :: "64 word \<Rightarrow> string \<Rightarrow> bool \<Rightarrow> route_store" where
  "ex_store confirmed token active =
     \<lparr>rsRevision = 1, rsConfirmed = confirmed, rsToken = token,
      rsRoutes = [(''i'', \<lparr>srRoute = ex_route, srDesired = True, srActive = active, srRemoval = 0\<rparr>)], rsCapabilities = [(''c'', ''i'')]\<rparr>"

definition ex_gateway :: "route_store \<Rightarrow> acquisition_stage \<Rightarrow> 64 word \<Rightarrow> reconcile_pc \<Rightarrow> gateway" where
  "ex_gateway store stage applied pc =
     new_gateway\<lparr>gwStore := store, gwApplied := applied,
       gwAcquisitions := [\<lparr>aqSpec = Some [ex_provider], aqRoutes = [ex_route], aqRevision = 1, aqRemoval = 0, aqStage = stage\<rparr>], gwPC := pc\<rparr>"

text \<open>Generation one, loaded with the route or not yet, published or not yet.\<close>

definition ex_running :: "bool \<Rightarrow> bool \<Rightarrow> gateway \<Rightarrow> gateway" where
  "ex_running loaded published s =
     s\<lparr>gwGeneration := Some 1, gwToken := ''t'', gwLoaded := (if published then 1 else 0), gwTarget := (if published then 1 else 0),
       gwCaddy := (if loaded then (\<lambda>g. if g = 1 then [ex_route] else []) else (\<lambda>g. []))\<rparr>"

abbreviation (input) ex_snapshot :: route_snapshot where
  "ex_snapshot \<equiv> \<lparr>rsnRevision = 1, rsnRoutes = [ex_route]\<rparr>"

lemma ex_identity: "validateProviderIdentity ''p'' ''openai'' ''P'' = None"
  by (simp add: validateProviderIdentity_def validateProviderID_def provider_id_def maxProviderIDBytes_def
      ProviderOpenAI_def ValidString_def rune_count_def maxDisplayNameRunes_def TrimSpace_component component_char_def ascii_letter_def
      IsControl_any_def)

lemma ex_url_valid: "validateURL_model (rpURL ex_render) ''u'' = None"
  by (simp add: validateURL_model_def ex_render_def maxURLBytes_def ValidString_def TrimSpace_component component_char_def ascii_letter_def
      Atoi_def ascii_digit_def)

lemma ex_provider_valid: "Provider_validate (rpURL ex_render) ex_provider = None"
  by (simp add: Provider_validate_def ex_provider_def ex_identity validateUpstreamURL_def ex_url_valid validateProviderHeaders_def
      validateHeaders_model_def maxHeaders_def)

lemma ex_tokens: "validCapabilityToken ''i'' maxCredentialBytes" "validCapabilityToken ''c'' maxCredentialBytes"
  "validCapabilityToken ''k'' maxCredentialBytes" "validCapabilityToken ''t'' maxCredentialBytes"
  by (simp_all add: validCapabilityToken_def maxCredentialBytes_def ascii_letter_def)

lemma ex_route_valid: "Route_validate (rpURL ex_render) ex_route = None"
  by (simp add: Route_validate_def ex_route_def ex_tokens ex_provider_valid)

lemma ex_built: "buildRoutes (rpURL ex_render) (gcDraws ex_gateway_config) (Some [ex_provider]) 0 = Inr ([ex_route], 3)"
  by (simp add: buildRoutes_def Request_validate_def maxProviders_def ex_provider_valid ex_gateway_config_def
      routeGenerationAttempts_def eval_nat_numeral ex_tokens ex_route_def)

lemma ex_trim: "TrimSpace ''/c/p'' = ''/c/p''"
  by code_simp

lemma ex_descriptor: "Descriptor_validate ex_render (route_descriptor '''' ex_route) = None"
proof -
  have "validateCapabilityURL ex_render ''/c/p'' ''p''"
    by (simp add: validateCapabilityURL_def ex_trim ex_render_def maxURLBytes_def Atoi_def ascii_digit_def ex_tokens)
  then show ?thesis
    by (simp add: Descriptor_validate_def route_descriptor_def ex_route_def ex_provider_def routePrefix_def ex_identity ex_tokens)
qed

lemma ex_acquire:
  "acquire_routes ex_gateway_config newRouteStore (Some [ex_provider]) 0 = Inr ([ex_route], ex_store 0 '''' False, 1, 3)"
proof -
  have "encodeProviderDescriptorConfig ex_render [route_descriptor '''' ex_route] = None"
    by (simp add: encodeProviderDescriptorConfig_def maxProviders_def ex_descriptor) (simp add: ex_render_def)
  moreover have "store_add (rpURL ex_render) newRouteStore [ex_route] = Inr (ex_store 0 '''' False, 1)"
    by (simp add: store_add_def newRouteStore_def maxGatewayRoutes_def ex_route_valid nextRevisionLocked_def MaxRevision_def put_route_def
        ex_store_def) (simp add: ex_route_def)
  moreover have "gcRender ex_gateway_config = ex_render" "gcBaseURL ex_gateway_config = ''''" by (simp_all add: ex_gateway_config_def)
  ultimately show ?thesis by (simp add: acquire_routes_def ex_built ex_descriptor)
qed

text \<open>A route that is acquired, loaded, published, activated and returned, and then used.\<close>

lemma reconcile_to: "reconcile_step cfg s ev t' \<Longrightarrow> t' = t \<Longrightarrow> gateway_step cfg s ev t"
  by (auto intro: gateway_step.reconcile)

lemma acquisition_to:
  "acquisition_step cfg 0 s ev t' \<Longrightarrow> gwAcquisitions s \<noteq> [] \<Longrightarrow> t' = t \<Longrightarrow> gateway_step cfg s ev t"
  by (auto intro: gateway_step.acquisition)

lemma ex_token_set: "setGenerationToken (ex_store 0 '''' False) ''t'' = Inr (ex_store 0 ''t'' False)"
  by (simp add: setGenerationToken_def ex_tokens ex_store_def)

lemma ex_rendered: "renderCaddyConfig (gcRender ex_gateway_config) [ex_route] ''t'' \<noteq> Inl e"
proof -
  have "renderProviderRoute ex_render ''t'' ex_route \<noteq> Inl e" for e
    by (simp add: renderProviderRoute_def ex_render_def renderUpstreamProxy_def upstreamDialAddress_def Let_def)
  then obtain doc where "renderProviderRoute ex_render ''t'' ex_route = Inr doc" by (cases "renderProviderRoute ex_render ''t'' ex_route") auto
  moreover have "rpLength ex_render = (\<lambda>doc. 0)" "gcRender ex_gateway_config = ex_render" by (simp_all add: ex_render_def ex_gateway_config_def)
  ultimately show ?thesis by (simp add: renderCaddyConfig_def ex_tokens ex_route_valid)
qed

lemma loaded_to:
  "gwPC s = PcLoad snap \<Longrightarrow> gwGeneration s = Some g \<Longrightarrow> \<not> render_refused cfg s snap \<Longrightarrow> rs = rsnRoutes snap \<Longrightarrow>
    reconcile_load cfg s snap Loaded True = t \<Longrightarrow> gateway_step cfg s (EvLoaded g rs) t"
  by (auto intro: gateway_step.reconcile reconcile_step.loaded)

lemma registered_to:
  assumes "gwAcquisitions s = [a]" "aqStage a = AqRegistering" "\<not> gwClosing s" "ds = map (route_descriptor (gcBaseURL cfg)) (aqRoutes a)"
    "s\<lparr>gwAcquisitions := [a\<lparr>aqStage := AqHeld\<rparr>]\<rparr> = t"
  shows "gateway_step cfg s (EvAcquired 0 ds) t"
proof -
  have "acquisition_step cfg 0 s (EvAcquired 0 ds) t"
    using acquisition_step.registered [of s 0 cfg] assms by (simp add: set_stage_def)
  then show ?thesis using gateway_step.acquisition [of 0 s cfg] assms(1) by simp
qed

lemmas ex_gateway_defs = ex_gateway_def ex_running_def new_gateway_def

lemma ex_steps:
  "gateway_step ex_gateway_config new_gateway (EvRequested 0)
     (new_gateway\<lparr>gwAcquisitions := [\<lparr>aqSpec = Some [ex_provider], aqRoutes = [], aqRevision = 0, aqRemoval = 0, aqStage = AqBuilding\<rparr>]\<rparr>)"
  "gateway_step ex_gateway_config
     (new_gateway\<lparr>gwAcquisitions := [\<lparr>aqSpec = Some [ex_provider], aqRoutes = [], aqRevision = 0, aqRemoval = 0, aqStage = AqBuilding\<rparr>]\<rparr>)
     (EvAdded 0 [ex_route]) (ex_gateway (ex_store 0 '''' False) AqWaiting 0 PcTop)"
  using gateway_step.requested [of new_gateway ex_gateway_config "Some [ex_provider]"]
  subgoal by (simp add: new_gateway_def)
  subgoal
    by (rule acquisition_to, rule acquisition_step.added [where n = 0 and routes = "[ex_route]"])
      (simp_all add: new_gateway_def ex_acquire ex_gateway_def)
  done

lemma ex_loop:
  fixes st :: acquisition_stage
  defines "store \<equiv> ex_store 0 '''' False" and "store' \<equiv> ex_store 0 ''t'' False"
  shows "gateway_step ex_gateway_config (ex_gateway store st 0 PcTop) EvInternal (ex_gateway store st 0 PcSnapshot)"
    "gateway_step ex_gateway_config (ex_gateway store st 0 PcSnapshot) EvInternal (ex_gateway store st 0 (PcCheck ex_snapshot))"
    "gateway_step ex_gateway_config (ex_gateway store st 0 (PcCheck ex_snapshot)) EvInternal (ex_gateway store st 0 (PcPlan ex_snapshot))"
    "gateway_step ex_gateway_config (ex_gateway store st 0 (PcPlan ex_snapshot)) EvInternal (ex_gateway store st 0 (PcAcquire ex_snapshot))"
    "gateway_step ex_gateway_config (ex_gateway store st 0 (PcAcquire ex_snapshot)) EvInternal
       (ex_gateway store st 0 (PcToken ex_snapshot)\<lparr>gwGeneration := Some 1\<rparr>)"
    "gateway_step ex_gateway_config (ex_gateway store st 0 (PcToken ex_snapshot)\<lparr>gwGeneration := Some 1\<rparr>) EvInternal
       (ex_running False False (ex_gateway store' st 0 (PcLoad ex_snapshot)))"
    "gateway_step ex_gateway_config (ex_running False False (ex_gateway store' st 0 (PcLoad ex_snapshot))) (EvLoaded 1 [ex_route])
       (ex_running True False (ex_gateway store' st 0 (PcPublish ex_snapshot)))"
    "gateway_step ex_gateway_config (ex_running True False (ex_gateway store' st 0 (PcPublish ex_snapshot))) EvInternal
       (ex_running True True (ex_gateway store' st 0 (PcConfirm ex_snapshot)))"
    "gateway_step ex_gateway_config (ex_running True True (ex_gateway store' st 0 (PcConfirm ex_snapshot))) EvInternal
       (ex_running True True (ex_gateway (ex_store 1 ''t'' False) st 0 (PcApplied ex_snapshot)))"
    "gateway_step ex_gateway_config (ex_running True True (ex_gateway (ex_store 1 ''t'' False) st 0 (PcApplied ex_snapshot))) EvInternal
       (ex_running True True (ex_gateway (ex_store 1 ''t'' False) st 1 PcWait))"
  subgoal by (rule reconcile_to, rule reconcile_step.top) (simp_all add: ex_gateway_defs reconcile_top_def)
  subgoal by (rule reconcile_to, rule reconcile_step.snapshot)
    (simp_all add: ex_gateway_defs store_def store_snapshot_def ex_store_def)
  subgoal by (rule reconcile_to, rule reconcile_step.check) (simp_all add: ex_gateway_defs reconcile_check_def revisionFailed_def)
  subgoal by (rule reconcile_to, rule reconcile_step.plan) (auto simp: ex_gateway_defs reconcile_plan_def)
  subgoal by (rule reconcile_to, rule reconcile_step.acquire [where result = "Some 1"]) (simp_all add: ex_gateway_defs reconcile_acquired_def)
  subgoal by (rule reconcile_to, rule reconcile_step.token [where drawn = "Some ''t''"])
    (auto simp: ex_gateway_defs reconcile_token_def Let_def store_def store'_def ex_token_set)
  subgoal by (rule loaded_to [where snap = ex_snapshot])
    (auto simp: ex_gateway_defs reconcile_load_def Let_def render_refused_def ex_rendered fun_eq_iff split: sum.splits)
  subgoal by (rule reconcile_to, rule reconcile_step.publish) (simp_all add: ex_gateway_defs reconcile_publish_def relay_publish_def)
  subgoal by (rule reconcile_to, rule reconcile_step.confirm)
    (auto simp: ex_gateway_defs store'_def ex_store_def store_confirm_def removable_def)
  subgoal by (rule reconcile_to, rule reconcile_step.applied) (auto simp: ex_gateway_defs gateway_confirm_def)
  done

definition ex_auth :: auth_request where
  "ex_auth =
     \<lparr>aqMethod = ''GET'', aqURL = Some (''/authorize/i'', ''''),
      aqHeader = [(''X-Toby-Gateway-Token'', [''t'']), (''X-Toby-Capability'', [''c'']), (''Authorization'', [''Bearer k''])]\<rparr>"

lemma ex_authorized: "authorize (ex_store 1 ''t'' True) ex_auth"
  by code_simp

lemma ex_served:
  defines "held \<equiv> ex_running True True (ex_gateway (ex_store 1 ''t'' True) AqHeld 1 PcWait)"
  shows "gateway_step ex_gateway_config (ex_running True True (ex_gateway (ex_store 1 ''t'' False) AqWaiting 1 PcWait)) (EvApplied 0)
       (ex_running True True (ex_gateway (ex_store 1 ''t'' False) AqActivating 1 PcWait))"
    "gateway_step ex_gateway_config (ex_running True True (ex_gateway (ex_store 1 ''t'' False) AqActivating 1 PcWait)) (EvActivated 0)
       (ex_running True True (ex_gateway (ex_store 1 ''t'' True) AqRegistering 1 PcWait))"
    "gateway_step ex_gateway_config (ex_running True True (ex_gateway (ex_store 1 ''t'' True) AqRegistering 1 PcWait))
       (EvAcquired 0 [route_descriptor '''' ex_route]) held"
    "gateway_step ex_gateway_config held (EvAllowed ex_auth) held"
    "gateway_step ex_gateway_config held (EvRelayed 1 [ex_route]) held"
  subgoal by (rule acquisition_to, rule acquisition_step.routes_applied) (simp_all add: ex_gateway_defs waitRevision_def set_stage_def)
  subgoal by (rule acquisition_to, rule acquisition_step.activated [where store = "ex_store 1 ''t'' True"])
    (simp_all add: ex_gateway_defs set_stage_def store_activate_def ex_store_def routeIDs_def, simp_all add: ex_route_def)
  subgoal
    by (rule registered_to [where a = "\<lparr>aqSpec = Some [ex_provider], aqRoutes = [ex_route], aqRevision = 1, aqRemoval = 0, aqStage = AqRegistering\<rparr>"])
      (simp_all add: held_def ex_gateway_defs ex_gateway_config_def)
  subgoal
    by (rule gateway_step.allowed) (simp add: held_def ex_gateway_defs ex_authorized)
  subgoal
    using gateway_step.relayed [of held 1 ex_gateway_config] by (simp add: held_def ex_gateway_defs)
  done

definition ex_gw_opened :: "gateway_event list" where
  "ex_gw_opened =
     [EvRequested 0, EvAdded 0 [ex_route], EvInternal, EvInternal, EvInternal, EvInternal, EvInternal, EvInternal, EvLoaded 1 [ex_route],
      EvInternal, EvInternal, EvInternal, EvApplied 0, EvActivated 0]"

lemma ex_gw_run:
  "run (gateway_step ex_gateway_config) new_gateway
     (ex_gw_opened @ [EvAcquired 0 [route_descriptor '''' ex_route], EvAllowed ex_auth, EvRelayed 1 [ex_route]])
     (ex_running True True (ex_gateway (ex_store 1 ''t'' True) AqHeld 1 PcWait))"
  unfolding ex_gw_opened_def append.simps by (rule run_cons, rule ex_steps ex_loop ex_served)+ (rule run_nil)

theorem allowed_only_while_granted_witness:
  "\<exists>k routes r. EvAdded k routes \<in> set (ex_gw_opened @ [EvAcquired 0 [route_descriptor '''' ex_route]]) \<and> r \<in> set routes \<and>
     requested_route ex_auth = Some (rtID r)"
proof -
  have "run (gateway_step ex_gateway_config) new_gateway ((ex_gw_opened @ [EvAcquired 0 [route_descriptor '''' ex_route]]) @
      EvAllowed ex_auth # [EvRelayed 1 [ex_route]]) (ex_running True True (ex_gateway (ex_store 1 ''t'' True) AqHeld 1 PcWait))"
    using ex_gw_run by simp
  from allowed_only_while_granted [OF this] show ?thesis by blast
qed

theorem released_routes_unpublished_witness:
  "\<exists>k routes. EvAdded k routes \<in> set (ex_gw_opened @ [EvAcquired 0 [route_descriptor '''' ex_route], EvAllowed ex_auth]) \<and> ex_route \<in> set routes"
proof -
  have "rsRevision (gwStore (ex_running True True (ex_gateway (ex_store 1 ''t'' True) AqHeld 1 PcWait))) \<noteq> MaxRevision"
    by (simp add: ex_gateway_defs ex_store_def MaxRevision_def)
  moreover have "run (gateway_step ex_gateway_config) new_gateway
      ((ex_gw_opened @ [EvAcquired 0 [route_descriptor '''' ex_route], EvAllowed ex_auth]) @ EvRelayed 1 [ex_route] # [])
      (ex_running True True (ex_gateway (ex_store 1 ''t'' True) AqHeld 1 PcWait))"
    using ex_gw_run by simp
  ultimately show ?thesis using released_routes_unpublished by fastforce
qed

theorem acquired_routes_loaded_witness:
  "\<exists>routes g rs. EvAdded 0 routes \<in> set ex_gw_opened \<and> EvLoaded g rs \<in> set ex_gw_opened \<and> set routes \<subseteq> set rs"
  using acquired_routes_loaded [OF ex_gw_run [unfolded append_Cons]] by blast

end
