(* ===== verification/Spec2Isabelle.thy ===== *)
theory Spec2Isabelle
  imports Approval_Properties Resource_Properties Tools_Properties Bwrap_Properties Bwrap_Service_Properties HostAction_Properties
    Config_Patch_Properties Config_Set_Properties Config_Launch_Properties
    Config_Resources_Properties Lease_Properties Resource_Builder_Properties Provider_Properties
begin

text \<open>
  Toby runs coding agents in a Bubblewrap sandbox. A launch reads the host configuration, the
  project configuration set and the command line, plans a sandbox, starts it, and serves it from the
  host: an agent process shared by the launches of a user keeps MCP servers, model gateways and
  images as leased resources, and a per-launch router executes host actions (Git) after asking the
  user. This development models the decisions of that program, not its system calls: what is
  configured, what is planned, who may do what, and the order in which concurrent callers may make
  these decisions take effect.

  \<^bold>\<open>Theories and source\<close> (paths are below \<open>src/\<close>)

  \<^item> \<open>Prelude\<close>, \<open>Go_Strings\<close>, \<open>Go_Text\<close>, \<open>Paths\<close>: Go values, errors as verdicts and sums, runs of
    step relations, and the functions of \<open>strings\<close>, \<open>strconv\<close>, \<open>unicode/utf8\<close> and \<open>path/filepath\<close>
    the code uses, over byte strings.
  \<^item> \<open>Permission\<close>, \<open>Approval\<close>, \<open>Approval_Proofs\<close>, \<open>Approval_Runs\<close>, \<open>Approval_Properties\<close>:
    \<open>internal/permission\<close> and \<open>internal/approval\<close>. The registry is a record of its Go fields; each
    method is one function, because the code holds the mutex for its whole body, and one rule of
    \<open>approval_step\<close>.
  \<^item> \<open>HostAction\<close>, \<open>HostAction_Service\<close>, \<open>HostAction_Runs\<close>, \<open>HostAction_Properties\<close>:
    \<open>internal/hostaction\<close> (\<open>rpc.go\<close>, \<open>router.go\<close>), the Git and approvals methods below
    \<open>internal/hostaction/methods\<close>, and the teardown order of \<open>internal/session/run\<close>. The approvals
    service sits on the registry: its calls are those of \<open>Approval\<close>.
  \<^item> \<open>Resource_Types\<close>, \<open>Resource_Registry\<close>, \<open>Resource_Steps\<close>, \<open>Resource_Life\<close>, \<open>Resource_Handles\<close>,
    \<open>Resource_Inv\<close>, \<open>Resource_Preserve\<close> (with \<open>_Start\<close>, \<open>_Workers\<close>, \<open>_Stop\<close>), \<open>Resource_Runs\<close>,
    \<open>Resource_Properties\<close>: \<open>internal/agent/resource\<close>, the registry of background processes. Every
    critical section of its mutex is a function, every caller, worker, timer and exit a rule of the
    step relation. \<open>Resource_Builder\<close> and \<open>Resource_Builder_Properties\<close> model \<open>builder.go\<close>, which
    computes the key an entry is registered under.
  \<^item> \<open>Lease_Registry\<close>, \<open>Lease_Spec\<close>, \<open>Lease_Proofs\<close>, \<open>Lease_Properties\<close>:
    \<open>internal/agent/resourcelease\<close>, the leases through which the launches use the agent's resources.
    Entries and leases are objects shared by several maps, so they live in stores and the maps hold
    positions.
  \<^item> \<open>Tools\<close>, \<open>Tools_Proofs\<close>, \<open>Tools_Properties\<close>: \<open>internal/tools\<close> (\<open>base.go\<close>, \<open>registry.go\<close>,
    \<open>catalog.go\<close>, \<open>toolset.go\<close>).
  \<^item> \<open>Mount\<close>, \<open>Bwrap_Plan\<close>, \<open>Bwrap_Graph\<close>, \<open>Bwrap_Valid\<close>, \<open>Bwrap_Sources\<close>, \<open>Bwrap_Isolation\<close>,
    \<open>Bwrap_Render\<close>, \<open>Bwrap_Properties\<close>, \<open>Bwrap_Service\<close>, \<open>Bwrap_Service_Properties\<close>:
    \<open>internal/sandbox/layout\<close>, \<open>internal/sandbox/mount\<close> and \<open>internal/sandbox/bwrap\<close>: the plan of a
    sandbox, its validators and builder, the checks of its open descriptors, and its rendering; and
    the same for the services and sidecars of the agent.
  \<^item> \<open>Host_Config\<close>, \<open>Config_App\<close>, \<open>Config_App_Properties\<close>: \<open>internal/config\<close>, \<open>internal/config/file\<close>
    and \<open>internal/config/app\<close>, the host configuration.
  \<^item> \<open>Config_Launch\<close>, \<open>Config_Launch_Properties\<close>, \<open>Config_Yaml\<close>, \<open>Config_Set\<close>, \<open>Config_Yaml_Proofs\<close>,
    \<open>Config_Set_Properties\<close>: \<open>internal/config/launch\<close>, one launch file and the set of a project.
  \<^item> \<open>Config_MCP\<close>, \<open>Config_MCP_Properties\<close>, \<open>Config_Models\<close>, \<open>Config_Resources\<close>,
    \<open>Config_Resources_Properties\<close>: \<open>internal/config/mcp\<close>, \<open>internal/config/models\<close> and the part of
    \<open>internal/config/app\<close> that resolves instructions, substitutions, MCP servers and models.
  \<^item> \<open>Config_Patch\<close>, \<open>Config_Patch_Spec\<close>, \<open>Config_Patch_Proofs\<close>, \<open>Config_Patch_Properties\<close>:
    \<open>internal/configpatch\<close>, edits of a JSON or TOML document.
  \<^item> \<open>Provider_Routes\<close>, \<open>Provider_Render\<close>, \<open>Provider_Gateway\<close>, \<open>Provider_Inv\<close>, \<open>Provider_Proofs\<close>,
    \<open>Provider_History\<close>, \<open>Provider_Properties\<close>: \<open>internal/providergateway\<close>, the gateway that gives
    sandboxes revocable routes to model providers without showing them the provider's secrets. The
    route store, the Caddy document, and one step relation for acquisitions, the reconciling
    goroutine and the relay.

  \<^bold>\<open>How the state corresponds\<close>

  A Go struct is a record with a field per field, a Go map an association list with distinct keys
  (or a list in the order the map happens to be visited, where that can be observed), an error
  result a \<open>verdict\<close> or the left side of a sum. Signed 64-bit counters that cannot overflow are
  integers; counters whose overflow the code handles are words. A mutex-protected method is atomic;
  where a handler releases a mutex in the middle, its sections are separate steps. Channels that
  are only closed are flags, and closing one twice is the panic it is in Go. Contexts, timers and
  the scheduler are steps that may or may not happen.

  \<^bold>\<open>What the lemmas show\<close>

  Each component has an invariant of its state, preserved by every operation and lifted to runs by
  the locale \<open>step_invariant\<close>; capabilities that can be used once are instances of \<open>one_shot\<close>, facts
  that must have had a cause instances of \<open>justified\<close> or \<open>explained\<close>, and refinement of a smaller
  machine an instance of \<open>step_simulation\<close>; a relation between all past events and the state is an
  instance of \<open>step_history\<close>. Validators are characterised by what they accept
  (the collection \<open>verdict_simps\<close>), so that the properties of plans and configurations follow from
  acceptance alone. Functions with a mathematical specification are shown equal to it: compiled
  patches, the topological order, merging, rendering, the order of keys.

  \<^bold>\<open>Bounds and termination\<close>

  Random identifiers come from a list of draws; \<open>newIDLocked_returns\<close> says how many suffice.
  The walk from a directory to its root may not end for an arbitrary kernel: \<open>lineage_loop\<close> is a
  \<open>partial_function\<close>, and on a directory tree it is shown to return. The other loops have
  measures: what remains of the input (\<open>ReplaceAll\<close>, \<open>resolveString\<close>, \<open>topo_loop\<close>, \<open>trim_left\<close>), the tools
  not yet gathered (\<open>gather\<close>), the size of documents (\<open>Merge\<close>, \<open>mergeYAMLMapping\<close>), the exponent of
  the backoff (\<open>backoff_loop\<close>). The normalisation of YAML recurses on the bounds of the code itself,
  the depth of one hundred and the node budget of a source.

  \<^bold>\<open>Parameters\<close>

  The kernel's answers about descriptors, directories and links, the environment, the file system
  seen by the configuration, the codecs of JSON, TOML and YAML, the application of RFC 6902
  operations, the URL parser, HMAC and digests, random values, and the resolvers, openers, factories
  and process pools behind interfaces are arguments of the definitions that use them. Hypotheses
  about them are stated where they are used and shown satisfiable by the witnesses.

  \<^bold>\<open>Not modelled\<close>

  \<^item> System calls and processes: the executors of \<open>bwrap\<close> and \<open>pasta\<close>, terminals, anonymous files,
    the safe file system and storage locks, sockets, relays and descriptor passing, the supervised
    Git child. Their behaviour is that of the kernel; the code around them sequences calls.
  \<^item> Third-party protocols: gRPC streams and generated messages, MCP sessions and HTTP bridging,
    OCI registries and layers, the command-line parser.
  \<^item> Declarations and output: the built-in tools (install commands and file shapes), the Toby MCP
    server's rendering of results, the status display, diagnostics.
  \<^item> Cloning of slices and maps, which is the identity on values, nil receivers and nil contexts,
    and the text of error messages beyond the data they carry.
\<close>

end
